(* ===== verification/Coord_Prelude.thy ===== *)
theory Coord_Prelude
  imports
    Main
    "HOL-Library.AList"
    "HOL-Library.Char_ord"
    "HOL-Library.List_Lexorder"
    "HOL-Library.Sublist"
begin

text \<open>
  Shared vocabulary of the development: exceptions as values, the result type every fallible
  operation of the coordinator returns, the fact collections that the component proofs use, and
  generic lemmas on results, association lists and bounded histories.

  A Python function that may raise is a HOL function into \<open>exc + 'a\<close>: \<open>Inl e\<close> is the raised
  exception, \<open>Inr x\<close> the returned value. \<open>bindE\<close> sequences two such calls and \<open>catchE\<close> is the
  \<open>try\<close>/\<open>except\<close> statement.
\<close>

named_theorems result_simps \<open>rewrite rules that turn a successful run into its steps\<close>
named_theorems dict_simps \<open>reading a key of an updated dictionary\<close>
named_theorems type_simps \<open>Python type tests\<close>
named_theorems frame_simps \<open>fields an operation leaves alone\<close>

section \<open>Exceptions and results\<close>

datatype exc =
    ValueError string
  | RuntimeError string
  | GateError string
  | KeyError string
  | TypeError string
  | AttributeError string
  | OverflowError string
  | PolicyError string
  | IdempotentMutationError string
  | StorageCorruptionError string
  | TaskSpecPolicyError string
  | RolesError string
  | StorageCommittedError string

type_synonym 'a result = "exc + 'a"

text \<open>\<open>except ValueError\<close> also catches \<open>GateError\<close> and \<open>RolesError\<close>, which are subclasses of it; \<open>except
  RuntimeError\<close> also catches \<open>PolicyError\<close>, \<open>IdempotentMutationError\<close>, \<open>StorageCorruptionError\<close>,
  \<open>StorageCommittedError\<close> and \<open>TaskSpecPolicyError\<close>.\<close>

fun is_value_error :: "exc \<Rightarrow> bool" where
  "is_value_error (ValueError _) = True"
| "is_value_error (GateError _) = True"
| "is_value_error (RolesError _) = True"
| "is_value_error _ = False"

fun is_runtime_error :: "exc \<Rightarrow> bool" where
  "is_runtime_error (RuntimeError _) = True"
| "is_runtime_error (PolicyError _) = True"
| "is_runtime_error (IdempotentMutationError _) = True"
| "is_runtime_error (StorageCorruptionError _) = True"
| "is_runtime_error (TaskSpecPolicyError _) = True"
| "is_runtime_error (StorageCommittedError _) = True"
| "is_runtime_error _ = False"

fun is_gate_error :: "exc \<Rightarrow> bool" where
  "is_gate_error (GateError _) = True"
| "is_gate_error _ = False"

fun exc_message :: "exc \<Rightarrow> string" where
  "exc_message (ValueError m) = m"
| "exc_message (RuntimeError m) = m"
| "exc_message (GateError m) = m"
| "exc_message (KeyError m) = m"
| "exc_message (TypeError m) = m"
| "exc_message (AttributeError m) = m"
| "exc_message (OverflowError m) = m"
| "exc_message (PolicyError m) = m"
| "exc_message (IdempotentMutationError m) = m"
| "exc_message (StorageCorruptionError m) = m"
| "exc_message (TaskSpecPolicyError m) = m"
| "exc_message (RolesError m) = m"
| "exc_message (StorageCommittedError m) = m"

definition bindE :: "'a result \<Rightarrow> ('a \<Rightarrow> 'b result) \<Rightarrow> 'b result" where
  "bindE m f = (case m of Inl e \<Rightarrow> Inl e | Inr x \<Rightarrow> f x)"

definition catchE :: "'a result \<Rightarrow> (exc \<Rightarrow> 'a result) \<Rightarrow> 'a result" where
  "catchE m h = (case m of Inl e \<Rightarrow> h e | Inr x \<Rightarrow> Inr x)"

text \<open>\<open>raise_if c e\<close> is the statement \<open>if c: raise e\<close>.\<close>

definition raise_if :: "bool \<Rightarrow> exc \<Rightarrow> unit result" where
  "raise_if c e = (if c then Inl e else Inr ())"

text \<open>\<open>except ValueError as error: raise RuntimeError(str(error)) from error\<close>, and the variants of
  it that replace the message.\<close>

definition value_to_runtime :: "'a result \<Rightarrow> 'a result" where
  "value_to_runtime m = catchE m (\<lambda>e. if is_value_error e then Inl (RuntimeError (exc_message e)) else Inl e)"

definition value_to :: "exc \<Rightarrow> 'a result \<Rightarrow> 'a result" where
  "value_to e' m = catchE m (\<lambda>e. if is_value_error e then Inl e' else Inl e)"

definition succeeds :: "'a result \<Rightarrow> bool" where
  "succeeds m = (case m of Inl _ \<Rightarrow> False | Inr _ \<Rightarrow> True)"

text \<open>The short-circuit \<open>or\<close> and \<open>and\<close> of tests that may raise.\<close>

definition orE :: "bool result \<Rightarrow> bool result \<Rightarrow> bool result" where
  "orE a b = (case a of Inl e \<Rightarrow> Inl e | Inr True \<Rightarrow> Inr True | Inr False \<Rightarrow> b)"

definition andE :: "bool result \<Rightarrow> bool result \<Rightarrow> bool result" where
  "andE a b = (case a of Inl e \<Rightarrow> Inl e | Inr True \<Rightarrow> b | Inr False \<Rightarrow> Inr False)"

lemma orE_simps [simp]:
  "orE (Inl e) b = Inl e"
  "orE (Inr True) b = Inr True"
  "orE (Inr False) b = b"
  by (simp_all add: orE_def)

lemma andE_simps [simp]:
  "andE (Inl e) b = Inl e"
  "andE (Inr True) b = b"
  "andE (Inr False) b = Inr False"
  by (simp_all add: andE_def)

lemma orE_Inr_False [result_simps]: "orE a b = Inr False \<longleftrightarrow> a = Inr False \<and> b = Inr False"
  by (auto simp: orE_def split: sum.splits bool.splits)

lemma orE_Inr_Inr [simp]: "orE (Inr x) (Inr y) = Inr (x \<or> y)"
  by (cases x) simp_all

lemma andE_Inr_True [result_simps]: "andE a b = Inr True \<longleftrightarrow> a = Inr True \<and> b = Inr True"
  by (auto simp: andE_def split: sum.splits bool.splits)

lemma andE_Inr_Inr [simp]: "andE (Inr x) (Inr y) = Inr (x \<and> y)"
  by (cases x) simp_all

lemma bindE_simps [simp]:
  "bindE (Inl e) f = Inl e"
  "bindE (Inr x) f = f x"
  by (simp_all add: bindE_def)

lemma catchE_simps [simp]:
  "catchE (Inl e) h = h e"
  "catchE (Inr x) h = Inr x"
  by (simp_all add: catchE_def)

lemma bindE_Inr [result_simps]: "bindE m f = Inr y \<longleftrightarrow> (\<exists>x. m = Inr x \<and> f x = Inr y)"
  by (cases m) auto

lemma bindE_Inl: "bindE m f = Inl e \<longleftrightarrow> m = Inl e \<or> (\<exists>x. m = Inr x \<and> f x = Inl e)"
  by (cases m) auto

lemma raise_if_Inr [result_simps]: "raise_if c e = Inr u \<longleftrightarrow> \<not> c"
  by (simp add: raise_if_def)

lemma raise_if_simps [simp]:
  "raise_if True e = Inl e"
  "raise_if False e = Inr ()"
  by (simp_all add: raise_if_def)

lemma value_to_runtime_Inr [result_simps]: "value_to_runtime m = Inr x \<longleftrightarrow> m = Inr x"
  by (cases m) (simp_all add: value_to_runtime_def)

lemma value_to_Inr [result_simps]: "value_to e m = Inr x \<longleftrightarrow> m = Inr x"
  by (cases m) (simp_all add: value_to_def)

lemma value_to_simps [simp]:
  "value_to e (Inr x) = Inr x"
  "value_to_runtime (Inr x) = Inr x"
  by (simp_all add: value_to_def value_to_runtime_def)

lemma if_Inl_Inr [result_simps]:
  "(if c then Inl e else m) = Inr x \<longleftrightarrow> \<not> c \<and> m = Inr x"
  "(if c then m else Inl e) = Inr x \<longleftrightarrow> c \<and> m = Inr x"
  by simp_all

text \<open>Validators that return a list of messages: no message means that no test failed.\<close>

lemma if_messages [result_simps]:
  "(if c then Inr (x # xs) else m) = Inr [] \<longleftrightarrow> \<not> c \<and> m = Inr []"
  "(if ms \<noteq> [] then Inr ms else m) = Inr [] \<longleftrightarrow> ms = [] \<and> m = Inr []"
  "(if c then x # xs else ms) = [] \<longleftrightarrow> \<not> c \<and> ms = []"
  by auto

lemma succeeds_iff: "succeeds m \<longleftrightarrow> (\<exists>x. m = Inr x)"
  by (cases m) (simp_all add: succeeds_def)

lemma succeeds_Inr [simp]: "succeeds (Inr x)" and not_succeeds_Inl [simp]: "\<not> succeeds (Inl e)"
  by (simp_all add: succeeds_def)

text \<open>A loop over a list whose body may raise stops at the first exception.\<close>

fun for_each :: "('a \<Rightarrow> unit result) \<Rightarrow> 'a list \<Rightarrow> unit result" where
  "for_each f [] = Inr ()"
| "for_each f (x # xs) = bindE (f x) (\<lambda>_. for_each f xs)"

fun fold_result :: "('a \<Rightarrow> 'b \<Rightarrow> 'b result) \<Rightarrow> 'a list \<Rightarrow> 'b \<Rightarrow> 'b result" where
  "fold_result f [] s = Inr s"
| "fold_result f (x # xs) s = bindE (f x s) (fold_result f xs)"

fun map_result :: "('a \<Rightarrow> 'b result) \<Rightarrow> 'a list \<Rightarrow> 'b list result" where
  "map_result f [] = Inr []"
| "map_result f (x # xs) = bindE (f x) (\<lambda>y. bindE (map_result f xs) (\<lambda>ys. Inr (y # ys)))"

text \<open>\<open>[x for x in xs if p(x)]\<close> and \<open>next((x for x in xs if p(x)), None)\<close> with a test that may
  raise.\<close>

fun filter_result :: "('a \<Rightarrow> bool result) \<Rightarrow> 'a list \<Rightarrow> 'a list result" where
  "filter_result p [] = Inr []"
| "filter_result p (x # xs) =
     bindE (p x) (\<lambda>b. bindE (filter_result p xs) (\<lambda>ys. Inr (if b then x # ys else ys)))"

text \<open>\<open>any(p(x) for x in xs)\<close> and \<open>all(p(x) for x in xs)\<close> with a test that may raise.\<close>

fun any_result :: "('a \<Rightarrow> bool result) \<Rightarrow> 'a list \<Rightarrow> bool result" where
  "any_result p [] = Inr False"
| "any_result p (x # xs) = orE (p x) (any_result p xs)"

fun all_result :: "('a \<Rightarrow> bool result) \<Rightarrow> 'a list \<Rightarrow> bool result" where
  "all_result p [] = Inr True"
| "all_result p (x # xs) = andE (p x) (all_result p xs)"

lemma any_result_False [result_simps]: "any_result p xs = Inr False \<longleftrightarrow> (\<forall>x \<in> set xs. p x = Inr False)"
  by (induction xs) (auto simp: orE_Inr_False)

lemma all_result_True [result_simps]: "all_result p xs = Inr True \<longleftrightarrow> (\<forall>x \<in> set xs. p x = Inr True)"
  by (induction xs) (auto simp: andE_Inr_True)

lemma any_result_total: "(\<And>x. x \<in> set xs \<Longrightarrow> p x = Inr (q x)) \<Longrightarrow> any_result p xs = Inr (list_ex q xs)"
  by (induction xs) auto

lemma for_each_Inr [result_simps]: "for_each f xs = Inr u \<longleftrightarrow> (\<forall>x \<in> set xs. f x = Inr ())"
  by (induction xs) (auto simp: result_simps)

lemma filter_result_total:
  "(\<And>x. x \<in> set xs \<Longrightarrow> p x = Inr (q x)) \<Longrightarrow> filter_result p xs = Inr (filter q xs)"
  by (induction xs) auto

lemma map_result_total:
  "(\<And>x. x \<in> set xs \<Longrightarrow> f x = Inr (g x)) \<Longrightarrow> map_result f xs = Inr (map g xs)"
  by (induction xs) auto

lemma map_result_length: "map_result f xs = Inr ys \<Longrightarrow> length ys = length xs"
  by (induction xs arbitrary: ys) (auto simp: result_simps)

lemma map_result_Inr_iff:
  "map_result f xs = Inr ys \<longleftrightarrow> list_all2 (\<lambda>x y. f x = Inr y) xs ys"
proof (induction xs arbitrary: ys)
  case (Cons x xs)
  then show ?case
    by (cases ys) (auto simp: result_simps)
qed auto

section \<open>Bounded histories\<close>

text \<open>\<open>xs[-n:]\<close> keeps the newest \<open>n\<close> entries of a history.\<close>

definition keep_last :: "nat \<Rightarrow> 'a list \<Rightarrow> 'a list" where
  "keep_last n xs = drop (length xs - n) xs"

lemma length_keep_last [simp]: "length (keep_last n xs) = min n (length xs)"
  by (auto simp: keep_last_def)

lemma keep_last_id: "length xs \<le> n \<Longrightarrow> keep_last n xs = xs"
  by (simp add: keep_last_def)

lemma set_keep_last: "set (keep_last n xs) \<subseteq> set xs"
  by (simp add: keep_last_def set_drop_subset)

lemma keep_last_suffix: "suffix (keep_last n xs) xs"
  by (simp add: keep_last_def suffix_drop)

lemma keep_last_append_last:
  "0 < n \<Longrightarrow> keep_last n (xs @ [x]) = keep_last (n - 1) xs @ [x]"
  by (cases n) (auto simp: keep_last_def Suc_diff_le not_le)

lemma last_keep_last: "0 < n \<Longrightarrow> last (keep_last n (xs @ [x])) = x"
  by (simp add: keep_last_append_last)

lemma distinct_keep_last: "distinct xs \<Longrightarrow> distinct (keep_last n xs)"
  by (simp add: keep_last_def)

lemma sorted_wrt_keep_last: "sorted_wrt r xs \<Longrightarrow> sorted_wrt r (keep_last n xs)"
  by (simp add: keep_last_def sorted_wrt_drop)

lemma keep_last_keep_last_append: "keep_last n (keep_last n xs @ ys) = keep_last n (xs @ ys)"
proof (cases "length xs \<le> n")
  case False
  then show ?thesis
    by (cases "n \<le> length ys") (simp_all add: keep_last_def add.commute)
qed (simp add: keep_last_id)

lemma map_keep_last: "map f (keep_last n xs) = keep_last n (map f xs)"
  by (simp add: keep_last_def drop_map)

section \<open>Searching and counting\<close>

lemma find_Some_mem: "find p xs = Some x \<Longrightarrow> x \<in> set xs \<and> p x"
  by (induction xs) (auto split: if_splits)

lemma find_None_mem: "find p xs = None \<Longrightarrow> x \<in> set xs \<Longrightarrow> \<not> p x"
  by (induction xs) (auto split: if_splits)

lemma find_not_None: "x \<in> set xs \<Longrightarrow> p x \<Longrightarrow> find p xs \<noteq> None"
  using find_None_mem by fastforce

lemma length_filter_mono:
  "(\<And>x. x \<in> set xs \<Longrightarrow> q x \<Longrightarrow> p x) \<Longrightarrow> length (filter q xs) \<le> length (filter p xs)"
  by (induction xs) auto

lemma length_filter_strict:
  assumes "\<And>x. x \<in> set xs \<Longrightarrow> q x \<Longrightarrow> p x" and "t \<in> set xs" "p t" "\<not> q t"
  shows "length (filter q xs) < length (filter p xs)"
  using assms
proof (induction xs)
  case (Cons y ys)
  have "length (filter q ys) \<le> length (filter p ys)"
    by (rule length_filter_mono) (simp add: Cons.prems(1))
  with Cons show ?case by auto
qed simp

section \<open>Sorted duplicate-free output\<close>

text \<open>\<open>sorted(set(xs))\<close>.\<close>

definition sorted_set :: "'a::linorder list \<Rightarrow> 'a list" where
  "sorted_set xs = sort (remdups xs)"

lemma set_sorted_set [simp]: "set (sorted_set xs) = set xs"
  by (simp add: sorted_set_def)

lemma distinct_sorted_set [simp]: "distinct (sorted_set xs)"
  by (simp add: sorted_set_def)

lemma sorted_set_empty_iff [simp]: "sorted_set xs = [] \<longleftrightarrow> xs = []"
  by (metis empty_set set_empty set_sorted_set)

lemma sort_key_map_key: "(\<And>u. h (f u) = g u) \<Longrightarrow> sort_key h (map f xs) = map f (sort_key g xs)"
proof (induction xs)
  case (Cons x xs)
  have "insort_key h (f x) (map f ys) = map f (insort_key g x ys)" for ys by (induction ys) (auto simp: Cons.prems)
  then show ?case using Cons by simp
qed simp

end
