(* ===== verification/Py_Values.thy ===== *)
theory Py_Values
  imports Coord_Prelude
begin

text \<open>
  The Python values that the coordinator keeps in task records: what \<open>json.loads\<close> returns.
  Task metadata is a dictionary \<open>dict[str, Any]\<close> (\<open>Meta\<close> in the source), so the model keeps
  it as one: an association list in insertion order, with the dynamic type tests, truth values,
  equality and \<open>str()\<close> of the language written out.

  Characters are code points below 256 (the type \<open>char\<close>); within that range the character
  classes below are those of Python's \<open>re\<close> and \<open>str\<close>. JSON floats do not occur in the records
  of the coordinator and are not modelled.
\<close>

section \<open>Values\<close>

datatype pyval =
    PNone
  | PBool bool
  | PInt int
  | PStr string
  | PList "pyval list"
  | PDict "(string \<times> pyval) list"

type_synonym meta = "(string \<times> pyval) list"

subsection \<open>Type tests and truth values\<close>

definition is_str :: "pyval \<Rightarrow> bool" where
  "is_str v = (case v of PStr _ \<Rightarrow> True | _ \<Rightarrow> False)"

text \<open>\<open>isinstance(v, int)\<close> holds of booleans, \<open>type(v) is int\<close> does not.\<close>

definition is_int :: "pyval \<Rightarrow> bool" where
  "is_int v = (case v of PInt _ \<Rightarrow> True | PBool _ \<Rightarrow> True | _ \<Rightarrow> False)"

definition exact_int :: "pyval \<Rightarrow> bool" where
  "exact_int v = (case v of PInt _ \<Rightarrow> True | _ \<Rightarrow> False)"

definition is_bool :: "pyval \<Rightarrow> bool" where
  "is_bool v = (case v of PBool _ \<Rightarrow> True | _ \<Rightarrow> False)"

definition is_list :: "pyval \<Rightarrow> bool" where
  "is_list v = (case v of PList _ \<Rightarrow> True | _ \<Rightarrow> False)"

definition is_dict :: "pyval \<Rightarrow> bool" where
  "is_dict v = (case v of PDict _ \<Rightarrow> True | _ \<Rightarrow> False)"

text \<open>Reading a value whose type has been tested. Each is total; its uses are guarded by the test
  that the source makes.\<close>

definition str_of :: "pyval \<Rightarrow> string" where
  "str_of v = (case v of PStr s \<Rightarrow> s | _ \<Rightarrow> [])"

definition int_of :: "pyval \<Rightarrow> int" where
  "int_of v = (case v of PInt i \<Rightarrow> i | PBool b \<Rightarrow> of_bool b | _ \<Rightarrow> 0)"

definition list_of :: "pyval \<Rightarrow> pyval list" where
  "list_of v = (case v of PList xs \<Rightarrow> xs | _ \<Rightarrow> [])"

definition dict_of :: "pyval \<Rightarrow> meta" where
  "dict_of v = (case v of PDict d \<Rightarrow> d | _ \<Rightarrow> [])"

definition truthy :: "pyval \<Rightarrow> bool" where
  "truthy v = (case v of PNone \<Rightarrow> False | PBool b \<Rightarrow> b | PInt i \<Rightarrow> i \<noteq> 0 | PStr s \<Rightarrow> s \<noteq> []
     | PList xs \<Rightarrow> xs \<noteq> [] | PDict d \<Rightarrow> d \<noteq> [])"

lemma value_simps [simp, type_simps]:
  "is_str (PStr s)" "\<not> is_str PNone" "\<not> is_str (PBool b)" "\<not> is_str (PInt i)"
  "\<not> is_str (PList xs)" "\<not> is_str (PDict d)"
  "is_int (PInt i)" "is_int (PBool b)" "\<not> is_int PNone" "\<not> is_int (PStr s)"
  "\<not> is_int (PList xs)" "\<not> is_int (PDict d)"
  "exact_int (PInt i)" "\<not> exact_int (PBool b)" "\<not> exact_int PNone" "\<not> exact_int (PStr s)"
  "\<not> exact_int (PList xs)" "\<not> exact_int (PDict d)"
  "is_bool (PBool b)" "\<not> is_bool (PInt i)" "\<not> is_bool PNone" "\<not> is_bool (PStr s)"
  "\<not> is_bool (PList xs)" "\<not> is_bool (PDict d)"
  "is_list (PList xs)" "\<not> is_list PNone" "\<not> is_list (PBool b)" "\<not> is_list (PInt i)"
  "\<not> is_list (PStr s)" "\<not> is_list (PDict d)"
  "is_dict (PDict d)" "\<not> is_dict PNone" "\<not> is_dict (PBool b)" "\<not> is_dict (PInt i)"
  "\<not> is_dict (PStr s)" "\<not> is_dict (PList xs)"
  "str_of (PStr s) = s" "int_of (PInt i) = i" "int_of (PBool b) = of_bool b"
  "list_of (PList xs) = xs" "dict_of (PDict d) = d"
  by (simp_all add: is_str_def is_int_def exact_int_def is_bool_def is_list_def is_dict_def
      str_of_def int_of_def list_of_def dict_of_def)

lemma truthy_simps [simp, type_simps]:
  "\<not> truthy PNone" "truthy (PBool b) = b" "truthy (PInt i) = (i \<noteq> 0)"
  "truthy (PStr s) = (s \<noteq> [])" "truthy (PList xs) = (xs \<noteq> [])" "truthy (PDict d) = (d \<noteq> [])"
  by (simp_all add: truthy_def)

lemma is_str_iff: "is_str v \<longleftrightarrow> (\<exists>s. v = PStr s)" by (cases v) simp_all
lemma is_list_iff: "is_list v \<longleftrightarrow> (\<exists>xs. v = PList xs)" by (cases v) simp_all
lemma is_dict_iff: "is_dict v \<longleftrightarrow> (\<exists>d. v = PDict d)" by (cases v) simp_all
lemma exact_int_iff: "exact_int v \<longleftrightarrow> (\<exists>i. v = PInt i)" by (cases v) simp_all
lemma exact_int_is_int: "exact_int v \<Longrightarrow> is_int v" by (cases v) simp_all

lemmas type_iffs = is_str_iff is_list_iff is_dict_iff exact_int_iff

subsection \<open>Equality\<close>

text \<open>Python's \<open>==\<close>: booleans are the integers 0 and 1, dictionaries compare without order.\<close>

fun py_eq :: "pyval \<Rightarrow> pyval \<Rightarrow> bool" where
  "py_eq PNone y = (y = PNone)"
| "py_eq (PBool b) y = (is_int y \<and> of_bool b = int_of y)"
| "py_eq (PInt i) y = (is_int y \<and> i = int_of y)"
| "py_eq (PStr s) y = (y = PStr s)"
| "py_eq (PList xs) y = (is_list y \<and> list_all2 py_eq xs (list_of y))"
| "py_eq (PDict d) y =
     (is_dict y \<and> length d = length (dict_of y) \<and>
      list_all (\<lambda>kv. case map_of (dict_of y) (fst kv) of None \<Rightarrow> False | Some w \<Rightarrow> py_eq (snd kv) w) d)"

definition py_in :: "pyval \<Rightarrow> pyval list \<Rightarrow> bool" where
  "py_in v xs = list_ex (py_eq v) xs"

text \<open>Membership in a \<open>set\<close> or \<open>frozenset\<close>, which hashes the value first: a list or a
  dictionary raises \<open>TypeError\<close>.\<close>

definition hash_in :: "pyval \<Rightarrow> string list \<Rightarrow> bool result" where
  "hash_in v ws = (if is_list v \<or> is_dict v then Inl (TypeError ''unhashable type'')
     else Inr (is_str v \<and> str_of v \<in> set ws))"

definition hash_not_in :: "pyval \<Rightarrow> string list \<Rightarrow> bool result" where
  "hash_not_in v ws = bindE (hash_in v ws) (\<lambda>b. Inr (\<not> b))"

text \<open>\<open>len(xs) == len(set(xs))\<close>.\<close>

fun py_distinct :: "pyval list \<Rightarrow> bool" where
  "py_distinct [] = True"
| "py_distinct (x # xs) = (\<not> py_in x xs \<and> py_distinct xs)"

lemma hash_in_PStr [simp]: "hash_in (PStr s) ws = Inr (s \<in> set ws)"
  by (simp add: hash_in_def)

lemma hash_not_in_PStr [simp]: "hash_not_in (PStr s) ws = Inr (s \<notin> set ws)"
  by (simp add: hash_not_in_def)

lemma hash_not_in_False: "hash_not_in v ws = Inr False \<longleftrightarrow> (\<exists>s. v = PStr s \<and> s \<in> set ws)"
  by (cases v) (auto simp: hash_not_in_def hash_in_def)

lemma py_in_PStr: "py_in (PStr s) xs \<longleftrightarrow> PStr s \<in> set xs"
  by (auto simp: py_in_def list_ex_iff)

lemma py_distinct_PStr: "py_distinct (map PStr ss) \<longleftrightarrow> distinct ss"
  by (induction ss) (auto simp: py_in_PStr)

lemma py_eq_PStr_right [simp]: "py_eq v (PStr s) \<longleftrightarrow> v = PStr s"
  by (cases v) auto

lemma py_eq_PNone_right [simp]: "py_eq v PNone \<longleftrightarrow> v = PNone"
  by (cases v) auto

lemma py_eq_PInt_right: "py_eq v (PInt i) \<longleftrightarrow> is_int v \<and> int_of v = i"
  by (cases v) auto

section \<open>Dictionaries\<close>

definition dget :: "meta \<Rightarrow> string \<Rightarrow> pyval" where
  "dget d k = (case map_of d k of None \<Rightarrow> PNone | Some v \<Rightarrow> v)"

definition dget_or :: "meta \<Rightarrow> string \<Rightarrow> pyval \<Rightarrow> pyval" where
  "dget_or d k v = (case map_of d k of None \<Rightarrow> v | Some w \<Rightarrow> w)"

definition ditem :: "meta \<Rightarrow> string \<Rightarrow> pyval result" where
  "ditem d k = (case map_of d k of None \<Rightarrow> Inl (KeyError k) | Some v \<Rightarrow> Inr v)"

definition dhas :: "meta \<Rightarrow> string \<Rightarrow> bool" where
  "dhas d k = (map_of d k \<noteq> None)"

definition dset :: "meta \<Rightarrow> string \<Rightarrow> pyval \<Rightarrow> meta" where
  "dset d k v = AList.update k v d"

definition dpop :: "meta \<Rightarrow> string \<Rightarrow> meta" where
  "dpop d k = AList.delete k d"

definition dkeys :: "meta \<Rightarrow> string list" where
  "dkeys d = map fst d"

text \<open>\<open>set(d) == {k1, ..., kn}\<close>, \<open>set(d) <= {...}\<close> and \<open>{...}.issubset(d)\<close>.\<close>

definition keys_exact :: "meta \<Rightarrow> string list \<Rightarrow> bool" where
  "keys_exact d ks = (list_all (\<lambda>k. k \<in> set ks) (dkeys d) \<and> list_all (\<lambda>k. k \<in> set (dkeys d)) ks)"

definition keys_within :: "meta \<Rightarrow> string list \<Rightarrow> bool" where
  "keys_within d ks = list_all (\<lambda>k. k \<in> set ks) (dkeys d)"

definition keys_include :: "meta \<Rightarrow> string list \<Rightarrow> bool" where
  "keys_include d ks = list_all (\<lambda>k. k \<in> set (dkeys d)) ks"

text \<open>A dictionary has each key once; every dictionary operation keeps that.\<close>

definition wf_dict :: "meta \<Rightarrow> bool" where
  "wf_dict d = distinct (dkeys d)"

lemma dict_literal [simp, dict_simps]:
  "dget [] k = PNone" "dget ((a, v) # d) k = (if k = a then v else dget d k)"
  "dget_or [] k w = w" "dget_or ((a, v) # d) k w = (if k = a then v else dget_or d k w)"
  "ditem [] k = Inl (KeyError k)" "ditem ((a, v) # d) k = (if k = a then Inr v else ditem d k)"
  "\<not> dhas [] k" "dhas ((a, v) # d) k \<longleftrightarrow> k = a \<or> dhas d k"
  by (auto simp: dget_def dget_or_def ditem_def dhas_def)

lemma map_of_dset [dict_simps]: "map_of (dset d k v) k' = (if k' = k then Some v else map_of d k')"
  by (simp add: dset_def update_conv)

lemma map_of_dpop [dict_simps]: "map_of (dpop d k) k' = (if k' = k then None else map_of d k')"
  by (simp add: dpop_def delete_conv)

lemma dget_dset [simp, dict_simps]: "dget (dset d k v) k' = (if k' = k then v else dget d k')"
  by (simp add: dget_def map_of_dset)

lemma dget_dpop [simp, dict_simps]: "dget (dpop d k) k' = (if k' = k then PNone else dget d k')"
  by (simp add: dget_def map_of_dpop)

lemma dget_or_dset [simp, dict_simps]:
  "dget_or (dset d k v) k' w = (if k' = k then v else dget_or d k' w)"
  by (simp add: dget_or_def map_of_dset)

lemma dget_or_dpop [simp, dict_simps]:
  "dget_or (dpop d k) k' w = (if k' = k then w else dget_or d k' w)"
  by (simp add: dget_or_def map_of_dpop)

lemma ditem_dset [simp, dict_simps]: "ditem (dset d k v) k' = (if k' = k then Inr v else ditem d k')"
  by (simp add: ditem_def map_of_dset)

lemma ditem_dpop [simp, dict_simps]:
  "ditem (dpop d k) k' = (if k' = k then Inl (KeyError k) else ditem d k')"
  by (simp add: ditem_def map_of_dpop)

lemma dhas_dset [simp, dict_simps]: "dhas (dset d k v) k' \<longleftrightarrow> k' = k \<or> dhas d k'"
  by (simp add: dhas_def map_of_dset)

lemma dhas_dpop [simp, dict_simps]: "dhas (dpop d k) k' \<longleftrightarrow> k' \<noteq> k \<and> dhas d k'"
  by (simp add: dhas_def map_of_dpop)

lemma ditem_Inr: "ditem d k = Inr v \<longleftrightarrow> map_of d k = Some v"
  by (simp add: ditem_def split: option.splits)

lemma ditem_Inr_dget: "ditem d k = Inr v \<Longrightarrow> dget d k = v"
  by (simp add: ditem_Inr dget_def)

lemma ditem_eq: "ditem d k = (if dhas d k then Inr (dget d k) else Inl (KeyError k))"
  by (auto simp: ditem_def dhas_def dget_def)

lemma dget_not_None_dhas: "dget d k \<noteq> PNone \<Longrightarrow> dhas d k"
  by (auto simp: dget_def dhas_def split: option.splits)

lemma dhas_dkeys: "dhas d k \<longleftrightarrow> k \<in> set (dkeys d)"
  by (auto simp: dhas_def dkeys_def map_of_eq_None_iff)

lemma set_dkeys_dset: "set (dkeys (dset d k v)) = insert k (set (dkeys d))"
  by (auto simp: set_eq_iff simp flip: dhas_dkeys)

lemma set_dkeys_dpop: "set (dkeys (dpop d k)) = set (dkeys d) - {k}"
  by (simp add: dkeys_def dpop_def delete_keys filter_set)

lemma wf_dict_dset [simp, intro]: "wf_dict d \<Longrightarrow> wf_dict (dset d k v)"
  by (simp add: wf_dict_def dkeys_def dset_def distinct_update)

lemma wf_dict_dpop [simp, intro]: "wf_dict d \<Longrightarrow> wf_dict (dpop d k)"
  by (simp add: wf_dict_def dkeys_def dpop_def distinct_delete)

lemma keys_exact_iff: "keys_exact d ks \<longleftrightarrow> set (dkeys d) = set ks"
  by (auto simp: keys_exact_def list_all_iff)

lemma keys_include_iff: "keys_include d ks \<longleftrightarrow> set ks \<subseteq> set (dkeys d)"
  by (auto simp: keys_include_def list_all_iff)

lemma keys_within_iff: "keys_within d ks \<longleftrightarrow> set (dkeys d) \<subseteq> set ks"
  by (auto simp: keys_within_def list_all_iff)

lemma keys_exact_dset_old:
  "k \<in> set ks \<Longrightarrow> keys_exact d ks \<Longrightarrow> keys_exact (dset d k v) ks"
  by (auto simp: keys_exact_iff set_dkeys_dset)

lemma keys_exact_dhas: "keys_exact d ks \<Longrightarrow> dhas d k \<longleftrightarrow> k \<in> set ks"
  by (simp add: dhas_dkeys keys_exact_iff)

text \<open>\<open>v[k]\<close> of a value that may not be a dictionary.\<close>

definition subscript :: "pyval \<Rightarrow> string \<Rightarrow> pyval result" where
  "subscript v k = (case v of PDict d \<Rightarrow> ditem d k
     | _ \<Rightarrow> Inl (TypeError ''object is not subscriptable by a string''))"

lemma subscript_PDict [simp]: "subscript (PDict d) k = ditem d k"
  by (simp add: subscript_def)

text \<open>\<open>for x in v\<close>: a string yields its characters, a dictionary its keys; a number or \<open>None\<close> raises
  \<open>TypeError\<close>. \<open>set(v)\<close> also hashes every element.\<close>

definition py_iter :: "pyval \<Rightarrow> pyval list result" where
  "py_iter v = (case v of PList xs \<Rightarrow> Inr xs | PStr s \<Rightarrow> Inr (map (\<lambda>c. PStr [c]) s)
     | PDict d \<Rightarrow> Inr (map PStr (dkeys d)) | _ \<Rightarrow> Inl (TypeError ''object is not iterable''))"

definition hashable :: "pyval \<Rightarrow> bool" where
  "hashable v = (\<not> is_list v \<and> \<not> is_dict v)"

definition py_set :: "pyval \<Rightarrow> pyval list result" where
  "py_set v = bindE (py_iter v) (\<lambda>xs. if list_all hashable xs then Inr xs else Inl (TypeError ''unhashable type''))"

definition py_subset :: "pyval list \<Rightarrow> pyval list \<Rightarrow> bool" where
  "py_subset xs ys = list_all (\<lambda>x. py_in x ys) xs"

text \<open>\<open>v.get(k, w)\<close> of a value that may not be a dictionary.\<close>

definition get_attr :: "pyval \<Rightarrow> string \<Rightarrow> pyval \<Rightarrow> pyval result" where
  "get_attr v k w = (case v of PDict d \<Rightarrow> Inr (dget_or d k w) | _ \<Rightarrow> Inl (AttributeError ''get''))"

lemma py_iter_PList [simp]: "py_iter (PList xs) = Inr xs"
  by (simp add: py_iter_def)

lemma get_attr_PDict [simp]: "get_attr (PDict d) k w = Inr (dget_or d k w)"
  by (simp add: get_attr_def)

lemma py_subset_strings: "py_subset (map PStr xs) ys \<longleftrightarrow> PStr ` set xs \<subseteq> set ys"
  by (auto simp: py_subset_def list_all_iff py_in_PStr)

section \<open>Text\<close>

subsection \<open>Character classes\<close>

definition digits :: string where "digits = ''0123456789''"
definition lower_hex :: string where "lower_hex = ''0123456789abcdef''"
definition lower_letters :: string where "lower_letters = ''abcdefghijklmnopqrstuvwxyz''"
definition upper_letters :: string where "upper_letters = ''ABCDEFGHIJKLMNOPQRSTUVWXYZ''"

definition is_digit :: "char \<Rightarrow> bool" where "is_digit c = (c \<in> set digits)"
definition is_lower_hex :: "char \<Rightarrow> bool" where "is_lower_hex c = (c \<in> set lower_hex)"
definition is_lower :: "char \<Rightarrow> bool" where "is_lower c = (c \<in> set lower_letters)"
definition is_upper :: "char \<Rightarrow> bool" where "is_upper c = (c \<in> set upper_letters)"
definition is_alnum :: "char \<Rightarrow> bool" where
  "is_alnum c = (is_lower c \<or> is_upper c \<or> is_digit c)"

text \<open>The white space of \<open>str.strip\<close> and \<open>str.split\<close> below code point 256.\<close>

definition is_space :: "char \<Rightarrow> bool" where
  "is_space c = ((of_char c :: nat) \<in> {9, 10, 11, 12, 13, 28, 29, 30, 31, 32, 133, 160})"

definition newline :: char where "newline = CHR 0x0A"

definition lstrip :: "string \<Rightarrow> string" where "lstrip s = dropWhile is_space s"
definition strip :: "string \<Rightarrow> string" where "strip s = rev (lstrip (rev (lstrip s)))"

definition starts_with :: "string \<Rightarrow> string \<Rightarrow> bool" where
  "starts_with s p = (take (length p) s = p)"

fun contains :: "string \<Rightarrow> string \<Rightarrow> bool" where
  "contains [] p = (p = [])"
| "contains (c # s) p = (starts_with (c # s) p \<or> contains s p)"

text \<open>\<open>s.split(c)\<close> for a one-character separator.\<close>

fun split_on :: "char \<Rightarrow> string \<Rightarrow> string list" where
  "split_on c [] = [[]]"
| "split_on c (x # s) =
     (if x = c then [] # split_on c s
      else case split_on c s of [] \<Rightarrow> [[x]] | w # ws \<Rightarrow> (x # w) # ws)"

text \<open>The words of \<open>s.split()\<close>.\<close>

function words :: "string \<Rightarrow> string list" where
  "words s = (case lstrip s of [] \<Rightarrow> []
     | c # r \<Rightarrow> takeWhile (\<lambda>x. \<not> is_space x) (c # r) # words (dropWhile (\<lambda>x. \<not> is_space x) r))"
  by pat_completeness auto
termination
proof (relation "measure length", simp)
  fix s c r
  assume "lstrip s = c # r"
  then have "length r < length s"
    unfolding lstrip_def by (metis Suc_le_eq length_Cons length_dropWhile_le)
  moreover have "length (dropWhile (\<lambda>x. \<not> is_space x) r) \<le> length r"
    by (rule length_dropWhile_le)
  ultimately show "(dropWhile (\<lambda>x. \<not> is_space x) r, s) \<in> measure length"
    by simp
qed

text \<open>\<open>s.partition(c)\<close>: the text before the first \<open>c\<close>, whether there is one, and the text after it.\<close>

definition partition_char :: "char \<Rightarrow> string \<Rightarrow> string \<times> bool \<times> string" where
  "partition_char c s = (takeWhile (\<lambda>x. x \<noteq> c) s, c \<in> set s, drop 1 (dropWhile (\<lambda>x. x \<noteq> c) s))"

text \<open>\<open>PurePosixPath(s).parts\<close> of a relative path: empty and \<open>.\<close> components are dropped.\<close>

definition path_parts :: "string \<Rightarrow> string list" where
  "path_parts s = filter (\<lambda>p. p \<noteq> [] \<and> p \<noteq> ''.'') (split_on CHR ''/'' s)"

definition join :: "string \<Rightarrow> string list \<Rightarrow> string" where
  "join sep ws = (case ws of [] \<Rightarrow> [] | w # r \<Rightarrow> w @ concat (map (\<lambda>x. sep @ x) r))"

definition replace_char :: "char \<Rightarrow> string \<Rightarrow> string \<Rightarrow> string" where
  "replace_char c w s = concat (map (\<lambda>x. if x = c then w else [x]) s)"

lemma lstrip_props:
  "lstrip (lstrip s) = lstrip s" "length (lstrip s) \<le> length s" "set (lstrip s) \<subseteq> set s"
  by (auto simp: lstrip_def dropWhile_idem length_dropWhile_le dest: set_dropWhileD)

lemma lstrip_rev_lstrip: "lstrip (rev (lstrip (rev (lstrip s)))) = rev (lstrip (rev (lstrip s)))"
proof (cases "rev (lstrip (rev (lstrip s)))")
  case (Cons c r)
  define t where "t = lstrip s"
  have "suffix (lstrip (rev t)) (rev t)"
    by (simp add: lstrip_def suffix_dropWhile)
  then have "prefix (c # r) t"
    using Cons by (simp add: suffix_to_prefix t_def)
  then obtain u where "t = c # u"
    by (cases t) auto
  then have "\<not> is_space c"
    unfolding t_def lstrip_def by (metis hd_dropWhile list.distinct(1) list.sel(1))
  then show ?thesis
    using Cons by (simp add: lstrip_def)
next
  case Nil
  show ?thesis unfolding Nil by (simp add: lstrip_def)
qed

lemma strip_idem [simp]: "strip (strip s) = strip s"
  unfolding strip_def lstrip_rev_lstrip rev_rev_ident lstrip_props ..

lemma strip_sub: "length (strip s) \<le> length s" "set (strip s) \<subseteq> set s"
  unfolding strip_def using lstrip_props(2,3) [of s] lstrip_props(2,3) [of "rev (lstrip s)"]
  by auto

subsection \<open>Patterns of the source's regular expressions\<close>

definition all_hex :: "nat \<Rightarrow> string \<Rightarrow> bool" where
  "all_hex n s = (length s = n \<and> list_all is_lower_hex s)"

text \<open>\<open>sha256:[0-9a-f]{64}\<close>, \<open>AR-[0-9]{4}\<close>, \<open>[A-Za-z0-9][A-Za-z0-9<extra>]{lo,hi}\<close> and
  \<open>[a-z]+(?:-[a-z]+)*\<close>.\<close>

definition is_digest :: "string \<Rightarrow> bool" where
  "is_digest s = (starts_with s ''sha256:'' \<and> all_hex 64 (drop 7 s))"

definition is_task_id :: "string \<Rightarrow> bool" where
  "is_task_id s = (starts_with s ''AR-'' \<and> length s = 7 \<and> list_all is_digit (drop 3 s))"

definition is_reference :: "string \<Rightarrow> nat \<Rightarrow> nat \<Rightarrow> string \<Rightarrow> bool" where
  "is_reference extra lo hi s =
     (case s of [] \<Rightarrow> False
      | c # r \<Rightarrow> is_alnum c \<and> lo \<le> length r \<and> length r \<le> hi \<and>
          list_all (\<lambda>x. is_alnum x \<or> x \<in> set extra) r)"

definition is_dashed_word :: "string \<Rightarrow> bool" where
  "is_dashed_word s = list_all (\<lambda>w. w \<noteq> [] \<and> list_all is_lower w) (split_on CHR ''-'' s)"

lemma is_digest_length: "is_digest s \<Longrightarrow> length s = 71"
  by (auto simp: is_digest_def all_hex_def)

lemma not_digest_Nil [simp]: "\<not> is_digest []"
  by (simp add: is_digest_def starts_with_def)

subsection \<open>Numbers and the str() of a value\<close>

fun show_nat :: "nat \<Rightarrow> string" where
  "show_nat n = (if n < 10 then [digits ! n] else show_nat (n div 10) @ [digits ! (n mod 10)])"

declare show_nat.simps [simp del]

definition show_int :: "int \<Rightarrow> string" where
  "show_int i = (if i < 0 then ''-'' @ show_nat (nat (- i)) else show_nat (nat i))"

text \<open>\<open>f"{n:04d}"\<close>: padded with zeros to width 4, the sign counted.\<close>

definition show_int4 :: "int \<Rightarrow> string" where
  "show_int4 i =
     (if i < 0 then ''-'' @ (let s = show_nat (nat (- i)) in replicate (3 - length s) CHR ''0'' @ s)
      else (let s = show_nat (nat i) in replicate (4 - length s) CHR ''0'' @ s))"

definition hex_digit :: "nat \<Rightarrow> char" where
  "hex_digit n = lower_hex ! (n mod 16)"

text \<open>\<open>repr\<close> of a string: single quotes unless the text has a single and no double quote; backslash
  escapes for the quote, the backslash and what is not printable.\<close>

definition printable :: "char \<Rightarrow> bool" where
  "printable c = (let n = (of_char c :: nat) in (32 \<le> n \<and> n < 127) \<or> (160 < n \<and> n \<noteq> 173))"

definition repr_char :: "char \<Rightarrow> char \<Rightarrow> string" where
  "repr_char q c =
     (if c = q \<or> c = CHR 0x5C then [CHR 0x5C, c]
      else if c = CHR 0x0A then [CHR 0x5C, CHR ''n'']
      else if c = CHR 0x0D then [CHR 0x5C, CHR ''r'']
      else if c = CHR 0x09 then [CHR 0x5C, CHR ''t'']
      else if printable c then [c]
      else [CHR 0x5C, CHR ''x'', hex_digit (of_char c div 16), hex_digit (of_char c)])"

definition repr_str :: "string \<Rightarrow> string" where
  "repr_str s =
     (let q = (if CHR 0x27 \<in> set s \<and> CHR 0x22 \<notin> set s then CHR 0x22 else CHR 0x27)
      in [q] @ concat (map (repr_char q) s) @ [q])"

fun py_repr :: "pyval \<Rightarrow> string" where
  "py_repr PNone = ''None''"
| "py_repr (PBool b) = (if b then ''True'' else ''False'')"
| "py_repr (PInt i) = show_int i"
| "py_repr (PStr s) = repr_str s"
| "py_repr (PList xs) = ''['' @ join '', '' (map py_repr xs) @ '']''"
| "py_repr (PDict d) = ''{'' @ join '', '' (map (\<lambda>kv. repr_str (fst kv) @ '': '' @ py_repr (snd kv)) d) @ ''}''"

definition py_str :: "pyval \<Rightarrow> string" where
  "py_str v = (case v of PStr s \<Rightarrow> s | _ \<Rightarrow> py_repr v)"

lemma py_str_PStr [simp]: "py_str (PStr s) = s"
  by (simp add: py_str_def)

subsection \<open>The int() of a value\<close>

definition digit_val :: "char \<Rightarrow> nat" where
  "digit_val c = of_char c - 48"

definition nat_of_digits :: "string \<Rightarrow> nat" where
  "nat_of_digits s = foldl (\<lambda>a c. 10 * a + digit_val c) 0 s"

text \<open>\<open>int("...")\<close>: white space around, a sign, digits with single underscores between them.\<close>

definition parse_int :: "string \<Rightarrow> int option" where
  "parse_int s =
     (let t = strip s;
          neg = starts_with t ''-'';
          u = (if neg \<or> starts_with t ''+'' then drop 1 t else t);
          gs = split_on CHR ''_'' u
      in if list_all (\<lambda>g. g \<noteq> [] \<and> list_all is_digit g) gs
         then Some ((if neg then - 1 else 1) * int (nat_of_digits (concat gs)))
         else None)"

definition py_int :: "pyval \<Rightarrow> int result" where
  "py_int v =
     (case v of PInt i \<Rightarrow> Inr i
      | PBool b \<Rightarrow> Inr (of_bool b)
      | PStr s \<Rightarrow> (case parse_int s of Some i \<Rightarrow> Inr i
          | None \<Rightarrow> Inl (ValueError (''invalid literal for int() with base 10: '' @ repr_str s)))
      | _ \<Rightarrow> Inl (TypeError ''int() argument must be a string, a bytes-like object or a real number''))"

lemma py_int_simps [simp]:
  "py_int (PInt i) = Inr i"
  "py_int (PBool b) = Inr (of_bool b)"
  by (simp_all add: py_int_def)

text \<open>\<open>v + n\<close> for a number \<open>n\<close>.\<close>

definition py_add :: "pyval \<Rightarrow> int \<Rightarrow> pyval result" where
  "py_add v n = (if is_int v then Inr (PInt (int_of v + n)) else Inl (TypeError ''unsupported operand type(s) for +''))"

lemma show_nat_not_Nil [simp]: "show_nat n \<noteq> []"
  by (subst show_nat.simps) simp

lemma show_nat_digits: "list_all is_digit (show_nat n)"
proof (induction n rule: show_nat.induct)
  case (1 n)
  have d: "is_digit (digits ! (k mod 10))" for k
    unfolding is_digit_def by (rule nth_mem) (simp add: digits_def)
  show ?case
  proof (cases "n < 10")
    case True
    with d [of n] show ?thesis by (subst show_nat.simps) simp
  next
    case False
    with 1 d show ?thesis by (subst show_nat.simps) simp
  qed
qed

section \<open>Command arguments\<close>

text \<open>The namespace of parsed arguments is read with \<open>dget\<close>: an attribute that the command line
  leaves out is \<open>None\<close>.\<close>

type_synonym namespace = meta

definition arg_str :: "namespace \<Rightarrow> string \<Rightarrow> string" where
  "arg_str args k = str_of (dget args k)"

definition arg_opt :: "namespace \<Rightarrow> string \<Rightarrow> string option" where
  "arg_opt args k = (if dget args k = PNone then None else Some (str_of (dget args k)))"

end
