(* ===== verification/Py_Time.thy ===== *)
theory Py_Time
  imports Py_Values
begin

text \<open>
  The part of Python's \<open>datetime\<close> that the coordinator uses: \<open>datetime.fromisoformat\<close> with every
  form it accepts (calendar and week dates, basic and extended times, fractions, offsets),
  \<open>astimezone(UTC)\<close>, comparison of datetimes, and \<open>isoformat\<close> of a UTC instant without
  microseconds. A datetime is its local time in microseconds since 0001-01-01T00:00, with its
  offset from UTC when it has one. The main fact is the round trip: what \<open>isoformat\<close> prints,
  \<open>fromisoformat\<close> reads back as the same instant.
\<close>

section \<open>The calendar\<close>

definition is_leap :: "int \<Rightarrow> bool" where
  "is_leap y = (y mod 4 = 0 \<and> (y mod 100 \<noteq> 0 \<or> y mod 400 = 0))"

definition days_before_year :: "int \<Rightarrow> int" where
  "days_before_year y = (let z = y - 1 in z * 365 + z div 4 - z div 100 + z div 400)"

definition month_lengths :: "int \<Rightarrow> int list" where
  "month_lengths y = [31, if is_leap y then 29 else 28, 31, 30, 31, 30, 31, 31, 30, 31, 30, 31]"

definition days_in_month :: "int \<Rightarrow> int \<Rightarrow> int" where
  "days_in_month y m = month_lengths y ! nat (m - 1)"

definition days_before_month :: "int \<Rightarrow> int \<Rightarrow> int" where
  "days_before_month y m = sum_list (take (nat (m - 1)) (month_lengths y))"

definition valid_date :: "int \<Rightarrow> int \<Rightarrow> int \<Rightarrow> bool" where
  "valid_date y m d = (1 \<le> y \<and> y \<le> 9999 \<and> 1 \<le> m \<and> m \<le> 12 \<and> 1 \<le> d \<and> d \<le> days_in_month y m)"

definition ymd2ord :: "int \<Rightarrow> int \<Rightarrow> int \<Rightarrow> int" where
  "ymd2ord y m d = days_before_year y + days_before_month y m + d"

text \<open>The day of the year (from 0) to month and day.\<close>

fun find_month :: "int list \<Rightarrow> int \<Rightarrow> int \<Rightarrow> int \<times> int" where
  "find_month [] m n = (m, n + 1)"
| "find_month (l # ls) m n = (if n < l then (m, n + 1) else find_month ls (m + 1) (n - l))"

definition ord2ymd :: "int \<Rightarrow> int \<times> int \<times> int" where
  "ord2ymd ord =
     (let n = ord - 1;
          n400 = n div 146097; r400 = n mod 146097;
          n100 = r400 div 36524; r100 = r400 mod 36524;
          n4 = r100 div 1461; r4 = r100 mod 1461;
          n1 = r4 div 365; r1 = r4 mod 365;
          y = n400 * 400 + n100 * 100 + n4 * 4 + n1 + 1
      in if n1 = 4 \<or> n100 = 4 then (y - 1, 12, 31)
         else (let (m, d) = find_month (month_lengths y) 1 r1 in (y, m, d)))"

definition max_ordinal :: int where "max_ordinal = 3652059"

section \<open>Datetimes\<close>

datatype datetime = Naive int | Aware int int

definition second_us :: int where "second_us = 1000000"
definition day_us :: int where "day_us = 86400 * second_us"
definition max_us :: int where "max_us = max_ordinal * day_us"

definition in_range :: "int \<Rightarrow> bool" where
  "in_range t = (0 \<le> t \<and> t < max_us)"

fun is_aware :: "datetime \<Rightarrow> bool" where
  "is_aware (Aware _ _) = True"
| "is_aware (Naive _) = False"

fun utc_of :: "datetime \<Rightarrow> int" where
  "utc_of (Aware l off) = l - off"
| "utc_of (Naive l) = l"

text \<open>Ordering an aware and a naive datetime raises \<open>TypeError\<close>.\<close>

definition dt_le :: "datetime \<Rightarrow> datetime \<Rightarrow> bool result" where
  "dt_le a b = (if is_aware a = is_aware b then Inr (utc_of a \<le> utc_of b)
     else Inl (TypeError ''can't compare offset-naive and offset-aware datetimes''))"

section \<open>Reading ISO 8601 text\<close>

definition digits_value :: "nat \<Rightarrow> string \<Rightarrow> int option" where
  "digits_value n s =
     (let w = take n s in if length w = n \<and> list_all is_digit w then Some (int (nat_of_digits w)) else None)"

definition head_is :: "char \<Rightarrow> string \<Rightarrow> bool" where
  "head_is c s = (case s of [] \<Rightarrow> False | x # _ \<Rightarrow> x = c)"

text \<open>\<open>HH[:?MM[:?SS[{.,}f+]]]\<close>, the fraction cut at six digits.\<close>

definition parse_fraction :: "string \<Rightarrow> int option" where
  "parse_fraction f =
     (if f \<noteq> [] \<and> list_all is_digit f
      then Some (int (nat_of_digits (take 6 f)) * 10 ^ (6 - length (take 6 f))) else None)"

definition parse_hms :: "string \<Rightarrow> (int \<times> int \<times> int \<times> int) option" where
  "parse_hms s = Option.bind (digits_value 2 s) (\<lambda>h. let r = drop 2 s in
     if r = [] then Some (h, 0, 0, 0) else
     let sep = head_is CHR '':'' r; r1 = (if sep then tl r else r) in
     Option.bind (digits_value 2 r1) (\<lambda>m. let r2 = drop 2 r1 in
       if r2 = [] then Some (h, m, 0, 0) else
       if sep \<and> \<not> head_is CHR '':'' r2 then None else
       let r3 = (if sep then tl r2 else r2) in
       Option.bind (digits_value 2 r3) (\<lambda>sec. let r4 = drop 2 r3 in
         if r4 = [] then Some (h, m, sec, 0) else
         if head_is CHR ''.'' r4 \<or> head_is CHR '','' r4
         then Option.bind (parse_fraction (tl r4)) (\<lambda>us. Some (h, m, sec, us))
         else None)))"

definition hms_us :: "int \<times> int \<times> int \<times> int \<Rightarrow> int" where
  "hms_us t = (case t of (h, m, s, us) \<Rightarrow> (h * 3600 + m * 60 + s) * second_us + us)"

definition valid_hms :: "int \<times> int \<times> int \<times> int \<Rightarrow> bool" where
  "valid_hms t = (case t of (h, m, s, us) \<Rightarrow> h < 24 \<and> m < 60 \<and> s < 60)"

definition is_zone_mark :: "char \<Rightarrow> bool" where
  "is_zone_mark c = (c = CHR ''+'' \<or> c = CHR ''-'' \<or> c = CHR ''Z'')"

text \<open>The zone text with its mark: \<open>Z\<close> alone, or a signed offset of less than a day.\<close>

definition parse_zone :: "string \<Rightarrow> int option option" where
  "parse_zone z =
     (case z of [] \<Rightarrow> Some None
      | c # r \<Rightarrow>
          if c = CHR ''Z'' then (if r = [] then Some (Some 0) else None)
          else if length r \<in> {0, 1, 3} then None
          else Option.bind (parse_hms r) (\<lambda>t.
            if hms_us t < day_us then Some (Some ((if c = CHR ''-'' then - 1 else 1) * hms_us t)) else None))"

definition parse_time :: "string \<Rightarrow> (int \<times> int option) option" where
  "parse_time s =
     (let body = takeWhile (\<lambda>c. \<not> is_zone_mark c) s; zone = dropWhile (\<lambda>c. \<not> is_zone_mark c) s in
      Option.bind (parse_hms body) (\<lambda>t. if valid_hms t
        then Option.bind (parse_zone zone) (\<lambda>off. Some (hms_us t, off)) else None))"

definition parse_week_date :: "string \<Rightarrow> string \<Rightarrow> bool \<Rightarrow> int option" where
  "parse_week_date year rest sep =
     Option.bind (digits_value 4 year) (\<lambda>y. Option.bind (digits_value 2 rest) (\<lambda>w.
     let r = drop 2 rest in
     Option.bind (if r = [] then Some 1
       else if head_is CHR ''-'' r \<noteq> sep then None
       else if length r \<noteq> (if sep then 2 else 1) then None
       else digits_value 1 (if sep then tl r else r)) (\<lambda>d.
     let jan1 = ymd2ord y 1 1; wd = (jan1 + 6) mod 7;
         monday = jan1 - wd + (if wd > 3 then 7 else 0);
         long_year = (wd = 3 \<or> (wd = 2 \<and> is_leap y)) in
     if 1 \<le> y \<and> y \<le> 9999 \<and> 1 \<le> w \<and> (w \<le> 52 \<or> (w = 53 \<and> long_year)) \<and> 1 \<le> d \<and> d \<le> 7
     then (let ord = monday + (w - 1) * 7 + (d - 1) in
           if 1 \<le> ord \<and> ord \<le> max_ordinal then Some ord else None) else None)))"

definition parse_calendar_date :: "string \<Rightarrow> string \<Rightarrow> bool \<Rightarrow> int option" where
  "parse_calendar_date year rest sep =
     Option.bind (digits_value 4 year) (\<lambda>y. Option.bind (digits_value 2 rest) (\<lambda>m.
     let r = drop 2 rest in
     if head_is CHR ''-'' r \<noteq> sep then None else
     let r1 = (if sep then tl r else r) in
     if length r1 \<noteq> 2 then None else
     Option.bind (digits_value 2 r1) (\<lambda>d.
     if valid_date y m d then Some (ymd2ord y m d) else None)))"

text \<open>A date text of length 7, 8 or 10 to its ordinal.\<close>

definition parse_date :: "string \<Rightarrow> int option" where
  "parse_date s =
     (let year = take 4 s; r = drop 4 s; sep = head_is CHR ''-'' r; r1 = (if sep then tl r else r) in
      if head_is CHR ''W'' r1 then parse_week_date year (tl r1) sep
      else parse_calendar_date year r1 sep)"

definition find_separator :: "string \<Rightarrow> nat option" where
  "find_separator s =
     (let n = length s in
      if n < 7 then None
      else if n = 7 then Some 7
      else if s ! 4 = CHR ''-'' then
        (if s ! 5 = CHR ''W'' then
           (if n > 8 \<and> s ! 8 = CHR ''-'' then
              (if n = 9 then None else if n > 10 \<and> is_digit (s ! 10) then Some 8 else Some 10)
            else Some 8)
         else Some 10)
      else if s ! 4 = CHR ''W'' then
        (let idx = 7 + length (takeWhile is_digit (drop 7 s)) in
         if idx < 9 then Some idx else if even idx then Some 7 else Some 8)
      else Some 8)"

definition fromisoformat :: "string \<Rightarrow> datetime result" where
  "fromisoformat s =
     (let invalid = Inl (ValueError (''Invalid isoformat string: '' @ repr_str s)) in
      case find_separator s of None \<Rightarrow> invalid
      | Some k \<Rightarrow>
          if length s < k then invalid else
          (case parse_date (take k s) of None \<Rightarrow> invalid
           | Some ord \<Rightarrow>
               let tstr = drop (Suc k) s; day = (ord - 1) * day_us in
               if tstr = [] then Inr (Naive day)
               else (case parse_time tstr of None \<Rightarrow> invalid
                     | Some (t, None) \<Rightarrow> Inr (Naive (day + t))
                     | Some (t, Some off) \<Rightarrow> Inr (Aware (day + t) off))))"

text \<open>\<open>datetime.fromisoformat(value.replace("Z", "+00:00"))\<close>.\<close>

definition from_iso_z :: "string \<Rightarrow> datetime result" where
  "from_iso_z s = fromisoformat (replace_char CHR ''Z'' ''+00:00'' s)"

text \<open>The pattern every timestamp reader of the source shares: an invalid or naive text raises the
  reader's own error, an aware one is converted with \<open>astimezone(UTC)\<close>.\<close>

definition astimezone_utc :: "int \<Rightarrow> int \<Rightarrow> int result" where
  "astimezone_utc l off = (if in_range (l - off) then Inr (l - off) else Inl (OverflowError ''date value out of range''))"

definition parse_instant :: "exc \<Rightarrow> string \<Rightarrow> int result" where
  "parse_instant e s =
     (case from_iso_z s of
        Inl _ \<Rightarrow> Inl e
      | Inr (Naive _) \<Rightarrow> Inl e
      | Inr (Aware l off) \<Rightarrow> astimezone_utc l off)"

section \<open>Printing ISO 8601 text\<close>

definition pad2 :: "int \<Rightarrow> string" where
  "pad2 n = [digits ! nat (n div 10), digits ! nat (n mod 10)]"

definition pad4 :: "int \<Rightarrow> string" where
  "pad4 n = pad2 (n div 100) @ pad2 (n mod 100)"

text \<open>\<open>isoformat\<close> of a UTC instant whose microseconds are zero, and the instant
  \<open>t.replace(microsecond=0)\<close>.\<close>

definition isoformat_utc :: "int \<Rightarrow> string" where
  "isoformat_utc t =
     (let (y, m, d) = ord2ymd (t div day_us + 1); s = (t mod day_us) div second_us in
      pad4 y @ ''-'' @ pad2 m @ ''-'' @ pad2 d @ ''T'' @
      pad2 (s div 3600) @ '':'' @ pad2 (s div 60 mod 60) @ '':'' @ pad2 (s mod 60) @ ''+00:00'')"

definition truncate_us :: "int \<Rightarrow> int" where
  "truncate_us t = t - t mod second_us"

text \<open>\<open>(now + timedelta(minutes=n)).replace(microsecond=0).isoformat()\<close>; leaving the years 1 to
  9999 raises \<open>OverflowError\<close>.\<close>

definition lease_end :: "int \<Rightarrow> int \<Rightarrow> string result" where
  "lease_end now_us minutes =
     (let t = now_us + minutes * 60 * second_us in
      if in_range t then Inr (isoformat_utc (truncate_us t)) else Inl (OverflowError ''date value out of range''))"

section \<open>Round trip\<close>

lemma digit_val_nth: "k < 10 \<Longrightarrow> digit_val (digits ! k) = k \<and> is_digit (digits ! k)"
proof -
  assume "k < 10"
  then have "k = 0 \<or> k = 1 \<or> k = 2 \<or> k = 3 \<or> k = 4 \<or> k = 5 \<or> k = 6 \<or> k = 7 \<or> k = 8 \<or> k = 9"
    by arith
  then show ?thesis
    by (elim disjE) (simp_all add: digit_val_def digits_def is_digit_def)
qed

lemma pad2_facts:
  assumes "0 \<le> n" "n < 100"
  shows "length (pad2 n) = 2" "list_all is_digit (pad2 n)" "int (nat_of_digits (pad2 n)) = n"
proof -
  have k: "nat (n div 10) < 10" "nat (n mod 10) < 10"
    using assms by linarith+
  show "length (pad2 n) = 2"
    by (simp add: pad2_def)
  show "list_all is_digit (pad2 n)"
    using k by (simp add: pad2_def digit_val_nth)
  show "int (nat_of_digits (pad2 n)) = n"
  proof -
    have "0 \<le> n div 10" using assms(1) by simp
    with k assms show ?thesis by (simp add: pad2_def nat_of_digits_def digit_val_nth)
  qed
qed

lemma digits_value_pad2:
  "0 \<le> n \<Longrightarrow> n < 100 \<Longrightarrow> digits_value 2 (pad2 n @ r) = Some n"
  by (simp add: digits_value_def pad2_facts)

lemma nat_of_digits_append2:
  "length v = 2 \<Longrightarrow> nat_of_digits (u @ v) = 100 * nat_of_digits u + nat_of_digits v"
  by (cases v; cases "tl v") (auto simp: nat_of_digits_def)

lemma digits_value_pad4:
  assumes "0 \<le> n" "n < 10000"
  shows "digits_value 4 (pad4 n) = Some n"
proof -
  have b: "0 \<le> n div 100" "n div 100 < 100" "0 \<le> n mod 100" "n mod 100 < 100"
    using assms by auto
  have "int (nat_of_digits (pad4 n)) = 100 * (n div 100) + n mod 100"
    using pad2_facts [OF b(1,2)] pad2_facts [OF b(3,4)]
    by (simp add: pad4_def nat_of_digits_append2)
  then show ?thesis
    using pad2_facts [OF b(1,2)] pad2_facts [OF b(3,4)]
    by (simp add: digits_value_def pad4_def)
qed

lemma find_month_correct:
  assumes "0 \<le> n" "n < sum_list ls" "find_month ls m n = (m', d)" "0 \<le> m"
  shows "m \<le> m' \<and> m' < m + int (length ls) \<and> 1 \<le> d \<and> d \<le> ls ! nat (m' - m)
    \<and> sum_list (take (nat (m' - m)) ls) + d = n + 1"
  using assms
proof (induction ls arbitrary: m n)
  case Nil
  then show ?case by simp
next
  case (Cons l ls)
  show ?case
  proof (cases "n < l")
    case True
    with Cons.prems show ?thesis by auto
  next
    case False
    with Cons.prems have "find_month ls (m + 1) (n - l) = (m', d)" by simp
    then have IH: "m + 1 \<le> m' \<and> m' < m + 1 + int (length ls) \<and> 1 \<le> d \<and> d \<le> ls ! nat (m' - (m + 1))
      \<and> sum_list (take (nat (m' - (m + 1))) ls) + d = n - l + 1"
      using Cons.IH [of "n - l" "m + 1"] Cons.prems False by simp
    have "nat (m' - m) = Suc (nat (m' - (m + 1)))"
      using IH by linarith
    with IH show ?thesis by simp
  qed
qed

lemma year_length: "sum_list (month_lengths y) = (if is_leap y then 366 else 365)"
  by (simp add: month_lengths_def)

lemma days_before_year_split:
  assumes "0 \<le> b" "b \<le> 3" "0 \<le> c" "c \<le> 24" "0 \<le> d" "d \<le> 3"
  shows "days_before_year (a * 400 + b * 100 + c * 4 + d + 1) = 146097 * a + 36524 * b + 1461 * c + 365 * d"
proof -
  let ?z = "a * 400 + b * 100 + c * 4 + d :: int"
  have "?z div 4 = 100 * a + 25 * b + c"
    by (rule int_div_pos_eq [where r = d]) (use assms in simp_all)
  moreover have "?z div 100 = 4 * a + b"
    by (rule int_div_pos_eq [where r = "c * 4 + d"]) (use assms in simp_all)
  moreover have "?z div 400 = a"
    by (rule int_div_pos_eq [where r = "b * 100 + c * 4 + d"]) (use assms in simp_all)
  ultimately show ?thesis
    by (simp add: days_before_year_def Let_def)
qed

lemma ord2ymd_correct:
  assumes "1 \<le> n" "n \<le> max_ordinal" "ord2ymd n = (y, m, d)"
  shows "valid_date y m d \<and> ymd2ord y m d = n"
proof -
  define a r b q c s e r1 where
    "a = (n - 1) div 146097" and "r = (n - 1) mod 146097"
    and "b = r div 36524" and "q = r mod 36524"
    and "c = q div 1461" and "s = q mod 1461"
    and "e = s div 365" and "r1 = s mod 365"
  note defs = this
  have n: "n - 1 = 146097 * a + r" "r = 36524 * b + q" "q = 1461 * c + s" "s = 365 * e + r1"
    unfolding defs by simp_all
  have rng: "0 \<le> a" "0 \<le> r" "r < 146097" "0 \<le> b" "0 \<le> q" "q < 36524" "0 \<le> c" "0 \<le> s" "s < 1461"
    "0 \<le> e" "0 \<le> r1" "r1 < 365"
    unfolding defs using assms(1) by simp_all
  have rng2: "a \<le> 24" "b \<le> 4" "c \<le> 24" "e \<le> 4"
    using n rng assms(2) by (simp_all add: max_ordinal_def)
  let ?y = "a * 400 + b * 100 + c * 4 + e + 1"
  have ymd: "(if e = 4 \<or> b = 4 then (?y - 1, 12, 31)
      else (let (m, d) = find_month (month_lengths ?y) 1 r1 in (?y, m, d))) = (y, m, d)"
    using assms(3) unfolding ord2ymd_def Let_def defs by simp
  show ?thesis
  proof (cases "e = 4 \<or> b = 4")
    case True
    then have r1: "y = ?y - 1" "m = 12" "d = 31" using ymd by auto
    show ?thesis
    proof (cases "b = 4")
      case True
      with n rng have "c = 0" "e = 0" "r1 = 0" by linarith+
      with True r1 have y: "y = a * 400 + 3 * 100 + 24 * 4 + 3 + 1" by simp
      have "y = 400 * (a + 1)" unfolding y by simp
      then have "is_leap y" by (simp add: is_leap_def)
      moreover have "days_before_year y = 146097 * a + 36524 * 3 + 1461 * 24 + 365 * 3"
        unfolding y by (rule days_before_year_split) simp_all
      moreover have "y \<le> 9999"
        using n True \<open>c = 0\<close> \<open>e = 0\<close> \<open>r1 = 0\<close> assms(2) unfolding y by (simp add: max_ordinal_def)
      ultimately show ?thesis
        using n True rng \<open>c = 0\<close> \<open>e = 0\<close> \<open>r1 = 0\<close> r1 y
        by (simp add: valid_date_def ymd2ord_def days_in_month_def days_before_month_def month_lengths_def)
    next
      case False
      with True have e: "e = 4" by simp
      with n rng have r10: "r1 = 0" by linarith
      have b3: "b \<le> 3" using False rng2 by simp
      from e r1 have y: "y = a * 400 + b * 100 + c * 4 + 3 + 1" by simp
      have c: "b = 3 \<or> c < 24" using n rng e r10 rng2 by linarith
      have "is_leap y"
      proof (cases "c < 24")
        case True
        have "y mod 100 = c * 4 + 4"
          by (rule int_mod_pos_eq [where q = "4 * a + b"]) (use True rng y in simp_all)
        moreover have "y mod 4 = 0"
          by (rule int_mod_pos_eq [where q = "100 * a + 25 * b + c + 1"]) (use y in simp_all)
        ultimately show ?thesis using True rng by (simp add: is_leap_def)
      next
        case False
        with c rng2 y have "y = 400 * (a + 1)" by simp
        then show ?thesis by (simp add: is_leap_def)
      qed
      moreover have "days_before_year y = 146097 * a + 36524 * b + 1461 * c + 365 * 3"
        unfolding y by (rule days_before_year_split) (use rng rng2 b3 in simp_all)
      moreover have "y \<le> 9999"
        using n e r10 rng2 b3 assms(2) rng unfolding y by (simp add: max_ordinal_def)
      ultimately show ?thesis
        using n e r10 r1 rng y
        by (simp add: valid_date_def ymd2ord_def days_in_month_def days_before_month_def month_lengths_def)
    qed
  next
    case False
    then have y: "y = ?y" and fm: "find_month (month_lengths y) 1 r1 = (m, d)"
      using ymd by (auto simp: Let_def split: prod.splits)
    have eb: "e \<le> 3" "b \<le> 3" using False rng2 by auto
    have "0 \<le> r1" "r1 < sum_list (month_lengths y)"
      using rng by (simp_all add: year_length)
    from find_month_correct [OF this fm] have m: "1 \<le> m" "m < 13" "1 \<le> d"
      "d \<le> month_lengths y ! nat (m - 1)" "sum_list (take (nat (m - 1)) (month_lengths y)) + d = r1 + 1"
      by (simp_all add: month_lengths_def)
    have "days_before_year y = 146097 * a + 36524 * b + 1461 * c + 365 * e"
      unfolding y by (rule days_before_year_split) (use rng rng2 eb in simp_all)
    moreover have "y \<le> 9999"
      using n rng eb rng2 assms(2) unfolding y by (simp add: max_ordinal_def)
    ultimately show ?thesis
      using m n rng y by (simp add: valid_date_def ymd2ord_def days_in_month_def days_before_month_def)
  qed
qed

lemma digit_not_mark:
  "is_digit c \<Longrightarrow> \<not> is_zone_mark c"
  "is_digit c \<Longrightarrow> c \<noteq> CHR '':''" "is_digit c \<Longrightarrow> c \<noteq> CHR ''W''" "is_digit c \<Longrightarrow> c \<noteq> CHR ''-''"
  "is_digit c \<Longrightarrow> c \<noteq> CHR ''Z''"
  by (auto simp: is_digit_def digits_def is_zone_mark_def)

lemma pad2_chars:
  assumes "0 \<le> n" "n < 100"
  obtains a b where "pad2 n = [a, b]" "is_digit a" "is_digit b" "int (nat_of_digits [a, b]) = n"
proof -
  define a b where "a = digits ! nat (n div 10)" and "b = digits ! nat (n mod 10)"
  have ab: "pad2 n = [a, b]" by (simp add: pad2_def a_def b_def)
  show ?thesis
    by (rule that [OF ab]) (use pad2_facts [OF assms] ab in simp_all)
qed

lemma pad4_chars:
  assumes "0 \<le> n" "n < 10000"
  obtains a b c d where "pad4 n = [a, b, c, d]" "is_digit a" "is_digit b" "is_digit c" "is_digit d"
    "digits_value 4 [a, b, c, d] = Some n"
proof -
  have "0 \<le> n div 100" "n div 100 < 100" "0 \<le> n mod 100" "n mod 100 < 100"
    using assms by auto
  then obtain a b c d where "pad2 (n div 100) = [a, b]" "is_digit a" "is_digit b"
      "pad2 (n mod 100) = [c, d]" "is_digit c" "is_digit d"
    by (metis pad2_chars)
  with digits_value_pad4 [OF assms] show ?thesis
    by (intro that [of a b c d]) (simp_all add: pad4_def)
qed

lemma digits_value_two:
  "is_digit a \<Longrightarrow> is_digit b \<Longrightarrow> int (nat_of_digits [a, b]) = n \<Longrightarrow> digits_value 2 (a # b # r) = Some n"
  by (simp add: digits_value_def numeral_2_eq_2)

lemma parse_hms_extended:
  assumes "is_digit h1" "is_digit h2" "int (nat_of_digits [h1, h2]) = h"
    and "is_digit m1" "is_digit m2" "int (nat_of_digits [m1, m2]) = m"
    and "is_digit s1" "is_digit s2" "int (nat_of_digits [s1, s2]) = s"
  shows "parse_hms [h1, h2, CHR '':'', m1, m2, CHR '':'', s1, s2] = Some (h, m, s, 0)"
  using assms by (simp add: parse_hms_def digits_value_two head_is_def)

lemma parse_utc_zone: "parse_zone ''+00:00'' = Some (Some 0)"
  by code_simp

lemma parse_date_extended:
  assumes "is_digit a" "is_digit b" "is_digit c" "is_digit d" "digits_value 4 [a, b, c, d] = Some y"
    and "is_digit m1" "is_digit m2" "int (nat_of_digits [m1, m2]) = m"
    and "is_digit d1" "is_digit d2" "int (nat_of_digits [d1, d2]) = dd"
    and "valid_date y m dd"
  shows "parse_date [a, b, c, d, CHR ''-'', m1, m2, CHR ''-'', d1, d2] = Some (ymd2ord y m dd)"
  using assms
  by (simp add: parse_date_def parse_calendar_date_def head_is_def digits_value_two digit_not_mark)

lemma fromisoformat_extended:
  assumes "is_digit a" "is_digit b" "is_digit c" "is_digit d" "digits_value 4 [a, b, c, d] = Some y"
    and "is_digit m1" "is_digit m2" "int (nat_of_digits [m1, m2]) = m"
    and "is_digit d1" "is_digit d2" "int (nat_of_digits [d1, d2]) = dd"
    and "valid_date y m dd"
    and "is_digit h1" "is_digit h2" "int (nat_of_digits [h1, h2]) = h"
    and "is_digit n1" "is_digit n2" "int (nat_of_digits [n1, n2]) = mi"
    and "is_digit s1" "is_digit s2" "int (nat_of_digits [s1, s2]) = s"
    and "h < 24" "mi < 60" "s < 60"
  shows "fromisoformat ([a, b, c, d, CHR ''-'', m1, m2, CHR ''-'', d1, d2, CHR ''T'', h1, h2, CHR '':'',
      n1, n2, CHR '':'', s1, s2] @ ''+00:00'')
    = Inr (Aware ((ymd2ord y m dd - 1) * day_us + hms_us (h, mi, s, 0)) 0)"
proof -
  let ?s = "[a, b, c, d, CHR ''-'', m1, m2, CHR ''-'', d1, d2, CHR ''T'', h1, h2, CHR '':'',
      n1, n2, CHR '':'', s1, s2] @ ''+00:00''"
  have sep: "find_separator ?s = Some 10"
    using assms by (simp add: find_separator_def digit_not_mark)
  have date: "parse_date (take 10 ?s) = Some (ymd2ord y m dd)"
    using parse_date_extended [OF assms(1-12)] by simp
  have marks: "is_zone_mark CHR ''+''" "\<not> is_zone_mark CHR '':''"
    by (simp_all add: is_zone_mark_def)
  have time: "parse_time (drop 11 ?s) = Some (hms_us (h, mi, s, 0), Some 0)"
    using parse_hms_extended [OF assms(13-21)] parse_utc_zone assms
    by (simp add: parse_time_def marks digit_not_mark valid_hms_def Let_def)
  show ?thesis
    unfolding fromisoformat_def sep using date time by (simp add: eval_nat_numeral)
qed

lemma isoformat_chars:
  assumes "in_range t"
  obtains a b c d m1 m2 d1 d2 h1 h2 n1 n2 s1 s2 y m dd h mi s where
    "isoformat_utc t = [a, b, c, d, CHR ''-'', m1, m2, CHR ''-'', d1, d2, CHR ''T'', h1, h2, CHR '':'',
      n1, n2, CHR '':'', s1, s2] @ ''+00:00''"
    "is_digit a" "is_digit b" "is_digit c" "is_digit d" "digits_value 4 [a, b, c, d] = Some y"
    "is_digit m1" "is_digit m2" "int (nat_of_digits [m1, m2]) = m"
    "is_digit d1" "is_digit d2" "int (nat_of_digits [d1, d2]) = dd" "valid_date y m dd"
    "is_digit h1" "is_digit h2" "int (nat_of_digits [h1, h2]) = h"
    "is_digit n1" "is_digit n2" "int (nat_of_digits [n1, n2]) = mi"
    "is_digit s1" "is_digit s2" "int (nat_of_digits [s1, s2]) = s"
    "h < 24" "mi < 60" "s < 60"
    "(ymd2ord y m dd - 1) * day_us + hms_us (h, mi, s, 0) = truncate_us t"
proof -
  obtain y m dd where ymd: "ord2ymd (t div day_us + 1) = (y, m, dd)"
    by (cases "ord2ymd (t div day_us + 1)")
  have day: "0 < day_us" by (simp add: day_us_def second_us_def)
  have rng: "0 \<le> t" "t < max_ordinal * day_us" using assms by (simp_all add: in_range_def max_us_def)
  have "0 \<le> t div day_us" using rng(1) day by (simp add: pos_imp_zdiv_nonneg_iff)
  moreover have "t div day_us < max_ordinal"
    using rng(2) unfolding day_us_def second_us_def max_ordinal_def by simp
  ultimately have "1 \<le> t div day_us + 1" "t div day_us + 1 \<le> max_ordinal" by simp_all
  from ord2ymd_correct [OF this ymd] have v: "valid_date y m dd" and o: "ymd2ord y m dd = t div day_us + 1"
    by simp_all
  define x where "x = (t mod day_us) div second_us"
  have x: "0 \<le> x" "x < 86400"
    by (simp_all add: x_def day_us_def second_us_def)
  have hms: "0 \<le> x div 3600" "x div 3600 < 24" "0 \<le> x div 60 mod 60" "x div 60 mod 60 < 60"
      "0 \<le> x mod 60" "x mod 60 < 60"
    using x by simp_all
  have total: "x div 3600 * 3600 + x div 60 mod 60 * 60 + x mod 60 = x"
  proof -
    have "x div 3600 = x div 60 div 60" by (simp add: zdiv_zmult2_eq [symmetric])
    then show ?thesis
      using div_mult_mod_eq [of x 60] div_mult_mod_eq [of "x div 60" 60] by linarith
  qed
  have md: "1 \<le> m" "m \<le> 12" "1 \<le> dd" "dd \<le> 31" "1 \<le> y" "y \<le> 9999"
  proof -
    have "nat (m - 1) < length (month_lengths y)" using v by (auto simp: valid_date_def month_lengths_def)
    then have "days_in_month y m \<in> set (month_lengths y)"
      unfolding days_in_month_def by (rule nth_mem)
    then have "days_in_month y m \<le> 31"
      by (auto simp: month_lengths_def split: if_splits)
    with v show "1 \<le> m" "m \<le> 12" "1 \<le> dd" "dd \<le> 31" "1 \<le> y" "y \<le> 9999"
      by (auto simp: valid_date_def)
  qed
  have lt: "0 \<le> y" "y < 10000" "0 \<le> m" "m < 100" "0 \<le> dd" "dd < 100"
      "x div 3600 < 100" "x div 60 mod 60 < 100" "x mod 60 < 100"
    using md hms by linarith+
  obtain a b c d where Y: "pad4 y = [a, b, c, d]" "is_digit a" "is_digit b" "is_digit c" "is_digit d"
      "digits_value 4 [a, b, c, d] = Some y"
    by (rule pad4_chars [OF lt(1,2)])
  obtain m1 m2 where M: "pad2 m = [m1, m2]" "is_digit m1" "is_digit m2" "int (nat_of_digits [m1, m2]) = m"
    by (rule pad2_chars [OF lt(3,4)])
  obtain d1 d2 where D: "pad2 dd = [d1, d2]" "is_digit d1" "is_digit d2" "int (nat_of_digits [d1, d2]) = dd"
    by (rule pad2_chars [OF lt(5,6)])
  obtain h1 h2 where H: "pad2 (x div 3600) = [h1, h2]" "is_digit h1" "is_digit h2"
      "int (nat_of_digits [h1, h2]) = x div 3600"
    by (rule pad2_chars [OF hms(1) lt(7)])
  obtain n1 n2 where N: "pad2 (x div 60 mod 60) = [n1, n2]" "is_digit n1" "is_digit n2"
      "int (nat_of_digits [n1, n2]) = x div 60 mod 60"
    by (rule pad2_chars [OF hms(3) lt(8)])
  obtain s1 s2 where S: "pad2 (x mod 60) = [s1, s2]" "is_digit s1" "is_digit s2"
      "int (nat_of_digits [s1, s2]) = x mod 60"
    by (rule pad2_chars [OF hms(5) lt(9)])
  have "t mod day_us = second_us * x + t mod second_us"
  proof -
    have "t mod day_us mod second_us = t mod second_us"
      by (rule mod_mod_cancel) (simp add: day_us_def)
    then show ?thesis
      unfolding x_def by (metis mult_div_mod_eq)
  qed
  then have "t div day_us * day_us + x * second_us = truncate_us t"
    unfolding truncate_us_def using div_mult_mod_eq [of t day_us] by (simp add: mult.commute)
  then have end_eq: "(ymd2ord y m dd - 1) * day_us + hms_us (x div 3600, x div 60 mod 60, x mod 60, 0) = truncate_us t"
    using o total by (simp add: hms_us_def)
  have "isoformat_utc t = [a, b, c, d, CHR ''-'', m1, m2, CHR ''-'', d1, d2, CHR ''T'', h1, h2, CHR '':'',
      n1, n2, CHR '':'', s1, s2] @ ''+00:00''"
    using ymd Y(1) M(1) D(1) H(1) N(1) S(1) by (simp add: isoformat_utc_def x_def Let_def)
  then show ?thesis
    by (rule that [OF _ Y(2-6) M(2-4) D(2-4) v H(2-4) N(2-4) S(2-4) hms(2,4,6) end_eq])
qed

lemma fromisoformat_isoformat:
  "in_range t \<Longrightarrow> fromisoformat (isoformat_utc t) = Inr (Aware (truncate_us t) 0)"
  by (erule isoformat_chars) (simp only: fromisoformat_extended)

lemma replace_Z_isoformat:
  "in_range t \<Longrightarrow> replace_char CHR ''Z'' w (isoformat_utc t) = isoformat_utc t"
  by (erule isoformat_chars) (simp add: replace_char_def digit_not_mark)

lemma isoformat_not_Nil [simp]: "isoformat_utc t \<noteq> []"
  by (simp add: isoformat_utc_def Let_def split: prod.splits)

lemma truncate_us_facts:
  "truncate_us t \<le> t" "t < truncate_us t + second_us" "truncate_us t mod second_us = 0"
  "0 \<le> t \<Longrightarrow> 0 \<le> truncate_us t"
proof -
  have "0 \<le> t mod second_us" "t mod second_us < second_us"
    by (simp_all add: second_us_def)
  then show "truncate_us t \<le> t" "t < truncate_us t + second_us"
    by (simp_all add: truncate_us_def)
  show "truncate_us t mod second_us = 0"
    unfolding truncate_us_def by (simp add: minus_mod_eq_mult_div)
  show "0 \<le> truncate_us t" if "0 \<le> t"
    unfolding truncate_us_def using that zmod_le_nonneg_dividend [of t second_us] by simp
qed

lemma truncate_us_idem [simp]: "truncate_us (truncate_us t) = truncate_us t"
  using truncate_us_facts(3) [of t] by (simp add: truncate_us_def [of "truncate_us t"])

lemma in_range_truncate: "in_range t \<Longrightarrow> in_range (truncate_us t)"
  using truncate_us_facts [of t] by (auto simp: in_range_def)

text \<open>Every reader of timestamps recovers the instant that \<open>isoformat\<close> printed.\<close>

lemma parse_instant_isoformat:
  "in_range t \<Longrightarrow> parse_instant e (isoformat_utc t) = Inr (truncate_us t)"
  by (simp add: parse_instant_def from_iso_z_def replace_Z_isoformat fromisoformat_isoformat
      astimezone_utc_def in_range_truncate)

lemma lease_end_parses:
  assumes "lease_end now_us n = Inr w"
  shows "parse_instant e w = Inr (truncate_us (now_us + n * 60 * second_us))" "w \<noteq> []"
  using assms
  by (auto simp: lease_end_def Let_def parse_instant_isoformat in_range_truncate split: if_splits)

lemma lease_end_future:
  assumes "lease_end now_us n = Inr w" "0 < n" "parse_instant e w = Inr t"
  shows "now_us < t"
proof -
  have "t = truncate_us (now_us + n * 60 * second_us)"
    using lease_end_parses(1) [OF assms(1), of e] assms(3) by simp
  moreover have "second_us \<le> n * 60 * second_us"
    using assms(2) by (simp add: second_us_def)
  ultimately show ?thesis
    using truncate_us_facts(2) [of "now_us + n * 60 * second_us"] by simp
qed

end
