(* ===== verification/Py_Digest.thy ===== *)
theory Py_Digest
  imports Py_Values "HOL-Library.Word"
begin

unbundle bit_operations_syntax

text \<open>
  Canonical JSON text and its SHA-256 digest: \<open>json.dumps(v, sort_keys=True,
  separators=(",", ":"))\<close> with the default ASCII escapes, and \<open>hashlib.sha256\<close> (FIPS 180-4) on
  32-bit words. The coordinator binds records to each other by these digests; the lemmas show that
  a digest always has the shape that the validators of the source test.
\<close>

section \<open>Canonical JSON\<close>

definition json_char :: "char \<Rightarrow> string" where
  "json_char c =
     (let n = (of_char c :: nat); bs = CHR 0x5C in
      if c = CHR 0x22 \<or> c = bs then [bs, c]
      else if n = 10 then [bs, CHR ''n'']
      else if n = 13 then [bs, CHR ''r'']
      else if n = 9 then [bs, CHR ''t'']
      else if n = 12 then [bs, CHR ''f'']
      else if n = 8 then [bs, CHR ''b'']
      else if 32 \<le> n \<and> n \<le> 126 then [c]
      else [bs, CHR ''u'', CHR ''0'', CHR ''0'', hex_digit (n div 16), hex_digit n])"

definition json_str :: "string \<Rightarrow> string" where
  "json_str s = [CHR 0x22] @ concat (map json_char s) @ [CHR 0x22]"

fun canonical :: "pyval \<Rightarrow> string" where
  "canonical PNone = ''null''"
| "canonical (PBool b) = (if b then ''true'' else ''false'')"
| "canonical (PInt i) = show_int i"
| "canonical (PStr s) = json_str s"
| "canonical (PList xs) = ''['' @ join '','' (map canonical xs) @ '']''"
| "canonical (PDict d) =
     ''{'' @ join '','' (map snd (sort_key fst (map (\<lambda>kv. (fst kv, json_str (fst kv) @ '':'' @ canonical (snd kv))) d))) @ ''}''"

section \<open>SHA-256\<close>

type_synonym u32 = "32 word"

text \<open>The round constants and the initial state, in decimal.\<close>

definition sha_k :: "u32 list" where
  "sha_k = [
     1116352408, 1899447441, 3049323471, 3921009573, 961987163, 1508970993, 2453635748,
     2870763221, 3624381080, 310598401, 607225278, 1426881987, 1925078388, 2162078206,
     2614888103, 3248222580, 3835390401, 4022224774, 264347078, 604807628, 770255983,
     1249150122, 1555081692, 1996064986, 2554220882, 2821834349, 2952996808, 3210313671,
     3336571891, 3584528711, 113926993, 338241895, 666307205, 773529912, 1294757372,
     1396182291, 1695183700, 1986661051, 2177026350, 2456956037, 2730485921, 2820302411,
     3259730800, 3345764771, 3516065817, 3600352804, 4094571909, 275423344, 430227734,
     506948616, 659060556, 883997877, 958139571, 1322822218, 1537002063, 1747873779,
     1955562222, 2024104815, 2227730452, 2361852424, 2428436474, 2756734187, 3204031479,
     3329325298]"

definition sha_init :: "u32 list" where
  "sha_init = [1779033703, 3144134277, 1013904242, 2773480762, 1359893119, 2600822924, 528734635, 1541459225]"

definition rotr :: "nat \<Rightarrow> u32 \<Rightarrow> u32" where
  "rotr n x = drop_bit n x OR push_bit (32 - n) x"

definition big_sigma0 :: "u32 \<Rightarrow> u32" where "big_sigma0 x = rotr 2 x XOR rotr 13 x XOR rotr 22 x"
definition big_sigma1 :: "u32 \<Rightarrow> u32" where "big_sigma1 x = rotr 6 x XOR rotr 11 x XOR rotr 25 x"
definition small_sigma0 :: "u32 \<Rightarrow> u32" where "small_sigma0 x = rotr 7 x XOR rotr 18 x XOR drop_bit 3 x"
definition small_sigma1 :: "u32 \<Rightarrow> u32" where "small_sigma1 x = rotr 17 x XOR rotr 19 x XOR drop_bit 10 x"

definition sha_ch :: "u32 \<Rightarrow> u32 \<Rightarrow> u32 \<Rightarrow> u32" where
  "sha_ch x y z = (x AND y) XOR (NOT x AND z)"

definition sha_maj :: "u32 \<Rightarrow> u32 \<Rightarrow> u32 \<Rightarrow> u32" where
  "sha_maj x y z = (x AND y) XOR (x AND z) XOR (y AND z)"

text \<open>The message schedule, newest word first.\<close>

fun sha_extend :: "nat \<Rightarrow> u32 list \<Rightarrow> u32 list" where
  "sha_extend 0 ws = ws"
| "sha_extend (Suc n) ws =
     sha_extend n ((small_sigma1 (ws ! 1) + ws ! 6 + small_sigma0 (ws ! 14) + ws ! 15) # ws)"

definition sha_round :: "u32 list \<Rightarrow> u32 \<times> u32 \<Rightarrow> u32 list" where
  "sha_round st kw =
     (case st of
        [a, b, c, d, e, f, g, h] \<Rightarrow>
          (let t1 = h + big_sigma1 e + sha_ch e f g + fst kw + snd kw;
               t2 = big_sigma0 a + sha_maj a b c
           in [t1 + t2, a, b, c, d + t1, e, f, g])
      | _ \<Rightarrow> st)"

definition sha_block :: "u32 list \<Rightarrow> u32 list \<Rightarrow> u32 list" where
  "sha_block st block =
     (let ws = rev (sha_extend 48 (rev block))
      in map2 (+) st (foldl sha_round st (zip sha_k ws)))"

definition word_of_bytes :: "nat list \<Rightarrow> u32" where
  "word_of_bytes bs = of_nat (foldl (\<lambda>a b. 256 * a + b) 0 bs)"

fun chunks :: "nat \<Rightarrow> 'a list \<Rightarrow> 'a list list" where
  "chunks n [] = []"
| "chunks n (x # xs) = take (Suc n) (x # xs) # chunks n (drop n xs)"

text \<open>Padding: a one bit, zeros, and the bit length as eight bytes.\<close>

definition sha_pad :: "nat list \<Rightarrow> nat list" where
  "sha_pad m =
     (let l = length m; bits = 8 * l in
      m @ [128] @ replicate ((119 - l mod 64) mod 64) 0 @ map (\<lambda>i. bits div 256 ^ i mod 256) (rev [0..<8]))"

definition sha_words :: "string \<Rightarrow> u32 list list" where
  "sha_words s = map (\<lambda>b. map word_of_bytes (chunks 3 b)) (chunks 63 (sha_pad (map of_char s)))"

definition sha256 :: "string \<Rightarrow> u32 list" where
  "sha256 s = foldl sha_block sha_init (sha_words s)"

definition hex32 :: "u32 \<Rightarrow> string" where
  "hex32 w = map (\<lambda>i. hex_digit (unat w div 16 ^ i)) (rev [0..<8])"

definition sha256_hex :: "string \<Rightarrow> string" where
  "sha256_hex s = concat (map hex32 (sha256 s))"

definition digest :: "pyval \<Rightarrow> string" where
  "digest v = ''sha256:'' @ sha256_hex (canonical v)"

section \<open>Shape of a digest\<close>

lemma sha_round_length [simp]: "length (sha_round st kw) = length st"
  by (simp add: sha_round_def Let_def split: list.splits)

lemma foldl_sha_round_length [simp]: "length (foldl sha_round st xs) = length st"
  by (induction xs arbitrary: st) simp_all

lemma sha_block_length [simp]: "length (sha_block st b) = length st"
  by (simp add: sha_block_def Let_def)

lemma foldl_sha_block_length [simp]: "length (foldl sha_block st bs) = length st"
  by (induction bs arbitrary: st) simp_all

lemma sha256_length: "length (sha256 s) = 8"
  by (simp add: sha256_def sha_init_def)

lemma is_lower_hex_digit: "is_lower_hex (hex_digit n)"
  unfolding is_lower_hex_def hex_digit_def by (rule nth_mem) (simp add: lower_hex_def)

lemma all_hex_concat_hex32: "all_hex (8 * length ws) (concat (map hex32 ws))"
  by (induction ws) (auto simp: all_hex_def hex32_def list_all_iff is_lower_hex_digit)

lemma sha256_hex_shape: "all_hex 64 (sha256_hex s)"
  using all_hex_concat_hex32 [of "sha256 s"] by (simp add: sha256_hex_def sha256_length)

lemma digest_shape [simp]: "is_digest (digest v)"
  by (simp add: is_digest_def digest_def starts_with_def sha256_hex_shape)

lemma sha256_hex_not_Nil [simp]: "sha256_hex s \<noteq> []"
  using sha256_hex_shape [of s] by (auto simp: all_hex_def)

end
