(* ===== verification/Journal.thy ===== *)
theory Journal
  imports Coord_Prelude
begin

text \<open>
  Two interfaces. The first is that of the bounded, revision-stamped histories that task records carry (retry attempts,
  retry recoveries and others). A client of such a history relies on one law: the check of
  one entry accepts it exactly when the entry is well formed and its stamp is larger than the one
  before. From it follow, once for all histories, what a scan of the whole list accepts and that
  pushing a newer entry and keeping the newest \<open>n\<close> entries keeps the history acceptable.

  The second is that of a history file that is rewritten as a whole on every append and keeps its
  newest \<open>cap\<close> records; its clients rely on what a load returns after an append.
\<close>

locale revision_journal =
  fixes check :: "'e \<Rightarrow> int \<Rightarrow> int result"
    and entry_ok :: "'e \<Rightarrow> bool"
    and stamp :: "'e \<Rightarrow> int"
  assumes check_Inr: "check e p = Inr r \<longleftrightarrow> entry_ok e \<and> p < stamp e \<and> r = stamp e"
begin

lemma scan_Inr:
  "fold_result check es p = Inr r \<longleftrightarrow>
     list_all entry_ok es \<and> sorted_wrt (<) (p # map stamp es) \<and> r = last (p # map stamp es)"
proof (induction es arbitrary: p)
  case (Cons e es)
  have "fold_result check (e # es) p = Inr r \<longleftrightarrow>
      (entry_ok e \<and> p < stamp e) \<and> fold_result check es (stamp e) = Inr r"
    by (auto simp: result_simps check_Inr)
  then show ?case
    unfolding Cons.IH by (cases es) (auto intro: less_trans)
qed auto

lemma scan_le: "fold_result check es p = Inr r \<Longrightarrow> p \<le> r"
  by (induction es arbitrary: p) (fastforce simp: result_simps check_Inr)+

lemma scan_bounds: "fold_result check es p = Inr r \<Longrightarrow> e \<in> set es \<Longrightarrow> p < stamp e \<and> stamp e \<le> r"
proof (induction es arbitrary: p)
  case (Cons a es)
  then have a: "p < stamp a" and es: "fold_result check es (stamp a) = Inr r"
    by (auto simp: result_simps check_Inr)
  then show ?case
    using Cons.IH [OF es] Cons.prems(2) scan_le [OF es] by auto
qed simp

lemma scan_distinct: "fold_result check es p = Inr r \<Longrightarrow> distinct (map stamp es)"
  by (simp add: scan_Inr strict_sorted_iff)

lemma scan_append:
  "fold_result check es p = Inr r \<Longrightarrow> fold_result check (es @ [e]) p = check e r"
  by (induction es arbitrary: p) (auto simp: result_simps bindE_def split: sum.splits)

lemma scan_drop: "fold_result check es p = Inr r \<Longrightarrow> \<exists>r'. fold_result check (drop n es) p = Inr r'"
  by (auto simp: scan_Inr list_all_iff simp flip: drop_map dest!: in_set_dropD
      intro: sorted_wrt_drop)

lemma scan_push:
  assumes "fold_result check es p = Inr r" and "entry_ok e" and "r < stamp e"
  shows "\<exists>r'. fold_result check (keep_last n (es @ [e])) p = Inr r'"
proof -
  have "fold_result check (es @ [e]) p = Inr (stamp e)"
    using assms by (simp add: scan_append check_Inr)
  then show ?thesis
    unfolding keep_last_def by (rule scan_drop)
qed

end

locale bounded_history =
  fixes append_record :: "'h \<Rightarrow> 'r \<Rightarrow> 'h result"
    and load :: "'h \<Rightarrow> 'k \<Rightarrow> 'r list result"
    and key :: "'r \<Rightarrow> 'k"
    and accepts :: "'r \<Rightarrow> 'r list \<Rightarrow> bool"
    and cap :: nat
  assumes append_load:
      "append_record h r = Inr h' \<Longrightarrow>
         \<exists>rs. load h (key r) = Inr rs \<and> accepts r rs \<and> load h' (key r) = Inr (keep_last cap (rs @ [r]))"
    and append_frame: "append_record h r = Inr h' \<Longrightarrow> k \<noteq> key r \<Longrightarrow> load h' k = load h k"
    and append_accepts: "load h (key r) = Inr rs \<Longrightarrow> accepts r rs \<Longrightarrow> \<exists>h'. append_record h r = Inr h'"
    and load_bounded: "load h k = Inr rs \<Longrightarrow> length rs \<le> cap"
    and cap_positive: "0 < cap"
begin

lemma append_latest:
  assumes "append_record h r = Inr h'" and "load h' (key r) = Inr rs"
  shows "rs \<noteq> [] \<and> last rs = r"
  using append_load [OF assms(1)] assms(2) cap_positive by (auto simp: keep_last_append_last)

lemma append_iff:
  assumes "load h (key r) = Inr rs"
  shows "(\<exists>h'. append_record h r = Inr h') \<longleftrightarrow> accepts r rs"
  using append_load append_accepts assms by fastforce

text \<open>After any sequence of appends the file of a key holds the newest \<open>cap\<close> of all records ever
  written for it.\<close>

lemma append_all:
  assumes "fold_result (\<lambda>r h. append_record h r) rs h = Inr h'" and "load h k = Inr xs"
  shows "load h' k = Inr (keep_last cap (xs @ filter (\<lambda>r. key r = k) rs))"
  using assms
proof (induction rs arbitrary: h xs)
  case Nil
  then show ?case using load_bounded by (simp add: keep_last_id)
next
  case (Cons r rs)
  then obtain h1 where h1: "append_record h r = Inr h1" "fold_result (\<lambda>r h. append_record h r) rs h1 = Inr h'"
    by (auto simp: result_simps)
  show ?case
  proof (cases "key r = k")
    case True
    then have "load h1 k = Inr (keep_last cap (xs @ [r]))"
      using append_load [OF h1(1)] Cons.prems(2) by auto
    from Cons.IH [OF h1(2) this] True show ?thesis
      by (simp add: keep_last_keep_last_append)
  next
    case False
    then have "load h1 k = Inr xs"
      using append_frame [OF h1(1)] Cons.prems(2) by auto
    from Cons.IH [OF h1(2) this] False show ?thesis by simp
  qed
qed

end

end
