(* ===== verification/Retry_Circuit.thy ===== *)
theory Retry_Circuit
  imports Py_Time Py_Digest Journal
begin

text \<open>
  The retry circuit of \<open>src/tools/retry_circuit.py\<close>: bounded histories of failed attempts and
  recoveries of autonomous commands, launch reservations with an expiry, and the hold that opens
  when an unchanged command fails \<open>window\<close> times without progress.

  The state is the dictionary under the key \<open>retry_circuit\<close> of a task record. Operations that
  assign to \<open>meta\<close> return the new record; an exception discards it, as the caller does.
  Helpers that the source only calls on a validated state read its items with total accessors.
\<close>

section \<open>Constants and identities\<close>

definition DEFAULT_WINDOW :: int where "DEFAULT_WINDOW = 3"
definition MAX_WINDOW :: int where "MAX_WINDOW = 16"
definition MAX_ATTEMPTS :: nat where "MAX_ATTEMPTS = 64"
definition MAX_RECOVERIES :: nat where "MAX_RECOVERIES = 32"
definition MAX_ABANDONED :: nat where "MAX_ABANDONED = 64"

definition FAILURES :: "string list" where
  "FAILURES = [''EXIT'', ''SUBPROCESS_TIMEOUT'', ''RETRYABLE'']"

definition RECOVERIES :: "string list" where
  "RECOVERIES = [''checkpoint'', ''changed-approach'', ''retry-exception'']"

definition COMMAND_CLASSES :: "string list" where
  "COMMAND_CLASSES = [''read'', ''test'', ''source-write'', ''git-publication'']"

definition bad_scope_path :: "string \<Rightarrow> bool" where
  "bad_scope_path p =
     (p = [] \<or> 1024 < length p \<or> CHR 0x00 \<in> set p \<or> starts_with p ''/'' \<or>
      list_ex (\<lambda>part. part \<in> set ['''', ''.'', ''..'']) (split_on CHR ''/'' p))"

definition normalized_identity :: "string \<Rightarrow> string option \<Rightarrow> string list \<Rightarrow> string result" where
  "normalized_identity command_digest command_class scope_paths =
     bindE (raise_if (\<not> all_hex 64 command_digest) (ValueError ''retry circuit command digest is invalid'')) (\<lambda>_.
     bindE (raise_if (case command_class of None \<Rightarrow> False | Some c \<Rightarrow> c \<notin> set COMMAND_CLASSES)
              (ValueError ''retry circuit command class is invalid'')) (\<lambda>_.
     bindE (raise_if (64 < length scope_paths \<or> list_ex bad_scope_path scope_paths)
              (ValueError ''retry circuit scope is invalid'')) (\<lambda>_.
     Inr (digest (PDict [
       (''command_digest'', PStr command_digest),
       (''command_class'', PStr (case command_class of None \<Rightarrow> ''unbound''
          | Some c \<Rightarrow> if c = [] then ''unbound'' else c)),
       (''scope'', PList (map PStr (sorted_set scope_paths)))])))))"

definition latest_drift :: "meta \<Rightarrow> string" where
  "latest_drift meta =
     (let drift = dget meta ''change_drift'' in
      if is_list drift \<and> list_of drift \<noteq> [] \<and> is_dict (last (list_of drift))
      then py_str (dget_or (dict_of (last (list_of drift))) ''digest'' (PStr []))
      else [])"

definition progress_digest :: "meta \<Rightarrow> string" where
  "progress_digest meta =
     digest (PDict [
       (''checkpoint_commit'', PStr (py_str (dget_or meta ''checkpoint_commit'' (PStr [])))),
       (''change_drift_digest'', PStr (latest_drift meta)),
       (''spec_acceptance'', PStr (if is_dict (dget meta ''spec_acceptance'')
          then py_str (dget_or (dict_of (dget meta ''spec_acceptance'')) ''evidence_digest'' (PStr []))
          else []))])"

definition retry_empty :: meta where
  "retry_empty = [
     (''schema_version'', PInt 1),
     (''attempts'', PList []),
     (''recoveries'', PList []),
     (''hold'', PNone),
     (''reservations'', PList []),
     (''abandoned'', PList [])]"

section \<open>Validation\<close>

definition retry_reason :: "pyval \<Rightarrow> string result" where
  "retry_reason v =
     (if \<not> is_str v \<or> strip (str_of v) = [] \<or> 500 < length (str_of v) \<or> newline \<in> set (str_of v)
      then Inl (ValueError ''retry circuit recovery reason is invalid'')
      else Inr (strip (str_of v)))"

definition retry_window :: "pyval \<Rightarrow> int result" where
  "retry_window v =
     (if \<not> exact_int v \<or> \<not> (DEFAULT_WINDOW \<le> int_of v \<and> int_of v \<le> MAX_WINDOW)
      then Inl (ValueError ''retry circuit window must be 3..16'') else Inr (int_of v))"

definition retry_timestamp :: "pyval \<Rightarrow> string \<Rightarrow> int result" where
  "retry_timestamp v field =
     (let e = ValueError (''retry circuit '' @ field @ '' is invalid'') in
      if \<not> is_str v \<or> str_of v = [] then Inl e else parse_instant e (str_of v))"

definition ATTEMPT_KEYS :: "string list" where
  "ATTEMPT_KEYS = [''identity'', ''failure'', ''progress_digest'', ''task_revision'', ''recorded_at'', ''window'']"

definition validate_attempt :: "pyval \<Rightarrow> int \<Rightarrow> int result" where
  "validate_attempt v previous_revision =
     (if \<not> is_dict v \<or> \<not> keys_exact (dict_of v) ATTEMPT_KEYS
      then Inl (ValueError ''retry circuit attempt fields are invalid'')
      else let a = dict_of v in
        bindE (orE (Inr (\<not> is_digest (py_str (dget_or a ''identity'' (PStr []))))) (
               orE (hash_not_in (dget a ''failure'') FAILURES) (
               Inr (\<not> is_digest (py_str (dget_or a ''progress_digest'' (PStr [])))
                 \<or> \<not> exact_int (dget a ''task_revision'')
                 \<or> int_of (dget a ''task_revision'') \<le> previous_revision
                 \<or> \<not> is_str (dget a ''recorded_at'')
                 \<or> \<not> truthy (dget a ''recorded_at''))))) (\<lambda>bad.
        bindE (raise_if bad (ValueError ''retry circuit attempt is invalid'')) (\<lambda>_.
        bindE (retry_window (dget a ''window'')) (\<lambda>_.
        Inr (int_of (dget a ''task_revision''))))))"

definition RECOVERY_KEYS :: "string list" where
  "RECOVERY_KEYS = [''identity'', ''progress_digest'', ''kind'', ''reason'', ''task_revision'',
     ''recorded_at'', ''checkpoint_commit'']"

definition validate_recovery :: "pyval \<Rightarrow> int \<Rightarrow> int result" where
  "validate_recovery v previous_revision =
     (if \<not> is_dict v \<or> \<not> keys_exact (dict_of v) RECOVERY_KEYS
      then Inl (ValueError ''retry circuit recovery fields are invalid'')
      else let r = dict_of v in
        bindE (orE (Inr (\<not> is_digest (py_str (dget_or r ''identity'' (PStr [])))
                 \<or> \<not> is_digest (py_str (dget_or r ''progress_digest'' (PStr []))))) (
               orE (hash_not_in (dget r ''kind'') RECOVERIES) (
               Inr (\<not> exact_int (dget r ''task_revision'')
                 \<or> int_of (dget r ''task_revision'') \<le> previous_revision
                 \<or> \<not> is_str (dget r ''recorded_at'')
                 \<or> \<not> truthy (dget r ''recorded_at'')
                 \<or> \<not> is_str (dget r ''checkpoint_commit'')
                 \<or> (truthy (dget r ''checkpoint_commit'')
                     \<and> \<not> all_hex 40 (str_of (dget r ''checkpoint_commit''))))))) (\<lambda>bad.
        bindE (raise_if bad (ValueError ''retry circuit recovery is invalid'')) (\<lambda>_.
        bindE (retry_reason (dget r ''reason'')) (\<lambda>_.
        Inr (int_of (dget r ''task_revision''))))))"

definition HOLD_KEYS :: "string list" where
  "HOLD_KEYS = [''identity'', ''attempts'', ''progress_digest'', ''held_at'', ''window'']"

definition hold_fields :: "pyval \<Rightarrow> meta result" where
  "hold_fields v =
     (if \<not> is_dict v \<or> \<not> keys_exact (dict_of v) HOLD_KEYS
      then Inl (ValueError ''retry circuit hold fields are invalid'') else Inr (dict_of v))"

definition hold_values :: "meta \<Rightarrow> unit result" where
  "hold_values h =
     bindE (raise_if (\<not> is_digest (py_str (dget_or h ''identity'' (PStr [])))
         \<or> \<not> exact_int (dget h ''attempts'')
         \<or> int_of (dget h ''attempts'') < DEFAULT_WINDOW
         \<or> \<not> is_digest (py_str (dget_or h ''progress_digest'' (PStr [])))
         \<or> \<not> is_str (dget h ''held_at'')
         \<or> \<not> truthy (dget h ''held_at'')) (ValueError ''retry circuit hold is invalid'')) (\<lambda>_.
     bindE (retry_window (dget h ''window'')) (\<lambda>w.
     raise_if (w \<noteq> int_of (dget h ''attempts'')) (ValueError ''retry circuit hold threshold is invalid'')))"

text \<open>The attempts of one identity at one progress digest after the latest recovery of it.\<close>

definition same_series :: "string \<Rightarrow> string \<Rightarrow> pyval \<Rightarrow> bool" where
  "same_series identity progress item =
     (dget (dict_of item) ''identity'' = PStr identity \<and> dget (dict_of item) ''progress_digest'' = PStr progress)"

definition item_revision :: "pyval \<Rightarrow> int" where
  "item_revision item = int_of (dget (dict_of item) ''task_revision'')"

definition recovered_revision :: "meta \<Rightarrow> string \<Rightarrow> string \<Rightarrow> int" where
  "recovered_revision state identity progress =
     (let rs = map item_revision (filter (same_series identity progress) (list_of (dget state ''recoveries'')))
      in if rs = [] then 0 else Max (set rs))"

definition active_attempts :: "meta \<Rightarrow> string \<Rightarrow> string \<Rightarrow> pyval list" where
  "active_attempts state identity progress =
     filter (\<lambda>item. is_dict item \<and> same_series identity progress item
               \<and> recovered_revision state identity progress < item_revision item)
       (list_of (dget state ''attempts''))"

definition matching_hold_attempts :: "meta \<Rightarrow> meta \<Rightarrow> nat" where
  "matching_hold_attempts h state =
     length (active_attempts state (py_str (dget h ''identity'')) (py_str (dget h ''progress_digest'')))"

definition validate_hold :: "pyval \<Rightarrow> meta \<Rightarrow> unit result" where
  "validate_hold v state =
     (if v = PNone then Inr () else
      bindE (hold_fields v) (\<lambda>h.
      bindE (hold_values h) (\<lambda>_.
      raise_if (int (matching_hold_attempts h state) < int_of (dget h ''attempts''))
        (ValueError ''retry circuit hold has insufficient attempts''))))"

definition RESERVATION_KEYS :: "string list" where
  "RESERVATION_KEYS = [''id'', ''identity'', ''progress_digest'', ''window'', ''task_revision'',
     ''reserved_at'', ''expires_at'']"

definition validate_reservation :: "pyval \<Rightarrow> unit result" where
  "validate_reservation v =
     (let r = dict_of v in
      bindE (raise_if (\<not> is_dict v
          \<or> \<not> keys_exact r RESERVATION_KEYS
          \<or> \<not> all_hex 32 (py_str (dget_or r ''id'' (PStr [])))
          \<or> \<not> is_digest (py_str (dget_or r ''identity'' (PStr [])))
          \<or> \<not> is_digest (py_str (dget_or r ''progress_digest'' (PStr [])))
          \<or> \<not> exact_int (dget r ''task_revision'')
          \<or> \<not> is_str (dget r ''reserved_at'')
          \<or> \<not> truthy (dget r ''reserved_at'')) (ValueError ''retry circuit reservation is invalid'')) (\<lambda>_.
      bindE (retry_window (dget r ''window'')) (\<lambda>_.
      bindE (retry_timestamp (dget r ''expires_at'') ''reservation expiry'') (\<lambda>expiry.
      bindE (retry_timestamp (dget r ''reserved_at'') ''reservation timestamp'') (\<lambda>reserved.
      raise_if (expiry \<le> reserved) (ValueError ''retry circuit reservation expiry is invalid''))))))"

definition validate_abandoned :: "pyval \<Rightarrow> unit result" where
  "validate_abandoned v =
     (if \<not> is_dict v \<or> \<not> keys_exact (dict_of v) (RESERVATION_KEYS @ [''cleaned_at'', ''cause''])
      then Inl (ValueError ''retry circuit abandoned slot fields are invalid'')
      else let a = dict_of v in
        bindE (validate_reservation (PDict (filter (\<lambda>kv. fst kv \<noteq> ''cleaned_at'' \<and> fst kv \<noteq> ''cause'') a))) (\<lambda>_.
        bindE (if dget a ''cause'' \<noteq> PStr ''expired'' then Inr True
               else bindE (retry_timestamp (dget a ''cleaned_at'') ''cleanup timestamp'') (\<lambda>cleaned.
                    bindE (retry_timestamp (dget a ''expires_at'') ''reservation expiry'') (\<lambda>expiry.
                    Inr (cleaned < expiry)))) (\<lambda>bad.
        raise_if bad (ValueError ''retry circuit abandoned slot is invalid''))))"

definition retry_collections :: "pyval \<Rightarrow> meta result" where
  "retry_collections v =
     (if \<not> is_dict v \<or> \<not> keys_exact (dict_of v) (dkeys retry_empty)
      then Inl (ValueError ''retry circuit fields are not exact'')
      else if \<not> py_eq (dget (dict_of v) ''schema_version'') (PInt 1)
      then Inl (ValueError ''retry circuit schema is unsupported'')
      else Inr (dict_of v))"

definition bounded_list :: "pyval \<Rightarrow> nat \<Rightarrow> string \<Rightarrow> pyval list result" where
  "bounded_list v limit error =
     (if \<not> is_list v \<or> limit < length (list_of v) then Inl (ValueError error) else Inr (list_of v))"

definition validated_collections ::
  "pyval \<Rightarrow> (meta \<times> pyval list \<times> pyval list \<times> pyval list \<times> pyval list) result" where
  "validated_collections v =
     bindE (retry_collections v) (\<lambda>d.
     bindE (bounded_list (dget d ''attempts'') MAX_ATTEMPTS ''retry circuit attempts are invalid'') (\<lambda>attempts.
     bindE (bounded_list (dget d ''recoveries'') MAX_RECOVERIES ''retry circuit recoveries are invalid'') (\<lambda>recoveries.
     bindE (bounded_list (dget d ''reservations'') (nat MAX_WINDOW) ''retry circuit reservations are invalid'') (\<lambda>reservations.
     bindE (bounded_list (dget d ''abandoned'') MAX_ABANDONED ''retry circuit abandoned slots are invalid'') (\<lambda>abandoned.
     bindE (raise_if (attempts = [] \<and> reservations = [] \<and> abandoned = [])
              (ValueError ''retry circuit attempts are invalid'')) (\<lambda>_.
     Inr (d, attempts, recoveries, reservations, abandoned)))))))"

definition retry_validate :: "pyval \<Rightarrow> meta result" where
  "retry_validate v =
     bindE (validated_collections v) (\<lambda>(d, attempts, recoveries, reservations, abandoned).
     bindE (fold_result validate_attempt attempts 0) (\<lambda>_.
     bindE (fold_result validate_recovery recoveries 0) (\<lambda>_.
     bindE (validate_hold (dget d ''hold'') d) (\<lambda>_.
     bindE (for_each validate_reservation reservations) (\<lambda>_.
     bindE (raise_if (\<not> py_distinct (map (\<lambda>item. dget (dict_of item) ''id'') reservations))
              (ValueError ''retry circuit reservations are duplicated'')) (\<lambda>_.
     bindE (for_each validate_abandoned abandoned) (\<lambda>_.
     Inr d)))))))"

text \<open>Only \<open>ValueError\<close> becomes a message; any other exception propagates.\<close>

definition retry_metadata_error :: "meta \<Rightarrow> string option result" where
  "retry_metadata_error meta =
     (let v = dget meta ''retry_circuit'' in
      if v = PNone then Inr None
      else catchE (bindE (retry_validate v) (\<lambda>_. Inr None))
             (\<lambda>e. if is_value_error e then Inr (Some (exc_message e)) else Inl e))"

definition retry_state :: "meta \<Rightarrow> meta result" where
  "retry_state meta =
     (let v = dget meta ''retry_circuit''; d = dict_of v in
      if v = PNone then Inr retry_empty
      else if is_dict v \<and> py_eq (dget d ''schema_version'') (PInt 1)
        \<and> dget d ''attempts'' = PList [] \<and> dget d ''recoveries'' = PList [] \<and> dget d ''hold'' = PNone
        \<and> dget d ''reservations'' = PList [] \<and> dget d ''abandoned'' = PList []
      then Inr d
      else retry_validate v)"

section \<open>Operations\<close>

definition retry_admit :: "meta \<Rightarrow> string \<Rightarrow> unit result" where
  "retry_admit meta identity =
     bindE (retry_state meta) (\<lambda>state.
     bindE (ditem state ''hold'') (\<lambda>hold.
     if hold = PNone then Inr ()
     else raise_if (same_series identity (progress_digest meta) hold)
       (RuntimeError ''RETRY_CIRCUIT_OPEN: repeated no-progress attempts require retry-circuit recovery'')))"

definition reservation_expired :: "string \<Rightarrow> pyval \<Rightarrow> bool result" where
  "reservation_expired recorded_at item =
     bindE (retry_timestamp (dget (dict_of item) ''expires_at'') ''reservation expiry'') (\<lambda>expiry.
     bindE (retry_timestamp (PStr recorded_at) ''cleanup timestamp'') (\<lambda>now_us.
     Inr (expiry \<le> now_us)))"

definition cleanup_expired :: "meta \<Rightarrow> string \<Rightarrow> (meta \<times> nat) result" where
  "cleanup_expired meta recorded_at =
     bindE (retry_state meta) (\<lambda>state.
     bindE (filter_result (reservation_expired recorded_at) (list_of (dget state ''reservations''))) (\<lambda>expired.
     if expired = [] then Inr (meta, 0) else
     let state1 = dset state ''reservations''
           (PList (filter (\<lambda>item. \<not> py_in item expired) (list_of (dget state ''reservations''))));
         state2 = dset state1 ''abandoned'' (PList (keep_last MAX_ABANDONED
           (list_of (dget state ''abandoned'') @
            map (\<lambda>item. PDict (dset (dset (dict_of item) ''cleaned_at'' (PStr recorded_at)) ''cause'' (PStr ''expired'')))
              expired)))
     in bindE (retry_validate (PDict state2)) (\<lambda>_.
        Inr (dset meta ''retry_circuit'' (PDict state2), length expired))))"

definition require_no_live_reservation :: "meta \<Rightarrow> string \<Rightarrow> meta result" where
  "require_no_live_reservation meta recorded_at =
     bindE (cleanup_expired meta recorded_at) (\<lambda>(meta1, _).
     let state = dget meta1 ''retry_circuit'' in
     bindE (raise_if (is_dict state \<and> truthy (dget (dict_of state) ''reservations''))
       (RuntimeError ''RETRY_CIRCUIT_IN_PROGRESS: task has a live unbound retry reservation'')) (\<lambda>_.
     Inr meta1))"

definition failure_attempt :: "string \<Rightarrow> string \<Rightarrow> string \<Rightarrow> int \<Rightarrow> string \<Rightarrow> int \<Rightarrow> pyval" where
  "failure_attempt identity failure progress revision recorded_at threshold = PDict [
     (''identity'', PStr identity),
     (''failure'', PStr failure),
     (''progress_digest'', PStr progress),
     (''task_revision'', PInt revision),
     (''recorded_at'', PStr recorded_at),
     (''window'', PInt threshold)]"

definition open_hold :: "string \<Rightarrow> string \<Rightarrow> string \<Rightarrow> int \<Rightarrow> pyval" where
  "open_hold identity progress recorded_at threshold = PDict [
     (''identity'', PStr identity),
     (''attempts'', PInt threshold),
     (''progress_digest'', PStr progress),
     (''held_at'', PStr recorded_at),
     (''window'', PInt threshold)]"

definition record_failure ::
  "meta \<Rightarrow> string \<Rightarrow> string \<Rightarrow> pyval \<Rightarrow> string \<Rightarrow> (meta \<times> string) result" where
  "record_failure meta identity failure window recorded_at =
     bindE (raise_if (failure \<notin> set FAILURES \<or> \<not> is_digest identity \<or> recorded_at = [])
              (ValueError ''retry circuit failure input is invalid'')) (\<lambda>_.
     bindE (retry_window window) (\<lambda>threshold.
     bindE (retry_state meta) (\<lambda>state.
     let progress = progress_digest meta;
         previous = active_attempts state identity progress in
     bindE (raise_if (previous \<noteq> [] \<and> int_of (dget (dict_of (last previous)) ''window'') \<noteq> threshold)
              (RuntimeError ''retry circuit window changed within an active attempt series'')) (\<lambda>_.
     bindE (ditem meta ''task_revision'') (\<lambda>rev_value.
     bindE (py_int rev_value) (\<lambda>revision.
     let state1 = dset state ''attempts'' (PList (keep_last MAX_ATTEMPTS
           (list_of (dget state ''attempts'') @
            [failure_attempt identity failure progress revision recorded_at threshold])));
         count = int (length previous) + 1;
         (state2, result) =
           (if threshold \<le> count
            then (dset state1 ''hold'' (open_hold identity progress recorded_at threshold),
                  ''Retry circuit opened after bounded unchanged failures.'')
            else (state1, ''Recorded retryable failure '' @ show_int count @ ''/'' @ show_int threshold @ ''.''))
     in bindE (retry_validate (PDict state2)) (\<lambda>_.
        Inr (dset meta ''retry_circuit'' (PDict state2), result))))))))"

definition reservation_record ::
  "string \<Rightarrow> string \<Rightarrow> string \<Rightarrow> int \<Rightarrow> int \<Rightarrow> string \<Rightarrow> string \<Rightarrow> pyval" where
  "reservation_record rid identity progress threshold revision recorded_at expires_at = PDict [
     (''id'', PStr rid),
     (''identity'', PStr identity),
     (''progress_digest'', PStr progress),
     (''window'', PInt threshold),
     (''task_revision'', PInt revision),
     (''reserved_at'', PStr recorded_at),
     (''expires_at'', PStr expires_at)]"

definition slots_used :: "meta \<Rightarrow> string \<Rightarrow> string \<Rightarrow> nat" where
  "slots_used state identity progress =
     length (active_attempts state identity progress) +
     length (filter (same_series identity progress) (list_of (dget state ''reservations'')))"

definition reserve ::
  "meta \<Rightarrow> string \<Rightarrow> pyval \<Rightarrow> string \<Rightarrow> string \<Rightarrow> string \<Rightarrow> (meta \<times> string) result" where
  "reserve meta identity window reservation_id recorded_at expires_at =
     bindE (retry_window window) (\<lambda>threshold.
     bindE (raise_if (\<not> is_digest identity \<or> \<not> all_hex 32 reservation_id \<or> recorded_at = [])
              (ValueError ''retry circuit reservation input is invalid'')) (\<lambda>_.
     bindE (retry_timestamp (PStr expires_at) ''reservation expiry'') (\<lambda>expiry.
     bindE (retry_timestamp (PStr recorded_at) ''reservation timestamp'') (\<lambda>reserved.
     bindE (raise_if (expiry \<le> reserved) (ValueError ''retry circuit reservation expiry is invalid'')) (\<lambda>_.
     bindE (cleanup_expired meta recorded_at) (\<lambda>(meta1, cleaned).
     bindE (retry_state meta1) (\<lambda>state.
     let progress = progress_digest meta1 in
     bindE (retry_admit meta1 identity) (\<lambda>_.
     bindE (raise_if (threshold \<le> int (slots_used state identity progress))
              (RuntimeError ''RETRY_CIRCUIT_OPEN: retry window is fully reserved'')) (\<lambda>_.
     bindE (ditem meta1 ''task_revision'') (\<lambda>rev_value.
     bindE (py_int rev_value) (\<lambda>revision.
     let state1 = dset state ''reservations'' (PList (list_of (dget state ''reservations'') @
           [reservation_record reservation_id identity progress threshold revision recorded_at expires_at]))
     in bindE (retry_validate (PDict state1)) (\<lambda>_.
        Inr (dset meta1 ''retry_circuit'' (PDict state1),
          ''Reserved retry circuit launch slot; expired_slots_cleaned='' @ show_nat cleaned @ ''.'')))))))))))))"

text \<open>The reservation \<open>next((item for item in state["reservations"] if item["id"] == rid), None)\<close>,
  required to carry the caller's identity.\<close>

definition current_reservation :: "meta \<Rightarrow> string \<Rightarrow> string \<Rightarrow> meta result" where
  "current_reservation state identity rid =
     (case find (\<lambda>item. dget (dict_of item) ''id'' = PStr rid) (list_of (dget state ''reservations'')) of
        None \<Rightarrow> Inl (RuntimeError ''retry circuit reservation is not current'')
      | Some item \<Rightarrow>
          if dget (dict_of item) ''identity'' \<noteq> PStr identity
          then Inl (RuntimeError ''retry circuit reservation is not current'')
          else Inr (dict_of item))"

definition resolve ::
  "meta \<Rightarrow> string \<Rightarrow> string \<Rightarrow> string option \<Rightarrow> string \<Rightarrow> (meta \<times> string) result" where
  "resolve meta identity reservation_id failure recorded_at =
     bindE (retry_state meta) (\<lambda>state.
     bindE (current_reservation state identity reservation_id) (\<lambda>selected.
     let state1 = dset state ''reservations'' (PList (filter
           (\<lambda>item. dget (dict_of item) ''id'' \<noteq> PStr reservation_id) (list_of (dget state ''reservations''))));
         meta1 = dset meta ''retry_circuit'' (PDict state1)
     in case failure of
          None \<Rightarrow>
            if \<not> truthy (dget state1 ''attempts'')
            then Inr (dpop meta1 ''retry_circuit'', ''Released retry circuit launch slot.'')
            else bindE (retry_validate (PDict state1)) (\<lambda>_. Inr (meta1, ''Released retry circuit launch slot.''))
        | Some f \<Rightarrow> record_failure meta1 identity f (PInt (int_of (dget selected ''window''))) recorded_at))"

definition resolution_revision :: "meta \<Rightarrow> string \<Rightarrow> string \<Rightarrow> int result" where
  "resolution_revision meta identity reservation_id =
     bindE (retry_state meta) (\<lambda>state.
     bindE (current_reservation state identity reservation_id) (\<lambda>selected.
     Inr (int_of (dget selected ''task_revision'') + 1)))"

definition recovery_record ::
  "string \<Rightarrow> string \<Rightarrow> string \<Rightarrow> string \<Rightarrow> int \<Rightarrow> string \<Rightarrow> string \<Rightarrow> pyval" where
  "recovery_record identity progress kind why revision recorded_at checkpoint = PDict [
     (''identity'', PStr identity),
     (''progress_digest'', PStr progress),
     (''kind'', PStr kind),
     (''reason'', PStr why),
     (''task_revision'', PInt revision),
     (''recorded_at'', PStr recorded_at),
     (''checkpoint_commit'', PStr checkpoint)]"

definition recover :: "meta \<Rightarrow> string \<Rightarrow> string \<Rightarrow> string \<Rightarrow> string \<Rightarrow> (meta \<times> string) result" where
  "recover meta identity kind reason recorded_at =
     bindE (raise_if (kind \<notin> set RECOVERIES \<or> \<not> is_digest identity \<or> recorded_at = [])
              (ValueError ''retry circuit recovery input is invalid'')) (\<lambda>_.
     bindE (retry_state meta) (\<lambda>state.
     bindE (ditem state ''hold'') (\<lambda>hold.
     bindE (raise_if (hold = PNone \<or> dget (dict_of hold) ''identity'' \<noteq> PStr identity)
              (RuntimeError ''retry circuit recovery requires the exact held attempt identity'')) (\<lambda>_.
     let checkpoint = py_str (dget_or meta ''checkpoint_commit'' (PStr [])) in
     bindE (raise_if (kind = ''checkpoint'' \<and> \<not> all_hex 40 checkpoint)
              (RuntimeError ''retry circuit checkpoint recovery requires a recorded checkpoint'')) (\<lambda>_.
     bindE (retry_reason (PStr reason)) (\<lambda>why.
     bindE (ditem meta ''task_revision'') (\<lambda>rev_value.
     bindE (py_int rev_value) (\<lambda>revision.
     let state1 = dset state ''recoveries'' (PList (keep_last MAX_RECOVERIES
           (list_of (dget state ''recoveries'') @
            [recovery_record identity (progress_digest meta) kind why revision recorded_at checkpoint])));
         state2 = dset state1 ''hold'' PNone
     in bindE (retry_validate (PDict state2)) (\<lambda>_.
        Inr (dset meta ''retry_circuit'' (PDict state2), ''Retry circuit recovered by '' @ kind @ ''.''))))))))))"

section \<open>Command handlers\<close>

definition active_owner :: "namespace \<Rightarrow> meta \<Rightarrow> bool" where
  "active_owner args meta =
     (py_eq (dget meta ''owner'') (dget args ''owner'') \<and> dget meta ''status'' = PStr ''in_progress'')"

definition retry_apply :: "namespace \<Rightarrow> meta \<Rightarrow> string \<Rightarrow> (meta \<times> string) result" where
  "retry_apply args meta recorded_at =
     bindE (raise_if (\<not> active_owner args meta)
              (RuntimeError ''retry circuit recovery requires the active task owner'')) (\<lambda>_.
     bindE (raise_if (\<not> py_eq (dget args ''expected_revision'') (dget meta ''task_revision''))
              (RuntimeError ''retry circuit recovery requires the current task revision'')) (\<lambda>_.
     bindE (require_no_live_reservation meta recorded_at) (\<lambda>meta1.
     recover meta1 (py_str (dget args ''attempt'')) (py_str (dget args ''retry_circuit_action''))
       (py_str (dget args ''reason'')) recorded_at)))"

definition apply_reserve :: "namespace \<Rightarrow> meta \<Rightarrow> string \<Rightarrow> (meta \<times> string) result" where
  "apply_reserve args meta recorded_at =
     bindE (raise_if (\<not> active_owner args meta)
              (RuntimeError ''retry circuit reservation requires the active task owner'')) (\<lambda>_.
     bindE (raise_if (\<not> py_eq (dget args ''expected_revision'') (dget meta ''task_revision''))
              (RuntimeError ''retry circuit reservation requires the current task revision'')) (\<lambda>_.
     reserve meta (arg_str args ''retry_circuit_identity'') (dget args ''retry_window'')
       (arg_str args ''retry_circuit_reservation'') recorded_at (arg_str args ''retry_circuit_expires_at'')))"

definition apply_resolve :: "namespace \<Rightarrow> meta \<Rightarrow> string \<Rightarrow> (meta \<times> string) result" where
  "apply_resolve args meta recorded_at =
     bindE (raise_if (\<not> active_owner args meta)
              (RuntimeError ''retry circuit resolution requires the active task owner'')) (\<lambda>_.
     bindE (resolution_revision meta (arg_str args ''retry_circuit_identity'')
              (arg_str args ''retry_circuit_reservation'')) (\<lambda>required_revision.
     bindE (raise_if (\<not> py_eq (dget args ''expected_revision'') (PInt required_revision)
                \<or> \<not> py_eq (dget meta ''task_revision'') (PInt required_revision))
       (RuntimeError ''retry circuit resolution requires the revision immediately after its reservation'')) (\<lambda>_.
     resolve meta (arg_str args ''retry_circuit_identity'') (arg_str args ''retry_circuit_reservation'')
       (arg_opt args ''retry_circuit_failure'') recorded_at)))"

section \<open>What validation accepts\<close>

definition attempt_ok :: "pyval \<Rightarrow> bool" where
  "attempt_ok v =
     (is_dict v \<and> keys_exact (dict_of v) ATTEMPT_KEYS \<and>
      is_digest (py_str (dget_or (dict_of v) ''identity'' (PStr []))) \<and>
      dget (dict_of v) ''failure'' \<in> PStr ` set FAILURES \<and>
      is_digest (py_str (dget_or (dict_of v) ''progress_digest'' (PStr []))) \<and>
      exact_int (dget (dict_of v) ''task_revision'') \<and>
      is_str (dget (dict_of v) ''recorded_at'') \<and> truthy (dget (dict_of v) ''recorded_at'') \<and>
      succeeds (retry_window (dget (dict_of v) ''window'')))"

definition recovery_ok :: "pyval \<Rightarrow> bool" where
  "recovery_ok v =
     (is_dict v \<and> keys_exact (dict_of v) RECOVERY_KEYS \<and>
      is_digest (py_str (dget_or (dict_of v) ''identity'' (PStr []))) \<and>
      is_digest (py_str (dget_or (dict_of v) ''progress_digest'' (PStr []))) \<and>
      dget (dict_of v) ''kind'' \<in> PStr ` set RECOVERIES \<and>
      exact_int (dget (dict_of v) ''task_revision'') \<and>
      is_str (dget (dict_of v) ''recorded_at'') \<and> truthy (dget (dict_of v) ''recorded_at'') \<and>
      is_str (dget (dict_of v) ''checkpoint_commit'') \<and>
      (truthy (dget (dict_of v) ''checkpoint_commit'') \<longrightarrow> all_hex 40 (str_of (dget (dict_of v) ''checkpoint_commit''))) \<and>
      succeeds (retry_reason (dget (dict_of v) ''reason'')))"

interpretation attempts: revision_journal validate_attempt attempt_ok item_revision
proof
  fix e p r
  show "validate_attempt e p = Inr r \<longleftrightarrow> attempt_ok e \<and> p < item_revision e \<and> r = item_revision e"
    by (auto simp: validate_attempt_def attempt_ok_def item_revision_def Let_def result_simps
        hash_not_in_False succeeds_iff)
qed

interpretation recoveries: revision_journal validate_recovery recovery_ok item_revision
proof
  fix e p r
  show "validate_recovery e p = Inr r \<longleftrightarrow> recovery_ok e \<and> p < item_revision e \<and> r = item_revision e"
    by (auto simp: validate_recovery_def recovery_ok_def item_revision_def Let_def result_simps
        hash_not_in_False succeeds_iff)
qed

lemma bounded_list_Inr [result_simps]:
  "bounded_list v n e = Inr xs \<longleftrightarrow> v = PList xs \<and> length xs \<le> n"
  by (cases v) (auto simp: bounded_list_def)

text \<open>The checks of a state in the order of the source, as one predicate over its dictionary.\<close>

definition retry_sound :: "meta \<Rightarrow> bool" where
  "retry_sound d =
     (keys_exact d (dkeys retry_empty) \<and> py_eq (dget d ''schema_version'') (PInt 1) \<and>
      is_list (dget d ''attempts'') \<and> length (list_of (dget d ''attempts'')) \<le> MAX_ATTEMPTS \<and>
      is_list (dget d ''recoveries'') \<and> length (list_of (dget d ''recoveries'')) \<le> MAX_RECOVERIES \<and>
      is_list (dget d ''reservations'') \<and> length (list_of (dget d ''reservations'')) \<le> nat MAX_WINDOW \<and>
      is_list (dget d ''abandoned'') \<and> length (list_of (dget d ''abandoned'')) \<le> MAX_ABANDONED \<and>
      succeeds (fold_result validate_attempt (list_of (dget d ''attempts'')) 0) \<and>
      succeeds (fold_result validate_recovery (list_of (dget d ''recoveries'')) 0) \<and>
      succeeds (validate_hold (dget d ''hold'') d) \<and>
      (\<forall>item \<in> set (list_of (dget d ''reservations'')). succeeds (validate_reservation item)) \<and>
      py_distinct (map (\<lambda>item. dget (dict_of item) ''id'') (list_of (dget d ''reservations''))) \<and>
      (\<forall>item \<in> set (list_of (dget d ''abandoned'')). succeeds (validate_abandoned item)))"

definition retry_wf :: "meta \<Rightarrow> bool" where
  "retry_wf d =
     (retry_sound d \<and> (list_of (dget d ''attempts'') \<noteq> [] \<or> list_of (dget d ''reservations'') \<noteq> [] \<or> list_of (dget d ''abandoned'') \<noteq> []))"

lemma retry_validate_Inr [result_simps]: "retry_validate v = Inr d \<longleftrightarrow> v = PDict d \<and> retry_wf d"
proof (cases v)
  case (PDict e)
  have "retry_validate (PDict e) = Inr d \<longleftrightarrow> e = d \<and> retry_wf e"
    unfolding retry_validate_def validated_collections_def retry_collections_def retry_wf_def retry_sound_def
    by (auto simp: result_simps succeeds_iff is_list_iff split: prod.splits)
  then show ?thesis
    using PDict by auto
qed (simp_all add: retry_validate_def validated_collections_def retry_collections_def)

lemma retry_state_absent: "dget meta ''retry_circuit'' = PNone \<Longrightarrow> retry_state meta = Inr retry_empty"
  by (simp add: retry_state_def)

lemma retry_state_stored:
  "retry_wf d \<Longrightarrow> retry_state (dset meta ''retry_circuit'' (PDict d)) = Inr d"
  by (auto simp: retry_state_def Let_def result_simps)

lemma retry_state_cases:
  assumes "retry_state meta = Inr st"
  obtains (empty) "list_of (dget st ''attempts'') = []" "list_of (dget st ''recoveries'') = []"
      "list_of (dget st ''reservations'') = []" "list_of (dget st ''abandoned'') = []"
      "dget st ''hold'' = PNone" "py_eq (dget st ''schema_version'') (PInt 1)"
  | (stored) "dget meta ''retry_circuit'' = PDict st" "retry_wf st"
proof -
  consider "dget meta ''retry_circuit'' = PNone" "st = retry_empty"
    | "dget st ''attempts'' = PList []" "dget st ''recoveries'' = PList []" "dget st ''hold'' = PNone"
      "dget st ''reservations'' = PList []" "dget st ''abandoned'' = PList []"
      "py_eq (dget st ''schema_version'') (PInt 1)"
    | "dget meta ''retry_circuit'' = PDict st" "retry_wf st"
    using assms by (auto simp: retry_state_def Let_def result_simps split: if_splits)
  then show ?thesis
  proof cases
    case 1
    then show ?thesis by (intro empty) (simp_all add: retry_empty_def dget_def)
  next
    case 2
    then show ?thesis by (intro empty) simp_all
  next
    case 3
    then show ?thesis by (rule stored)
  qed
qed

lemma progress_digest_dset [simp]:
  "''checkpoint_commit'' \<noteq> k \<Longrightarrow> ''change_drift'' \<noteq> k \<Longrightarrow> ''spec_acceptance'' \<noteq> k \<Longrightarrow>
     progress_digest (dset meta k v) = progress_digest meta"
  by (simp add: progress_digest_def latest_drift_def)

lemma retry_window_Inr [result_simps]:
  "retry_window v = Inr w \<longleftrightarrow> v = PInt w \<and> DEFAULT_WINDOW \<le> w \<and> w \<le> MAX_WINDOW"
  by (cases v) (auto simp: retry_window_def)

section \<open>Admission\<close>

lemma retry_admit_stored:
  "retry_wf d \<Longrightarrow> retry_admit (dset meta ''retry_circuit'' (PDict d)) identity =
     (if dget d ''hold'' \<noteq> PNone \<and> same_series identity (progress_digest meta) (dget d ''hold'')
      then Inl (RuntimeError ''RETRY_CIRCUIT_OPEN: repeated no-progress attempts require retry-circuit recovery'')
      else Inr ())"
  by (auto simp: retry_admit_def retry_state_stored ditem_eq retry_wf_def retry_sound_def keys_exact_dhas
      retry_empty_def dkeys_def)

lemma same_series_hold [simp]:
  "same_series identity progress (open_hold i p at w) \<longleftrightarrow> identity = i \<and> progress = p"
  by (auto simp: same_series_def open_hold_def dget_def)

lemma open_hold_not_None [simp]: "open_hold i p at w \<noteq> PNone"
  by (simp add: open_hold_def)

lemma record_failure_Inr:
  "record_failure meta identity failure window recorded_at = Inr (meta', msg) \<Longrightarrow>
   \<exists>st w d. retry_state meta = Inr st \<and> window = PInt w \<and> DEFAULT_WINDOW \<le> w \<and> w \<le> MAX_WINDOW \<and>
     is_digest identity \<and> retry_wf d \<and> meta' = dset meta ''retry_circuit'' (PDict d) \<and>
     dget d ''hold'' =
       (if w \<le> int (length (active_attempts st identity (progress_digest meta))) + 1
        then open_hold identity (progress_digest meta) recorded_at w else dget st ''hold'')"
  unfolding record_failure_def Let_def
  by (fastforce simp: result_simps split: if_splits)

text \<open>A failure that fills the window opens the circuit for that command: the next launch of it is
  refused. Below the window the hold is what it was.\<close>

lemma record_failure_opens_at_threshold:
  assumes "record_failure meta identity failure (PInt w) recorded_at = Inr (meta', msg)"
    and "retry_state meta = Inr st"
  shows "if w \<le> int (length (active_attempts st identity (progress_digest meta))) + 1
         then retry_admit meta' identity =
           Inl (RuntimeError ''RETRY_CIRCUIT_OPEN: repeated no-progress attempts require retry-circuit recovery'')
         else dget (dict_of (dget meta' ''retry_circuit'')) ''hold'' = dget st ''hold''"
  using record_failure_Inr [OF assms(1)] assms(2)
  by (auto simp: retry_admit_stored)

section \<open>Recording a failure succeeds\<close>

lemma recovered_revision_frame [simp]:
  "''recoveries'' \<noteq> k \<Longrightarrow> recovered_revision (dset d k v) i p = recovered_revision d i p"
  by (simp add: recovered_revision_def)

lemma active_attempts_frame [simp]:
  "''recoveries'' \<noteq> k \<Longrightarrow> ''attempts'' \<noteq> k \<Longrightarrow> active_attempts (dset d k v) i p = active_attempts d i p"
  by (simp add: active_attempts_def)

lemma active_attempts_push [simp]:
  "active_attempts (dset d ''attempts'' (PList (list_of (dget d ''attempts'') @ [a]))) i p =
     active_attempts d i p @
     (if is_dict a \<and> same_series i p a \<and> recovered_revision d i p < item_revision a then [a] else [])"
  by (simp add: active_attempts_def)

lemma validate_hold_Inr:
  "validate_hold v d = Inr u \<longleftrightarrow>
     v = PNone \<or> (\<exists>h. hold_fields v = Inr h \<and> hold_values h = Inr () \<and>
       int_of (dget h ''attempts'') \<le> int (matching_hold_attempts h d))"
  by (cases "v = PNone") (auto simp: validate_hold_def result_simps not_less)

lemma validate_hold_push:
  assumes "validate_hold v d = Inr ()"
  shows "validate_hold v (dset d ''attempts'' (PList (list_of (dget d ''attempts'') @ [a]))) = Inr ()"
  using assms by (auto simp: validate_hold_Inr matching_hold_attempts_def)

lemma validate_hold_frame [simp]:
  "''recoveries'' \<noteq> k \<Longrightarrow> ''attempts'' \<noteq> k \<Longrightarrow> validate_hold v (dset d k w) = validate_hold v d"
  by (simp add: validate_hold_def matching_hold_attempts_def)

lemma failure_attempt_fields [simp]:
  "item_revision (failure_attempt i f p r at w) = r"
  "is_dict (failure_attempt i f p r at w)"
  "same_series i' p' (failure_attempt i f p r at w) \<longleftrightarrow> i' = i \<and> p' = p"
  "dget (dict_of (failure_attempt i f p r at w)) ''window'' = PInt w"
  by (auto simp: failure_attempt_def item_revision_def same_series_def dget_def)

lemma failure_attempt_ok:
  assumes "f \<in> set FAILURES" "is_digest i" "is_digest p" "at \<noteq> []" "DEFAULT_WINDOW \<le> w" "w \<le> MAX_WINDOW"
  shows "attempt_ok (failure_attempt i f p r at w)"
  using assms
  by (simp add: attempt_ok_def failure_attempt_def keys_exact_def ATTEMPT_KEYS_def dkeys_def
      dget_def dget_or_def retry_window_def)

lemma open_hold_valid:
  assumes "is_digest i" "is_digest p" "at \<noteq> []" "DEFAULT_WINDOW \<le> w" "w \<le> MAX_WINDOW"
    "w \<le> int (length (active_attempts d i p))"
  shows "validate_hold (open_hold i p at w) d = Inr ()"
  using assms
  by (simp add: validate_hold_def hold_fields_def hold_values_def open_hold_def keys_exact_def HOLD_KEYS_def
      dkeys_def dget_def dget_or_def retry_window_def matching_hold_attempts_def)

definition older_records :: "meta \<Rightarrow> int \<Rightarrow> bool" where
  "older_records st r =
     (0 < r \<and> list_all (\<lambda>item. item_revision item < r) (list_of (dget st ''attempts''))
            \<and> list_all (\<lambda>item. item_revision item < r) (list_of (dget st ''recoveries'')))"

lemma recovered_revision_older: "older_records st r \<Longrightarrow> recovered_revision st i p < r"
proof -
  assume older: "older_records st r"
  define rs where "rs = map item_revision (filter (same_series i p) (list_of (dget st ''recoveries'')))"
  have "rs \<noteq> [] \<Longrightarrow> Max (set rs) \<in> set rs"
    by (rule Max_in) simp_all
  moreover have "x < r" if "x \<in> set rs" for x
    using that older by (auto simp: rs_def older_records_def list_all_iff)
  moreover have "recovered_revision st i p = (if rs = [] then 0 else Max (set rs))"
    by (simp only: recovered_revision_def rs_def Let_def)
  ultimately show ?thesis
    using older by (simp add: older_records_def)
qed

lemma scan_last_older:
  assumes "fold_result validate_attempt xs 0 = Inr last_rev" "0 < r" "list_all (\<lambda>item. item_revision item < r) xs"
  shows "last_rev < r"
  using assms by (auto simp: attempts.scan_Inr list_all_iff last_map split: if_splits)

text \<open>A state that the source accepts for an update: none stored yet, or a valid one.\<close>

lemma retry_sound_empty: "retry_sound retry_empty"
  by (simp add: retry_sound_def retry_empty_def dget_def keys_exact_def dkeys_def validate_hold_def)

definition retry_ready :: "meta \<Rightarrow> meta \<Rightarrow> bool" where
  "retry_ready meta st = (retry_state meta = Inr st \<and> retry_sound st)"

lemma retry_ready_absent: "dget meta ''retry_circuit'' = PNone \<Longrightarrow> retry_ready meta retry_empty"
  by (simp add: retry_ready_def retry_state_absent retry_sound_empty)

lemma retry_ready_stored: "retry_wf d \<Longrightarrow> retry_ready (dset meta ''retry_circuit'' (PDict d)) d"
  by (simp add: retry_ready_def retry_state_stored) (simp add: retry_wf_def)

lemma record_failure_total:
  assumes ready: "retry_ready meta st" and older: "older_records st r"
    and rev: "map_of meta ''task_revision'' = Some (PInt r)"
    and inputs: "f \<in> set FAILURES" "is_digest i" "at \<noteq> []" "DEFAULT_WINDOW \<le> w" "w \<le> MAX_WINDOW"
    and room: "length (list_of (dget st ''attempts'')) < MAX_ATTEMPTS"
    and series: "\<forall>a \<in> set (active_attempts st i (progress_digest meta)). dget (dict_of a) ''window'' = PInt w"
  shows "\<exists>d msg. record_failure meta i f (PInt w) at = Inr (dset meta ''retry_circuit'' (PDict d), msg) \<and>
    retry_wf d \<and>
    list_of (dget d ''attempts'') = list_of (dget st ''attempts'') @ [failure_attempt i f (progress_digest meta) r at w] \<and>
    dget d ''recoveries'' = dget st ''recoveries'' \<and>
    dget d ''hold'' = (if w \<le> int (length (active_attempts st i (progress_digest meta))) + 1
       then open_hold i (progress_digest meta) at w else dget st ''hold'')"
proof -
  define p where "p = progress_digest meta"
  define a where "a = failure_attempt i f p r at w"
  define prev where "prev = active_attempts st i p"
  define d1 where "d1 = dset st ''attempts'' (PList (list_of (dget st ''attempts'') @ [a]))"
  define d where "d = (if w \<le> int (length prev) + 1 then dset d1 ''hold'' (open_hold i p at w) else d1)"
  have sound: "retry_sound st" and state: "retry_state meta = Inr st"
    using ready by (simp_all add: retry_ready_def)
  have dig: "is_digest p" by (simp add: p_def progress_digest_def)
  have act: "active_attempts d1 i p = prev @ [a]"
    using recovered_revision_older [OF older] by (simp add: d1_def a_def prev_def)
  have "succeeds (fold_result validate_attempt (list_of (dget st ''attempts'') @ [a]) 0)"
  proof -
    obtain lr where lr: "fold_result validate_attempt (list_of (dget st ''attempts'')) 0 = Inr lr"
      using sound by (auto simp: retry_sound_def succeeds_iff)
    have "lr < r"
      using lr older by (intro scan_last_older [OF lr]) (simp_all add: older_records_def)
    then have "validate_attempt a lr = Inr r"
      unfolding attempts.check_Inr using failure_attempt_ok [OF inputs(1,2) dig inputs(3-5)]
      by (simp add: a_def)
    then show ?thesis
      using attempts.scan_append [OF lr] by (simp add: succeeds_iff)
  qed
  moreover have "validate_hold (dget d ''hold'') d = Inr ()"
  proof (cases "w \<le> int (length prev) + 1")
    case True
    then have "validate_hold (open_hold i p at w) d1 = Inr ()"
      using act by (intro open_hold_valid inputs dig) simp
    with True show ?thesis by (simp add: d_def)
  next
    case False
    have "validate_hold (dget st ''hold'') st = Inr ()"
      using sound by (auto simp: retry_sound_def succeeds_iff)
    with False show ?thesis
      by (simp add: d_def d1_def validate_hold_push)
  qed
  moreover have "keys_exact d (dkeys retry_empty)"
    using sound unfolding d_def d1_def retry_sound_def
    by (auto intro!: keys_exact_dset_old simp: dkeys_def retry_empty_def)
  ultimately have wf: "retry_wf d"
    using sound room unfolding retry_wf_def retry_sound_def
    by (simp add: d_def d1_def)
  have last: "\<not> (prev \<noteq> [] \<and> int_of (dget (dict_of (last prev)) ''window'') \<noteq> w)"
    using series by (cases prev rule: rev_cases) (auto simp: prev_def p_def)
  have "\<exists>msg. record_failure meta i f (PInt w) at = Inr (dset meta ''retry_circuit'' (PDict d), msg)"
    using state inputs last wf rev room
    unfolding record_failure_def p_def [symmetric]
    by (auto simp: result_simps Let_def ditem_def keep_last_id prev_def [symmetric] retry_window_def
        a_def [symmetric] d1_def [symmetric] d_def)
  then show ?thesis
    using wf by (auto simp: d_def d1_def a_def p_def prev_def)
qed

section \<open>Runs of failures\<close>

text \<open>One failure of the same command per task revision in \<open>rs\<close>.\<close>

fun fail_run :: "meta \<Rightarrow> string \<Rightarrow> string \<Rightarrow> int \<Rightarrow> string \<Rightarrow> int list \<Rightarrow> meta result" where
  "fail_run meta i f w at [] = Inr meta"
| "fail_run meta i f w at (r # rs) =
     bindE (record_failure (dset meta ''task_revision'' (PInt r)) i f (PInt w) at)
       (\<lambda>(meta', _). fail_run meta' i f w at rs)"

definition run_state :: "meta \<Rightarrow> meta \<Rightarrow> string \<Rightarrow> int \<Rightarrow> nat \<Rightarrow> int \<Rightarrow> bool" where
  "run_state meta st i w n r =
     (retry_ready meta st \<and> older_records st r \<and> dget st ''recoveries'' = PList [] \<and>
      length (list_of (dget st ''attempts'')) = n \<and>
      (\<forall>a \<in> set (list_of (dget st ''attempts'')). is_dict a \<and> same_series i (progress_digest meta) a \<and>
         0 < item_revision a \<and> dget (dict_of a) ''window'' = PInt w) \<and>
      dget st ''hold'' = (if int n < w then PNone else dget st ''hold'') \<and>
      (w \<le> int n \<longrightarrow> dget st ''hold'' \<noteq> PNone \<and> same_series i (progress_digest meta) (dget st ''hold'')))"

lemma run_state_active:
  assumes "run_state meta st i w n r"
  shows "active_attempts st i (progress_digest meta) = list_of (dget st ''attempts'')"
  using assms by (auto simp: run_state_def active_attempts_def recovered_revision_def filter_id_conv)

lemma retry_ready_revision [simp]:
  "retry_ready (dset meta ''task_revision'' v) st \<longleftrightarrow> retry_ready meta st"
  by (simp add: retry_ready_def retry_state_def)

lemma run_state_step:
  assumes run: "run_state meta st i w n r" and "int n < w" "r < r'"
    and inputs: "f \<in> set FAILURES" "is_digest i" "at \<noteq> []" "DEFAULT_WINDOW \<le> w" "w \<le> MAX_WINDOW"
  obtains d msg where
    "record_failure (dset meta ''task_revision'' (PInt r)) i f (PInt w) at =
       Inr (dset (dset meta ''task_revision'' (PInt r)) ''retry_circuit'' (PDict d), msg)"
    "run_state (dset (dset meta ''task_revision'' (PInt r)) ''retry_circuit'' (PDict d)) d i w (Suc n) r'"
proof -
  let ?m = "dset meta ''task_revision'' (PInt r)" and ?p = "progress_digest meta"
  have act: "active_attempts st i ?p = list_of (dget st ''attempts'')"
    by (rule run_state_active [OF run])
  have "\<exists>d msg. record_failure ?m i f (PInt w) at = Inr (dset ?m ''retry_circuit'' (PDict d), msg) \<and>
      retry_wf d \<and>
      list_of (dget d ''attempts'') = list_of (dget st ''attempts'') @ [failure_attempt i f (progress_digest ?m) r at w] \<and>
      dget d ''recoveries'' = dget st ''recoveries'' \<and>
      dget d ''hold'' = (if w \<le> int (length (active_attempts st i (progress_digest ?m))) + 1
         then open_hold i (progress_digest ?m) at w else dget st ''hold'')"
    using run assms(2) act
    by (intro record_failure_total inputs)
      (auto simp: run_state_def map_of_dset MAX_ATTEMPTS_def MAX_WINDOW_def inputs(5) dest!: order_less_le_trans [OF _ inputs(5)])
  then obtain d msg where d: "record_failure ?m i f (PInt w) at = Inr (dset ?m ''retry_circuit'' (PDict d), msg)"
    "retry_wf d" "list_of (dget d ''attempts'') = list_of (dget st ''attempts'') @ [failure_attempt i f ?p r at w]"
    "dget d ''recoveries'' = PList []"
    "dget d ''hold'' = (if w \<le> int n + 1 then open_hold i ?p at w else PNone)"
    using run act assms(2) by (auto simp: run_state_def)
  have "run_state (dset ?m ''retry_circuit'' (PDict d)) d i w (Suc n) r'"
    using run d assms(3) unfolding run_state_def
    by (auto simp: retry_ready_stored older_records_def list_all_iff)
  with d(1) that show thesis by blast
qed

lemma fail_run_state:
  assumes "run_state meta st i w n r0" "sorted_wrt (<) rs" "\<forall>r \<in> set rs. r0 \<le> r"
    and "int n + int (length rs) \<le> w"
    and inputs: "f \<in> set FAILURES" "is_digest i" "at \<noteq> []" "DEFAULT_WINDOW \<le> w" "w \<le> MAX_WINDOW"
  shows "\<exists>meta' st' r'. fail_run meta i f w at rs = Inr meta' \<and> run_state meta' st' i w (n + length rs) r'"
  using assms(1-4)
proof (induction rs arbitrary: meta st n r0)
  case (Cons r rs)
  have "run_state meta st i w n r"
    using Cons.prems(1,3) by (force simp: run_state_def older_records_def list_all_iff)
  from run_state_step [OF this _ less_add_one inputs] Cons.prems(4) obtain d msg where
    step: "record_failure (dset meta ''task_revision'' (PInt r)) i f (PInt w) at =
       Inr (dset (dset meta ''task_revision'' (PInt r)) ''retry_circuit'' (PDict d), msg)"
    "run_state (dset (dset meta ''task_revision'' (PInt r)) ''retry_circuit'' (PDict d)) d i w (Suc n) (r + 1)"
    by auto
  have "\<exists>meta' st' r'. fail_run (dset (dset meta ''task_revision'' (PInt r)) ''retry_circuit'' (PDict d)) i f w at rs = Inr meta'
      \<and> run_state meta' st' i w (Suc n + length rs) r'"
    using Cons.prems by (intro Cons.IH [OF step(2)]) auto
  then show ?case
    using step(1) by simp
qed auto

lemma run_state_admit:
  assumes "run_state meta st i w n r"
  shows "retry_admit meta i = (if w \<le> int n
    then Inl (RuntimeError ''RETRY_CIRCUIT_OPEN: repeated no-progress attempts require retry-circuit recovery'')
    else Inr ())"
proof -
  have st: "retry_state meta = Inr st" "dhas st ''hold''"
    using assms by (auto simp: run_state_def retry_ready_def retry_sound_def keys_exact_dhas retry_empty_def dkeys_def)
  then show ?thesis
    using assms by (auto simp: retry_admit_def run_state_def ditem_eq)
qed

section \<open>Properties\<close>

text \<open>Property C9. From a task without a retry circuit, recording the same failing command once per
  revision, for strictly increasing revisions, always returns; the circuit refuses the next launch of
  it exactly when the number of failures has reached the window, and admits it before that.\<close>

theorem repeated_failures_open_circuit:
  assumes "dget meta ''retry_circuit'' = PNone"
    and "sorted_wrt (<) (0 # rs)" and "int (length rs) \<le> w"
    and "f \<in> set FAILURES" "is_digest i" "at \<noteq> []" "DEFAULT_WINDOW \<le> w" "w \<le> MAX_WINDOW"
  shows "\<exists>meta'. fail_run meta i f w at rs = Inr meta' \<and>
    retry_admit meta' i = (if int (length rs) = w
      then Inl (RuntimeError ''RETRY_CIRCUIT_OPEN: repeated no-progress attempts require retry-circuit recovery'')
      else Inr ())"
proof -
  have "run_state meta retry_empty i w 0 1"
    using assms(1,7) retry_ready_absent [OF assms(1)]
    by (simp add: run_state_def older_records_def retry_empty_def dget_def DEFAULT_WINDOW_def)
  then have "\<exists>meta' st' r'. fail_run meta i f w at rs = Inr meta' \<and> run_state meta' st' i w (0 + length rs) r'"
    using assms by (intro fail_run_state) auto
  then show ?thesis
    using run_state_admit assms(3) by (fastforce split: if_splits)
qed

text \<open>Concrete records for the witnesses: the digest of an empty record's progress stays symbolic.\<close>

definition example_identity :: string where
  "example_identity = ''sha256:'' @ replicate 64 CHR ''0''"

lemma example_identity_digest: "is_digest example_identity"
  by (simp add: example_identity_def is_digest_def starts_with_def all_hex_def list_all_iff
      is_lower_hex_def lower_hex_def)

theorem repeated_failures_open_circuit_witness:
  "\<exists>meta'. fail_run [] example_identity ''EXIT'' 3 ''t'' [4, 7, 9] = Inr meta' \<and>
    retry_admit meta' example_identity =
      Inl (RuntimeError ''RETRY_CIRCUIT_OPEN: repeated no-progress attempts require retry-circuit recovery'')"
  using repeated_failures_open_circuit [of "[]" "[4, 7, 9]" 3 "''EXIT''" example_identity "''t''"]
  by (simp add: dget_def FAILURES_def example_identity_digest DEFAULT_WINDOW_def MAX_WINDOW_def)

text \<open>Property C13. A successful reservation keeps the launch slots of the command, recorded attempts
  and live reservations together, within its window, leaves a valid state, and is only given while
  the circuit admits the command.\<close>

theorem reserve_within_window:
  assumes "reserve meta i (PInt w) rid at expires = Inr (meta', msg)"
  shows "\<exists>st. retry_state meta' = Inr st \<and> retry_wf st \<and>
    int (slots_used st i (progress_digest meta')) \<le> w \<and> retry_admit meta' i = Inr ()"
proof -
  obtain meta1 cleaned st r where m1: "cleanup_expired meta at = Inr (meta1, cleaned)"
      "retry_state meta1 = Inr st" "retry_admit meta1 i = Inr ()"
      "int (slots_used st i (progress_digest meta1)) < w"
    and d: "retry_wf (dset st ''reservations'' (PList (list_of (dget st ''reservations'') @
              [reservation_record rid i (progress_digest meta1) w r at expires])))"
      "meta' = dset meta1 ''retry_circuit'' (PDict (dset st ''reservations''
              (PList (list_of (dget st ''reservations'') @
              [reservation_record rid i (progress_digest meta1) w r at expires]))))"
    using assms unfolding reserve_def Let_def
    by (auto simp: result_simps not_le split: prod.splits)
  have "slots_used (dset st ''reservations'' (PList (list_of (dget st ''reservations'') @
          [reservation_record rid i (progress_digest meta1) w r at expires]))) i (progress_digest meta1)
      \<le> slots_used st i (progress_digest meta1) + 1"
    by (simp add: slots_used_def)
  moreover have "dhas st ''hold'' \<and> (dget st ''hold'' = PNone \<or> \<not> same_series i (progress_digest meta1) (dget st ''hold''))"
    using m1(2,3) by (auto simp: retry_admit_def ditem_eq result_simps split: if_splits)
  ultimately show ?thesis
    using m1 d by (auto simp: retry_state_stored retry_admit_stored)
qed

lemma retry_timestamp_iso [simp]:
  "in_range t \<Longrightarrow> retry_timestamp (PStr (isoformat_utc t)) field = Inr (truncate_us t)"
  by (simp add: retry_timestamp_def parse_instant_isoformat)

lemma reserve_fresh:
  assumes "dget meta ''retry_circuit'' = PNone" "map_of meta ''task_revision'' = Some (PInt r)"
    and "is_digest i" "all_hex 32 rid" "DEFAULT_WINDOW \<le> w" "w \<le> MAX_WINDOW"
    and "in_range t" "in_range u" "truncate_us t < truncate_us u"
  shows "succeeds (reserve meta i (PInt w) rid (isoformat_utc t) (isoformat_utc u))"
proof -
  define a where "a = reservation_record rid i (progress_digest meta) w r (isoformat_utc t) (isoformat_utc u)"
  define d where "d = dset retry_empty ''reservations'' (PList [a])"
  have "validate_reservation a = Inr ()"
    using assms by (simp add: a_def reservation_record_def validate_reservation_def Let_def keys_exact_def
        RESERVATION_KEYS_def dkeys_def dget_def dget_or_def progress_digest_def retry_window_def)
  then have "retry_wf d"
    using retry_sound_empty
    by (auto simp: retry_wf_def retry_sound_def d_def intro!: keys_exact_dset_old)
      (simp_all add: retry_empty_def dget_def dkeys_def py_in_def MAX_WINDOW_def)
  moreover have "cleanup_expired meta (isoformat_utc t) = Inr (meta, 0)"
    using assms(1) by (simp add: cleanup_expired_def retry_state_absent retry_empty_def dget_def)
  moreover have "retry_admit meta i = Inr ()"
    using assms(1) by (simp add: retry_admit_def retry_state_absent) (simp add: retry_empty_def ditem_def)
  moreover have "slots_used retry_empty i p = 0" for p
    by (simp add: slots_used_def active_attempts_def retry_empty_def dget_def)
  moreover have "list_of (dget retry_empty ''reservations'') = []"
    by (simp add: retry_empty_def dget_def)
  ultimately show ?thesis
    using assms
    by (simp add: reserve_def retry_window_def Let_def retry_state_absent ditem_def DEFAULT_WINDOW_def
        result_simps succeeds_iff d_def a_def)
qed

theorem reserve_within_window_witness:
  "\<exists>meta' msg st. reserve [(''task_revision'', PInt 5)] example_identity (PInt 3) (replicate 32 CHR ''7'')
      (isoformat_utc 0) (isoformat_utc (60 * second_us)) = Inr (meta', msg) \<and>
    retry_state meta' = Inr st \<and> retry_wf st \<and>
    int (slots_used st example_identity (progress_digest meta')) \<le> 3 \<and> retry_admit meta' example_identity = Inr ()"
proof -
  have "succeeds (reserve [(''task_revision'', PInt 5)] example_identity (PInt 3) (replicate 32 CHR ''7'')
      (isoformat_utc 0) (isoformat_utc (60 * second_us)))"
    by (intro reserve_fresh)
      (simp_all add: dget_def example_identity_digest DEFAULT_WINDOW_def MAX_WINDOW_def all_hex_def list_all_iff
        is_lower_hex_def lower_hex_def in_range_def max_us_def max_ordinal_def day_us_def second_us_def truncate_us_def)
  then obtain meta' msg where "reserve [(''task_revision'', PInt 5)] example_identity (PInt 3) (replicate 32 CHR ''7'')
      (isoformat_utc 0) (isoformat_utc (60 * second_us)) = Inr (meta', msg)"
    by (auto simp: succeeds_iff)
  with reserve_within_window [OF this] show ?thesis by blast
qed

lemma retry_reason_stripped:
  "retry_reason v = Inr why \<Longrightarrow> strip why = why \<and> why \<noteq> [] \<and> length why \<le> 500 \<and> newline \<notin> set why"
proof -
  assume "retry_reason v = Inr why"
  then obtain s where s: "why = strip s" "strip s \<noteq> []" "length s \<le> 500" "newline \<notin> set s"
    by (cases v) (auto simp: retry_reason_def not_less split: if_splits)
  with strip_sub [of s] show ?thesis by auto
qed

lemma recover_Inr:
  assumes "recover meta i kind reason at = Inr (meta', msg)"
  shows "\<exists>st r a. py_int (dget meta ''task_revision'') = Inr r \<and>
    same_series i (progress_digest meta) a \<and> item_revision a = r \<and>
    meta' = dset meta ''retry_circuit'' (PDict (dset (dset st ''recoveries''
       (PList (keep_last MAX_RECOVERIES (list_of (dget st ''recoveries'') @ [a])))) ''hold'' PNone)) \<and>
    retry_wf (dset (dset st ''recoveries''
       (PList (keep_last MAX_RECOVERIES (list_of (dget st ''recoveries'') @ [a])))) ''hold'' PNone)"
proof -
  let ?rec = "\<lambda>why r. recovery_record i (progress_digest meta) kind why r at
     (py_str (dget_or meta ''checkpoint_commit'' (PStr [])))"
  let ?d = "\<lambda>st a. dset (dset st ''recoveries''
       (PList (keep_last MAX_RECOVERIES (list_of (dget st ''recoveries'') @ [a])))) ''hold'' PNone"
  have "\<exists>st r why. py_int (dget meta ''task_revision'') = Inr r \<and>
      meta' = dset meta ''retry_circuit'' (PDict (?d st (?rec why r))) \<and> retry_wf (?d st (?rec why r))"
    using assms unfolding recover_def Let_def
    by (auto simp: result_simps ditem_eq split: if_splits)
  moreover have "same_series i (progress_digest meta) (?rec why r)" "item_revision (?rec why r) = r" for why r
    by (simp_all add: recovery_record_def same_series_def item_revision_def dget_def)
  ultimately show ?thesis by blast
qed

lemma recover_total:
  assumes st: "retry_state meta = Inr st" "retry_wf st" and hold: "dget st ''hold'' = PDict h" "dget h ''identity'' = PStr i"
    and rev: "map_of meta ''task_revision'' = Some (PInt r)"
    and older: "0 < r" "list_all (\<lambda>item. item_revision item < r) (list_of (dget st ''recoveries''))"
    and inputs: "kind \<in> set RECOVERIES" "is_digest i" "at \<noteq> []" "retry_reason (PStr reason) = Inr why"
    and checkpoint: "map_of meta ''checkpoint_commit'' = Some (PStr c)" "all_hex 40 c"
  shows "succeeds (recover meta i kind reason at)"
proof -
  define a where "a = recovery_record i (progress_digest meta) kind why r at c"
  define d where "d = dset (dset st ''recoveries'' (PList (keep_last MAX_RECOVERIES
     (list_of (dget st ''recoveries'') @ [a])))) ''hold'' PNone"
  have why: "strip why = why \<and> why \<noteq> [] \<and> length why \<le> 500 \<and> newline \<notin> set why"
    using retry_reason_stripped [OF inputs(4)] .
  then have ok: "recovery_ok a" "item_revision a = r"
    using inputs checkpoint(2)
    by (simp_all add: a_def recovery_record_def recovery_ok_def keys_exact_def RECOVERY_KEYS_def dkeys_def
        dget_def dget_or_def progress_digest_def retry_reason_def item_revision_def)
  obtain lr where lr: "fold_result validate_recovery (list_of (dget st ''recoveries'')) 0 = Inr lr"
    using st(2) by (auto simp: retry_wf_def retry_sound_def succeeds_iff)
  have "lr < r"
    using lr older by (auto simp: recoveries.scan_Inr list_all_iff last_map split: if_splits)
  then have "succeeds (fold_result validate_recovery (list_of (dget d ''recoveries'')) 0)"
    using recoveries.scan_push [OF lr ok(1), of MAX_RECOVERIES] ok(2) by (auto simp: d_def succeeds_iff)
  moreover have "keys_exact d (dkeys retry_empty)"
    using st(2) unfolding d_def retry_wf_def retry_sound_def
    by (auto intro!: keys_exact_dset_old simp: dkeys_def retry_empty_def)
  ultimately have "retry_wf d"
    using st(2) unfolding retry_wf_def retry_sound_def
    by (simp add: d_def validate_hold_def)
  then have "retry_validate (PDict d) = Inr d"
    by (simp add: result_simps)
  moreover have "ditem st ''hold'' = Inr (PDict h)" "ditem meta ''task_revision'' = Inr (PInt r)"
    using hold(1) rev dget_not_None_dhas [of st "''hold''"]
    by (simp add: ditem_eq, simp add: ditem_Inr)
  ultimately show ?thesis
    using st hold(2) inputs checkpoint
    by (simp add: recover_def Let_def dget_or_def d_def a_def)
qed

text \<open>A recovery closes the circuit for exactly the held command: afterwards the state is
  valid, the hold is gone, and, since every recorded revision is at most the task's, no earlier
  attempt counts against the command's window any more.\<close>

theorem recover_closes_circuit:
  assumes "recover meta i kind reason at = Inr (meta', msg)"
  shows "\<exists>st. retry_state meta' = Inr st \<and> retry_wf st \<and> dget st ''hold'' = PNone \<and>
    (\<forall>j. retry_admit meta' j = Inr ()) \<and>
    (\<forall>a \<in> set (active_attempts st i (progress_digest meta')).
       \<exists>r. py_int (dget meta ''task_revision'') = Inr r \<and> r < item_revision a)"
proof -
  obtain st r a where r: "py_int (dget meta ''task_revision'') = Inr r"
    and a: "same_series i (progress_digest meta) a" "item_revision a = r"
    and m': "meta' = dset meta ''retry_circuit'' (PDict (dset (dset st ''recoveries''
       (PList (keep_last MAX_RECOVERIES (list_of (dget st ''recoveries'') @ [a])))) ''hold'' PNone))"
    and wf: "retry_wf (dset (dset st ''recoveries''
       (PList (keep_last MAX_RECOVERIES (list_of (dget st ''recoveries'') @ [a])))) ''hold'' PNone)"
    using recover_Inr [OF assms] by blast
  define d where "d = dset (dset st ''recoveries''
       (PList (keep_last MAX_RECOVERIES (list_of (dget st ''recoveries'') @ [a])))) ''hold'' PNone"
  have "a \<in> set (list_of (dget d ''recoveries''))"
    by (simp add: d_def keep_last_append_last MAX_RECOVERIES_def)
  then have "r \<le> recovered_revision d i (progress_digest meta)"
    using a unfolding recovered_revision_def Let_def
    by (auto intro!: Max_ge simp: filter_empty_conv)
  then have "\<forall>x \<in> set (active_attempts d i (progress_digest meta')). r < item_revision x"
    unfolding m' by (auto simp: active_attempts_def)
  moreover have "retry_wf d" "meta' = dset meta ''retry_circuit'' (PDict d)" "dget d ''hold'' = PNone"
    using wf m' by (simp_all add: d_def)
  ultimately show ?thesis
    using r retry_state_stored [of d] retry_admit_stored [of d] by auto
qed

definition example_progress :: string where
  "example_progress = progress_digest [(''checkpoint_commit'', PStr (replicate 40 CHR ''0''))]"

definition example_circuit :: meta where
  "example_circuit = dset (dset retry_empty ''attempts''
     (PList [failure_attempt example_identity ''EXIT'' example_progress 1 ''t'' 3,
             failure_attempt example_identity ''EXIT'' example_progress 2 ''t'' 3,
             failure_attempt example_identity ''EXIT'' example_progress 3 ''t'' 3]))
     ''hold'' (open_hold example_identity example_progress ''t'' 3)"

definition example_held :: meta where
  "example_held = [(''checkpoint_commit'', PStr (replicate 40 CHR ''0'')), (''task_revision'', PInt 4),
     (''retry_circuit'', PDict example_circuit)]"

lemma example_circuit_wf: "retry_wf example_circuit"
proof -
  have ok: "attempt_ok (failure_attempt example_identity ''EXIT'' example_progress r ''t'' 3)" for r
    by (rule failure_attempt_ok) (simp_all add: FAILURES_def example_identity_digest example_progress_def
        progress_digest_def DEFAULT_WINDOW_def MAX_WINDOW_def)
  have "active_attempts example_circuit example_identity example_progress =
      list_of (dget example_circuit ''attempts'')"
    by (simp add: active_attempts_def recovered_revision_def example_circuit_def retry_empty_def)
  then have "validate_hold (dget example_circuit ''hold'') example_circuit = Inr ()"
    unfolding example_circuit_def dget_dset
    by (simp add: open_hold_valid example_identity_digest example_progress_def progress_digest_def
        DEFAULT_WINDOW_def MAX_WINDOW_def)
  moreover have "keys_exact example_circuit (dkeys retry_empty)"
    by (simp add: example_circuit_def retry_empty_def keys_exact_def dkeys_def dset_def)
  ultimately show ?thesis
    unfolding retry_wf_def retry_sound_def
    by (simp add: attempts.scan_Inr recoveries.scan_Inr succeeds_iff ok)
      (simp add: ok example_circuit_def retry_empty_def MAX_ATTEMPTS_def)
qed

theorem recover_closes_circuit_witness:
  "\<exists>meta' msg st. recover example_held example_identity ''checkpoint'' ''reviewed'' ''t'' = Inr (meta', msg) \<and>
    retry_state meta' = Inr st \<and> retry_wf st \<and> dget st ''hold'' = PNone \<and>
    retry_admit meta' example_identity = Inr ()"
proof -
  have "retry_state example_held = Inr example_circuit"
    using retry_state_stored [OF example_circuit_wf, of "[(''checkpoint_commit'', PStr (replicate 40 CHR ''0'')), (''task_revision'', PInt 4)]"]
    by (simp add: example_held_def dset_def)
  then have "succeeds (recover example_held example_identity ''checkpoint'' ''reviewed'' ''t'')"
    using example_circuit_wf
    by (rule recover_total [where h = "dict_of (open_hold example_identity example_progress ''t'' 3)"
          and r = 4 and why = "''reviewed''" and c = "replicate 40 CHR ''0''"])
      (simp_all add: example_circuit_def example_held_def open_hold_def retry_empty_def RECOVERIES_def
        example_identity_digest retry_reason_def strip_def lstrip_def is_space_def newline_def all_hex_def
        list_all_iff is_lower_hex_def lower_hex_def)
  then obtain meta' msg where "recover example_held example_identity ''checkpoint'' ''reviewed'' ''t'' = Inr (meta', msg)"
    by (auto simp: succeeds_iff)
  with recover_closes_circuit [OF this] show ?thesis by blast
qed

end
