(* ===== verification/Autonomy_Limits.thy ===== *)
theory Autonomy_Limits
  imports Retry_Circuit
begin

text \<open>
  Autonomy budgets of \<open>src/tools/autonomy_limits.py\<close>: the tracked policy, the ledger of commands,
  retries, cost and side effects that a task carries, and the hold that is recorded, fenced to the
  revision it will be stored under, when a budget is reached. The file and Git queries of \<open>policy\<close> are
  the fields of \<open>policy_file\<close>. The elapsed time is the exact quotient of microseconds.
\<close>

section \<open>The policy\<close>

definition LIMITS :: "string list" where
  "LIMITS = [''max_elapsed_seconds'', ''max_retries'', ''max_commands'', ''max_diff_bytes'', ''max_cost_units'',
     ''max_external_side_effects'']"

definition LIMIT_TRIGGERS :: "string list" where
  "LIMIT_TRIGGERS = [''elapsed-time'', ''retry'', ''command'', ''diff-size'', ''cost'', ''external-side-effect'']"

text \<open>What the file system and Git say about the policy file: \<open>None\<close> when it does not exist, otherwise
  whether its identity is safe, its size, whether it equals the clean committed blob, and what its
  text decodes to (\<open>None\<close>: not UTF-8 JSON).\<close>

record policy_file =
  pf_exists :: bool
  pf_head_tracks :: bool
  pf_identity_safe :: bool
  pf_size :: nat
  pf_payload :: string
  pf_tracked :: bool
  pf_json :: "pyval option"

definition limits_policy :: "policy_file \<Rightarrow> meta option result" where
  "limits_policy f =
     (if \<not> pf_exists f then
        (if pf_head_tracks f then Inl (PolicyError ''autonomy limits policy must be tracked and unchanged'')
         else Inr None)
      else if \<not> pf_identity_safe f \<or> \<not> (2 \<le> pf_size f \<and> pf_size f \<le> 4096)
        then Inl (PolicyError ''autonomy limits policy has unsafe identity or size'')
      else if length (pf_payload f) \<noteq> pf_size f \<or> \<not> pf_tracked f
        then Inl (PolicyError ''autonomy limits policy must be tracked and unchanged'')
      else case pf_json f of
        None \<Rightarrow> Inl (PolicyError ''autonomy limits policy is not valid UTF-8 JSON'')
      | Some v \<Rightarrow>
          (let d = dict_of v; names = filter (\<lambda>k. k \<noteq> ''schema_version'') (dkeys d) in
           if \<not> is_dict v \<or> \<not> py_eq (dget d ''schema_version'') (PInt 1)
           then Inl (PolicyError ''autonomy limits policy shape or version is invalid'')
           else if names = [] \<or> \<not> list_all (\<lambda>k. k \<in> set LIMITS) names
             \<or> list_ex (\<lambda>k. \<not> exact_int (dget d k) \<or> int_of (dget d k) < 0 \<or> 1000000000 < int_of (dget d k)) names
           then Inl (PolicyError ''autonomy limits policy budgets are invalid'')
           else Inr (Some (dset d ''digest'' (PStr (''sha256:'' @ sha256_hex (pf_payload f)))))))"

definition limits_require_unchanged :: "policy_file \<Rightarrow> meta option \<Rightarrow> unit result" where
  "limits_require_unchanged f expected =
     bindE (limits_policy f) (\<lambda>p.
     raise_if (case (p, expected) of
         (None, None) \<Rightarrow> False
       | (Some a, Some b) \<Rightarrow> \<not> py_eq (PDict a) (PDict b)
       | _ \<Rightarrow> True) (PolicyError ''autonomy limits policy changed during operation''))"

section \<open>The ledger\<close>

definition limits_timestamp :: "pyval \<Rightarrow> int result" where
  "limits_timestamp v =
     (let e = ValueError ''autonomy limit timestamp is invalid'' in
      if \<not> is_str v then Inl e else parse_instant e (str_of v))"

definition LEDGER_KEYS :: "string list" where
  "LEDGER_KEYS = [''schema_version'', ''policy_digest'', ''started_at'', ''commands'', ''retries'', ''cost_units'',
     ''external_side_effects'', ''hold'', ''dispositions'']"

definition limits_hold_bad :: "meta \<Rightarrow> pyval \<Rightarrow> bool result" where
  "limits_hold_bad meta hold =
     (let h = dict_of hold in
      if hold = PNone then Inr False
      else orE (Inr (\<not> is_dict hold
                 \<or> \<not> keys_exact h [''trigger'', ''observed'', ''limit'', ''held_at'', ''task_revision''])) (
           orE (hash_not_in (dget h ''trigger'') LIMIT_TRIGGERS)
             (Inr (\<not> exact_int (dget h ''observed'') \<or> \<not> exact_int (dget h ''limit'')
                 \<or> \<not> exact_int (dget h ''task_revision'')
                 \<or> \<not> py_eq (dget h ''task_revision'') (dget meta ''task_revision'')))))"

definition bad_disposition :: "pyval \<Rightarrow> bool" where
  "bad_disposition v =
     (let d = dict_of v in
      \<not> is_dict v \<or> \<not> keys_exact d [''held_revision'', ''task_revision'', ''reason'', ''recorded_at'']
      \<or> \<not> exact_int (dget d ''held_revision'') \<or> \<not> exact_int (dget d ''task_revision'')
      \<or> \<not> is_str (dget d ''reason'') \<or> strip (str_of (dget d ''reason'')) = []
      \<or> 500 < length (str_of (dget d ''reason'')) \<or> newline \<in> set (str_of (dget d ''reason'')))"

definition limits_metadata_error :: "meta \<Rightarrow> string option result" where
  "limits_metadata_error meta =
     (let v = dget meta ''autonomy_limits''; d = dict_of v in
      if v = PNone then Inr None
      else if \<not> is_dict v \<or> \<not> keys_exact d LEDGER_KEYS then Inr (Some ''autonomy limits fields are invalid'')
      else if \<not> py_eq (dget d ''schema_version'') (PInt 1) \<or> \<not> is_digest (py_str (dget_or d ''policy_digest'' (PStr [])))
        then Inr (Some ''autonomy limits identity is invalid'')
      else case limits_timestamp (dget d ''started_at'') of
        Inl e \<Rightarrow> if is_value_error e then Inr (Some ''autonomy limits start is invalid'') else Inl e
      | Inr _ \<Rightarrow>
          if list_ex (\<lambda>k. \<not> exact_int (dget d k) \<or> int_of (dget d k) < 0)
               [''commands'', ''retries'', ''cost_units'', ''external_side_effects'']
             \<or> \<not> is_list (dget d ''dispositions'') \<or> 32 < length (list_of (dget d ''dispositions''))
          then Inr (Some ''autonomy limits counters are invalid'')
          else bindE (limits_hold_bad meta (dget d ''hold'')) (\<lambda>bad.
            if bad then Inr (Some ''autonomy limits hold is invalid'')
            else if list_ex bad_disposition (list_of (dget d ''dispositions''))
            then Inr (Some ''autonomy limits disposition is invalid'')
            else Inr None))"

definition fresh_ledger :: "pyval \<Rightarrow> string \<Rightarrow> meta" where
  "fresh_ledger policy_digest at = [
     (''schema_version'', PInt 1),
     (''policy_digest'', policy_digest),
     (''started_at'', PStr at),
     (''commands'', PInt 0),
     (''retries'', PInt 0),
     (''cost_units'', PInt 0),
     (''external_side_effects'', PInt 0),
     (''hold'', PNone),
     (''dispositions'', PList [])]"

text \<open>\<open>_state\<close>: the record with its ledger, and the ledger.\<close>

definition limits_state :: "meta \<Rightarrow> meta \<Rightarrow> string \<Rightarrow> (meta \<times> meta) result" where
  "limits_state meta selected at =
     (let meta1 = (if dget meta ''autonomy_limits'' = PNone
            then dset meta ''autonomy_limits'' (PDict (fresh_ledger (dget selected ''digest'') at)) else meta);
          value = dget meta1 ''autonomy_limits'' in
      bindE (limits_metadata_error meta1) (\<lambda>error.
      bindE (raise_if (error \<noteq> None \<or> \<not> py_eq (dget (dict_of value) ''policy_digest'') (dget selected ''digest''))
               (RuntimeError ''AUTONOMY_LIMIT_POLICY_MISMATCH: durable policy identity is invalid'')) (\<lambda>_.
      Inr (meta1, dict_of value))))"

text \<open>\<open>int(timedelta.total_seconds())\<close> truncates towards zero.\<close>

definition seconds_between :: "int \<Rightarrow> int \<Rightarrow> int" where
  "seconds_between a b = (let d = b - a in if 0 \<le> d then d div second_us else - ((- d) div second_us))"

definition LIMIT_NAMES :: "(string \<times> string) list" where
  "LIMIT_NAMES = [
     (''elapsed-time'', ''max_elapsed_seconds''),
     (''retry'', ''max_retries''),
     (''command'', ''max_commands''),
     (''diff-size'', ''max_diff_bytes''),
     (''cost'', ''max_cost_units''),
     (''external-side-effect'', ''max_external_side_effects'')]"

definition limits_observed :: "meta \<Rightarrow> int \<Rightarrow> int \<Rightarrow> string \<Rightarrow> int" where
  "limits_observed state elapsed diff trigger =
     (if trigger = ''elapsed-time'' then elapsed
      else if trigger = ''retry'' then int_of (dget state ''retries'')
      else if trigger = ''command'' then int_of (dget state ''commands'')
      else if trigger = ''diff-size'' then diff
      else if trigger = ''cost'' then int_of (dget state ''cost_units'')
      else int_of (dget state ''external_side_effects''))"

definition limits_breach :: "meta \<Rightarrow> meta \<Rightarrow> string \<Rightarrow> int \<Rightarrow> (string \<times> int \<times> int) option result" where
  "limits_breach state selected at diff =
     bindE (limits_timestamp (PStr at)) (\<lambda>now_us.
     bindE (limits_timestamp (dget state ''started_at'')) (\<lambda>started.
     let observed = limits_observed state (seconds_between started now_us) diff in
     Inr (map_option (\<lambda>(trigger, name). (trigger, observed trigger, int_of (dget selected name)))
       (find (\<lambda>(trigger, name). dhas selected name \<and> int_of (dget selected name) \<le> observed trigger) LIMIT_NAMES))))"

definition limit_hold :: "string \<times> int \<times> int \<Rightarrow> string \<Rightarrow> int \<Rightarrow> pyval" where
  "limit_hold breach at revision =
     (case breach of (trigger, observed, limit) \<Rightarrow> PDict [
       (''trigger'', PStr trigger),
       (''observed'', PInt observed),
       (''limit'', PInt limit),
       (''held_at'', PStr at),
       (''task_revision'', PInt (revision + 1))])"

definition hold_message :: "string \<times> int \<times> int \<Rightarrow> string" where
  "hold_message breach =
     (case breach of (trigger, observed, limit) \<Rightarrow>
       ''Autonomy limit hold recorded: '' @ trigger @ '' observed='' @ show_int observed @ '' limit='' @ show_int limit @ ''.'')"

definition task_revision_int :: "meta \<Rightarrow> int result" where
  "task_revision_int meta = bindE (ditem meta ''task_revision'') py_int"

section \<open>Operations\<close>

text \<open>The branch that returns \<open>hold_message\<close> is the one in which \<open>apply_preflight\<close> also sets the flag
  \<open>args.autonomy_limit_held\<close> for its caller; \<open>apply_record\<close> sets no flag.\<close>

definition apply_preflight :: "namespace \<Rightarrow> meta \<Rightarrow> meta option \<Rightarrow> string \<Rightarrow> (meta \<times> string) result" where
  "apply_preflight args meta selected at =
     (case selected of None \<Rightarrow> Inr (meta, [])
      | Some sel \<Rightarrow>
          bindE (limits_state meta sel at) (\<lambda>(meta1, state).
          bindE (raise_if (dget state ''hold'' \<noteq> PNone)
                   (RuntimeError ''AUTONOMY_LIMIT_HOLD: explicit autonomy-limits dispose is required'')) (\<lambda>_.
          bindE (py_int (dget_or args ''autonomy_diff_bytes'' (PInt 0))) (\<lambda>diff.
          bindE (limits_breach state sel at diff) (\<lambda>breach.
          case breach of None \<Rightarrow> Inr (meta1, ''Autonomy limits admitted.'')
          | Some b \<Rightarrow>
              bindE (task_revision_int meta1) (\<lambda>revision.
              Inr (dset meta1 ''autonomy_limits'' (PDict (dset state ''hold'' (limit_hold b at revision))),
                   hold_message b)))))))"

definition add_count :: "meta \<Rightarrow> string \<Rightarrow> int \<Rightarrow> meta" where
  "add_count d k n = dset d k (PInt (int_of (dget d k) + n))"

definition record_counts :: "namespace \<Rightarrow> meta \<Rightarrow> meta" where
  "record_counts args state =
     (let failed = \<not> py_eq (dget_or args ''autonomy_returncode'' (PInt 0)) (PInt 0);
          effect = truthy (dget_or args ''external_side_effect'' (PBool False))
                   \<or> dget args ''command_class'' = PStr ''git-publication'' in
      add_count (add_count (add_count (add_count state ''commands'' 1) ''retries'' (of_bool failed))
        ''cost_units'' (int_of (dget_or args ''cost_units'' (PInt 0)))) ''external_side_effects'' (of_bool effect))"

definition apply_record :: "namespace \<Rightarrow> meta \<Rightarrow> meta option \<Rightarrow> string \<Rightarrow> (meta \<times> string) result" where
  "apply_record args meta selected at =
     (case selected of None \<Rightarrow> Inr (meta, [])
      | Some sel \<Rightarrow>
          bindE (limits_state meta sel at) (\<lambda>(meta1, state).
          let cost = dget_or args ''cost_units'' (PInt 0) in
          bindE (raise_if (\<not> exact_int cost \<or> int_of cost < 0)
                   (RuntimeError ''autonomy limits cost units are invalid'')) (\<lambda>_.
          let state1 = record_counts args state in
          bindE (py_int (dget_or args ''autonomy_diff_bytes'' (PInt 0))) (\<lambda>diff.
          bindE (limits_breach state1 sel at diff) (\<lambda>breach.
          case breach of
            Some b \<Rightarrow>
              if dget state1 ''hold'' = PNone then
                bindE (task_revision_int meta1) (\<lambda>revision.
                Inr (dset meta1 ''autonomy_limits'' (PDict (dset state1 ''hold'' (limit_hold b at revision))),
                     hold_message b))
              else Inr (dset meta1 ''autonomy_limits'' (PDict state1), ''Autonomy limits recorded.'')
          | None \<Rightarrow> Inr (dset meta1 ''autonomy_limits'' (PDict state1), ''Autonomy limits recorded.''))))))"

definition apply_dispose :: "namespace \<Rightarrow> meta \<Rightarrow> string \<Rightarrow> (meta \<times> string) result" where
  "apply_dispose args meta at =
     bindE (raise_if (\<not> active_owner args meta)
              (RuntimeError ''autonomy limits disposition requires the active task owner'')) (\<lambda>_.
     bindE (if \<not> py_eq (dget args ''expected_revision'') (dget meta ''task_revision'')
            then bindE (ditem meta ''task_revision'') (\<lambda>current.
              Inl (RuntimeError (''stale revision: expected '' @ py_str (dget args ''expected_revision'')
                @ '', current '' @ py_str current)))
            else Inr ()) (\<lambda>_.
     bindE (limits_metadata_error meta) (\<lambda>error.
     let v = dget meta ''autonomy_limits''; state = dict_of v; h = dict_of (dget state ''hold'') in
     bindE (raise_if (error \<noteq> None \<or> \<not> is_dict v \<or> \<not> is_dict (dget state ''hold''))
              (RuntimeError ''autonomy limits disposition requires a current diagnostic hold'')) (\<lambda>_.
     bindE (ditem meta ''task_revision'') (\<lambda>current.
     bindE (raise_if (\<not> py_eq (dget h ''task_revision'') current)
              (RuntimeError ''autonomy limits hold is not fenced to the current revision'')) (\<lambda>_.
     let reason = strip (py_str (dget args ''reason'')) in
     bindE (raise_if (reason = [] \<or> 500 < length reason \<or> newline \<in> set reason)
              (RuntimeError ''autonomy limits disposition reason is invalid'')) (\<lambda>_.
     bindE (py_int current) (\<lambda>revision.
     Inr (dset meta ''autonomy_limits'' (PDict (dset (dset state ''dispositions'' (PList (keep_last 32
            (list_of (dget state ''dispositions'') @ [PDict [
               (''held_revision'', dget h ''task_revision''),
               (''task_revision'', PInt (revision + 1)),
               (''reason'', PStr reason),
               (''recorded_at'', PStr at)]])))) ''hold'' PNone)),
          ''Recorded local autonomy-limit disposition.'')))))))))"

definition next_revision_projection :: "meta \<Rightarrow> meta result" where
  "next_revision_projection meta =
     bindE (task_revision_int meta) (\<lambda>revision. Inr (dset meta ''task_revision'' (PInt (revision + 1))))"

definition carry_run_hold :: "namespace \<Rightarrow> string \<Rightarrow> meta \<Rightarrow> meta result" where
  "carry_run_hold args kind meta =
     (let v = dget meta ''autonomy_limits''; state = dict_of v in
      if kind = ''update'' \<and> dget args ''_session_trigger'' = PStr ''run'' \<and> is_dict v \<and> is_dict (dget state ''hold'')
      then bindE (task_revision_int meta) (\<lambda>revision.
        Inr (dset meta ''autonomy_limits'' (PDict (dset state ''hold''
          (PDict (dset (dict_of (dget state ''hold'')) ''task_revision'' (PInt (revision + 1))))))))
      else Inr meta)"

text \<open>\<open>preflight\<close>, \<open>record\<close> and \<open>transition\<close>; \<open>admit\<close> is the admission callback of the caller.\<close>

definition limits_selected :: "namespace \<Rightarrow> meta option" where
  "limits_selected args =
     (if is_dict (dget args ''autonomy_limits_policy'') then Some (dict_of (dget args ''autonomy_limits_policy'')) else None)"

definition limits_transition ::
  "(namespace \<Rightarrow> meta \<Rightarrow> unit result) \<Rightarrow> namespace \<Rightarrow> meta \<Rightarrow> string \<Rightarrow> (meta \<times> string) result" where
  "limits_transition admit args meta at =
     (if dget args ''cmd'' = PStr ''autonomy-limits'' then apply_dispose args meta at
      else bindE (admit args meta) (\<lambda>_.
        if dget args ''_autonomy_limits_phase'' = PStr ''preflight''
        then apply_preflight args meta (limits_selected args) at
        else apply_record args meta (limits_selected args) at))"

section \<open>What validation accepts\<close>

definition ledger_ok :: "meta \<Rightarrow> bool" where
  "ledger_ok d =
     (keys_exact d LEDGER_KEYS \<and> py_eq (dget d ''schema_version'') (PInt 1) \<and>
      is_digest (py_str (dget_or d ''policy_digest'' (PStr []))) \<and>
      succeeds (limits_timestamp (dget d ''started_at'')) \<and>
      list_all (\<lambda>k. exact_int (dget d k) \<and> 0 \<le> int_of (dget d k))
        [''commands'', ''retries'', ''cost_units'', ''external_side_effects''] \<and>
      is_list (dget d ''dispositions'') \<and> length (list_of (dget d ''dispositions'')) \<le> 32 \<and>
      \<not> list_ex bad_disposition (list_of (dget d ''dispositions'')))"

lemma limits_metadata_None:
  "limits_metadata_error meta = Inr None \<longleftrightarrow>
     dget meta ''autonomy_limits'' = PNone \<or>
     (\<exists>d. dget meta ''autonomy_limits'' = PDict d \<and> ledger_ok d \<and> limits_hold_bad meta (dget d ''hold'') = Inr False)"
proof (cases "dget meta ''autonomy_limits''")
  case (PDict d)
  have "limits_metadata_error meta = Inr None \<longleftrightarrow> ledger_ok d \<and> limits_hold_bad meta (dget d ''hold'') = Inr False"
    unfolding limits_metadata_error_def Let_def PDict ledger_ok_def
    by (cases "limits_timestamp (dget d ''started_at'')")
      (auto simp: bindE_Inr succeeds_iff not_less)
  then show ?thesis using PDict by simp
qed (simp_all add: limits_metadata_error_def)

lemma ledger_ok_hold [simp]: "ledger_ok d \<Longrightarrow> ledger_ok (dset d ''hold'' v)"
  by (auto simp: ledger_ok_def LEDGER_KEYS_def intro!: keys_exact_dset_old)

lemma ledger_ok_count:
  assumes "ledger_ok d" "k \<in> set [''commands'', ''retries'', ''cost_units'', ''external_side_effects'']" "0 \<le> n"
  shows "ledger_ok (add_count d k n)"
proof -
  have "keys_exact (add_count d k n) LEDGER_KEYS"
    unfolding add_count_def using assms by (intro keys_exact_dset_old) (auto simp: ledger_ok_def LEDGER_KEYS_def)
  moreover have "k = ''commands'' \<or> k = ''retries'' \<or> k = ''cost_units'' \<or> k = ''external_side_effects''"
    using assms(2) by simp
  ultimately show ?thesis
    using assms(1,3) unfolding ledger_ok_def by (elim disjE) (simp_all add: add_count_def)
qed

lemma ledger_ok_record:
  assumes "ledger_ok d" "0 \<le> int_of (dget_or args ''cost_units'' (PInt 0))"
  shows "ledger_ok (record_counts args d)"
  unfolding record_counts_def Let_def using assms by (intro ledger_ok_count) simp_all

lemma ledger_ok_disposition:
  assumes "ledger_ok d" "\<not> bad_disposition v"
  shows "ledger_ok (dset d ''dispositions'' (PList (keep_last 32 (list_of (dget d ''dispositions'') @ [v]))))"
proof -
  have "\<not> list_ex bad_disposition (keep_last 32 (list_of (dget d ''dispositions'') @ [v]))"
    using assms set_keep_last [of 32 "list_of (dget d ''dispositions'') @ [v]"]
    by (auto simp: ledger_ok_def list_ex_iff)
  then show ?thesis
    using assms(1) by (auto simp: ledger_ok_def LEDGER_KEYS_def intro!: keys_exact_dset_old)
qed

lemma limits_state_Inr:
  assumes "limits_state meta sel at = Inr (meta1, state)"
  shows "dget meta1 ''autonomy_limits'' = PDict state" "ledger_ok state"
    "limits_hold_bad meta1 (dget state ''hold'') = Inr False"
    "py_eq (dget state ''policy_digest'') (dget sel ''digest'')"
    "k \<noteq> ''autonomy_limits'' \<Longrightarrow> map_of meta1 k = map_of meta k"
proof -
  have m: "meta1 = meta \<or> meta1 = dset meta ''autonomy_limits'' (PDict (fresh_ledger (dget sel ''digest'') at))"
    "dget meta1 ''autonomy_limits'' \<noteq> PNone" "limits_metadata_error meta1 = Inr None"
    "state = dict_of (dget meta1 ''autonomy_limits'')" "py_eq (dget state ''policy_digest'') (dget sel ''digest'')"
    using assms by (auto simp: limits_state_def Let_def result_simps split: if_splits)
  then show "dget meta1 ''autonomy_limits'' = PDict state" "ledger_ok state"
    "limits_hold_bad meta1 (dget state ''hold'') = Inr False"
    "py_eq (dget state ''policy_digest'') (dget sel ''digest'')"
    by (auto simp: limits_metadata_None)
  show "k \<noteq> ''autonomy_limits'' \<Longrightarrow> map_of meta1 k = map_of meta k"
    using m(1) by (auto simp: map_of_dset)
qed

text \<open>A hold written for revision \<open>r + 1\<close> is valid exactly in the record that carries that revision.\<close>

lemma limit_hold_fenced:
  assumes "fst b \<in> set LIMIT_TRIGGERS"
  shows "limits_hold_bad meta (limit_hold b at r) = Inr (\<not> py_eq (PInt (r + 1)) (dget meta ''task_revision''))"
  using assms by (cases b) (simp add: limits_hold_bad_def limit_hold_def keys_exact_def dkeys_def)

lemma limit_hold_not_None [simp]: "limit_hold b at r \<noteq> PNone" "is_dict (limit_hold b at r)"
  by (cases b, simp add: limit_hold_def)+

lemma limits_breach_trigger:
  "limits_breach state sel at diff = Inr (Some b) \<Longrightarrow> fst b \<in> set LIMIT_TRIGGERS"
  by (auto simp: limits_breach_def result_simps Let_def LIMIT_NAMES_def LIMIT_TRIGGERS_def split: if_splits)

text \<open>The record under its next revision.\<close>

definition advance :: "meta \<Rightarrow> int \<Rightarrow> meta" where
  "advance meta r = dset meta ''task_revision'' (PInt (r + 1))"

lemma advance_dget [simp]:
  "dget (advance meta r) ''autonomy_limits'' = dget meta ''autonomy_limits''"
  "dget (advance meta r) ''task_revision'' = PInt (r + 1)"
  by (simp_all add: advance_def)

lemma advance_valid:
  assumes "dget meta ''autonomy_limits'' = PDict d" "ledger_ok d"
    and "dget d ''hold'' = PNone \<or> (\<exists>b at. dget d ''hold'' = limit_hold b at r \<and> fst b \<in> set LIMIT_TRIGGERS)"
  shows "limits_metadata_error (advance meta r) = Inr None"
  unfolding limits_metadata_None using assms limit_hold_fenced [of _ "advance meta r" _ r]
  by (auto simp: limits_hold_bad_def)

text \<open>A valid record with a hold and the policy's digest is refused by the next preflight.\<close>

lemma preflight_refused:
  assumes "dget meta ''autonomy_limits'' = PDict d" "limits_metadata_error meta = Inr None" "dget d ''hold'' \<noteq> PNone"
    and "py_eq (dget d ''policy_digest'') (dget sel ''digest'')"
  shows "apply_preflight args meta (Some sel) at =
    Inl (RuntimeError ''AUTONOMY_LIMIT_HOLD: explicit autonomy-limits dispose is required'')"
  using assms by (simp add: apply_preflight_def limits_state_def)

lemma limits_observed_hold [simp]: "limits_observed (dset d ''hold'' v) = limits_observed d"
  by (simp add: limits_observed_def fun_eq_iff)

lemma limits_breach_hold [simp]: "limits_breach (dset d ''hold'' v) sel at diff = limits_breach d sel at diff"
  by (simp add: limits_breach_def)

lemma apply_preflight_Inr:
  assumes "apply_preflight args meta (Some sel) at = Inr (meta', msg)" "map_of meta ''task_revision'' = Some (PInt r)"
  obtains d diff b where "dget meta' ''autonomy_limits'' = PDict d" "ledger_ok d"
    "py_eq (dget d ''policy_digest'') (dget sel ''digest'')"
    "py_int (dget_or args ''autonomy_diff_bytes'' (PInt 0)) = Inr diff"
    "limits_breach d sel at diff = Inr b"
    "dget d ''hold'' = (case b of None \<Rightarrow> PNone | Some x \<Rightarrow> limit_hold x at r)"
proof -
  obtain meta1 state diff b where st: "limits_state meta sel at = Inr (meta1, state)" "dget state ''hold'' = PNone"
    "py_int (dget_or args ''autonomy_diff_bytes'' (PInt 0)) = Inr diff" "limits_breach state sel at diff = Inr b"
    and m': "(case b of None \<Rightarrow> Inr (meta1, ''Autonomy limits admitted.'')
        | Some x \<Rightarrow> bindE (task_revision_int meta1) (\<lambda>revision.
              Inr (dset meta1 ''autonomy_limits'' (PDict (dset state ''hold'' (limit_hold x at revision))), hold_message x)))
        = Inr (meta', msg)"
    using assms(1) unfolding apply_preflight_def by (auto simp: bindE_Inr raise_if_Inr split: prod.splits)
  note ls = limits_state_Inr [OF st(1)]
  have "task_revision_int meta1 = Inr r"
    using ls(5) [of "''task_revision''"] assms(2) by (simp add: task_revision_int_def ditem_def)
  show thesis
  proof (cases b)
    case None
    then show thesis using that [of state diff b] ls st m' by auto
  next
    case (Some x)
    then have "dget meta' ''autonomy_limits'' = PDict (dset state ''hold'' (limit_hold x at r))"
      using m' \<open>task_revision_int meta1 = Inr r\<close> by auto
    then show thesis using that [of "dset state ''hold'' (limit_hold x at r)" diff b] ls st Some by auto
  qed
qed

lemma breach_None_iff:
  assumes "limits_breach d sel at diff = Inr b"
    and "limits_timestamp (PStr at) = Inr now_us" "limits_timestamp (dget d ''started_at'') = Inr started"
  shows "b = None \<longleftrightarrow> list_all (\<lambda>(trigger, name). dhas sel name \<longrightarrow>
     limits_observed d (seconds_between started now_us) diff trigger < int_of (dget sel name)) LIMIT_NAMES"
  using assms by (force simp: limits_breach_def Let_def find_None_iff list_all_iff not_le)

section \<open>Properties\<close>

text \<open>Property C20. When the preflight of a run returns, the record stored under the next revision is
  valid; it carries a hold exactly when some budget of the policy is reached, and then every later
  preflight under that policy is refused until the hold is disposed of.\<close>

theorem preflight_fences_hold:
  assumes "apply_preflight args meta (Some sel) at = Inr (meta', msg)"
    and "map_of meta ''task_revision'' = Some (PInt r)"
  shows "\<exists>d diff started now_us. dget meta' ''autonomy_limits'' = PDict d \<and>
    limits_metadata_error (advance meta' r) = Inr None \<and>
    py_int (dget_or args ''autonomy_diff_bytes'' (PInt 0)) = Inr diff \<and>
    limits_timestamp (PStr at) = Inr now_us \<and> limits_timestamp (dget d ''started_at'') = Inr started \<and>
    (if list_all (\<lambda>(trigger, name). dhas sel name \<longrightarrow>
          limits_observed d (seconds_between started now_us) diff trigger < int_of (dget sel name)) LIMIT_NAMES
     then dget d ''hold'' = PNone
     else apply_preflight args' (advance meta' r) (Some sel) at' =
       Inl (RuntimeError ''AUTONOMY_LIMIT_HOLD: explicit autonomy-limits dispose is required''))"
proof -
  obtain d diff b where d: "dget meta' ''autonomy_limits'' = PDict d" "ledger_ok d"
    "py_eq (dget d ''policy_digest'') (dget sel ''digest'')"
    "py_int (dget_or args ''autonomy_diff_bytes'' (PInt 0)) = Inr diff" "limits_breach d sel at diff = Inr b"
    "dget d ''hold'' = (case b of None \<Rightarrow> PNone | Some x \<Rightarrow> limit_hold x at r)"
    using assms by (rule apply_preflight_Inr)
  obtain now_us started where t: "limits_timestamp (PStr at) = Inr now_us" "limits_timestamp (dget d ''started_at'') = Inr started"
    using d(5) by (auto simp: limits_breach_def result_simps)
  have valid: "limits_metadata_error (advance meta' r) = Inr None"
  proof (rule advance_valid [OF d(1,2)])
    show "dget d ''hold'' = PNone \<or> (\<exists>b at. dget d ''hold'' = limit_hold b at r \<and> fst b \<in> set LIMIT_TRIGGERS)"
    proof (cases b)
      case (Some x)
      then have "dget d ''hold'' = limit_hold x at r \<and> fst x \<in> set LIMIT_TRIGGERS"
        using d(6) limits_breach_trigger [of d sel at diff x] d(5) by simp
      then show ?thesis by blast
    qed (simp add: d(6))
  qed
  have "apply_preflight args' (advance meta' r) (Some sel) at' =
      Inl (RuntimeError ''AUTONOMY_LIMIT_HOLD: explicit autonomy-limits dispose is required'')" if "b \<noteq> None"
    using that d by (intro preflight_refused [OF _ valid]) (auto split: option.splits)
  then show ?thesis
    using d t valid breach_None_iff [OF d(5) t] by (cases b) auto
qed

lemma limits_timestamp_iso [simp]: "in_range t \<Longrightarrow> limits_timestamp (PStr (isoformat_utc t)) = Inr (truncate_us t)"
  by (simp add: limits_timestamp_def parse_instant_isoformat)

definition example_policy :: meta where
  "example_policy = [(''schema_version'', PInt 1), (''max_commands'', PInt 0), (''digest'', PStr (digest PNone))]"

definition example_limits_task :: meta where
  "example_limits_task = [(''task_revision'', PInt 4), (''status'', PStr ''in_progress''), (''owner'', PStr ''dev'')]"

lemma fresh_ledger_ok: "in_range t \<Longrightarrow> ledger_ok (fresh_ledger (PStr (digest v)) (isoformat_utc t))"
  by (simp add: ledger_ok_def fresh_ledger_def LEDGER_KEYS_def keys_exact_def dkeys_def)

lemma limits_state_fresh:
  assumes "in_range t" "dget meta ''autonomy_limits'' = PNone" "dget sel ''digest'' = PStr (digest v)"
  shows "limits_state meta sel (isoformat_utc t) =
    Inr (dset meta ''autonomy_limits'' (PDict (fresh_ledger (PStr (digest v)) (isoformat_utc t))),
         fresh_ledger (PStr (digest v)) (isoformat_utc t))"
proof -
  have "limits_metadata_error (dset meta ''autonomy_limits'' (PDict (fresh_ledger (PStr (digest v)) (isoformat_utc t)))) = Inr None"
    using fresh_ledger_ok [OF assms(1)] by (auto simp: limits_metadata_None fresh_ledger_def limits_hold_bad_def)
  then show ?thesis
    using assms by (simp add: limits_state_def) (simp add: fresh_ledger_def)
qed

lemma example_preflight:
  "\<exists>meta' msg. apply_preflight [] example_limits_task (Some example_policy) (isoformat_utc 0) = Inr (meta', msg)"
  by (simp add: apply_preflight_def limits_state_fresh [where v = PNone] example_limits_task_def example_policy_def in_range_def max_us_def
      max_ordinal_def day_us_def second_us_def)
    (simp add: fresh_ledger_def limits_breach_def LIMIT_NAMES_def limits_observed_def in_range_def max_us_def
      max_ordinal_def day_us_def second_us_def task_revision_int_def)

theorem preflight_fences_hold_witness:
  "\<exists>meta' msg d diff started now_us. apply_preflight [] example_limits_task (Some example_policy) (isoformat_utc 0) = Inr (meta', msg) \<and>
    dget meta' ''autonomy_limits'' = PDict d \<and> limits_metadata_error (advance meta' 4) = Inr None \<and>
    limits_timestamp (PStr (isoformat_utc 0)) = Inr now_us \<and> limits_timestamp (dget d ''started_at'') = Inr started \<and>
    (if limits_observed d (seconds_between started now_us) diff ''command'' < 0 then dget d ''hold'' = PNone
     else apply_preflight [] (advance meta' 4) (Some example_policy) (isoformat_utc 0) =
       Inl (RuntimeError ''AUTONOMY_LIMIT_HOLD: explicit autonomy-limits dispose is required''))"
proof -
  obtain meta' msg where p: "apply_preflight [] example_limits_task (Some example_policy) (isoformat_utc 0) = Inr (meta', msg)"
    using example_preflight by blast
  have rev: "map_of example_limits_task ''task_revision'' = Some (PInt 4)"
    by (simp add: example_limits_task_def)
  have sel: "list_all (\<lambda>(trigger, name). dhas example_policy name \<longrightarrow>
      f trigger < int_of (dget example_policy name)) LIMIT_NAMES \<longleftrightarrow> f ''command'' < 0" for f :: "string \<Rightarrow> int"
    by (simp add: example_policy_def LIMIT_NAMES_def)
  show ?thesis
    using preflight_fences_hold [OF p rev, of "[]" "isoformat_utc 0"] p unfolding sel by blast
qed

text \<open>A disposition clears exactly the hold of the current revision and is recorded with a
  bounded reason; the record stored under the next revision is valid. The counters stay, so a
  command, retry, cost or side-effect budget that was reached is still reached.\<close>

theorem dispose_keeps_counters:
  assumes "apply_dispose args meta at = Inr (meta', msg)" and "map_of meta ''task_revision'' = Some (PInt r)"
  shows "\<exists>d d'. dget meta ''autonomy_limits'' = PDict d \<and> dget meta' ''autonomy_limits'' = PDict d' \<and>
    dget d ''hold'' \<noteq> PNone \<and> dget d' ''hold'' = PNone \<and> limits_metadata_error (advance meta' r) = Inr None \<and>
    (\<forall>k. k \<noteq> ''hold'' \<and> k \<noteq> ''dispositions'' \<longrightarrow> dget d' k = dget d k)"
proof -
  let ?reason = "strip (py_str (dget args ''reason''))"
  let ?item = "\<lambda>d. PDict [(''held_revision'', dget (dict_of (dget d ''hold'')) ''task_revision''),
     (''task_revision'', PInt (r + 1)), (''reason'', PStr ?reason), (''recorded_at'', PStr at)]"
  obtain d where d: "dget meta ''autonomy_limits'' = PDict d" "is_dict (dget d ''hold'')"
    "limits_metadata_error meta = Inr None" "?reason \<noteq> []" "length ?reason \<le> 500" "newline \<notin> set ?reason"
    and m': "meta' = dset meta ''autonomy_limits'' (PDict (dset (dset d ''dispositions'' (PList (keep_last 32
            (list_of (dget d ''dispositions'') @ [?item d])))) ''hold'' PNone))"
    using assms unfolding apply_dispose_def Let_def
    by (auto simp: bindE_Inr raise_if_Inr is_dict_iff ditem_def not_less split: if_splits)
  have ok: "ledger_ok d" "limits_hold_bad meta (dget d ''hold'') = Inr False"
    using d(1,3) by (auto simp: limits_metadata_None)
  then have "exact_int (dget (dict_of (dget d ''hold'')) ''task_revision'')"
    using d(2) by (auto simp: limits_hold_bad_def result_simps is_dict_iff)
  then have "\<not> bad_disposition (?item d)"
    using d(4-6) by (simp add: bad_disposition_def keys_exact_def dkeys_def)
  then have "ledger_ok (dset (dset d ''dispositions'' (PList (keep_last 32
            (list_of (dget d ''dispositions'') @ [?item d])))) ''hold'' PNone)"
    using ok(1) by (intro ledger_ok_hold ledger_ok_disposition)
  then have "limits_metadata_error (advance meta' r) = Inr None"
    unfolding m' by (intro advance_valid) auto
  moreover have "dget d ''hold'' \<noteq> PNone" using d(2) by auto
  ultimately show ?thesis
    unfolding m' using d(1) by auto
qed

definition example_held_task :: meta where
  "example_held_task = dset example_limits_task ''autonomy_limits'' (PDict (dset
     (fresh_ledger (PStr (digest PNone)) (isoformat_utc 0)) ''hold'' (limit_hold (''command'', 0, 0) (isoformat_utc 0) 3)))"

definition example_dispose_args :: namespace where
  "example_dispose_args = [(''owner'', PStr ''dev''), (''expected_revision'', PInt 4), (''reason'', PStr ''reviewed'')]"

lemma example_dispose:
  "\<exists>meta' msg. apply_dispose example_dispose_args example_held_task (isoformat_utc 0) = Inr (meta', msg)"
proof -
  have "limits_metadata_error example_held_task = Inr None"
    using fresh_ledger_ok [of 0 PNone]
    by (auto simp: limits_metadata_None example_held_task_def example_limits_task_def limit_hold_fenced LIMIT_TRIGGERS_def
        in_range_def max_us_def max_ordinal_def day_us_def second_us_def)
  then show ?thesis
    by (simp add: apply_dispose_def Let_def)
      (simp add: example_held_task_def example_limits_task_def example_dispose_args_def active_owner_def limit_hold_def
        strip_def lstrip_def is_space_def newline_def)
qed

theorem dispose_keeps_counters_witness:
  "\<exists>meta' msg d d'. apply_dispose example_dispose_args example_held_task (isoformat_utc 0) = Inr (meta', msg) \<and>
    dget example_held_task ''autonomy_limits'' = PDict d \<and> dget meta' ''autonomy_limits'' = PDict d' \<and>
    dget d ''hold'' \<noteq> PNone \<and> dget d' ''hold'' = PNone \<and> limits_metadata_error (advance meta' 4) = Inr None \<and>
    dget d' ''commands'' = dget d ''commands'' \<and> dget d' ''retries'' = dget d ''retries''"
proof -
  obtain meta' msg where p: "apply_dispose example_dispose_args example_held_task (isoformat_utc 0) = Inr (meta', msg)"
    using example_dispose by blast
  have "map_of example_held_task ''task_revision'' = Some (PInt 4)"
    by (simp add: example_held_task_def example_limits_task_def map_of_dset)
  from dispose_keeps_counters [OF p this] obtain d d' where
    d: "dget example_held_task ''autonomy_limits'' = PDict d" "dget meta' ''autonomy_limits'' = PDict d'"
      "dget d ''hold'' \<noteq> PNone" "dget d' ''hold'' = PNone" "limits_metadata_error (advance meta' 4) = Inr None"
    and k: "\<And>k. k \<noteq> ''hold'' \<and> k \<noteq> ''dispositions'' \<Longrightarrow> dget d' k = dget d k"
    by blast
  have "dget d' ''commands'' = dget d ''commands''" "dget d' ''retries'' = dget d ''retries''"
    by (rule k, simp)+
  then show ?thesis using p d by blast
qed

end
