(* ===== verification/Execution_Envelope.thy ===== *)
theory Execution_Envelope
  imports Py_Time Py_Digest
begin

text \<open>
  Execution envelopes of \<open>src/tools/execution_envelope.py\<close>: what a task may run. The theory holds the
  envelope validator, the binding of an envelope to a task record, its replacement by a narrower
  successor, the durable execution reservation, and the preflight that admits one command.

  Files are parameters: \<open>envelope_source\<close> is what reading an envelope file yields, \<open>scope_roots\<close> the
  declared roots and the kind of each path below them. The Bubblewrap launcher (argument vectors and
  file descriptors) is not modelled. \<open>CAPABILITY_KEYS\<close> is a set in the source and a list here, so of two
  invalid capabilities the model names the first.
\<close>

section \<open>Vocabulary\<close>

definition is_envelope_ref :: "string \<Rightarrow> bool" where
  "is_envelope_ref s = is_reference ''._/-'' 2 255 s"

definition is_envelope_id :: "string \<Rightarrow> bool" where
  "is_envelope_id s = (is_task_id (take 7 s) \<and> starts_with (drop 7 s) ''-e'' \<and>
     (case drop 9 s of [] \<Rightarrow> False | c # r \<Rightarrow> is_digit c \<and> c \<noteq> CHR ''0'' \<and> list_all is_digit r))"

definition ENVELOPE_CLASSES :: "string list" where
  "ENVELOPE_CLASSES = [''read'', ''test'', ''source-write'', ''git-publication'']"

definition CAPABILITY_KEYS :: "string list" where
  "CAPABILITY_KEYS = [''git_metadata'', ''network'']"

definition ROOT_NAMES :: "string list" where
  "ROOT_NAMES = [''product'', ''state'', ''source'']"

definition ROOT_SELECTORS :: "(string \<times> string) list" where
  "ROOT_SELECTORS = [(''product-root'', ''product''), (''state-root'', ''state''), (''source-root'', ''source'')]"

record preflight =
  adm_allowed :: bool
  adm_code :: string
  adm_detail :: string
  adm_envelope_id :: string
  adm_envelope_digest :: string

definition denied :: "string \<Rightarrow> string \<Rightarrow> preflight" where
  "denied c d = \<lparr>adm_allowed = False, adm_code = c, adm_detail = d, adm_envelope_id = [], adm_envelope_digest = []\<rparr>"

definition preflight_json :: "preflight \<Rightarrow> meta" where
  "preflight_json p = [
     (''allowed'', PBool (adm_allowed p)),
     (''code'', PStr (adm_code p)),
     (''detail'', PStr (adm_detail p)),
     (''envelope_id'', PStr (adm_envelope_id p)),
     (''envelope_digest'', PStr (adm_envelope_digest p))]"

definition canonical_digest :: "meta \<Rightarrow> string" where
  "canonical_digest d = digest (PDict d)"

section \<open>The validator\<close>

definition path_error :: "string \<Rightarrow> pyval \<Rightarrow> string option" where
  "path_error field item =
     (let path = str_of item; (root, sep, relative) = partition_char CHR '':'' path in
      if \<not> is_str item then Some (field @ '' contains an unsafe path'')
      else if sep then
        (if root \<notin> set ROOT_NAMES \<or> relative = [] \<or> starts_with relative ''/'' \<or> \<not> is_envelope_ref relative
         then Some (field @ '' contains an invalid root-qualified path'') else None)
      else if path \<in> set (map fst ROOT_SELECTORS) then None
      else if \<not> is_envelope_ref path \<or> starts_with path ''.''
        then Some (field @ '' contains an unsafe path'') else None)"

text \<open>A loop that stops at its first complaint.\<close>

fun first_error :: "('a \<Rightarrow> string option) \<Rightarrow> 'a list \<Rightarrow> string list" where
  "first_error f [] = []"
| "first_error f (x # xs) = (case f x of Some e \<Rightarrow> [e] | None \<Rightarrow> first_error f xs)"

definition paths_errors :: "pyval \<Rightarrow> string \<Rightarrow> string list result" where
  "paths_errors v field =
     (if \<not> is_list v \<or> list_of v = [] \<or> 64 < length (list_of v)
      then Inr [field @ '' must be a bounded nonempty list'']
      else bindE (py_set v) (\<lambda>xs.
        Inr ((if py_distinct xs then [] else [field @ '' contains duplicates'']) @ first_error (path_error field) xs)))"

definition bad_positive :: "meta \<Rightarrow> string \<Rightarrow> bool" where
  "bad_positive d k = (\<not> exact_int (dget d k) \<or> int_of (dget d k) < 1)"

definition identity_errors :: "meta \<Rightarrow> string list" where
  "identity_errors d =
     (let version = dget d ''schema_version''; eid = dget d ''envelope_id''; task = dget d ''task'' in
      (if \<not> exact_int version \<or> int_of version \<notin> {1, 2} then [''envelope schema_version must be 1 or 2''] else []) @
      (if \<not> is_str eid \<or> \<not> is_envelope_id (str_of eid) then [''envelope_id is invalid''] else []) @
      (if \<not> is_str task \<or> \<not> is_task_id (str_of task) then [''task is invalid''] else []) @
      (if is_str eid \<and> is_str task \<and> \<not> starts_with (str_of eid) (str_of task @ ''-'')
       then [''envelope_id does not match task''] else []) @
      map (\<lambda>k. k @ '' is invalid'') (filter (bad_positive d) [''envelope_revision'', ''task_revision'', ''spec_revision'']) @
      (if \<not> is_str (dget d ''spec_ref'') \<or> \<not> is_envelope_ref (str_of (dget d ''spec_ref''))
       then [''spec_ref is invalid''] else []))"

definition is_item_id :: "pyval \<Rightarrow> bool" where
  "is_item_id v = (is_str v \<and> is_reference ''._-'' 2 63 (str_of v))"

definition collection_error :: "meta \<Rightarrow> string \<Rightarrow> string option" where
  "collection_error d name =
     (let v = dget d name; items = list_of v;
          ids = map (\<lambda>i. dget (dict_of i) ''id'') (filter is_dict items) in
      if \<not> is_list v \<or> items = [] \<or> 32 < length items then Some (name @ '' must be a bounded nonempty list'')
      else if length ids \<noteq> length items \<or> \<not> list_all is_item_id ids \<or> \<not> py_distinct ids
        then Some (name @ '' identifiers are invalid'') else None)"

definition bad_output :: "pyval \<Rightarrow> bool" where
  "bad_output v =
     (let d = dict_of v; text = dget d ''description'' in
      \<not> is_dict v \<or> \<not> keys_exact d [''id'', ''description''] \<or> \<not> is_str text
      \<or> strip (str_of text) = [] \<or> 1000 < length (str_of text))"

definition bad_evidence :: "pyval \<Rightarrow> bool" where
  "bad_evidence v =
     (let d = dict_of v in
      \<not> is_dict v \<or> \<not> keys_exact d [''id'', ''class'', ''required''] \<or> \<not> is_str (dget d ''class'')
      \<or> \<not> is_dashed_word (str_of (dget d ''class'')) \<or> \<not> is_bool (dget d ''required''))"

definition item_shape_errors :: "meta \<Rightarrow> string list result" where
  "item_shape_errors d =
     bindE (py_iter (dget_or d ''outputs'' (PList []))) (\<lambda>outputs.
     bindE (py_iter (dget_or d ''evidence'' (PList []))) (\<lambda>evidence.
     Inr ((if list_ex bad_output outputs then [''outputs contain an invalid item''] else []) @
          (if list_ex bad_evidence evidence then [''evidence contain an invalid item''] else []))))"

definition non_goals_ok :: "pyval \<Rightarrow> bool" where
  "non_goals_ok v = (is_list v \<and> list_of v \<noteq> [] \<and> length (list_of v) \<le> 32 \<and>
     list_all (\<lambda>i. is_str i \<and> strip (str_of i) \<noteq> [] \<and> length (str_of i) \<le> 240) (list_of v))"

definition option_list :: "'a option \<Rightarrow> 'a list" where
  "option_list x = (case x of None \<Rightarrow> [] | Some y \<Rightarrow> [y])"

definition collection_errors :: "meta \<Rightarrow> string list result" where
  "collection_errors d =
     bindE (item_shape_errors d) (\<lambda>shape.
     Inr (concat (map (option_list \<circ> collection_error d) [''outputs'', ''evidence'', ''stop_conditions'']) @ shape @
          (if non_goals_ok (dget d ''non_goals'') then [] else [''non_goals must be a bounded nonempty string list''])))"

definition valid_command_rule :: "pyval \<Rightarrow> bool" where
  "valid_command_rule v =
     (let d = dict_of v; timeout = dget d ''timeout_seconds'' in
      is_dict v \<and> keys_within d [''allowed'', ''timeout_seconds''] \<and> is_bool (dget d ''allowed'') \<and>
      (\<not> dhas d ''timeout_seconds'' \<or> exact_int timeout \<and> 1 \<le> int_of timeout \<and> int_of timeout \<le> 3600))"

definition valid_stop_condition :: "pyval \<Rightarrow> bool result" where
  "valid_stop_condition v =
     (let d = dict_of v in
      andE (Inr (is_dict v \<and> keys_exact d [''id'', ''kind''] \<and> is_item_id (dget d ''id'')))
        (hash_in (dget d ''kind'') [''deny'', ''pause'']))"

definition rule_errors :: "meta \<Rightarrow> string list result" where
  "rule_errors d =
     (let scope = dget d ''path_scope''; s = dict_of scope; classes = dget d ''command_classes''; stops = dget d ''stop_conditions'' in
      bindE (if \<not> is_dict scope \<or> \<not> keys_exact s [''read'', ''write'']
             then Inr [''path_scope must contain exactly read and write'']
             else bindE (paths_errors (dget s ''read'') ''path_scope.read'') (\<lambda>r.
                  bindE (paths_errors (dget s ''write'') ''path_scope.write'') (\<lambda>w. Inr (r @ w)))) (\<lambda>scope_errors.
      bindE (if \<not> is_list stops \<or> list_of stops = [] \<or> 32 < length (list_of stops)
             then Inr [''stop_conditions must be a bounded nonempty list'']
             else bindE (all_result valid_stop_condition (list_of stops)) (\<lambda>ok.
               Inr (if ok then [] else [''stop_conditions contain an invalid rule'']))) (\<lambda>stop_errors.
      Inr (scope_errors @
           (if \<not> is_dict classes \<or> dict_of classes = [] \<or> \<not> keys_within (dict_of classes) ENVELOPE_CLASSES
            then [''command_classes are invalid'']
            else if \<not> list_all (valid_command_rule \<circ> snd) (dict_of classes)
            then [''command_classes contain an invalid rule''] else []) @ stop_errors))))"

definition capability_bad :: "meta \<Rightarrow> string \<Rightarrow> bool" where
  "capability_bad caps name =
     (let v = dget caps name in \<not> is_dict v \<or> \<not> keys_exact (dict_of v) [''allowed''] \<or> \<not> is_bool (dget (dict_of v) ''allowed''))"

definition capability_errors :: "meta \<Rightarrow> string list" where
  "capability_errors d =
     (let caps = dget d ''capabilities'' in
      if caps = PNone then []
      else if \<not> py_eq (dget d ''schema_version'') (PInt 2) then [''capabilities require envelope schema_version 2'']
      else if \<not> is_dict caps \<or> \<not> keys_exact (dict_of caps) CAPABILITY_KEYS
        then [''capabilities must contain exactly git_metadata and network'']
      else first_error (\<lambda>name. if capability_bad (dict_of caps) name
             then Some (''capability '' @ name @ '' is invalid'') else None) CAPABILITY_KEYS)"

definition ENVELOPE_KEYS :: "string list" where
  "ENVELOPE_KEYS = [''schema_version'', ''envelope_id'', ''envelope_revision'', ''task'', ''task_revision'', ''spec_ref'',
     ''spec_revision'', ''outputs'', ''non_goals'', ''path_scope'', ''command_classes'', ''evidence'', ''stop_conditions'']"

definition required_keys :: "meta \<Rightarrow> string list" where
  "required_keys d = (if py_eq (dget d ''schema_version'') (PInt 2) then ENVELOPE_KEYS @ [''capabilities''] else ENVELOPE_KEYS)"

definition envelope_errors :: "pyval \<Rightarrow> string list result" where
  "envelope_errors v =
     (let d = dict_of v; required = required_keys d in
      if \<not> is_dict v then Inr [''envelope must be an object'']
      else
        bindE (collection_errors d) (\<lambda>collections.
        bindE (rule_errors d) (\<lambda>rules.
        Inr (map (\<lambda>k. ''envelope missing field: '' @ k) (sort (filter (\<lambda>k. \<not> dhas d k) required)) @
             map (\<lambda>k. ''envelope unknown field: '' @ k) (sort (filter (\<lambda>k. k \<notin> set required) (dkeys d))) @
             identity_errors d @ capability_errors d @ collections @ rules))))"

section \<open>Binding, loading and the reservation\<close>

definition BINDING_FIELDS :: "string list" where
  "BINDING_FIELDS = [''execution_envelope_ref'', ''execution_envelope_revision'', ''execution_envelope_task_revision'',
     ''execution_envelope_digest'', ''execution_envelope'']"

definition valid_binding :: "meta \<Rightarrow> bool" where
  "valid_binding meta =
     (let ref = dget meta ''execution_envelope_ref''; rev = dget meta ''execution_envelope_revision'';
          task_rev = dget meta ''execution_envelope_task_revision''; dig = dget meta ''execution_envelope_digest'' in
      list_all (\<lambda>k. dget meta k = PNone) BINDING_FIELDS \<or>
      (is_str ref \<and> is_envelope_ref (str_of ref) \<and> exact_int rev \<and> 1 \<le> int_of rev \<and>
       exact_int task_rev \<and> 1 \<le> int_of task_rev \<and> is_str dig \<and> is_digest (str_of dig) \<and>
       is_dict (dget meta ''execution_envelope'')))"

text \<open>What reading a referenced file yields: a component is a symbolic link, the read or the JSON
  decoding fails, or the bytes and what they decode to.\<close>

datatype envelope_source = SourceSymlink | SourceUnreadable string | SourcePayload string pyval

definition envelope_load :: "(string \<Rightarrow> envelope_source) \<Rightarrow> string \<Rightarrow> (meta option \<times> string \<times> string list) result" where
  "envelope_load files reference =
     (if \<not> is_envelope_ref reference \<or> starts_with reference ''.'' \<or> ''..'' \<in> set (path_parts reference)
      then Inr (None, [], [''envelope reference is unsafe''])
      else case files reference of
        SourceSymlink \<Rightarrow> Inr (None, [], [''envelope reference contains a symlink''])
      | SourceUnreadable e \<Rightarrow> Inr (None, [], [''cannot read envelope: '' @ e])
      | SourcePayload payload v \<Rightarrow>
          bindE (envelope_errors v) (\<lambda>found.
          Inr (if is_dict v then Some (dict_of v) else None, ''sha256:'' @ sha256_hex payload, found)))"

definition RESERVATION_FIELDS :: "string list" where
  "RESERVATION_FIELDS = [''execution_id'', ''owner'', ''task_revision'', ''envelope_digest'', ''command_class'',
     ''scope_digest'', ''argv_digest'', ''expires_at'']"

text \<open>\<open>str(value.get(k, ""))\<close> against a pattern, and the shared timestamp test.\<close>

definition text_matches :: "(string \<Rightarrow> bool) \<Rightarrow> meta \<Rightarrow> string \<Rightarrow> bool" where
  "text_matches p d k = p (py_str (dget_or d k (PStr [])))"

definition aware_text :: "meta \<Rightarrow> string \<Rightarrow> bool" where
  "aware_text d k = (case from_iso_z (py_str (dget_or d k (PStr []))) of Inl _ \<Rightarrow> False | Inr t \<Rightarrow> is_aware t)"

definition valid_reservation :: "pyval \<Rightarrow> bool result" where
  "valid_reservation v =
     (let d = dict_of v; owner = dget d ''owner'' in
      andE (Inr (is_dict v \<and> keys_exact d RESERVATION_FIELDS \<and> text_matches (all_hex 32) d ''execution_id'' \<and>
              is_str owner \<and> str_of owner \<noteq> [] \<and> length (str_of owner) \<le> 128 \<and> \<not> bad_positive d ''task_revision'' \<and>
              text_matches is_digest d ''envelope_digest''))
        (andE (hash_in (dget d ''command_class'') ENVELOPE_CLASSES)
          (Inr (text_matches is_digest d ''scope_digest'' \<and> text_matches (all_hex 64) d ''argv_digest'' \<and>
                aware_text d ''expires_at''))))"

section \<open>Replacement by a narrower successor\<close>

definition REPLACEMENT_FIELDS :: "string list" where
  "REPLACEMENT_FIELDS = [''old_ref'', ''old_revision'', ''old_task_revision'', ''old_digest'', ''new_ref'', ''new_revision'',
     ''new_digest'', ''replaced_at'']"

definition valid_replacement :: "pyval \<Rightarrow> bool" where
  "valid_replacement v =
     (let d = dict_of v in
      is_dict v \<and> keys_exact d REPLACEMENT_FIELDS \<and> is_str (dget d ''old_ref'') \<and> is_str (dget d ''new_ref'') \<and>
      \<not> bad_positive d ''old_revision'' \<and> \<not> bad_positive d ''old_task_revision'' \<and> is_digest (py_str (dget d ''old_digest'')) \<and>
      \<not> bad_positive d ''new_revision'' \<and> is_digest (py_str (dget d ''new_digest'')) \<and> is_str (dget d ''replaced_at''))"

definition valid_replacements :: "pyval \<Rightarrow> bool" where
  "valid_replacements v = (v = PNone \<or> is_list v \<and> length (list_of v) \<le> 16 \<and> list_all valid_replacement (list_of v))"

definition scope_set :: "pyval \<Rightarrow> string \<Rightarrow> pyval list result" where
  "scope_set envelope access = bindE (subscript envelope ''path_scope'') (\<lambda>s. bindE (subscript s access) py_set)"

definition narrower_scope :: "meta \<Rightarrow> meta \<Rightarrow> string \<Rightarrow> unit result" where
  "narrower_scope envelope old access =
     bindE (scope_set (PDict envelope) access) (\<lambda>xs.
     bindE (scope_set (PDict old) access) (\<lambda>ys.
     raise_if (\<not> py_subset xs ys) (RuntimeError ''replace-envelope cannot widen path scope'')))"

text \<open>\<open>a > b\<close> of two values.\<close>

definition py_gt :: "pyval \<Rightarrow> pyval \<Rightarrow> bool result" where
  "py_gt a b = (if is_int a \<and> is_int b then Inr (int_of b < int_of a)
     else Inl (TypeError ''not supported between instances''))"

definition narrower_rule :: "meta \<Rightarrow> string \<times> pyval \<Rightarrow> unit result" where
  "narrower_rule old item =
     (case item of (name, rule) \<Rightarrow>
        bindE (ditem old ''command_classes'') (\<lambda>classes.
        bindE (get_attr classes name (PDict [(''allowed'', PBool False)])) (\<lambda>prior.
        let timeout = dget_or (dict_of rule) ''timeout_seconds'' (PInt 0) in
        bindE (if truthy (dget (dict_of rule) ''allowed'')
               then bindE (get_attr prior ''allowed'' (PBool False)) (\<lambda>a.
                 raise_if (\<not> truthy a) (RuntimeError ''replace-envelope cannot widen command classes''))
               else Inr ()) (\<lambda>_.
        bindE (get_attr prior ''timeout_seconds'' timeout) (\<lambda>limit.
        bindE (py_gt timeout limit) (\<lambda>wider.
        raise_if wider (RuntimeError ''replace-envelope cannot widen command timeout'')))))))"

definition narrower_capability :: "meta \<Rightarrow> string \<times> pyval \<Rightarrow> unit result" where
  "narrower_capability old item =
     (case item of (name, rule) \<Rightarrow>
        bindE (get_attr rule ''allowed'' PNone) (\<lambda>allowed.
        if \<not> truthy allowed then Inr ()
        else
          bindE (get_attr (dget_or old ''capabilities'' (PDict [])) name (PDict [])) (\<lambda>prior.
          bindE (get_attr prior ''allowed'' (PBool False)) (\<lambda>a.
          raise_if (\<not> truthy a) (RuntimeError ''replace-envelope cannot widen capabilities'')))))"

definition dict_items :: "pyval \<Rightarrow> (string \<times> pyval) list result" where
  "dict_items v = (case v of PDict d \<Rightarrow> Inr d | _ \<Rightarrow> Inl (AttributeError ''items''))"

definition narrower_checks :: "meta \<Rightarrow> meta \<Rightarrow> unit result" where
  "narrower_checks envelope old =
     bindE (narrower_scope envelope old ''read'') (\<lambda>_.
     bindE (narrower_scope envelope old ''write'') (\<lambda>_.
     bindE (for_each (narrower_rule old) (dict_of (dget envelope ''command_classes''))) (\<lambda>_.
     bindE (dict_items (dget_or envelope ''capabilities'' (PDict []))) (\<lambda>caps.
     bindE (for_each (narrower_capability old) caps) (\<lambda>_.
     bindE (py_set (dget_or old ''non_goals'' (PList []))) (\<lambda>goals.
     bindE (py_set (dget_or envelope ''non_goals'' (PList []))) (\<lambda>kept.
     raise_if (\<not> py_subset goals kept) (RuntimeError ''replace-envelope cannot remove non-goals''))))))))"

text \<open>The identity checks of \<open>replace_bound\<close> on the loaded successor.\<close>

definition successor_checks :: "meta \<Rightarrow> namespace \<Rightarrow> meta \<Rightarrow> meta \<Rightarrow> string \<Rightarrow> int \<Rightarrow> string \<Rightarrow> unit result" where
  "successor_checks meta args envelope old old_ref old_rev old_digest =
     bindE (raise_if (\<not> py_eq (dget envelope ''task'') (dget args ''task'') \<or> \<not> py_eq (dget envelope ''spec_ref'') (dget meta ''spec_ref''))
              (RuntimeError ''replace-envelope envelope task or spec does not match'')) (\<lambda>_.
     bindE (raise_if (\<not> py_eq (dget envelope ''task_revision'') (dget meta ''task_revision'')
                \<or> \<not> py_eq (dget envelope ''spec_revision'') (dget meta ''spec_revision''))
              (RuntimeError ''replace-envelope envelope revision does not match task specification'')) (\<lambda>_.
     bindE (raise_if (\<not> py_eq (dget args ''envelope_revision'') (dget envelope ''envelope_revision''))
              (RuntimeError ''replace-envelope envelope revision does not match'')) (\<lambda>_.
     bindE (if dget args ''envelope_ref'' = PStr old_ref then Inr True
            else bindE (ditem old ''envelope_id'') (\<lambda>i. Inr (py_eq (dget envelope ''envelope_id'') i))) (\<lambda>same.
     bindE (raise_if same (RuntimeError ''replace-envelope requires a distinct successor envelope'')) (\<lambda>_.
     raise_if (\<not> py_eq (dget args ''envelope_revision'') (PInt (old_rev + 1)) \<or> canonical_digest envelope = old_digest)
       (RuntimeError ''replace-envelope successor revision or bytes are invalid''))))))"

definition bind_fields :: "meta \<Rightarrow> pyval \<Rightarrow> pyval \<Rightarrow> pyval \<Rightarrow> meta \<Rightarrow> meta" where
  "bind_fields meta ref revision task_rev envelope =
     dset (dset (dset (dset (dset meta
       ''execution_envelope_ref'' ref)
       ''execution_envelope_revision'' revision)
       ''execution_envelope_task_revision'' task_rev)
       ''execution_envelope_digest'' (PStr (canonical_digest envelope)))
       ''execution_envelope'' (PDict envelope)"

definition replacement_record :: "meta \<Rightarrow> namespace \<Rightarrow> meta \<Rightarrow> string \<Rightarrow> pyval" where
  "replacement_record meta args envelope replaced_at = PDict [
     (''old_ref'', dget meta ''execution_envelope_ref''),
     (''old_revision'', dget meta ''execution_envelope_revision''),
     (''old_task_revision'', dget meta ''execution_envelope_task_revision''),
     (''old_digest'', dget meta ''execution_envelope_digest''),
     (''new_ref'', dget args ''envelope_ref''),
     (''new_revision'', dget args ''envelope_revision''),
     (''new_digest'', PStr (canonical_digest envelope)),
     (''replaced_at'', PStr replaced_at)]"

definition replace_bound :: "(string \<Rightarrow> envelope_source) \<Rightarrow> meta \<Rightarrow> namespace \<Rightarrow> string \<Rightarrow> (meta \<times> string) result" where
  "replace_bound files meta args replaced_at =
     (let old = dict_of (dget meta ''execution_envelope'');
          old_ref = dget meta ''execution_envelope_ref''; old_rev = dget meta ''execution_envelope_revision'';
          old_task_rev = dget meta ''execution_envelope_task_revision''; old_digest = dget meta ''execution_envelope_digest'' in
      bindE (raise_if (\<not> is_dict (dget meta ''execution_envelope''))
               (RuntimeError ''replace-envelope requires an existing bound execution envelope'')) (\<lambda>_.
      bindE (raise_if (\<not> (is_str old_ref \<and> exact_int old_rev \<and> exact_int old_task_rev \<and> is_str old_digest))
               (RuntimeError ''replace-envelope requires a coherent existing binding'')) (\<lambda>_.
      bindE (envelope_load files (arg_str args ''envelope_ref'')) (\<lambda>(loaded, file_digest, found).
      case loaded of
        None \<Rightarrow> Inl (RuntimeError (''replace-envelope envelope is invalid: '' @ join ''; '' found))
      | Some envelope \<Rightarrow>
          bindE (raise_if (found \<noteq> []) (RuntimeError (''replace-envelope envelope is invalid: '' @ join ''; '' found))) (\<lambda>_.
          bindE (successor_checks meta args envelope old (str_of old_ref) (int_of old_rev) (str_of old_digest)) (\<lambda>_.
          bindE (narrower_checks envelope old) (\<lambda>_.
          let history = dget_or meta ''execution_envelope_replacements'' (PList []) in
          bindE (raise_if (\<not> is_list history)
                   (RuntimeError ''replace-envelope replacement evidence is invalid'')) (\<lambda>_.
          bindE (ditem meta ''task_revision'') (\<lambda>task_rev.
          Inr (bind_fields (dset meta ''execution_envelope_replacements''
                 (PList (list_of history @ [replacement_record meta args envelope replaced_at])))
                 (dget args ''envelope_ref'') (dget args ''envelope_revision'') task_rev envelope,
               ''Replaced execution envelope '' @ str_of old_ref @ '' with '' @ arg_str args ''envelope_ref'' @
               '' revision '' @ py_str (dget args ''envelope_revision'') @ ''.''))))))))))"

section \<open>The bound envelope\<close>

definition bound_envelope :: "meta \<Rightarrow> (preflight + meta) result" where
  "bound_envelope meta =
     (let reference = dget meta ''execution_envelope_ref''; embedded = dget meta ''execution_envelope''; e = dict_of embedded in
      if \<not> is_str reference \<or> \<not> is_dict embedded
      then Inr (Inl (denied ''ENVELOPE_MISSING'' ''task has no bound execution envelope''))
      else
        bindE (envelope_errors embedded) (\<lambda>found.
        Inr (if found \<noteq> [] then Inl (denied ''ENVELOPE_INVALID'' (join ''; '' found))
             else if dget meta ''execution_envelope_digest'' \<noteq> PStr (canonical_digest e)
             then Inl (denied ''ENVELOPE_DIGEST_MISMATCH'' ''bound envelope data changed'')
             else if \<not> (py_eq (dget e ''task'') (dget meta ''id'')
                \<and> py_eq (dget e ''envelope_revision'') (dget meta ''execution_envelope_revision'')
                \<and> py_eq (dget e ''task_revision'') (dget meta ''execution_envelope_task_revision'')
                \<and> py_eq (dget e ''spec_ref'') (dget meta ''spec_ref'')
                \<and> py_eq (dget e ''spec_revision'') (dget meta ''spec_revision''))
             then Inl (denied ''ENVELOPE_REVISION_MISMATCH'' ''envelope does not match durable task specification'')
             else Inr e)))"

section \<open>Declared paths\<close>

datatype file_kind = FileLink | FileDirectory | FileOther

text \<open>An explicitly supplied root, and the roots a command may name; \<open>lstat\<close> gives the kind of a path
  below a root, \<open>None\<close> when it does not exist.\<close>

record external_root =
  root_absolute :: bool
  root_kind :: "file_kind option"

record scope_roots =
  state_root :: bool
  source_root :: "external_root option"
  lstat :: "string \<Rightarrow> string list \<Rightarrow> file_kind option"

definition validate_external_root :: "external_root \<Rightarrow> string \<Rightarrow> unit result" where
  "validate_external_root r name =
     (if \<not> root_absolute r then Inl (RuntimeError (name @ '' root must be absolute''))
      else case root_kind r of
        None \<Rightarrow> Inl (RuntimeError (name @ '' root is unavailable''))
      | Some k \<Rightarrow> if k \<noteq> FileDirectory then Inl (RuntimeError (name @ '' root is not a real directory'')) else Inr ())"

fun scope_walk :: "(string list \<Rightarrow> file_kind option) \<Rightarrow> string list \<Rightarrow> string list \<Rightarrow> unit result" where
  "scope_walk kind done [] = Inr ()"
| "scope_walk kind done (p # ps) =
     (case kind (done @ [p]) of
        None \<Rightarrow> Inl (RuntimeError ''execution envelope path scope is unavailable'')
      | Some FileLink \<Rightarrow> Inl (RuntimeError ''execution envelope path scope contains a symlink'')
      | Some _ \<Rightarrow> scope_walk kind (done @ [p]) ps)"

definition envelope_scope_path :: "(string list \<Rightarrow> file_kind option) \<Rightarrow> string list \<Rightarrow> unit result" where
  "envelope_scope_path kind parts =
     (if parts = [] \<or> ''..'' \<in> set parts then Inl (RuntimeError ''execution envelope path scope is unsafe'')
      else scope_walk kind [] parts)"

definition mutating :: "string \<Rightarrow> bool" where
  "mutating command_class = (command_class \<in> set [''source-write'', ''git-publication''])"

text \<open>The \<open>try\<close> block that looks the path up: a mutating command may name a new last component.\<close>

definition scope_lookup :: "(string list \<Rightarrow> file_kind option) \<Rightarrow> string \<Rightarrow> string \<Rightarrow> preflight option" where
  "scope_lookup kind command_class relative =
     (let parts = path_parts relative; new_leaf = mutating command_class \<and> 2 \<le> length parts;
          unsafe = Some (denied ''PATH_OUTSIDE_SCOPE'' ''declared path is unavailable or unsafe'') in
      if relative = ''.'' then None
      else case envelope_scope_path kind parts of
        Inr _ \<Rightarrow> None
      | Inl error \<Rightarrow>
          if \<not> new_leaf then
            (if contains (exc_message error) ''unavailable''
             then Some (denied ''PATH_SCOPE_UNAVAILABLE'' ''declared path is unavailable'') else unsafe)
          else (case envelope_scope_path kind (butlast parts) of Inr _ \<Rightarrow> None | Inl _ \<Rightarrow> unsafe))"

text \<open>The root, the path below it and the scope text of a declared path.\<close>

definition declared_path :: "string \<Rightarrow> string \<times> string \<times> string" where
  "declared_path declared =
     (let (prefix, sep, rest) = partition_char CHR '':'' declared in
      case map_of ROOT_SELECTORS declared of
        Some root \<Rightarrow> (root, [], declared)
      | None \<Rightarrow> if sep then (prefix, rest, prefix @ '':'' @ rest) else (''product'', declared, declared))"

definition rstrip_slash :: "string \<Rightarrow> string" where
  "rstrip_slash s = rev (dropWhile (\<lambda>c. c = CHR ''/'') (rev s))"

definition scope_covers :: "string \<Rightarrow> string \<Rightarrow> string \<Rightarrow> bool" where
  "scope_covers root_name scope_name scope =
     (map_of ROOT_SELECTORS scope = Some root_name \<or> scope_name = rstrip_slash scope
      \<or> starts_with scope_name (rstrip_slash scope @ ''/''))"

definition has_root :: "scope_roots \<Rightarrow> string \<Rightarrow> bool" where
  "has_root roots name = (name = ''product'' \<or> name = ''state'' \<and> state_root roots \<or> name = ''source'' \<and> source_root roots \<noteq> None)"

definition scope_denial :: "scope_roots \<Rightarrow> string list \<Rightarrow> string \<Rightarrow> string \<Rightarrow> preflight option" where
  "scope_denial roots allowed command_class declared =
     (let (root_name, relative, scope_name) = declared_path declared;
          selector = map_of ROOT_SELECTORS declared \<noteq> None;
          bad_root = Some (denied ''PATH_OUTSIDE_SCOPE'' ''declared path has an unavailable or invalid root'') in
      if \<not> has_root roots root_name then
        (if root_name = ''source'' then Some (denied ''PATH_SCOPE_UNAVAILABLE'' ''declared root is unavailable'') else bad_root)
      else if \<not> selector \<and> (relative = [] \<or> starts_with relative ''/'') then bad_root
      else if \<not> list_ex (scope_covers root_name scope_name) allowed
      then Some (denied ''PATH_OUTSIDE_SCOPE'' ''declared path is outside the command-class scope'')
      else scope_lookup (lstat roots root_name) command_class (if selector then ''.'' else relative))"

definition allowed_scopes :: "meta \<Rightarrow> string \<Rightarrow> string list" where
  "allowed_scopes e command_class =
     map str_of (list_of (dget (dict_of (dget e ''path_scope'')) (if mutating command_class then ''write'' else ''read'')))"

fun first_denial :: "('a \<Rightarrow> preflight option) \<Rightarrow> 'a list \<Rightarrow> preflight option" where
  "first_denial f [] = None"
| "first_denial f (x # xs) = (case f x of Some p \<Rightarrow> Some p | None \<Rightarrow> first_denial f xs)"

definition scope_error :: "scope_roots \<Rightarrow> meta \<Rightarrow> string \<Rightarrow> string list \<Rightarrow> preflight option" where
  "scope_error roots e command_class paths =
     (if mutating command_class \<and> paths = []
      then Some (denied ''SCOPE_DECLARATION_REQUIRED'' ''mutating command classes require --scope-path'')
      else first_denial (scope_denial roots (allowed_scopes e command_class) command_class) paths)"

section \<open>Command admission\<close>

definition capability_allowed :: "meta \<Rightarrow> string \<Rightarrow> bool" where
  "capability_allowed e name =
     (let caps = dget_or e ''capabilities'' (PDict []); c = dget (dict_of caps) name in
      is_dict caps \<and> is_dict c \<and> dget (dict_of c) ''allowed'' = PBool True)"

definition publication_metadata_allowed :: "meta \<Rightarrow> bool" where
  "publication_metadata_allowed e = capability_allowed e ''git_metadata''"

definition capability_denial :: "meta \<Rightarrow> string \<Rightarrow> bool \<Rightarrow> preflight option" where
  "capability_denial e command_class authorize =
     (let publication = (command_class = ''git-publication''); network = capability_allowed e ''network'' in
      if publication \<and> \<not> capability_allowed e ''git_metadata''
      then Some (denied ''GIT_METADATA_CAPABILITY_DENIED'' ''git metadata capability is required'')
      else if authorize \<and> \<not> publication
      then Some (denied ''EXTERNAL_SIDE_EFFECTS_DENIED'' ''external side effects require git-publication'')
      else if authorize \<and> \<not> network
      then Some (denied ''NETWORK_CAPABILITY_DENIED'' ''network capability is not authorized'')
      else if publication \<and> network \<and> \<not> authorize
      then Some (denied ''EXTERNAL_SIDE_EFFECT_AUTHORIZATION_REQUIRED'' ''network publication requires explicit authorization'')
      else None)"

definition lease_denial :: "int \<Rightarrow> meta \<Rightarrow> preflight option result" where
  "lease_denial now_us meta =
     (let claim = dget meta ''claim_expires''; refuse = (\<lambda>d. Some (denied ''OWNER_CLAIM_REQUIRED'' d)) in
      if \<not> is_str claim \<or> str_of claim = [] then Inr (refuse ''active durable owner lease is required'')
      else case from_iso_z (str_of claim) of
        Inl e \<Rightarrow> if is_value_error e then Inr (refuse ''active durable owner lease is invalid'') else Inl e
      | Inr t \<Rightarrow> bindE (dt_le t (Aware now_us 0)) (\<lambda>expired.
          Inr (if expired then refuse ''active durable owner lease is expired'' else None)))"

definition class_allowed :: "meta \<Rightarrow> string \<Rightarrow> bool" where
  "class_allowed e command_class =
     (let classes = dict_of (dget e ''command_classes'') in
      command_class \<in> set ENVELOPE_CLASSES \<and> dhas classes command_class \<and>
      truthy (dget (dict_of (dget classes command_class)) ''allowed''))"

definition admit_envelope :: "int \<Rightarrow> scope_roots \<Rightarrow> meta \<Rightarrow> string \<Rightarrow> string \<Rightarrow> string list \<Rightarrow> bool \<Rightarrow> meta \<Rightarrow> preflight result" where
  "admit_envelope now_us roots meta owner command_class paths authorize e =
     (if dget meta ''owner'' \<noteq> PStr owner \<or> dget meta ''status'' \<noteq> PStr ''in_progress''
      then Inr (denied ''OWNER_CLAIM_REQUIRED'' ''active durable owner claim is required'')
      else
        bindE (lease_denial now_us meta) (\<lambda>lease.
        Inr (case lease of Some p \<Rightarrow> p
         | None \<Rightarrow>
            if \<not> class_allowed e command_class
            then denied ''COMMAND_CLASS_DENIED'' ''command class is not allowed by the envelope''
            else case capability_denial e command_class authorize of Some p \<Rightarrow> p
             | None \<Rightarrow>
                (case scope_error roots e command_class paths of Some p \<Rightarrow> p
                 | None \<Rightarrow> \<lparr>adm_allowed = True, adm_code = ''ALLOWED'', adm_detail = ''durable envelope admission passed'',
                     adm_envelope_id = str_of (dget e ''envelope_id''),
                     adm_envelope_digest = py_str (dget meta ''execution_envelope_digest'')\<rparr>))))"

definition envelope_preflight ::
  "int \<Rightarrow> scope_roots \<Rightarrow> meta \<Rightarrow> string \<Rightarrow> string \<Rightarrow> string list \<Rightarrow> bool \<Rightarrow> preflight result" where
  "envelope_preflight now_us roots meta owner command_class paths authorize =
     (case (case source_root roots of None \<Rightarrow> Inr () | Some r \<Rightarrow> validate_external_root r ''source'') of
        Inl e \<Rightarrow> Inr (denied ''PATH_SCOPE_UNAVAILABLE'' (exc_message e))
      | Inr _ \<Rightarrow>
          bindE (bound_envelope meta) (\<lambda>bound.
          case bound of Inl p \<Rightarrow> Inr p
          | Inr e \<Rightarrow> admit_envelope now_us roots meta owner command_class paths authorize e))"

section \<open>Sandbox mounts\<close>

text \<open>
  A mount is its destination below the sandbox worktree, its source (a root and the components below it) and its
  Bubblewrap flag. In Python \<open>root / "/etc"\<close> is \<open>/etc\<close>: an absolute path leaves the root it is joined to, and
  its first component is the file system's own root, which exists and is no link. \<open>lstat\<close> knows that root by
  the name \<open>/\<close>.
\<close>

type_synonym mount = "string \<times> (string \<times> string list) \<times> string"

definition mount_source :: "scope_roots \<Rightarrow> string \<Rightarrow> string \<Rightarrow> (string \<times> string list) result" where
  "mount_source roots root_name relative =
     (let parts = path_parts relative in
      if starts_with relative ''/'' then
        bindE (raise_if (''..'' \<in> set parts) (RuntimeError ''execution envelope path scope is unsafe'')) (\<lambda>_.
        bindE (scope_walk (lstat roots ''/'') [] parts) (\<lambda>_. Inr (''/'', parts)))
      else bindE (envelope_scope_path (lstat roots root_name) parts) (\<lambda>_. Inr (root_name, parts)))"

definition sandbox_mount :: "scope_roots \<Rightarrow> pyval \<Rightarrow> string \<Rightarrow> mount result" where
  "sandbox_mount roots item mode =
     (let declared = py_str item; (prefix, sep, rest) = partition_char CHR '':'' declared;
          selector = map_of ROOT_SELECTORS declared; relative = (if selector \<noteq> None then ''.'' else if sep then rest else declared);
          root_name = (case selector of Some r \<Rightarrow> r | None \<Rightarrow> if sep then prefix else ''product'') in
      bindE (raise_if (\<not> has_root roots root_name)
               (RuntimeError ''execution envelope path scope has an unavailable root'')) (\<lambda>_.
      bindE (if relative = ''.'' then Inr (root_name, []) else mount_source roots root_name relative) (\<lambda>source.
      Inr (if sep \<or> selector \<noteq> None then root_name @ ''/'' @ relative else relative, source, mode))))"

definition envelope_sandbox_mounts :: "scope_roots \<Rightarrow> pyval list \<Rightarrow> pyval list \<Rightarrow> bool \<Rightarrow> mount list result" where
  "envelope_sandbox_mounts roots read_scope write_scope git_metadata =
     bindE (map_result (\<lambda>i. sandbox_mount roots i ''--ro-bind'') read_scope) (\<lambda>reads.
     bindE (map_result (\<lambda>i. sandbox_mount roots i ''--bind'') write_scope) (\<lambda>writes.
     bindE (if git_metadata
            then bindE (envelope_scope_path (lstat roots ''product'') [''.git'']) (\<lambda>_.
              Inr [(if state_root roots then ''product/.git'' else ''.git'', (''product'', [''.git'']), ''--ro-bind'')])
            else Inr []) (\<lambda>metadata.
     Inr (reads @ metadata @ writes))))"

definition sandbox_base_command :: "bool \<Rightarrow> string list" where
  "sandbox_base_command network =
     [''bwrap'', ''--die-with-parent'', ''--unshare-user''] @
     (if network then [] else [''--unshare-net'']) @
     [''--uid'', ''0'', ''--gid'', ''0'', ''--tmpfs'', ''/'', ''--clearenv'', ''--setenv'', ''PATH'',
      ''/usr/local/sbin:/usr/local/bin:/usr/sbin:/usr/bin:/sbin:/bin'', ''--setenv'', ''HOME'', ''/tmp'',
      ''--setenv'', ''TMPDIR'', ''/tmp'', ''--setenv'', ''LANG'', ''C.UTF-8'', ''--proc'', ''/proc'', ''--dev'', ''/dev'',
      ''--tmpfs'', ''/tmp'']"

section \<open>What the validator accepts\<close>

lemma first_error_Nil: "first_error f xs = [] \<longleftrightarrow> (\<forall>x \<in> set xs. f x = None)"
  by (induction xs) (auto split: option.splits)

lemma first_denial_None: "first_denial f xs = None \<longleftrightarrow> (\<forall>x \<in> set xs. f x = None)"
  by (induction xs) (auto split: option.splits)

lemma strings_of_list: "list_all is_str xs \<Longrightarrow> xs = map PStr (map str_of xs)"
  by (induction xs) (auto simp: is_str_iff)

lemma path_error_str: "path_error field v = None \<Longrightarrow> is_str v"
  by (auto simp: path_error_def Let_def split: if_splits prod.splits)

lemma paths_errors_Nil:
  assumes "paths_errors v field = Inr []"
  shows "\<exists>ss. v = PList (map PStr ss) \<and> ss \<noteq> [] \<and> distinct ss \<and> (\<forall>s \<in> set ss. path_error field (PStr s) = None)"
proof -
  obtain xs where xs: "v = PList xs" "xs \<noteq> []" "py_distinct xs" "\<forall>x \<in> set xs. path_error field x = None"
    using assms by (auto simp: paths_errors_def py_set_def is_list_iff result_simps first_error_Nil split: if_splits)
  then have "list_all is_str xs"
    using path_error_str by (auto simp: list_all_iff)
  then obtain ss where "xs = map PStr ss"
    using strings_of_list by blast
  then show ?thesis using xs by (auto simp: py_distinct_PStr)
qed

lemma envelope_errors_Nil:
  assumes "envelope_errors v = Inr []"
  obtains e where "v = PDict e" "identity_errors e = []" "capability_errors e = []" "collection_errors e = Inr []"
    "rule_errors e = Inr []" "set (dkeys e) = set (required_keys e)"
proof -
  obtain e where e: "v = PDict e"
    using assms by (cases v) (simp_all add: envelope_errors_def)
  have *: "identity_errors e = [] \<and> capability_errors e = [] \<and> collection_errors e = Inr [] \<and> rule_errors e = Inr [] \<and>
      sort (filter (\<lambda>k. \<not> dhas e k) (required_keys e)) = [] \<and> sort (filter (\<lambda>k. k \<notin> set (required_keys e)) (dkeys e)) = []"
    using assms unfolding e envelope_errors_def Let_def by (simp add: bindE_Inr)
  then have "filter (\<lambda>k. \<not> dhas e k) (required_keys e) = []" "filter (\<lambda>k. k \<notin> set (required_keys e)) (dkeys e) = []"
    by (metis length_0_conv length_sort)+
  then have "set (dkeys e) = set (required_keys e)"
    by (auto simp: filter_empty_conv dhas_dkeys)
  then show thesis using that e * by blast
qed

lemma rule_errors_Nil:
  assumes "rule_errors e = Inr []"
  obtains s rs ws classes where "dget e ''path_scope'' = PDict s" "dget s ''read'' = PList (map PStr rs)"
    "dget s ''write'' = PList (map PStr ws)" "dget e ''command_classes'' = PDict classes"
    "keys_within classes ENVELOPE_CLASSES" "list_all (valid_command_rule \<circ> snd) classes" "keys_exact s [''read'', ''write'']"
proof -
  obtain s where s: "dget e ''path_scope'' = PDict s" "paths_errors (dget s ''read'') ''path_scope.read'' = Inr []"
      "paths_errors (dget s ''write'') ''path_scope.write'' = Inr []" "keys_exact s [''read'', ''write'']"
    using assms by (auto simp: rule_errors_def Let_def is_dict_iff bindE_Inr split: if_splits)
  obtain classes where c: "dget e ''command_classes'' = PDict classes" "keys_within classes ENVELOPE_CLASSES"
      "list_all (valid_command_rule \<circ> snd) classes"
    using assms by (auto simp: rule_errors_def Let_def is_dict_iff bindE_Inr split: if_splits)
  show thesis
    using that s c paths_errors_Nil [OF s(2)] paths_errors_Nil [OF s(3)] by blast
qed

section \<open>Which commands are admitted\<close>

text \<open>A path whose components all exist and none of which is a link or leaves the root.\<close>

definition link_free :: "(string list \<Rightarrow> file_kind option) \<Rightarrow> string list \<Rightarrow> bool" where
  "link_free kind parts =
     (''..'' \<notin> set parts \<and> (\<forall>n. 0 < n \<and> n \<le> length parts \<longrightarrow> kind (take n parts) \<noteq> None \<and> kind (take n parts) \<noteq> Some FileLink))"

lemma scope_walk_Inr:
  "scope_walk kind before parts = Inr u \<longleftrightarrow>
     (\<forall>n. 0 < n \<and> n \<le> length parts \<longrightarrow> kind (before @ take n parts) \<noteq> None \<and> kind (before @ take n parts) \<noteq> Some FileLink)"
proof (induction parts arbitrary: before)
  case (Cons p ps)
  let ?ok = "\<lambda>xs. kind xs \<noteq> None \<and> kind xs \<noteq> Some FileLink"
  have step: "scope_walk kind before (p # ps) = Inr u \<longleftrightarrow> ?ok (before @ [p]) \<and> scope_walk kind (before @ [p]) ps = Inr u"
    by (auto split: option.splits file_kind.splits)
  have "(\<forall>n. 0 < n \<and> n \<le> length (p # ps) \<longrightarrow> ?ok (before @ take n (p # ps))) \<longleftrightarrow>
      ?ok (before @ [p]) \<and> (\<forall>n. 0 < n \<and> n \<le> length ps \<longrightarrow> ?ok ((before @ [p]) @ take n ps))" (is "?L \<longleftrightarrow> ?R")
  proof
    assume L: ?L
    show ?R using L [rule_format, of 1] L [rule_format, of "Suc _"] by auto
  next
    assume R: ?R
    show ?L
    proof (intro allI impI)
      fix n assume n: "0 < n \<and> n \<le> length (p # ps)"
      show "?ok (before @ take n (p # ps))"
        using R n by (cases n; cases "n - 1 = 0") auto
    qed
  qed
  then show ?case unfolding step Cons.IH by blast
qed simp

lemma envelope_scope_path_Inr:
  "envelope_scope_path kind parts = Inr u \<longleftrightarrow> parts \<noteq> [] \<and> link_free kind parts"
  using scope_walk_Inr [of kind "[]" parts] by (auto simp: envelope_scope_path_def link_free_def)

definition path_admitted :: "scope_roots \<Rightarrow> string list \<Rightarrow> string \<Rightarrow> string \<Rightarrow> bool" where
  "path_admitted roots allowed command_class declared =
     (let (root_name, relative, scope_name) = declared_path declared; kind = lstat roots root_name; parts = path_parts relative in
      has_root roots root_name \<and> list_ex (scope_covers root_name scope_name) allowed \<and>
      (map_of ROOT_SELECTORS declared \<noteq> None \<or>
       relative \<noteq> [] \<and> \<not> starts_with relative ''/'' \<and>
       (relative = ''.'' \<or> parts \<noteq> [] \<and> link_free kind parts \<or>
        mutating command_class \<and> 2 \<le> length parts \<and> link_free kind (butlast parts))))"

lemma scope_lookup_None:
  "scope_lookup kind command_class relative = None \<longleftrightarrow>
     relative = ''.'' \<or> path_parts relative \<noteq> [] \<and> link_free kind (path_parts relative) \<or>
     mutating command_class \<and> 2 \<le> length (path_parts relative) \<and> link_free kind (butlast (path_parts relative))"
proof -
  have long: "butlast (path_parts relative) \<noteq> []" if "2 \<le> length (path_parts relative)"
    using that by (cases "path_parts relative" rule: rev_cases) auto
  have full: "(\<exists>u. envelope_scope_path kind (path_parts relative) = Inr u) \<longleftrightarrow>
      path_parts relative \<noteq> [] \<and> link_free kind (path_parts relative)"
    by (simp add: envelope_scope_path_Inr)
  have leaf: "(\<exists>u. envelope_scope_path kind (butlast (path_parts relative)) = Inr u) \<longleftrightarrow>
      butlast (path_parts relative) \<noteq> [] \<and> link_free kind (butlast (path_parts relative))"
    by (simp add: envelope_scope_path_Inr)
  show ?thesis
    unfolding scope_lookup_def Let_def
    by (cases "envelope_scope_path kind (path_parts relative)";
        cases "envelope_scope_path kind (butlast (path_parts relative))") (use full leaf long in auto)
qed

lemma scope_denial_None:
  "scope_denial roots allowed command_class declared = None \<longleftrightarrow> path_admitted roots allowed command_class declared"
proof -
  obtain r rel sn where d: "declared_path declared = (r, rel, sn)"
    by (cases "declared_path declared") auto
  show ?thesis
    by (cases "map_of ROOT_SELECTORS declared")
      (auto simp: scope_denial_def path_admitted_def Let_def d scope_lookup_None)
qed

text \<open>The declarative admission of one command.\<close>

definition command_admissible :: "int \<Rightarrow> scope_roots \<Rightarrow> meta \<Rightarrow> string \<Rightarrow> string \<Rightarrow> string list \<Rightarrow> bool \<Rightarrow> meta \<Rightarrow> bool" where
  "command_admissible now_us roots meta owner command_class paths authorize e =
     ((\<forall>r. source_root roots = Some r \<longrightarrow> root_absolute r \<and> root_kind r = Some FileDirectory) \<and>
      is_str (dget meta ''execution_envelope_ref'') \<and> dget meta ''execution_envelope'' = PDict e \<and>
      envelope_errors (PDict e) = Inr [] \<and> dget meta ''execution_envelope_digest'' = PStr (canonical_digest e) \<and>
      py_eq (dget e ''task'') (dget meta ''id'') \<and>
      py_eq (dget e ''envelope_revision'') (dget meta ''execution_envelope_revision'') \<and>
      py_eq (dget e ''task_revision'') (dget meta ''execution_envelope_task_revision'') \<and>
      py_eq (dget e ''spec_ref'') (dget meta ''spec_ref'') \<and> py_eq (dget e ''spec_revision'') (dget meta ''spec_revision'') \<and>
      dget meta ''owner'' = PStr owner \<and> dget meta ''status'' = PStr ''in_progress'' \<and>
      (\<exists>lease t. dget meta ''claim_expires'' = PStr lease \<and> lease \<noteq> [] \<and> from_iso_z lease = Inr t \<and> is_aware t \<and> now_us < utc_of t) \<and>
      class_allowed e command_class \<and>
      (command_class = ''git-publication'' \<longrightarrow> capability_allowed e ''git_metadata'' \<and> authorize = capability_allowed e ''network'') \<and>
      (command_class \<noteq> ''git-publication'' \<longrightarrow> \<not> authorize) \<and>
      (mutating command_class \<longrightarrow> paths \<noteq> []) \<and>
      (\<forall>declared \<in> set paths. path_admitted roots (allowed_scopes e command_class) command_class declared))"

lemma lease_denial_None:
  "lease_denial now_us meta = Inr None \<longleftrightarrow>
     (\<exists>lease t. dget meta ''claim_expires'' = PStr lease \<and> lease \<noteq> [] \<and> from_iso_z lease = Inr t \<and> is_aware t \<and> now_us < utc_of t)"
proof (cases "dget meta ''claim_expires''")
  case (PStr lease)
  show ?thesis
    unfolding lease_denial_def PStr Let_def
    by (cases "from_iso_z lease") (auto simp: dt_le_def not_le)
qed (simp_all add: lease_denial_def)

lemma denied_not_allowed [simp]: "\<not> adm_allowed (denied c d)"
  by (simp add: denied_def)

lemma denials_not_allowed:
  "capability_denial e c a = Some p \<Longrightarrow> \<not> adm_allowed p"
  "scope_error roots e c paths = Some p \<Longrightarrow> \<not> adm_allowed p"
  "lease_denial now_us meta = Inr (Some p) \<Longrightarrow> \<not> adm_allowed p"
  "bound_envelope meta = Inr (Inl p) \<Longrightarrow> \<not> adm_allowed p"
proof -
  show "capability_denial e c a = Some p \<Longrightarrow> \<not> adm_allowed p"
    by (auto simp: capability_denial_def Let_def split: if_splits)
  have lookup: "scope_lookup k c x = Some q \<Longrightarrow> \<not> adm_allowed q" for k x q
    by (auto simp: scope_lookup_def Let_def split: if_splits sum.splits)
  have one: "scope_denial roots al c x = Some q \<Longrightarrow> \<not> adm_allowed q" for al x q
    by (auto simp: scope_denial_def Let_def dest: lookup split: if_splits prod.splits)
  have "first_denial (scope_denial roots al c) xs = Some q \<Longrightarrow> \<not> adm_allowed q" for al xs q
    by (induction xs) (auto dest: one split: option.splits)
  then show "scope_error roots e c paths = Some p \<Longrightarrow> \<not> adm_allowed p"
    by (auto simp: scope_error_def split: if_splits)
  show "lease_denial now_us meta = Inr (Some p) \<Longrightarrow> \<not> adm_allowed p"
    by (auto simp: lease_denial_def Let_def bindE_Inr split: if_splits sum.splits)
  show "bound_envelope meta = Inr (Inl p) \<Longrightarrow> \<not> adm_allowed p"
    by (auto simp: bound_envelope_def Let_def bindE_Inr split: if_splits)
qed

lemma bound_envelope_Inr:
  "bound_envelope meta = Inr (Inr e) \<longleftrightarrow>
     is_str (dget meta ''execution_envelope_ref'') \<and> dget meta ''execution_envelope'' = PDict e \<and>
     envelope_errors (PDict e) = Inr [] \<and> dget meta ''execution_envelope_digest'' = PStr (canonical_digest e) \<and>
     py_eq (dget e ''task'') (dget meta ''id'') \<and>
     py_eq (dget e ''envelope_revision'') (dget meta ''execution_envelope_revision'') \<and>
     py_eq (dget e ''task_revision'') (dget meta ''execution_envelope_task_revision'') \<and>
     py_eq (dget e ''spec_ref'') (dget meta ''spec_ref'') \<and> py_eq (dget e ''spec_revision'') (dget meta ''spec_revision'')"
  by (auto simp: bound_envelope_def Let_def bindE_Inr is_dict_iff split: if_splits)

lemma capability_denial_None:
  "capability_denial e c a = None \<longleftrightarrow>
     (c = ''git-publication'' \<longrightarrow> capability_allowed e ''git_metadata'' \<and> a = capability_allowed e ''network'') \<and>
     (c \<noteq> ''git-publication'' \<longrightarrow> \<not> a)"
  by (auto simp: capability_denial_def Let_def)

lemma scope_error_None:
  "scope_error roots e c paths = None \<longleftrightarrow> (mutating c \<longrightarrow> paths \<noteq> []) \<and>
     (\<forall>d \<in> set paths. path_admitted roots (allowed_scopes e c) c d)"
  by (auto simp: scope_error_def first_denial_None scope_denial_None)

lemma admit_envelope_allowed:
  assumes "admit_envelope now_us roots meta owner c paths a e = Inr p"
  shows "adm_allowed p \<longleftrightarrow> dget meta ''owner'' = PStr owner \<and> dget meta ''status'' = PStr ''in_progress'' \<and>
    lease_denial now_us meta = Inr None \<and> class_allowed e c \<and> capability_denial e c a = None \<and> scope_error roots e c paths = None"
proof (cases "dget meta ''owner'' = PStr owner \<and> dget meta ''status'' = PStr ''in_progress''")
  case True
  then obtain l where l: "lease_denial now_us meta = Inr l"
    using assms by (auto simp: admit_envelope_def bindE_Inr)
  then show ?thesis
    using True assms denials_not_allowed
    by (auto simp: admit_envelope_def split: option.splits if_splits)
next
  case False
  then show ?thesis using assms by (auto simp: admit_envelope_def split: if_splits)
qed

lemma external_root_ok:
  "validate_external_root r n = Inr u \<longleftrightarrow> root_absolute r \<and> root_kind r = Some FileDirectory"
  by (auto simp: validate_external_root_def split: option.splits if_splits)

section \<open>What a replacement keeps\<close>

lemma py_set_strings [simp]: "py_set (PList (map PStr ss)) = Inr (map PStr ss)"
  by (simp add: py_set_def list_all_iff hashable_def)

lemma scope_set_valid:
  assumes "rule_errors e = Inr []" "access = ''read'' \<or> access = ''write''"
  shows "\<exists>ss. scope_set (PDict e) access = Inr (map PStr ss) \<and>
    dget (dict_of (dget e ''path_scope'')) access = PList (map PStr ss)"
proof -
  obtain s rs ws where s: "dget e ''path_scope'' = PDict s" "dget s ''read'' = PList (map PStr rs)"
      "dget s ''write'' = PList (map PStr ws)"
    using rule_errors_Nil [OF assms(1)] by blast
  have "dhas e ''path_scope''" "dhas s ''read''" "dhas s ''write''"
    using s by (auto intro!: dget_not_None_dhas)
  then show ?thesis
    using s assms(2) by (auto simp: scope_set_def ditem_eq)
qed

lemma narrower_scope_subset:
  assumes "narrower_scope new old access = Inr u" "rule_errors new = Inr []" "rule_errors old = Inr []"
    and "access = ''read'' \<or> access = ''write''"
  shows "set (map str_of (list_of (dget (dict_of (dget new ''path_scope'')) access)))
    \<subseteq> set (map str_of (list_of (dget (dict_of (dget old ''path_scope'')) access)))"
proof -
  obtain ss where ss: "scope_set (PDict new) access = Inr (map PStr ss)"
      "dget (dict_of (dget new ''path_scope'')) access = PList (map PStr ss)"
    using scope_set_valid [OF assms(2,4)] by blast
  obtain os where os: "scope_set (PDict old) access = Inr (map PStr os)"
      "dget (dict_of (dget old ''path_scope'')) access = PList (map PStr os)"
    using scope_set_valid [OF assms(3,4)] by blast
  have "py_subset (map PStr ss) (map PStr os)"
    using assms(1) ss(1) os(1) by (simp add: narrower_scope_def raise_if_Inr)
  then show ?thesis
    using ss(2) os(2) by (auto simp: py_subset_strings)
qed

lemma narrower_rule_allowed:
  assumes "narrower_rule old (name, rule) = Inr u" "truthy (dget (dict_of rule) ''allowed'')"
    and "dget old ''command_classes'' = PDict classes"
  shows "dhas classes name" "truthy (dget (dict_of (dget classes name)) ''allowed'')"
proof -
  have "ditem old ''command_classes'' = Inr (PDict classes)"
    using assms(3) dget_not_None_dhas [of old "''command_classes''"] by (simp add: ditem_eq)
  then obtain a where a: "get_attr (dget_or classes name (PDict [(''allowed'', PBool False)])) ''allowed'' (PBool False) = Inr a" "truthy a"
    using assms(1,2) by (auto simp: narrower_rule_def result_simps Let_def)
  then show h: "dhas classes name"
    by (cases "map_of classes name") (auto simp: dget_or_def dhas_def)
  then have "dget_or classes name (PDict [(''allowed'', PBool False)]) = dget classes name"
    by (auto simp: dget_or_def dget_def dhas_def)
  then show "truthy (dget (dict_of (dget classes name)) ''allowed'')"
    using a by (cases "dget classes name") (auto simp: get_attr_def dget_or_def dget_def split: option.splits)
qed

lemma class_allowed_narrower:
  assumes "for_each (narrower_rule old) (dict_of (dget new ''command_classes'')) = Inr u"
    and "dget old ''command_classes'' = PDict classes" "class_allowed new c"
  shows "class_allowed old c"
proof -
  let ?new = "dict_of (dget new ''command_classes'')"
  have c: "c \<in> set ENVELOPE_CLASSES" "dhas ?new c" "truthy (dget (dict_of (dget ?new c)) ''allowed'')"
    using assms(3) by (auto simp: class_allowed_def Let_def)
  then have "(c, dget ?new c) \<in> set ?new"
    by (auto simp: dhas_def dget_def dest: map_of_SomeD)
  then have "narrower_rule old (c, dget ?new c) = Inr ()"
    using assms(1) by (simp add: for_each_Inr)
  from narrower_rule_allowed [OF this c(3) assms(2)] show ?thesis
    using c(1) assms(2) by (simp add: class_allowed_def)
qed

lemma capability_valid:
  assumes "capability_errors e = []" "dget e ''capabilities'' = PDict caps" "dhas caps c"
  shows "\<exists>d b. dget caps c = PDict d \<and> dget d ''allowed'' = PBool b"
proof -
  have "c \<in> set CAPABILITY_KEYS" "\<not> capability_bad caps c"
    using assms by (auto simp: capability_errors_def Let_def first_error_Nil keys_exact_dhas split: if_splits)
  then show ?thesis
    by (cases "dget caps c"; cases "dget (dict_of (dget caps c)) ''allowed''") (auto simp: capability_bad_def)
qed

lemma capability_narrower:
  assumes "for_each (narrower_capability old) caps = Inr u" "dget_or new ''capabilities'' (PDict []) = PDict caps"
    and "capability_errors old = []" "capability_allowed new c"
  shows "capability_allowed old c"
proof -
  obtain d where d: "dget caps c = PDict d" "dget d ''allowed'' = PBool True"
    using assms(2,4) by (auto simp: capability_allowed_def Let_def is_dict_iff)
  then have "(c, PDict d) \<in> set caps"
    by (auto simp: dget_def split: option.splits dest: map_of_SomeD)
  then have n: "narrower_capability old (c, PDict d) = Inr ()"
    using assms(1) by (simp add: for_each_Inr)
  have "dget_or d ''allowed'' PNone = PBool True"
    using d(2) by (auto simp: dget_def dget_or_def split: option.splits)
  then obtain prior a where p: "get_attr (dget_or old ''capabilities'' (PDict [])) c (PDict []) = Inr prior"
      "get_attr prior ''allowed'' (PBool False) = Inr a" "truthy a"
    using n by (auto simp: narrower_capability_def result_simps)
  then obtain oc pd where oc: "dget_or old ''capabilities'' (PDict []) = PDict oc" "prior = PDict pd" "dget_or oc c (PDict []) = PDict pd"
    by (auto simp: get_attr_def split: pyval.splits)
  have has: "dhas oc c"
    using p oc by (cases "map_of oc c") (auto simp: dget_or_def dhas_def)
  then have eq: "dget oc c = PDict pd" "dget old ''capabilities'' = PDict oc"
    using oc by (auto simp: dget_or_def dget_def dhas_def split: option.splits)
  obtain b where "dget pd ''allowed'' = PBool b"
    using capability_valid [OF assms(3) eq(2) has] eq(1) by auto
  then have "dget pd ''allowed'' = PBool True"
    using p oc(2) by (auto simp: dget_or_def dget_def split: option.splits)
  then show ?thesis
    using oc(1) eq(1) by (simp add: capability_allowed_def)
qed

lemma replace_bound_Inr:
  assumes "replace_bound files meta args at = Inr (meta', msg)" "dget meta ''execution_envelope'' = PDict old"
  obtains new d rs where "envelope_load files (arg_str args ''envelope_ref'') = Inr (Some new, d, [])"
    "narrower_checks new old = Inr ()" "py_eq (dget new ''task'') (dget args ''task'')"
    "py_eq (dget new ''spec_ref'') (dget meta ''spec_ref'')" "py_eq (dget new ''task_revision'') (dget meta ''task_revision'')"
    "py_eq (dget new ''spec_revision'') (dget meta ''spec_revision'')"
    "py_eq (dget args ''envelope_revision'') (dget new ''envelope_revision'')"
    "meta' = bind_fields (dset meta ''execution_envelope_replacements'' rs) (dget args ''envelope_ref'')
        (dget args ''envelope_revision'') (dget meta ''task_revision'') new"
proof -
  let ?old = "list_of (dget_or meta ''execution_envelope_replacements'' (PList []))"
  obtain new d tr where l: "envelope_load files (arg_str args ''envelope_ref'') = Inr (Some new, d, [])"
    and n: "narrower_checks new old = Inr ()"
    and s: "successor_checks meta args new old (str_of (dget meta ''execution_envelope_ref''))
      (int_of (dget meta ''execution_envelope_revision'')) (str_of (dget meta ''execution_envelope_digest'')) = Inr ()"
    and tr: "ditem meta ''task_revision'' = Inr tr"
    and m: "meta' = bind_fields (dset meta ''execution_envelope_replacements''
        (PList (?old @ [replacement_record meta args new at]))) (dget args ''envelope_ref'')
        (dget args ''envelope_revision'') tr new"
    using assms unfolding replace_bound_def Let_def
    by (auto simp: bindE_Inr raise_if_Inr split: prod.splits option.splits)
  show thesis
    using that [OF l n] s m ditem_Inr_dget [OF tr] by (auto simp: successor_checks_def bindE_Inr raise_if_Inr)
qed

lemma envelope_load_Inr:
  assumes "envelope_load files r = Inr (Some e, d, [])"
  shows "is_envelope_ref r" "envelope_errors (PDict e) = Inr []"
  using assms
  by (auto simp: envelope_load_def bindE_Inr is_dict_iff split: if_splits envelope_source.splits)

lemma bind_fields_get [simp]:
  "dget (bind_fields meta r v t e) k =
    (if k = ''execution_envelope'' then PDict e
     else if k = ''execution_envelope_digest'' then PStr (canonical_digest e)
     else if k = ''execution_envelope_task_revision'' then t
     else if k = ''execution_envelope_revision'' then v
     else if k = ''execution_envelope_ref'' then r else dget meta k)"
  by (simp add: bind_fields_def)

lemma envelope_revision_int: "identity_errors e = [] \<Longrightarrow> \<exists>n. dget e ''envelope_revision'' = PInt n"
  by (auto simp: identity_errors_def Let_def bad_positive_def exact_int_iff split: if_splits)

section \<open>Properties\<close>

text \<open>An envelope that allows tests below \<open>src\<close>.\<close>

definition example_envelope :: "int \<Rightarrow> meta" where
  "example_envelope n = [
     (''schema_version'', PInt 1),
     (''envelope_id'', PStr (''AR-0001-e'' @ show_int n)),
     (''envelope_revision'', PInt n),
     (''task'', PStr ''AR-0001''),
     (''task_revision'', PInt (n + 3)),
     (''spec_ref'', PStr ''specs/one.json''),
     (''spec_revision'', PInt 1),
     (''outputs'', PList [PDict [(''id'', PStr ''out''), (''description'', PStr ''code'')]]),
     (''non_goals'', PList [PStr ''none'']),
     (''path_scope'', PDict [(''read'', PList [PStr ''src'']), (''write'', PList [PStr ''src''])]),
     (''command_classes'', PDict [(''test'', PDict [(''allowed'', PBool True)])]),
     (''evidence'', PList [PDict [(''id'', PStr ''run''), (''class'', PStr ''unit''), (''required'', PBool True)]]),
     (''stop_conditions'', PList [PDict [(''id'', PStr ''end''), (''kind'', PStr ''deny'')]])]"

lemma example_envelope_valid: "envelope_errors (PDict (example_envelope 1)) = Inr []" "envelope_errors (PDict (example_envelope 2)) = Inr []"
  by code_simp+

definition example_bound_task :: meta where
  "example_bound_task = [(''id'', PStr ''AR-0001''), (''task_revision'', PInt 5), (''owner'', PStr ''dev''),
     (''status'', PStr ''in_progress''), (''claim_expires'', PStr (isoformat_utc 0)), (''spec_ref'', PStr ''specs/one.json''),
     (''spec_revision'', PInt 1), (''execution_envelope_ref'', PStr ''env/one.json''), (''execution_envelope_revision'', PInt 1),
     (''execution_envelope_task_revision'', PInt 4), (''execution_envelope_digest'', PStr (canonical_digest (example_envelope 1))),
     (''execution_envelope'', PDict (example_envelope 1))]"

definition example_roots :: scope_roots where
  "example_roots = \<lparr>state_root = False, source_root = None, lstat = (\<lambda>_ _. Some FileDirectory)\<rparr>"


lemma in_range_0 [simp]: "in_range 0"
  by (simp add: in_range_def max_us_def max_ordinal_def day_us_def second_us_def)

lemma from_iso_z_isoformat: "in_range t \<Longrightarrow> from_iso_z (isoformat_utc t) = Inr (Aware (truncate_us t) 0)"
  by (simp add: from_iso_z_def replace_Z_isoformat fromisoformat_isoformat)

lemma example_bound: "bound_envelope example_bound_task = Inr (Inr (example_envelope 1))"
  unfolding bound_envelope_Inr using example_envelope_valid(1)
  by (simp add: example_bound_task_def) (simp add: example_envelope_def)

lemma example_admitted:
  "\<exists>p. envelope_preflight (- 1) example_roots example_bound_task ''dev'' ''test'' [''src/a''] False = Inr p \<and> adm_allowed p"
proof -
  have own: "dget example_bound_task ''owner'' = PStr ''dev''" "dget example_bound_task ''status'' = PStr ''in_progress''"
      "source_root example_roots = None"
    by (simp_all add: example_bound_task_def example_roots_def)
  have lease: "lease_denial (- 1) example_bound_task = Inr None"
    unfolding lease_denial_None by (simp add: example_bound_task_def from_iso_z_isoformat truncate_us_def)
  have cls: "class_allowed (example_envelope 1) ''test''"
    by (simp add: class_allowed_def example_envelope_def ENVELOPE_CLASSES_def)
  have cap: "capability_denial (example_envelope 1) ''test'' False = None"
    by (simp add: capability_denial_def)
  have sc: "scope_error example_roots (example_envelope 1) ''test'' [''src/a''] = None"
    by (simp add: scope_error_def mutating_def allowed_scopes_def example_envelope_def scope_denial_def declared_path_def
        partition_char_def ROOT_SELECTORS_def has_root_def scope_covers_def rstrip_slash_def starts_with_def scope_lookup_def
        path_parts_def envelope_scope_path_def example_roots_def)
  show ?thesis
    using lease cls cap sc own by (simp add: envelope_preflight_def admit_envelope_def example_bound)
qed


text \<open>Property C22. A successful replacement binds a successor that the preflight accepts as the task's
  envelope and that grants nothing its predecessor did not: its path scopes are contained in the
  old ones, and every command class and capability it allows was allowed before.\<close>

theorem replace_bound_narrows:
  assumes "replace_bound files meta args at = Inr (meta', msg)"
    and "dget meta ''execution_envelope'' = PDict old" "envelope_errors (PDict old) = Inr []"
    and "dget meta ''id'' = dget args ''task''"
  shows "\<exists>new. bound_envelope meta' = Inr (Inr new) \<and>
    (\<forall>c. set (allowed_scopes new c) \<subseteq> set (allowed_scopes old c)) \<and>
    (\<forall>c. class_allowed new c \<longrightarrow> class_allowed old c) \<and>
    (\<forall>c. capability_allowed new c \<longrightarrow> capability_allowed old c)"
proof -
  obtain new d rs where l: "envelope_load files (arg_str args ''envelope_ref'') = Inr (Some new, d, [])"
    and n: "narrower_checks new old = Inr ()"
    and eqs: "py_eq (dget new ''task'') (dget args ''task'')" "py_eq (dget new ''spec_ref'') (dget meta ''spec_ref'')"
      "py_eq (dget new ''task_revision'') (dget meta ''task_revision'')"
      "py_eq (dget new ''spec_revision'') (dget meta ''spec_revision'')"
      "py_eq (dget args ''envelope_revision'') (dget new ''envelope_revision'')"
    and m: "meta' = bind_fields (dset meta ''execution_envelope_replacements'' rs) (dget args ''envelope_ref'')
        (dget args ''envelope_revision'') (dget meta ''task_revision'') new"
    using assms(1,2) by (rule replace_bound_Inr)
  note new = envelope_load_Inr [OF l]
  have newe: "identity_errors new = []" "rule_errors new = Inr []"
    using new(2) by (auto elim: envelope_errors_Nil)
  have olde: "capability_errors old = []" "rule_errors old = Inr []"
    using assms(3) by (auto elim: envelope_errors_Nil)
  obtain k where "dget new ''envelope_revision'' = PInt k"
    using envelope_revision_int [OF newe(1)] by blast
  then have rev: "py_eq (dget new ''envelope_revision'') (dget args ''envelope_revision'')"
    using eqs(5) by (simp add: py_eq_PInt_right)
  have "is_str (dget args ''envelope_ref'')"
    using new(1) by (cases "dget args ''envelope_ref''") (auto simp: arg_str_def str_of_def is_envelope_ref_def is_reference_def)
  then have bound: "bound_envelope meta' = Inr (Inr new)"
    using m new(2) eqs rev assms(4) by (auto simp: bound_envelope_Inr)
  obtain classes where cl: "dget old ''command_classes'' = PDict classes"
    using rule_errors_Nil [OF olde(2)] by blast
  obtain caps where c: "narrower_scope new old ''read'' = Inr ()" "narrower_scope new old ''write'' = Inr ()"
      "for_each (narrower_rule old) (dict_of (dget new ''command_classes'')) = Inr ()"
      "dget_or new ''capabilities'' (PDict []) = PDict caps" "for_each (narrower_capability old) caps = Inr ()"
    using n by (auto simp: narrower_checks_def bindE_Inr dict_items_def split: pyval.splits)
  have "set (allowed_scopes new x) \<subseteq> set (allowed_scopes old x)" for x
    using narrower_scope_subset [OF c(1) newe(2) olde(2)] narrower_scope_subset [OF c(2) newe(2) olde(2)]
    by (simp add: allowed_scopes_def)
  then show ?thesis
    using bound class_allowed_narrower [OF c(3) cl] capability_narrower [OF c(5,4) olde(1)] by blast
qed

definition example_files :: "string \<Rightarrow> envelope_source" where
  "example_files r = (if r = ''env/two.json'' then SourcePayload [] (PDict (example_envelope 2)) else SourceSymlink)"

definition example_replace_args :: namespace where
  "example_replace_args = [(''task'', PStr ''AR-0001''), (''envelope_ref'', PStr ''env/two.json''), (''envelope_revision'', PInt 2)]"

definition example_stale_task :: meta where
  "example_stale_task = dset example_bound_task ''execution_envelope_digest'' (PStr [])"

lemma example_replacement:
  "\<exists>meta' msg. replace_bound example_files example_stale_task example_replace_args ''now'' = Inr (meta', msg)"
proof -
  have l: "envelope_load example_files ''env/two.json'' = Inr (Some (example_envelope 2), ''sha256:'' @ sha256_hex [], [])"
    using example_envelope_valid(2)
    by (simp add: envelope_load_def example_files_def is_envelope_ref_def is_reference_def is_alnum_def is_lower_def lower_letters_def
        starts_with_def path_parts_def)
  have n: "narrower_checks (example_envelope 2) (example_envelope 1) = Inr ()"
    by code_simp
  have b: "dget example_stale_task ''execution_envelope'' = PDict (example_envelope 1)"
      "dget example_stale_task ''execution_envelope_ref'' = PStr ''env/one.json''"
      "dget example_stale_task ''execution_envelope_revision'' = PInt 1"
      "dget example_stale_task ''execution_envelope_task_revision'' = PInt 4"
      "dget example_stale_task ''execution_envelope_digest'' = PStr []"
      "dget_or example_stale_task ''execution_envelope_replacements'' (PList []) = PList []"
      "ditem example_stale_task ''task_revision'' = Inr (PInt 5)" "dget example_replace_args ''envelope_ref'' = PStr ''env/two.json''"
    by (simp_all add: example_stale_task_def example_bound_task_def example_replace_args_def)
  have s: "successor_checks example_stale_task example_replace_args (example_envelope 2) (example_envelope 1) ''env/one.json'' 1 [] = Inr ()"
    by (simp add: successor_checks_def example_stale_task_def example_bound_task_def example_replace_args_def example_envelope_def
        canonical_digest_def digest_def show_int_def show_nat.simps digits_def)
  show ?thesis
    using l n s b by (simp add: replace_bound_def arg_str_def)
qed

theorem replace_bound_narrows_witness:
  "\<exists>meta' msg new. replace_bound example_files example_stale_task example_replace_args ''now'' = Inr (meta', msg) \<and>
    bound_envelope meta' = Inr (Inr new) \<and> set (allowed_scopes new ''test'') \<subseteq> set (allowed_scopes (example_envelope 1) ''test'')"
proof -
  obtain meta' msg where r: "replace_bound example_files example_stale_task example_replace_args ''now'' = Inr (meta', msg)"
    using example_replacement by blast
  have "dget example_stale_task ''execution_envelope'' = PDict (example_envelope 1)"
    "dget example_stale_task ''id'' = dget example_replace_args ''task''"
    by (simp_all add: example_stale_task_def example_bound_task_def example_replace_args_def)
  then show ?thesis
    using replace_bound_narrows [OF r _ example_envelope_valid(1)] r by blast
qed

text \<open>What an item of a scope stands for: where it appears below the sandbox worktree, and what is mounted there.\<close>

definition scope_destination :: "string \<Rightarrow> string" where
  "scope_destination declared =
     (let (root_name, relative, _) = declared_path declared in
      if map_of ROOT_SELECTORS declared \<noteq> None then root_name @ ''/.''
      else if CHR '':'' \<in> set declared then root_name @ ''/'' @ relative else relative)"

definition scope_source :: "string \<Rightarrow> string \<times> string list" where
  "scope_source declared =
     (let (root_name, relative, _) = declared_path declared in
      (if starts_with relative ''/'' then ''/'' else root_name, path_parts relative))"

lemma path_parts_trivial [simp]: "path_parts [] = []" "path_parts ''.'' = []"
  by (simp_all add: path_parts_def)

lemma mount_source_Inr:
  "mount_source roots root_name relative = Inr src \<Longrightarrow>
     src = (if starts_with relative ''/'' then ''/'' else root_name, path_parts relative) \<and> link_free (lstat roots (fst src)) (snd src)"
  by (auto simp: mount_source_def Let_def bindE_Inr raise_if_Inr envelope_scope_path_Inr link_free_def
      scope_walk_Inr [of _ "[]", simplified] split: if_splits)

lemma partition_sep: "partition_char c s = (a, sep, b) \<Longrightarrow> sep \<longleftrightarrow> c \<in> set s"
  by (auto simp: partition_char_def split: if_splits)

lemma selectors_plain: "map_of ROOT_SELECTORS s = Some r \<Longrightarrow> CHR '':'' \<notin> set s"
  by (auto simp: ROOT_SELECTORS_def split: if_splits)

lemma sandbox_mount_Inr:
  assumes "sandbox_mount roots item mode = Inr m"
  shows "m = (scope_destination (py_str item), scope_source (py_str item), mode)"
    "link_free (lstat roots (fst (scope_source (py_str item)))) (snd (scope_source (py_str item)))"
    "fst (scope_source (py_str item)) = ''/'' \<or> has_root roots (fst (scope_source (py_str item)))"
proof -
  let ?s = "py_str item"
  obtain prefix sep rest where p: "partition_char CHR '':'' ?s = (prefix, sep, rest)" by (cases "partition_char CHR '':'' ?s")
  have c: "sep \<longleftrightarrow> CHR '':'' \<in> set ?s" using p by (rule partition_sep)
  have free: "link_free kind []" for kind by (simp add: link_free_def)
  have dot: "\<not> starts_with ''.'' ''/''" "\<not> starts_with [] ''/''" by (simp_all add: starts_with_def)
  define r where "r = (case map_of ROOT_SELECTORS ?s of Some r \<Rightarrow> r | None \<Rightarrow> if sep then prefix else ''product'')"
  define rel where "rel = (if map_of ROOT_SELECTORS ?s \<noteq> None then ''.'' else if sep then rest else ?s)"
  have src: "scope_source ?s = (if starts_with rel ''/'' then ''/'' else r, path_parts rel)"
    using p dot by (cases "map_of ROOT_SELECTORS ?s") (simp_all add: scope_source_def declared_path_def r_def rel_def)
  have dst: "scope_destination ?s = (if sep \<or> map_of ROOT_SELECTORS ?s \<noteq> None then r @ ''/'' @ rel else rel)"
    using p c by (cases "map_of ROOT_SELECTORS ?s") (simp_all add: scope_destination_def declared_path_def r_def rel_def)
  have step: "sandbox_mount roots item mode =
      bindE (raise_if (\<not> has_root roots r) (RuntimeError ''execution envelope path scope has an unavailable root'')) (\<lambda>_.
      bindE (if rel = ''.'' then Inr (r, []) else mount_source roots r rel) (\<lambda>source.
      Inr (if sep \<or> map_of ROOT_SELECTORS ?s \<noteq> None then r @ ''/'' @ rel else rel, source, mode)))"
    using p by (simp add: sandbox_mount_def Let_def r_def rel_def)
  obtain source where source: "has_root roots r" "(if rel = ''.'' then Inr (r, []) else mount_source roots r rel) = Inr source"
    "m = (scope_destination ?s, source, mode)"
    using assms unfolding step dst by (auto simp: bindE_Inr raise_if_Inr)
  have ok: "source = scope_source ?s" "link_free (lstat roots (fst source)) (snd source)"
    using source(2) mount_source_Inr [of roots r rel source] free dot unfolding src by (cases "rel = ''.''", auto)+
  show "m = (scope_destination ?s, scope_source ?s, mode)" using source(3) ok(1) by simp
  show "link_free (lstat roots (fst (scope_source ?s))) (snd (scope_source ?s))" using ok(2) unfolding ok(1) .
  show "fst (scope_source ?s) = ''/'' \<or> has_root roots (fst (scope_source ?s))" using source(1) by (simp add: src)
qed

lemma map_result_all:
  "map_result f xs = Inr ys \<Longrightarrow> (\<And>x y. f x = Inr y \<Longrightarrow> y = g x \<and> P y) \<Longrightarrow> ys = map g xs \<and> (\<forall>y \<in> set ys. P y)"
  by (induction xs arbitrary: ys) (fastforce simp: result_simps)+

lemma accepted_item_relative:
  assumes "path_error field item = None"
  shows "\<not> starts_with (fst (snd (declared_path (py_str item)))) ''/''"
proof -
  obtain s where s: "item = PStr s" using path_error_str [OF assms] by (auto simp: is_str_iff)
  have "\<not> starts_with t ''/''" if "is_envelope_ref t" for t
    using that by (cases t) (auto simp: is_envelope_ref_def is_reference_def starts_with_def is_alnum_def is_lower_def is_upper_def is_digit_def
      lower_letters_def upper_letters_def digits_def)
  then show ?thesis
    using assms by (auto simp: s path_error_def declared_path_def Let_def starts_with_def dest: weak_map_of_SomeI
      split: prod.splits if_splits option.splits)
qed

lemma accepted_root:
  assumes "path_error field item = None"
  shows "fst (scope_source (py_str item)) \<noteq> ''/''"
proof -
  obtain s where s: "item = PStr s" using path_error_str [OF assms] by (auto simp: is_str_iff)
  have "fst (declared_path s) \<in> set ROOT_NAMES"
    using assms by (auto simp: s path_error_def declared_path_def Let_def ROOT_NAMES_def ROOT_SELECTORS_def split: prod.splits if_splits option.splits)
  then show ?thesis
    using accepted_item_relative [OF assms] by (auto simp: s scope_source_def ROOT_NAMES_def split: prod.splits)
qed

text \<open>
  Property C23. When the sandbox mounts are built, the writable ones are, in order, one for each item of the write scope,
  and the others are one for each item of the read scope and the read-only Git metadata when that is allowed: each item is
  mounted from the path it names to the place it names. No mounted source has a link, a missing component or a step to a
  parent directory below its root. The root is one of the roots of the command, except that an absolute item is mounted
  from the file system's own root; when every item of the scopes is one that the validator of envelopes accepts, no item
  is absolute.
\<close>

theorem sandbox_mounts_scoped:
  assumes "envelope_sandbox_mounts roots read_scope write_scope git_metadata = Inr mounts"
  shows "filter (\<lambda>(_, _, mode). mode = ''--bind'') mounts =
      map (\<lambda>i. (scope_destination (py_str i), scope_source (py_str i), ''--bind'')) write_scope \<and>
    filter (\<lambda>(_, _, mode). mode \<noteq> ''--bind'') mounts =
      map (\<lambda>i. (scope_destination (py_str i), scope_source (py_str i), ''--ro-bind'')) read_scope @
      (if git_metadata then [(if state_root roots then ''product/.git'' else ''.git'', (''product'', [''.git'']), ''--ro-bind'')] else []) \<and>
    (\<forall>(_, (base, parts), _) \<in> set mounts. link_free (lstat roots base) parts \<and> (base = ''/'' \<or> has_root roots base)) \<and>
    ((\<forall>i \<in> set (read_scope @ write_scope). path_error field i = None) \<longrightarrow> (\<forall>(_, (base, _), _) \<in> set mounts. base \<noteq> ''/''))"
proof -
  let ?ok = "\<lambda>(_, (base, parts), _). link_free (lstat roots base) parts \<and> (base = ''/'' \<or> has_root roots base)"
  let ?m = "\<lambda>mode i. (scope_destination (py_str i), scope_source (py_str i), mode)"
  let ?git = "[(if state_root roots then ''product/.git'' else ''.git'', (''product'', [''.git'']), ''--ro-bind'')]"
  obtain reads writes where m: "map_result (\<lambda>i. sandbox_mount roots i ''--ro-bind'') read_scope = Inr reads"
      "map_result (\<lambda>i. sandbox_mount roots i ''--bind'') write_scope = Inr writes"
    and all: "mounts = reads @ (if git_metadata then ?git else []) @ writes" "git_metadata \<Longrightarrow> link_free (lstat roots ''product'') [''.git'']"
    using assms by (auto simp: envelope_sandbox_mounts_def bindE_Inr envelope_scope_path_Inr split: if_splits)
  have one: "sandbox_mount roots i mode = Inr y \<Longrightarrow> y = ?m mode i \<and> ?ok y" for i mode y
    using sandbox_mount_Inr [of roots i mode y] by (auto split: prod.splits)
  have r: "reads = map (?m ''--ro-bind'') read_scope \<and> (\<forall>y \<in> set reads. ?ok y)" by (rule map_result_all [OF m(1) one])
  have w: "writes = map (?m ''--bind'') write_scope \<and> (\<forall>y \<in> set writes. ?ok y)" by (rule map_result_all [OF m(2) one])
  have "filter (\<lambda>(_, _, mode). mode = ''--bind'') mounts = map (?m ''--bind'') write_scope"
    using r w by (simp add: all(1) filter_map o_def)
  moreover have "filter (\<lambda>(_, _, mode). mode \<noteq> ''--bind'') mounts = map (?m ''--ro-bind'') read_scope @ (if git_metadata then ?git else [])"
    using r w by (simp add: all(1) filter_map o_def)
  moreover have "\<forall>y \<in> set mounts. ?ok y"
  proof -
    have "\<forall>y \<in> set (if git_metadata then ?git else []). ?ok y" using all(2) by (simp add: has_root_def)
    then show ?thesis unfolding all(1) set_append ball_Un using conjunct2 [OF r] conjunct2 [OF w] by blast
  qed
  moreover have "\<forall>(_, (base, _), _) \<in> set mounts. base \<noteq> ''/''" if p: "\<forall>i \<in> set (read_scope @ write_scope). path_error field i = None"
  proof -
    have "fst (scope_source (py_str i)) \<noteq> ''/''" if "i \<in> set (read_scope @ write_scope)" for i
      using accepted_root [of field i] p that by auto
    then have "\<forall>y \<in> set mounts. fst (fst (snd y)) \<noteq> ''/''"
      unfolding all(1) conjunct1 [OF r] conjunct1 [OF w] by auto
    then show ?thesis by fastforce
  qed
  ultimately show ?thesis by blast
qed

theorem sandbox_mounts_scoped_witness:
  "\<exists>mounts. envelope_sandbox_mounts example_roots [PStr ''docs''] [PStr ''src''] False = Inr mounts \<and>
    filter (\<lambda>(_, _, mode). mode = ''--bind'') mounts = [(scope_destination ''src'', scope_source ''src'', ''--bind'')]"
proof -
  have m: "envelope_sandbox_mounts example_roots [PStr ''docs''] [PStr ''src''] False =
      Inr [(''docs'', (''product'', [''docs'']), ''--ro-bind''), (''src'', (''product'', [''src'']), ''--bind'')]"
    by (simp add: envelope_sandbox_mounts_def sandbox_mount_def mount_source_def partition_char_def ROOT_SELECTORS_def has_root_def
        envelope_scope_path_def path_parts_def example_roots_def Let_def starts_with_def)
  show ?thesis
    using sandbox_mounts_scoped [OF m] m by simp
qed

section \<open>Two gaps of the checks\<close>

text \<open>A mutating command may name a last component that is a link or the parent directory: only the
  components before it are examined once the full lookup has failed.\<close>

lemma mutating_leaf_unchecked:
  assumes "mutating command_class" "2 \<le> length (path_parts relative)" "link_free kind (butlast (path_parts relative))"
  shows "scope_lookup kind command_class relative = None"
  using assms by (simp add: scope_lookup_None)

text \<open>A successor rule without \<open>timeout_seconds\<close> passes although its predecessor had a limit.\<close>

lemma dropped_timeout_accepted:
  assumes "dget old ''command_classes'' = PDict classes" "dget classes name = PDict [(''allowed'', PBool True), (''timeout_seconds'', PInt n)]"
    and "0 \<le> n"
  shows "narrower_rule old (name, PDict [(''allowed'', PBool True)]) = Inr ()"
proof -
  have "ditem old ''command_classes'' = Inr (PDict classes)"
    using assms(1) dget_not_None_dhas [of old "''command_classes''"] by (simp add: ditem_eq)
  moreover have "dget_or classes name w = PDict [(''allowed'', PBool True), (''timeout_seconds'', PInt n)]" for w
    using assms(2) by (auto simp: dget_or_def dget_def split: option.splits)
  ultimately show ?thesis
    using assms(3) by (simp add: narrower_rule_def py_gt_def)
qed

end
