(* ===== verification/Claims.thy ===== *)
theory Claims
  imports Execution_Envelope
begin

text \<open>
  Claims and their process identities, from \<open>src/tools/handoffctl.py\<close>: the lease a claim carries, the worker
  identity recorded with it, and the guards that the lifecycle handlers share. The handlers read the
  clock, the process table and the role store through \<open>runtime\<close>; a handler reads the clock once.
\<close>

section \<open>The runtime\<close>

text \<open>\<open>rt_now\<close> is \<open>datetime.now(UTC)\<close> in microseconds, \<open>rt_start_time\<close> is \<open>process_start_time\<close>, \<open>rt_scope\<close> is
  \<open>worker_execution_scope\<close> (boot digest and process namespace) and \<open>rt_role\<close> is the role admission of
  an owner, which raises when the role store denies it.\<close>

record runtime =
  rt_now :: int
  rt_start_time :: "int \<Rightarrow> int option result"
  rt_scope :: "(string \<times> string) result"
  rt_role :: "string \<Rightarrow> string \<Rightarrow> unit result"

definition now_text :: "runtime \<Rightarrow> string" where
  "now_text rt = isoformat_utc (truncate_us (rt_now rt))"

definition require_role_admission :: "runtime \<Rightarrow> string \<Rightarrow> unit result" where
  "require_role_admission rt owner = rt_role rt owner ''implementer''"

section \<open>Leases\<close>

definition parse_claim_expiry :: "pyval \<Rightarrow> int result" where
  "parse_claim_expiry v =
     (if \<not> is_str v \<or> str_of v = [] then Inl (ValueError ''missing or non-string claim expiry'')
      else bindE (from_iso_z (str_of v)) (\<lambda>t.
        case t of Naive _ \<Rightarrow> Inl (ValueError ''claim expiry lacks timezone'')
        | Aware l off \<Rightarrow> astimezone_utc l off))"

definition lease_text :: "runtime \<Rightarrow> pyval \<Rightarrow> pyval result" where
  "lease_text rt minutes = bindE (lease_end (rt_now rt) (int_of minutes)) (\<lambda>s. Inr (PStr s))"

definition is_type_error :: "exc \<Rightarrow> bool" where
  "is_type_error e = (case e of TypeError _ \<Rightarrow> True | _ \<Rightarrow> False)"

definition active_expiry_errors :: "runtime \<Rightarrow> string \<Rightarrow> pyval \<Rightarrow> string list result" where
  "active_expiry_errors rt task_id expiry =
     (if \<not> truthy expiry then Inr [task_id @ '': active without claim'']
      else case parse_claim_expiry expiry of
        Inl e \<Rightarrow> if is_type_error e \<or> is_value_error e then Inr [task_id @ '': invalid claim expiry''] else Inl e
      | Inr t \<Rightarrow> Inr (if t \<le> rt_now rt then [task_id @ '': expired claim''] else []))"

section \<open>Worker identities\<close>

definition is_namespace_id :: "string \<Rightarrow> bool" where
  "is_namespace_id s = (case split_on CHR '':'' s of
     [a, b] \<Rightarrow> a \<noteq> [] \<and> b \<noteq> [] \<and> list_all is_digit a \<and> list_all is_digit b | _ \<Rightarrow> False)"

definition LEGACY_IDENTITY :: "string list" where
  "LEGACY_IDENTITY = [''pid'', ''start_time'']"

definition SCOPED_IDENTITY :: "string list" where
  "SCOPED_IDENTITY = [''pid'', ''start_time'', ''boot_digest'', ''pid_namespace'']"

definition valid_claim_process :: "pyval \<Rightarrow> bool" where
  "valid_claim_process v =
     (let d = dict_of v; boot = dget d ''boot_digest''; ns = dget d ''pid_namespace'' in
      is_dict v \<and> (keys_exact d LEGACY_IDENTITY \<or> keys_exact d SCOPED_IDENTITY) \<and>
      exact_int (dget d ''pid'') \<and> 0 < int_of (dget d ''pid'') \<and>
      exact_int (dget d ''start_time'') \<and> 0 \<le> int_of (dget d ''start_time'') \<and>
      (keys_exact d LEGACY_IDENTITY \<or>
       is_str boot \<and> is_digest (str_of boot) \<and> is_str ns \<and> is_namespace_id (str_of ns)))"

definition scoped_claim_process :: "pyval \<Rightarrow> bool" where
  "scoped_claim_process v = (is_dict v \<and> keys_exact (dict_of v) SCOPED_IDENTITY \<and> valid_claim_process v)"

definition claimed_process_identity :: "runtime \<Rightarrow> namespace \<Rightarrow> meta option result" where
  "claimed_process_identity rt args =
     (let pid = dget args ''worker_pid''; start = dget args ''worker_start_time'' in
      if pid = PNone \<and> start = PNone then Inr None
      else
        bindE (raise_if (\<not> exact_int pid \<or> int_of pid \<le> 0 \<or> \<not> exact_int start \<or> int_of start < 0)
                 (RuntimeError ''claim worker identity requires positive --worker-pid and --worker-start-time'')) (\<lambda>_.
        bindE (rt_start_time rt (int_of pid)) (\<lambda>actual.
        bindE (raise_if (actual \<noteq> Some (int_of start))
                 (RuntimeError ''claim worker identity is not a live matching process'')) (\<lambda>_.
        bindE (rt_scope rt) (\<lambda>(boot, ns).
        Inr (Some [(''pid'', pid), (''start_time'', start), (''boot_digest'', PStr boot), (''pid_namespace'', PStr ns)]))))))"

definition require_claimed_worker_absent :: "runtime \<Rightarrow> meta \<Rightarrow> unit result" where
  "require_claimed_worker_absent rt meta =
     (let identity = dget meta ''claim_process''; d = dict_of identity in
      bindE (raise_if (\<not> scoped_claim_process identity)
               (RuntimeError ''snapshot-less recovery requires a scope-bound claim-time worker identity'')) (\<lambda>_.
      bindE (rt_scope rt) (\<lambda>(boot, ns).
      bindE (raise_if (dget d ''boot_digest'' \<noteq> PStr boot \<or> dget d ''pid_namespace'' \<noteq> PStr ns)
               (RuntimeError ''snapshot-less recovery cannot verify the claim execution scope'')) (\<lambda>_.
      bindE (rt_start_time rt (int_of (dget d ''pid''))) (\<lambda>actual.
      raise_if (actual = Some (int_of (dget d ''start_time'')))
        (RuntimeError ''former worker process is still alive''))))))"

definition legacy_recovery_admitted :: "runtime \<Rightarrow> namespace \<Rightarrow> meta \<Rightarrow> bool result" where
  "legacy_recovery_admitted rt args meta =
     (if \<not> truthy (dget_or args ''allow_legacy_without_identity'' (PBool False)) then Inr False
      else if dhas meta ''claim_process'' then Inr False
      else bindE (parse_claim_expiry (dget meta ''claim_expires'')) (\<lambda>t. Inr (t \<le> rt_now rt)))"

definition attach_claim_process :: "runtime \<Rightarrow> namespace \<Rightarrow> meta \<Rightarrow> meta result" where
  "attach_claim_process rt args meta =
     bindE (claimed_process_identity rt args) (\<lambda>identity.
     Inr (case identity of None \<Rightarrow> dpop meta ''claim_process''
          | Some d \<Rightarrow> dset (dpop meta ''claim_process'') ''claim_process'' (PDict d)))"

section \<open>Shared guards\<close>

definition live_execution_reservation :: "runtime \<Rightarrow> meta \<Rightarrow> meta option result" where
  "live_execution_reservation rt meta =
     (let v = dget meta ''execution_reservation'' in
      bindE (valid_reservation v) (\<lambda>ok.
      if \<not> ok then Inr None
      else bindE (from_iso_z (py_str (dget (dict_of v) ''expires_at''))) (\<lambda>t.
           bindE (dt_le t (Aware (rt_now rt) 0)) (\<lambda>expired.
           Inr (if expired then None else Some (dict_of v))))))"

definition require_no_execution_reservation :: "meta \<Rightarrow> unit result" where
  "require_no_execution_reservation meta =
     raise_if (dget meta ''execution_reservation'' \<noteq> PNone)
       (RuntimeError ''EXECUTION_RECOVERY_REQUIRED: task has a bound execution reservation'')"

definition stale_revision :: "pyval \<Rightarrow> pyval \<Rightarrow> exc" where
  "stale_revision expected current =
     RuntimeError (''stale revision: expected '' @ py_str expected @ '', current '' @ py_str current)"

definition require_revision :: "namespace \<Rightarrow> meta \<Rightarrow> unit result" where
  "require_revision args meta =
     bindE (ditem meta ''task_revision'') (\<lambda>current.
     raise_if (\<not> py_eq (dget args ''expected_revision'') current) (stale_revision (dget args ''expected_revision'') current))"

definition require_optional_revision :: "namespace \<Rightarrow> meta \<Rightarrow> unit result" where
  "require_optional_revision args meta =
     (if dget args ''expected_revision'' = PNone then Inr () else require_revision args meta)"

definition require_owner :: "namespace \<Rightarrow> meta \<Rightarrow> unit result" where
  "require_owner args meta =
     raise_if (\<not> py_eq (dget meta ''owner'') (dget args ''owner''))
       (RuntimeError (py_str (dget args ''task'') @ '' is owned by '' @
         (if truthy (dget meta ''owner'') then py_str (dget meta ''owner'') else ''nobody'')))"

text \<open>\<open>if parse_claim_expiry(...) <= now: raise RuntimeError(text)\<close> with \<open>except ValueError\<close> raising the same.\<close>

definition require_unexpired :: "runtime \<Rightarrow> meta \<Rightarrow> string \<Rightarrow> unit result" where
  "require_unexpired rt meta text =
     bindE (value_to (RuntimeError text) (parse_claim_expiry (dget meta ''claim_expires''))) (\<lambda>t.
     raise_if (t \<le> rt_now rt) (RuntimeError text))"

definition require_active_binding_owner :: "runtime \<Rightarrow> namespace \<Rightarrow> meta \<Rightarrow> unit result" where
  "require_active_binding_owner rt args meta =
     bindE (require_owner args meta) (\<lambda>_.
     bindE (require_role_admission rt (py_str (dget args ''owner''))) (\<lambda>_.
     bindE (raise_if (dget meta ''status'' \<noteq> PStr ''in_progress'')
              (RuntimeError ''bind-worktree requires an active task'')) (\<lambda>_.
     bindE (require_unexpired rt meta ''bind-worktree requires an unexpired owner lease'') (\<lambda>_.
     require_revision args meta))))"

section \<open>Facts\<close>

lemma require_revision_Inr:
  "require_revision args meta = Inr u \<longleftrightarrow> dhas meta ''task_revision'' \<and> py_eq (dget args ''expected_revision'') (dget meta ''task_revision'')"
  by (auto simp: require_revision_def bindE_Inr raise_if_Inr ditem_eq)

lemma require_owner_Inr: "require_owner args meta = Inr u \<longleftrightarrow> py_eq (dget meta ''owner'') (dget args ''owner'')"
  by (simp add: require_owner_def raise_if_Inr)

lemma require_unexpired_Inr:
  "require_unexpired rt meta text = Inr u \<longleftrightarrow> (\<exists>t. parse_claim_expiry (dget meta ''claim_expires'') = Inr t \<and> rt_now rt < t)"
  by (auto simp: require_unexpired_def bindE_Inr value_to_Inr raise_if_Inr not_le)

lemma require_no_execution_reservation_Inr:
  "require_no_execution_reservation meta = Inr u \<longleftrightarrow> dget meta ''execution_reservation'' = PNone"
  by (simp add: require_no_execution_reservation_def raise_if_Inr)

lemma active_binding_owner_Inr:
  "require_active_binding_owner rt args meta = Inr u \<longleftrightarrow>
     py_eq (dget meta ''owner'') (dget args ''owner'') \<and> rt_role rt (py_str (dget args ''owner'')) ''implementer'' = Inr () \<and>
     dget meta ''status'' = PStr ''in_progress'' \<and>
     (\<exists>t. parse_claim_expiry (dget meta ''claim_expires'') = Inr t \<and> rt_now rt < t) \<and>
     dhas meta ''task_revision'' \<and> py_eq (dget args ''expected_revision'') (dget meta ''task_revision'')"
  by (auto simp: require_active_binding_owner_def bindE_Inr raise_if_Inr require_owner_Inr require_role_admission_def
      require_unexpired_Inr require_revision_Inr)

lemmas guard_simps = require_revision_Inr require_owner_Inr require_unexpired_Inr require_no_execution_reservation_Inr
  active_binding_owner_Inr require_role_admission_def

lemma valid_reservation_True:
  "valid_reservation v = Inr True \<longleftrightarrow>
    (\<exists>d owner c. v = PDict d \<and> keys_exact d RESERVATION_FIELDS \<and> text_matches (all_hex 32) d ''execution_id'' \<and>
      dget d ''owner'' = PStr owner \<and> owner \<noteq> [] \<and> length owner \<le> 128 \<and> \<not> bad_positive d ''task_revision'' \<and>
      text_matches is_digest d ''envelope_digest'' \<and> dget d ''command_class'' = PStr c \<and> c \<in> set ENVELOPE_CLASSES \<and>
      text_matches is_digest d ''scope_digest'' \<and> text_matches (all_hex 64) d ''argv_digest'' \<and> aware_text d ''expires_at'')"
proof (cases v)
  case (PDict d)
  show ?thesis
    unfolding PDict valid_reservation_def Let_def
    by (cases "dget d ''owner''"; cases "dget d ''command_class''") (auto simp: andE_Inr_True hash_in_def)
qed (simp_all add: valid_reservation_def)

text \<open>A lease printed by the coordinator is read back by \<open>parse_claim_expiry\<close>.\<close>

lemma parse_claim_expiry_instant:
  "s \<noteq> [] \<Longrightarrow> parse_instant e s = Inr t \<Longrightarrow> parse_claim_expiry (PStr s) = Inr t"
  by (auto simp: parse_claim_expiry_def parse_instant_def split: sum.splits datetime.splits)

lemma lease_text_live:
  assumes "lease_text rt m = Inr v" "0 < int_of m"
  shows "\<exists>t. parse_claim_expiry v = Inr t \<and> rt_now rt < t" "truthy v"
proof -
  obtain s where s: "lease_end (rt_now rt) (int_of m) = Inr s" "v = PStr s"
    using assms(1) by (auto simp: lease_text_def bindE_Inr)
  note p = lease_end_parses [OF s(1)]
  show "\<exists>t. parse_claim_expiry v = Inr t \<and> rt_now rt < t"
    using parse_claim_expiry_instant [OF p(2) p(1) [of "ValueError []"]]
      lease_end_future [OF s(1) assms(2) p(1) [of "ValueError []"]] s(2) by blast
  show "truthy v" using p(2) s(2) by simp
qed

end
