(* ===== verification/Execution_Fence.thy ===== *)
theory Execution_Fence
  imports Claims
begin

text \<open>
  The execution fence: \<open>src/tools/execution_lifecycle.py\<close> with the receipts of \<open>execution_receipt.py\<close> and
  the audit records of \<open>execution_abandonment.py\<close>. A bound command reserves the task, records its
  terminal receipt and clears the reservation; an expired reservation is recovered with its
  receipt or abandoned with an audit record.
\<close>

section \<open>Receipts\<close>

definition RECEIPT_FIELDS :: "string list" where
  "RECEIPT_FIELDS = [''execution_id'', ''owner'', ''envelope_digest'', ''argv_digest'', ''classification'', ''returncode'', ''recorded_at'']"

definition receipt_valid :: "pyval \<Rightarrow> bool result" where
  "receipt_valid v =
     (let d = dict_of v; owner = dget d ''owner'' in
      andE (Inr (is_dict v \<and> keys_exact d RECEIPT_FIELDS \<and> text_matches (all_hex 32) d ''execution_id'' \<and>
              is_str owner \<and> str_of owner \<noteq> [] \<and> text_matches is_digest d ''envelope_digest'' \<and>
              text_matches (all_hex 64) d ''argv_digest''))
        (andE (hash_in (dget d ''classification'') [''EXIT'', ''SUBPROCESS_TIMEOUT''])
          (Inr (exact_int (dget d ''returncode'') \<and> aware_text d ''recorded_at''))))"

definition RECEIPT_IDENTITY :: "string list" where
  "RECEIPT_IDENTITY = [''execution_id'', ''owner'', ''envelope_digest'', ''argv_digest'']"

definition receipt_matches :: "meta \<Rightarrow> pyval \<Rightarrow> bool result" where
  "receipt_matches reservation result =
     andE (receipt_valid result)
       (all_result (\<lambda>k. bindE (ditem reservation k) (\<lambda>v. Inr (py_eq (dget (dict_of result) k) v))) RECEIPT_IDENTITY)"

definition receipt_build :: "meta \<Rightarrow> namespace \<Rightarrow> meta result" where
  "receipt_build reservation args =
     bindE (raise_if (\<not> py_eq (dget reservation ''execution_id'') (dget args ''execution_id''))
              (ValueError ''execution reservation no longer matches this command'')) (\<lambda>_.
     bindE (raise_if (\<not> py_eq (dget reservation ''owner'') (dget args ''owner''))
              (ValueError ''execution reservation owner does not match'')) (\<lambda>_.
     bindE (ditem reservation ''envelope_digest'') (\<lambda>envelope.
     bindE (ditem reservation ''argv_digest'') (\<lambda>argv.
     let result = [
       (''execution_id'', dget args ''execution_id''),
       (''owner'', dget args ''owner''),
       (''envelope_digest'', envelope),
       (''argv_digest'', argv),
       (''classification'', dget args ''classification''),
       (''returncode'', dget args ''returncode''),
       (''recorded_at'', dget args ''recorded_at'')] in
     bindE (receipt_valid (PDict result)) (\<lambda>ok.
     bindE (raise_if (\<not> ok) (ValueError ''invalid execution result'')) (\<lambda>_.
     Inr result))))))"

section \<open>Abandonment records\<close>

definition MAX_RECORDS :: nat where "MAX_RECORDS = 32"

definition reservation_digest :: "meta \<Rightarrow> string" where
  "reservation_digest r = digest (PDict r)"

definition ABANDONMENT_FIELDS :: "string list" where
  "ABANDONMENT_FIELDS = [''schema_version'', ''execution_id'', ''owner'', ''reservation_digest'', ''evidence_ref'', ''evidence_digest'', ''recorded_at'']"

definition public_evidence_ref :: "string \<Rightarrow> bool" where
  "public_evidence_ref s = (is_reference ''._/-'' 2 255 s \<and>
     list_all (\<lambda>c. c \<notin> set [''.'', ''..'', ''private'']) (split_on CHR ''/'' s))"

definition abandonment_valid :: "pyval \<Rightarrow> bool" where
  "abandonment_valid v =
     (let d = dict_of v; owner = dget d ''owner''; ref = dget d ''evidence_ref'' in
      is_dict v \<and> keys_exact d ABANDONMENT_FIELDS \<and> py_eq (dget d ''schema_version'') (PInt 1) \<and>
      text_matches (all_hex 32) d ''execution_id'' \<and> is_str owner \<and> str_of owner \<noteq> [] \<and>
      text_matches is_digest d ''reservation_digest'' \<and> is_str ref \<and> public_evidence_ref (str_of ref) \<and>
      text_matches is_digest d ''evidence_digest'' \<and> aware_text d ''recorded_at'')"

definition record_id :: "pyval \<Rightarrow> string" where
  "record_id v = py_str (dget (dict_of v) ''execution_id'')"

definition valid_records :: "pyval \<Rightarrow> bool" where
  "valid_records v = (v = PNone \<or> is_list v \<and> length (list_of v) \<le> MAX_RECORDS \<and>
     list_all abandonment_valid (list_of v) \<and> distinct (map record_id (list_of v)))"

definition abandonment_build :: "meta \<Rightarrow> namespace \<Rightarrow> string \<Rightarrow> meta result" where
  "abandonment_build reservation args recorded_at =
     bindE (ditem reservation ''owner'') (\<lambda>owner.
     let record = [
       (''schema_version'', PInt 1),
       (''execution_id'', dget args ''execution_id''),
       (''owner'', owner),
       (''reservation_digest'', PStr (reservation_digest reservation)),
       (''evidence_ref'', dget args ''evidence_ref''),
       (''evidence_digest'', dget args ''evidence_digest''),
       (''recorded_at'', PStr recorded_at)] in
     bindE (raise_if (\<not> abandonment_valid (PDict record)) (ValueError ''invalid execution abandonment evidence'')) (\<lambda>_.
     Inr record))"

section \<open>Printing an instant with its own offset\<close>

definition offset_text :: "int \<Rightarrow> string" where
  "offset_text off =
     (let a = \<bar>off\<bar>; s = a div second_us; us = a mod second_us in
      (if off < 0 then ''-'' else ''+'') @ pad2 (s div 3600) @ '':'' @ pad2 (s div 60 mod 60) @
      (if s mod 60 = 0 \<and> us = 0 then [] else '':'' @ pad2 (s mod 60)) @
      (if us = 0 then [] else ''.'' @ pad2 (us div 10000) @ pad2 (us div 100 mod 100) @ pad2 (us mod 100)))"

text \<open>\<open>t.replace(microsecond=0).isoformat()\<close>: the local part is that of \<open>isoformat_utc\<close>.\<close>

definition isoformat_at :: "int \<Rightarrow> int \<Rightarrow> string" where
  "isoformat_at l off = take 19 (isoformat_utc (truncate_us l)) @ offset_text off"

section \<open>Transitions\<close>

definition execution_start :: "runtime \<Rightarrow> namespace \<Rightarrow> meta \<Rightarrow> (meta \<times> string) result" where
  "execution_start rt args meta =
     bindE (require_active_binding_owner rt args meta) (\<lambda>_.
     bindE (raise_if (\<not> is_dict (dget meta ''execution_envelope''))
              (RuntimeError ''execution reservation requires a bound execution envelope'')) (\<lambda>_.
     bindE (live_execution_reservation rt meta) (\<lambda>live.
     bindE (raise_if (live \<noteq> None) (RuntimeError ''EXECUTION_IN_PROGRESS: bound task already has a live execution'')) (\<lambda>_.
     bindE (raise_if (dget meta ''execution_reservation'' \<noteq> PNone)
              (RuntimeError ''EXECUTION_RECOVERY_REQUIRED: expired execution reservation remains'')) (\<lambda>_.
     let execution_id = dget_or args ''execution_id'' (PStr []) in
     bindE (raise_if (\<not> all_hex 32 (py_str execution_id))
              (RuntimeError ''invalid execution reservation identifier'')) (\<lambda>_.
     bindE (value_to (RuntimeError ''invalid execution reservation expiry'')
              (from_iso_z (py_str (dget_or args ''execution_expires_at'' (PStr []))))) (\<lambda>expires.
     bindE (dt_le expires (Aware (rt_now rt) 0)) (\<lambda>past.
     bindE (raise_if past (RuntimeError ''execution reservation expiry must be in the future'')) (\<lambda>_.
     case expires of Naive _ \<Rightarrow> Inl (TypeError ''can't compare offset-naive and offset-aware datetimes'')
     | Aware l off \<Rightarrow>
         bindE (ditem meta ''task_revision'') (\<lambda>revision.
         bindE (ditem meta ''execution_envelope_digest'') (\<lambda>envelope_digest.
         let expires_at = PStr (isoformat_at l off);
             meta1 = dset meta ''execution_reservation'' (PDict [
               (''execution_id'', execution_id),
               (''owner'', dget args ''owner''),
               (''task_revision'', revision),
               (''envelope_digest'', envelope_digest),
               (''command_class'', dget args ''command_class''),
               (''scope_digest'', dget args ''scope_digest''),
               (''argv_digest'', dget args ''argv_digest''),
               (''expires_at'', expires_at)]) in
         bindE (parse_claim_expiry (dget meta ''claim_expires'')) (\<lambda>claim_expiry.
         Inr (if claim_expiry < l - off then dset meta1 ''claim_expires'' expires_at else meta1,
              ''Reserved bound execution '' @ py_str execution_id @ ''.'')))))))))))))"

text \<open>The guard that \<open>finish\<close> and \<open>result\<close> share.\<close>

definition require_reservation :: "namespace \<Rightarrow> meta \<Rightarrow> meta result" where
  "require_reservation args meta =
     (let v = dget meta ''execution_reservation'' in
      bindE (raise_if (\<not> is_dict v \<or> \<not> py_eq (dget (dict_of v) ''execution_id'') (dget args ''execution_id''))
               (RuntimeError ''execution reservation no longer matches this command'')) (\<lambda>_.
      Inr (dict_of v)))"

definition execution_finish :: "namespace \<Rightarrow> meta \<Rightarrow> (meta \<times> string) result" where
  "execution_finish args meta =
     bindE (require_reservation args meta) (\<lambda>reservation.
     bindE (raise_if (\<not> py_eq (dget reservation ''owner'') (dget args ''owner''))
              (RuntimeError ''execution reservation owner does not match'')) (\<lambda>_.
     bindE (require_optional_revision args meta) (\<lambda>_.
     bindE (receipt_matches reservation (dget meta ''execution_result'')) (\<lambda>matched.
     bindE (raise_if (\<not> matched) (RuntimeError ''execution finish requires an exact durable result'')) (\<lambda>_.
     Inr (dpop meta ''execution_reservation'', py_str (dget args ''note'')))))))"

definition execution_result :: "namespace \<Rightarrow> meta \<Rightarrow> (meta \<times> string) result" where
  "execution_result args meta =
     bindE (require_reservation args meta) (\<lambda>reservation.
     bindE (require_optional_revision args meta) (\<lambda>_.
     bindE (value_to_runtime (receipt_build reservation args)) (\<lambda>recorded.
     bindE (raise_if (py_eq (dget meta ''execution_result'') (PDict recorded))
              (IdempotentMutationError (''Execution result '' @ py_str (dget args ''execution_id'') @ '' is already recorded.''))) (\<lambda>_.
     Inr (dset meta ''execution_result'' (PDict recorded),
          ''Recorded execution result '' @ py_str (dget args ''execution_id'') @ ''.'')))))"

text \<open>The guard that \<open>recover\<close> and \<open>abandon\<close> share: a valid reservation.\<close>

definition require_valid_reservation :: "meta \<Rightarrow> string \<Rightarrow> meta result" where
  "require_valid_reservation meta text =
     (let v = dget meta ''execution_reservation'' in
      bindE (valid_reservation v) (\<lambda>ok.
      bindE (raise_if (\<not> ok) (RuntimeError text)) (\<lambda>_. Inr (dict_of v))))"

definition require_expired :: "runtime \<Rightarrow> meta \<Rightarrow> unit result" where
  "require_expired rt meta =
     bindE (live_execution_reservation rt meta) (\<lambda>live.
     raise_if (live \<noteq> None) (RuntimeError ''EXECUTION_IN_PROGRESS: execution reservation has not expired''))"

definition execution_recover :: "runtime \<Rightarrow> namespace \<Rightarrow> meta \<Rightarrow> (meta \<times> string) result" where
  "execution_recover rt args meta =
     bindE (require_optional_revision args meta) (\<lambda>_.
     bindE (require_valid_reservation meta ''execution recovery requires a valid reservation'') (\<lambda>reservation.
     bindE (require_expired rt meta) (\<lambda>_.
     bindE (require_claimed_worker_absent rt meta) (\<lambda>_.
     bindE (receipt_matches reservation (dget meta ''execution_result'')) (\<lambda>matched.
     bindE (raise_if (\<not> matched)
              (RuntimeError ''EXECUTION_RESULT_UNKNOWN: reservation-specific completion evidence is unavailable'')) (\<lambda>_.
     Inr (dpop meta ''execution_reservation'',
          ''Recovered completed execution '' @ py_str (dget reservation ''execution_id'') @ ''.'')))))))"

definition expired_claim :: "runtime \<Rightarrow> meta \<Rightarrow> bool" where
  "expired_claim rt meta =
     (let v = dget meta ''claim_expires'' in
      is_str v \<and> str_of v \<noteq> [] \<and>
      (case from_iso_z (str_of v) of Inl _ \<Rightarrow> False | Inr t \<Rightarrow> is_aware t \<and> utc_of t \<le> rt_now rt))"

definition execution_abandon :: "runtime \<Rightarrow> namespace \<Rightarrow> meta \<Rightarrow> (meta \<times> string) result" where
  "execution_abandon rt args meta =
     bindE (require_optional_revision args meta) (\<lambda>_.
     bindE (require_valid_reservation meta ''execution abandonment requires a valid reservation'') (\<lambda>reservation.
     bindE (raise_if (\<not> py_eq (dget reservation ''execution_id'') (dget args ''execution_id''))
              (RuntimeError ''execution abandonment reservation identity does not match'')) (\<lambda>_.
     bindE (require_expired rt meta) (\<lambda>_.
     bindE (if truthy (dget_or args ''allow_legacy_without_identity'' (PBool False)) \<and> \<not> dhas meta ''claim_process'' \<and> expired_claim rt meta
            then Inr () else require_claimed_worker_absent rt meta) (\<lambda>_.
     bindE (receipt_matches reservation (dget meta ''execution_result'')) (\<lambda>matched.
     bindE (raise_if matched (RuntimeError ''execution abandonment rejects a reservation with a durable result'')) (\<lambda>_.
     bindE (value_to_runtime (abandonment_build reservation args (now_text rt))) (\<lambda>record.
     bindE (py_iter (dget_or meta ''execution_abandonments'' (PList []))) (\<lambda>records.
     bindE (any_result (\<lambda>item. bindE (subscript item ''execution_id'') (\<lambda>i. Inr (py_eq i (dget record ''execution_id'')))) records) (\<lambda>seen.
     bindE (raise_if seen
              (IdempotentMutationError (''Execution '' @ py_str (dget args ''execution_id'') @ '' is already abandoned.''))) (\<lambda>_.
     bindE (raise_if (\<not> valid_records (PList (records @ [PDict record])))
              (RuntimeError ''execution abandonment history is invalid or full'')) (\<lambda>_.
     bindE (ditem meta ''owner'') (\<lambda>previous_owner.
     Inr (dpop (dset (dset (dset (dpop (dset meta ''execution_abandonments'' (PList (records @ [PDict record])))
            ''execution_reservation'') ''status'' (PStr ''open'')) ''owner'' (PStr [])) ''claim_expires'' (PStr [])) ''claim_process'',
          ''Abandoned expired execution '' @ py_str (dget args ''execution_id'') @ '' and recovered claim formerly owned by '' @
          py_str previous_owner @ '' after local evidence verification.''))))))))))))))"

section \<open>The abstract fence\<close>

text \<open>What the fence promises: a task is idle, runs one reservation, or holds the reservation together
  with its receipt.\<close>

datatype fence = Idle | Running meta | Completed meta

datatype fence_event = Reserve | Record | Finish | Recover | Abandon

definition fence_of :: "meta \<Rightarrow> fence" where
  "fence_of meta =
     (case dget meta ''execution_reservation'' of
        PDict r \<Rightarrow> if receipt_matches r (dget meta ''execution_result'') = Inr True then Completed r else Running r
      | _ \<Rightarrow> Idle)"

text \<open>A reservation is idle at first; it is completed at once only when its identifier replays the
  receipt that is still stored. It leaves the fence through its receipt or through an audit record.\<close>

inductive fence_step :: "fence_event \<Rightarrow> fence \<Rightarrow> fence \<Rightarrow> bool" where
  reserve: "fence_step Reserve Idle (Running r)"
| replay: "fence_step Reserve Idle (Completed r)"
| receipt: "fence_step Record (Running r) (Completed r)"
| correct: "fence_step Record (Completed r) (Completed r)"
| finish: "fence_step Finish (Completed r) Idle"
| recover: "fence_step Recover (Completed r) Idle"
| abandon: "fence_step Abandon (Running r) Idle"

inductive_cases fence_from_idle: "fence_step ev Idle f"
inductive_cases fence_from_running: "fence_step ev (Running r) f"

fun fence_apply :: "fence_event \<Rightarrow> runtime \<Rightarrow> namespace \<Rightarrow> meta \<Rightarrow> (meta \<times> string) result" where
  "fence_apply Reserve rt args meta = execution_start rt args meta"
| "fence_apply Record rt args meta = execution_result args meta"
| "fence_apply Finish rt args meta = execution_finish args meta"
| "fence_apply Recover rt args meta = execution_recover rt args meta"
| "fence_apply Abandon rt args meta = execution_abandon rt args meta"

section \<open>Receipts match what they were built for\<close>

lemma hex_text_basic:
  assumes "all_hex n (py_str v)" "0 < n"
  shows "is_str v \<or> is_int v"
proof (cases v)
  case PNone
  then show ?thesis using assms by (simp add: all_hex_def py_str_def is_lower_hex_def lower_hex_def)
next
  case (PList xs)
  then show ?thesis using assms by (simp add: all_hex_def py_str_def is_lower_hex_def lower_hex_def)
next
  case (PDict d)
  then show ?thesis using assms by (simp add: all_hex_def py_str_def is_lower_hex_def lower_hex_def)
qed simp_all

lemma digest_text_basic: "is_digest (py_str v) \<Longrightarrow> is_str v \<or> is_int v"
  by (cases v) (simp_all add: is_digest_def starts_with_def py_str_def)

lemma py_eq_basic_sym: "py_eq a b \<Longrightarrow> is_str b \<or> is_int b \<Longrightarrow> py_eq b a"
  by (cases a; cases b) auto

lemma py_eq_basic_refl: "is_str a \<or> is_int a \<Longrightarrow> py_eq a a"
  by (cases a) auto

lemma receipt_build_Inr:
  assumes "receipt_build r args = Inr recorded"
  shows "receipt_valid (PDict recorded) = Inr True" "py_eq (dget r ''execution_id'') (dget args ''execution_id'')"
    "py_eq (dget r ''owner'') (dget args ''owner'')"
    "recorded = [(''execution_id'', dget args ''execution_id''), (''owner'', dget args ''owner''),
      (''envelope_digest'', dget r ''envelope_digest''), (''argv_digest'', dget r ''argv_digest''),
      (''classification'', dget args ''classification''), (''returncode'', dget args ''returncode''),
      (''recorded_at'', dget args ''recorded_at'')]"
    "dhas r ''envelope_digest''" "dhas r ''argv_digest''"
proof -
  show "receipt_valid (PDict recorded) = Inr True" "py_eq (dget r ''execution_id'') (dget args ''execution_id'')"
    "py_eq (dget r ''owner'') (dget args ''owner'')"
    using assms by (auto simp: receipt_build_def bindE_Inr raise_if_Inr Let_def)
  show "dhas r ''envelope_digest''" "dhas r ''argv_digest''"
    using assms by (auto simp: receipt_build_def bindE_Inr Let_def ditem_eq split: if_splits)
  show "recorded = [(''execution_id'', dget args ''execution_id''), (''owner'', dget args ''owner''),
      (''envelope_digest'', dget r ''envelope_digest''), (''argv_digest'', dget r ''argv_digest''),
      (''classification'', dget args ''classification''), (''returncode'', dget args ''returncode''),
      (''recorded_at'', dget args ''recorded_at'')]"
    using assms by (auto simp: receipt_build_def bindE_Inr Let_def dest!: ditem_Inr_dget)
qed

lemma receipt_valid_True:
  "receipt_valid v = Inr True \<longleftrightarrow> (\<exists>d owner c. v = PDict d \<and> keys_exact d RECEIPT_FIELDS \<and>
     text_matches (all_hex 32) d ''execution_id'' \<and> dget d ''owner'' = PStr owner \<and> owner \<noteq> [] \<and>
     text_matches is_digest d ''envelope_digest'' \<and> text_matches (all_hex 64) d ''argv_digest'' \<and>
     dget d ''classification'' = PStr c \<and> c \<in> set [''EXIT'', ''SUBPROCESS_TIMEOUT''] \<and>
     exact_int (dget d ''returncode'') \<and> aware_text d ''recorded_at'')"
proof (cases v)
  case (PDict d)
  show ?thesis
    unfolding PDict receipt_valid_def Let_def
    by (cases "dget d ''owner''"; cases "dget d ''classification''") (auto simp: andE_Inr_True hash_in_def)
qed (simp_all add: receipt_valid_def)

lemma receipt_built_matches:
  assumes "receipt_build r args = Inr recorded"
  shows "receipt_matches r (PDict recorded) = Inr True"
proof -
  note b = receipt_build_Inr [OF assms]
  obtain owner where o: "dget args ''owner'' = PStr owner"
    and t: "all_hex 32 (py_str (dget args ''execution_id''))" "is_digest (py_str (dget r ''envelope_digest''))"
      "all_hex 64 (py_str (dget r ''argv_digest''))"
    using b(1) unfolding receipt_valid_True b(4) by (auto simp: text_matches_def)
  have id: "py_eq (dget args ''execution_id'') (dget r ''execution_id'')" "dget r ''execution_id'' \<noteq> PNone"
    using b(2) hex_text_basic [OF t(1)] by (auto intro: py_eq_basic_sym)
  have "dget r ''owner'' = PStr owner"
    using b(3) o by simp
  moreover have "dhas r ''owner''" "dhas r ''execution_id''"
    using calculation id(2) by (auto intro: dget_not_None_dhas)
  moreover have "py_eq (dget r ''envelope_digest'') (dget r ''envelope_digest'')" "py_eq (dget r ''argv_digest'') (dget r ''argv_digest'')"
    using digest_text_basic [OF t(2)] hex_text_basic [OF t(3)] by (auto intro: py_eq_basic_refl)
  ultimately show ?thesis
    using b(1,5,6) id(1) o unfolding receipt_matches_def RECEIPT_IDENTITY_def
    by (simp add: ditem_eq) (simp add: b(4))
qed

section \<open>What each transition does\<close>

lemma require_reservation_Inr:
  "require_reservation args meta = Inr r \<longleftrightarrow>
     dget meta ''execution_reservation'' = PDict r \<and> py_eq (dget r ''execution_id'') (dget args ''execution_id'')"
  by (cases "dget meta ''execution_reservation''") (auto simp: require_reservation_def Let_def bindE_Inr raise_if_Inr)

lemma valid_reservation_dict: "valid_reservation v = Inr True \<Longrightarrow> is_dict v"
  by (auto simp: valid_reservation_True)

lemma require_valid_reservation_Inr:
  "require_valid_reservation meta text = Inr r \<longleftrightarrow>
     valid_reservation (dget meta ''execution_reservation'') = Inr True \<and> dget meta ''execution_reservation'' = PDict r"
  by (cases "dget meta ''execution_reservation''")
    (auto simp: require_valid_reservation_def Let_def bindE_Inr raise_if_Inr dest: valid_reservation_dict)

lemma require_expired_Inr:
  assumes "require_expired rt meta = Inr u" "valid_reservation (PDict r) = Inr True"
    and "dget meta ''execution_reservation'' = PDict r"
  shows "\<exists>t. from_iso_z (py_str (dget r ''expires_at'')) = Inr t \<and> is_aware t \<and> utc_of t \<le> rt_now rt"
proof -
  have "dhas r ''expires_at''"
    using assms(2) by (auto simp: valid_reservation_True keys_exact_dhas RESERVATION_FIELDS_def)
  then have "aware_text r ''expires_at'' \<longleftrightarrow>
      (\<exists>t. from_iso_z (py_str (dget r ''expires_at'')) = Inr t \<and> is_aware t)"
    by (auto simp: aware_text_def dget_or_def dget_def dhas_def split: sum.splits)
  then obtain t where t: "from_iso_z (py_str (dget r ''expires_at'')) = Inr t" "is_aware t"
    using assms(2) by (auto simp: valid_reservation_True)
  then show ?thesis
    using assms by (auto simp: require_expired_def live_execution_reservation_def bindE_Inr raise_if_Inr dt_le_def split: if_splits)
qed

lemma aware_case_Inr:
  "(case d of Naive n \<Rightarrow> Inl e | Aware l off \<Rightarrow> f l off) = Inr y \<longleftrightarrow> (\<exists>l off. d = Aware l off \<and> f l off = Inr y)"
  by (cases d) auto

lemma execution_start_Inr:
  assumes "execution_start rt args meta = Inr (meta', msg)"
  shows "dget meta ''execution_reservation'' = PNone"
    and "\<exists>r. dget meta' ''execution_reservation'' = PDict r \<and> dget r ''execution_id'' = dget_or args ''execution_id'' (PStr []) \<and>
      dget r ''owner'' = dget args ''owner'' \<and> dget r ''envelope_digest'' = dget meta ''execution_envelope_digest'' \<and>
      dget r ''argv_digest'' = dget args ''argv_digest'' \<and> dkeys r = RESERVATION_FIELDS"
    and "dget meta' ''execution_result'' = dget meta ''execution_result''"
    and "dget meta' ''task_revision'' = dget meta ''task_revision''" "dhas meta' ''task_revision''"
  using assms
  by (auto simp: execution_start_def bindE_Inr raise_if_Inr Let_def RESERVATION_FIELDS_def dkeys_def active_binding_owner_Inr
      aware_case_Inr dest!: ditem_Inr_dget split: if_splits)

lemma execution_result_Inr:
  assumes "execution_result args meta = Inr (meta', msg)"
  obtains r recorded where "dget meta ''execution_reservation'' = PDict r" "receipt_build r args = Inr recorded"
    "meta' = dset meta ''execution_result'' (PDict recorded)"
  using assms by (auto simp: execution_result_def bindE_Inr raise_if_Inr value_to_runtime_Inr require_reservation_Inr)

lemma execution_finish_Inr:
  assumes "execution_finish args meta = Inr (meta', msg)"
  obtains r where "dget meta ''execution_reservation'' = PDict r"
    "receipt_matches r (dget meta ''execution_result'') = Inr True" "meta' = dpop meta ''execution_reservation''"
  using assms by (auto simp: execution_finish_def bindE_Inr raise_if_Inr require_reservation_Inr)

lemma execution_recover_Inr:
  assumes "execution_recover rt args meta = Inr (meta', msg)"
  obtains r where "dget meta ''execution_reservation'' = PDict r"
    "receipt_matches r (dget meta ''execution_result'') = Inr True" "meta' = dpop meta ''execution_reservation''"
  using assms by (auto simp: execution_recover_def bindE_Inr raise_if_Inr require_valid_reservation_Inr)

lemma execution_abandon_Inr:
  assumes "execution_abandon rt args meta = Inr (meta', msg)"
  obtains r old rec where "dget meta ''execution_reservation'' = PDict r" "valid_reservation (PDict r) = Inr True"
    "require_expired rt meta = Inr ()" "receipt_matches r (dget meta ''execution_result'') = Inr False"
    "abandonment_build r args (now_text rt) = Inr rec" "py_iter (dget_or meta ''execution_abandonments'' (PList [])) = Inr old"
    "valid_records (PList (old @ [PDict rec]))"
    "require_claimed_worker_absent rt meta = Inr () \<or>
      truthy (dget_or args ''allow_legacy_without_identity'' (PBool False)) \<and> \<not> dhas meta ''claim_process'' \<and> expired_claim rt meta"
    "meta' = dpop (dset (dset (dset (dpop (dset meta ''execution_abandonments'' (PList (old @ [PDict rec])))
            ''execution_reservation'') ''status'' (PStr ''open'')) ''owner'' (PStr [])) ''claim_expires'' (PStr [])) ''claim_process''"
  using assms
  by (auto simp: execution_abandon_def bindE_Inr raise_if_Inr value_to_runtime_Inr require_valid_reservation_Inr split: if_splits)

lemma abandonment_build_Inr:
  assumes "abandonment_build r args at = Inr rec"
  shows "abandonment_valid (PDict rec)" "dget rec ''reservation_digest'' = PStr (reservation_digest r)"
    "dget rec ''execution_id'' = dget args ''execution_id''" "dget rec ''owner'' = dget r ''owner''"
  using assms by (auto simp: abandonment_build_def bindE_Inr raise_if_Inr Let_def dest!: ditem_Inr_dget)

section \<open>Properties\<close>

text \<open>Property C8. Every successful operation of the fence is a step of the abstract fence: a task
  runs at most one reservation, and a reservation is cleared only when its own receipt is stored
  or by an abandonment, which is refused when the receipt exists.\<close>

theorem fence_refines:
  assumes "fence_apply ev rt args meta = Inr (meta', msg)"
  shows "fence_step ev (fence_of meta) (fence_of meta')"
proof (cases ev)
  case Reserve
  then have "execution_start rt args meta = Inr (meta', msg)" using assms by simp
  note s = execution_start_Inr [OF this]
  obtain r where r: "dget meta' ''execution_reservation'' = PDict r" using s(2) by blast
  have "fence_of meta = Idle" using s(1) by (simp add: fence_of_def)
  moreover have "fence_of meta' = Running r \<or> fence_of meta' = Completed r" using r by (simp add: fence_of_def)
  ultimately show ?thesis using Reserve by (auto intro: fence_step.intros)
next
  case Record
  then have "execution_result args meta = Inr (meta', msg)" using assms by simp
  then obtain r recorded where r: "dget meta ''execution_reservation'' = PDict r" "receipt_build r args = Inr recorded"
      "meta' = dset meta ''execution_result'' (PDict recorded)"
    by (rule execution_result_Inr)
  then have "fence_of meta' = Completed r" using receipt_built_matches by (simp add: fence_of_def)
  moreover have "fence_of meta = Running r \<or> fence_of meta = Completed r" using r(1) by (simp add: fence_of_def)
  ultimately show ?thesis using Record by (auto intro: fence_step.intros)
next
  case Finish
  then have "execution_finish args meta = Inr (meta', msg)" using assms by simp
  then show ?thesis
    unfolding Finish by (rule execution_finish_Inr) (simp add: fence_of_def fence_step.intros)
next
  case Recover
  then have "execution_recover rt args meta = Inr (meta', msg)" using assms by simp
  then show ?thesis
    unfolding Recover by (rule execution_recover_Inr) (simp add: fence_of_def fence_step.intros)
next
  case Abandon
  then have "execution_abandon rt args meta = Inr (meta', msg)" using assms by simp
  then show ?thesis
    unfolding Abandon by (rule execution_abandon_Inr) (simp add: fence_of_def fence_step.intros)
qed

text \<open>A running reservation and a receipt for it.\<close>

definition example_reservation :: meta where
  "example_reservation = [(''execution_id'', PStr (replicate 32 CHR ''a'')), (''owner'', PStr ''dev''), (''task_revision'', PInt 4),
     (''envelope_digest'', PStr (digest PNone)), (''command_class'', PStr ''test''), (''scope_digest'', PStr (digest PNone)),
     (''argv_digest'', PStr (replicate 64 CHR ''b'')), (''expires_at'', PStr (isoformat_utc 0))]"

definition example_running_task :: meta where
  "example_running_task = [(''id'', PStr ''AR-0001''), (''task_revision'', PInt 4), (''owner'', PStr ''dev''),
     (''status'', PStr ''in_progress''), (''claim_expires'', PStr (isoformat_utc 0)),
     (''claim_process'', PDict [(''pid'', PInt 7), (''start_time'', PInt 1), (''boot_digest'', PStr (digest PNone)), (''pid_namespace'', PStr ''1:2'')]),
     (''execution_reservation'', PDict example_reservation)]"

definition example_result_args :: namespace where
  "example_result_args = [(''execution_id'', PStr (replicate 32 CHR ''a'')), (''owner'', PStr ''dev''),
     (''classification'', PStr ''EXIT''), (''returncode'', PInt 0), (''recorded_at'', PStr (isoformat_utc 0)),
     (''evidence_ref'', PStr ''evidence/log''), (''evidence_digest'', PStr (digest PNone))]"

lemma all_hex_replicate: "is_lower_hex c \<Longrightarrow> all_hex n (replicate n c)"
  by (simp add: all_hex_def list_all_iff)

lemma example_hex [simp]: "all_hex 32 (replicate 32 CHR ''a'')" "all_hex 64 (replicate 64 CHR ''b'')"
  by (rule all_hex_replicate, simp add: is_lower_hex_def lower_hex_def)+

lemma example_receipt:
  "receipt_valid (PDict [(''execution_id'', PStr (replicate 32 CHR ''a'')), (''owner'', PStr ''dev''), (''envelope_digest'', PStr (digest PNone)),
     (''argv_digest'', PStr (replicate 64 CHR ''b'')), (''classification'', PStr ''EXIT''), (''returncode'', PInt 0),
     (''recorded_at'', PStr (isoformat_utc 0))]) = Inr True"
  unfolding receipt_valid_True
  by (simp add: text_matches_def aware_text_def from_iso_z_isoformat keys_exact_def dkeys_def RECEIPT_FIELDS_def)

lemma example_result: "\<exists>meta' msg. execution_result example_result_args example_running_task = Inr (meta', msg)"
  using example_receipt
  by (simp add: execution_result_def require_reservation_def require_optional_revision_def receipt_build_def
      example_running_task_def example_reservation_def example_result_args_def)

definition example_runtime :: runtime where
  "example_runtime = \<lparr>rt_now = 0, rt_start_time = (\<lambda>_. Inr None), rt_scope = Inr (digest PNone, ''1:2''), rt_role = (\<lambda>_ _. Inr ())\<rparr>"

theorem fence_refines_witness:
  "\<exists>meta' msg. fence_apply Record example_runtime example_result_args example_running_task = Inr (meta', msg) \<and>
    fence_step Record (fence_of example_running_task) (fence_of meta')"
  using example_result fence_refines [of Record example_runtime example_result_args example_running_task] by fastforce

text \<open>Property C24. An abandonment clears only an expired valid reservation without a receipt, whose worker is
  shown to be gone or whose claim predates worker identities; it leaves the task open and unclaimed
  with a valid audit history of at most 32 records with distinct identifiers, the newest of
  which carries the digest of the reservation.\<close>

theorem abandonment_audited:
  assumes "execution_abandon rt args meta = Inr (meta', msg)"
  shows "\<exists>r t old rec. dget meta ''execution_reservation'' = PDict r \<and>
    from_iso_z (py_str (dget r ''expires_at'')) = Inr t \<and> utc_of t \<le> rt_now rt \<and>
    receipt_matches r (dget meta ''execution_result'') = Inr False \<and>
    (require_claimed_worker_absent rt meta = Inr () \<or> \<not> dhas meta ''claim_process'' \<and> expired_claim rt meta) \<and>
    dget meta' ''execution_abandonments'' = PList (old @ [PDict rec]) \<and> valid_records (PList (old @ [PDict rec])) \<and>
    dget rec ''reservation_digest'' = PStr (reservation_digest r) \<and> dget rec ''owner'' = dget r ''owner'' \<and>
    dget meta' ''status'' = PStr ''open'' \<and> dget meta' ''owner'' = PStr [] \<and> dget meta' ''claim_expires'' = PStr [] \<and>
    \<not> dhas meta' ''claim_process'' \<and> \<not> dhas meta' ''execution_reservation''"
proof -
  obtain r old rec where r: "dget meta ''execution_reservation'' = PDict r" "valid_reservation (PDict r) = Inr True"
      "require_expired rt meta = Inr ()" "receipt_matches r (dget meta ''execution_result'') = Inr False"
      "abandonment_build r args (now_text rt) = Inr rec" "valid_records (PList (old @ [PDict rec]))"
    and w: "require_claimed_worker_absent rt meta = Inr () \<or>
      truthy (dget_or args ''allow_legacy_without_identity'' (PBool False)) \<and> \<not> dhas meta ''claim_process'' \<and> expired_claim rt meta"
    and m: "meta' = dpop (dset (dset (dset (dpop (dset meta ''execution_abandonments'' (PList (old @ [PDict rec])))
            ''execution_reservation'') ''status'' (PStr ''open'')) ''owner'' (PStr [])) ''claim_expires'' (PStr [])) ''claim_process''"
    using assms by (rule execution_abandon_Inr)
  obtain t where t: "from_iso_z (py_str (dget r ''expires_at'')) = Inr t" "utc_of t \<le> rt_now rt"
    using require_expired_Inr [OF r(3,2,1)] by blast
  have "dget meta' ''execution_abandonments'' = PList (old @ [PDict rec])" "dget meta' ''status'' = PStr ''open''"
    "dget meta' ''owner'' = PStr []" "dget meta' ''claim_expires'' = PStr []" "\<not> dhas meta' ''claim_process''"
    "\<not> dhas meta' ''execution_reservation''"
    by (simp_all add: m)
  then show ?thesis
    using r t w abandonment_build_Inr [OF r(5)] by blast
qed

lemma example_reservation_valid: "valid_reservation (PDict example_reservation) = Inr True"
  unfolding valid_reservation_True
  by (simp add: example_reservation_def text_matches_def aware_text_def from_iso_z_isoformat keys_exact_def dkeys_def
      RESERVATION_FIELDS_def ENVELOPE_CLASSES_def bad_positive_def)

lemma example_abandon: "\<exists>meta' msg. execution_abandon example_runtime example_result_args example_running_task = Inr (meta', msg)"
proof -
  have res: "dget example_running_task ''execution_reservation'' = PDict example_reservation"
    by (simp add: example_running_task_def)
  have expired: "require_expired example_runtime example_running_task = Inr ()"
    using example_reservation_valid res
    by (simp add: require_expired_def live_execution_reservation_def)
      (simp add: example_reservation_def from_iso_z_isoformat dt_le_def example_runtime_def truncate_us_def)
  have absent: "require_claimed_worker_absent example_runtime example_running_task = Inr ()"
    by (simp add: require_claimed_worker_absent_def example_running_task_def scoped_claim_process_def valid_claim_process_def
        keys_exact_def dkeys_def SCOPED_IDENTITY_def LEGACY_IDENTITY_def is_namespace_id_def is_digit_def digits_def
        example_runtime_def)
  have valid: "abandonment_valid (PDict [(''schema_version'', PInt 1), (''execution_id'', PStr (replicate 32 CHR ''a'')), (''owner'', PStr ''dev''),
      (''reservation_digest'', PStr (reservation_digest example_reservation)), (''evidence_ref'', PStr ''evidence/log''),
      (''evidence_digest'', PStr (digest PNone)), (''recorded_at'', PStr (now_text example_runtime))])"
    by (simp add: abandonment_valid_def keys_exact_def dkeys_def ABANDONMENT_FIELDS_def text_matches_def aware_text_def
        now_text_def example_runtime_def from_iso_z_isoformat truncate_us_def reservation_digest_def public_evidence_ref_def
        is_reference_def is_alnum_def is_lower_def lower_letters_def)
  show ?thesis
    using expired absent valid example_reservation_valid res
    by (simp add: execution_abandon_def require_optional_revision_def require_valid_reservation_def receipt_matches_def
        abandonment_build_def example_result_args_def)
      (simp add: example_running_task_def example_reservation_def receipt_valid_def valid_records_def MAX_RECORDS_def)
qed

theorem abandonment_audited_witness:
  "\<exists>meta' msg old rec. execution_abandon example_runtime example_result_args example_running_task = Inr (meta', msg) \<and>
    dget meta' ''execution_abandonments'' = PList (old @ [PDict rec]) \<and> valid_records (PList (old @ [PDict rec])) \<and>
    dget meta' ''status'' = PStr ''open'' \<and> \<not> dhas meta' ''execution_reservation''"
proof -
  obtain meta' msg where a: "execution_abandon example_runtime example_result_args example_running_task = Inr (meta', msg)"
    using example_abandon by blast
  show ?thesis using abandonment_audited [OF a] a by blast
qed

lemma stored_result_differs:
  assumes "dhas d ''execution_id''" "\<not> py_eq (dget d ''execution_id'') (dget rec ''execution_id'')" "dhas rec ''execution_id''"
  shows "\<not> py_eq (PDict d) (PDict rec)"
proof
  assume eq: "py_eq (PDict d) (PDict rec)"
  obtain v w where v: "map_of d ''execution_id'' = Some v" "map_of rec ''execution_id'' = Some w"
    using assms(1,3) by (auto simp: dhas_def)
  then have "(''execution_id'', v) \<in> set d" by (auto dest: map_of_SomeD)
  then have "py_eq v w" using eq v(2) by (auto simp: list_all_iff)
  then show False using assms(2) v by (simp add: dget_def)
qed

lemma optional_revision_current:
  "dget args ''expected_revision'' = PInt n \<Longrightarrow> dget meta ''task_revision'' = PInt n \<Longrightarrow> require_optional_revision args meta = Inr ()"
  using dget_not_None_dhas [of meta "''task_revision''"] by (simp add: require_optional_revision_def require_revision_def ditem_eq)

lemma execution_result_records:
  assumes "dget meta ''execution_reservation'' = PDict r" "receipt_build r res = Inr recorded"
    and "dget res ''expected_revision'' = PInt n" "dget meta ''task_revision'' = PInt n"
    and "\<not> py_eq (dget meta ''execution_result'') (PDict recorded)"
  shows "execution_result res meta = Inr (dset meta ''execution_result'' (PDict recorded),
    ''Recorded execution result '' @ py_str (dget res ''execution_id'') @ ''.'')"
  using assms(1,2,5) receipt_build_Inr(2) [OF assms(2)] optional_revision_current [OF assms(3,4)]
  by (simp add: execution_result_def require_reservation_def)

lemma execution_finish_clears:
  assumes "dget meta ''execution_reservation'' = PDict r" "receipt_build r res = Inr recorded" "dget meta ''execution_result'' = PDict recorded"
    and "dget fin ''expected_revision'' = PInt n" "dget meta ''task_revision'' = PInt n"
    and "dget fin ''execution_id'' = dget res ''execution_id''" "dget fin ''owner'' = dget res ''owner''"
  shows "execution_finish fin meta = Inr (dpop meta ''execution_reservation'', py_str (dget fin ''note''))"
  using assms(1,3,6,7) receipt_build_Inr(2,3) [OF assms(2)] receipt_built_matches [OF assms(2)] optional_revision_current [OF assms(4,5)]
  by (simp add: execution_finish_def require_reservation_def)

text \<open>
  Property C25. A command that reserved the task can record its receipt and finish. The records that the three mutations see
  differ by what is stored between them (the revision is advanced, other components write their fields), as long as the
  reservation and the receipt are kept; the two later commands name the identifier and the owner of the reservation and the
  revision that is then stored, as \<open>cmd_run\<close> does. With a well-formed outcome, digests that are well formed, a non-empty
  owner and no receipt of the same execution stored before, neither step is refused: the first stores exactly the receipt
  of the seven fields, the second removes the reservation and keeps that receipt.
\<close>

theorem execution_completes:
  assumes "execution_start rt args meta = Inr (meta1, msg)"
    and "is_digest (py_str (dget meta ''execution_envelope_digest''))" "all_hex 64 (py_str (dget args ''argv_digest''))"
    and "dget args ''owner'' = PStr owner" "owner \<noteq> []"
    and "dget res ''execution_id'' = dget_or args ''execution_id'' (PStr [])" "dget res ''owner'' = PStr owner"
    and "dget res ''classification'' = PStr c" "c \<in> set [''EXIT'', ''SUBPROCESS_TIMEOUT'']"
    and "exact_int (dget res ''returncode'')" "aware_text [(''recorded_at'', dget res ''recorded_at'')] ''recorded_at''"
    and "dget meta ''execution_result'' = PNone \<or> (\<exists>d. dget meta ''execution_result'' = PDict d \<and> dhas d ''execution_id'' \<and>
      \<not> py_eq (dget d ''execution_id'') (dget res ''execution_id''))"
    and "\<forall>k \<in> {''execution_reservation'', ''execution_result''}. dget meta1' k = dget meta1 k"
    and "dget meta1' ''task_revision'' = PInt n" "dget res ''expected_revision'' = PInt n"
    and "dget fin ''execution_id'' = dget res ''execution_id''" "dget fin ''owner'' = PStr owner" "dget fin ''expected_revision'' = PInt k"
  shows "\<exists>receipt meta2 m2.
    receipt = [(''execution_id'', dget res ''execution_id''), (''owner'', PStr owner),
      (''envelope_digest'', dget meta ''execution_envelope_digest''), (''argv_digest'', dget args ''argv_digest''),
      (''classification'', PStr c), (''returncode'', dget res ''returncode''), (''recorded_at'', dget res ''recorded_at'')] \<and>
    execution_result res meta1' = Inr (meta2, m2) \<and> meta2 = dset meta1' ''execution_result'' (PDict receipt) \<and>
    (\<forall>meta2'. dget meta2' ''execution_reservation'' = dget meta2 ''execution_reservation'' \<and>
        dget meta2' ''execution_result'' = dget meta2 ''execution_result'' \<and> dget meta2' ''task_revision'' = PInt k \<longrightarrow>
      (\<exists>meta3 m3. execution_finish fin meta2' = Inr (meta3, m3) \<and> meta3 = dpop meta2' ''execution_reservation'' \<and>
        dget meta3 ''execution_reservation'' = PNone \<and> dget meta3 ''execution_result'' = PDict receipt))"
proof -
  note s = execution_start_Inr [OF assms(1)]
  obtain r where r: "dget meta1 ''execution_reservation'' = PDict r" "dget r ''execution_id'' = dget res ''execution_id''"
      "dget r ''owner'' = PStr owner" "dget r ''envelope_digest'' = dget meta ''execution_envelope_digest''"
      "dget r ''argv_digest'' = dget args ''argv_digest''" "dkeys r = RESERVATION_FIELDS"
    using s(2) assms(4,6) by auto
  have r1: "dget meta1' ''execution_reservation'' = PDict r" using r(1) assms(13) by simp
  have id: "all_hex 32 (py_str (dget res ''execution_id''))"
    using assms(1,6) by (auto simp: execution_start_def bindE_Inr raise_if_Inr Let_def)
  let ?rec = "[(''execution_id'', dget res ''execution_id''), (''owner'', PStr owner),
      (''envelope_digest'', dget meta ''execution_envelope_digest''), (''argv_digest'', dget args ''argv_digest''),
      (''classification'', PStr c), (''returncode'', dget res ''returncode''), (''recorded_at'', dget res ''recorded_at'')]"
  have valid: "receipt_valid (PDict ?rec) = Inr True"
    unfolding receipt_valid_True using assms(2-11) id
    by (simp add: text_matches_def aware_text_def keys_exact_def dkeys_def RECEIPT_FIELDS_def)
  have same: "py_eq (dget r ''execution_id'') (dget res ''execution_id'')" "py_eq (dget r ''owner'') (dget res ''owner'')"
    using r(2,3) assms(7) py_eq_basic_refl hex_text_basic [OF id] by auto
  have has: "dhas r ''envelope_digest''" "dhas r ''argv_digest''"
    by (simp_all add: dhas_dkeys r(6) RESERVATION_FIELDS_def)
  have built: "receipt_build r res = Inr ?rec"
    using same has valid r(4,5) assms(7,8) by (simp add: receipt_build_def ditem_eq)
  have "\<not> py_eq (dget meta1' ''execution_result'') (PDict ?rec)"
    using assms(12,13) stored_result_differs [of _ "?rec"] s(3) by auto
  then have res: "execution_result res meta1' = Inr (dset meta1' ''execution_result'' (PDict ?rec),
      ''Recorded execution result '' @ py_str (dget res ''execution_id'') @ ''.'')"
    by (rule execution_result_records [OF r1 built assms(15,14)])
  have fin: "execution_finish fin meta2' = Inr (dpop meta2' ''execution_reservation'', py_str (dget fin ''note''))"
    if "dget meta2' ''execution_reservation'' = PDict r" "dget meta2' ''execution_result'' = PDict ?rec" "dget meta2' ''task_revision'' = PInt k"
    for meta2' using execution_finish_clears [OF that(1) built that(2) assms(18) that(3) assms(16)] assms(7,17) by simp
  show ?thesis by (simp add: res r1 fin)
qed

definition example_start_args :: namespace where
  "example_start_args = [(''task'', PStr ''AR-0001''), (''owner'', PStr ''dev''), (''expected_revision'', PInt 5),
     (''execution_id'', PStr (replicate 32 CHR ''a'')), (''execution_expires_at'', PStr (isoformat_utc second_us)),
     (''command_class'', PStr ''test''), (''scope_digest'', PStr (digest PNone)), (''argv_digest'', PStr (replicate 64 CHR ''b''))]"

definition early_runtime :: runtime where
  "early_runtime = example_runtime\<lparr>rt_now := - 1\<rparr>"

lemma in_range_second [simp]: "in_range second_us"
  by (simp add: in_range_def max_us_def max_ordinal_def day_us_def second_us_def)

lemma example_start: "\<exists>meta1 msg. execution_start early_runtime example_start_args example_bound_task = Inr (meta1, msg)"
proof -
  have claim: "parse_claim_expiry (PStr (isoformat_utc 0)) = Inr 0"
    by (simp add: parse_claim_expiry_def from_iso_z_isoformat astimezone_utc_def truncate_us_def)
  have own: "require_active_binding_owner early_runtime example_start_args example_bound_task = Inr ()"
    unfolding active_binding_owner_Inr using claim
    by (simp add: example_bound_task_def example_start_args_def early_runtime_def example_runtime_def)
  have g: "dget example_bound_task ''execution_reservation'' = PNone" "is_dict (dget example_bound_task ''execution_envelope'')"
      "dget example_bound_task ''claim_expires'' = PStr (isoformat_utc 0)"
      "ditem example_bound_task ''task_revision'' = Inr (PInt 5)"
      "ditem example_bound_task ''execution_envelope_digest'' = Inr (PStr (canonical_digest (example_envelope 1)))"
    by (simp_all add: example_bound_task_def)
  have a: "dget_or example_start_args ''execution_id'' (PStr []) = PStr (replicate 32 CHR ''a'')"
      "dget_or example_start_args ''execution_expires_at'' (PStr []) = PStr (isoformat_utc second_us)"
    by (simp_all add: example_start_args_def)
  have live: "live_execution_reservation early_runtime example_bound_task = Inr None"
    using g(1) by (simp add: live_execution_reservation_def valid_reservation_def)
  have "truncate_us second_us = second_us" by (simp add: truncate_us_def)
  then have past: "dt_le (Aware (truncate_us second_us) 0) (Aware (rt_now early_runtime) 0) = Inr False"
    by (simp add: dt_le_def early_runtime_def second_us_def)
  show ?thesis
    using own g a live past claim by (simp add: execution_start_def from_iso_z_isoformat Let_def)
qed

theorem execution_completes_witness:
  "\<exists>meta1 msg meta2 meta3 m2 m3. execution_start early_runtime example_start_args example_bound_task = Inr (meta1, msg) \<and>
    execution_result (dset example_result_args ''expected_revision'' (PInt 6)) (dset meta1 ''task_revision'' (PInt 6)) = Inr (meta2, m2) \<and>
    execution_finish (dset example_result_args ''expected_revision'' (PInt 7)) (dset meta2 ''task_revision'' (PInt 7)) = Inr (meta3, m3) \<and>
    dget meta3 ''execution_reservation'' = PNone"
proof -
  obtain meta1 msg where st: "execution_start early_runtime example_start_args example_bound_task = Inr (meta1, msg)"
    using example_start by blast
  let ?res = "dset example_result_args ''expected_revision'' (PInt 6)" and ?fin = "dset example_result_args ''expected_revision'' (PInt 7)"
  have g: "is_digest (py_str (dget example_bound_task ''execution_envelope_digest''))"
      "all_hex 64 (py_str (dget example_start_args ''argv_digest''))" "dget example_start_args ''owner'' = PStr ''dev''"
      "dget ?res ''execution_id'' = dget_or example_start_args ''execution_id'' (PStr [])"
      "dget ?res ''owner'' = PStr ''dev''" "dget ?res ''classification'' = PStr ''EXIT''"
      "exact_int (dget ?res ''returncode'')" "dget ?res ''expected_revision'' = PInt 6"
      "dget example_bound_task ''execution_result'' = PNone"
      "aware_text [(''recorded_at'', dget ?res ''recorded_at'')] ''recorded_at''"
      "dget ?fin ''execution_id'' = dget ?res ''execution_id''" "dget ?fin ''owner'' = PStr ''dev''" "dget ?fin ''expected_revision'' = PInt 7"
    by (simp_all add: example_bound_task_def example_start_args_def example_result_args_def canonical_digest_def aware_text_def
        from_iso_z_isoformat)
  have kept: "\<forall>k \<in> {''execution_reservation'', ''execution_result''}. dget (dset meta1 ''task_revision'' (PInt 6)) k = dget meta1 k"
    "dget (dset meta1 ''task_revision'' (PInt 6)) ''task_revision'' = PInt 6" by simp_all
  have absent: "dget example_bound_task ''execution_result'' = PNone \<or> (\<exists>d. dget example_bound_task ''execution_result'' = PDict d \<and>
      dhas d ''execution_id'' \<and> \<not> py_eq (dget d ''execution_id'') (dget ?res ''execution_id''))" using g(9) by simp
  have named: "''dev'' \<noteq> []" "''EXIT'' \<in> set [''EXIT'', ''SUBPROCESS_TIMEOUT'']" by simp_all
  obtain receipt meta2 m2 where r: "execution_result ?res (dset meta1 ''task_revision'' (PInt 6)) = Inr (meta2, m2)"
    "\<forall>meta2'. dget meta2' ''execution_reservation'' = dget meta2 ''execution_reservation'' \<and>
        dget meta2' ''execution_result'' = dget meta2 ''execution_result'' \<and> dget meta2' ''task_revision'' = PInt 7 \<longrightarrow>
      (\<exists>meta3 m3. execution_finish ?fin meta2' = Inr (meta3, m3) \<and> meta3 = dpop meta2' ''execution_reservation'' \<and>
        dget meta3 ''execution_reservation'' = PNone \<and> dget meta3 ''execution_result'' = PDict receipt)"
    using execution_completes [OF st g(1-3) named(1) g(4-6) named(2) g(7,10) absent kept g(8,11-13)] by blast
  obtain meta3 m3 where "execution_finish ?fin (dset meta2 ''task_revision'' (PInt 7)) = Inr (meta3, m3)" "dget meta3 ''execution_reservation'' = PNone"
    using r(2) [rule_format, of "dset meta2 ''task_revision'' (PInt 7)"] by auto
  then show ?thesis using st r(1) by blast
qed

end
