(* ===== verification/Task_Spec.thy ===== *)
theory Task_Spec
  imports Py_Time Py_Digest
begin

text \<open>
  Task specifications of \<open>src/tools/task_spec.py\<close>: the evidence vocabulary of a project, the validator
  of a specification record, the predicate-evidence ledger and the admission of a task to \<open>done\<close>.

  The state root is a parameter: \<open>root_json\<close> is what reading and decoding a file yields and
  \<open>root_artifact\<close> the bytes of a bounded regular file. The file-descriptor and Git checks on the policy
  file are summarised by \<open>policy_source\<close>.
\<close>

section \<open>The project\<close>

record project_root =
  root_json :: "string \<Rightarrow> string + pyval"
  root_artifact :: "string \<Rightarrow> string option"

definition EVIDENCE_CLASSES :: "string list" where
  "EVIDENCE_CLASSES = [''mechanical'', ''contract-test'', ''property-or-fuzz'', ''bounded-model'', ''environmental'']"

definition POLICY_MAX_CLASSES :: nat where "POLICY_MAX_CLASSES = 32"

record evidence_policy =
  policy_classes :: "string list"
  policy_digest :: string
  policy_identity :: "(int \<times> int) option"
  policy_present :: bool

definition DEFAULT_EVIDENCE_POLICY :: evidence_policy where
  "DEFAULT_EVIDENCE_POLICY = \<lparr>policy_classes = EVIDENCE_CLASSES, policy_digest = ''absent'', policy_identity = None, policy_present = False\<rparr>"

text \<open>No policy file (and whether \<open>HEAD\<close> tracks one), a file that fails an identity, size or Git check with
  the given message, or the payload with its identity and what it decodes to.\<close>

datatype policy_source =
    PolicyAbsent bool
  | PolicyRejected string
  | PolicyPayload string "int \<times> int" "pyval option"

definition is_evidence_class :: "pyval \<Rightarrow> bool" where
  "is_evidence_class v = (is_str v \<and> length (str_of v) \<le> 32 \<and> is_dashed_word (str_of v))"

definition load_evidence_policy :: "policy_source \<Rightarrow> evidence_policy result" where
  "load_evidence_policy src =
     (case src of
        PolicyAbsent tracked \<Rightarrow>
          if tracked then Inl (TaskSpecPolicyError ''task-spec policy must be tracked and unchanged'')
          else Inr DEFAULT_EVIDENCE_POLICY
      | PolicyRejected text \<Rightarrow> Inl (TaskSpecPolicyError text)
      | PolicyPayload payload identity decoded \<Rightarrow>
          (case decoded of
             None \<Rightarrow> Inl (TaskSpecPolicyError ''task-spec policy is not valid UTF-8 JSON'')
           | Some v \<Rightarrow>
               (let d = dict_of v; additions = dget d ''additional_evidence_classes''; xs = list_of additions in
                bindE (raise_if (\<not> is_dict v \<or> \<not> keys_exact d [''schema_version'', ''additional_evidence_classes'']
                          \<or> \<not> py_eq (dget d ''schema_version'') (PInt 1))
                         (TaskSpecPolicyError ''task-spec policy shape or version is invalid'')) (\<lambda>_.
                bindE (raise_if (\<not> is_list additions \<or> xs = [] \<or> POLICY_MAX_CLASSES < length xs \<or> \<not> list_all is_evidence_class xs)
                         (TaskSpecPolicyError ''task-spec policy evidence classes are invalid'')) (\<lambda>_.
                bindE (raise_if (\<not> py_distinct xs)
                         (TaskSpecPolicyError ''task-spec policy evidence classes contain duplicates'')) (\<lambda>_.
                bindE (raise_if (list_ex (\<lambda>x. str_of x \<in> set EVIDENCE_CLASSES) xs)
                         (TaskSpecPolicyError ''task-spec policy evidence classes collide with built-ins'')) (\<lambda>_.
                Inr \<lparr>policy_classes = EVIDENCE_CLASSES @ map str_of xs, policy_digest = sha256_hex payload,
                  policy_identity = Some identity, policy_present = True\<rparr>)))))))"

definition is_policy_error :: "exc \<Rightarrow> bool" where
  "is_policy_error e = (case e of TaskSpecPolicyError _ \<Rightarrow> True | _ \<Rightarrow> False)"

definition task_spec_policy_errors :: "policy_source \<Rightarrow> string list result" where
  "task_spec_policy_errors src =
     (case load_evidence_policy src of Inr _ \<Rightarrow> Inr [] | Inl e \<Rightarrow> if is_policy_error e then Inr [exc_message e] else Inl e)"

definition require_policy_unchanged :: "policy_source \<Rightarrow> evidence_policy \<Rightarrow> unit result" where
  "require_policy_unchanged src expected =
     (let changed = TaskSpecPolicyError ''task-spec policy changed during operation'' in
      case load_evidence_policy src of
        Inl e \<Rightarrow> if is_policy_error e then Inl changed else Inl e
      | Inr current \<Rightarrow>
          raise_if (set (policy_classes current) \<noteq> set (policy_classes expected)
              \<or> policy_digest current \<noteq> policy_digest expected
              \<or> policy_identity current \<noteq> policy_identity expected
              \<or> policy_present current \<noteq> policy_present expected) changed)"

text \<open>\<open>policy or evidence_policy(root)\<close>.\<close>

definition select_policy :: "policy_source \<Rightarrow> evidence_policy option \<Rightarrow> evidence_policy result" where
  "select_policy src policy = (case policy of Some p \<Rightarrow> Inr p | None \<Rightarrow> load_evidence_policy src)"

section \<open>The specification record\<close>

definition SPEC_FIELDS :: "string list" where
  "SPEC_FIELDS = [''schema_version'', ''spec_ref'', ''spec_revision'', ''acceptance_predicates'', ''definition_of_done'', ''inputs'',
     ''outputs'', ''allowed_tools'', ''forbidden_tools'', ''required_evidence_classes'', ''gates'']"

definition is_spec_ref :: "string \<Rightarrow> bool" where "is_spec_ref s = is_reference ''._/-'' 2 255 s"
definition is_tool_ref :: "string \<Rightarrow> bool" where "is_tool_ref s = is_reference ''._:/-'' 0 127 s"
definition is_id_ref :: "string \<Rightarrow> bool" where "is_id_ref s = is_reference ''._-'' 2 63 s"
definition is_evidence_ref :: "string \<Rightarrow> bool" where "is_evidence_ref s = is_reference ''._:/-'' 2 255 s"

text \<open>\<open>^.{1,1000}$\<close> and \<open>^[a-z][a-z-]+$\<close>.\<close>

definition is_one_line :: "string \<Rightarrow> bool" where
  "is_one_line s = (1 \<le> length s \<and> length s \<le> 1000 \<and> newline \<notin> set s)"

definition is_class_word :: "string \<Rightarrow> bool" where
  "is_class_word s = (case s of [] \<Rightarrow> False | c # r \<Rightarrow> is_lower c \<and> r \<noteq> [] \<and> list_all (\<lambda>x. is_lower x \<or> x = CHR ''-'') r)"

definition strings_errors :: "pyval \<Rightarrow> string \<Rightarrow> (string \<Rightarrow> bool) \<Rightarrow> bool \<Rightarrow> string list result" where
  "strings_errors v field pattern allow_empty =
     (if \<not> is_list v \<or> list_of v = [] \<and> \<not> allow_empty then Inr [field @ '' must be a non-empty array'']
      else bindE (py_set v) (\<lambda>xs.
        Inr (map (\<lambda>_. field @ '' contains an invalid value'') (filter (\<lambda>x. \<not> is_str x \<or> \<not> pattern (str_of x)) xs) @
             (if py_distinct xs then [] else [field @ '' must not contain duplicates'']))))"

definition named_item_errors :: "string \<Rightarrow> pyval \<Rightarrow> string list" where
  "named_item_errors field v =
     (let d = dict_of v; i = dget d ''id''; text = dget d ''description'' in
      if \<not> is_dict v \<or> \<not> keys_exact d [''id'', ''description''] then [field @ '' items must contain only id and description'']
      else (if \<not> is_str i \<or> \<not> is_id_ref (str_of i) then [field @ '' has an invalid id''] else []) @
           (if \<not> is_str text \<or> strip (str_of text) = [] then [field @ '' has an invalid description''] else []))"

definition item_ids :: "pyval list \<Rightarrow> string list" where
  "item_ids items = map (\<lambda>v. str_of (dget (dict_of v) ''id'')) (filter (\<lambda>v. is_dict v \<and> keys_exact (dict_of v) [''id'', ''description'']
     \<and> is_str (dget (dict_of v) ''id'') \<and> is_id_ref (str_of (dget (dict_of v) ''id''))) items)"

definition named_items_errors :: "meta \<Rightarrow> string \<Rightarrow> string list" where
  "named_items_errors d field =
     (let v = dget d field in
      if \<not> is_list v \<or> list_of v = [] then [field @ '' must be a non-empty array'']
      else concat (map (named_item_errors field) (list_of v)) @
           (if distinct (item_ids (list_of v)) then [] else [field @ '' ids must be unique'']))"

definition spec_identity_errors :: "meta \<Rightarrow> string list" where
  "spec_identity_errors d =
     (let revision = dget d ''spec_revision'' in
      map (\<lambda>k. ''spec contains unknown field: '' @ k) (filter (\<lambda>k. k \<notin> set SPEC_FIELDS) (dkeys d)) @
      map (\<lambda>k. ''spec missing field: '' @ k) (sort (filter (\<lambda>k. \<not> dhas d k) SPEC_FIELDS)) @
      (if py_eq (dget d ''schema_version'') (PInt 1) then [] else [''spec schema_version must be 1'']) @
      (if \<not> is_str (dget d ''spec_ref'') \<or> \<not> is_spec_ref (str_of (dget d ''spec_ref'')) then [''spec_ref is invalid''] else []) @
      (if \<not> exact_int revision \<or> int_of revision < 1 then [''spec_revision must be a positive integer''] else []))"

definition spec_collection_errors :: "meta \<Rightarrow> string list result" where
  "spec_collection_errors d =
     bindE (strings_errors (dget d ''definition_of_done'') ''definition_of_done'' is_one_line False) (\<lambda>dod.
     Inr (named_items_errors d ''acceptance_predicates'' @ dod @ named_items_errors d ''inputs'' @
          named_items_errors d ''outputs'' @ named_items_errors d ''gates''))"

text \<open>\<open>sorted(set(evidence) - classes)\<close> joined into one message: a value that is no string makes the sort or
  the join raise \<open>TypeError\<close>.\<close>

definition unknown_class_errors :: "pyval \<Rightarrow> string list \<Rightarrow> string list result" where
  "unknown_class_errors v classes =
     (if \<not> is_list v then Inr []
      else bindE (py_set v) (\<lambda>xs.
        let unknown = filter (\<lambda>x. \<not> (is_str x \<and> str_of x \<in> set classes)) xs in
        if unknown = [] then Inr []
        else if list_all is_str unknown
        then Inr [''unknown evidence class: '' @ join '', '' (sorted_set (map str_of unknown))]
        else Inl (TypeError ''sequence item is not a string'')))"

definition tool_errors :: "meta \<Rightarrow> string list \<Rightarrow> string list result" where
  "tool_errors d classes =
     (let evidence = dget d ''required_evidence_classes'' in
      bindE (strings_errors (dget d ''allowed_tools'') ''allowed_tools'' is_tool_ref False) (\<lambda>a.
      bindE (strings_errors (dget d ''forbidden_tools'') ''forbidden_tools'' is_tool_ref True) (\<lambda>f.
      bindE (py_iter (dget_or d ''allowed_tools'' (PList []))) (\<lambda>allowed.
      bindE (py_iter (dget_or d ''forbidden_tools'' (PList []))) (\<lambda>forbidden.
      let overlap = sorted_set (filter (\<lambda>s. PStr s \<in> set forbidden) (map str_of (filter is_str allowed))) in
      bindE (strings_errors evidence ''required_evidence_classes'' is_class_word False) (\<lambda>e.
      bindE (unknown_class_errors evidence classes) (\<lambda>u.
      Inr (a @ f @ (if overlap = [] then [] else [''allowed_tools and forbidden_tools overlap: '' @ join '', '' overlap]) @ e @ u))))))))"

definition spec_errors :: "pyval \<Rightarrow> string list \<Rightarrow> string list result" where
  "spec_errors v classes =
     (if \<not> is_dict v then Inr [''spec must be an object'']
      else
        bindE (spec_collection_errors (dict_of v)) (\<lambda>c.
        bindE (tool_errors (dict_of v) classes) (\<lambda>t.
        Inr (sorted_set (spec_identity_errors (dict_of v) @ c @ t)))))"

section \<open>The specification of a task\<close>

definition spec_metadata_errors :: "string \<Rightarrow> meta \<Rightarrow> string list" where
  "spec_metadata_errors task_id meta =
     (let revision = dget meta ''spec_revision'' in
      if \<not> is_str (dget meta ''spec_ref'') then [task_id @ '': spec_ref is required'']
      else if \<not> exact_int revision \<or> int_of revision < 1 then [task_id @ '': spec_revision must be a positive integer'']
      else [])"

definition load_spec :: "project_root \<Rightarrow> string \<Rightarrow> string \<Rightarrow> string list + pyval" where
  "load_spec root task_id spec_ref =
     (if \<not> is_spec_ref spec_ref \<or> starts_with spec_ref ''.'' \<or> ''..'' \<in> set (path_parts spec_ref)
      then Inl [task_id @ '': spec_ref is unsafe'']
      else case root_json root spec_ref of
        Inl e \<Rightarrow> Inl [task_id @ '': cannot read spec_ref: '' @ e]
      | Inr v \<Rightarrow> Inr v)"

definition artifact_digest :: "project_root \<Rightarrow> pyval \<Rightarrow> pyval" where
  "artifact_digest root v =
     (if \<not> is_str v \<or> \<not> is_evidence_ref (str_of v) \<or> ''..'' \<in> set (path_parts (str_of v)) then PNone
      else case root_artifact root (str_of v) of None \<Rightarrow> PNone | Some payload \<Rightarrow> PStr (''sha256:'' @ sha256_hex payload))"

definition LEDGER_FIELDS :: "string list" where
  "LEDGER_FIELDS = [''candidate_ref'', ''candidate_digest'', ''steps'']"

definition LEDGER_STEP_FIELDS :: "string list" where
  "LEDGER_STEP_FIELDS = [''predicate_id'', ''status'', ''candidate_ref'', ''candidate_digest'', ''evidence_class'', ''evidence_ref'',
     ''evidence_digest'', ''recorded_task_revision'']"

text \<open>Membership of a value in a set of values; the test hashes it.\<close>

definition hashed_in :: "pyval \<Rightarrow> pyval list \<Rightarrow> bool result" where
  "hashed_in v xs = (if hashable v then Inr (py_in v xs) else Inl (TypeError ''unhashable type''))"

definition is_pass :: "meta \<Rightarrow> bool" where
  "is_pass step = (dget step ''status'' = PStr ''pass'')"

definition not_text :: "(string \<Rightarrow> bool) \<Rightarrow> pyval \<Rightarrow> bool" where
  "not_text p v = (\<not> is_str v \<or> \<not> p (str_of v))"

definition revision_bad :: "meta \<Rightarrow> pyval \<Rightarrow> bool result" where
  "revision_bad meta revision =
     (if \<not> exact_int revision \<or> int_of revision < 1 then Inr True
      else bindE (py_add (dget_or meta ''task_revision'' (PInt 0)) 1) (\<lambda>limit. Inr (int_of limit < int_of revision)))"

text \<open>The checks on one row, in the order of the loop; \<open>seen\<close> are the predicates that passed before.\<close>

definition step_errors :: "project_root \<Rightarrow> meta \<Rightarrow> string list \<Rightarrow> meta \<Rightarrow> pyval list \<Rightarrow> pyval list \<Rightarrow> meta \<Rightarrow> string list result" where
  "step_errors root meta classes ledger predicates seen step =
     (let predicate = dget step ''predicate_id''; cref = dget step ''candidate_ref''; cdig = dget step ''candidate_digest'';
          same = py_eq cref (dget ledger ''candidate_ref'') \<and> py_eq cdig (dget ledger ''candidate_digest'');
          say = (\<lambda>c m. if c then [''evidence ledger '' @ m] else []) in
      bindE (hashed_in predicate predicates) (\<lambda>known.
      bindE (hash_in (dget step ''status'') [''pass'', ''stale'']) (\<lambda>status_ok.
      bindE (hash_in (dget step ''evidence_class'') classes) (\<lambda>class_ok.
      bindE (revision_bad meta (dget step ''recorded_task_revision'')) (\<lambda>late.
      Inr (say (\<not> known \<or> py_in predicate seen \<and> is_pass step) ''predicate is invalid or duplicated'' @
           say (\<not> status_ok) ''step status is invalid'' @
           say (not_text is_evidence_ref cref) ''step candidate ref is invalid'' @
           say (not_text is_digest cdig) ''step candidate digest is invalid'' @
           say (is_pass step \<and> \<not> same) ''passing step candidate does not match ledger'' @
           say (is_pass step \<and> \<not> py_eq (artifact_digest root cref) cdig) ''step candidate artifact digest is invalid'' @
           say (\<not> is_pass step \<and> same) ''stale step candidate matches ledger'' @
           say (\<not> class_ok) ''evidence class is unknown'' @
           say (not_text is_evidence_ref (dget step ''evidence_ref'')) ''evidence ref is invalid'' @
           say (not_text is_digest (dget step ''evidence_digest'')) ''evidence digest is invalid'' @
           say (is_pass step \<and> \<not> py_eq (artifact_digest root (dget step ''evidence_ref'')) (dget step ''evidence_digest''))
             ''evidence artifact digest is invalid'' @
           say late ''step revision is invalid''))))))"

definition ledger_step :: "project_root \<Rightarrow> meta \<Rightarrow> string list \<Rightarrow> meta \<Rightarrow> pyval list \<Rightarrow> pyval \<Rightarrow> pyval list \<times> string list \<Rightarrow> (pyval list \<times> string list) result" where
  "ledger_step root meta classes ledger predicates v st =
     (case st of (seen, errors) \<Rightarrow>
        if \<not> is_dict v \<or> \<not> keys_exact (dict_of v) LEDGER_STEP_FIELDS
        then Inr (seen, errors @ [''evidence ledger step is incomplete or unknown''])
        else bindE (step_errors root meta classes ledger predicates seen (dict_of v)) (\<lambda>found.
          let p = dget (dict_of v) ''predicate_id'' in
          Inr (if is_str p \<and> is_pass (dict_of v) then p # seen else seen, errors @ found)))"

text \<open>\<open>{item["id"] for item in value.get("acceptance_predicates", []) if isinstance(item, dict)}\<close>.\<close>

definition spec_predicates :: "meta \<Rightarrow> pyval list result" where
  "spec_predicates spec =
     bindE (py_iter (dget_or spec ''acceptance_predicates'' (PList []))) (\<lambda>items.
     bindE (map_result (\<lambda>i. ditem (dict_of i) ''id'') (filter is_dict items)) (\<lambda>ids.
     if list_all hashable ids then Inr ids else Inl (TypeError ''unhashable type'')))"

definition evidence_ledger_errors :: "project_root \<Rightarrow> policy_source \<Rightarrow> meta \<Rightarrow> evidence_policy option \<Rightarrow> string list result" where
  "evidence_ledger_errors root src meta policy =
     (let v = dget meta ''evidence_ledger''; ledger = dict_of v; steps = dget ledger ''steps'' in
      if v = PNone then Inr []
      else if \<not> is_dict v \<or> \<not> keys_exact ledger LEDGER_FIELDS then Inr [''evidence ledger is incomplete or unknown'']
      else
        bindE (select_policy src policy) (\<lambda>selected.
        if \<not> py_eq (artifact_digest root (dget ledger ''candidate_ref'')) (dget ledger ''candidate_digest'')
        then Inr [''evidence ledger candidate artifact digest is invalid'']
        else if \<not> is_list steps then Inr [''evidence ledger steps are invalid'']
        else case load_spec root (py_str (dget_or meta ''id'' (PStr ''task''))) (py_str (dget meta ''spec_ref'')) of
          Inl _ \<Rightarrow> Inr [''evidence ledger task spec is unavailable'']
        | Inr spec \<Rightarrow>
            if \<not> is_dict spec then Inr [''evidence ledger task spec is unavailable'']
            else
              bindE (spec_predicates (dict_of spec)) (\<lambda>predicates.
              bindE (fold_result (ledger_step root meta (policy_classes selected) ledger predicates) (list_of steps) ([], [])) (\<lambda>(seen, errors).
              Inr (sorted_set errors)))))"

definition task_spec_errors :: "project_root \<Rightarrow> policy_source \<Rightarrow> meta \<Rightarrow> evidence_policy option \<Rightarrow> bool \<Rightarrow> string list result" where
  "task_spec_errors root src meta policy include_ledger =
     (let task_id = py_str (dget_or meta ''id'' (PStr ''task'')); spec_ref = py_str (dget meta ''spec_ref'') in
      if \<not> dhas meta ''spec_ref'' \<and> \<not> dhas meta ''spec_revision'' then Inr []
      else case select_policy src policy of
        Inl e \<Rightarrow> if is_policy_error e then Inr [task_id @ '': '' @ exc_message e] else Inl e
      | Inr selected \<Rightarrow>
          if spec_metadata_errors task_id meta \<noteq> [] then Inr (spec_metadata_errors task_id meta)
          else case load_spec root task_id spec_ref of
            Inl errors \<Rightarrow> Inr errors
          | Inr v \<Rightarrow>
              bindE (spec_errors v (policy_classes selected)) (\<lambda>found.
              bindE (if include_ledger then evidence_ledger_errors root src meta (Some selected) else Inr []) (\<lambda>ledger.
              Inr (sorted_set (map (\<lambda>e. task_id @ '': '' @ e) found @
                (if is_dict v \<and> \<not> py_eq (dget (dict_of v) ''spec_revision'') (dget meta ''spec_revision'')
                 then [task_id @ '': spec_revision does not match referenced spec''] else []) @
                (if is_dict v \<and> dget (dict_of v) ''spec_ref'' \<noteq> PStr spec_ref
                 then [task_id @ '': spec_ref does not match referenced spec''] else []) @ ledger)))))"

section \<open>Admission to done\<close>

text \<open>\<open>next((x for x in xs if p(x)), None)\<close> with a test that may raise.\<close>

fun find_result :: "('a \<Rightarrow> bool result) \<Rightarrow> 'a list \<Rightarrow> 'a option result" where
  "find_result p [] = Inr None"
| "find_result p (x # xs) = bindE (p x) (\<lambda>b. if b then Inr (Some x) else find_result p xs)"

definition next_unmet_predicate :: "project_root \<Rightarrow> meta \<Rightarrow> pyval option result" where
  "next_unmet_predicate root meta =
     (if \<not> dhas meta ''spec_ref'' then Inr None
      else case load_spec root (py_str (dget_or meta ''id'' (PStr ''task''))) (py_str (dget meta ''spec_ref'')) of
        Inl _ \<Rightarrow> Inr None
      | Inr spec \<Rightarrow>
          if \<not> is_dict spec then Inr None
          else
            (let v = dget meta ''evidence_ledger'' in
             bindE (py_iter (if is_dict v then dget_or (dict_of v) ''steps'' (PList []) else PList [])) (\<lambda>steps.
             let passing = map (\<lambda>s. dget (dict_of s) ''predicate_id'') (filter (\<lambda>s. is_dict s \<and> is_pass (dict_of s)) steps) in
             bindE (raise_if (\<not> list_all hashable passing) (TypeError ''unhashable type'')) (\<lambda>_.
             bindE (py_iter (dget_or (dict_of spec) ''acceptance_predicates'' (PList []))) (\<lambda>items.
             bindE (find_result (\<lambda>i. bindE (get_attr i ''id'' PNone) (\<lambda>x. bindE (hashed_in x passing) (\<lambda>b. Inr (\<not> b)))) items) (\<lambda>unmet.
             case unmet of None \<Rightarrow> Inr None
             | Some i \<Rightarrow> bindE (subscript i ''id'') (\<lambda>x. Inr (Some x))))))))"

definition acceptance_keys :: "bool \<Rightarrow> string list" where
  "acceptance_keys has_spec = [''status'', ''evidence_class'', ''evidence_ref'', ''evidence_digest''] @
     (if has_spec then [''spec_ref'', ''spec_revision''] else [''match''])"

definition acceptance_error :: "meta \<Rightarrow> string list \<Rightarrow> string option result" where
  "acceptance_error meta classes =
     (let v = dget meta ''spec_acceptance''; a = dict_of v; has_spec = (dhas meta ''spec_ref'' \<or> dhas meta ''spec_revision'');
          deny = (\<lambda>m. Inr (Some (''done admission denied: '' @ m))) in
      if \<not> is_dict v \<or> \<not> keys_exact a (acceptance_keys has_spec) then deny ''spec_acceptance is incomplete or unknown''
      else if \<not> has_spec \<and> dget a ''match'' \<noteq> PStr ''best_effort'' then deny ''acceptance match is not best_effort''
      else if has_spec \<and> \<not> py_eq (dget a ''spec_ref'') (dget meta ''spec_ref'') then deny ''acceptance spec_ref does not match task spec''
      else if has_spec \<and> \<not> py_eq (dget a ''spec_revision'') (dget meta ''spec_revision'')
        then deny ''acceptance spec_revision does not match task spec''
      else if dget a ''status'' \<noteq> PStr ''pass'' then deny ''acceptance status is not pass''
      else bindE (hash_in (dget a ''evidence_class'') classes) (\<lambda>known.
        if \<not> known then deny ''acceptance evidence class is unknown''
        else if not_text is_evidence_ref (dget a ''evidence_ref'') then deny ''acceptance evidence ref is invalid''
        else if not_text is_digest (dget a ''evidence_digest'') then deny ''acceptance evidence digest is invalid''
        else Inr None))"

definition done_admission_error :: "project_root \<Rightarrow> policy_source \<Rightarrow> meta \<Rightarrow> evidence_policy option \<Rightarrow> string option result" where
  "done_admission_error root src meta policy =
     (let deny = (\<lambda>m. Inr (Some (''done admission denied: '' @ m))) in
      case select_policy src policy of
        Inl e \<Rightarrow> if is_policy_error e then deny (exc_message e) else Inl e
      | Inr selected \<Rightarrow>
          bindE (task_spec_errors root src meta (Some selected) True) (\<lambda>errors.
          if errors \<noteq> [] then deny (join ''; '' errors)
          else if dget meta ''evidence_ledger'' \<noteq> PNone then
            bindE (evidence_ledger_errors root src meta (Some selected)) (\<lambda>ledger_errors.
            if ledger_errors \<noteq> [] then deny (join ''; '' ledger_errors)
            else bindE (next_unmet_predicate root meta) (\<lambda>unmet.
              if unmet \<noteq> None then deny ''predicate evidence steps remain unmet'' else Inr None))
          else acceptance_error meta (policy_classes selected)))"

section \<open>What the validators accept\<close>

lemma find_result_None: "find_result p xs = Inr None \<longleftrightarrow> (\<forall>x \<in> set xs. p x = Inr False)"
  by (induction xs) (auto simp: bindE_Inr)

lemma py_eq_digest: "py_eq (artifact_digest root v) w \<longleftrightarrow> artifact_digest root v = w"
  by (auto simp: artifact_digest_def split: option.splits)

text \<open>A row that backs its predicate now: it passes for the candidate of the ledger, and both the candidate
  and the evidence it names have the recorded digests.\<close>

definition backed_by :: "project_root \<Rightarrow> string list \<Rightarrow> meta \<Rightarrow> meta \<Rightarrow> bool" where
  "backed_by root classes ledger step =
     (is_pass step \<and> py_eq (dget step ''candidate_ref'') (dget ledger ''candidate_ref'') \<and>
      py_eq (dget step ''candidate_digest'') (dget ledger ''candidate_digest'') \<and>
      artifact_digest root (dget step ''candidate_ref'') = dget step ''candidate_digest'' \<and>
      artifact_digest root (dget step ''evidence_ref'') = dget step ''evidence_digest'' \<and>
      (\<exists>dig. dget step ''evidence_digest'' = PStr dig \<and> is_digest dig) \<and>
      (\<exists>c. dget step ''evidence_class'' = PStr c \<and> c \<in> set classes))"

lemma say_Nil: "(if c then [m] else []) = [] \<longleftrightarrow> \<not> c"
  by simp

lemma hash_in_True: "hash_in v ws = Inr True \<longleftrightarrow> (\<exists>s. v = PStr s \<and> s \<in> set ws)"
  by (cases v) (auto simp: hash_in_def)

lemma step_errors_Nil:
  assumes "step_errors root meta classes ledger predicates seen step = Inr []"
  shows "hashed_in (dget step ''predicate_id'') predicates = Inr True"
    and "is_pass step \<Longrightarrow> backed_by root classes ledger step"
    and "is_pass step \<Longrightarrow> \<not> py_in (dget step ''predicate_id'') seen"
    and "\<not> is_pass step \<Longrightarrow> \<not> (py_eq (dget step ''candidate_ref'') (dget ledger ''candidate_ref'') \<and>
      py_eq (dget step ''candidate_digest'') (dget ledger ''candidate_digest''))"
proof -
  obtain known st cl late where r: "hashed_in (dget step ''predicate_id'') predicates = Inr known"
      "hash_in (dget step ''evidence_class'') classes = Inr cl"
    and c: "known" "cl" "\<not> not_text is_digest (dget step ''evidence_digest'')"
      "\<not> (py_in (dget step ''predicate_id'') seen \<and> is_pass step)"
      "\<not> (is_pass step \<and> \<not> (py_eq (dget step ''candidate_ref'') (dget ledger ''candidate_ref'') \<and>
        py_eq (dget step ''candidate_digest'') (dget ledger ''candidate_digest'')))"
      "\<not> (is_pass step \<and> \<not> py_eq (artifact_digest root (dget step ''candidate_ref'')) (dget step ''candidate_digest''))"
      "\<not> (is_pass step \<and> \<not> py_eq (artifact_digest root (dget step ''evidence_ref'')) (dget step ''evidence_digest''))"
      "\<not> (\<not> is_pass step \<and> py_eq (dget step ''candidate_ref'') (dget ledger ''candidate_ref'') \<and>
        py_eq (dget step ''candidate_digest'') (dget ledger ''candidate_digest''))"
    using assms unfolding step_errors_def Let_def bindE_Inr
    by (auto simp: say_Nil)
  show "hashed_in (dget step ''predicate_id'') predicates = Inr True"
    using r(1) c(1) by simp
  show "is_pass step \<Longrightarrow> backed_by root classes ledger step"
    using c r(2) by (auto simp: backed_by_def py_eq_digest not_text_def is_str_iff hash_in_True)
  show "is_pass step \<Longrightarrow> \<not> py_in (dget step ''predicate_id'') seen" using c(4) by simp
  show "\<not> is_pass step \<Longrightarrow> \<not> (py_eq (dget step ''candidate_ref'') (dget ledger ''candidate_ref'') \<and>
      py_eq (dget step ''candidate_digest'') (dget ledger ''candidate_digest''))" using c(8) by simp
qed

lemma ledger_fold_Nil:
  assumes "fold_result (ledger_step root meta classes ledger predicates) steps (seen, errors) = Inr (seen', [])"
  shows "errors = []"
    "v \<in> set steps \<Longrightarrow> \<exists>d seen0. v = PDict d \<and> keys_exact d LEDGER_STEP_FIELDS \<and>
      step_errors root meta classes ledger predicates seen0 d = Inr []"
proof -
  have "errors = [] \<and> (v \<in> set steps \<longrightarrow> (\<exists>d seen0. v = PDict d \<and> keys_exact d LEDGER_STEP_FIELDS \<and>
      step_errors root meta classes ledger predicates seen0 d = Inr []))"
    using assms
  proof (induction steps arbitrary: seen errors)
    case (Cons w ws)
    obtain seen1 errors1 where s: "ledger_step root meta classes ledger predicates w (seen, errors) = Inr (seen1, errors1)"
      "fold_result (ledger_step root meta classes ledger predicates) ws (seen1, errors1) = Inr (seen', [])"
      using Cons.prems by (auto simp: bindE_Inr)
    have ih: "errors1 = []" "v \<in> set ws \<longrightarrow> (\<exists>d seen0. v = PDict d \<and> keys_exact d LEDGER_STEP_FIELDS \<and>
      step_errors root meta classes ledger predicates seen0 d = Inr [])"
      using Cons.IH [OF s(2)] by auto
    have "\<exists>d. w = PDict d \<and> keys_exact d LEDGER_STEP_FIELDS \<and> errors = [] \<and>
        step_errors root meta classes ledger predicates seen d = Inr []"
      using s(1) ih(1) by (cases w) (auto simp: ledger_step_def Let_def bindE_Inr split: if_splits)
    then show ?case using ih(2) by auto
  qed simp
  then show "errors = []" "v \<in> set steps \<Longrightarrow> \<exists>d seen0. v = PDict d \<and> keys_exact d LEDGER_STEP_FIELDS \<and>
      step_errors root meta classes ledger predicates seen0 d = Inr []" by auto
qed

lemma evidence_ledger_Nil:
  assumes "evidence_ledger_errors root src meta policy = Inr []" "dget meta ''evidence_ledger'' = PDict ledger"
  obtains selected spec predicates steps seen where "select_policy src policy = Inr selected"
    "load_spec root (py_str (dget_or meta ''id'' (PStr ''task''))) (py_str (dget meta ''spec_ref'')) = Inr (PDict spec)"
    "spec_predicates spec = Inr predicates" "dget ledger ''steps'' = PList steps"
    "fold_result (ledger_step root meta (policy_classes selected) ledger predicates) steps ([], []) = Inr (seen, [])"
    "keys_exact ledger LEDGER_FIELDS"
proof -
  obtain selected spec predicates seen errors where s: "select_policy src policy = Inr selected"
      "load_spec root (py_str (dget_or meta ''id'' (PStr ''task''))) (py_str (dget meta ''spec_ref'')) = Inr spec" "is_dict spec"
      "spec_predicates (dict_of spec) = Inr predicates" "is_list (dget ledger ''steps'')" "keys_exact ledger LEDGER_FIELDS"
      "fold_result (ledger_step root meta (policy_classes selected) ledger predicates) (list_of (dget ledger ''steps'')) ([], []) = Inr (seen, errors)"
      "sorted_set errors = []"
    using assms unfolding evidence_ledger_errors_def Let_def
    by (auto simp: bindE_Inr split: if_splits sum.splits prod.splits)
  then show thesis
    using that by (auto simp: is_dict_iff is_list_iff)
qed

lemma named_items_Nil:
  assumes "named_items_errors d field = []"
  shows "\<exists>items. dget d field = PList items \<and> items \<noteq> [] \<and>
    (\<forall>i \<in> set items. \<exists>e s. i = PDict e \<and> dget e ''id'' = PStr s \<and> dhas e ''id'' \<and> is_id_ref s)"
proof -
  obtain items where items: "dget d field = PList items" "items \<noteq> []"
      "\<forall>i \<in> set items. named_item_errors field i = []"
    using assms by (auto simp: named_items_errors_def Let_def is_list_iff split: if_splits)
  have "\<exists>e s. i = PDict e \<and> dget e ''id'' = PStr s \<and> dhas e ''id'' \<and> is_id_ref s" if i: "i \<in> set items" for i
  proof -
    have "is_dict i" "keys_exact (dict_of i) [''id'', ''description'']" "is_str (dget (dict_of i) ''id'')"
      "is_id_ref (str_of (dget (dict_of i) ''id''))"
      using bspec [OF items(3) i] by (auto simp: named_item_errors_def Let_def split: if_splits)
    then show ?thesis by (auto simp: is_dict_iff is_str_iff keys_exact_dhas)
  qed
  then show ?thesis using items by blast
qed

lemma load_spec_error [simp]: "load_spec root t r \<noteq> Inl []"
  by (auto simp: load_spec_def split: sum.splits)

lemma task_spec_Nil:
  assumes "task_spec_errors root src meta (Some selected) b = Inr []" "dhas meta ''spec_ref''"
  obtains spec where
    "load_spec root (py_str (dget_or meta ''id'' (PStr ''task''))) (py_str (dget meta ''spec_ref'')) = Inr (PDict spec)"
    "spec_errors (PDict spec) (policy_classes selected) = Inr []"
proof -
  obtain v where v: "load_spec root (py_str (dget_or meta ''id'' (PStr ''task''))) (py_str (dget meta ''spec_ref'')) = Inr v"
      "spec_errors v (policy_classes selected) = Inr []"
    using assms unfolding task_spec_errors_def Let_def
    by (auto simp: select_policy_def bindE_Inr split: if_splits sum.splits)
  then have "is_dict v" by (auto simp: spec_errors_def split: if_splits)
  then show thesis using that v by (auto simp: is_dict_iff)
qed

lemma next_unmet_None:
  assumes "next_unmet_predicate root meta = Inr None" "dhas meta ''spec_ref''" "dget meta ''evidence_ledger'' = PDict ledger"
    and "load_spec root (py_str (dget_or meta ''id'' (PStr ''task''))) (py_str (dget meta ''spec_ref'')) = Inr (PDict spec)"
    and "dget ledger ''steps'' = PList steps" "dget spec ''acceptance_predicates'' = PList items"
    and "PDict e \<in> set items" "dget e ''id'' = PStr i" "dhas e ''id''"
  shows "\<exists>d. PDict d \<in> set steps \<and> is_pass d \<and> dget d ''predicate_id'' = PStr i"
proof -
  let ?passing = "map (\<lambda>s. dget (dict_of s) ''predicate_id'') (filter (\<lambda>s. is_dict s \<and> is_pass (dict_of s)) steps)"
  have h: "dget_or ledger ''steps'' (PList []) = PList steps" "dget_or spec ''acceptance_predicates'' (PList []) = PList items"
    using assms(5,6) by (auto simp: dget_or_def dget_def split: option.splits)
  obtain r where r: "find_result (\<lambda>i. bindE (get_attr i ''id'' PNone) (\<lambda>x. bindE (hashed_in x ?passing) (\<lambda>b. Inr (\<not> b)))) items = Inr r"
      "(case r of None \<Rightarrow> Inr None | Some i \<Rightarrow> bindE (subscript i ''id'') (\<lambda>x. Inr (Some x))) = Inr None"
    using assms(1-4) h unfolding next_unmet_predicate_def Let_def by (auto simp: bindE_Inr)
  then have "r = None" by (cases r) (auto simp: bindE_Inr)
  then have "bindE (get_attr (PDict e) ''id'' PNone) (\<lambda>x. bindE (hashed_in x ?passing) (\<lambda>b. Inr (\<not> b))) = Inr False"
    using r(1) assms(7) by (auto simp: find_result_None)
  moreover have "dget_or e ''id'' PNone = PStr i"
    using assms(8) by (auto simp: dget_or_def dget_def split: option.splits)
  ultimately have "py_in (PStr i) ?passing"
    by (auto simp: hashed_in_def hashable_def split: if_splits)
  then show ?thesis
    by (auto simp: py_in_PStr is_dict_iff)
qed

section \<open>Properties\<close>

text \<open>Property C26. A task with a specification and an evidence ledger is admitted to \<open>done\<close> only when its
  specification is valid and every acceptance predicate has a row that passes for the
  candidate of the ledger, whose evidence file has the recorded digest and an evidence class of
  the project's vocabulary.\<close>

theorem done_requires_evidence:
  assumes "done_admission_error root src meta (Some selected) = Inr None"
    and "dhas meta ''spec_ref''" "dget meta ''evidence_ledger'' = PDict ledger"
  shows "\<exists>spec items steps. load_spec root (py_str (dget_or meta ''id'' (PStr ''task''))) (py_str (dget meta ''spec_ref'')) = Inr (PDict spec) \<and>
    spec_errors (PDict spec) (policy_classes selected) = Inr [] \<and> dget spec ''acceptance_predicates'' = PList items \<and> items \<noteq> [] \<and>
    dget ledger ''steps'' = PList steps \<and>
    (\<forall>item \<in> set items. \<exists>i step. dget (dict_of item) ''id'' = PStr i \<and> PDict step \<in> set steps \<and>
       dget step ''predicate_id'' = PStr i \<and> backed_by root (policy_classes selected) ledger step)"
proof -
  have d: "task_spec_errors root src meta (Some selected) True = Inr []"
      "evidence_ledger_errors root src meta (Some selected) = Inr []" "next_unmet_predicate root meta = Inr None"
    using assms(1,3) by (auto simp: done_admission_error_def Let_def select_policy_def bindE_Inr split: if_splits)
  obtain spec where spec: "load_spec root (py_str (dget_or meta ''id'' (PStr ''task''))) (py_str (dget meta ''spec_ref'')) = Inr (PDict spec)"
      "spec_errors (PDict spec) (policy_classes selected) = Inr []"
    using d(1) assms(2) by (rule task_spec_Nil)
  then have "named_items_errors spec ''acceptance_predicates'' = []"
    by (auto simp: spec_errors_def spec_collection_errors_def bindE_Inr)
  then obtain items where items: "dget spec ''acceptance_predicates'' = PList items" "items \<noteq> []"
      "\<forall>i \<in> set items. \<exists>e s. i = PDict e \<and> dget e ''id'' = PStr s \<and> dhas e ''id'' \<and> is_id_ref s"
    using named_items_Nil by blast
  obtain predicates steps seen where l: "dget ledger ''steps'' = PList steps"
      "fold_result (ledger_step root meta (policy_classes selected) ledger predicates) steps ([], []) = Inr (seen, [])"
    using d(2) assms(3) by (rule evidence_ledger_Nil) (auto simp: select_policy_def)
  have "\<exists>i step. dget (dict_of item) ''id'' = PStr i \<and> PDict step \<in> set steps \<and>
       dget step ''predicate_id'' = PStr i \<and> backed_by root (policy_classes selected) ledger step" if it: "item \<in> set items" for item
  proof -
    obtain e i where e: "item = PDict e" "dget e ''id'' = PStr i" "dhas e ''id''"
      using items(3) it by blast
    obtain step where step: "PDict step \<in> set steps" "is_pass step" "dget step ''predicate_id'' = PStr i"
      using next_unmet_None [OF d(3) assms(2,3) spec(1) l(1) items(1)] it e by blast
    then have "backed_by root (policy_classes selected) ledger step"
      using ledger_fold_Nil(2) [OF l(2) step(1)] step_errors_Nil(2) by blast
    then show ?thesis using e step by auto
  qed
  then show ?thesis using spec items(1,2) l(1) by blast
qed

text \<open>A task whose one predicate is backed.\<close>

definition example_spec :: meta where
  "example_spec = [
     (''schema_version'', PInt 1), (''spec_ref'', PStr ''specs/one.json''), (''spec_revision'', PInt 1),
     (''acceptance_predicates'', PList [PDict [(''id'', PStr ''builds''), (''description'', PStr ''it builds'')]]),
     (''definition_of_done'', PList [PStr ''all built'']),
     (''inputs'', PList [PDict [(''id'', PStr ''code''), (''description'', PStr ''source'')]]),
     (''outputs'', PList [PDict [(''id'', PStr ''bin''), (''description'', PStr ''binary'')]]),
     (''allowed_tools'', PList [PStr ''make'']), (''forbidden_tools'', PList []),
     (''required_evidence_classes'', PList [PStr ''mechanical'']),
     (''gates'', PList [PDict [(''id'', PStr ''review''), (''description'', PStr ''reviewed'')]])]"

definition example_root :: project_root where
  "example_root = \<lparr>root_json = (\<lambda>_. Inr (PDict example_spec)), root_artifact = (\<lambda>_. Some [])\<rparr>"

definition empty_digest :: string where
  "empty_digest = ''sha256:'' @ sha256_hex []"

definition example_step :: meta where
  "example_step = [(''predicate_id'', PStr ''builds''), (''status'', PStr ''pass''), (''candidate_ref'', PStr ''out/bin''),
     (''candidate_digest'', PStr empty_digest), (''evidence_class'', PStr ''mechanical''), (''evidence_ref'', PStr ''out/log''),
     (''evidence_digest'', PStr empty_digest), (''recorded_task_revision'', PInt 3)]"

definition example_ledger :: meta where
  "example_ledger = [(''candidate_ref'', PStr ''out/bin''), (''candidate_digest'', PStr empty_digest), (''steps'', PList [PDict example_step])]"

definition example_spec_task :: meta where
  "example_spec_task = [(''id'', PStr ''AR-0001''), (''task_revision'', PInt 3), (''spec_ref'', PStr ''specs/one.json''),
     (''spec_revision'', PInt 1), (''evidence_ledger'', PDict example_ledger)]"

lemma is_digest_sha [simp]: "is_digest (''sha256:'' @ sha256_hex s)"
  using sha256_hex_shape by (simp add: is_digest_def starts_with_def)

lemma empty_digest_shape [simp]: "is_digest empty_digest"
  unfolding empty_digest_def by (rule is_digest_sha)

lemma example_artifact:
  assumes "is_evidence_ref r" "''..'' \<notin> set (path_parts r)"
  shows "artifact_digest example_root (PStr r) = PStr empty_digest"
  using assms by (simp add: artifact_digest_def example_root_def empty_digest_def)

lemma example_refs [simp]: "is_evidence_ref ''out/bin''" "is_evidence_ref ''out/log''" "is_spec_ref ''specs/one.json''"
    "''..'' \<notin> set (path_parts ''out/bin'')" "''..'' \<notin> set (path_parts ''out/log'')" "''..'' \<notin> set (path_parts ''specs/one.json'')"
  by code_simp+

lemma example_spec_valid: "spec_errors (PDict example_spec) EVIDENCE_CLASSES = Inr []"
  by code_simp

lemma example_loads: "load_spec example_root t ''specs/one.json'' = Inr (PDict example_spec)"
  by (simp add: load_spec_def starts_with_def example_root_def)

lemma example_step_ok:
  "step_errors example_root example_spec_task EVIDENCE_CLASSES example_ledger [PStr ''builds''] [] example_step = Inr []"
  by (simp add: step_errors_def example_step_def example_ledger_def hashed_in_def hashable_def py_in_def is_pass_def
      EVIDENCE_CLASSES_def revision_bad_def example_spec_task_def py_add_def not_text_def example_artifact)

lemma example_ledger_ok:
  "evidence_ledger_errors example_root (PolicyAbsent False) example_spec_task (Some DEFAULT_EVIDENCE_POLICY) = Inr []"
proof -
  have l: "dget example_spec_task ''evidence_ledger'' = PDict example_ledger" "dget example_spec_task ''spec_ref'' = PStr ''specs/one.json''"
    by (simp_all add: example_spec_task_def)
  have k: "keys_exact example_ledger LEDGER_FIELDS" "keys_exact example_step LEDGER_STEP_FIELDS"
      "dget example_ledger ''steps'' = PList [PDict example_step]" "dget example_ledger ''candidate_ref'' = PStr ''out/bin''"
      "dget example_ledger ''candidate_digest'' = PStr empty_digest" "spec_predicates example_spec = Inr [PStr ''builds'']"
    by (simp_all add: example_ledger_def example_step_def keys_exact_def dkeys_def LEDGER_FIELDS_def LEDGER_STEP_FIELDS_def
        spec_predicates_def example_spec_def hashable_def)
  show ?thesis
    using l k example_step_ok example_loads
    by (simp add: evidence_ledger_errors_def select_policy_def example_artifact ledger_step_def DEFAULT_EVIDENCE_POLICY_def Let_def)
qed

lemma example_done: "done_admission_error example_root (PolicyAbsent False) example_spec_task (Some DEFAULT_EVIDENCE_POLICY) = Inr None"
proof -
  have l: "dget example_spec_task ''evidence_ledger'' = PDict example_ledger" "dget example_spec_task ''spec_ref'' = PStr ''specs/one.json''"
      "dget example_spec_task ''spec_revision'' = PInt 1" "dhas example_spec_task ''spec_ref''"
      "dget example_spec ''spec_revision'' = PInt 1" "dget example_spec ''spec_ref'' = PStr ''specs/one.json''"
    by (simp_all add: example_spec_task_def example_spec_def)
  have t: "task_spec_errors example_root (PolicyAbsent False) example_spec_task (Some DEFAULT_EVIDENCE_POLICY) True = Inr []"
    using l example_spec_valid example_ledger_ok example_loads
    by (simp add: task_spec_errors_def select_policy_def spec_metadata_errors_def DEFAULT_EVIDENCE_POLICY_def)
  have n: "next_unmet_predicate example_root example_spec_task = Inr None"
    using l example_loads
    by (simp add: next_unmet_predicate_def)
      (simp add: example_ledger_def example_step_def example_spec_def is_pass_def hashable_def hashed_in_def py_in_def)
  show ?thesis
    using t n l example_ledger_ok by (simp add: done_admission_error_def select_policy_def)
qed

theorem done_requires_evidence_witness:
  "\<exists>spec items steps. done_admission_error example_root (PolicyAbsent False) example_spec_task (Some DEFAULT_EVIDENCE_POLICY) = Inr None \<and>
    load_spec example_root ''AR-0001'' ''specs/one.json'' = Inr (PDict spec) \<and> dget spec ''acceptance_predicates'' = PList items \<and>
    items \<noteq> [] \<and> dget example_ledger ''steps'' = PList steps"
proof -
  have l: "dhas example_spec_task ''spec_ref''" "dget example_spec_task ''evidence_ledger'' = PDict example_ledger"
      "py_str (dget_or example_spec_task ''id'' (PStr ''task'')) = ''AR-0001''" "py_str (dget example_spec_task ''spec_ref'') = ''specs/one.json''"
    by (simp_all add: example_spec_task_def)
  show ?thesis
    using done_requires_evidence [OF example_done l(1,2)] example_done l(3,4) by auto
qed

end
