(* ===== verification/Predicate_Ledger.thy ===== *)
theory Predicate_Ledger
  imports Task_Spec Claims
begin

text \<open>
  Acceptance of task results: \<open>src/tools/predicate_ledger.py\<close>, which records one predicate of the evidence
  ledger at a time and keeps the history of a ledger when its candidate changes, and the audited
  correction of \<open>src/tools/predicate_ledger_repair.py\<close>.
\<close>

section \<open>Recording a predicate\<close>

type_synonym predicate_inputs = "string \<times> string \<times> string \<times> bool"

definition predicate_acceptance_inputs :: "namespace \<Rightarrow> predicate_inputs option result" where
  "predicate_acceptance_inputs args =
     (let p = dget args ''predicate''; r = dget args ''candidate_ref''; d = dget args ''candidate_digest'';
          reopen = truthy (dget_or args ''reopen'' (PBool False)) in
      if p = PNone \<and> r = PNone \<and> d = PNone \<and> \<not> reopen then Inr None
      else if \<not> list_all (\<lambda>v. is_str v \<and> str_of v \<noteq> []) [p, r, d]
      then Inl (RuntimeError ''predicate acceptance requires predicate, candidate ref, and candidate digest'')
      else Inr (Some (str_of p, str_of r, str_of d, reopen)))"

text \<open>\<open>json.loads((root / str(meta["spec_ref"])).read_text())\<close>.\<close>

definition read_spec :: "project_root \<Rightarrow> meta \<Rightarrow> pyval result" where
  "read_spec root meta =
     bindE (ditem meta ''spec_ref'') (\<lambda>r. case root_json root (py_str r) of Inl e \<Rightarrow> Inl (ValueError e) | Inr v \<Rightarrow> Inr v)"

definition validate_spec :: "project_root \<Rightarrow> policy_source \<Rightarrow> meta \<Rightarrow> evidence_policy option \<Rightarrow> string \<Rightarrow> unit result" where
  "validate_spec root src meta policy predicate =
     bindE (raise_if (\<not> dhas meta ''spec_ref'' \<or> \<not> dhas meta ''spec_revision'')
              (RuntimeError ''predicate acceptance requires a bound task spec'')) (\<lambda>_.
     bindE (task_spec_errors root src (dpop meta ''evidence_ledger'') policy True) (\<lambda>errors.
     bindE (raise_if (errors \<noteq> []) (RuntimeError ''predicate acceptance task spec is unavailable'')) (\<lambda>_.
     bindE (read_spec root meta) (\<lambda>spec.
     bindE (subscript spec ''acceptance_predicates'') (\<lambda>items.
     bindE (py_iter items) (\<lambda>xs.
     bindE (map_result (\<lambda>i. subscript i ''id'') xs) (\<lambda>ids.
     raise_if (\<not> py_in (PStr predicate) ids) (RuntimeError ''predicate acceptance names an unknown predicate''))))))))"

definition ledger_for :: "meta \<Rightarrow> string \<Rightarrow> string \<Rightarrow> meta result" where
  "ledger_for meta candidate_ref candidate_digest =
     (let v = dget meta ''evidence_ledger'' in
      if v = PNone
      then Inr [(''candidate_ref'', PStr candidate_ref), (''candidate_digest'', PStr candidate_digest), (''steps'', PList [])]
      else if \<not> is_dict v then Inl (RuntimeError ''predicate evidence ledger is malformed'') else Inr (dict_of v))"

definition candidate_changed :: "meta \<Rightarrow> string \<Rightarrow> string \<Rightarrow> bool" where
  "candidate_changed ledger candidate_ref candidate_digest =
     (dget ledger ''candidate_ref'' \<noteq> PStr candidate_ref \<or> dget ledger ''candidate_digest'' \<noteq> PStr candidate_digest)"

definition age :: "pyval \<Rightarrow> pyval" where
  "age v = (if is_dict v \<and> is_pass (dict_of v) then PDict (dset (dict_of v) ''status'' (PStr ''stale'')) else v)"

definition historical_steps :: "pyval \<Rightarrow> pyval" where
  "historical_steps v = (if is_list v then PList (map age (list_of v)) else v)"

definition prospective_ledger :: "meta \<Rightarrow> string \<Rightarrow> string \<Rightarrow> meta" where
  "prospective_ledger ledger candidate_ref candidate_digest =
     dset (dset (dset ledger ''candidate_ref'' (PStr candidate_ref)) ''candidate_digest'' (PStr candidate_digest))
       ''steps'' (historical_steps (dget ledger ''steps''))"

definition validate_ledger ::
  "project_root \<Rightarrow> policy_source \<Rightarrow> meta \<Rightarrow> meta \<Rightarrow> evidence_policy option \<Rightarrow> string \<Rightarrow> string \<Rightarrow> bool \<Rightarrow> unit result" where
  "validate_ledger root src meta ledger policy candidate_ref candidate_digest changed =
     bindE (if \<not> changed then evidence_ledger_errors root src meta policy
            else evidence_ledger_errors root src
              (dset meta ''evidence_ledger'' (PDict (prospective_ledger ledger candidate_ref candidate_digest))) policy) (\<lambda>errors.
     raise_if (errors \<noteq> []) (RuntimeError (''predicate evidence is invalid: '' @ join ''; '' errors)))"

definition fresh_step :: "namespace \<Rightarrow> string \<Rightarrow> string \<Rightarrow> string \<Rightarrow> int \<Rightarrow> meta" where
  "fresh_step args predicate candidate_ref candidate_digest revision = [
     (''predicate_id'', PStr predicate),
     (''status'', PStr ''pass''),
     (''candidate_ref'', PStr candidate_ref),
     (''candidate_digest'', PStr candidate_digest),
     (''evidence_class'', dget args ''evidence_class''),
     (''evidence_ref'', dget args ''evidence_ref''),
     (''evidence_digest'', dget args ''evidence_digest''),
     (''recorded_task_revision'', PInt (revision + 1))]"

definition age_predicate :: "string \<Rightarrow> pyval \<Rightarrow> pyval" where
  "age_predicate predicate v = (if dget (dict_of v) ''predicate_id'' = PStr predicate then age v else v)"

definition record_step :: "namespace \<Rightarrow> meta \<Rightarrow> meta \<Rightarrow> string \<Rightarrow> string \<Rightarrow> string \<Rightarrow> bool \<Rightarrow> meta result" where
  "record_step args meta ledger predicate candidate_ref candidate_digest changed =
     (let steps = (if is_list (dget ledger ''steps'') then list_of (dget ledger ''steps'') else []);
          aged = (if changed then map age steps else steps);
          ledger1 = (if changed then dset (dset ledger ''candidate_ref'' (PStr candidate_ref)) ''candidate_digest'' (PStr candidate_digest)
                     else ledger) in
      bindE (raise_if (\<not> list_all is_dict steps) (TypeError ''cannot convert dictionary update sequence'')) (\<lambda>_.
      bindE (ditem meta ''task_revision'') (\<lambda>r.
      bindE (py_int r) (\<lambda>revision.
      Inr (dset meta ''evidence_ledger'' (PDict (dset ledger1 ''steps'' (PList (map (age_predicate predicate) aged @
        [PDict (fresh_step args predicate candidate_ref candidate_digest revision)])))))))))"

definition apply_predicate_acceptance ::
  "project_root \<Rightarrow> policy_source \<Rightarrow> namespace \<Rightarrow> meta \<Rightarrow> evidence_policy option \<Rightarrow> predicate_inputs \<Rightarrow> (meta \<times> string) result" where
  "apply_predicate_acceptance root src args meta policy inputs =
     (case inputs of (predicate, candidate_ref, candidate_digest, reopen) \<Rightarrow>
        bindE (validate_spec root src meta policy predicate) (\<lambda>_.
        bindE (ledger_for meta candidate_ref candidate_digest) (\<lambda>ledger.
        let changed = candidate_changed ledger candidate_ref candidate_digest in
        bindE (raise_if (changed \<and> \<not> reopen) (RuntimeError ''candidate changed; reopen predicate evidence before recording'')) (\<lambda>_.
        bindE (raise_if (reopen \<and> \<not> changed) (RuntimeError ''reopen requires a different candidate'')) (\<lambda>_.
        bindE (validate_ledger root src meta ledger policy candidate_ref candidate_digest changed) (\<lambda>_.
        bindE (record_step args meta ledger predicate candidate_ref candidate_digest changed) (\<lambda>meta1.
        bindE (evidence_ledger_errors root src meta1 policy) (\<lambda>errors.
        bindE (raise_if (errors \<noteq> []) (RuntimeError (''predicate evidence is invalid: '' @ join ''; '' errors))) (\<lambda>_.
        Inr (meta1, py_str (dget args ''note'')))))))))))"

definition plain_acceptance :: "namespace \<Rightarrow> meta \<Rightarrow> meta" where
  "plain_acceptance args meta =
     [(''status'', PStr ''pass''), (''evidence_class'', dget args ''evidence_class''), (''evidence_ref'', dget args ''evidence_ref''),
      (''evidence_digest'', dget args ''evidence_digest'')] @
     (if dhas meta ''spec_ref'' \<and> dhas meta ''spec_revision''
      then [(''spec_ref'', dget meta ''spec_ref''), (''spec_revision'', dget meta ''spec_revision'')]
      else [(''match'', PStr ''best_effort'')])"

text \<open>\<open>freshness\<close> is the result of the admission callback.\<close>

definition apply_acceptance ::
  "project_root \<Rightarrow> policy_source \<Rightarrow> namespace \<Rightarrow> meta \<Rightarrow> evidence_policy option \<Rightarrow> string option result \<Rightarrow> (meta \<times> string) result" where
  "apply_acceptance root src args meta policy freshness =
     bindE (require_owner args meta) (\<lambda>_.
     bindE (raise_if (dget meta ''status'' \<noteq> PStr ''in_progress'') (RuntimeError ''accept requires an active task'')) (\<lambda>_.
     bindE (require_revision args meta) (\<lambda>_.
     bindE freshness (\<lambda>error.
     bindE (case error of None \<Rightarrow> Inr () | Some m \<Rightarrow> raise_if (m \<noteq> []) (RuntimeError m)) (\<lambda>_.
     bindE (predicate_acceptance_inputs args) (\<lambda>inputs.
     case inputs of
       Some i \<Rightarrow> apply_predicate_acceptance root src args meta policy i
     | None \<Rightarrow>
         (let meta1 = dset meta ''spec_acceptance'' (PDict (plain_acceptance args meta)) in
          bindE (done_admission_error root src meta1 policy) (\<lambda>denied.
          case denied of Some m \<Rightarrow> Inl (RuntimeError m) | None \<Rightarrow> Inr (meta1, py_str (dget args ''note''))))))))))"

section \<open>Audited repair\<close>

definition MAX_REASON :: nat where "MAX_REASON = 512"

definition repair_digest :: "project_root \<Rightarrow> string \<Rightarrow> pyval" where
  "repair_digest root reference =
     (if starts_with reference ''/'' \<or> ''..'' \<in> set (path_parts reference) then PNone
      else case root_artifact root reference of None \<Rightarrow> PNone | Some payload \<Rightarrow> PStr (''sha256:'' @ sha256_hex payload))"

definition repair_row :: "string \<Rightarrow> pyval \<Rightarrow> pyval result" where
  "repair_row predicate v =
     (if \<not> is_dict v then Inl (RuntimeError ''predicate-ledger repair found a malformed historical row'')
      else Inr (age_predicate predicate v))"

definition repair_target :: "project_root \<Rightarrow> policy_source \<Rightarrow> namespace \<Rightarrow> meta \<Rightarrow> evidence_policy \<Rightarrow> unit result" where
  "repair_target root src args meta selected =
     (let predicate = py_str (dget args ''predicate''); ledger = dict_of (dget meta ''evidence_ledger'');
          cref = dget args ''candidate_ref''; cdig = dget args ''candidate_digest'' in
      bindE (raise_if (\<not> is_dict (dget meta ''evidence_ledger'') \<or> \<not> keys_exact ledger LEDGER_FIELDS \<or> \<not> is_list (dget ledger ''steps''))
               (RuntimeError ''predicate-ledger repair requires a canonical evidence ledger'')) (\<lambda>_.
      bindE (task_spec_errors root src (dpop meta ''evidence_ledger'') (Some selected) True) (\<lambda>errors.
      bindE (raise_if (errors \<noteq> []) (RuntimeError ''predicate-ledger repair task spec is unavailable'')) (\<lambda>_.
      bindE (read_spec root meta) (\<lambda>spec.
      bindE (subscript spec ''acceptance_predicates'') (\<lambda>items.
      bindE (py_iter items) (\<lambda>xs.
      bindE (map_result (\<lambda>i. subscript i ''id'') (filter is_dict xs)) (\<lambda>ids.
      bindE (raise_if (\<not> py_in (PStr predicate) ids) (RuntimeError ''predicate-ledger repair names an unknown predicate'')) (\<lambda>_.
      bindE (raise_if (is_str cref \<and> \<not> is_str cdig) (TypeError ''expected string or bytes-like object'')) (\<lambda>_.
      bindE (raise_if (not_text (\<lambda>_. True) cref \<or> not_text is_digest cdig \<or> repair_digest root (str_of cref) \<noteq> cdig)
               (RuntimeError ''predicate-ledger repair candidate is stale'')) (\<lambda>_.
      bindE (raise_if (py_eq cref (dget ledger ''candidate_ref'') \<and> py_eq cdig (dget ledger ''candidate_digest''))
               (RuntimeError ''predicate-ledger repair candidate is not new'')) (\<lambda>_.
      bindE (hash_in (dget args ''evidence_class'') (policy_classes selected)) (\<lambda>known.
      raise_if (\<not> known) (RuntimeError ''predicate-ledger repair evidence class is unknown''))))))))))))))"

definition repair_ledger ::
  "project_root \<Rightarrow> policy_source \<Rightarrow> namespace \<Rightarrow> meta \<Rightarrow> evidence_policy option \<Rightarrow> (meta \<times> string) result" where
  "repair_ledger root src args meta policy =
     (let reason = py_str (dget args ''reason''); predicate = py_str (dget args ''predicate'');
          eref = py_str (dget args ''evidence_ref''); edig = py_str (dget args ''evidence_digest'');
          selected = (case policy of Some p \<Rightarrow> p | None \<Rightarrow> DEFAULT_EVIDENCE_POLICY);
          ledger = dict_of (dget meta ''evidence_ledger''); cref = dget args ''candidate_ref''; cdig = dget args ''candidate_digest'' in
      bindE (raise_if (\<not> py_eq (dget args ''expected_revision'') (dget meta ''task_revision''))
               (stale_revision (dget args ''expected_revision'') (dget meta ''task_revision''))) (\<lambda>_.
      bindE (raise_if (dget meta ''status'' \<noteq> PStr ''done'' \<or> truthy (dget meta ''owner'') \<or> truthy (dget meta ''claim_expires''))
               (RuntimeError ''predicate-ledger repair requires a done, inactive, unowned task'')) (\<lambda>_.
      bindE (raise_if (strip reason = [] \<or> MAX_REASON < length reason \<or> list_ex (\<lambda>c. (of_char c :: nat) < 32) reason)
               (RuntimeError ''predicate-ledger repair reason is empty or unbounded'')) (\<lambda>_.
      bindE (raise_if (\<not> is_evidence_ref eref \<or> starts_with eref ''/'' \<or> ''..'' \<in> set (path_parts eref))
               (RuntimeError ''predicate-ledger repair evidence ref is unsafe'')) (\<lambda>_.
      bindE (raise_if (\<not> is_digest edig \<or> repair_digest root eref \<noteq> PStr edig)
               (RuntimeError ''predicate-ledger repair evidence digest is not fresh'')) (\<lambda>_.
      bindE (repair_target root src args meta selected) (\<lambda>_.
      bindE (ditem meta ''task_revision'') (\<lambda>r.
      bindE (py_int r) (\<lambda>revision.
      bindE (map_result (repair_row predicate) (list_of (dget ledger ''steps''))) (\<lambda>historical.
      let fresh = fresh_step [(''evidence_class'', dget args ''evidence_class''), (''evidence_ref'', PStr eref), (''evidence_digest'', PStr edig)]
            predicate (str_of cref) (str_of cdig) revision in
      Inr (dset meta ''evidence_ledger'' (PDict (dset (dset (dset ledger ''candidate_ref'' cref) ''candidate_digest'' cdig)
             ''steps'' (PList (historical @ [PDict fresh])))), reason)))))))))))"

section \<open>What happens to the rows\<close>

lemma fresh_step_row:
  "dget (fresh_step args p cref cdig revision) ''predicate_id'' = PStr p" "is_pass (fresh_step args p cref cdig revision)"
  by (simp_all add: fresh_step_def is_pass_def)

text \<open>A row is retained when it stays as it is or, having passed, is marked stale.\<close>

definition retained :: "pyval \<Rightarrow> pyval \<Rightarrow> bool" where
  "retained v w = (w = v \<or> is_pass (dict_of v) \<and> w = PDict (dset (dict_of v) ''status'' (PStr ''stale'')))"

lemma is_pass_stale [simp]: "\<not> is_pass (dset d ''status'' (PStr ''stale''))"
  by (simp add: is_pass_def)

lemma retained_age [simp]: "retained v (age v)" "retained v (age_predicate p v)"
  by (auto simp: retained_def age_def age_predicate_def)

lemma retained_age_twice: "retained v (age_predicate p (age v))"
  by (auto simp: retained_def age_def age_predicate_def)

lemma age_predicate_pass: "is_dict v \<Longrightarrow> is_pass (dict_of (age_predicate p v)) \<Longrightarrow> dget (dict_of (age_predicate p v)) ''predicate_id'' \<noteq> PStr p"
  by (auto simp: age_def age_predicate_def split: if_splits)

lemma is_dict_age [simp]: "is_dict v \<Longrightarrow> is_dict (age v)"
  by (simp add: age_def)

text \<open>The rows of a task's ledger.\<close>

definition ledger_rows :: "meta \<Rightarrow> pyval list" where
  "ledger_rows meta = list_of (dget (dict_of (dget meta ''evidence_ledger'')) ''steps'')"

lemma record_step_Inr:
  assumes "record_step args meta ledger p cref cdig changed = Inr meta'"
  obtains rows revision where "dget meta' ''evidence_ledger'' = PDict (dset (if changed
        then dset (dset ledger ''candidate_ref'' (PStr cref)) ''candidate_digest'' (PStr cdig) else ledger)
        ''steps'' (PList (rows @ [PDict (fresh_step args p cref cdig revision)])))"
    "list_all2 retained (list_of (dget ledger ''steps'')) rows"
    "\<forall>v \<in> set rows. is_pass (dict_of v) \<longrightarrow> dget (dict_of v) ''predicate_id'' \<noteq> PStr p"
    "rows = map (age_predicate p) (if changed then map age (list_of (dget ledger ''steps'')) else list_of (dget ledger ''steps''))"
proof -
  let ?steps = "list_of (dget ledger ''steps'')"
  have steps: "(if is_list (dget ledger ''steps'') then ?steps else []) = ?steps"
    by (cases "dget ledger ''steps''") (simp_all add: list_of_def)
  define rows where "rows = map (age_predicate p) (if changed then map age ?steps else ?steps)"
  obtain revision where d: "list_all is_dict ?steps"
    "meta' = dset meta ''evidence_ledger'' (PDict (dset (if changed
        then dset (dset ledger ''candidate_ref'' (PStr cref)) ''candidate_digest'' (PStr cdig) else ledger)
        ''steps'' (PList (rows @ [PDict (fresh_step args p cref cdig revision)]))))"
    using assms unfolding record_step_def steps rows_def Let_def by (auto simp: bindE_Inr raise_if_Inr)
  have "list_all2 retained ?steps rows"
    by (auto simp: rows_def list_all2_map2 retained_age_twice intro!: list_all2_refl)
  moreover have "\<forall>v \<in> set rows. is_pass (dict_of v) \<longrightarrow> dget (dict_of v) ''predicate_id'' \<noteq> PStr p"
    using d(1) age_predicate_pass by (auto simp: rows_def list_all_iff split: if_splits)
  ultimately show thesis
    using that [of rows revision] d(2) rows_def by auto
qed

lemma apply_predicate_Inr:
  assumes "apply_predicate_acceptance root src args meta policy (p, cref, cdig, reopen) = Inr (meta', msg)"
  obtains ledger where "ledger_for meta cref cdig = Inr ledger" "reopen \<longleftrightarrow> candidate_changed ledger cref cdig"
    "record_step args meta ledger p cref cdig reopen = Inr meta'" "evidence_ledger_errors root src meta' policy = Inr []"
    "validate_ledger root src meta ledger policy cref cdig reopen = Inr ()"
  using assms by (auto simp: apply_predicate_acceptance_def bindE_Inr raise_if_Inr Let_def)

lemma ledger_for_rows:
  assumes "ledger_for meta cref cdig = Inr ledger"
  shows "list_of (dget ledger ''steps'') = ledger_rows meta"
  using assms
  by (auto simp: ledger_for_def ledger_rows_def Let_def dict_of_def list_of_def is_dict_iff split: if_splits pyval.splits)

lemma valid_ledger_row:
  assumes "evidence_ledger_errors root src meta policy = Inr []" "dget meta ''evidence_ledger'' = PDict ledger"
    and "PDict step \<in> set (ledger_rows meta)"
  shows "\<exists>selected. select_policy src policy = Inr selected \<and>
    (is_pass step \<longrightarrow> backed_by root (policy_classes selected) ledger step) \<and>
    (\<not> is_pass step \<longrightarrow> \<not> (py_eq (dget step ''candidate_ref'') (dget ledger ''candidate_ref'') \<and>
       py_eq (dget step ''candidate_digest'') (dget ledger ''candidate_digest'')))"
proof -
  obtain selected spec predicates steps seen where l: "select_policy src policy = Inr selected"
    "dget ledger ''steps'' = PList steps"
    "fold_result (ledger_step root meta (policy_classes selected) ledger predicates) steps ([], []) = Inr (seen, [])"
    using assms(1,2) by (rule evidence_ledger_Nil)
  have "PDict step \<in> set steps" using assms(2,3) l(2) by (simp add: ledger_rows_def)
  then obtain seen0 where "step_errors root meta (policy_classes selected) ledger predicates seen0 step = Inr []"
    using ledger_fold_Nil(2) [OF l(3)] by blast
  from step_errors_Nil(2,4) [OF this] show ?thesis using l(1) by blast
qed

section \<open>Properties\<close>

text \<open>Property C27. Recording a predicate appends exactly one passing row for it, backed by the candidate
  and the evidence on disk, keeps every earlier row (a row changes at most from pass to
  stale), leaves no other passing row for that predicate, and leaves a ledger the validator accepts.\<close>

theorem acceptance_keeps_history:
  assumes "apply_predicate_acceptance root src args meta policy (p, cref, cdig, reopen) = Inr (meta', msg)"
  shows "\<exists>selected ledger' rows step. select_policy src policy = Inr selected \<and>
    dget meta' ''evidence_ledger'' = PDict ledger' \<and> evidence_ledger_errors root src meta' policy = Inr [] \<and>
    dget ledger' ''steps'' = PList (rows @ [PDict step]) \<and> list_all2 retained (ledger_rows meta) rows \<and>
    dget step ''predicate_id'' = PStr p \<and> backed_by root (policy_classes selected) ledger' step \<and>
    (\<forall>v \<in> set rows. is_pass (dict_of v) \<longrightarrow> dget (dict_of v) ''predicate_id'' \<noteq> PStr p)"
proof -
  obtain ledger where a: "ledger_for meta cref cdig = Inr ledger" "record_step args meta ledger p cref cdig reopen = Inr meta'"
      "evidence_ledger_errors root src meta' policy = Inr []"
    using assms by (rule apply_predicate_Inr)
  obtain rows revision where r: "dget meta' ''evidence_ledger'' = PDict (dset (if reopen
        then dset (dset ledger ''candidate_ref'' (PStr cref)) ''candidate_digest'' (PStr cdig) else ledger)
        ''steps'' (PList (rows @ [PDict (fresh_step args p cref cdig revision)])))"
      "list_all2 retained (list_of (dget ledger ''steps'')) rows"
      "\<forall>v \<in> set rows. is_pass (dict_of v) \<longrightarrow> dget (dict_of v) ''predicate_id'' \<noteq> PStr p"
    using a(2) by (rule record_step_Inr)
  have "PDict (fresh_step args p cref cdig revision) \<in> set (ledger_rows meta')"
    by (simp add: ledger_rows_def r(1))
  from valid_ledger_row [OF a(3) r(1) this]
  obtain selected where "select_policy src policy = Inr selected"
    "backed_by root (policy_classes selected) (dset (if reopen
        then dset (dset ledger ''candidate_ref'' (PStr cref)) ''candidate_digest'' (PStr cdig) else ledger)
        ''steps'' (PList (rows @ [PDict (fresh_step args p cref cdig revision)]))) (fresh_step args p cref cdig revision)"
    by (auto simp: fresh_step_def is_pass_def)
  moreover have "dget (fresh_step args p cref cdig revision) ''predicate_id'' = PStr p"
    by (simp add: fresh_step_def)
  ultimately show ?thesis
    using a(3) r(1,3) r(2) [unfolded ledger_for_rows [OF a(1)]]
    by (intro exI [of _ selected] exI conjI) (assumption | simp)+
qed

lemma example_validate_spec:
  "validate_spec example_root (PolicyAbsent False) (dpop example_spec_task ''evidence_ledger'') (Some DEFAULT_EVIDENCE_POLICY) ''builds'' = Inr ()"
proof -
  let ?m = "dpop example_spec_task ''evidence_ledger''"
  have l: "dget ?m ''spec_ref'' = PStr ''specs/one.json''" "dhas ?m ''spec_ref''" "dhas ?m ''spec_revision''" "dget ?m ''spec_revision'' = PInt 1"
      "dget ?m ''evidence_ledger'' = PNone" "dget (dpop ?m ''evidence_ledger'') ''spec_ref'' = PStr ''specs/one.json''"
      "ditem ?m ''spec_ref'' = Inr (PStr ''specs/one.json'')"
      "dget example_spec ''spec_revision'' = PInt 1" "dget example_spec ''spec_ref'' = PStr ''specs/one.json''"
      "ditem example_spec ''acceptance_predicates'' = Inr (PList [PDict [(''id'', PStr ''builds''), (''description'', PStr ''it builds'')]])"
    by (simp_all add: example_spec_task_def example_spec_def)
  have e: "evidence_ledger_errors example_root src m (Some q) = Inr []" if "dget m ''evidence_ledger'' = PNone" for m src q
    using that by (simp add: evidence_ledger_errors_def)
  have t: "task_spec_errors example_root (PolicyAbsent False) (dpop ?m ''evidence_ledger'') (Some DEFAULT_EVIDENCE_POLICY) True = Inr []"
    using l example_spec_valid example_loads e
    by (simp add: task_spec_errors_def select_policy_def spec_metadata_errors_def DEFAULT_EVIDENCE_POLICY_def)
  show ?thesis
    using l t by (simp add: validate_spec_def read_spec_def) (simp add: example_root_def py_in_def)
qed

definition example_accept_args :: namespace where
  "example_accept_args = [(''evidence_class'', PStr ''mechanical''), (''evidence_ref'', PStr ''out/log''),
     (''evidence_digest'', PStr empty_digest), (''note'', PStr ''ok'')]"

lemma example_accepts:
  "\<exists>meta' msg. apply_predicate_acceptance example_root (PolicyAbsent False) example_accept_args
     (dpop example_spec_task ''evidence_ledger'') (Some DEFAULT_EVIDENCE_POLICY) (''builds'', ''out/bin'', empty_digest, False) = Inr (meta', msg)"
proof -
  let ?m = "dpop example_spec_task ''evidence_ledger''"
  let ?l = "[(''candidate_ref'', PStr ''out/bin''), (''candidate_digest'', PStr empty_digest), (''steps'', PList [])]"
  let ?step = "fresh_step example_accept_args ''builds'' ''out/bin'' empty_digest 3"
  let ?l' = "dset ?l ''steps'' (PList [PDict ?step])"
  let ?m' = "dset ?m ''evidence_ledger'' (PDict ?l')"
  have m: "dget ?m ''evidence_ledger'' = PNone" "ditem ?m ''task_revision'' = Inr (PInt 3)" "dget ?m' ''spec_ref'' = PStr ''specs/one.json''"
      "dget_or ?m' ''task_revision'' w = PInt 3" for w
    by (simp_all add: example_spec_task_def)
  have r: "record_step example_accept_args ?m ?l ''builds'' ''out/bin'' empty_digest False = Inr ?m'"
    using m(2) by (simp add: record_step_def)
  have so: "step_errors example_root ?m' EVIDENCE_CLASSES ?l' [PStr ''builds''] [] ?step = Inr []"
    using m(4) by (simp add: step_errors_def fresh_step_def hashed_in_def hashable_def py_in_def is_pass_def EVIDENCE_CLASSES_def
        revision_bad_def py_add_def not_text_def example_artifact example_accept_args_def)
  have k: "keys_exact ?l' LEDGER_FIELDS" "keys_exact ?step LEDGER_STEP_FIELDS" "spec_predicates example_spec = Inr [PStr ''builds'']"
    by (simp_all add: fresh_step_def keys_exact_def dkeys_def LEDGER_FIELDS_def LEDGER_STEP_FIELDS_def dset_def
        spec_predicates_def example_spec_def hashable_def)
  have e: "evidence_ledger_errors example_root (PolicyAbsent False) ?m' (Some DEFAULT_EVIDENCE_POLICY) = Inr []"
    using m k so example_loads
    by (simp add: evidence_ledger_errors_def select_policy_def example_artifact ledger_step_def DEFAULT_EVIDENCE_POLICY_def Let_def)
  show ?thesis
    using example_validate_spec m(1) r e
    by (simp add: apply_predicate_acceptance_def ledger_for_def candidate_changed_def validate_ledger_def evidence_ledger_errors_def [of _ _ ?m])
qed

theorem acceptance_keeps_history_witness:
  "\<exists>meta' msg ledger' rows step. apply_predicate_acceptance example_root (PolicyAbsent False) example_accept_args
      (dpop example_spec_task ''evidence_ledger'') (Some DEFAULT_EVIDENCE_POLICY) (''builds'', ''out/bin'', empty_digest, False) = Inr (meta', msg) \<and>
    dget meta' ''evidence_ledger'' = PDict ledger' \<and> dget ledger' ''steps'' = PList (rows @ [PDict step]) \<and>
    dget step ''predicate_id'' = PStr ''builds''"
proof -
  obtain meta' msg where a: "apply_predicate_acceptance example_root (PolicyAbsent False) example_accept_args
      (dpop example_spec_task ''evidence_ledger'') (Some DEFAULT_EVIDENCE_POLICY) (''builds'', ''out/bin'', empty_digest, False) = Inr (meta', msg)"
    using example_accepts by blast
  show ?thesis using acceptance_keeps_history [OF a] a by blast
qed

section \<open>A predicate is accepted once per candidate\<close>

text \<open>A predicate that passed for the current candidate cannot be recorded again for it: its old row would become
  a stale row of the current candidate, which the ledger check refuses.\<close>

lemma reaccept_refused:
  assumes "dget meta ''evidence_ledger'' = PDict ledger" "PDict row \<in> set (ledger_rows meta)" "is_pass row"
    and "dget row ''predicate_id'' = PStr p" "\<not> reopen"
  shows "apply_predicate_acceptance root src args meta policy (p, cref, cdig, reopen) \<noteq> Inr (meta', msg)"
proof
  assume "apply_predicate_acceptance root src args meta policy (p, cref, cdig, reopen) = Inr (meta', msg)"
  then obtain l where a: "ledger_for meta cref cdig = Inr l" "record_step args meta l p cref cdig reopen = Inr meta'"
      "evidence_ledger_errors root src meta' policy = Inr []" "validate_ledger root src meta l policy cref cdig reopen = Inr ()"
    by (rule apply_predicate_Inr)
  have l: "l = ledger" using a(1) assms(1) by (simp add: ledger_for_def)
  have ok: "evidence_ledger_errors root src meta policy = Inr []"
    using a(4) assms(5) by (auto simp: validate_ledger_def bindE_Inr raise_if_Inr)
  from valid_ledger_row [OF ok assms(1,2)] assms(3)
  obtain selected :: evidence_policy where b: "backed_by root (policy_classes selected) ledger row" by blast
  obtain rows revision where r: "dget meta' ''evidence_ledger'' = PDict (dset ledger ''steps'' (PList (rows @ [PDict (fresh_step args p cref cdig revision)])))"
      "rows = map (age_predicate p) (ledger_rows meta)"
    using a(2) assms(5) ledger_for_rows [OF a(1)] by (elim record_step_Inr) (simp add: l)
  let ?old = "dset row ''status'' (PStr ''stale'')"
  have "PDict ?old = age_predicate p (PDict row)"
    using assms(3,4) by (simp add: age_predicate_def age_def)
  then have "PDict ?old \<in> set rows"
    using assms(2) unfolding r(2) by auto
  then have "PDict ?old \<in> set (ledger_rows meta')" by (simp add: ledger_rows_def r(1))
  from valid_ledger_row [OF a(3) r(1) this] show False
    using b by (auto simp: backed_by_def)
qed

section \<open>Repair\<close>

lemma repair_ledger_Inr:
  assumes "repair_ledger root src args meta policy = Inr (meta', msg)"
  obtains ledger p step where "dget meta ''status'' = PStr ''done''" "\<not> truthy (dget meta ''owner'')" "\<not> truthy (dget meta ''claim_expires'')"
    "dget meta ''evidence_ledger'' = PDict ledger" "p = py_str (dget args ''predicate'')"
    "\<not> (py_eq (dget args ''candidate_ref'') (dget ledger ''candidate_ref'') \<and> py_eq (dget args ''candidate_digest'') (dget ledger ''candidate_digest''))"
    "is_str (dget args ''candidate_ref'')" "is_str (dget args ''candidate_digest'')" "list_all is_dict (ledger_rows meta)"
    "dget step ''predicate_id'' = PStr p" "is_pass step"
    "dget meta' ''evidence_ledger'' = PDict (dset (dset (dset ledger ''candidate_ref'' (dget args ''candidate_ref''))
        ''candidate_digest'' (dget args ''candidate_digest'')) ''steps'' (PList (map (age_predicate p) (ledger_rows meta) @ [PDict step])))"
proof -
  obtain ledger historical revision where h: "dget meta ''status'' = PStr ''done''" "\<not> truthy (dget meta ''owner'')"
      "\<not> truthy (dget meta ''claim_expires'')" "dget meta ''evidence_ledger'' = PDict ledger"
      "\<not> (py_eq (dget args ''candidate_ref'') (dget ledger ''candidate_ref'') \<and> py_eq (dget args ''candidate_digest'') (dget ledger ''candidate_digest''))"
      "is_str (dget args ''candidate_ref'')" "is_str (dget args ''candidate_digest'')"
      "map_result (repair_row (py_str (dget args ''predicate''))) (list_of (dget ledger ''steps'')) = Inr historical"
      "dget meta' ''evidence_ledger'' = PDict (dset (dset (dset ledger ''candidate_ref'' (dget args ''candidate_ref''))
        ''candidate_digest'' (dget args ''candidate_digest'')) ''steps'' (PList (historical @ [PDict (fresh_step
          [(''evidence_class'', dget args ''evidence_class''), (''evidence_ref'', PStr (py_str (dget args ''evidence_ref''))),
           (''evidence_digest'', PStr (py_str (dget args ''evidence_digest'')))]
            (py_str (dget args ''predicate'')) (str_of (dget args ''candidate_ref'')) (str_of (dget args ''candidate_digest'')) revision)])))"
    using assms unfolding repair_ledger_def repair_target_def Let_def
    by (auto simp: bindE_Inr raise_if_Inr not_text_def is_dict_iff)
  have rows: "list_of (dget ledger ''steps'') = ledger_rows meta" by (simp add: ledger_rows_def h(4))
  have "list_all2 (\<lambda>v w. repair_row (py_str (dget args ''predicate'')) v = Inr w) (ledger_rows meta) historical"
    using h(8) by (simp add: map_result_Inr_iff rows)
  then have "list_all is_dict (ledger_rows meta) \<and> historical = map (age_predicate (py_str (dget args ''predicate''))) (ledger_rows meta)"
    by (induction rule: list_all2_induct) (auto simp: repair_row_def split: if_splits)
  then show thesis
    using that [OF h(1-4) refl h(5-7) _ fresh_step_row(1,2)] h(9) by auto
qed

text \<open>A repair acts only on a done, unclaimed task, names a candidate that differs from the
  ledger's, keeps every earlier row (only passing rows of the repaired predicate become
  stale) and appends one passing row for that predicate.\<close>

theorem repair_keeps_history:
  assumes "repair_ledger root src args meta policy = Inr (meta', msg)"
  shows "\<exists>ledger' rows step. dget meta ''status'' = PStr ''done'' \<and> \<not> truthy (dget meta ''owner'') \<and>
    dget meta' ''evidence_ledger'' = PDict ledger' \<and> dget ledger' ''steps'' = PList (rows @ [PDict step]) \<and>
    list_all2 retained (ledger_rows meta) rows \<and> is_pass step \<and>
    dget step ''predicate_id'' = PStr (py_str (dget args ''predicate'')) \<and>
    (\<forall>v \<in> set (ledger_rows meta). dget (dict_of v) ''predicate_id'' \<noteq> PStr (py_str (dget args ''predicate'')) \<longrightarrow> v \<in> set rows) \<and>
    (\<forall>k. k \<noteq> ''evidence_ledger'' \<longrightarrow> dget meta' k = dget meta k)"
proof -
  let ?p = "py_str (dget args ''predicate'')"
  obtain ledger step where h: "dget meta ''status'' = PStr ''done''" "\<not> truthy (dget meta ''owner'')"
    "dget step ''predicate_id'' = PStr ?p" "is_pass step"
    "dget meta' ''evidence_ledger'' = PDict (dset (dset (dset ledger ''candidate_ref'' (dget args ''candidate_ref''))
        ''candidate_digest'' (dget args ''candidate_digest'')) ''steps'' (PList (map (age_predicate ?p) (ledger_rows meta) @ [PDict step])))"
    using assms by (elim repair_ledger_Inr) blast
  have frame: "\<forall>k. k \<noteq> ''evidence_ledger'' \<longrightarrow> dget meta' k = dget meta k"
    using assms unfolding repair_ledger_def Let_def by (auto simp: bindE_Inr)
  have "list_all2 retained (ledger_rows meta) (map (age_predicate ?p) (ledger_rows meta))"
    by (auto simp: list_all2_map2 intro!: list_all2_refl)
  moreover have "\<forall>v \<in> set (ledger_rows meta). dget (dict_of v) ''predicate_id'' \<noteq> PStr ?p \<longrightarrow>
      v \<in> set (map (age_predicate ?p) (ledger_rows meta))"
    by (force simp: age_predicate_def)
  ultimately show ?thesis
    using h frame by (intro exI conjI) (assumption | simp)+
qed

definition example_done_task :: meta where
  "example_done_task = dset example_spec_task ''status'' (PStr ''done'')"

definition example_repair_args :: namespace where
  "example_repair_args = [(''expected_revision'', PInt 3), (''reason'', PStr ''wrong candidate''), (''predicate'', PStr ''builds''),
     (''candidate_ref'', PStr ''out/log''), (''candidate_digest'', PStr empty_digest), (''evidence_class'', PStr ''mechanical''),
     (''evidence_ref'', PStr ''out/log''), (''evidence_digest'', PStr empty_digest)]"

lemma example_repair_target:
  "repair_target example_root (PolicyAbsent False) example_repair_args example_done_task DEFAULT_EVIDENCE_POLICY = Inr ()"
proof -
  let ?m = "dpop example_done_task ''evidence_ledger''"
  have l: "dget ?m ''spec_ref'' = PStr ''specs/one.json''" "dhas ?m ''spec_ref''" "dhas ?m ''spec_revision''" "dget ?m ''spec_revision'' = PInt 1"
      "dget ?m ''evidence_ledger'' = PNone" "ditem example_done_task ''spec_ref'' = Inr (PStr ''specs/one.json'')"
      "dget example_spec ''spec_revision'' = PInt 1" "dget example_spec ''spec_ref'' = PStr ''specs/one.json''"
      "ditem example_spec ''acceptance_predicates'' = Inr (PList [PDict [(''id'', PStr ''builds''), (''description'', PStr ''it builds'')]])"
    by (simp_all add: example_done_task_def example_spec_task_def example_spec_def)
  have t: "task_spec_errors example_root (PolicyAbsent False) ?m (Some DEFAULT_EVIDENCE_POLICY) True = Inr []"
    using l example_spec_valid example_loads
    by (simp add: task_spec_errors_def select_policy_def spec_metadata_errors_def DEFAULT_EVIDENCE_POLICY_def evidence_ledger_errors_def)
  have k: "dget example_done_task ''evidence_ledger'' = PDict example_ledger" "keys_exact example_ledger LEDGER_FIELDS"
      "is_list (dget example_ledger ''steps'')"
    by (simp_all add: example_done_task_def example_spec_task_def example_ledger_def keys_exact_def dkeys_def LEDGER_FIELDS_def)
  have d: "repair_digest example_root ''out/log'' = PStr empty_digest"
    by (simp add: repair_digest_def example_root_def empty_digest_def starts_with_def)
  have "read_spec example_root example_done_task = Inr (PDict example_spec)"
    using l(6) by (simp add: read_spec_def) (simp add: example_root_def)
  then show ?thesis
    using t l k d by (simp add: repair_target_def not_text_def example_repair_args_def)
      (simp add: example_ledger_def py_in_def hash_in_def hashable_def DEFAULT_EVIDENCE_POLICY_def EVIDENCE_CLASSES_def)
qed

lemma example_repairs:
  "\<exists>meta' msg. repair_ledger example_root (PolicyAbsent False) example_repair_args example_done_task None = Inr (meta', msg)"
proof -
  have d: "repair_digest example_root ''out/log'' = PStr empty_digest"
    by (simp add: repair_digest_def example_root_def empty_digest_def starts_with_def)
  have t: "dget example_done_task ''status'' = PStr ''done''" "dget example_done_task ''owner'' = PNone"
      "dget example_done_task ''claim_expires'' = PNone" "ditem example_done_task ''task_revision'' = Inr (PInt 3)"
      "dget example_done_task ''task_revision'' = PInt 3"
      "list_of (dget (dict_of (dget example_done_task ''evidence_ledger'')) ''steps'') = [PDict example_step]"
    by (simp_all add: example_done_task_def example_spec_task_def example_ledger_def)
  have r: "strip ''wrong candidate'' \<noteq> []" "length ''wrong candidate'' \<le> MAX_REASON"
      "\<not> list_ex (\<lambda>c. (of_char c :: nat) < 32) ''wrong candidate''"
    by code_simp+
  show ?thesis
    using d t r example_repair_target
    by (simp add: repair_ledger_def Let_def repair_row_def) (simp add: example_repair_args_def starts_with_def)
qed

theorem repair_keeps_history_witness:
  "\<exists>meta' msg ledger' rows step. repair_ledger example_root (PolicyAbsent False) example_repair_args example_done_task None = Inr (meta', msg) \<and>
    dget meta' ''evidence_ledger'' = PDict ledger' \<and> dget ledger' ''steps'' = PList (rows @ [PDict step]) \<and>
    list_all2 retained (ledger_rows example_done_task) rows \<and> is_pass step"
proof -
  obtain meta' msg where a: "repair_ledger example_root (PolicyAbsent False) example_repair_args example_done_task None = Inr (meta', msg)"
    using example_repairs by (elim exE)
  from repair_keeps_history [OF this]
  obtain ledger' rows step where "dget meta' ''evidence_ledger'' = PDict ledger'" "dget ledger' ''steps'' = PList (rows @ [PDict step])"
    "list_all2 retained (ledger_rows example_done_task) rows" "is_pass step" by (elim exE conjE)
  with a show ?thesis by (intro exI conjI)
qed

text \<open>Another predicate's passing row keeps its old candidate, so the repaired ledger is one that the
  validator refuses.\<close>

lemma repair_leaves_mixed_candidates:
  assumes "repair_ledger root src args meta policy = Inr (meta', msg)"
    and "dget meta ''evidence_ledger'' = PDict ledger" "PDict row \<in> set (ledger_rows meta)" "is_pass row"
    and "dget row ''predicate_id'' \<noteq> PStr (py_str (dget args ''predicate''))"
    and "dget row ''candidate_ref'' = dget ledger ''candidate_ref''" "dget row ''candidate_digest'' = dget ledger ''candidate_digest''"
  shows "evidence_ledger_errors root src meta' policy' \<noteq> Inr []"
proof
  assume ok: "evidence_ledger_errors root src meta' policy' = Inr []"
  let ?p = "py_str (dget args ''predicate'')"
  obtain step where h: "\<not> (py_eq (dget args ''candidate_ref'') (dget ledger ''candidate_ref'') \<and>
      py_eq (dget args ''candidate_digest'') (dget ledger ''candidate_digest''))"
    "is_str (dget args ''candidate_ref'')" "is_str (dget args ''candidate_digest'')"
    "dget meta' ''evidence_ledger'' = PDict (dset (dset (dset ledger ''candidate_ref'' (dget args ''candidate_ref''))
        ''candidate_digest'' (dget args ''candidate_digest'')) ''steps'' (PList (map (age_predicate ?p) (ledger_rows meta) @ [PDict step])))"
    using assms(1,2) by (elim repair_ledger_Inr) auto
  have "age_predicate ?p (PDict row) = PDict row" using assms(5) by (simp add: age_predicate_def)
  then have "PDict row \<in> set (ledger_rows meta')"
    using assms(3) by (force simp: ledger_rows_def [of meta'] h(4))
  from valid_ledger_row [OF ok h(4) this] show False
    using assms(4,6,7) h(1-3) by (auto simp: backed_by_def is_str_iff)
qed

end
