(* ===== verification/Linked_Records.thy ===== *)
theory Linked_Records
  imports Py_Digest
begin

text \<open>
  The interface of the digest-linked histories that task records carry (change drift, assumptions):
  every record names the digest of its predecessor and a larger revision. A client relies on one
  law about the check of a record against the state of the scan; what a scan of a whole history
  accepts, and what appending a record does, is proved once here.
\<close>

locale linked_history =
  fixes step :: "'e \<Rightarrow> string \<times> int \<times> 's \<Rightarrow> (string \<times> int \<times> 's) result"
    and entry_ok :: "'e \<Rightarrow> 's \<Rightarrow> bool"
    and link :: "'e \<Rightarrow> string"
    and identity :: "'e \<Rightarrow> string"
    and stamp :: "'e \<Rightarrow> int"
    and advance :: "'e \<Rightarrow> 's \<Rightarrow> 's"
  assumes step_Inr:
    "step e (p, r, s) = Inr st \<longleftrightarrow> entry_ok e s \<and> link e = p \<and> r < stamp e \<and> st = (identity e, stamp e, advance e s)"
begin

lemma scan_Inr:
  "fold_result step es (p, r, s) = Inr (p', r', s') \<Longrightarrow>
     map link es = butlast (p # map identity es) \<and> sorted_wrt (<) (r # map stamp es) \<and>
     p' = last (p # map identity es) \<and> r' = last (r # map stamp es) \<and> s' = fold advance es s"
proof (induction es arbitrary: p r s)
  case (Cons e es)
  then have e: "entry_ok e s" "link e = p" "r < stamp e"
    and f: "fold_result step es (identity e, stamp e, advance e s) = Inr (p', r', s')"
    by (auto simp: bindE_Inr step_Inr)
  from Cons.IH [OF f] e show ?case
    by (cases es) (auto intro: less_trans)
qed simp

lemma scan_entry_ok:
  assumes "fold_result step es st0 = Inr st" and "e \<in> set es"
  shows "\<exists>xs ys. es = xs @ e # ys \<and> entry_ok e (fold advance xs (snd (snd st0)))"
  using assms
proof (induction es arbitrary: st0)
  case (Cons a es)
  obtain p r s where st0: "st0 = (p, r, s)" by (cases st0)
  have a: "entry_ok a s" and f: "fold_result step es (identity a, stamp a, advance a s) = Inr st"
    using Cons.prems(1) by (auto simp: st0 bindE_Inr step_Inr)
  show ?case
  proof (cases "e \<in> set es")
    case True
    then obtain xs ys where "es = xs @ e # ys" "entry_ok e (fold advance xs (advance a s))"
      using Cons.IH [OF f True] by auto
    then have "a # es = (a # xs) @ e # ys \<and> entry_ok e (fold advance (a # xs) (snd (snd st0)))"
      by (simp add: st0)
    then show ?thesis by blast
  next
    case False
    then have "a # es = [] @ e # es \<and> entry_ok e (fold advance [] (snd (snd st0)))"
      using a Cons.prems(2) by (simp add: st0)
    then show ?thesis by blast
  qed
qed simp

lemma scan_append:
  "fold_result step es st0 = Inr st \<Longrightarrow> fold_result step (es @ [e]) st0 = step e st"
  by (induction es arbitrary: st0) (auto simp: bindE_Inr bindE_def split: sum.splits)

lemma scan_prefix: "fold_result step (xs @ ys) st0 = Inr st \<Longrightarrow> \<exists>st1. fold_result step xs st0 = Inr st1 \<and> fold_result step ys st1 = Inr st"
  by (induction xs arbitrary: st0) (auto simp: bindE_Inr)

lemma scan_push:
  assumes "fold_result step es (p, r, s) = Inr (p', r', s')" "entry_ok e s'" "link e = p'" "r' < stamp e"
  shows "fold_result step (es @ [e]) (p, r, s) = Inr (identity e, stamp e, advance e s')"
  using assms by (simp add: scan_append step_Inr)

end

section \<open>Fields of linked records\<close>

text \<open>The predecessor, the digest and the revision that a stored record names.\<close>

definition record_link :: "pyval \<Rightarrow> string" where "record_link raw = str_of (dget (dict_of raw) ''previous_digest'')"
definition record_identity :: "pyval \<Rightarrow> string" where "record_identity raw = str_of (dget (dict_of raw) ''digest'')"
definition record_stamp :: "pyval \<Rightarrow> int" where "record_stamp raw = int_of (dget (dict_of raw) ''task_revision'')"

section \<open>Paths of records\<close>

text \<open>\<open>safe_path\<close> of \<open>src/tools/change_drift.py\<close>.\<close>

definition safe_path :: "pyval \<Rightarrow> bool" where
  "safe_path v =
     (is_str v \<and> str_of v \<noteq> [] \<and> length (str_of v) \<le> 1024 \<and> CHR 0x00 \<notin> set (str_of v) \<and>
      \<not> starts_with (str_of v) ''/'' \<and> list_all (\<lambda>p. p \<notin> {[], ''.'', ''..''}) (path_parts (str_of v)))"

text \<open>\<open>[0-9a-f]{40}|[0-9a-f]{64}\<close>.\<close>

definition is_object_id :: "string \<Rightarrow> bool" where
  "is_object_id s = (all_hex 40 s \<or> all_hex 64 s)"

lemma digest_not_Nil [simp]: "digest v \<noteq> []"
  by (simp add: digest_def)

end
