(* ===== verification/Task_Graph.thy ===== *)
theory Task_Graph
  imports Py_Values
begin

text \<open>
  The dependency graph of the board (\<open>src/tools/status_renderer.py\<close>) and the test that a dependency
  is satisfied (\<open>dependency_satisfied\<close> of \<open>src/tools/handoffctl.py\<close>).

  A task is its file name, its metadata and its body. The depth first search \<open>visit\<close> keeps the
  three mutable objects of the source, the error list, the colour of each node (1 while it is on the
  stack, 2 when it is finished) and the stack; its recursion is bounded by fuel, and the lemmas show
  that one unit per node of the graph is always enough.
\<close>

type_synonym task = "string \<times> meta \<times> string"

definition task_meta :: "task \<Rightarrow> meta" where "task_meta t = fst (snd t)"

text \<open>\<open>str(meta.get("id", ""))\<close>.\<close>

definition id_of :: "meta \<Rightarrow> string" where
  "id_of meta = py_str (dget_or meta ''id'' (PStr []))"

section \<open>Dependencies of one task\<close>

definition repeated :: "string list \<Rightarrow> string list" where
  "repeated xs = filter (\<lambda>x. 1 < count_list xs x) (sorted_set xs)"

definition task_dependencies :: "meta \<Rightarrow> string list \<Rightarrow> string list \<times> string list" where
  "task_dependencies meta known =
     (let task_id = id_of meta; v = dget_or meta ''depends_on'' (PList []) in
      if \<not> is_list v \<or> \<not> list_all is_str (list_of v)
      then ([task_id @ '': dependencies must be a list of AR identifiers''], [])
      else let deps = map str_of (list_of v) in
        (map (\<lambda>x. task_id @ '': duplicate dependency '' @ x) (repeated deps) @
         map (\<lambda>x. task_id @ '': self dependency'') (filter (\<lambda>x. x = task_id) deps) @
         map (\<lambda>x. task_id @ '': missing dependency '' @ x) (filter (\<lambda>x. x \<notin> set known) deps),
         deps))"

type_synonym graph = "(string \<times> string list) list"

definition dependency_shape :: "task list \<Rightarrow> string list \<times> graph" where
  "dependency_shape tasks =
     (let ids = map (id_of \<circ> task_meta) tasks in
      foldl (\<lambda>(errors, graph) t.
          let (task_errors, deps) = task_dependencies (task_meta t) ids
          in (errors @ task_errors, AList.update (id_of (task_meta t)) deps graph))
        (map (\<lambda>x. ''duplicate graph node '' @ x) (repeated ids), []) tasks)"

section \<open>Cycles\<close>

text \<open>The entries 1 and 2 of the dictionary \<open>state\<close>.\<close>

datatype mark = OnStack | Finished

type_synonym dfs = "string list \<times> (string \<Rightarrow> mark option) \<times> string list"

definition cycle_message :: "string list \<Rightarrow> string \<Rightarrow> string" where
  "cycle_message stack task_id =
     ''dependency cycle: '' @ join '' -> '' (dropWhile (\<lambda>x. x \<noteq> task_id) stack @ [task_id])"

text \<open>The dependencies that the loop of \<open>visit\<close> descends into.\<close>

definition graph_get :: "graph \<Rightarrow> string \<Rightarrow> string list" where
  "graph_get g x = (case map_of g x of None \<Rightarrow> [] | Some ds \<Rightarrow> ds)"

definition successors :: "graph \<Rightarrow> string \<Rightarrow> string list" where
  "successors g x =
     filter (\<lambda>d. map_of g d \<noteq> None) (sorted_set (graph_get g x))"

fun visit :: "nat \<Rightarrow> graph \<Rightarrow> string \<Rightarrow> dfs \<Rightarrow> dfs option"
  and visit_all :: "nat \<Rightarrow> graph \<Rightarrow> string list \<Rightarrow> dfs \<Rightarrow> dfs option" where
  "visit 0 g x s = None"
| "visit (Suc n) g x (errors, state, stack) =
     (if state x = Some Finished then Some (errors, state, stack)
      else if state x = Some OnStack then Some (errors @ [cycle_message stack x], state, stack)
      else case visit_all n g (successors g x) (errors, state(x := Some OnStack), stack @ [x]) of
        None \<Rightarrow> None
      | Some (errors', state', stack') \<Rightarrow> Some (errors', state'(x := Some Finished), butlast stack'))"
| "visit_all n g [] s = Some s"
| "visit_all n g (x # xs) s =
     (case visit n g x s of None \<Rightarrow> None | Some s' \<Rightarrow> visit_all n g xs s')"

definition cycle_errors :: "graph \<Rightarrow> string list" where
  "cycle_errors g =
     (case visit_all (Suc (length g)) g (sort (map fst g)) ([], Map.empty, []) of
        Some (errors, _) \<Rightarrow> errors
      | None \<Rightarrow> [])"

definition graph_errors :: "task list \<Rightarrow> string list" where
  "graph_errors tasks =
     (let (errors, graph) = dependency_shape tasks in errors @ cycle_errors graph)"

section \<open>Satisfied dependencies\<close>

text \<open>\<open>by_id.get(x)\<close> for \<open>by_id = {meta.get("id"): meta for ...}\<close>: the last task with that id.\<close>

definition by_id :: "task list \<Rightarrow> string \<Rightarrow> meta option" where
  "by_id tasks x = find (\<lambda>m. dget m ''id'' = PStr x) (rev (map task_meta tasks))"

definition successor_ref :: "meta \<Rightarrow> string option" where
  "successor_ref m =
     (let v = dget m ''superseded_by'' in
      if is_str v \<and> is_task_id (str_of v) then Some (str_of v) else None)"

definition unseen :: "task list \<Rightarrow> string list \<Rightarrow> nat" where
  "unseen tasks seen = length (filter (\<lambda>t. dget (task_meta t) ''id'' \<notin> PStr ` set seen) tasks)"

lemma by_id_mem: "by_id tasks x = Some m \<Longrightarrow> m \<in> set (map task_meta tasks) \<and> dget m ''id'' = PStr x"
  unfolding by_id_def by (drule find_Some_mem) simp

lemma unseen_decreases:
  assumes "by_id tasks x = Some m" and "x \<notin> set seen"
  shows "unseen tasks (x # seen) < unseen tasks seen"
proof -
  obtain t where t: "t \<in> set tasks" "task_meta t = m" "dget m ''id'' = PStr x"
    using by_id_mem [OF assms(1)] by auto
  show ?thesis
    unfolding unseen_def
    by (rule length_filter_strict [OF _ t(1)]) (use t assms(2) in auto)
qed

function satisfied_loop :: "task list \<Rightarrow> string list \<Rightarrow> string \<Rightarrow> bool" where
  "satisfied_loop tasks seen current =
     (if current \<in> set seen then False
      else case by_id tasks current of
        None \<Rightarrow> False
      | Some m \<Rightarrow>
          if dget m ''status'' = PStr ''done'' then True
          else if dget m ''status'' \<noteq> PStr ''superseded'' then False
          else case successor_ref m of
            None \<Rightarrow> False
          | Some s \<Rightarrow> satisfied_loop tasks (current # seen) s)"
  by pat_completeness auto
termination
  by (relation "measure (\<lambda>(tasks, seen, current). unseen tasks seen)") (auto simp: unseen_decreases)

definition dependency_satisfied :: "string \<Rightarrow> task list \<Rightarrow> bool" where
  "dependency_satisfied dependency_id tasks = satisfied_loop tasks [] dependency_id"

section \<open>The search ends\<close>

definition white :: "graph \<Rightarrow> (string \<Rightarrow> mark option) \<Rightarrow> string set" where
  "white g state = {x \<in> set (map fst g). state x = None}"

lemma finite_white [simp]: "finite (white g state)"
  by (simp add: white_def)

lemma white_mark: "x \<in> white g state \<Longrightarrow> card (white g (state(x := Some k))) < card (white g state)"
proof -
  assume "x \<in> white g state"
  then have "white g (state(x := Some k)) \<subset> white g state"
    by (auto simp: white_def)
  then show ?thesis
    by (simp add: psubset_card_mono)
qed

lemma successors_known: "y \<in> set (successors g x) \<Longrightarrow> y \<in> set (map fst g)"
proof -
  assume "y \<in> set (successors g x)"
  then have "map_of g y \<noteq> None" by (simp add: successors_def)
  then show ?thesis by (simp add: map_of_eq_None_iff)
qed

lemma white_mono: "white g state' \<subseteq> white g state \<Longrightarrow> card (white g state) < n \<Longrightarrow> card (white g state') < n"
  by (meson card_mono finite_white le_less_trans)

lemma visit_total:
  "x \<in> set (map fst g) \<Longrightarrow> card (white g (fst (snd s))) < n \<Longrightarrow>
     \<exists>s'. visit n g x s = Some s' \<and> white g (fst (snd s')) \<subseteq> white g (fst (snd s))"
  "set xs \<subseteq> set (map fst g) \<Longrightarrow> card (white g (fst (snd s))) < n \<Longrightarrow>
     \<exists>s'. visit_all n g xs s = Some s' \<and> white g (fst (snd s')) \<subseteq> white g (fst (snd s))"
proof (induction n g x s and n g xs s rule: visit_visit_all.induct)
  case (2 n g x e state k)
  show ?case
  proof (cases "state x")
    case None
    then have x: "x \<in> white g state"
      using 2(2) by (simp add: white_def)
    have "card (white g (state(x := Some OnStack))) < n"
      using white_mark [OF x, of OnStack] 2(3) by simp
    then obtain s1 where v: "visit_all n g (successors g x) (e, state(x := Some OnStack), k @ [x]) = Some s1"
      "white g (fst (snd s1)) \<subseteq> white g (state(x := Some OnStack))"
      using 2(1) None successors_known by (fastforce simp: subset_eq)
    then show ?thesis
      using None by (auto simp: white_def split: prod.splits)
  next
    case (Some m)
    then show ?thesis by (cases m) auto
  qed
next
  case (4 n g x xs s)
  then obtain s1 where s1: "visit n g x s = Some s1" "white g (fst (snd s1)) \<subseteq> white g (fst (snd s))"
    by auto
  moreover have "\<exists>s'. visit_all n g xs s1 = Some s' \<and> white g (fst (snd s')) \<subseteq> white g (fst (snd s1))"
    using 4 s1 white_mono by (intro 4(2) [OF s1(1)]) auto
  ultimately show ?case by auto
qed auto

section \<open>No error, no cycle\<close>

definition edges :: "graph \<Rightarrow> (string \<times> string) set" where
  "edges g = {(a, b). b \<in> set (successors g a)}"

text \<open>The finished part of the graph has a rank that decreases along its edges.\<close>

definition ranked :: "graph \<Rightarrow> (string \<Rightarrow> mark option) \<Rightarrow> bool" where
  "ranked g state \<longleftrightarrow> (\<exists>rk :: string \<Rightarrow> nat. \<forall>a b. state a = Some Finished \<longrightarrow> (a, b) \<in> edges g \<longrightarrow>
     state b = Some Finished \<and> rk b < rk a)"

lemma ranked_finish:
  assumes "ranked g state" "state x \<noteq> Some Finished"
    and "\<forall>b \<in> set (successors g x). state b = Some Finished"
  shows "ranked g (state(x := Some Finished))"
proof -
  obtain rk :: "string \<Rightarrow> nat" where
    rk: "\<And>a b. state a = Some Finished \<Longrightarrow> (a, b) \<in> edges g \<Longrightarrow> state b = Some Finished \<and> rk b < rk a"
    using assms(1) by (auto simp: ranked_def)
  define rk' where "rk' = rk(x := Suc (sum_list (map rk (successors g x))))"
  have "rk b \<le> sum_list (map rk (successors g x))" if "b \<in> set (successors g x)" for b
    using that by (simp add: member_le_sum_list)
  then show ?thesis
    unfolding ranked_def using rk assms(2,3)
    by (intro exI [of _ rk']) (force simp: rk'_def edges_def less_Suc_eq_le)
qed

lemma ranked_mark:
  assumes "ranked g state" "state x = None"
  shows "ranked g (state(x := Some OnStack))"
proof -
  obtain rk :: "string \<Rightarrow> nat" where
    "\<forall>a b. state a = Some Finished \<longrightarrow> (a, b) \<in> edges g \<longrightarrow> state b = Some Finished \<and> rk b < rk a"
    using assms(1) by (auto simp: ranked_def)
  then show ?thesis
    unfolding ranked_def using assms(2) by (intro exI [of _ rk]) auto
qed

definition sound_step :: "graph \<Rightarrow> dfs \<Rightarrow> dfs \<Rightarrow> string set \<Rightarrow> bool" where
  "sound_step g s s' xs \<longleftrightarrow>
     (fst s' = [] \<longrightarrow> ranked g (fst (snd s)) \<longrightarrow>
       fst s = [] \<and> ranked g (fst (snd s')) \<and> (\<forall>x \<in> xs. fst (snd s') x = Some Finished) \<and>
       (\<forall>y. fst (snd s) y = Some Finished \<longrightarrow> fst (snd s') y = Some Finished) \<and>
       (\<forall>y. fst (snd s') y = Some OnStack \<longleftrightarrow> fst (snd s) y = Some OnStack))"

lemma visit_errors_grow:
  "visit n g x s = Some s' \<Longrightarrow> \<exists>es. fst s' = fst s @ es"
  "visit_all n g xs s = Some s' \<Longrightarrow> \<exists>es. fst s' = fst s @ es"
proof (induction n g x s and n g xs s arbitrary: s' and s' rule: visit_visit_all.induct)
  case (2 n g x e state k)
  show ?case
  proof (cases "state x")
    case None
    then obtain s1 where v: "visit_all n g (successors g x) (e, state(x := Some OnStack), k @ [x]) = Some s1"
      and s': "fst s' = fst s1"
      using 2(2) by (auto split: option.splits prod.splits)
    then show ?thesis
      using 2(1) [OF _ _ v] None by simp
  next
    case (Some m)
    then show ?thesis using 2(2) by (cases m) auto
  qed
next
  case (4 n g x xs s)
  then obtain s1 where s1: "visit n g x s = Some s1" "visit_all n g xs s1 = Some s'"
    by (auto split: option.splits)
  show ?case
    using 4(1) [OF s1(1)] 4(2) [OF s1] by auto
qed auto

lemma visit_sound:
  "visit n g x s = Some s' \<Longrightarrow> sound_step g s s' {x}"
  "visit_all n g xs s = Some s' \<Longrightarrow> sound_step g s s' (set xs)"
proof (induction n g x s and n g xs s arbitrary: s' and s' rule: visit_visit_all.induct)
  case (2 n g x e state k)
  show ?case
  proof (cases "state x")
    case None
    then obtain e1 state1 k1 where v: "visit_all n g (successors g x) (e, state(x := Some OnStack), k @ [x]) = Some (e1, state1, k1)"
      and s': "s' = (e1, state1(x := Some Finished), butlast k1)"
      using 2(2) by (auto split: option.splits prod.splits)
    have ih: "sound_step g (e, state(x := Some OnStack), k @ [x]) (e1, state1, k1) (set (successors g x))"
      using 2(1) None v by simp
    show ?thesis
      unfolding sound_step_def
    proof (intro impI)
      assume a: "fst s' = []" "ranked g (fst (snd (e, state, k)))"
      have "ranked g (state(x := Some OnStack))"
        using a(2) None by (simp add: ranked_mark)
      then have i: "e = []" "ranked g state1" "\<forall>b \<in> set (successors g x). state1 b = Some Finished"
        "\<forall>y. (state(x := Some OnStack)) y = Some Finished \<longrightarrow> state1 y = Some Finished"
        "\<forall>y. state1 y = Some OnStack \<longleftrightarrow> (state(x := Some OnStack)) y = Some OnStack"
        using ih a(1) s' by (auto simp: sound_step_def)
      have "state1 x = Some OnStack"
        using i(5) by simp
      then have "ranked g (state1(x := Some Finished))"
        by (intro ranked_finish [OF i(2) _ i(3)]) simp
      then show "fst (e, state, k) = [] \<and> ranked g (fst (snd s')) \<and> (\<forall>x \<in> {x}. fst (snd s') x = Some Finished) \<and>
       (\<forall>y. fst (snd (e, state, k)) y = Some Finished \<longrightarrow> fst (snd s') y = Some Finished) \<and>
       (\<forall>y. fst (snd s') y = Some OnStack \<longleftrightarrow> fst (snd (e, state, k)) y = Some OnStack)"
        using i s' None by (auto split: if_splits)
    qed
  next
    case (Some m)
    then show ?thesis using 2(2) by (cases m) (auto simp: sound_step_def)
  qed
next
  case (4 n g x xs s)
  then obtain s1 where s1: "visit n g x s = Some s1" "visit_all n g xs s1 = Some s'"
    by (auto split: option.splits)
  have "fst s1 = []" if "fst s' = []"
    using visit_errors_grow(2) [OF s1(2)] that by auto
  then show ?case
    using 4(1) [OF s1(1)] 4(2) [OF s1] by (auto simp: sound_step_def)
qed (auto simp: sound_step_def)

lemma ranked_acyclic:
  assumes "ranked g state" "\<forall>x \<in> set (map fst g). state x = Some Finished"
  shows "acyclic (edges g)"
proof -
  obtain rk :: "string \<Rightarrow> nat" where
    rk: "\<And>a b. state a = Some Finished \<Longrightarrow> (a, b) \<in> edges g \<Longrightarrow> rk b < rk a"
    using assms(1) by (auto simp: ranked_def)
  have "a \<in> set (map fst g)" if "(a, b) \<in> edges g" for a b
  proof -
    have "map_of g a \<noteq> None"
      using that by (cases "map_of g a") (auto simp: edges_def successors_def graph_get_def sorted_set_def)
    then show ?thesis by (auto simp: map_of_eq_None_iff)
  qed
  then have "(edges g)\<inverse> \<subseteq> measure rk"
    using rk assms(2) by auto
  then show ?thesis
    using wf_acyclic [OF wf_subset [OF wf_measure]] acyclic_converse by blast
qed

lemma path_trancl:
  "successively (\<lambda>a b. (a, b) \<in> r) (x # vs @ [y]) \<Longrightarrow> (x, y) \<in> r\<^sup>+"
proof (induction vs arbitrary: x)
  case (Cons v vs)
  then have "(x, v) \<in> r" "(v, y) \<in> r\<^sup>+" by auto
  then show ?case by (rule trancl_into_trancl2)
qed auto

lemma path_cycle:
  assumes "successively (\<lambda>a b. (a, b) \<in> r) (k @ [x])" "x \<in> set k"
  shows "\<not> acyclic r"
proof -
  obtain us vs where k: "k = us @ x # vs"
    using assms(2) by (auto simp: in_set_conv_decomp)
  have "successively (\<lambda>a b. (a, b) \<in> r) (x # vs @ [x])"
    using assms(1) unfolding k by (auto simp: successively_append_iff)
  then show ?thesis
    using path_trancl by (force simp: acyclic_def)
qed

definition quiet_step :: "dfs \<Rightarrow> dfs \<Rightarrow> bool" where
  "quiet_step s s' \<longleftrightarrow> fst s' = fst s \<and> snd (snd s') = snd (snd s) \<and>
     (\<forall>y. fst (snd s') y = Some OnStack \<longleftrightarrow> y \<in> set (snd (snd s)))"

lemma visit_quiet:
  "acyclic (edges g) \<Longrightarrow> visit n g x s = Some s' \<Longrightarrow>
     (\<forall>y. fst (snd s) y = Some OnStack \<longleftrightarrow> y \<in> set (snd (snd s))) \<Longrightarrow>
     successively (\<lambda>a b. (a, b) \<in> edges g) (snd (snd s) @ [x]) \<Longrightarrow> quiet_step s s'"
  "acyclic (edges g) \<Longrightarrow> visit_all n g xs s = Some s' \<Longrightarrow>
     (\<forall>y. fst (snd s) y = Some OnStack \<longleftrightarrow> y \<in> set (snd (snd s))) \<Longrightarrow>
     (\<forall>x \<in> set xs. successively (\<lambda>a b. (a, b) \<in> edges g) (snd (snd s) @ [x])) \<Longrightarrow> quiet_step s s'"
proof (induction n g x s and n g xs s arbitrary: s' and s' rule: visit_visit_all.induct)
  case (2 n g x e state k)
  show ?case
  proof (cases "state x")
    case None
    then obtain e1 state1 k1 where v: "visit_all n g (successors g x) (e, state(x := Some OnStack), k @ [x]) = Some (e1, state1, k1)"
      and s': "s' = (e1, state1(x := Some Finished), butlast k1)"
      using 2(3) by (auto split: option.splits prod.splits)
    have "state x = Some OnStack \<longleftrightarrow> x \<in> set k" using 2(4) by simp
    with None have x: "x \<notin> set k" by simp
    have "quiet_step (e, state(x := Some OnStack), k @ [x]) (e1, state1, k1)"
    proof (rule 2(1) [OF _ _ 2(2) v])
      show "\<forall>y. fst (snd (e, state(x := Some OnStack), k @ [x])) y = Some OnStack \<longleftrightarrow>
          y \<in> set (snd (snd (e, state(x := Some OnStack), k @ [x])))"
        using 2(4) by auto
      show "\<forall>d \<in> set (successors g x). successively (\<lambda>a b. (a, b) \<in> edges g)
          (snd (snd (e, state(x := Some OnStack), k @ [x])) @ [d])"
        using 2(5) by (auto simp: successively_append_iff edges_def)
    qed (use None in auto)
    then show ?thesis
      using s' x by (auto simp: quiet_step_def)
  next
    case (Some m)
    then show ?thesis
      using 2(2-5) path_cycle [of "edges g" k x] by (cases m) (auto simp: quiet_step_def)
  qed
next
  case (4 n g x xs s)
  then obtain s1 where s1: "visit n g x s = Some s1" "visit_all n g xs s1 = Some s'"
    by (auto split: option.splits)
  have "quiet_step s s1"
    using 4 s1 by (intro 4(1)) auto
  moreover from this have "quiet_step s1 s'"
    using 4 s1 by (intro 4(2) [OF s1(1)]) (auto simp: quiet_step_def)
  ultimately show ?case by (auto simp: quiet_step_def)
qed (auto simp: quiet_step_def)

text \<open>The depth first search reports an error exactly when the graph has a cycle.\<close>

lemma cycle_errors_iff: "cycle_errors g = [] \<longleftrightarrow> acyclic (edges g)"
proof -
  let ?s = "([], Map.empty, []) :: dfs"
  have "card (white g (fst (snd ?s))) < Suc (length g)"
    using card_length [of "map fst g"] by (simp add: white_def less_Suc_eq_le)
  then obtain s' where s': "visit_all (Suc (length g)) g (sort (map fst g)) ?s = Some s'"
    using visit_total(2) [of "sort (map fst g)" g ?s "Suc (length g)"] by auto
  have sound: "sound_step g ?s s' (set (map fst g))"
    using visit_sound(2) [OF s'] by simp
  have "ranked g Map.empty" by (simp add: ranked_def)
  then have "acyclic (edges g)" if "fst s' = []"
    using sound that by (intro ranked_acyclic [of g "fst (snd s')"]) (simp_all add: sound_step_def)
  moreover have "fst s' = []" if "acyclic (edges g)"
  proof -
    have "quiet_step ?s s'"
      by (rule visit_quiet(2) [OF that s']) simp_all
    then show ?thesis by (simp add: quiet_step_def)
  qed
  moreover have "cycle_errors g = fst s'"
    unfolding cycle_errors_def s' by (cases s') simp
  ultimately show ?thesis by metis
qed

section \<open>The whole graph\<close>

text \<open>What \<open>depends_on\<close> must be, and the relation it gives on the board.\<close>

definition dependency_list :: "meta \<Rightarrow> string list" where
  "dependency_list meta = map str_of (list_of (dget_or meta ''depends_on'' (PList [])))"

definition dependencies_wf :: "meta \<Rightarrow> string set \<Rightarrow> bool" where
  "dependencies_wf meta known \<longleftrightarrow>
     dget_or meta ''depends_on'' (PList []) = PList (map PStr (dependency_list meta)) \<and>
     distinct (dependency_list meta) \<and> id_of meta \<notin> set (dependency_list meta) \<and>
     set (dependency_list meta) \<subseteq> known"

definition depends :: "task list \<Rightarrow> (string \<times> string) set" where
  "depends tasks = {(a, b). \<exists>t \<in> set tasks. id_of (task_meta t) = a \<and> b \<in> set (dependency_list (task_meta t))}"

lemma repeated_Nil [simp]: "repeated xs = [] \<longleftrightarrow> distinct xs"
proof -
  have "(\<forall>x \<in> set xs. \<not> 1 < count_list xs x) \<longleftrightarrow> distinct xs"
  proof (induction xs)
    case (Cons a xs)
    have "count_list xs a = 0 \<longleftrightarrow> a \<notin> set xs"
      by (simp add: count_list_0_iff)
    then show ?case using Cons by auto
  qed simp
  then show ?thesis by (simp add: repeated_def filter_empty_conv)
qed

lemma str_of_PStr [simp]: "str_of \<circ> PStr = id"
  by (simp add: fun_eq_iff)

lemma list_all_is_str_map: "list_all is_str xs \<longleftrightarrow> xs = map PStr (map str_of xs)"
proof (induction xs)
  case (Cons v xs)
  then show ?case by (cases v) auto
qed simp

lemma task_dependencies_ok:
  "fst (task_dependencies meta known) = [] \<longleftrightarrow> dependencies_wf meta (set known)"
  "dependencies_wf meta (set known) \<Longrightarrow> snd (task_dependencies meta known) = dependency_list meta"
proof -
  let ?v = "dget_or meta ''depends_on'' (PList [])"
  have "(is_list ?v \<and> list_all is_str (list_of ?v)) \<longleftrightarrow> ?v = PList (map PStr (dependency_list meta))"
    by (cases ?v) (simp_all add: dependency_list_def list_all_is_str_map)
  then show "fst (task_dependencies meta known) = [] \<longleftrightarrow> dependencies_wf meta (set known)"
    "dependencies_wf meta (set known) \<Longrightarrow> snd (task_dependencies meta known) = dependency_list meta"
    by (auto simp: task_dependencies_def Let_def dependencies_wf_def filter_empty_conv subset_eq
        dependency_list_def [symmetric])
qed

lemma dependency_shape_fold:
  "foldl (\<lambda>(errors, graph) t.
      let (task_errors, deps) = task_dependencies (task_meta t) ids
      in (errors @ task_errors, AList.update (id_of (task_meta t)) deps graph)) (es, g) tasks =
   (es @ concat (map (\<lambda>t. fst (task_dependencies (task_meta t) ids)) tasks),
    foldl (\<lambda>g t. AList.update (id_of (task_meta t)) (snd (task_dependencies (task_meta t) ids)) g) g tasks)"
  by (induction tasks arbitrary: es g) (auto simp: split_def Let_def)

lemma map_of_fold_update:
  "map_of (foldl (\<lambda>g t. AList.update (key t) (val t) g) g ts) x =
     (case find (\<lambda>t. key t = x) (rev ts) of Some t \<Rightarrow> Some (val t) | None \<Rightarrow> map_of g x)"
proof (induction ts arbitrary: g rule: rev_induct)
  case (snoc t ts)
  then show ?case by (simp add: update_conv)
qed simp

lemma dependency_graph_lookup:
  assumes "distinct (map (id_of \<circ> task_meta) tasks)"
    and "\<forall>t \<in> set tasks. dependencies_wf (task_meta t) (set (map (id_of \<circ> task_meta) tasks))"
  shows "map_of (snd (dependency_shape tasks)) x =
    map_of (map (\<lambda>t. (id_of (task_meta t), dependency_list (task_meta t))) tasks) x"
proof -
  let ?ids = "map (id_of \<circ> task_meta) tasks"
  let ?val = "\<lambda>t. snd (task_dependencies (task_meta t) ?ids)"
  have shape: "map_of (snd (dependency_shape tasks)) x =
      (case find (\<lambda>t. id_of (task_meta t) = x) (rev tasks) of Some t \<Rightarrow> Some (?val t) | None \<Rightarrow> None)"
    unfolding dependency_shape_def Let_def [of ?ids] dependency_shape_fold
    by (simp add: map_of_fold_update cong: option.case_cong)
  have val: "t \<in> set tasks \<Longrightarrow> ?val t = dependency_list (task_meta t)" for t
    using assms(2) task_dependencies_ok(2) by blast
  show ?thesis
  proof (cases "find (\<lambda>t. id_of (task_meta t) = x) (rev tasks)")
    case None
    then have "\<forall>t \<in> set tasks. id_of (task_meta t) \<noteq> x"
      using find_None_mem by fastforce
    then have "map_of (map (\<lambda>t. (id_of (task_meta t), dependency_list (task_meta t))) tasks) x = None"
      by (auto simp: map_of_eq_None_iff)
    with None shape show ?thesis by simp
  next
    case (Some t)
    then have t: "t \<in> set tasks" "id_of (task_meta t) = x"
      using find_Some_mem [OF Some] by auto
    have "map_of (map (\<lambda>t. (id_of (task_meta t), dependency_list (task_meta t))) tasks) x =
        Some (dependency_list (task_meta t))"
      using t assms(1) by (intro map_of_is_SomeI) (auto simp: comp_def)
    with Some shape val t show ?thesis by simp
  qed
qed

lemma dependency_edges:
  assumes "distinct (map (id_of \<circ> task_meta) tasks)"
    and "\<forall>t \<in> set tasks. dependencies_wf (task_meta t) (set (map (id_of \<circ> task_meta) tasks))"
  shows "edges (snd (dependency_shape tasks)) = depends tasks"
proof -
  let ?m = "map_of (map (\<lambda>t. (id_of (task_meta t), dependency_list (task_meta t))) tasks)"
  have m: "?m x = Some ds \<longleftrightarrow> (\<exists>t \<in> set tasks. id_of (task_meta t) = x \<and> dependency_list (task_meta t) = ds)" for x ds
  proof
    assume "?m x = Some ds"
    then show "\<exists>t \<in> set tasks. id_of (task_meta t) = x \<and> dependency_list (task_meta t) = ds"
      by (drule_tac map_of_SomeD) auto
  next
    assume "\<exists>t \<in> set tasks. id_of (task_meta t) = x \<and> dependency_list (task_meta t) = ds"
    then show "?m x = Some ds"
      using assms(1) by (intro map_of_is_SomeI) (auto simp: comp_def)
  qed
  have known: "b \<in> set (dependency_list (task_meta t)) \<Longrightarrow> t \<in> set tasks \<Longrightarrow> \<exists>ds. ?m b = Some ds" for b t
    using assms(2) m by (fastforce simp: dependencies_wf_def)
  have e: "(a, b) \<in> edges (snd (dependency_shape tasks)) \<longleftrightarrow> (\<exists>ds. ?m a = Some ds \<and> b \<in> set ds) \<and> (\<exists>ds. ?m b = Some ds)" for a b
    unfolding edges_def successors_def graph_get_def dependency_graph_lookup [OF assms]
    by (cases "?m a") auto
  show ?thesis
    using e m known unfolding depends_def by (auto simp only: set_eq_iff mem_Collect_eq split: prod.splits) blast+
qed

text \<open>A board without graph errors is exactly one whose task ids are distinct, whose dependency lists
  are well formed, and whose dependency relation has no cycle.\<close>

lemma graph_errors_iff:
  "graph_errors tasks = [] \<longleftrightarrow>
     distinct (map (id_of \<circ> task_meta) tasks) \<and>
     (\<forall>t \<in> set tasks. dependencies_wf (task_meta t) (set (map (id_of \<circ> task_meta) tasks))) \<and>
     acyclic (depends tasks)"
proof -
  have shape: "fst (dependency_shape tasks) = [] \<longleftrightarrow>
     distinct (map (id_of \<circ> task_meta) tasks) \<and>
     (\<forall>t \<in> set tasks. dependencies_wf (task_meta t) (set (map (id_of \<circ> task_meta) tasks)))"
    unfolding dependency_shape_def Let_def [of "map (id_of \<circ> task_meta) tasks"] dependency_shape_fold
    by (simp only: fst_conv append_is_Nil_conv concat_eq_Nil_conv set_map map_is_Nil_conv repeated_Nil)
      (simp add: task_dependencies_ok(1))
  have "graph_errors tasks = [] \<longleftrightarrow>
      fst (dependency_shape tasks) = [] \<and> acyclic (edges (snd (dependency_shape tasks)))"
    by (simp add: graph_errors_def Let_def split_def cycle_errors_iff)
  then show ?thesis
    using shape dependency_edges by metis
qed

section \<open>What a satisfied dependency is\<close>

text \<open>The specification: a chain of supersessions that ends in a done task.\<close>

inductive satisfied :: "task list \<Rightarrow> string \<Rightarrow> bool" for tasks where
  satisfied_done: "by_id tasks x = Some m \<Longrightarrow> dget m ''status'' = PStr ''done'' \<Longrightarrow> satisfied tasks x"
| satisfied_superseded: "by_id tasks x = Some m \<Longrightarrow> dget m ''status'' = PStr ''superseded'' \<Longrightarrow>
    successor_ref m = Some s \<Longrightarrow> satisfied tasks s \<Longrightarrow> satisfied tasks x"

inductive_simps satisfied_iff: "satisfied tasks x"

declare satisfied_loop.simps [simp del]

text \<open>A satisfied task is not on a cycle of supersessions: its chain is finite, so a task met before
  cannot be met again.\<close>

inductive supersession_chain :: "task list \<Rightarrow> nat \<Rightarrow> string \<Rightarrow> bool" for tasks where
  chain_done: "by_id tasks x = Some m \<Longrightarrow> dget m ''status'' = PStr ''done'' \<Longrightarrow> supersession_chain tasks 0 x"
| chain_superseded: "by_id tasks x = Some m \<Longrightarrow> dget m ''status'' = PStr ''superseded'' \<Longrightarrow>
    successor_ref m = Some s \<Longrightarrow> supersession_chain tasks n s \<Longrightarrow> supersession_chain tasks (Suc n) x"

inductive_cases chainE: "supersession_chain tasks n x"

lemma satisfied_chain: "satisfied tasks x \<longleftrightarrow> (\<exists>n. supersession_chain tasks n x)"
proof
  show "satisfied tasks x \<Longrightarrow> \<exists>n. supersession_chain tasks n x"
    by (induction rule: satisfied.induct) (blast intro: supersession_chain.intros)+
next
  assume "\<exists>n. supersession_chain tasks n x"
  then obtain n where "supersession_chain tasks n x" ..
  then show "satisfied tasks x"
    by (induction rule: supersession_chain.induct) (blast intro: satisfied.intros)+
qed

lemma chain_unique: "supersession_chain tasks n x \<Longrightarrow> supersession_chain tasks m x \<Longrightarrow> n = m"
proof (induction arbitrary: m rule: supersession_chain.induct)
  case (chain_done x d)
  from chain_done.prems show ?case
    by (cases rule: supersession_chain.cases) (use chain_done.hyps in auto)
next
  case (chain_superseded x d s n)
  from chain_superseded.prems show ?case
  proof (cases rule: supersession_chain.cases)
    case (chain_superseded m' s' n')
    then have "s' = s" using \<open>by_id tasks x = Some d\<close> \<open>successor_ref d = Some s\<close> by simp
    then show ?thesis
      using chain_superseded chain_superseded.IH by simp
  qed (use chain_superseded.hyps in simp)
qed

lemma loop_complete:
  assumes "supersession_chain tasks n x"
    and "\<And>y. y \<in> set seen \<Longrightarrow> \<exists>k. n < k \<and> supersession_chain tasks k y"
  shows "satisfied_loop tasks seen x"
  using assms
proof (induction arbitrary: seen rule: supersession_chain.induct)
  case (chain_done x m)
  then have "x \<notin> set seen"
    using chain_unique supersession_chain.chain_done by (metis less_irrefl)
  then show ?case
    using chain_done by (simp add: satisfied_loop.simps)
next
  case (chain_superseded x m s n)
  have x: "supersession_chain tasks (Suc n) x"
    using chain_superseded.hyps by (rule supersession_chain.chain_superseded)
  then have "x \<notin> set seen"
    using chain_superseded.prems chain_unique by (metis less_irrefl)
  moreover have "satisfied_loop tasks (x # seen) s"
    using x chain_superseded.prems by (intro chain_superseded.IH) (auto intro: Suc_lessD)
  ultimately show ?case
    using chain_superseded.hyps by (simp add: satisfied_loop.simps)
qed

lemma loop_sound: "satisfied_loop tasks seen x \<Longrightarrow> satisfied tasks x"
proof (induction tasks seen x rule: satisfied_loop.induct)
  case (1 tasks seen x)
  from 1(2) show ?case
    by (subst (asm) satisfied_loop.simps)
      (auto split: if_splits option.splits intro: satisfied.intros 1(1))
qed

section \<open>Properties\<close>

text \<open>Property C7. \<open>graph_errors\<close> returns no error exactly for the boards whose ids are distinct, whose
  \<open>depends_on\<close> values are duplicate-free lists of ids of other tasks of the board, and whose
  dependency relation is acyclic: the depth first search reports every cycle and nothing else.\<close>

theorem graph_errors_exact:
  "graph_errors tasks = [] \<longleftrightarrow>
     distinct (map (id_of \<circ> task_meta) tasks) \<and>
     (\<forall>t \<in> set tasks. dependencies_wf (task_meta t) (set (map (id_of \<circ> task_meta) tasks))) \<and>
     acyclic (depends tasks)"
  by (rule graph_errors_iff)

definition example_board :: "task list" where
  "example_board = [
     (''AR-0001.md'', [(''id'', PStr ''AR-0001''), (''status'', PStr ''done'')], []),
     (''AR-0002.md'', [(''id'', PStr ''AR-0002''), (''depends_on'', PList [PStr ''AR-0001''])], []),
     (''AR-0003.md'', [(''id'', PStr ''AR-0003''), (''depends_on'', PList [PStr ''AR-0002'', PStr ''AR-0001''])], [])]"

theorem graph_errors_exact_witness:
  "graph_errors example_board = [] \<and> acyclic (depends example_board)"
proof -
  have "graph_errors example_board = []"
    by code_simp
  with graph_errors_exact [of example_board] show ?thesis by simp
qed

lemma dependency_satisfied_iff: "dependency_satisfied x tasks \<longleftrightarrow> satisfied tasks x"
  unfolding dependency_satisfied_def satisfied_chain
  by (metis loop_complete loop_sound empty_iff list.set(1) satisfied_chain)

text \<open>Property C14. The loop of \<open>dependency_satisfied\<close> always ends, and returns \<open>True\<close> exactly when the
  chain of valid supersession references from the dependency ends in a done task; a cycle of
  supersessions or an unknown task is not satisfied.\<close>

theorem dependency_satisfied_exact: "dependency_satisfied x tasks \<longleftrightarrow> satisfied tasks x"
  by (rule dependency_satisfied_iff)

end
