(* ===== verification/Assumptions.thy ===== *)
theory Assumptions
  imports Linked_Records Task_Graph
begin

text \<open>
  Material assumptions of a task: \<open>src/tools/assumption_revalidation.py\<close>. A task carries a linked
  history of declarations, revalidations and dispositions; its acceptance and its release to \<open>done\<close>
  wait until every active material assumption agrees with a new observation.

  What is observed is a parameter: the worktrees, their Git heads and the files of the state root.
\<close>

section \<open>Observations\<close>

datatype observed_file = Escapes | Unavailable | Unbounded | Bytes string

text \<open>\<open>ob_worktree key\<close>: the key resolves to a directory inside the projects root. \<open>ob_head key\<close>: the
  stripped output of \<open>git rev-parse\<close> there, when it succeeds.\<close>

record observer =
  ob_worktree :: "string \<Rightarrow> bool"
  ob_head :: "string \<Rightarrow> string option"
  ob_file :: "string \<Rightarrow> observed_file"

definition MAX_ASSUMPTIONS :: nat where "MAX_ASSUMPTIONS = 64"

definition ASSUMPTION_KINDS :: "string list" where "ASSUMPTION_KINDS = [''base'', ''dependency'', ''observation'']"

definition ASSUMPTION_ACTIONS :: "string list" where "ASSUMPTION_ACTIONS = [''declare'', ''revalidate'', ''dispose'']"

definition ASSUMPTION_FIELDS :: "string list" where
  "ASSUMPTION_FIELDS = [''schema_version'', ''action'', ''id'', ''kind'', ''material'', ''binding'', ''task_revision'', ''previous_digest'',
     ''reason'', ''digest'']"

definition is_assumption_id :: "string \<Rightarrow> bool" where
  "is_assumption_id s = (case s of [] \<Rightarrow> False
     | c # r \<Rightarrow> is_lower c \<and> length r \<le> 63 \<and> list_all (\<lambda>x. is_lower x \<or> is_digit x \<or> x = CHR ''-'') r)"

definition assumption_worktree :: "observer \<Rightarrow> meta \<Rightarrow> string result" where
  "assumption_worktree ob meta =
     (let key = dget meta ''worktree_key'' in
      bindE (raise_if (\<not> safe_path key) (RuntimeError ''assumption base requires a safely bound worktree'')) (\<lambda>_.
      bindE (raise_if (\<not> ob_worktree ob (str_of key)) (RuntimeError ''assumption base worktree is unavailable'')) (\<lambda>_.
      Inr (str_of key))))"

definition git_head :: "observer \<Rightarrow> string \<Rightarrow> string result" where
  "git_head ob worktree =
     (let failed = Inl (RuntimeError ''assumption base observation requires a Git HEAD'') in
      case ob_head ob worktree of None \<Rightarrow> failed | Some head \<Rightarrow> if is_object_id head then Inr head else failed)"

definition file_digest :: "observer \<Rightarrow> string \<Rightarrow> string result" where
  "file_digest ob ref =
     bindE (raise_if (\<not> safe_path (PStr ref)) (RuntimeError ''assumption observation ref is unsafe'')) (\<lambda>_.
     case ob_file ob ref of
       Escapes \<Rightarrow> Inl (RuntimeError ''assumption observation ref escapes the state root'')
     | Unavailable \<Rightarrow> Inl (RuntimeError ''assumption observation is unavailable'')
     | Unbounded \<Rightarrow> Inl (RuntimeError ''assumption observation must be a bounded regular file'')
     | Bytes payload \<Rightarrow> Inr (''sha256:'' @ sha256_hex payload))"

definition dependency_binding :: "meta list \<Rightarrow> string \<Rightarrow> meta result" where
  "dependency_binding tasks dependency_id =
     bindE (raise_if (\<not> is_task_id dependency_id) (RuntimeError ''assumption dependency is invalid'')) (\<lambda>_.
     case find (\<lambda>t. dget t ''id'' = PStr dependency_id) tasks of
       None \<Rightarrow> Inl (RuntimeError ''assumption dependency is unavailable'')
     | Some t \<Rightarrow>
         if \<not> exact_int (dget t ''task_revision'') then Inl (RuntimeError ''assumption dependency is unavailable'')
         else Inr [(''task'', PStr dependency_id), (''task_revision'', dget t ''task_revision'')])"

definition observe_binding :: "observer \<Rightarrow> meta \<Rightarrow> meta list \<Rightarrow> string \<Rightarrow> string \<Rightarrow> meta result" where
  "observe_binding ob meta tasks kind reference =
     (if kind = ''base'' then
        bindE (raise_if (reference \<noteq> []) (RuntimeError ''assumption base does not accept a reference'')) (\<lambda>_.
        bindE (assumption_worktree ob meta) (\<lambda>w.
        bindE (git_head ob w) (\<lambda>head. Inr [(''head'', PStr head)])))
      else if kind = ''dependency'' then dependency_binding tasks reference
      else if kind = ''observation'' then
        bindE (file_digest ob reference) (\<lambda>d. Inr [(''ref'', PStr reference), (''digest'', PStr d)])
      else Inl (RuntimeError ''assumption kind is invalid''))"

section \<open>Records\<close>

definition assumption_identity ::
  "string \<Rightarrow> string \<Rightarrow> string \<Rightarrow> bool \<Rightarrow> meta \<Rightarrow> int \<Rightarrow> string \<Rightarrow> string \<Rightarrow> meta" where
  "assumption_identity action assumption_id kind material binding revision previous_digest reason = [
     (''schema_version'', PInt 1), (''action'', PStr action), (''id'', PStr assumption_id), (''kind'', PStr kind),
     (''material'', PBool material), (''binding'', PDict binding), (''task_revision'', PInt revision),
     (''previous_digest'', PStr previous_digest), (''reason'', PStr reason)]"

definition assumption_record ::
  "string \<Rightarrow> string \<Rightarrow> string \<Rightarrow> bool \<Rightarrow> meta \<Rightarrow> int \<Rightarrow> string \<Rightarrow> string \<Rightarrow> meta result" where
  "assumption_record action assumption_id kind material binding revision previous_digest reason =
     (let identity = assumption_identity action assumption_id kind material binding revision previous_digest reason in
      bindE (raise_if (action \<notin> set ASSUMPTION_ACTIONS \<or> \<not> is_assumption_id assumption_id \<or> kind \<notin> set ASSUMPTION_KINDS
               \<or> revision < 1 \<or> previous_digest \<noteq> [] \<and> \<not> is_digest previous_digest)
               (ValueError ''invalid assumption record identity'')) (\<lambda>_.
      Inr (identity @ [(''digest'', PStr (digest (PDict identity)))])))"

definition validate_binding :: "string \<Rightarrow> pyval \<Rightarrow> unit result" where
  "validate_binding kind v =
     (let b = dict_of v in
      if \<not> is_dict v then Inl (ValueError ''assumption binding is invalid'')
      else if kind = ''base'' then
        raise_if (\<not> keys_exact b [''head''] \<or> \<not> is_object_id (py_str (dget_or b ''head'' (PStr []))))
          (ValueError ''assumption base binding is invalid'')
      else if kind = ''dependency'' then
        raise_if (\<not> keys_exact b [''task'', ''task_revision''] \<or> \<not> is_task_id (py_str (dget_or b ''task'' (PStr [])))
            \<or> \<not> exact_int (dget b ''task_revision'') \<or> int_of (dget b ''task_revision'') < 1)
          (ValueError ''assumption dependency binding is invalid'')
      else if kind = ''observation'' then
        raise_if (\<not> keys_exact b [''ref'', ''digest''] \<or> \<not> safe_path (dget b ''ref'')
            \<or> \<not> is_digest (py_str (dget_or b ''digest'' (PStr []))))
          (ValueError ''assumption observation binding is invalid'')
      else Inl (ValueError ''assumption kind is invalid''))"

text \<open>The tests of \<open>_validate_identity\<close> are the elements of one tuple: all are evaluated, and the two set
  memberships hash their value.\<close>

definition assumption_identity_valid :: "meta \<Rightarrow> bool result" where
  "assumption_identity_valid record =
     (let predecessor = dget record ''previous_digest''; reason = dget record ''reason''; revision = dget record ''task_revision'' in
      bindE (hash_in (dget record ''action'') ASSUMPTION_ACTIONS) (\<lambda>action_ok.
      bindE (hash_in (dget record ''kind'') ASSUMPTION_KINDS) (\<lambda>kind_ok.
      Inr (py_eq (dget record ''schema_version'') (PInt 1) \<and> action_ok \<and> is_assumption_id (py_str (dget_or record ''id'' (PStr [])))
           \<and> kind_ok \<and> is_bool (dget record ''material'') \<and> exact_int revision \<and> 1 \<le> int_of revision \<and> is_str predecessor
           \<and> is_str reason \<and> length (py_str reason) \<le> 512 \<and> newline \<notin> set (py_str reason)
           \<and> dget record ''digest'' = PStr (digest (PDict (dpop record ''digest''))))))
     )"

definition validate_assumption :: "pyval \<Rightarrow> meta result" where
  "validate_assumption v =
     (let record = dict_of v; predecessor = dget record ''previous_digest''; reason = dget record ''reason'' in
      bindE (raise_if (\<not> is_dict v \<or> \<not> keys_exact record ASSUMPTION_FIELDS) (ValueError ''assumption record fields are not exact'')) (\<lambda>_.
      bindE (assumption_identity_valid record) (\<lambda>ok.
      bindE (raise_if (\<not> ok \<or> truthy predecessor \<and> \<not> is_digest (py_str predecessor)) (ValueError ''assumption record identity is invalid'')) (\<lambda>_.
      bindE (if dget record ''action'' = PStr ''dispose''
             then raise_if (strip (str_of reason) = []) (ValueError ''assumption disposition reason is invalid'')
             else raise_if (truthy reason) (ValueError ''assumption non-disposition reason is invalid'')) (\<lambda>_.
      bindE (validate_binding (py_str (dget record ''kind'')) (dget record ''binding'')) (\<lambda>_.
      Inr record))))))"

section \<open>The history\<close>

text \<open>The scan keeps the digest and the revision of the last record and the dictionary \<open>active\<close>.\<close>

definition assumption_key :: "meta \<Rightarrow> string" where
  "assumption_key record = str_of (dget record ''id'')"

definition follow_up :: "meta \<Rightarrow> meta \<Rightarrow> unit result" where
  "follow_up record active =
     (let old = dget active (assumption_key record); o' = dict_of old; action = dget record ''action'' in
      if action = PStr ''declare'' then raise_if (old \<noteq> PNone) (ValueError ''assumption is declared more than once'')
      else
        bindE (raise_if (old = PNone \<or> \<not> py_eq (dget o' ''kind'') (dget record ''kind'') \<or> \<not> py_eq (dget o' ''material'') (dget record ''material''))
                 (ValueError ''assumption follow-up is not linked to declaration'')) (\<lambda>_.
        bindE (raise_if (dget o' ''action'' = PStr ''dispose'') (ValueError ''disposed assumption cannot be changed'')) (\<lambda>_.
        raise_if (action = PStr ''revalidate'' \<and> py_eq (dget record ''binding'') (dget o' ''binding''))
          (ValueError ''assumption revalidation requires a changed binding''))))"

definition assumption_step :: "pyval \<Rightarrow> string \<times> int \<times> meta \<Rightarrow> (string \<times> int \<times> meta) result" where
  "assumption_step raw st =
     (case st of (previous_digest, previous_revision, active) \<Rightarrow>
        bindE (validate_assumption raw) (\<lambda>record.
        bindE (raise_if (dget record ''previous_digest'' \<noteq> PStr previous_digest \<or> int_of (dget record ''task_revision'') \<le> previous_revision)
                 (ValueError ''assumption history is not linked'')) (\<lambda>_.
        bindE (follow_up record active) (\<lambda>_.
        Inr (str_of (dget record ''digest''), int_of (dget record ''task_revision''), dset active (assumption_key record) (PDict record))))))"

definition assumption_records :: "meta \<Rightarrow> pyval list result" where
  "assumption_records meta =
     (let ledger = dget_or meta ''assumption_revalidation'' (PList []) in
      bindE (raise_if (\<not> is_list ledger \<or> MAX_ASSUMPTIONS < length (list_of ledger)) (ValueError ''assumption history is invalid'')) (\<lambda>_.
      bindE (fold_result assumption_step (list_of ledger) ([], 0, [])) (\<lambda>_.
      Inr (list_of ledger))))"

definition active_assumptions :: "pyval list \<Rightarrow> meta" where
  "active_assumptions rs = fold (\<lambda>r d. dset d (assumption_key (dict_of r)) r) rs []"

definition assumption_metadata_error :: "meta \<Rightarrow> string option result" where
  "assumption_metadata_error meta =
     (case assumption_records meta of Inr _ \<Rightarrow> Inr None
      | Inl e \<Rightarrow> if is_value_error e then Inr (Some (exc_message e)) else Inl e)"

section \<open>Admission\<close>

definition needs_revalidation :: "pyval \<Rightarrow> bool" where
  "needs_revalidation r = (truthy (dget (dict_of r) ''material'') \<and> dget (dict_of r) ''action'' \<noteq> PStr ''dispose'')"

definition needs_admission :: "meta \<Rightarrow> bool result" where
  "needs_admission meta =
     bindE (assumption_records meta) (\<lambda>rs. Inr (list_ex (\<lambda>kv. needs_revalidation (snd kv)) (active_assumptions rs)))"

definition recorded_reference :: "meta \<Rightarrow> string" where
  "recorded_reference record =
     (let kind = dget record ''kind''; b = dict_of (dget record ''binding'') in
      if kind = PStr ''dependency'' then py_str (dget b ''task'')
      else if kind = PStr ''observation'' then py_str (dget b ''ref'') else [])"

definition current_binding :: "observer \<Rightarrow> meta \<Rightarrow> meta list \<Rightarrow> pyval \<Rightarrow> meta result" where
  "current_binding ob meta tasks r =
     bindE (validate_assumption r) (\<lambda>record.
     observe_binding ob meta tasks (py_str (dget record ''kind'')) (recorded_reference record))"

text \<open>The first active material assumption whose binding changed.\<close>

fun stale_assumption :: "observer \<Rightarrow> meta \<Rightarrow> meta list \<Rightarrow> meta \<Rightarrow> string option result" where
  "stale_assumption ob meta tasks [] = Inr None"
| "stale_assumption ob meta tasks ((k, r) # rest) =
     (if \<not> needs_revalidation r then stale_assumption ob meta tasks rest
      else bindE (current_binding ob meta tasks r) (\<lambda>b.
        if \<not> py_eq (PDict b) (dget (dict_of r) ''binding'')
        then Inr (Some (''ASSUMPTION_REVALIDATION_REQUIRED: '' @ k @ '' ('' @ py_str (dget (dict_of r) ''kind'') @ '')''))
        else stale_assumption ob meta tasks rest))"

definition assumption_admission_error :: "observer \<Rightarrow> meta \<Rightarrow> meta list \<Rightarrow> string option result" where
  "assumption_admission_error ob meta tasks =
     catchE (bindE (assumption_records meta) (\<lambda>rs. stale_assumption ob meta tasks (active_assumptions rs)))
       (\<lambda>e. if is_runtime_error e \<or> is_value_error e then Inr (Some (''ASSUMPTION_REVALIDATION_REQUIRED: '' @ exc_message e)) else Inl e)"

section \<open>The command\<close>

definition require_fenced_owner :: "namespace \<Rightarrow> meta \<Rightarrow> unit result" where
  "require_fenced_owner args meta =
     bindE (raise_if (\<not> py_eq (dget args ''task'') (dget meta ''id'')) (RuntimeError ''assumption task does not match selected task'')) (\<lambda>_.
     bindE (raise_if (\<not> py_eq (dget meta ''owner'') (dget args ''owner''))
              (RuntimeError (py_str (dget args ''task'') @ '' is owned by '' @
                (if truthy (dget meta ''owner'') then py_str (dget meta ''owner'') else ''nobody'')))) (\<lambda>_.
     bindE (raise_if (dget meta ''status'' \<noteq> PStr ''in_progress'') (RuntimeError ''assumption changes require an active task'')) (\<lambda>_.
     raise_if (\<not> py_eq (dget args ''expected_revision'') (dget meta ''task_revision''))
       (RuntimeError (''stale revision: expected '' @ py_str (dget args ''expected_revision'') @ '', current '' @ py_str (dget meta ''task_revision''))))))"

definition followup_identity :: "namespace \<Rightarrow> pyval \<Rightarrow> (bool \<times> string \<times> string) result" where
  "followup_identity args existing =
     (let e = dict_of existing; material = truthy (dget e ''material''); kind = py_str (dget e ''kind''); b = dict_of (dget e ''binding'') in
      bindE (raise_if (existing = PNone) (RuntimeError ''assumption must be declared before follow-up'')) (\<lambda>_.
      bindE (raise_if (dget e ''action'' = PStr ''dispose'') (RuntimeError ''disposed assumption cannot be changed'')) (\<lambda>_.
      bindE (raise_if (dget args ''kind'' \<noteq> PNone \<and> dget args ''kind'' \<noteq> PStr kind) (RuntimeError ''assumption kind cannot change'')) (\<lambda>_.
      if kind = ''dependency'' then Inr (material, kind, py_str (dget b ''task''))
      else if kind = ''observation'' then Inr (material, kind, py_str (dget b ''ref''))
      else if truthy (dget args ''reference'') then Inl (RuntimeError ''assumption base does not accept a reference'')
      else Inr (material, kind, [])))))"

definition request_identity :: "namespace \<Rightarrow> pyval \<Rightarrow> (bool \<times> string \<times> string) result" where
  "request_identity args existing =
     (if dget args ''assumption_action'' = PStr ''declare'' then
        bindE (raise_if (existing \<noteq> PNone) (RuntimeError ''assumption is already declared'')) (\<lambda>_.
        bindE (raise_if (dget args ''kind'' = PNone \<or> dget args ''material'' = PNone)
                 (RuntimeError ''assumption declaration requires kind and material policy'')) (\<lambda>_.
        Inr (truthy (dget args ''material''), py_str (dget args ''kind''),
          if truthy (dget args ''reference'') then py_str (dget args ''reference'') else [])))
      else followup_identity args existing)"

definition apply_assumption :: "observer \<Rightarrow> namespace \<Rightarrow> meta \<Rightarrow> meta list \<Rightarrow> (meta \<times> string) result" where
  "apply_assumption ob args meta tasks =
     (let assumption_id = arg_str args ''assumption_id''; action = arg_str args ''assumption_action''; reason = arg_str args ''reason'' in
      bindE (require_fenced_owner args meta) (\<lambda>_.
      bindE (assumption_records meta) (\<lambda>history.
      bindE (raise_if (MAX_ASSUMPTIONS \<le> length history) (RuntimeError ''assumption history reached its bounded record limit'')) (\<lambda>_.
      let existing = dget (active_assumptions history) assumption_id in
      bindE (request_identity args existing) (\<lambda>(material, kind, reference).
      bindE (observe_binding ob meta tasks kind reference) (\<lambda>binding.
      bindE (raise_if (action = ''revalidate'' \<and> (existing = PNone \<or> py_eq (PDict binding) (dget (dict_of existing) ''binding'')))
               (RuntimeError ''assumption revalidation requires a changed binding'')) (\<lambda>_.
      bindE (raise_if (action = ''dispose'' \<and> strip reason = []) (RuntimeError ''assumption disposition requires a reason'')) (\<lambda>_.
      bindE (ditem meta ''task_revision'') (\<lambda>r.
      bindE (py_int r) (\<lambda>revision.
      bindE (assumption_record action assumption_id kind material binding (revision + 1)
               (if history = [] then [] else str_of (dget (dict_of (last history)) ''digest''))
               (if action = ''dispose'' then reason else [])) (\<lambda>record.
      Inr (dset meta ''assumption_revalidation'' (PList (history @ [PDict record])),
           ''Recorded assumption '' @ action @ '' for '' @ assumption_id @ ''.''))))))))))))"

section \<open>What the history check accepts\<close>

definition sound_assumption :: "meta \<Rightarrow> bool" where
  "sound_assumption record =
     (let predecessor = str_of (dget record ''previous_digest''); reason = str_of (dget record ''reason'') in
      keys_exact record ASSUMPTION_FIELDS \<and> assumption_identity_valid record = Inr True \<and>
      (predecessor = [] \<or> is_digest predecessor) \<and>
      (if dget record ''action'' = PStr ''dispose'' then strip reason \<noteq> [] else reason = []) \<and>
      validate_binding (str_of (dget record ''kind'')) (dget record ''binding'') = Inr ())"

lemma assumption_hash_in_True: "hash_in v ws = Inr True \<longleftrightarrow> (\<exists>s. v = PStr s \<and> s \<in> set ws)"
  by (cases v) (auto simp: hash_in_def)

lemma lower_repr: "is_assumption_id (py_str v) \<Longrightarrow> is_str v"
proof (cases v)
  case (PInt i)
  assume a: "is_assumption_id (py_str v)"
  have "is_digit (hd (show_nat n))" for n
    using show_nat_digits [of n] by (cases "show_nat n") simp_all
  moreover have "\<not> is_lower c" if "is_digit c" for c
    using that by (auto simp: is_digit_def is_lower_def digits_def lower_letters_def)
  ultimately have "\<not> is_lower (hd (show_int i))"
    by (auto simp: show_int_def is_lower_def lower_letters_def)
  with a show ?thesis by (auto simp: PInt py_str_def is_assumption_id_def split: list.splits)
next
  case (PBool b)
  then show "is_assumption_id (py_str v) \<Longrightarrow> ?thesis"
    by (cases b) (simp_all add: py_str_def is_assumption_id_def is_lower_def lower_letters_def)
qed (auto simp: py_str_def is_assumption_id_def is_lower_def lower_letters_def)

lemma assumption_identity_True:
  "assumption_identity_valid record = Inr True \<longleftrightarrow>
    (\<exists>action kind. dget record ''action'' = PStr action \<and> action \<in> set ASSUMPTION_ACTIONS \<and>
      dget record ''kind'' = PStr kind \<and> kind \<in> set ASSUMPTION_KINDS) \<and>
    py_eq (dget record ''schema_version'') (PInt 1) \<and> is_assumption_id (py_str (dget_or record ''id'' (PStr []))) \<and>
    is_bool (dget record ''material'') \<and> exact_int (dget record ''task_revision'') \<and> 1 \<le> int_of (dget record ''task_revision'') \<and>
    is_str (dget record ''previous_digest'') \<and> is_str (dget record ''reason'') \<and>
    length (str_of (dget record ''reason'')) \<le> 512 \<and> newline \<notin> set (str_of (dget record ''reason'')) \<and>
    dget record ''digest'' = PStr (digest (PDict (dpop record ''digest'')))"
  unfolding assumption_identity_valid_def Let_def
  by (auto simp: bindE_Inr assumption_hash_in_True is_str_iff ex_bool_eq)

lemma validate_assumption_Inr:
  "validate_assumption raw = Inr record \<longleftrightarrow> raw = PDict record \<and> sound_assumption record"
proof (cases raw)
  case (PDict d)
  have "validate_assumption (PDict d) = Inr record \<longleftrightarrow> record = d \<and> sound_assumption d"
    unfolding validate_assumption_def sound_assumption_def Let_def
    by (auto simp: bindE_Inr raise_if_Inr assumption_identity_True is_str_iff ex_bool_eq split: if_splits)
  then show ?thesis by (auto simp: PDict)
qed (simp_all add: validate_assumption_def)

lemma sound_assumption_fields:
  assumes "sound_assumption record"
  obtains action kind material revision where "dget record ''action'' = PStr action" "action \<in> set ASSUMPTION_ACTIONS"
    "dget record ''kind'' = PStr kind" "kind \<in> set ASSUMPTION_KINDS" "dget record ''material'' = PBool material"
    "dget record ''task_revision'' = PInt revision" "is_str (dget record ''previous_digest'')" "dget record ''id'' = PStr (assumption_key record)"
    "is_str (dget record ''digest'')"
proof -
  have v: "assumption_identity_valid record = Inr True" "keys_exact record ASSUMPTION_FIELDS"
    using assms by (simp_all add: sound_assumption_def Let_def)
  have "dhas record ''id''" using v(2) by (simp add: keys_exact_dhas ASSUMPTION_FIELDS_def)
  then have "dget_or record ''id'' (PStr []) = dget record ''id''"
    by (auto simp: dget_or_def dget_def dhas_def)
  then have "is_str (dget record ''id'')"
    using v(1) lower_repr by (simp add: assumption_identity_True)
  moreover obtain material where "dget record ''material'' = PBool material"
    using v(1) by (cases "dget record ''material''") (auto simp: assumption_identity_True)
  moreover obtain revision where "dget record ''task_revision'' = PInt revision"
    using v(1) by (auto simp: assumption_identity_True exact_int_iff)
  ultimately show thesis
    using that v(1) by (auto simp: assumption_identity_True assumption_key_def is_str_iff)
qed

definition assumption_ok :: "pyval \<Rightarrow> meta \<Rightarrow> bool" where
  "assumption_ok raw active = (is_dict raw \<and> sound_assumption (dict_of raw) \<and> succeeds (follow_up (dict_of raw) active))"

definition advance_active :: "pyval \<Rightarrow> meta \<Rightarrow> meta" where
  "advance_active raw active = dset active (assumption_key (dict_of raw)) raw"

interpretation assumptions: linked_history assumption_step assumption_ok record_link record_identity record_stamp advance_active
proof
  fix raw p r s st
  show "assumption_step raw (p, r, s) = Inr st \<longleftrightarrow>
      assumption_ok raw s \<and> record_link raw = p \<and> r < record_stamp raw \<and> st = (record_identity raw, record_stamp raw, advance_active raw s)"
  proof (cases "is_dict raw \<and> sound_assumption (dict_of raw)")
    case True
    then obtain d where d: "raw = PDict d" "sound_assumption d" by (auto simp: is_dict_iff)
    have "is_str (dget d ''previous_digest'')" using d(2) by (rule sound_assumption_fields)
    then obtain q where "dget d ''previous_digest'' = PStr q" by (auto simp: is_str_iff)
    moreover have "validate_assumption raw = Inr d" using d by (simp add: validate_assumption_Inr)
    ultimately show ?thesis
      by (auto simp: assumption_step_def d(1) bindE_Inr raise_if_Inr assumption_ok_def d(2) succeeds_iff record_link_def
          record_identity_def record_stamp_def advance_active_def)
  next
    case False
    then show ?thesis
      by (auto simp: assumption_step_def bindE_Inr validate_assumption_Inr assumption_ok_def)
  qed
qed

lemma active_assumptions_fold: "active_assumptions rs = fold advance_active rs []"
  by (simp add: active_assumptions_def advance_active_def [abs_def])

text \<open>The records of one assumption, and that the active one is the newest of them.\<close>

definition records_of :: "string \<Rightarrow> pyval list \<Rightarrow> pyval list" where
  "records_of k rs = filter (\<lambda>r. assumption_key (dict_of r) = k) rs"

lemma active_newest:
  "dget (active_assumptions rs) k = (if records_of k rs = [] then PNone else last (records_of k rs))"
  by (induction rs rule: rev_induct) (auto simp: active_assumptions_def records_of_def)

lemma assumption_records_Inr:
  "assumption_records meta = Inr rs \<longleftrightarrow>
    dget_or meta ''assumption_revalidation'' (PList []) = PList rs \<and> length rs \<le> MAX_ASSUMPTIONS \<and>
    (\<exists>st. fold_result assumption_step rs ([], 0, []) = Inr st)"
  unfolding assumption_records_def Let_def
  by (cases "dget_or meta ''assumption_revalidation'' (PList [])") (auto simp: bindE_Inr raise_if_Inr not_less)

lemma scan_state:
  assumes "fold_result assumption_step rs ([], 0, []) = Inr st"
  shows "st = (if rs = [] then [] else record_identity (last rs), if rs = [] then 0 else record_stamp (last rs), active_assumptions rs)"
proof -
  obtain p r s where st: "st = (p, r, s)" by (cases st)
  from assumptions.scan_Inr [OF assms [unfolded st]] show ?thesis
    by (cases rs rule: rev_cases) (auto simp: st active_assumptions_fold)
qed

section \<open>Properties\<close>

definition action_of :: "pyval \<Rightarrow> string" where "action_of r = str_of (dget (dict_of r) ''action'')"

text \<open>The records of one assumption form \<open>declare revalidate* dispose?\<close> with one kind and one materiality.\<close>

definition one_claim :: "pyval list \<Rightarrow> bool" where
  "one_claim own = (\<forall>r \<in> set own. dget (dict_of r) ''kind'' = dget (dict_of (hd own)) ''kind'' \<and>
     dget (dict_of r) ''material'' = dget (dict_of (hd own)) ''material'')"

definition assumption_life :: "pyval list \<Rightarrow> bool" where
  "assumption_life own = (own = [] \<or> one_claim own \<and>
     (\<exists>n d. map action_of own = ''declare'' # replicate n ''revalidate'' @ (if d then [''dispose''] else [])))"

lemma one_claim_snoc:
  assumes c: "one_claim own" and n: "own \<noteq> []"
    and d: "dget d ''kind'' = dget (dict_of (last own)) ''kind''" "dget d ''material'' = dget (dict_of (last own)) ''material''"
  shows "one_claim (own @ [PDict d])"
  unfolding one_claim_def hd_append2 [OF n]
proof
  fix r assume "r \<in> set (own @ [PDict d])"
  then consider "r \<in> set own" | "r = PDict d" by auto
  then show "dget (dict_of r) ''kind'' = dget (dict_of (hd own)) ''kind'' \<and> dget (dict_of r) ''material'' = dget (dict_of (hd own)) ''material''"
  proof cases
    case 1
    then show ?thesis using c unfolding one_claim_def by (rule bspec [rotated])
  next
    case 2
    show ?thesis
      using bspec [OF c [unfolded one_claim_def] last_in_set [OF n]] unfolding 2 value_simps d .
  qed
qed

lemma assumption_ok_shape:
  assumes "assumption_ok r s"
  obtains d where "r = PDict d" "sound_assumption d" "follow_up d s = Inr ()"
  using assms by (auto simp: assumption_ok_def is_dict_iff succeeds_iff)

lemma py_eq_kind: "sound_assumption a \<Longrightarrow> sound_assumption b \<Longrightarrow>
    (py_eq (dget a ''kind'') (dget b ''kind'') \<longleftrightarrow> dget b ''kind'' = dget a ''kind'') \<and>
    (py_eq (dget a ''material'') (dget b ''material'') \<longleftrightarrow> dget b ''material'' = dget a ''material'')"
  by (elim sound_assumption_fields) auto

lemma follow_up_life:
  assumes "assumption_life own" "\<forall>r \<in> set own. is_dict r \<and> sound_assumption (dict_of r)" "sound_assumption record"
    and "follow_up record active = Inr ()" "dget active (assumption_key record) = (if own = [] then PNone else last own)"
  shows "assumption_life (own @ [PDict record])"
proof (cases "own = []")
  case True
  then have "dget record ''action'' = PStr ''declare''"
    using assms(4,5) by (auto simp: follow_up_def Let_def bindE_Inr raise_if_Inr split: if_splits)
  then show ?thesis by (auto simp: True assumption_life_def one_claim_def action_of_def intro!: exI [of _ 0] exI [of _ False])
next
  case False
  obtain action where action: "dget record ''action'' = PStr action" "action \<in> set ASSUMPTION_ACTIONS"
    using assms(3) by (rule sound_assumption_fields)
  have old: "last own \<noteq> PNone" "sound_assumption (dict_of (last own))"
    using assms(2) False by (auto dest!: last_in_set bspec)
  have "follow_up record active = Inr () \<longleftrightarrow>
      action \<noteq> ''declare'' \<and> py_eq (dget (dict_of (last own)) ''kind'') (dget record ''kind'') \<and>
      py_eq (dget (dict_of (last own)) ''material'') (dget record ''material'') \<and>
      dget (dict_of (last own)) ''action'' \<noteq> PStr ''dispose'' \<and>
      \<not> (action = ''revalidate'' \<and> py_eq (dget record ''binding'') (dget (dict_of (last own)) ''binding''))"
    using old(1) assms(5) False action(1)
    by (simp add: follow_up_def Let_def bindE_Inr raise_if_Inr)
  then have f: "action \<noteq> ''declare''" "dget (dict_of (last own)) ''action'' \<noteq> PStr ''dispose''"
      "dget record ''kind'' = dget (dict_of (last own)) ''kind''" "dget record ''material'' = dget (dict_of (last own)) ''material''"
    using assms(4) py_eq_kind [OF old(2) assms(3)] by simp_all
  obtain n d where life: "map action_of own = ''declare'' # replicate n ''revalidate'' @ (if d then [''dispose''] else [])"
    "one_claim own"
    using assms(1) False by (auto simp: assumption_life_def)
  obtain a where a: "dget (dict_of (last own)) ''action'' = PStr a" using old(2) by (rule sound_assumption_fields)
  have "\<not> d"
  proof
    assume d
    then have "last (map action_of own) = ''dispose''" using life(1) by simp
    then show False using f(2) a False by (simp add: last_map action_of_def)
  qed
  moreover have "action = ''revalidate'' \<or> action = ''dispose''" using action(2) f(1) by (auto simp: ASSUMPTION_ACTIONS_def)
  ultimately have "\<exists>n d. map action_of (own @ [PDict record]) = ''declare'' # replicate n ''revalidate'' @ (if d then [''dispose''] else [])"
    using life(1) action(1)
    by (elim disjE) (force simp: action_of_def replicate_append_same intro: exI [of _ "Suc n"] exI [of _ False],
      force simp: action_of_def intro: exI [of _ n] exI [of _ True])
  then show ?thesis
    using one_claim_snoc [OF life(2) False f(3,4)] by (simp add: assumption_life_def)
qed

lemma records_life:
  assumes "fold_result assumption_step rs ([], 0, []) = Inr st"
  shows "assumption_life (records_of k rs) \<and> (\<forall>r \<in> set rs. is_dict r \<and> sound_assumption (dict_of r))"
  using assms
proof (induction rs arbitrary: st rule: rev_induct)
  case (snoc r rs)
  obtain st1 where st1: "fold_result assumption_step rs ([], 0, []) = Inr st1" "assumption_step r st1 = Inr st"
    using assumptions.scan_prefix [OF snoc.prems] by (auto simp: bindE_Inr)
  have "assumption_ok r (active_assumptions rs)"
    using st1(2) scan_state [OF st1(1)] assumptions.step_Inr by (metis prod_cases3)
  then obtain d where r: "r = PDict d" "sound_assumption d" "follow_up d (active_assumptions rs) = Inr ()"
    by (rule assumption_ok_shape)
  note IH = snoc.IH [OF st1(1)]
  show ?case
  proof (cases "assumption_key d = k")
    case True
    have "assumption_life (records_of k rs @ [PDict d])"
      using IH r(2,3) active_newest [of rs k] True by (intro follow_up_life) (auto simp: records_of_def)
    then show ?thesis using IH r True by (simp add: records_of_def)
  qed (use IH r in \<open>simp add: records_of_def\<close>)
qed (simp add: records_of_def assumption_life_def)

text \<open>Property C28. In every accepted assumption history the records are linked by their digests, their
  revisions increase, and the records of each assumption read declare, then revalidations, then
  at most one final disposition, with the declared kind and materiality throughout.\<close>

theorem history_is_assumption_life:
  assumes "assumption_records meta = Inr rs"
  shows "assumption_life (records_of k rs) \<and> sorted_wrt (<) (map record_stamp rs) \<and>
    map record_link rs = butlast ([] # map record_identity rs) \<and> length rs \<le> MAX_ASSUMPTIONS"
proof -
  obtain p r s where scan: "fold_result assumption_step rs ([], 0, []) = Inr (p, r, s)"
    using assms by (auto simp: assumption_records_Inr)
  show ?thesis
    using records_life [OF scan] assumptions.scan_Inr [OF scan] assms by (simp add: assumption_records_Inr)
qed

lemma stale_assumption_None:
  "stale_assumption ob meta tasks d = Inr None \<longleftrightarrow>
    (\<forall>(k, r) \<in> set d. needs_revalidation r \<longrightarrow>
      (\<exists>b. current_binding ob meta tasks r = Inr b \<and> py_eq (PDict b) (dget (dict_of r) ''binding'')))"
  by (induction d) (auto simp: bindE_Inr simp del: py_eq.simps split: if_splits)

lemma admission_error_None:
  "assumption_admission_error ob meta tasks = Inr None \<longleftrightarrow>
    (\<exists>rs. assumption_records meta = Inr rs \<and> stale_assumption ob meta tasks (active_assumptions rs) = Inr None)"
proof -
  have "catchE m (\<lambda>e. if is_runtime_error e \<or> is_value_error e then Inr (Some (t e)) else Inl e) = Inr None \<longleftrightarrow> m = Inr None"
    for m :: "string option result" and t by (cases m) auto
  then show ?thesis by (simp add: assumption_admission_error_def bindE_Inr)
qed

text \<open>Property C29. The freshness admission of a task passes exactly when its history is valid and a new
  observation of every active material assumption succeeds and equals the recorded binding.\<close>

theorem admission_is_fresh:
  "assumption_admission_error ob meta tasks = Inr None \<longleftrightarrow>
    (\<exists>rs. assumption_records meta = Inr rs \<and>
      (\<forall>(k, r) \<in> set (active_assumptions rs). needs_revalidation r \<longrightarrow>
        (\<exists>b. current_binding ob meta tasks r = Inr b \<and> py_eq (PDict b) (dget (dict_of r) ''binding''))))"
  by (simp only: admission_error_None stale_assumption_None)

lemma observe_binding_valid:
  assumes "observe_binding ob meta tasks kind reference = Inr binding" "\<forall>t \<in> set tasks. 1 \<le> int_of (dget t ''task_revision'')"
  shows "validate_binding kind (PDict binding) = Inr ()" "py_eq (PDict binding) (PDict binding)"
    "dget r ''kind'' = PStr kind \<Longrightarrow> dget r ''binding'' = PDict binding \<Longrightarrow> recorded_reference r = reference"
proof -
  consider (base) h where "kind = ''base''" "reference = []" "binding = [(''head'', PStr h)]" "is_object_id h"
    | (dependency) t where "kind = ''dependency''" "binding = [(''task'', PStr reference), (''task_revision'', dget t ''task_revision'')]"
        "is_task_id reference" "exact_int (dget t ''task_revision'')" "t \<in> set tasks"
    | (observation) payload where "kind = ''observation''" "binding = [(''ref'', PStr reference), (''digest'', PStr (''sha256:'' @ sha256_hex payload))]"
        "safe_path (PStr reference)"
    using assms(1)
    by (auto simp: observe_binding_def bindE_Inr raise_if_Inr git_head_def dependency_binding_def file_digest_def Let_def
        split: if_splits option.splits observed_file.splits dest: find_Some_mem)
  note cases = this
  show "validate_binding kind (PDict binding) = Inr ()"
    using cases assms(2)
    by cases (auto simp: validate_binding_def keys_exact_def dkeys_def raise_if_Inr is_digest_def starts_with_def sha256_hex_shape)
  show "py_eq (PDict binding) (PDict binding)"
    using cases by cases (auto simp: exact_int_iff)
  show "dget r ''kind'' = PStr kind \<Longrightarrow> dget r ''binding'' = PDict binding \<Longrightarrow> recorded_reference r = reference"
    using cases by cases (simp_all add: recorded_reference_def)
qed

lemma assumption_record_fields:
  assumes "assumption_record action i kind material binding revision p reason = Inr d"
  shows "dget d ''kind'' = PStr kind" "dget d ''binding'' = PDict binding" "dget d ''action'' = PStr action"
    "dget d ''material'' = PBool material" "dget d ''task_revision'' = PInt revision" "dget d ''previous_digest'' = PStr p"
    "assumption_key d = i" "dget d ''reason'' = PStr reason" "keys_exact d ASSUMPTION_FIELDS"
    "assumption_identity_valid d = Inr (length reason \<le> 512 \<and> newline \<notin> set reason)" "p = [] \<or> is_digest p"
proof -
  let ?i = "assumption_identity action i kind material binding revision p reason"
  have r: "action \<in> set ASSUMPTION_ACTIONS" "is_assumption_id i" "kind \<in> set ASSUMPTION_KINDS" "1 \<le> revision"
      "d = ?i @ [(''digest'', PStr (digest (PDict ?i)))]"
    using assms by (auto simp: assumption_record_def Let_def bindE_Inr raise_if_Inr not_less)
  show f: "dget d ''kind'' = PStr kind" "dget d ''binding'' = PDict binding" "dget d ''action'' = PStr action"
    "dget d ''material'' = PBool material" "dget d ''task_revision'' = PInt revision" "dget d ''previous_digest'' = PStr p" "assumption_key d = i"
    "dget d ''reason'' = PStr reason" "keys_exact d ASSUMPTION_FIELDS"
    by (simp_all add: r(5) assumption_identity_def assumption_key_def keys_exact_def dkeys_def ASSUMPTION_FIELDS_def)
  have g: "dget d ''schema_version'' = PInt 1" "dget_or d ''id'' (PStr []) = PStr i" "dget d ''digest'' = PStr (digest (PDict ?i))" "dpop d ''digest'' = ?i"
    by (simp_all add: r(5) assumption_identity_def dpop_def AList.delete_eq)
  show "assumption_identity_valid d = Inr (length reason \<le> 512 \<and> newline \<notin> set reason)"
    using f g r(1-4) by (simp add: assumption_identity_valid_def hash_in_def)
  show "p = [] \<or> is_digest p" using assms by (auto simp: assumption_record_def Let_def bindE_Inr raise_if_Inr)
qed

lemma assumption_record_sound:
  assumes "assumption_record action i kind material binding revision p reason = Inr d"
    and "validate_binding kind (PDict binding) = Inr ()" "length reason \<le> 512" "newline \<notin> set reason"
    and "if action = ''dispose'' then strip reason \<noteq> [] else reason = []"
  shows "sound_assumption d"
  using assms(2-5) assumption_record_fields [OF assms(1)] by (simp add: sound_assumption_def)

text \<open>A successful command, in steps.\<close>

lemma apply_assumption_Inr:
  assumes "apply_assumption ob args meta tasks = Inr (meta', msg)"
  obtains history material kind reference binding revision d where
    "assumption_records meta = Inr history" "length history < MAX_ASSUMPTIONS"
    "request_identity args (dget (active_assumptions history) (arg_str args ''assumption_id'')) = Inr (material, kind, reference)"
    "observe_binding ob meta tasks kind reference = Inr binding"
    "\<not> (arg_str args ''assumption_action'' = ''revalidate'' \<and>
       py_eq (PDict binding) (dget (dict_of (dget (active_assumptions history) (arg_str args ''assumption_id''))) ''binding''))"
    "arg_str args ''assumption_action'' = ''dispose'' \<longrightarrow> strip (arg_str args ''reason'') \<noteq> []"
    "py_int (dget meta ''task_revision'') = Inr revision"
    "assumption_record (arg_str args ''assumption_action'') (arg_str args ''assumption_id'') kind material binding (revision + 1)
       (if history = [] then [] else record_identity (last history))
       (if arg_str args ''assumption_action'' = ''dispose'' then arg_str args ''reason'' else []) = Inr d"
    "meta' = dset meta ''assumption_revalidation'' (PList (history @ [PDict d]))"
proof -
  have "ditem meta ''task_revision'' = Inr r \<Longrightarrow> dget meta ''task_revision'' = r" for r by (rule ditem_Inr_dget)
  then show thesis
    using assms that unfolding apply_assumption_def Let_def record_identity_def
    by (auto simp: bindE_Inr raise_if_Inr simp del: py_eq.simps split: prod.splits)
qed

lemma request_follows:
  assumes "request_identity args existing = Inr (material, kind, reference)" "sound_assumption d"
    and "existing = PNone \<or> is_dict existing \<and> sound_assumption (dict_of existing)" "dget active (assumption_key d) = existing"
    and "dget d ''action'' = dget args ''assumption_action''" "dget d ''kind'' = PStr kind" "dget d ''material'' = PBool material"
    and "\<not> (dget d ''action'' = PStr ''revalidate'' \<and> py_eq (dget d ''binding'') (dget (dict_of existing) ''binding''))"
  shows "follow_up d active = Inr ()"
proof (cases "dget args ''assumption_action'' = PStr ''declare''")
  case True
  then show ?thesis
    using assms(1,4,5) by (auto simp: request_identity_def follow_up_def bindE_Inr raise_if_Inr)
next
  case False
  then have r: "existing \<noteq> PNone" "dget (dict_of existing) ''action'' \<noteq> PStr ''dispose''"
      "material = truthy (dget (dict_of existing) ''material'')" "kind = py_str (dget (dict_of existing) ''kind'')"
    using assms(1) by (auto simp: request_identity_def followup_identity_def Let_def bindE_Inr raise_if_Inr split: if_splits)
  have e: "sound_assumption (dict_of existing)" using r(1) assms(3) by blast
  obtain k m where "dget (dict_of existing) ''kind'' = PStr k" "dget (dict_of existing) ''material'' = PBool m"
    using e by (rule sound_assumption_fields)
  then show ?thesis
    using False r assms(4-8) by (simp add: follow_up_def Let_def raise_if_Inr)
qed

text \<open>A record built from an accepted request extends the history it was built from.\<close>

lemma request_extends_history:
  fixes d :: meta
  assumes "assumption_records meta = Inr history" "length history < MAX_ASSUMPTIONS"
    and "request_identity args (dget (active_assumptions history) (arg_str args ''assumption_id'')) = Inr (material, kind, reference)"
    and "\<not> (arg_str args ''assumption_action'' = ''revalidate'' \<and>
      py_eq (PDict binding) (dget (dict_of (dget (active_assumptions history) (arg_str args ''assumption_id''))) ''binding''))"
    and "is_str (dget args ''assumption_action'')" and "\<forall>r \<in> set history. record_stamp r \<le> n" "0 \<le> n"
    and d: "sound_assumption d" "dget d ''kind'' = PStr kind" "dget d ''binding'' = PDict binding"
      "dget d ''action'' = PStr (arg_str args ''assumption_action'')" "dget d ''material'' = PBool material" "dget d ''task_revision'' = PInt (n + 1)"
      "record_link (PDict d) = (if history = [] then [] else record_identity (last history))" "assumption_key d = arg_str args ''assumption_id''"
  shows "assumption_records (dset meta ''assumption_revalidation'' (PList (history @ [PDict d]))) = Inr (history @ [PDict d])"
proof -
  let ?i = "arg_str args ''assumption_id''"
  obtain st where st: "fold_result assumption_step history ([], 0, []) = Inr st"
    using assms(1) by (auto simp: assumption_records_Inr)
  have "history \<noteq> [] \<Longrightarrow> record_stamp (last history) \<le> n"
    using assms(6) last_in_set [of history] by blast
  then have stamp: "(if history = [] then 0 else record_stamp (last history)) < record_stamp (PDict d)"
    using assms(7) by (cases "history = []") (simp_all add: record_stamp_def d(6))
  have "dget (active_assumptions history) ?i = PNone \<or>
      is_dict (dget (active_assumptions history) ?i) \<and> sound_assumption (dict_of (dget (active_assumptions history) ?i))"
    using records_life [OF st] last_in_set [of "records_of ?i history"] by (auto simp: active_newest records_of_def)
  then have "follow_up d (active_assumptions history) = Inr ()"
    using assms(3,4,5) d by (intro request_follows) (auto simp: arg_str_def is_str_iff simp del: py_eq.simps)
  then have "fold_result assumption_step (history @ [PDict d]) ([], 0, []) =
      Inr (record_identity (PDict d), record_stamp (PDict d), advance_active (PDict d) (active_assumptions history))"
    using st [unfolded scan_state [OF st]] stamp d(1,7) by (intro assumptions.scan_push) (auto simp: assumption_ok_def)
  then show ?thesis using assms(2) by (auto simp: assumption_records_Inr)
qed

text \<open>The reason of a disposition as the validator takes it: short and on one line. Nothing tests this before the record is built.\<close>

definition storable_reason :: "namespace \<Rightarrow> bool" where
  "storable_reason args =
     (arg_str args ''assumption_action'' = ''dispose'' \<longrightarrow> length (arg_str args ''reason'') \<le> 512 \<and> newline \<notin> set (arg_str args ''reason''))"

lemma unstorable_history:
  assumes "assumption_records meta = Inr history" "length history < MAX_ASSUMPTIONS"
    and "assumption_record action i kind material binding revision p reason = Inr d" "\<not> (length reason \<le> 512 \<and> newline \<notin> set reason)"
  shows "assumption_records (dset meta ''assumption_revalidation'' (PList (history @ [PDict d]))) = Inl (ValueError ''assumption record identity is invalid'')"
proof -
  obtain st where st: "fold_result assumption_step history ([], 0, []) = Inr st" using assms(1) by (auto simp: assumption_records_Inr)
  have "assumption_identity_valid d = Inr False" using assumption_record_fields(10) [OF assms(3)] assms(4) by simp
  then have "validate_assumption (PDict d) = Inl (ValueError ''assumption record identity is invalid'')"
    using assumption_record_fields(9) [OF assms(3)] by (simp add: validate_assumption_def)
  then have "assumption_step (PDict d) st = Inl (ValueError ''assumption record identity is invalid'')"
    by (cases st) (simp add: assumption_step_def)
  then have "fold_result assumption_step (history @ [PDict d]) ([], 0, []) = Inl (ValueError ''assumption record identity is invalid'')"
    using assumptions.scan_append [OF st] by simp
  then show ?thesis using assms(2) by (simp add: assumption_records_def)
qed

text \<open>
  Property C30. On a task whose history names no later revision than its own, on a board with positive revisions, a
  successful assumption command appends exactly one record, at the next revision, to a valid history, changes nothing else
  and records what is observed. The history it leaves is valid exactly when the reason of a disposition has at most 512
  characters and no newline, which the command does not test; the record is then the active one and, against the same
  observations, fresh. With another reason the validator refuses the history by its error.
\<close>

theorem apply_assumption_recorded:
  assumes "apply_assumption ob args meta tasks = Inr (meta', msg)" and "dget meta ''task_revision'' = PInt n"
    and "\<forall>r \<in> set (list_of (dget meta ''assumption_revalidation'')). record_stamp r \<le> n" "0 \<le> n"
    and "\<forall>t \<in> set tasks. 1 \<le> int_of (dget t ''task_revision'')"
    and "is_str (dget args ''assumption_action'')"
  shows "\<exists>history d b. assumption_records meta = Inr history \<and>
    meta' = dset meta ''assumption_revalidation'' (PList (history @ [PDict d])) \<and>
    dget d ''task_revision'' = PInt (n + 1) \<and> dget d ''action'' = dget args ''assumption_action'' \<and> dget d ''binding'' = PDict b \<and>
    (if storable_reason args
     then assumption_records meta' = Inr (history @ [PDict d]) \<and>
       dget (active_assumptions (history @ [PDict d])) (arg_str args ''assumption_id'') = PDict d \<and>
       current_binding ob meta' tasks (PDict d) = Inr b \<and> py_eq (PDict b) (PDict b)
     else assumption_metadata_error meta' = Inr (Some ''assumption record identity is invalid''))"
proof -
  let ?i = "arg_str args ''assumption_id''" and ?a = "arg_str args ''assumption_action''"
  obtain history material kind reference binding revision d where h:
    "assumption_records meta = Inr history" "length history < MAX_ASSUMPTIONS"
    "request_identity args (dget (active_assumptions history) ?i) = Inr (material, kind, reference)"
    "observe_binding ob meta tasks kind reference = Inr binding"
    "\<not> (?a = ''revalidate'' \<and> py_eq (PDict binding) (dget (dict_of (dget (active_assumptions history) ?i)) ''binding''))"
    "?a = ''dispose'' \<longrightarrow> strip (arg_str args ''reason'') \<noteq> []" "py_int (dget meta ''task_revision'') = Inr revision"
    "assumption_record ?a ?i kind material binding (revision + 1) (if history = [] then [] else record_identity (last history))
       (if ?a = ''dispose'' then arg_str args ''reason'' else []) = Inr d"
    "meta' = dset meta ''assumption_revalidation'' (PList (history @ [PDict d]))"
    using assms(1) by (rule apply_assumption_Inr)
  have rev: "revision = n" using h(7) assms(2) by simp
  note bind = observe_binding_valid [OF h(4) assms(5)]
  note f = assumption_record_fields [OF h(8)]
  have act: "dget args ''assumption_action'' = PStr ?a" using assms(6) by (auto simp: arg_str_def is_str_iff)
  have old: "list_of (dget meta ''assumption_revalidation'') = history"
    using h(1) by (auto simp: assumption_records_Inr dget_def dget_or_def list_of_def split: option.splits)
  have "if storable_reason args
     then assumption_records meta' = Inr (history @ [PDict d]) \<and> dget (active_assumptions (history @ [PDict d])) ?i = PDict d \<and>
       current_binding ob meta' tasks (PDict d) = Inr binding \<and> py_eq (PDict binding) (PDict binding)
     else assumption_metadata_error meta' = Inr (Some ''assumption record identity is invalid'')"
  proof (cases "storable_reason args")
    case True
    have d: "sound_assumption d"
      using h(6) True by (intro assumption_record_sound [OF h(8) bind(1)]) (auto simp: storable_reason_def)
    have link: "record_link (PDict d) = (if history = [] then [] else record_identity (last history))" using f(6) by (simp add: record_link_def)
    have at: "dget d ''task_revision'' = PInt (n + 1)" using f(5) rev by simp
    have "assumption_records meta' = Inr (history @ [PDict d])"
      unfolding h(9) using assms(3,4,6) old by (intro request_extends_history [OF h(1-3,5) _ _ _ d f(1-4) at link f(7)]) auto
    moreover have "current_binding ob meta' tasks (PDict d) = Inr binding"
    proof -
      have "validate_assumption (PDict d) = Inr d" using d by (simp add: validate_assumption_Inr)
      moreover have "observe_binding ob meta' tasks kind reference = observe_binding ob meta tasks kind reference"
        by (simp add: observe_binding_def assumption_worktree_def h(9))
      ultimately show ?thesis using f(1) bind(3) [OF f(1,2)] h(4) by (simp add: current_binding_def)
    qed
    moreover have "dget (active_assumptions (history @ [PDict d])) ?i = PDict d"
      by (simp add: active_newest records_of_def f(7))
    ultimately show ?thesis using True bind(2) by simp
  next
    case False
    then show ?thesis
      using unstorable_history [OF h(1,2,8)] unfolding h(9) by (simp add: storable_reason_def assumption_metadata_error_def split: if_split_asm)
  qed
  then show ?thesis using h(1,9) f(2,3,5) act rev by (intro exI [of _ history] exI [of _ d] exI [of _ binding] conjI) simp_all
qed

text \<open>A task that declares a material observation.\<close>

definition example_observer :: observer where
  "example_observer = \<lparr>ob_worktree = (\<lambda>_. True), ob_head = (\<lambda>_. None), ob_file = (\<lambda>_. Bytes [])\<rparr>"

definition example_assuming :: meta where
  "example_assuming = [(''id'', PStr ''AR-0001''), (''owner'', PStr ''alice''), (''status'', PStr ''in_progress''), (''task_revision'', PInt 3)]"

definition example_declare :: namespace where
  "example_declare = [(''task'', PStr ''AR-0001''), (''owner'', PStr ''alice''), (''expected_revision'', PInt 3), (''assumption_id'', PStr ''api''),
     (''assumption_action'', PStr ''declare''), (''kind'', PStr ''observation''), (''material'', PBool True), (''reference'', PStr ''docs/api.md''),
     (''reason'', PStr [])]"

lemma example_declares: "\<exists>meta' msg. apply_assumption example_observer example_declare example_assuming [] = Inr (meta', msg)"
proof -
  have r: "assumption_records example_assuming = Inr []"
    by (simp add: assumption_records_def example_assuming_def)
  have o: "observe_binding example_observer example_assuming [] ''observation'' ''docs/api.md'' =
      Inr [(''ref'', PStr ''docs/api.md''), (''digest'', PStr (''sha256:'' @ sha256_hex []))]"
  proof -
    have "safe_path (PStr ''docs/api.md'')" by code_simp
    then show ?thesis by (simp add: observe_binding_def file_digest_def example_observer_def)
  qed
  have i: "is_assumption_id ''api''" by code_simp
  show ?thesis
    using r o i
    by (simp add: apply_assumption_def require_fenced_owner_def arg_str_def example_declare_def request_identity_def active_assumptions_def
        assumption_record_def ASSUMPTION_ACTIONS_def ASSUMPTION_KINDS_def MAX_ASSUMPTIONS_def Let_def) (simp add: example_assuming_def)
qed

theorem apply_assumption_recorded_witness:
  "\<exists>meta' msg history d b. apply_assumption example_observer example_declare example_assuming [] = Inr (meta', msg) \<and>
    assumption_records meta' = Inr (history @ [PDict d]) \<and> dget d ''task_revision'' = PInt 4 \<and>
    current_binding example_observer meta' [] (PDict d) = Inr b \<and> dget d ''binding'' = PDict b"
proof -
  obtain meta' msg where a: "apply_assumption example_observer example_declare example_assuming [] = Inr (meta', msg)"
    using example_declares by blast
  have h: "dget example_assuming ''task_revision'' = PInt 3" "dget example_assuming ''assumption_revalidation'' = PNone"
      "storable_reason example_declare" "is_str (dget example_declare ''assumption_action'')"
    by (simp_all add: example_assuming_def example_declare_def arg_str_def storable_reason_def)
  show ?thesis
    using apply_assumption_recorded [OF a h(1)] a h(2-4) by (auto simp: list_of_def)
qed

definition example_binding :: meta where
  "example_binding = [(''ref'', PStr ''docs/api.md''), (''digest'', PStr (''sha256:'' @ sha256_hex []))]"

definition example_assumption :: meta where
  "example_assumption = (let i = assumption_identity ''declare'' ''api'' ''observation'' True example_binding 4 [] [] in
     i @ [(''digest'', PStr (digest (PDict i)))])"

definition example_declared :: meta where
  "example_declared = dset example_assuming ''assumption_revalidation'' (PList [PDict example_assumption])"

lemma example_observation:
  "observe_binding example_observer m ts ''observation'' ''docs/api.md'' = Inr example_binding"
proof -
  have "safe_path (PStr ''docs/api.md'')" by code_simp
  then show ?thesis by (simp add: observe_binding_def file_digest_def example_observer_def example_binding_def)
qed

lemma example_assumption_sound:
  "sound_assumption example_assumption" "dget example_assumption ''binding'' = PDict example_binding"
  "recorded_reference example_assumption = ''docs/api.md''" "dget example_assumption ''kind'' = PStr ''observation''"
  "py_eq (PDict example_binding) (PDict example_binding)" "dget example_assumption ''action'' = PStr ''declare''"
  "record_link (PDict example_assumption) = []" "record_stamp (PDict example_assumption) = 4"
  "assumption_key example_assumption = ''api''"
proof -
  have i: "is_assumption_id ''api''" by code_simp
  then have r: "assumption_record ''declare'' ''api'' ''observation'' True example_binding 4 [] [] = Inr example_assumption"
    by (simp add: assumption_record_def example_assumption_def ASSUMPTION_ACTIONS_def ASSUMPTION_KINDS_def Let_def)
  note b = observe_binding_valid [OF example_observation [of example_assuming "[]"]]
  have s: "sound_assumption example_assumption \<and> dget example_assumption ''kind'' = PStr ''observation'' \<and>
      dget example_assumption ''binding'' = PDict example_binding \<and> dget example_assumption ''action'' = PStr ''declare'' \<and>
      dget example_assumption ''task_revision'' = PInt 4 \<and> dget example_assumption ''previous_digest'' = PStr [] \<and>
      assumption_key example_assumption = ''api''"
    by (intro conjI assumption_record_sound [OF r] assumption_record_fields [OF r]) (simp_all add: b)
  then show "sound_assumption example_assumption" "dget example_assumption ''binding'' = PDict example_binding"
    "dget example_assumption ''kind'' = PStr ''observation''" "dget example_assumption ''action'' = PStr ''declare''"
    "record_link (PDict example_assumption) = []" "record_stamp (PDict example_assumption) = 4" "assumption_key example_assumption = ''api''"
    by (simp_all add: record_link_def record_stamp_def)
  show "recorded_reference example_assumption = ''docs/api.md''" using b(3) s by simp
  show "py_eq (PDict example_binding) (PDict example_binding)" by (rule b(2)) simp
qed

lemma example_history: "assumption_records example_declared = Inr [PDict example_assumption]"
proof -
  note e = example_assumption_sound
  have "assumption_ok (PDict example_assumption) []"
    using e by (simp add: assumption_ok_def follow_up_def)
  then have "\<exists>st. fold_result assumption_step [PDict example_assumption] ([], 0, []) = Inr st"
    using e(7,8) assumptions.scan_push [of "[]" "[]" 0 "[]" "[]" 0 "[]" "PDict example_assumption"] by fastforce
  then show ?thesis by (simp add: assumption_records_Inr example_declared_def MAX_ASSUMPTIONS_def)
qed

theorem history_is_assumption_life_witness:
  "assumption_records example_declared = Inr [PDict example_assumption] \<and> assumption_life (records_of ''api'' [PDict example_assumption]) \<and>
    records_of ''api'' [PDict example_assumption] = [PDict example_assumption]"
  using history_is_assumption_life [OF example_history, of "''api''"] example_history example_assumption_sound(9) by (simp add: records_of_def)

theorem admission_is_fresh_witness: "assumption_admission_error example_observer example_declared [] = Inr None"
proof -
  note e = example_assumption_sound
  have "current_binding example_observer example_declared [] (PDict example_assumption) = Inr example_binding"
    using e by (simp add: current_binding_def validate_assumption_Inr bindE_Inr example_observation)
  moreover have "active_assumptions [PDict example_assumption] = [(''api'', PDict example_assumption)]"
    using e(9) by (simp add: active_assumptions_def dset_def)
  ultimately show ?thesis
    unfolding admission_is_fresh using example_history e(2,5) by (simp del: py_eq.simps)
qed

end
