(* ===== verification/Change_Drift.thy ===== *)
theory Change_Drift
  imports Linked_Records "HOL-Library.Product_Lexorder"
begin

text \<open>
  Change-drift records of a task: \<open>src/tools/change_drift.py\<close>. A baseline observation of the bound
  worktree, a later delta against it, explanations of the changed paths and re-scopings form a
  linked history; a task is released to \<open>done\<close> only when its delta is fully explained.

  Git is a parameter: the raw output of the commands that the source runs, and how file names are
  decoded. Parsing that output is modelled.
\<close>

section \<open>Observing a worktree\<close>

text \<open>\<open>git_head\<close>: stripped output of \<open>rev-parse\<close>; \<open>git_status\<close>: bytes of \<open>status --porcelain=v1 -z\<close>;
  \<open>git_diff\<close>: bytes of \<open>diff --name-status -z -M\<close>; \<open>git_hash\<close>: stripped output of \<open>hash-object\<close>; each
  \<open>None\<close> when the command fails. \<open>path_present\<close>: the path exists or is a link. \<open>decode_path\<close>: UTF-8 decoding
  with \<open>surrogateescape\<close>.\<close>

record git_worktree =
  git_rev :: "string option"
  git_status :: "string option"
  git_diff :: "string \<Rightarrow> string \<Rightarrow> string option"
  git_hash :: "string \<Rightarrow> string option"
  path_present :: "string \<Rightarrow> bool"
  decode_path :: "string \<Rightarrow> string"

definition MAX_DRIFT :: nat where "MAX_DRIFT = 32"
definition DRIFT_KINDS :: "string list" where "DRIFT_KINDS = [''baseline'', ''delta'', ''explain'', ''rescope'']"
definition CLASSIFICATIONS :: "string list" where "CLASSIFICATIONS = [''in_scope'', ''out_of_scope'']"

definition valid_worktree_key :: "pyval \<Rightarrow> bool" where
  "valid_worktree_key v = (is_str v \<and> is_reference ''._-'' 0 127 (str_of v))"

definition normalize_scope :: "pyval list \<Rightarrow> pyval list result" where
  "normalize_scope values =
     bindE (raise_if (values = [] \<or> 64 < length values \<or> \<not> list_all safe_path values)
              (ValueError ''change-drift scope must be a bounded list of safe paths'')) (\<lambda>_.
     let normalized = sorted_set (map str_of values) in
     bindE (raise_if (length normalized \<noteq> length values) (ValueError ''change-drift scope contains duplicates'')) (\<lambda>_.
     Inr (map PStr normalized)))"

definition inside :: "string \<Rightarrow> string list \<Rightarrow> bool" where
  "inside path scope = list_ex (\<lambda>item. path = item \<or> starts_with path (item @ ''/'')) scope"

definition lower_char :: "char \<Rightarrow> char" where
  "lower_char c = (let n = (of_char c :: nat) in
     if 65 \<le> n \<and> n \<le> 90 \<or> 192 \<le> n \<and> n \<le> 222 \<and> n \<noteq> 215 then char_of (n + 32) else c)"

definition ends_with :: "string \<Rightarrow> string \<Rightarrow> bool" where
  "ends_with s p = starts_with (rev s) (rev p)"

definition generated_path :: "string \<Rightarrow> bool" where
  "generated_path path =
     (let parts = path_parts path; name = (if parts = [] then [] else map lower_char (last parts)) in
      list_ex (\<lambda>part. map lower_char part \<in> set [''build'', ''dist'', ''generated'', ''__generated__'']) parts
      \<or> list_ex (ends_with name) [''.generated'', ''.gen.py'', ''.pb.go'', ''.min.js''])"

definition content_digest :: "git_worktree \<Rightarrow> string \<Rightarrow> string result" where
  "content_digest w path =
     (if \<not> path_present w path then Inr []
      else case git_hash w path of
        None \<Rightarrow> Inl (RuntimeError ''change-drift could not fingerprint a changed path'')
      | Some v \<Rightarrow> if is_object_id v then Inr v else Inl (RuntimeError ''change-drift could not fingerprint a changed path''))"

definition ascii_strict :: "string \<Rightarrow> string result" where
  "ascii_strict s = (if list_all (\<lambda>c. (of_char c :: nat) < 128) s then Inr s else Inl (ValueError ''ordinal not in range(128)''))"

definition drift_entry :: "git_worktree \<Rightarrow> string \<Rightarrow> string \<Rightarrow> string \<Rightarrow> string \<Rightarrow> meta result" where
  "drift_entry w unsafe path previous_path status =
     bindE (raise_if (\<not> safe_path (PStr path) \<or> previous_path \<noteq> [] \<and> \<not> safe_path (PStr previous_path)) (ValueError unsafe)) (\<lambda>_.
     bindE (content_digest w path) (\<lambda>content.
     Inr [(''path'', PStr path), (''previous_path'', PStr previous_path), (''status'', PStr status),
          (''generated'', PBool (generated_path path)), (''content_digest'', PStr content)]))"

definition entry_order :: "pyval \<Rightarrow> string \<times> string \<times> string" where
  "entry_order v = (let e = dict_of v in (py_str (dget e ''path''), py_str (dget e ''previous_path''), py_str (dget e ''status'')))"

definition sort_entries :: "pyval list \<Rightarrow> pyval list" where
  "sort_entries es = sort_key entry_order es"

definition is_rename :: "string \<Rightarrow> bool" where
  "is_rename mark = (mark = ''R'' \<or> mark = ''C'')"

text \<open>The loop over the fields before the last separator.\<close>

fun status_loop :: "git_worktree \<Rightarrow> string list \<Rightarrow> pyval list result" where
  "status_loop w [] = Inr []"
| "status_loop w (field # rest) =
     bindE (raise_if (length field < 4 \<or> field ! 2 \<noteq> CHR '' '') (ValueError ''Git returned malformed porcelain status'')) (\<lambda>_.
     bindE (ascii_strict (take 2 field)) (\<lambda>status.
     let path = decode_path w (drop 3 field) in
     if is_rename (take 1 status) \<or> is_rename (take 1 (drop 1 status)) then
       (case rest of
          [] \<Rightarrow> Inl (ValueError ''Git returned truncated rename status'')
        | previous # rest' \<Rightarrow>
            bindE (drift_entry w ''Git returned an unsafe changed path'' path (decode_path w previous) status) (\<lambda>e.
            bindE (status_loop w rest') (\<lambda>es. Inr (PDict e # es))))
     else
       bindE (drift_entry w ''Git returned an unsafe changed path'' path [] status) (\<lambda>e.
       bindE (status_loop w rest) (\<lambda>es. Inr (PDict e # es)))))"

definition status_entries :: "git_worktree \<Rightarrow> string \<Rightarrow> pyval list result" where
  "status_entries w raw = bindE (status_loop w (butlast (split_on CHR 0x00 raw))) (\<lambda>es. Inr (sort_entries es))"

definition observe :: "git_worktree \<Rightarrow> (string \<times> pyval list) result" where
  "observe w =
     (case git_status w of
        None \<Rightarrow> Inl (RuntimeError ''change-drift observation requires a Git worktree'')
      | Some raw \<Rightarrow> bindE (status_entries w raw) (\<lambda>es. Inr (case git_rev w of None \<Rightarrow> [] | Some h \<Rightarrow> h, es)))"

text \<open>Committed changes between two heads. \<open>trailing\<close> is the text after the last separator, which the second
  path of a truncated rename reads.\<close>

definition head_entry :: "git_worktree \<Rightarrow> string \<Rightarrow> string \<Rightarrow> string \<Rightarrow> meta result" where
  "head_entry w status previous path =
     drift_entry w ''Git returned an unsafe committed changed path'' (decode_path w path) previous (take 1 status @ '' '')"

fun head_loop :: "git_worktree \<Rightarrow> string \<Rightarrow> string list \<Rightarrow> pyval list result" where
  "head_loop w trailing [] = Inr []"
| "head_loop w trailing (status_field # rest) =
     (if status_field = [] then Inr []
      else
        bindE (ascii_strict status_field) (\<lambda>status.
        case rest of
          [] \<Rightarrow> Inl (ValueError ''Git returned malformed committed change status'')
        | first # rest' \<Rightarrow>
            if is_rename (take 1 status) then
              (case rest' of
                 [] \<Rightarrow> bindE (head_entry w status (decode_path w first) trailing) (\<lambda>e. Inr [PDict e])
               | second # rest'' \<Rightarrow>
                   bindE (head_entry w status (decode_path w first) second) (\<lambda>e.
                   bindE (head_loop w trailing rest'') (\<lambda>es. Inr (PDict e # es))))
            else
              bindE (head_entry w status [] first) (\<lambda>e.
              bindE (head_loop w trailing rest') (\<lambda>es. Inr (PDict e # es)))))"

definition head_entries :: "git_worktree \<Rightarrow> string \<Rightarrow> string \<Rightarrow> pyval list result" where
  "head_entries w before after =
     (if before = after then Inr []
      else case git_diff w before after of
        None \<Rightarrow> Inl (RuntimeError ''change-drift could not compare committed work'')
      | Some raw \<Rightarrow> bindE (head_loop w (last (split_on CHR 0x00 raw)) (butlast (split_on CHR 0x00 raw))) (\<lambda>es. Inr (sort_entries es)))"

section \<open>Records\<close>

definition drift_identity :: "string \<Rightarrow> string \<Rightarrow> int \<Rightarrow> meta \<Rightarrow> string \<Rightarrow> meta" where
  "drift_identity kind task revision payload previous_digest = [
     (''schema_version'', PInt 2), (''kind'', PStr kind), (''task'', PStr task), (''task_revision'', PInt revision),
     (''payload'', PDict payload), (''previous_digest'', PStr previous_digest)]"

definition drift_record :: "string \<Rightarrow> string \<Rightarrow> int \<Rightarrow> string \<Rightarrow> meta \<Rightarrow> string \<Rightarrow> meta result" where
  "drift_record kind task revision recorded_at payload previous_digest =
     (let identity = drift_identity kind task revision payload previous_digest in
      bindE (raise_if (kind \<notin> set DRIFT_KINDS \<or> \<not> is_task_id task \<or> revision < 1 \<or> recorded_at = [])
               (ValueError ''invalid change-drift record identity'')) (\<lambda>_.
      bindE (raise_if (previous_digest \<noteq> [] \<and> \<not> is_digest previous_digest) (ValueError ''invalid change-drift predecessor'')) (\<lambda>_.
      Inr (identity @ [(''recorded_at'', PStr recorded_at), (''digest'', PStr (digest (PDict identity)))]))))"

definition drift_baseline :: "string \<Rightarrow> int \<Rightarrow> string \<Rightarrow> git_worktree \<Rightarrow> pyval list \<Rightarrow> meta result" where
  "drift_baseline task revision recorded_at w scope =
     bindE (observe w) (\<lambda>(head, entries).
     bindE (normalize_scope scope) (\<lambda>normalized.
     drift_record ''baseline'' task revision recorded_at
       [(''head'', PStr head), (''entries'', PList entries), (''scope'', PList normalized)] []))"

definition entry_key :: "pyval \<Rightarrow> string \<times> string" where
  "entry_key v = (py_str (dget (dict_of v) ''path''), py_str (dget (dict_of v) ''previous_path''))"

text \<open>The last of several entries with the same key or path wins, as in the dictionaries of the source.\<close>

definition before_entry :: "pyval list \<Rightarrow> pyval \<Rightarrow> pyval" where
  "before_entry es e = (case map_of (rev (map (\<lambda>x. (entry_key x, x)) es)) (entry_key e) of None \<Rightarrow> PNone | Some x \<Rightarrow> x)"

definition baseline_content :: "pyval list \<Rightarrow> pyval \<Rightarrow> pyval" where
  "baseline_content es e =
     (case map_of (rev (map (\<lambda>x. (fst (entry_key x), PStr (py_str (dget (dict_of x) ''content_digest'')))) es)) (fst (entry_key e)) of
        None \<Rightarrow> PNone | Some x \<Rightarrow> x)"

definition entry_paths :: "pyval \<Rightarrow> string list" where
  "entry_paths e = fst (entry_key e) # (if truthy (dget (dict_of e) ''previous_path'') then [snd (entry_key e)] else [])"

definition classify :: "string list \<Rightarrow> pyval \<Rightarrow> pyval" where
  "classify scope e =
     PDict (dset (dset (dict_of e) ''classification''
       (PStr (if list_all (\<lambda>p. inside p scope) (entry_paths e) then ''in_scope'' else ''out_of_scope''))) ''material'' (PBool True))"

definition worktree_changes :: "string list \<Rightarrow> pyval list \<Rightarrow> pyval list \<Rightarrow> pyval list" where
  "worktree_changes scope base current = map (classify scope) (filter (\<lambda>e. \<not> py_eq (before_entry base e) e) current)"

fun committed_changes :: "string list \<Rightarrow> pyval list \<Rightarrow> pyval list \<Rightarrow> pyval list \<Rightarrow> pyval list" where
  "committed_changes scope base changed [] = changed"
| "committed_changes scope base changed (e # es) =
     (if baseline_content base e = dget (dict_of e) ''content_digest'' \<or> entry_key e \<in> entry_key ` set changed
      then committed_changes scope base changed es
      else committed_changes scope base (changed @ [classify scope e]) es)"

definition payload_of :: "pyval \<Rightarrow> meta" where "payload_of r = dict_of (dget (dict_of r) ''payload'')"
definition entries_of :: "pyval \<Rightarrow> pyval list" where "entries_of r = list_of (dget (payload_of r) ''entries'')"
definition kind_of :: "pyval \<Rightarrow> string" where "kind_of r = str_of (dget (dict_of r) ''kind'')"

definition drift_delta :: "string \<Rightarrow> int \<Rightarrow> string \<Rightarrow> git_worktree \<Rightarrow> pyval \<Rightarrow> string list \<Rightarrow> string \<Rightarrow> meta result" where
  "drift_delta task revision recorded_at w base scope previous_digest =
     bindE (observe w) (\<lambda>(head, entries).
     bindE (head_entries w (py_str (dget (payload_of base) ''head'')) head) (\<lambda>committed.
     let changed = committed_changes scope (entries_of base) (worktree_changes scope (entries_of base) entries) committed in
     drift_record ''delta'' task revision recorded_at
       [(''baseline_digest'', dget (dict_of base) ''digest''), (''head'', PStr head), (''entries'', PList (sort_entries changed))] previous_digest))"

definition drift_explain ::
  "string \<Rightarrow> int \<Rightarrow> string \<Rightarrow> string \<Rightarrow> pyval list \<Rightarrow> string \<Rightarrow> bool \<Rightarrow> string \<Rightarrow> meta result" where
  "drift_explain task revision recorded_at delta_digest paths reason generated previous_digest =
     bindE (raise_if (\<not> is_digest delta_digest \<or> paths = [] \<or> 64 < length paths \<or> \<not> list_all safe_path paths)
              (ValueError ''invalid change-drift explanation paths'')) (\<lambda>_.
     bindE (raise_if (strip reason = [] \<or> 1000 < length reason \<or> newline \<in> set reason) (ValueError ''change-drift explanation reason is invalid'')) (\<lambda>_.
     drift_record ''explain'' task revision recorded_at
       [(''delta_digest'', PStr delta_digest), (''paths'', PList (map PStr (sorted_set (map str_of paths)))), (''reason'', PStr reason),
        (''generated'', PBool generated)] previous_digest))"

definition drift_rescope :: "string \<Rightarrow> int \<Rightarrow> string \<Rightarrow> string \<Rightarrow> pyval list \<Rightarrow> string \<Rightarrow> meta result" where
  "drift_rescope task revision recorded_at baseline_digest scope previous_digest =
     bindE (raise_if (\<not> is_digest baseline_digest) (ValueError ''invalid change-drift baseline digest'')) (\<lambda>_.
     bindE (normalize_scope scope) (\<lambda>normalized.
     drift_record ''rescope'' task revision recorded_at
       [(''baseline_digest'', PStr baseline_digest), (''scope'', PList normalized)] previous_digest))"

section \<open>Validation\<close>

definition DRIFT_FIELDS :: "string list" where
  "DRIFT_FIELDS = [''schema_version'', ''kind'', ''task'', ''task_revision'', ''recorded_at'', ''payload'', ''previous_digest'', ''digest'']"

definition drift_identity_of :: "meta \<Rightarrow> meta" where
  "drift_identity_of record = map (\<lambda>k. (k, dget record k)) [''schema_version'', ''kind'', ''task'', ''task_revision'', ''payload'', ''previous_digest'']"

definition bad_drift_identity :: "meta \<Rightarrow> bool result" where
  "bad_drift_identity record =
     (let revision = dget record ''task_revision''; at = dget record ''recorded_at''; previous = dget record ''previous_digest'' in
      orE (Inr (\<not> py_eq (dget record ''schema_version'') (PInt 2)))
     (orE (hash_not_in (dget record ''kind'') DRIFT_KINDS)
          (Inr (\<not> is_task_id (py_str (dget_or record ''task'' (PStr []))) \<or> \<not> exact_int revision \<or> int_of revision < 1
                \<or> \<not> is_str at \<or> str_of at = [] \<or> \<not> is_str previous \<or> str_of previous \<noteq> [] \<and> \<not> is_digest (str_of previous)
                \<or> dget record ''digest'' \<noteq> PStr (digest (PDict (drift_identity_of record)))))))"

definition canonical_scope :: "pyval \<Rightarrow> bool" where
  "canonical_scope v = (is_list v \<and> normalize_scope (list_of v) = Inr (list_of v))"

definition ENTRY_FIELDS :: "string list" where
  "ENTRY_FIELDS = [''path'', ''previous_path'', ''status'', ''generated'', ''content_digest'']"

definition bad_entry :: "bool \<Rightarrow> pyval \<Rightarrow> bool result" where
  "bad_entry classified v =
     (let e = dict_of v; previous = dget e ''previous_path''; status = dget e ''status''; content = dget e ''content_digest'' in
      orE (Inr (\<not> is_dict v \<or> \<not> keys_exact e (ENTRY_FIELDS @ (if classified then [''classification'', ''material''] else []))
                \<or> \<not> safe_path (dget e ''path'') \<or> truthy previous \<and> \<not> safe_path previous \<or> \<not> is_str previous
                \<or> \<not> is_str status \<or> length (str_of status) \<noteq> 2 \<or> \<not> is_bool (dget e ''generated'')
                \<or> \<not> is_str content \<or> str_of content \<noteq> [] \<and> \<not> is_object_id (str_of content)))
     (orE (if classified then hash_not_in (dget e ''classification'') CLASSIFICATIONS else Inr False)
          (Inr (classified \<and> \<not> is_bool (dget e ''material'')))))"

definition validate_observation :: "meta \<Rightarrow> bool \<Rightarrow> bool \<Rightarrow> unit result" where
  "validate_observation payload with_scope classified =
     (let entries = dget payload ''entries'' in
      bindE (raise_if (\<not> keys_exact payload [''head'', ''entries'', if with_scope then ''scope'' else ''baseline_digest'']
               \<or> \<not> is_str (dget payload ''head'')) (ValueError ''invalid change-drift observation payload'')) (\<lambda>_.
      bindE (raise_if (\<not> is_list entries \<or> 4096 < length (list_of entries)) (ValueError ''invalid change-drift observation entries'')) (\<lambda>_.
      bindE (for_each (\<lambda>e. bindE (bad_entry classified e) (\<lambda>bad. raise_if bad (ValueError ''invalid change-drift observation entry'')))
               (list_of entries)) (\<lambda>_.
      bindE (raise_if (sort_entries (list_of entries) \<noteq> list_of entries) (ValueError ''change-drift observation entries are not canonical'')) (\<lambda>_.
      raise_if (with_scope \<and> \<not> canonical_scope (dget payload ''scope'')) (ValueError ''invalid change-drift baseline payload''))))))"

definition bad_explanation :: "meta \<Rightarrow> bool" where
  "bad_explanation payload =
     (let paths = dget payload ''paths''; reason = dget payload ''reason'' in
      \<not> keys_exact payload [''delta_digest'', ''paths'', ''reason'', ''generated''] \<or> \<not> is_digest (py_str (dget_or payload ''delta_digest'' (PStr [])))
      \<or> \<not> is_list paths \<or> list_of paths = [] \<or> 64 < length (list_of paths) \<or> \<not> list_all safe_path (list_of paths)
      \<or> \<not> py_distinct (list_of paths) \<or> \<not> is_str reason \<or> strip (str_of reason) = [] \<or> 1000 < length (str_of reason)
      \<or> newline \<in> set (str_of reason) \<or> \<not> is_bool (dget payload ''generated''))"

definition drift_payload :: "string \<Rightarrow> meta \<Rightarrow> unit result" where
  "drift_payload kind payload =
     (if kind = ''baseline'' then validate_observation payload True False
      else if kind = ''delta'' then
        bindE (raise_if (\<not> keys_exact payload [''baseline_digest'', ''head'', ''entries''] \<or> \<not> is_digest (py_str (dget_or payload ''baseline_digest'' (PStr []))))
                 (ValueError ''invalid change-drift delta payload'')) (\<lambda>_.
        validate_observation payload False True)
      else if kind = ''explain'' then raise_if (bad_explanation payload) (ValueError ''invalid change-drift explanation payload'')
      else raise_if (\<not> keys_exact payload [''baseline_digest'', ''scope''] \<or> \<not> is_digest (py_str (dget_or payload ''baseline_digest'' (PStr [])))
               \<or> \<not> canonical_scope (dget payload ''scope'')) (ValueError ''invalid change-drift re-scope payload''))"

definition validate_drift :: "pyval \<Rightarrow> unit result" where
  "validate_drift v =
     (let record = dict_of v in
      bindE (raise_if (\<not> is_dict v \<or> \<not> keys_exact record DRIFT_FIELDS) (ValueError ''change-drift record fields are not exact'')) (\<lambda>_.
      bindE (bad_drift_identity record) (\<lambda>bad.
      bindE (raise_if bad (ValueError ''invalid change-drift record identity'')) (\<lambda>_.
      bindE (raise_if (\<not> is_dict (dget record ''payload'')) (ValueError ''invalid change-drift record payload'')) (\<lambda>_.
      drift_payload (py_str (dget record ''kind'')) (payload_of v))))))"

section \<open>The history\<close>

definition latest_of :: "string \<Rightarrow> pyval list \<Rightarrow> pyval option" where
  "latest_of kind rs = find (\<lambda>r. kind_of r = kind) (rev rs)"

definition active_scope :: "pyval list \<Rightarrow> pyval \<Rightarrow> string list" where
  "active_scope rs base =
     foldl (\<lambda>scope r. if kind_of r = ''rescope'' \<and> py_eq (dget (payload_of r) ''baseline_digest'') (dget (dict_of base) ''digest'')
        then map str_of (list_of (dget (payload_of r) ''scope'')) else scope) (map str_of (list_of (dget (payload_of base) ''scope''))) rs"

definition explained_paths :: "pyval list \<Rightarrow> pyval \<Rightarrow> pyval list" where
  "explained_paths rs current =
     concat (map (\<lambda>r. list_of (dget (payload_of r) ''paths''))
       (filter (\<lambda>r. kind_of r = ''explain'' \<and> py_eq (dget (payload_of r) ''delta_digest'') (dget (dict_of current) ''digest'')) rs))"

definition unresolved :: "pyval list \<Rightarrow> pyval list" where
  "unresolved rs =
     (case latest_of ''delta'' rs of
        None \<Rightarrow> []
      | Some current \<Rightarrow> filter (\<lambda>e. truthy (dget (dict_of e) ''material'') \<and> \<not> py_in (dget (dict_of e) ''path'') (explained_paths rs current)) (entries_of current))"

text \<open>The state of the scan: the records before the current one, the active baseline and the active delta.\<close>

type_synonym drift_state = "pyval list \<times> pyval \<times> pyval"

definition drift_follows :: "pyval \<Rightarrow> drift_state \<Rightarrow> unit result" where
  "drift_follows r s =
     (case s of (before, base, delta) \<Rightarrow>
        if kind_of r = ''baseline'' then
          raise_if (delta \<noteq> PNone \<and> unresolved (takeWhile (\<lambda>x. \<not> py_eq x r) before) \<noteq> []) (ValueError ''change-drift baseline bypasses unresolved work'')
        else if kind_of r = ''rescope'' then
          raise_if (base = PNone \<or> delta \<noteq> PNone \<or> \<not> py_eq (dget (payload_of r) ''baseline_digest'') (dget (dict_of base) ''digest''))
            (ValueError ''change-drift re-scope is not linked to the active baseline'')
        else if kind_of r = ''delta'' then
          raise_if (base = PNone \<or> delta \<noteq> PNone \<or> \<not> py_eq (dget (payload_of r) ''baseline_digest'') (dget (dict_of base) ''digest''))
            (ValueError ''change-drift delta is not linked to the active baseline'')
        else
          bindE (raise_if (delta = PNone \<or> \<not> py_eq (dget (payload_of r) ''delta_digest'') (dget (dict_of delta) ''digest''))
                   (ValueError ''change-drift explanation is not linked to the active delta'')) (\<lambda>_.
          raise_if (\<not> list_all (\<lambda>p. py_in p (map (\<lambda>e. dget (dict_of e) ''path'') (entries_of delta))) (list_of (dget (payload_of r) ''paths'')))
            (ValueError ''change-drift explanation names unrelated paths'')))"

definition drift_advance :: "pyval \<Rightarrow> drift_state \<Rightarrow> drift_state" where
  "drift_advance r s =
     (case s of (before, base, delta) \<Rightarrow>
        (before @ [r], if kind_of r = ''baseline'' then r else base,
         if kind_of r = ''baseline'' then PNone else if kind_of r = ''delta'' then r else delta))"

definition drift_step :: "pyval \<Rightarrow> pyval \<Rightarrow> string \<times> int \<times> drift_state \<Rightarrow> (string \<times> int \<times> drift_state) result" where
  "drift_step task_id r st =
     (case st of (previous_digest, previous_revision, s) \<Rightarrow>
        bindE (validate_drift r) (\<lambda>_.
        bindE (raise_if (\<not> py_eq (dget (dict_of r) ''task'') task_id) (ValueError ''change-drift record task differs from task'')) (\<lambda>_.
        bindE (raise_if (record_link r \<noteq> previous_digest) (ValueError ''change-drift history is not linked'')) (\<lambda>_.
        bindE (raise_if (record_stamp r \<le> previous_revision) (ValueError ''change-drift history revisions are not increasing'')) (\<lambda>_.
        bindE (drift_follows r s) (\<lambda>_.
        Inr (record_identity r, record_stamp r, drift_advance r s)))))))"

definition drift_records :: "meta \<Rightarrow> pyval list result" where
  "drift_records meta =
     (let v = dget_or meta ''change_drift'' (PList []) in
      bindE (raise_if (\<not> is_list v \<or> MAX_DRIFT < length (list_of v)) (ValueError ''invalid change-drift history'')) (\<lambda>_.
      bindE (fold_result (drift_step (dget meta ''id'')) (list_of v) ([], 0, [], PNone, PNone)) (\<lambda>_.
      Inr (list_of v))))"

definition completion_error :: "pyval list \<Rightarrow> string option result" where
  "completion_error rs =
     (if rs = [] then Inr None
      else
        bindE (drift_records [(''id'', dget (dict_of (hd rs)) ''task''), (''change_drift'', PList rs)]) (\<lambda>_.
        if kind_of (last rs) \<noteq> ''delta'' \<and> kind_of (last rs) \<noteq> ''explain''
        then Inr (Some ''CHANGE_DRIFT_DELTA_REQUIRED: active baseline requires a post-work delta'')
        else if unresolved rs \<noteq> [] then Inr (Some ''CHANGE_DRIFT_UNEXPLAINED'') else Inr None))"

definition drift_metadata_error :: "meta \<Rightarrow> string option result" where
  "drift_metadata_error meta =
     (case drift_records meta of Inr _ \<Rightarrow> Inr None | Inl e \<Rightarrow> if is_value_error e then Inr (Some (exc_message e)) else Inl e)"

definition drift_done_error :: "meta \<Rightarrow> string option result" where
  "drift_done_error meta =
     (case bindE (drift_records meta) (\<lambda>history. bindE (completion_error history) (\<lambda>error. Inr (history, error))) of
        Inl e \<Rightarrow> if is_value_error e then Inr (Some (''change-drift record is invalid: '' @ exc_message e)) else Inl e
      | Inr (history, error) \<Rightarrow>
          if error \<noteq> None \<and> error \<noteq> Some ''CHANGE_DRIFT_UNEXPLAINED'' then Inr error
          else if unresolved history \<noteq> []
          then Inr (Some (''CHANGE_DRIFT_UNEXPLAINED: material changed paths require explanation: '' @
            join '', '' (map (\<lambda>e. py_str (dget (dict_of e) ''path'')) (unresolved history))))
          else Inr None)"

section \<open>The command\<close>

definition next_record ::
  "string \<Rightarrow> int \<Rightarrow> string \<Rightarrow> git_worktree \<Rightarrow> pyval list \<Rightarrow> namespace \<Rightarrow> (meta \<times> pyval list) result" where
  "next_record task revision timestamp w history args =
     (let action = arg_str args ''change_drift_action''; scope = list_of (dget args ''scope_path'');
          started = (history \<noteq> [] \<and> kind_of (last history) \<in> set [''baseline'', ''rescope'']) in
      if action = ''baseline'' then
        bindE (if history = [] then Inr None else completion_error history) (\<lambda>error.
        bindE (raise_if (error \<noteq> None) (RuntimeError ''change-drift baseline requires completion of the active cycle'')) (\<lambda>_.
        bindE (drift_baseline task revision timestamp w scope) (\<lambda>r. Inr (r, []))))
      else if action = ''delta'' then
        (case latest_of ''baseline'' history of
           Some base \<Rightarrow>
             if started
             then bindE (drift_delta task revision timestamp w base (active_scope history base) (record_identity (last history))) (\<lambda>r. Inr (r, history))
             else Inl (RuntimeError ''change-drift delta requires a baseline'')
         | None \<Rightarrow> Inl (RuntimeError ''change-drift delta requires a baseline''))
      else if action = ''explain'' then
        (case latest_of ''delta'' history of
           Some current \<Rightarrow>
             bindE (drift_explain task revision timestamp (record_identity current) (list_of (dget args ''path'')) (arg_str args ''reason'')
               (truthy (dget_or args ''generated'' (PBool False))) (record_identity (last history))) (\<lambda>r. Inr (r, history))
         | None \<Rightarrow> Inl (RuntimeError ''change-drift explanation requires a delta''))
      else if action = ''rescope'' then
        (case latest_of ''baseline'' history of
           Some base \<Rightarrow>
             if started
             then bindE (drift_rescope task revision timestamp (record_identity base) scope (record_identity (last history))) (\<lambda>r. Inr (r, history))
             else Inl (RuntimeError ''change-drift re-scope requires a baseline'')
         | None \<Rightarrow> Inl (RuntimeError ''change-drift re-scope requires a baseline''))
      else Inl (ValueError ''unknown change-drift action''))"

text \<open>\<open>worktrees\<close> opens a direct child directory of the projects root without following links.\<close>

definition bound_worktree :: "(string \<Rightarrow> git_worktree option) \<Rightarrow> meta \<Rightarrow> string \<Rightarrow> git_worktree result" where
  "bound_worktree worktrees meta product_worktree =
     (let key = dget meta ''worktree_key'' in
      if \<not> valid_worktree_key key \<or> str_of key = product_worktree then Inl (RuntimeError ''change-drift requires a bound worktree'')
      else case worktrees (str_of key) of
        None \<Rightarrow> Inl (RuntimeError ''change-drift bound worktree must be a direct directory'')
      | Some w \<Rightarrow> Inr w)"

definition apply_drift :: "(string \<Rightarrow> git_worktree option) \<Rightarrow> string \<Rightarrow> string \<Rightarrow> namespace \<Rightarrow> meta \<Rightarrow> (meta \<times> string) result" where
  "apply_drift worktrees product_worktree timestamp args meta =
     bindE (raise_if (\<not> py_eq (dget meta ''owner'') (dget args ''owner'') \<or> dget meta ''status'' \<noteq> PStr ''in_progress'')
              (RuntimeError ''change-drift requires the active task owner'')) (\<lambda>_.
     bindE (ditem meta ''task_revision'') (\<lambda>current.
     bindE (raise_if (\<not> py_eq (dget args ''expected_revision'') current)
              (RuntimeError (''stale revision: expected '' @ py_str (dget args ''expected_revision'') @ '', current '' @ py_str current))) (\<lambda>_.
     bindE (drift_records meta) (\<lambda>history.
     bindE (py_int current) (\<lambda>revision.
     bindE (bound_worktree worktrees meta product_worktree) (\<lambda>w.
     bindE (next_record (arg_str args ''task'') (revision + 1) timestamp w history args) (\<lambda>(record, kept).
     bindE (raise_if (MAX_DRIFT \<le> length kept) (RuntimeError ''change-drift active cycle reached its bounded record limit'')) (\<lambda>_.
     Inr (dset meta ''change_drift'' (PList (kept @ [PDict record])),
          ''Recorded change-drift '' @ arg_str args ''change_drift_action'' @ '' '' @ record_identity (PDict record) @ ''.'')))))))))"

section \<open>Records that the command builds\<close>

definition good_entry :: "bool \<Rightarrow> meta \<Rightarrow> bool" where
  "good_entry classified e =
     (keys_exact e (ENTRY_FIELDS @ (if classified then [''classification'', ''material''] else [])) \<and>
      safe_path (dget e ''path'') \<and> is_str (dget e ''previous_path'') \<and>
      (str_of (dget e ''previous_path'') = [] \<or> safe_path (dget e ''previous_path'')) \<and>
      is_str (dget e ''status'') \<and> length (str_of (dget e ''status'')) = 2 \<and> is_bool (dget e ''generated'') \<and>
      is_str (dget e ''content_digest'') \<and> (str_of (dget e ''content_digest'') = [] \<or> is_object_id (str_of (dget e ''content_digest''))) \<and>
      (classified \<longrightarrow> is_bool (dget e ''material'') \<and> is_str (dget e ''classification'') \<and>
         str_of (dget e ''classification'') \<in> set CLASSIFICATIONS))"

lemma bad_entry_False: "bad_entry classified v = Inr False \<longleftrightarrow> is_dict v \<and> good_entry classified (dict_of v)"
proof -
  have t: "is_str x \<Longrightarrow> truthy x \<longleftrightarrow> str_of x \<noteq> []" for x by (cases x) simp_all
  have h: "hash_not_in x ws = Inr False \<longleftrightarrow> is_str x \<and> str_of x \<in> set ws" for x ws
    by (auto simp: hash_not_in_False is_str_iff)
  show ?thesis
    unfolding bad_entry_def good_entry_def Let_def
    by (cases "is_str (dget (dict_of v) ''previous_path'')"; cases classified) (auto simp: orE_Inr_False h t)
qed

lemma classify_ok: "bad_entry False e = Inr False \<Longrightarrow> bad_entry True (classify scope e) = Inr False"
  by (simp add: bad_entry_False good_entry_def classify_def keys_exact_iff set_dkeys_dset CLASSIFICATIONS_def) blast

text \<open>A well-formed entry whose content, of a committed path too, is that of the file in the worktree.\<close>

abbreviation worktree_content :: "git_worktree \<Rightarrow> pyval \<Rightarrow> bool" where
  "worktree_content w e \<equiv> content_digest w (fst (entry_key e)) = Inr (str_of (dget (dict_of e) ''content_digest''))"

definition fresh_entry :: "git_worktree \<Rightarrow> pyval \<Rightarrow> bool" where
  "fresh_entry w e \<longleftrightarrow> bad_entry False e = Inr False \<and> worktree_content w e"

lemma drift_entry_ok:
  assumes "drift_entry w u path previous status = Inr e" "length status = 2"
  shows "fresh_entry w (PDict e)"
proof -
  have "content_digest w path = Inr c \<Longrightarrow> c = [] \<or> is_object_id c" for c
    by (auto simp: content_digest_def split: if_splits option.splits)
  then show ?thesis
    using assms unfolding fresh_entry_def bad_entry_False good_entry_def
    by (auto simp: entry_key_def drift_entry_def bindE_Inr raise_if_Inr keys_exact_def dkeys_def ENTRY_FIELDS_def)
qed

lemma ascii_strict_Inr: "ascii_strict s = Inr t \<Longrightarrow> t = s"
  by (simp add: ascii_strict_def split: if_splits)

text \<open>One turn of each loop.\<close>

lemma status_loop_Cons:
  assumes "status_loop w (field # rest) = Inr es"
  obtains e es' rest' where "es = PDict e # es'" "fresh_entry w (PDict e)" "status_loop w rest' = Inr es'" "length rest' \<le> length rest"
proof -
  have f: "length (take 2 field) = 2" "ascii_strict (take 2 field) = Inr (take 2 field)"
    using assms by (auto simp: bindE_Inr raise_if_Inr dest: ascii_strict_Inr)
  show thesis
  proof (cases "is_rename (take 1 (take 2 field)) \<or> is_rename (take 1 (drop 1 (take 2 field)))")
    case True
    then show thesis
      using assms f that drift_entry_ok [OF _ f(1)] by (cases rest) (auto simp: bindE_Inr raise_if_Inr Let_def)
  next
    case False
    then show thesis
      using assms f that [OF _ _ _ order_refl] drift_entry_ok [OF _ f(1)] by (auto simp: bindE_Inr raise_if_Inr Let_def)
  qed
qed

lemma status_loop_ok: "status_loop w fs = Inr es \<Longrightarrow> e \<in> set es \<Longrightarrow> fresh_entry w e"
proof (induction "length fs" arbitrary: fs es rule: less_induct)
  case less
  show ?case
  proof (cases fs)
    case (Cons f rest)
    obtain x es' rest' where "es = PDict x # es'" "fresh_entry w (PDict x)" "status_loop w rest' = Inr es'" "length rest' \<le> length rest"
      using less.prems(1) unfolding Cons by (rule status_loop_Cons)
    then show ?thesis using less.hyps [of rest' es'] less.prems(2) Cons by auto
  qed (use less.prems in simp)
qed

lemma head_loop_Cons:
  assumes "head_loop w trailing (field # rest) = Inr es"
  obtains "es = []" | e es' rest' where "es = PDict e # es'" "fresh_entry w (PDict e)" "head_loop w trailing rest' = Inr es'"
    "length rest' \<le> length rest"
proof (cases "field = []")
  case False
  have l: "length (take 1 field @ '' '') = 2" using False by (cases field) simp_all
  have f: "ascii_strict field = Inr field" using assms False by (auto simp: bindE_Inr dest: ascii_strict_Inr)
  obtain first rest' where r: "rest = first # rest'" using assms False f by (cases rest) auto
  show thesis
  proof (cases "is_rename (take 1 field)")
    case True
    show thesis
    proof (cases rest')
      case Nil
      obtain e where "head_entry w field (decode_path w first) trailing = Inr e" "es = [PDict e]"
        using assms False f r True Nil by (auto simp: bindE_Inr)
      then show thesis using that(2) [of e "[]" "[]"] drift_entry_ok [OF _ l] by (simp add: head_entry_def)
    next
      case (Cons second rest'')
      obtain e es' where "head_entry w field (decode_path w first) second = Inr e" "head_loop w trailing rest'' = Inr es'" "es = PDict e # es'"
        using assms False f r True Cons by (auto simp: bindE_Inr)
      then show thesis using that(2) [of e es' rest''] drift_entry_ok [OF _ l] r Cons by (simp add: head_entry_def)
    qed
  next
    case False': False
    obtain e es' where "head_entry w field [] first = Inr e" "head_loop w trailing rest' = Inr es'" "es = PDict e # es'"
      using assms False f r False' by (auto simp: bindE_Inr)
    then show thesis using that(2) [of e es' rest'] drift_entry_ok [OF _ l] r by (simp add: head_entry_def)
  qed
qed (use assms that in simp)

lemma head_loop_ok: "head_loop w trailing fs = Inr es \<Longrightarrow> e \<in> set es \<Longrightarrow> fresh_entry w e"
proof (induction "length fs" arbitrary: fs es rule: less_induct)
  case less
  show ?case
  proof (cases fs)
    case (Cons f rest)
    from less.prems(1) [unfolded Cons] show ?thesis
    proof (cases rule: head_loop_Cons)
      case (2 x es' rest')
      then show ?thesis using less.hyps [of rest' es'] less.prems(2) Cons by auto
    qed (use less.prems in simp)
  qed (use less.prems in simp)
qed

lemma set_sort_entries [simp]: "set (sort_entries es) = set es"
  by (simp add: sort_entries_def)

lemma sort_entries_idem [simp]: "sort_entries (sort_entries es) = sort_entries es"
  by (simp add: sort_entries_def sorted_sort_id sort_key_id_if_sorted)

lemma observe_ok:
  "observe w = Inr (head, es) \<Longrightarrow> sort_entries es = es \<and> (\<forall>e \<in> set es. bad_entry False e = Inr False)"
  by (auto simp: observe_def status_entries_def fresh_entry_def bindE_Inr split: option.splits dest: status_loop_ok)

lemma head_entries_ok: "head_entries w a b = Inr es \<Longrightarrow> e \<in> set es \<Longrightarrow> bad_entry False e = Inr False"
  by (auto simp: head_entries_def fresh_entry_def bindE_Inr split: option.splits if_splits dest: head_loop_ok)

lemma observed_content:
  "observe w = Inr (head, es) \<Longrightarrow> e \<in> set es \<Longrightarrow> worktree_content w e"
  "head_entries w a b = Inr es \<Longrightarrow> e \<in> set es \<Longrightarrow> worktree_content w e"
  by (auto simp: observe_def status_entries_def head_entries_def fresh_entry_def bindE_Inr split: option.splits if_splits
      dest: status_loop_ok head_loop_ok)

text \<open>The changes that a delta records.\<close>

lemma entry_key_classify [simp]: "entry_key (classify scope e) = entry_key e"
  by (simp add: classify_def entry_key_def)

lemma classify_fields:
  "dget (dict_of (classify scope e)) ''material'' = PBool True"
  "dget (dict_of (classify scope e)) ''classification'' = PStr ''in_scope'' \<longleftrightarrow> list_all (\<lambda>p. inside p scope) (entry_paths (classify scope e))"
  by (simp_all add: classify_def entry_paths_def entry_key_def)

lemma committed_changes_set:
  "set (committed_changes scope base changed es) \<supseteq> set changed \<and>
   set (committed_changes scope base changed es) \<subseteq>
     set changed \<union> classify scope ` {e \<in> set es. baseline_content base e \<noteq> dget (dict_of e) ''content_digest''} \<and>
   (\<forall>e \<in> set es. baseline_content base e = dget (dict_of e) ''content_digest'' \<or>
      (\<exists>x \<in> set (committed_changes scope base changed es). entry_key x = entry_key e))"
proof (induction scope base changed es rule: committed_changes.induct)
  case (2 scope base changed e es)
  show ?case
  proof (cases "baseline_content base e = dget (dict_of e) ''content_digest'' \<or> entry_key e \<in> entry_key ` set changed")
    case True
    then show ?thesis using "2.IH"(1) [OF True] by fastforce
  next
    case False
    then have "classify scope e \<in> set (committed_changes scope base (changed @ [classify scope e]) es)"
      using "2.IH"(2) [OF False] by simp
    then show ?thesis using "2.IH"(2) [OF False] False by (auto intro: bexI [of _ "classify scope e"])
  qed
qed simp

lemma drift_delta_Inr:
  assumes "drift_delta task revision at w base scope previous = Inr d"
  obtains head es committed changed where "observe w = Inr (head, es)"
    "head_entries w (py_str (dget (payload_of base) ''head'')) head = Inr committed"
    "changed = committed_changes scope (entries_of base) (worktree_changes scope (entries_of base) es) committed"
    "drift_record ''delta'' task revision at
       [(''baseline_digest'', dget (dict_of base) ''digest''), (''head'', PStr head), (''entries'', PList (sort_entries changed))] previous = Inr d"
    "\<forall>e \<in> set changed. bad_entry True e = Inr False"
proof -
  obtain head es committed where h: "observe w = Inr (head, es)"
    "head_entries w (py_str (dget (payload_of base) ''head'')) head = Inr committed"
    "drift_record ''delta'' task revision at [(''baseline_digest'', dget (dict_of base) ''digest''), (''head'', PStr head),
       (''entries'', PList (sort_entries (committed_changes scope (entries_of base) (worktree_changes scope (entries_of base) es) committed)))] previous = Inr d"
    using assms by (auto simp: drift_delta_def bindE_Inr Let_def)
  have "\<forall>e \<in> set (committed_changes scope (entries_of base) (worktree_changes scope (entries_of base) es) committed). bad_entry True e = Inr False"
    using committed_changes_set [of "worktree_changes scope (entries_of base) es" scope "entries_of base" committed]
      observe_ok [OF h(1)] head_entries_ok [OF h(2)] classify_ok
    by (auto simp: worktree_changes_def dest!: subsetD)
  with h show thesis by (intro that [OF h(1,2) refl]) auto
qed

lemma drift_record_Inr:
  assumes "drift_record kind task revision at payload previous = Inr d"
  shows "kind \<in> set DRIFT_KINDS" "is_task_id task" "1 \<le> revision" "at \<noteq> []" "previous = [] \<or> is_digest previous"
    "payload_of (PDict d) = payload" "kind_of (PDict d) = kind" "record_link (PDict d) = previous" "record_stamp (PDict d) = revision"
    "dget d ''task'' = PStr task" "validate_drift (PDict d) = drift_payload kind payload"
    "record_identity (PDict d) = digest (PDict (drift_identity kind task revision payload previous))"
proof -
  let ?i = "drift_identity kind task revision payload previous"
  show r: "kind \<in> set DRIFT_KINDS" "is_task_id task" "1 \<le> revision" "at \<noteq> []" "previous = [] \<or> is_digest previous"
    using assms by (auto simp: drift_record_def Let_def bindE_Inr raise_if_Inr)
  have d: "d = ?i @ [(''recorded_at'', PStr at), (''digest'', PStr (digest (PDict ?i)))]"
    using assms by (auto simp: drift_record_def Let_def bindE_Inr raise_if_Inr)
  have f: "dget d ''schema_version'' = PInt 2" "dget d ''kind'' = PStr kind" "dget d ''task'' = PStr task" "dget d ''task_revision'' = PInt revision"
      "dget d ''recorded_at'' = PStr at" "dget d ''payload'' = PDict payload" "dget d ''previous_digest'' = PStr previous"
      "dget d ''digest'' = PStr (digest (PDict ?i))" "dget_or d ''task'' w = PStr task" "keys_exact d DRIFT_FIELDS" for w
    by (simp_all add: d drift_identity_def keys_exact_def dkeys_def DRIFT_FIELDS_def)
  then show "payload_of (PDict d) = payload" "kind_of (PDict d) = kind" "record_link (PDict d) = previous" "record_stamp (PDict d) = revision"
    "dget d ''task'' = PStr task" "record_identity (PDict d) = digest (PDict ?i)"
    by (simp_all add: payload_of_def kind_of_def record_link_def record_stamp_def record_identity_def)
  have "drift_identity_of d = ?i" using f by (simp add: drift_identity_of_def drift_identity_def)
  then show "validate_drift (PDict d) = drift_payload kind payload"
    using f r by (auto simp: validate_drift_def bad_drift_identity_def payload_of_def not_less)
qed

section \<open>What the history check accepts\<close>

definition drift_ok :: "pyval \<Rightarrow> pyval \<Rightarrow> drift_state \<Rightarrow> bool" where
  "drift_ok task_id r s = (succeeds (validate_drift r) \<and> py_eq (dget (dict_of r) ''task'') task_id \<and> succeeds (drift_follows r s))"

interpretation drift: linked_history "drift_step task_id" "drift_ok task_id" record_link record_identity record_stamp drift_advance for task_id
proof
  fix r p n s st
  show "drift_step task_id r (p, n, s) = Inr st \<longleftrightarrow>
      drift_ok task_id r s \<and> record_link r = p \<and> n < record_stamp r \<and> st = (record_identity r, record_stamp r, drift_advance r s)"
    by (auto simp: drift_step_def drift_ok_def bindE_Inr raise_if_Inr succeeds_iff)
qed

lemma drift_records_Inr:
  "drift_records meta = Inr rs \<longleftrightarrow> dget_or meta ''change_drift'' (PList []) = PList rs \<and> length rs \<le> MAX_DRIFT \<and>
    (\<exists>st. fold_result (drift_step (dget meta ''id'')) rs ([], 0, [], PNone, PNone) = Inr st)"
  unfolding drift_records_def Let_def
  by (cases "dget_or meta ''change_drift'' (PList [])") (auto simp: bindE_Inr raise_if_Inr not_less)

lemma drift_records_I:
  "dget_or meta ''change_drift'' (PList []) = PList rs \<Longrightarrow> length rs \<le> MAX_DRIFT \<Longrightarrow>
    fold_result (drift_step (dget meta ''id'')) rs ([], 0, [], PNone, PNone) = Inr st \<Longrightarrow> drift_records meta = Inr rs"
  unfolding drift_records_Inr by blast

lemma task_repr: "is_task_id (py_str v) \<Longrightarrow> is_str v"
proof (cases v)
  case (PInt i)
  have "hd (show_nat n) \<noteq> CHR ''A''" for n
    using show_nat_digits [of n] by (cases "show_nat n") (auto simp: is_digit_def digits_def)
  then have "hd (show_int i) \<noteq> CHR ''A''" by (simp add: show_int_def)
  moreover assume "is_task_id (py_str v)"
  then have "hd (show_int i) = CHR ''A''"
    unfolding PInt is_task_id_def starts_with_def py_str_def by (cases "show_int i") auto
  ultimately show ?thesis by simp
next
  case (PBool b)
  then show "is_task_id (py_str v) \<Longrightarrow> ?thesis"
    by (cases b) (simp_all add: py_str_def is_task_id_def starts_with_def)
qed (simp_all add: py_str_def is_task_id_def starts_with_def)

lemma validate_drift_Inr:
  assumes "validate_drift r = Inr ()"
  shows "is_dict r" "is_str (dget (dict_of r) ''task'')" "kind_of r \<in> set DRIFT_KINDS" "is_str (dget (dict_of r) ''kind'')"
    "is_digest (record_identity r)" "dget (dict_of r) ''digest'' = PStr (record_identity r)" "drift_payload (kind_of r) (payload_of r) = Inr ()"
proof -
  have v: "is_dict r" "keys_exact (dict_of r) DRIFT_FIELDS" "bad_drift_identity (dict_of r) = Inr False"
    "drift_payload (py_str (dget (dict_of r) ''kind'')) (payload_of r) = Inr ()"
    using assms by (auto simp: validate_drift_def Let_def bindE_Inr raise_if_Inr)
  then have i: "hash_not_in (dget (dict_of r) ''kind'') DRIFT_KINDS = Inr False"
    "is_task_id (py_str (dget_or (dict_of r) ''task'' (PStr [])))"
    "dget (dict_of r) ''digest'' = PStr (digest (PDict (drift_identity_of (dict_of r))))"
    by (auto simp: bad_drift_identity_def Let_def orE_Inr_False)
  have "dget_or (dict_of r) ''task'' (PStr []) = dget (dict_of r) ''task''"
    using v(2) by (auto simp: keys_exact_dhas [of _ DRIFT_FIELDS] DRIFT_FIELDS_def dget_or_def dget_def dhas_def
        dest!: keys_exact_dhas [THEN iffD2, of _ _ "''task''"])
  then show "is_str (dget (dict_of r) ''task'')" using i(2) task_repr by simp
  show "is_dict r" by (rule v(1))
  show "kind_of r \<in> set DRIFT_KINDS" "is_str (dget (dict_of r) ''kind'')" "drift_payload (kind_of r) (payload_of r) = Inr ()"
    using i(1) v(4) by (auto simp: hash_not_in_False kind_of_def)
  show "is_digest (record_identity r)" "dget (dict_of r) ''digest'' = PStr (record_identity r)"
    using i(3) by (simp_all add: record_identity_def)
qed

text \<open>What the state of the scan says about the records scanned so far.\<close>

definition scan_inv :: "pyval list \<Rightarrow> drift_state \<Rightarrow> bool" where
  "scan_inv rs s = (case s of (before, base, delta) \<Rightarrow>
     before = rs \<and> base = (case latest_of ''baseline'' rs of None \<Rightarrow> PNone | Some b \<Rightarrow> b) \<and>
     (delta \<noteq> PNone \<longrightarrow> latest_of ''delta'' rs = Some delta) \<and>
     (rs \<noteq> [] \<and> kind_of (last rs) \<in> {''baseline'', ''rescope''} \<longrightarrow> delta = PNone) \<and>
     (rs \<noteq> [] \<and> kind_of (last rs) \<in> {''delta'', ''explain''} \<longrightarrow> delta \<noteq> PNone))"

lemma latest_of_snoc [simp]: "latest_of k (rs @ [r]) = (if kind_of r = k then Some r else latest_of k rs)"
  by (simp add: latest_of_def)

lemma scan_inv_step:
  assumes "scan_inv rs s" "validate_drift r = Inr ()" "drift_follows r s = Inr ()"
  shows "scan_inv (rs @ [r]) (drift_advance r s)"
proof -
  obtain before base delta where s: "s = (before, base, delta)" by (cases s)
  have n: "r \<noteq> PNone" using validate_drift_Inr(1) [OF assms(2)] by auto
  have "kind_of r = ''baseline'' \<or> kind_of r = ''delta'' \<or> kind_of r = ''explain'' \<or> kind_of r = ''rescope''"
    using validate_drift_Inr(3) [OF assms(2)] by (auto simp: DRIFT_KINDS_def)
  then show ?thesis
    using assms(1,3) n
    by (elim disjE) (auto simp: s scan_inv_def drift_advance_def drift_follows_def bindE_Inr raise_if_Inr)
qed

lemma drift_scan:
  assumes "fold_result (drift_step task_id) rs ([], 0, [], PNone, PNone) = Inr st"
  shows "\<exists>s. st = (if rs = [] then [] else record_identity (last rs), if rs = [] then 0 else record_stamp (last rs), s) \<and> scan_inv rs s \<and>
    (\<forall>r \<in> set rs. validate_drift r = Inr () \<and> py_eq (dget (dict_of r) ''task'') task_id)"
  using assms
proof (induction rs arbitrary: st rule: rev_induct)
  case (snoc r rs)
  obtain st1 where st1: "fold_result (drift_step task_id) rs ([], 0, [], PNone, PNone) = Inr st1" "drift_step task_id r st1 = Inr st"
    using drift.scan_prefix [OF snoc.prems] by (auto simp: bindE_Inr)
  from snoc.IH [OF st1(1)] obtain p n s where IH: "st1 = (p, n, s)" "scan_inv rs s"
    "\<forall>r \<in> set rs. validate_drift r = Inr () \<and> py_eq (dget (dict_of r) ''task'') task_id" by blast
  have "drift_ok task_id r s" "st = (record_identity r, record_stamp r, drift_advance r s)"
    using st1(2) drift.step_Inr unfolding IH(1) by blast+
  then show ?case
    using IH(2,3) scan_inv_step [of rs s r] by (auto simp: drift_ok_def succeeds_iff)
qed (simp add: scan_inv_def latest_of_def)

lemma records_recheck:
  assumes "drift_records meta = Inr rs" "rs \<noteq> []"
  shows "drift_records [(''id'', dget (dict_of (hd rs)) ''task''), (''change_drift'', PList rs)] = Inr rs"
proof -
  obtain st where st: "fold_result (drift_step (dget meta ''id'')) rs ([], 0, [], PNone, PNone) = Inr st" "length rs \<le> MAX_DRIFT"
    using assms(1) by (auto simp: drift_records_Inr)
  have "validate_drift (hd rs) = Inr ()" and eq: "py_eq (dget (dict_of (hd rs)) ''task'') (dget meta ''id'')"
    using drift_scan [OF st(1)] hd_in_set [OF assms(2)] by auto
  from validate_drift_Inr(2) [OF this(1)] eq have "dget meta ''id'' = dget (dict_of (hd rs)) ''task''"
    by (auto simp: is_str_iff)
  then show ?thesis using st by (cases st rule: prod_cases5) (auto simp: drift_records_Inr)
qed

lemma delta_entry_paths:
  assumes "validate_drift d = Inr ()" "kind_of d = ''delta''" "e \<in> set (entries_of d)"
  shows "is_str (dget (dict_of e) ''path'')"
proof -
  have "validate_observation (payload_of d) False True = Inr ()"
    using validate_drift_Inr(7) [OF assms(1)] assms(2) by (auto simp: drift_payload_def bindE_Inr)
  then have "bad_entry True e = Inr False"
    using assms(3) by (auto simp: validate_observation_def Let_def bindE_Inr raise_if_Inr for_each_Inr entries_of_def)
  then show ?thesis by (simp add: bad_entry_False good_entry_def safe_path_def)
qed

text \<open>A path of a delta is explained when an explanation of exactly that delta names it.\<close>

definition explained :: "pyval list \<Rightarrow> pyval \<Rightarrow> pyval \<Rightarrow> bool" where
  "explained rs d path = list_ex (\<lambda>r. kind_of r = ''explain'' \<and> dget (payload_of r) ''delta_digest'' = PStr (record_identity d) \<and>
     path \<in> set (list_of (dget (payload_of r) ''paths''))) rs"

lemma unresolved_Nil:
  assumes "\<forall>r \<in> set rs. validate_drift r = Inr ()" "latest_of ''delta'' rs = Some d"
  shows "unresolved rs = [] \<longleftrightarrow>
    (\<forall>e \<in> set (entries_of d). truthy (dget (dict_of e) ''material'') \<longrightarrow> explained rs d (dget (dict_of e) ''path''))"
proof -
  have d: "d \<in> set rs" "kind_of d = ''delta''" using find_Some_mem [OF assms(2) [unfolded latest_of_def]] by simp_all
  note v = validate_drift_Inr [OF bspec [OF assms(1) d(1)]]
  have "py_in (dget (dict_of e) ''path'') (explained_paths rs d) \<longleftrightarrow> explained rs d (dget (dict_of e) ''path'')" if "e \<in> set (entries_of d)" for e
    using delta_entry_paths [OF bspec [OF assms(1) d(1)] d(2) that] v(6)
    by (auto simp: is_str_iff py_in_PStr explained_paths_def explained_def list_ex_iff)
  then show ?thesis using assms(2) by (auto simp: unresolved_def filter_empty_conv)
qed

text \<open>Property C31. The drift check admits a task to done exactly when its history is valid and either empty or
  ends with the delta or an explanation of it, and every material entry of the delta is named by
  an explanation of that delta.\<close>

theorem drift_done_exact:
  "drift_done_error meta = Inr None \<longleftrightarrow>
    (\<exists>rs. drift_records meta = Inr rs \<and> (rs = [] \<or> kind_of (last rs) \<in> {''delta'', ''explain''} \<and>
      (\<exists>d. latest_of ''delta'' rs = Some d \<and>
        (\<forall>e \<in> set (entries_of d). truthy (dget (dict_of e) ''material'') \<longrightarrow> explained rs d (dget (dict_of e) ''path'')))))"
proof (cases "drift_records meta")
  case (Inl e)
  then show ?thesis by (simp add: drift_done_error_def)
next
  case (Inr rs)
  obtain st where st: "fold_result (drift_step (dget meta ''id'')) rs ([], 0, [], PNone, PNone) = Inr st"
    using Inr by (auto simp: drift_records_Inr)
  obtain s where s: "scan_inv rs s" "\<forall>r \<in> set rs. validate_drift r = Inr ()" using drift_scan [OF st] by blast
  have "drift_done_error meta = Inr None \<longleftrightarrow> rs = [] \<or> kind_of (last rs) \<in> {''delta'', ''explain''} \<and> unresolved rs = []"
    using records_recheck [OF Inr]
    by (cases "rs = []") (auto simp: drift_done_error_def Inr completion_error_def unresolved_def latest_of_def)
  moreover have "\<exists>d. latest_of ''delta'' rs = Some d" if "rs \<noteq> []" "kind_of (last rs) \<in> {''delta'', ''explain''}"
    using s(1) that by (auto simp: scan_inv_def split: prod.splits)
  ultimately show ?thesis using Inr unresolved_Nil [OF s(2)] by auto
qed

text \<open>
  Property C32. What a delta records: every entry of the new observation of the worktree that differs from the baseline's
  entry of the same paths; every path committed since the baseline's head whose file in the worktree has not the content that
  the baseline recorded for the path; and nothing else. All contents, of committed paths too, are those of the files in the
  worktree at the time of the delta. Each recorded entry is material and classified by the active scope.
\<close>

theorem delta_exact:
  assumes "drift_delta task revision at w base scope previous = Inr d" "observe w = Inr (head, es)"
    and "head_entries w (py_str (dget (payload_of base) ''head'')) head = Inr committed"
  shows "(\<forall>e \<in> set es. py_eq (before_entry (entries_of base) e) e \<or> classify scope e \<in> set (entries_of (PDict d))) \<and>
    (\<forall>e \<in> set committed. baseline_content (entries_of base) e = dget (dict_of e) ''content_digest'' \<or>
      (\<exists>x \<in> set (entries_of (PDict d)). entry_key x = entry_key e)) \<and>
    (\<forall>x \<in> set (entries_of (PDict d)).
      (\<exists>e \<in> set es. x = classify scope e \<and> \<not> py_eq (before_entry (entries_of base) e) e) \<or>
      (\<exists>e \<in> set committed. x = classify scope e \<and> baseline_content (entries_of base) e \<noteq> dget (dict_of e) ''content_digest'')) \<and>
    (\<forall>e \<in> set es \<union> set committed. content_digest w (fst (entry_key e)) = Inr (str_of (dget (dict_of e) ''content_digest''))) \<and>
    (\<forall>x \<in> set (entries_of (PDict d)). dget (dict_of x) ''material'' = PBool True \<and>
      (dget (dict_of x) ''classification'' = PStr ''in_scope'' \<longleftrightarrow> list_all (\<lambda>p. inside p scope) (entry_paths x)))"
proof -
  obtain changed where c: "changed = committed_changes scope (entries_of base) (worktree_changes scope (entries_of base) es) committed"
    "drift_record ''delta'' task revision at
       [(''baseline_digest'', dget (dict_of base) ''digest''), (''head'', PStr head), (''entries'', PList (sort_entries changed))] previous = Inr d"
    using assms by (elim drift_delta_Inr) auto
  have e: "set (entries_of (PDict d)) = set changed"
    by (simp add: entries_of_def drift_record_Inr(6) [OF c(2)])
  note cs = committed_changes_set [of "worktree_changes scope (entries_of base) es" scope "entries_of base" committed, folded c(1)]
  have only: "(\<exists>e \<in> set es. x = classify scope e \<and> \<not> py_eq (before_entry (entries_of base) e) e) \<or>
      (\<exists>e \<in> set committed. x = classify scope e \<and> baseline_content (entries_of base) e \<noteq> dget (dict_of e) ''content_digest'')"
    if "x \<in> set changed" for x
    using that cs by (auto simp: worktree_changes_def dest!: subsetD)
  have "dget (dict_of x) ''material'' = PBool True \<and>
      (dget (dict_of x) ''classification'' = PStr ''in_scope'' \<longleftrightarrow> list_all (\<lambda>p. inside p scope) (entry_paths x))" if "x \<in> set changed" for x
    using only [OF that] classify_fields [of scope] by blast
  moreover have "classify scope e \<in> set changed" if "e \<in> set es" "\<not> py_eq (before_entry (entries_of base) e) e" for e
    using that cs by (auto simp: worktree_changes_def)
  moreover have "worktree_content w e" if "e \<in> set es \<union> set committed" for e
    using that observed_content(1) [OF assms(2)] observed_content(2) [OF assms(3)] by blast
  ultimately show ?thesis using cs only unfolding e by blast
qed

text \<open>
  Two consequences. A path that the baseline found changed and that is clean again is in no delta; and a commit of a path
  whose file was put back to the content that the baseline found is in no delta, whatever was committed.
\<close>

lemma unrecorded_changes:
  assumes "drift_delta task revision at w base scope previous = Inr d" "observe w = Inr (head, [])"
    and "head_entries w (py_str (dget (payload_of base) ''head'')) head = Inr committed"
    and "\<forall>e \<in> set committed. baseline_content (entries_of base) e = dget (dict_of e) ''content_digest''"
  shows "entries_of (PDict d) = []"
proof -
  obtain changed where c: "changed = committed_changes scope (entries_of base) [] committed" "drift_record ''delta'' task revision at
       [(''baseline_digest'', dget (dict_of base) ''digest''), (''head'', PStr head), (''entries'', PList (sort_entries changed))] previous = Inr d"
    using assms(1-3) by (elim drift_delta_Inr) (auto simp: worktree_changes_def)
  have "set changed \<subseteq> classify scope ` {e \<in> set committed. baseline_content (entries_of base) e \<noteq> dget (dict_of e) ''content_digest''}"
    using committed_changes_set [of "[]" scope "entries_of base" committed] by (simp add: c(1))
  moreover have "{e \<in> set committed. baseline_content (entries_of base) e \<noteq> dget (dict_of e) ''content_digest''} = {}" using assms(4) by blast
  ultimately have "changed = []" by simp
  then show ?thesis using c(2) by (simp add: entries_of_def drift_record_Inr(6) sort_entries_def)
qed

section \<open>The command keeps the history valid\<close>

lemma normalize_canonical: "normalize_scope xs = Inr ys \<Longrightarrow> canonical_scope (PList ys)"
proof -
  assume n: "normalize_scope xs = Inr ys"
  then have ys: "ys = map PStr (sorted_set (map str_of xs))" "length (sorted_set (map str_of xs)) = length xs"
      "xs \<noteq> []" "length xs \<le> 64" "list_all safe_path xs"
    by (auto simp: normalize_scope_def Let_def bindE_Inr raise_if_Inr)
  have "safe_path (PStr (str_of x))" if "x \<in> set xs" for x
    using ys(5) that by (auto simp: list_all_iff safe_path_def is_str_iff)
  then have "list_all safe_path ys" by (auto simp: ys(1) list_all_iff)
  moreover have "sorted_set (map str_of ys) = sorted_set (map str_of xs)"
    by (simp add: ys(1) comp_def sorted_set_def distinct_remdups_id sorted_sort_id)
  ultimately show ?thesis
    using ys(2-4) by (auto simp: canonical_scope_def normalize_scope_def Let_def bindE_Inr raise_if_Inr ys(1) comp_def)
qed

lemma observation_ok:
  assumes "sort_entries es = es" "\<forall>e \<in> set es. bad_entry classified e = Inr False" "length es \<le> 4096"
    and "keys_exact payload [''head'', ''entries'', if with_scope then ''scope'' else ''baseline_digest'']"
    and "dget payload ''head'' = PStr head" "dget payload ''entries'' = PList es" "with_scope \<Longrightarrow> canonical_scope (dget payload ''scope'')"
  shows "validate_observation payload with_scope classified = Inr ()"
  using assms by (auto simp: validate_observation_def Let_def bindE_Inr raise_if_Inr for_each_Inr)

lemma explanation_ok:
  assumes "is_digest d" "paths \<noteq> []" "length paths \<le> 64" "list_all safe_path paths"
    and "strip reason \<noteq> []" "length reason \<le> 1000" "newline \<notin> set reason"
  shows "drift_payload ''explain'' [(''delta_digest'', PStr d), (''paths'', PList (map PStr (sorted_set (map str_of paths)))), (''reason'', PStr reason),
    (''generated'', PBool g)] = Inr ()"
proof -
  have "safe_path (PStr (str_of x))" if "x \<in> set paths" for x
    using assms(4) that by (auto simp: list_all_iff safe_path_def is_str_iff)
  moreover have "length (sorted_set (map str_of paths)) \<le> length paths"
    using length_remdups_leq [of "map str_of paths"] by (simp add: sorted_set_def)
  ultimately show ?thesis
    using assms by (auto simp: drift_payload_def bad_explanation_def raise_if_Inr keys_exact_def dkeys_def list_all_iff py_distinct_PStr)
qed

text \<open>The conditions under which the next record is accepted: an explanation follows the delta it names and
  names only its paths, and an observation has at most 4096 entries.\<close>

definition drift_request_ok :: "pyval list \<Rightarrow> namespace \<Rightarrow> meta \<Rightarrow> bool" where
  "drift_request_ok history args d =
     (length (entries_of (PDict d)) \<le> 4096 \<and>
      (arg_str args ''change_drift_action'' = ''explain'' \<longrightarrow>
         kind_of (last history) \<in> {''delta'', ''explain''} \<and>
         (case latest_of ''delta'' history of None \<Rightarrow> False
          | Some current \<Rightarrow> list_all (\<lambda>p. p \<in> set (map (\<lambda>e. dget (dict_of e) ''path'') (entries_of current))) (list_of (dget args ''path'')))))"

definition accepted_next :: "pyval list \<Rightarrow> drift_state \<Rightarrow> namespace \<Rightarrow> string \<Rightarrow> int \<Rightarrow> meta \<Rightarrow> pyval list \<Rightarrow> bool" where
  "accepted_next history s args task revision d kept =
     (validate_drift (PDict d) = Inr () \<and> dget d ''task'' = PStr task \<and> record_stamp (PDict d) = revision \<and>
      kind_of (PDict d) = arg_str args ''change_drift_action'' \<and>
      (kept = [] \<and> arg_str args ''change_drift_action'' = ''baseline'' \<and> record_link (PDict d) = [] \<and> drift_follows (PDict d) ([], PNone, PNone) = Inr () \<or>
       kept = history \<and> history \<noteq> [] \<and> record_link (PDict d) = record_identity (last history) \<and> drift_follows (PDict d) s = Inr ()))"

lemma latest_valid:
  assumes "latest_of k history = Some r" "\<forall>r \<in> set history. validate_drift r = Inr ()"
  shows "validate_drift r = Inr ()"
  using find_Some_mem [OF assms(1) [unfolded latest_of_def]] assms(2) by simp

lemma next_baseline_valid:
  assumes "next_record task revision at w history args = Inr (d, kept)" "drift_request_ok history args d"
    and "\<forall>r \<in> set history. validate_drift r = Inr ()" "scan_inv history s" and X: "arg_str args ''change_drift_action'' = ''baseline''"
  shows "accepted_next history s args task revision d kept"
proof -
  obtain head es scope normalized where b: "kept = []" "observe w = Inr (head, es)" "normalize_scope scope = Inr normalized"
    "drift_record ''baseline'' task revision at [(''head'', PStr head), (''entries'', PList es), (''scope'', PList normalized)] [] = Inr d"
    using assms(1) X by (auto simp: next_record_def drift_baseline_def bindE_Inr Let_def)
  note r = drift_record_Inr [OF b(4)]
  have "drift_payload ''baseline'' [(''head'', PStr head), (''entries'', PList es), (''scope'', PList normalized)] = Inr ()"
    using observe_ok [OF b(2)] normalize_canonical [OF b(3)] assms(2)
    by (auto simp: drift_payload_def keys_exact_def dkeys_def drift_request_ok_def entries_of_def r(6) intro!: observation_ok)
  then show ?thesis using r b(1) X by (simp add: accepted_next_def drift_follows_def)
qed

lemma next_delta_valid:
  assumes "next_record task revision at w history args = Inr (d, kept)" "drift_request_ok history args d"
    and "\<forall>r \<in> set history. validate_drift r = Inr ()" "scan_inv history s" and X: "arg_str args ''change_drift_action'' = ''delta''"
  shows "accepted_next history s args task revision d kept"
proof -
  obtain before base delta where s: "s = (before, base, delta)" by (cases s)
  obtain b scope where b: "latest_of ''baseline'' history = Some b" "kept = history" "history \<noteq> []"
      "kind_of (last history) \<in> {''baseline'', ''rescope''}" "drift_delta task revision at w b scope (record_identity (last history)) = Inr d"
    using assms(1) X by (auto simp: next_record_def bindE_Inr Let_def split: option.splits if_splits)
  note vb = validate_drift_Inr [OF latest_valid [OF b(1) assms(3)]]
  obtain head changed where c: "drift_record ''delta'' task revision at
     [(''baseline_digest'', dget (dict_of b) ''digest''), (''head'', PStr head), (''entries'', PList (sort_entries changed))]
       (record_identity (last history)) = Inr d" "\<forall>e \<in> set changed. bad_entry True e = Inr False"
    using b(5) by (elim drift_delta_Inr) auto
  note r = drift_record_Inr [OF c(1)]
  have "drift_payload ''delta'' [(''baseline_digest'', dget (dict_of b) ''digest''), (''head'', PStr head), (''entries'', PList (sort_entries changed))] = Inr ()"
  proof -
    have "validate_observation [(''baseline_digest'', dget (dict_of b) ''digest''), (''head'', PStr head), (''entries'', PList (sort_entries changed))]
        False True = Inr ()"
      using c(2) assms(2)
      by (intro observation_ok [of "sort_entries changed"])
        (auto simp: keys_exact_def dkeys_def drift_request_ok_def entries_of_def r(6))
    then show ?thesis
      using vb(5,6) by (simp add: drift_payload_def keys_exact_def dkeys_def)
  qed
  moreover have "drift_follows (PDict d) s = Inr ()"
    using assms(4) b(1,3,4) vb(1,6) by (auto simp: s scan_inv_def drift_follows_def raise_if_Inr r(6,7))
  ultimately show ?thesis using r b(2,3) X by (simp add: accepted_next_def)
qed

lemma next_explain_valid:
  assumes "next_record task revision at w history args = Inr (d, kept)" "drift_request_ok history args d"
    and "\<forall>r \<in> set history. validate_drift r = Inr ()" "scan_inv history s" and X: "arg_str args ''change_drift_action'' = ''explain''"
  shows "accepted_next history s args task revision d kept"
proof -
  obtain before base delta where s: "s = (before, base, delta)" by (cases s)
  obtain current reason g where b: "latest_of ''delta'' history = Some current" "kept = history"
      "drift_explain task revision at (record_identity current) (list_of (dget args ''path'')) reason g (record_identity (last history)) = Inr d"
    using assms(1) X by (auto simp: next_record_def bindE_Inr Let_def split: option.splits if_splits)
  have n: "history \<noteq> []" using b(1) by (auto simp: latest_of_def)
  note vb = validate_drift_Inr [OF latest_valid [OF b(1) assms(3)]]
  let ?paths = "list_of (dget args ''path'')"
  have p: "is_digest (record_identity current)" "?paths \<noteq> []" "length ?paths \<le> 64" "list_all safe_path ?paths" "strip reason \<noteq> []"
      "length reason \<le> 1000" "newline \<notin> set reason" "drift_record ''explain'' task revision at
     [(''delta_digest'', PStr (record_identity current)), (''paths'', PList (map PStr (sorted_set (map str_of ?paths)))), (''reason'', PStr reason),
      (''generated'', PBool g)] (record_identity (last history)) = Inr d"
    using b(3) by (auto simp: drift_explain_def bindE_Inr raise_if_Inr)
  note r = drift_record_Inr [OF p(8)]
  have q: "kind_of (last history) \<in> {''delta'', ''explain''}"
      "list_all (\<lambda>p. p \<in> set (map (\<lambda>e. dget (dict_of e) ''path'') (entries_of current))) ?paths"
    using assms(2) X b(1) by (auto simp: drift_request_ok_def)
  have "PStr (str_of x) = x" if "x \<in> set ?paths" for x using p(4) that by (auto simp: list_all_iff safe_path_def is_str_iff)
  then have "list_all (\<lambda>p. py_in p (map (\<lambda>e. dget (dict_of e) ''path'') (entries_of current))) (map PStr (sorted_set (map str_of ?paths)))"
    using q(2) by (simp add: list_all_iff py_in_PStr)
  moreover have "delta = current" "delta \<noteq> PNone"
    using assms(4) q(1) n b(1) by (auto simp: s scan_inv_def)
  ultimately have "drift_follows (PDict d) s = Inr ()"
    using vb(6) by (auto simp: s drift_follows_def bindE_Inr raise_if_Inr r(6,7))
  then show ?thesis using r explanation_ok [OF p(1-7), of g] b(2) n X by (simp add: accepted_next_def)
qed

lemma next_rescope_valid:
  assumes "next_record task revision at w history args = Inr (d, kept)" "drift_request_ok history args d"
    and "\<forall>r \<in> set history. validate_drift r = Inr ()" "scan_inv history s" and X: "arg_str args ''change_drift_action'' = ''rescope''"
  shows "accepted_next history s args task revision d kept"
proof -
  obtain before base delta where s: "s = (before, base, delta)" by (cases s)
  obtain b scope where b: "latest_of ''baseline'' history = Some b" "kept = history" "history \<noteq> []"
      "kind_of (last history) \<in> {''baseline'', ''rescope''}" "drift_rescope task revision at (record_identity b) scope (record_identity (last history)) = Inr d"
    using assms(1) X by (auto simp: next_record_def bindE_Inr Let_def split: option.splits if_splits)
  note vb = validate_drift_Inr [OF latest_valid [OF b(1) assms(3)]]
  obtain normalized where c: "normalize_scope scope = Inr normalized" "drift_record ''rescope'' task revision at
     [(''baseline_digest'', PStr (record_identity b)), (''scope'', PList normalized)] (record_identity (last history)) = Inr d"
    using b(5) by (auto simp: drift_rescope_def bindE_Inr raise_if_Inr)
  note r = drift_record_Inr [OF c(2)]
  have "drift_payload ''rescope'' [(''baseline_digest'', PStr (record_identity b)), (''scope'', PList normalized)] = Inr ()"
    using vb(5) normalize_canonical [OF c(1)] by (simp add: drift_payload_def raise_if_Inr keys_exact_def dkeys_def)
  moreover have "drift_follows (PDict d) s = Inr ()"
    using assms(4) b(1,3,4) vb(1,6) by (auto simp: s scan_inv_def drift_follows_def raise_if_Inr r(6,7))
  ultimately show ?thesis using r b(2,3) X by (simp add: accepted_next_def)
qed

lemma next_record_valid:
  assumes "next_record task revision at w history args = Inr (d, kept)" "drift_request_ok history args d"
    and "\<forall>r \<in> set history. validate_drift r = Inr ()" "scan_inv history s"
  shows "accepted_next history s args task revision d kept"
proof -
  have "arg_str args ''change_drift_action'' \<in> {''baseline'', ''delta'', ''explain'', ''rescope''}"
    using assms(1) by (auto simp: next_record_def Let_def split: if_splits)
  then show ?thesis
    using next_baseline_valid [OF assms] next_delta_valid [OF assms] next_explain_valid [OF assms] next_rescope_valid [OF assms] by blast
qed

text \<open>A successful change-drift command whose explanation (if it is one) follows the delta and names its
  paths leaves a valid history: a baseline starts a new one, every other record is appended to the
  old one, at the next revision; no other field changes.\<close>

theorem drift_history_maintained:
  assumes "apply_drift worktrees product timestamp args meta = Inr (meta', msg)"
    and "dget meta ''id'' = PStr (arg_str args ''task'')" "dget meta ''task_revision'' = PInt n" "0 \<le> n"
    and "\<forall>r \<in> set (list_of (dget meta ''change_drift'')). record_stamp r \<le> n"
    and "drift_request_ok (list_of (dget meta ''change_drift'')) args (dict_of (last (list_of (dget meta' ''change_drift''))))"
  shows "\<exists>history kept d. drift_records meta = Inr history \<and> drift_records meta' = Inr (kept @ [PDict d]) \<and>
    kept = (if kind_of (PDict d) = ''baseline'' then [] else history) \<and> kind_of (PDict d) = arg_str args ''change_drift_action'' \<and>
    record_stamp (PDict d) = n + 1 \<and> (\<forall>k. k \<noteq> ''change_drift'' \<longrightarrow> dget meta' k = dget meta k)"
proof -
  obtain history w d kept where h: "drift_records meta = Inr history" "next_record (arg_str args ''task'') (n + 1) timestamp w history args = Inr (d, kept)"
      "length kept < MAX_DRIFT" "meta' = dset meta ''change_drift'' (PList (kept @ [PDict d]))"
    using assms(1,3) by (auto simp: apply_drift_def bindE_Inr raise_if_Inr ditem_eq split: prod.splits if_splits)
  obtain st where st: "fold_result (drift_step (dget meta ''id'')) history ([], 0, [], PNone, PNone) = Inr st"
      "dget_or meta ''change_drift'' (PList []) = PList history"
    using h(1) by (auto simp: drift_records_Inr)
  have hist: "list_of (dget meta ''change_drift'') = history"
    using st(2) by (auto simp: dget_def dget_or_def list_of_def split: option.splits)
  obtain s where s: "st = (if history = [] then [] else record_identity (last history), if history = [] then 0 else record_stamp (last history), s)"
      "scan_inv history s" "\<forall>r \<in> set history. validate_drift r = Inr () \<and> py_eq (dget (dict_of r) ''task'') (dget meta ''id'')"
    using drift_scan [OF st(1)] by blast
  have ok: "drift_request_ok history args d" using assms(6) by (simp add: h(4) hist)
  note acc = next_record_valid [OF h(2) ok _ s(2)]
  have acc: "accepted_next history s args (arg_str args ''task'') (n + 1) d kept" using acc s(3) by blast
  note a = acc [unfolded accepted_next_def]
  have "drift_records meta' = Inr (kept @ [PDict d])"
  proof (cases "kind_of (PDict d) = ''baseline'' \<and> kept = [] \<and> record_link (PDict d) = [] \<and> drift_follows (PDict d) ([], PNone, PNone) = Inr ()")
    case True
    then have f: "fold_result (drift_step (dget meta ''id'')) ([] @ [PDict d]) ([], 0, [], PNone, PNone) =
        Inr (record_identity (PDict d), record_stamp (PDict d), drift_advance (PDict d) ([], PNone, PNone))"
      using a assms(2,4) by (intro drift.scan_push) (auto simp: drift_ok_def)
    show ?thesis using True h(3) f by (intro drift_records_I) (simp_all add: h(4))
  next
    case False
    then have k: "kept = history" "history \<noteq> []" "record_link (PDict d) = record_identity (last history)" "drift_follows (PDict d) s = Inr ()"
      using a by auto
    have "record_stamp (last history) \<le> n" using assms(5) last_in_set [OF k(2)] by (auto simp: hist)
    then have f: "fold_result (drift_step (dget meta ''id'')) (history @ [PDict d]) ([], 0, [], PNone, PNone) =
        Inr (record_identity (PDict d), record_stamp (PDict d), drift_advance (PDict d) s)"
      using a assms(2) k st(1) [unfolded s(1)] by (intro drift.scan_push) (auto simp: drift_ok_def)
    show ?thesis using k(1) h(3) f by (intro drift_records_I) (simp_all add: h(4))
  qed
  moreover have "kept = (if kind_of (PDict d) = ''baseline'' then [] else history)"
    using a h(2) by (auto simp: next_record_def Let_def bindE_Inr split: if_splits)
  ultimately show ?thesis using h(1) a by (auto simp: h(4))
qed

section \<open>Examples\<close>

text \<open>A worktree with one modified file and a clean one.\<close>

definition example_worktree :: git_worktree where
  "example_worktree = \<lparr>git_rev = Some (replicate 40 CHR ''a''), git_status = Some ('' M src/a.py'' @ [CHR 0x00]), git_diff = (\<lambda>_ _. Some []),
     git_hash = (\<lambda>_. Some (replicate 40 CHR ''b'')), path_present = (\<lambda>_. True), decode_path = (\<lambda>s. s)\<rparr>"

definition clean_worktree :: git_worktree where
  "clean_worktree = example_worktree\<lparr>git_status := Some []\<rparr>"

definition example_entry :: meta where
  "example_entry = [(''path'', PStr ''src/a.py''), (''previous_path'', PStr []), (''status'', PStr '' M''), (''generated'', PBool False),
     (''content_digest'', PStr (replicate 40 CHR ''b''))]"

lemma example_observations:
  "observe example_worktree = Inr (replicate 40 CHR ''a'', [PDict example_entry])" "observe clean_worktree = Inr (replicate 40 CHR ''a'', [])"
  by code_simp+

definition example_base :: pyval where
  "example_base = PDict [(''payload'', PDict [(''head'', PStr (replicate 40 CHR ''a'')), (''entries'', PList [])]), (''digest'', PStr (digest PNone))]"

lemma example_delta:
  "\<exists>d. drift_delta ''AR-0001'' 5 ''now'' example_worktree example_base [''docs''] (digest PNone) = Inr d"
proof -
  have "is_task_id ''AR-0001''" by code_simp
  then show ?thesis
    using example_observations(1)
    by (simp add: drift_delta_def drift_record_def DRIFT_KINDS_def head_entries_def example_base_def payload_of_def Let_def)
qed

theorem delta_exact_witness:
  "\<exists>d. drift_delta ''AR-0001'' 5 ''now'' example_worktree example_base [''docs''] (digest PNone) = Inr d \<and>
    classify [''docs''] (PDict example_entry) \<in> set (entries_of (PDict d)) \<and>
    dget (dict_of (classify [''docs''] (PDict example_entry))) ''classification'' = PStr ''out_of_scope''"
proof -
  obtain d where d: "drift_delta ''AR-0001'' 5 ''now'' example_worktree example_base [''docs''] (digest PNone) = Inr d"
    using example_delta by blast
  have h: "head_entries example_worktree (py_str (dget (payload_of example_base) ''head'')) (replicate 40 CHR ''a'') = Inr []"
    by (simp add: head_entries_def example_base_def payload_of_def)
  have "before_entry (entries_of example_base) (PDict example_entry) = PNone"
    by (simp add: before_entry_def example_base_def entries_of_def payload_of_def)
  moreover have "dget (dict_of (classify [''docs''] (PDict example_entry))) ''classification'' = PStr ''out_of_scope''" by code_simp
  ultimately show ?thesis
    using delta_exact [OF d example_observations(1) h] d by auto
qed

definition example_drifting :: meta where
  "example_drifting = [(''id'', PStr ''AR-0001''), (''owner'', PStr ''alice''), (''status'', PStr ''in_progress''), (''task_revision'', PInt 4),
     (''worktree_key'', PStr ''wt-1'')]"

definition example_baseline :: namespace where
  "example_baseline = [(''task'', PStr ''AR-0001''), (''owner'', PStr ''alice''), (''expected_revision'', PInt 4),
     (''change_drift_action'', PStr ''baseline''), (''scope_path'', PList [PStr ''src''])]"

lemma example_checks: "is_task_id ''AR-0001''" "normalize_scope [PStr ''src''] = Inr [PStr ''src'']" "valid_worktree_key (PStr ''wt-1'')"
  by code_simp+

lemma example_next_baseline:
  assumes "0 < n"
  shows "\<exists>b. next_record ''AR-0001'' n ''now'' clean_worktree [] example_baseline = Inr (b, []) \<and> entries_of (PDict b) = [] \<and>
    dget (payload_of (PDict b)) ''head'' = PStr (replicate 40 CHR ''a'')"
proof -
  let ?p = "[(''head'', PStr (replicate 40 CHR ''a'')), (''entries'', PList []), (''scope'', PList [PStr ''src''])]"
  obtain b where b: "drift_record ''baseline'' ''AR-0001'' n ''now'' ?p [] = Inr b"
    using example_checks(1) assms by (simp add: drift_record_def DRIFT_KINDS_def Let_def)
  have "next_record ''AR-0001'' n ''now'' clean_worktree [] example_baseline = Inr (b, [])"
    using example_observations(2) example_checks(2) b
    by (simp add: next_record_def drift_baseline_def example_baseline_def arg_str_def)
  then show ?thesis using drift_record_Inr(6) [OF b] by (auto simp: entries_of_def)
qed

lemma example_next_delta:
  assumes "kind_of b = ''baseline''" "entries_of b = []" "dget (payload_of b) ''head'' = PStr (replicate 40 CHR ''a'')" "is_digest (record_identity b)"
  shows "\<exists>d. next_record ''AR-0001'' 2 ''now'' clean_worktree [b] [(''change_drift_action'', PStr ''delta'')] = Inr (d, [b]) \<and> entries_of (PDict d) = []"
proof -
  let ?p = "[(''baseline_digest'', dget (dict_of b) ''digest''), (''head'', PStr (replicate 40 CHR ''a'')), (''entries'', PList [])]"
  obtain d where d: "drift_record ''delta'' ''AR-0001'' 2 ''now'' ?p (record_identity b) = Inr d"
    using example_checks(1) assms(4) by (auto simp: drift_record_def DRIFT_KINDS_def Let_def)
  have "next_record ''AR-0001'' 2 ''now'' clean_worktree [b] [(''change_drift_action'', PStr ''delta'')] = Inr (d, [b])"
    using assms(1-3) example_observations(2) d
    by (simp add: next_record_def arg_str_def latest_of_def drift_delta_def head_entries_def worktree_changes_def sort_entries_def Let_def)
  then show ?thesis using drift_record_Inr(6) [OF d] by (auto simp: entries_of_def)
qed

text \<open>A complete cycle with no change.\<close>

lemma example_cycle:
  "\<exists>b d. drift_records [(''id'', PStr ''AR-0001''), (''change_drift'', PList [PDict b, PDict d])] = Inr [PDict b, PDict d] \<and>
    kind_of (PDict d) = ''delta'' \<and> entries_of (PDict d) = []"
proof -
  let ?s0 = "([], PNone, PNone) :: drift_state" and ?delta = "[(''change_drift_action'', PStr ''delta'')] :: namespace"
  obtain b where b: "next_record ''AR-0001'' 1 ''now'' clean_worktree [] example_baseline = Inr (b, [])" "entries_of (PDict b) = []"
      "dget (payload_of (PDict b)) ''head'' = PStr (replicate 40 CHR ''a'')"
    using example_next_baseline [of 1] by auto
  have act: "arg_str example_baseline ''change_drift_action'' = ''baseline''" "arg_str ?delta ''change_drift_action'' = ''delta''"
    by (simp_all add: example_baseline_def arg_str_def)
  have "drift_request_ok [] example_baseline b" using b(2) act by (simp add: drift_request_ok_def)
  moreover have i0: "scan_inv [] ?s0" by (simp add: scan_inv_def latest_of_def)
  ultimately have "accepted_next [] ?s0 example_baseline ''AR-0001'' 1 b []" using next_record_valid [OF b(1)] by simp
  then have vb: "validate_drift (PDict b) = Inr ()" "dget b ''task'' = PStr ''AR-0001''" "record_stamp (PDict b) = 1" "kind_of (PDict b) = ''baseline''"
      "record_link (PDict b) = []" "drift_follows (PDict b) ?s0 = Inr ()"
    using act by (auto simp: accepted_next_def)
  let ?s1 = "drift_advance (PDict b) ?s0"
  have f1: "fold_result (drift_step (PStr ''AR-0001'')) ([] @ [PDict b]) ([], 0, ?s0) = Inr (record_identity (PDict b), record_stamp (PDict b), ?s1)"
    using vb by (intro drift.scan_push) (auto simp: drift_ok_def)
  obtain d where d: "next_record ''AR-0001'' 2 ''now'' clean_worktree [PDict b] ?delta = Inr (d, [PDict b])" "entries_of (PDict d) = []"
    using example_next_delta [OF vb(4) b(2,3) validate_drift_Inr(5) [OF vb(1)]] by auto
  have "drift_request_ok [PDict b] ?delta d" using d(2) act by (simp add: drift_request_ok_def)
  moreover have "scan_inv [PDict b] ?s1" using scan_inv_step [OF i0 vb(1,6)] by simp
  ultimately have "accepted_next [PDict b] ?s1 ?delta ''AR-0001'' 2 d [PDict b]" using next_record_valid [OF d(1)] vb(1) by simp
  then have vd: "validate_drift (PDict d) = Inr ()" "dget d ''task'' = PStr ''AR-0001''" "record_stamp (PDict d) = 2" "kind_of (PDict d) = ''delta''"
      "record_link (PDict d) = record_identity (PDict b)" "drift_follows (PDict d) ?s1 = Inr ()"
    using act by (auto simp: accepted_next_def)
  have "fold_result (drift_step (PStr ''AR-0001'')) ([PDict b] @ [PDict d]) ([], 0, ?s0) =
      Inr (record_identity (PDict d), record_stamp (PDict d), drift_advance (PDict d) ?s1)"
    using f1 vd vb(3) by (intro drift.scan_push) (auto simp: drift_ok_def)
  then have "drift_records [(''id'', PStr ''AR-0001''), (''change_drift'', PList [PDict b, PDict d])] = Inr [PDict b, PDict d]"
    by (intro drift_records_I) (simp_all add: MAX_DRIFT_def)
  then show ?thesis using vd(4) d(2) by blast
qed

theorem drift_done_exact_witness:
  "\<exists>b d. drift_done_error [(''id'', PStr ''AR-0001''), (''change_drift'', PList [PDict b, PDict d])] = Inr None \<and> kind_of (PDict d) = ''delta''"
proof -
  obtain b d where c: "drift_records [(''id'', PStr ''AR-0001''), (''change_drift'', PList [PDict b, PDict d])] = Inr [PDict b, PDict d]"
    "kind_of (PDict d) = ''delta''" "entries_of (PDict d) = []" using example_cycle by blast
  have "latest_of ''delta'' [PDict b, PDict d] = Some (PDict d)" using c(2) by (simp add: latest_of_def)
  then have "drift_done_error [(''id'', PStr ''AR-0001''), (''change_drift'', PList [PDict b, PDict d])] = Inr None"
    unfolding drift_done_exact using c by auto
  then show ?thesis using c(2) by blast
qed

theorem drift_history_maintained_witness:
  "\<exists>meta' msg d. apply_drift (\<lambda>_. Some clean_worktree) ''product'' ''now'' example_baseline example_drifting = Inr (meta', msg) \<and>
    drift_records meta' = Inr [PDict d] \<and> kind_of (PDict d) = ''baseline'' \<and> record_stamp (PDict d) = 5"
proof -
  obtain b where b: "next_record ''AR-0001'' 5 ''now'' clean_worktree [] example_baseline = Inr (b, [])" "entries_of (PDict b) = []"
    using example_next_baseline [of 5] by auto
  have m: "dget example_drifting ''id'' = PStr (arg_str example_baseline ''task'')" "dget example_drifting ''task_revision'' = PInt 4"
      "dget example_drifting ''change_drift'' = PNone" "dget_or example_drifting ''change_drift'' (PList []) = PList []"
      "ditem example_drifting ''task_revision'' = Inr (PInt 4)" "arg_str example_baseline ''task'' = ''AR-0001''"
      "arg_str example_baseline ''change_drift_action'' = ''baseline''" "dget example_drifting ''worktree_key'' = PStr ''wt-1''"
    by (simp_all add: example_drifting_def example_baseline_def arg_str_def)
  have r: "drift_records example_drifting = Inr []" using m(4) by (simp add: drift_records_def)
  obtain meta' msg where a: "apply_drift (\<lambda>_. Some clean_worktree) ''product'' ''now'' example_baseline example_drifting = Inr (meta', msg)"
      "meta' = dset example_drifting ''change_drift'' (PList [PDict b])"
    using b(1) m r example_checks(3)
    by (simp add: apply_drift_def bound_worktree_def MAX_DRIFT_def) (simp add: example_drifting_def example_baseline_def)
  have q: "drift_request_ok (list_of (dget example_drifting ''change_drift'')) example_baseline (dict_of (last (list_of (dget meta' ''change_drift''))))"
    using b(2) m(7) by (simp add: drift_request_ok_def a(2))
  show ?thesis
    using drift_history_maintained [OF a(1) m(1,2) _ _ q] a(1) m(3,7) by (auto simp: list_of_def)
qed

end
