(* ===== verification/Oracle_Gates.thy ===== *)
theory Oracle_Gates
  imports Py_Time Py_Digest
begin

text \<open>
  Interaction gates of \<open>src/tools/oracle_lifecycle.py\<close>: the events that open, resolve and reopen the
  stages of a task's gate, the validation of the gate record, and the admission of autonomous
  operations while a gate is unresolved. The frozen dataclasses of the source are records; their
  \<open>__post_init__\<close> checks are part of the constructor functions.
\<close>

section \<open>Constants\<close>

definition GATE_SEQUENCE :: "string list" where
  "GATE_SEQUENCE = [''intake'', ''discussion'', ''formal_spec_review'', ''reconciliation'']"

definition STAGE_GATE_SEQUENCE :: "string list" where
  "STAGE_GATE_SEQUENCE = [''role'', ''spec'', ''decision'']"

definition DISPOSITIONS :: "string list" where
  "DISPOSITIONS = [''accepted'', ''rejected'', ''clarify'', ''user-added-option'', ''contradiction'', ''unresolved'']"

definition ACTIONS :: "string list" where "ACTIONS = [''open'', ''resolve'', ''reopen'']"

definition MAX_DISCUSSION_ROUNDS :: int where "MAX_DISCUSSION_ROUNDS = 16"

definition SESSION_ACTIVATIONS :: "string list" where
  "SESSION_ACTIVATIONS = [''user-decision'', ''user-detail-request'', ''user-proposal-review'',
     ''agent-uncertainty'', ''policy-required-approval'']"

definition SESSION_STATUSES :: "string list" where
  "SESSION_STATUSES = [''presenting'', ''clarification_requested'', ''resolved'']"

text \<open>\<open><tag>[A-Z0-9-]{1,127}\<close>.\<close>

definition is_tagged_ref :: "string \<Rightarrow> string \<Rightarrow> bool" where
  "is_tagged_ref tag s =
     (starts_with s tag \<and>
      (let r = drop (length tag) s in
       1 \<le> length r \<and> length r \<le> 127 \<and> list_all (\<lambda>c. is_upper c \<or> is_digit c \<or> c = CHR ''-'') r))"

definition public_ref_ok :: "string \<Rightarrow> bool" where
  "public_ref_ok s =
     (is_reference ''._/-'' 0 127 s \<and> \<not> starts_with s ''/'' \<and> \<not> contains s ''..'' \<and> \<not> contains s ''//'')"

definition gate_public_ref :: "string \<Rightarrow> string \<Rightarrow> unit result" where
  "gate_public_ref s label = raise_if (\<not> public_ref_ok s) (GateError (label @ '' must be a public-safe reference''))"

definition gate_digest :: "string \<Rightarrow> string \<Rightarrow> unit result" where
  "gate_digest s label = raise_if (\<not> is_digest s) (GateError (label @ '' must be a sha256 digest''))"

definition gate_timestamp :: "pyval \<Rightarrow> string \<Rightarrow> unit result" where
  "gate_timestamp v label =
     (if \<not> is_str v then Inl (GateError (label @ '' is invalid''))
      else case from_iso_z (str_of v) of
        Inl _ \<Rightarrow> Inl (GateError (label @ '' is invalid''))
      | Inr (Naive _) \<Rightarrow> Inl (GateError (label @ '' requires a timezone''))
      | Inr (Aware _ _) \<Rightarrow> Inr ())"

section \<open>Human sessions\<close>

definition SESSION_KEYS :: "string list" where
  "SESSION_KEYS = [''schema_version'', ''session_id'', ''request_ref'', ''activation'', ''status'',
     ''task_revision'', ''tui_contract_version'', ''opened_at'']"

definition session_timestamps :: "meta \<Rightarrow> unit result" where
  "session_timestamps d =
     bindE (gate_timestamp (dget d ''opened_at'') ''oracle_gate.human_session.opened_at'') (\<lambda>_.
     if dhas d ''closed_at'' then gate_timestamp (dget d ''closed_at'') ''oracle_gate.human_session.closed_at'' else Inr ())"

definition human_session_errors :: "pyval \<Rightarrow> string list" where
  "human_session_errors v =
     (let d = dict_of v in
      if v = PNone then []
      else if \<not> is_dict v then [''oracle_gate.human_session must be an object'']
      else if \<not> keys_include d SESSION_KEYS \<or> \<not> keys_within d (''closed_at'' # SESSION_KEYS)
        then [''oracle_gate.human_session fields are incomplete or unknown'']
      else if dget d ''schema_version'' \<noteq> PStr ''1.0'' \<or> dget d ''tui_contract_version'' \<noteq> PStr ''1.0''
        then [''oracle_gate.human_session contract version is unsupported'']
      else if \<not> is_str (dget d ''session_id'') \<or> \<not> is_tagged_ref ''AWTUI-'' (str_of (dget d ''session_id''))
        then [''oracle_gate.human_session.session_id is invalid'']
      else if \<not> is_str (dget d ''request_ref'') \<or> \<not> is_tagged_ref ''AWG-'' (str_of (dget d ''request_ref''))
        then [''oracle_gate.human_session.request_ref is invalid'']
      else if \<not> is_str (dget d ''activation'') \<or> \<not> is_str (dget d ''status'')
        \<or> str_of (dget d ''activation'') \<notin> set SESSION_ACTIVATIONS
        \<or> str_of (dget d ''status'') \<notin> set SESSION_STATUSES
        then [''oracle_gate.human_session activation or status is invalid'']
      else if is_bool (dget d ''task_revision'') \<or> \<not> is_int (dget d ''task_revision'') \<or> int_of (dget d ''task_revision'') < 1
        then [''oracle_gate.human_session.task_revision is invalid'']
      else case session_timestamps d of
        Inl e \<Rightarrow> [exc_message e]
      | Inr _ \<Rightarrow>
          if dget d ''status'' = PStr ''presenting'' \<and> dhas d ''closed_at''
          then [''oracle_gate.human_session.presenting session cannot be closed'']
          else if dget d ''status'' \<noteq> PStr ''presenting'' \<and> \<not> dhas d ''closed_at''
          then [''oracle_gate.human_session closed session lacks closed_at'']
          else [])"

section \<open>Events\<close>

record artifact_ref =
  ar_ref :: string
  ar_digest :: string

record interaction_event =
  ev_task_id :: string
  ev_task_revision :: int
  ev_stage :: string
  ev_action :: string
  ev_disposition :: string
  ev_before :: "artifact_ref list"
  ev_after :: "artifact_ref list"
  ev_public_ref :: string
  ev_recorded_at :: string

definition artifact :: "string \<Rightarrow> string \<Rightarrow> artifact_ref result" where
  "artifact ref dig =
     bindE (gate_public_ref ref ''artifact ref'') (\<lambda>_.
     bindE (gate_digest dig ''artifact digest'') (\<lambda>_.
     Inr \<lparr>ar_ref = ref, ar_digest = dig\<rparr>))"

definition artifact_record :: "artifact_ref \<Rightarrow> pyval" where
  "artifact_record a = PDict [(''ref'', PStr (ar_ref a)), (''digest'', PStr (ar_digest a))]"

text \<open>\<open>InteractionEvent.__post_init__\<close>.\<close>

definition check_event :: "interaction_event \<Rightarrow> unit result" where
  "check_event e =
     bindE (raise_if (\<not> is_task_id (ev_task_id e)) (GateError ''event task_id is invalid'')) (\<lambda>_.
     bindE (raise_if (ev_task_revision e < 1) (GateError ''event task_revision must be positive'')) (\<lambda>_.
     bindE (raise_if (ev_action e \<notin> set ACTIONS) (GateError ''unknown interaction event action'')) (\<lambda>_.
     bindE (raise_if (ev_disposition e \<notin> set DISPOSITIONS) (GateError ''unknown interaction disposition'')) (\<lambda>_.
     bindE (raise_if (ev_before e = [] \<or> ev_after e = [])
              (GateError ''interaction event requires before and after artifacts'')) (\<lambda>_.
     bindE (gate_public_ref (ev_public_ref e) ''event public_ref'') (\<lambda>_.
     gate_timestamp (PStr (ev_recorded_at e)) ''event recorded_at''))))))"

definition EVENT_KEYS :: "string list" where
  "EVENT_KEYS = [''task_id'', ''task_revision'', ''stage'', ''action'', ''disposition'', ''before'', ''after'',
     ''public_ref'', ''recorded_at'']"

text \<open>The local function \<open>refs\<close> of \<open>from_record\<close>: a missing key or an item that is not a dictionary
  is a \<open>GateError\<close> of its own, an invalid reference or digest that of \<open>ArtifactRef\<close>.\<close>

definition read_artifact :: "string \<Rightarrow> pyval \<Rightarrow> artifact_ref result" where
  "read_artifact name item =
     (let invalid = GateError (''event '' @ name @ '' contains an invalid artifact'') in
      case subscript item ''ref'' of
        Inl _ \<Rightarrow> Inl invalid
      | Inr ref \<Rightarrow> (case subscript item ''digest'' of
          Inl _ \<Rightarrow> Inl invalid
        | Inr dig \<Rightarrow> artifact (py_str ref) (py_str dig)))"

definition read_artifacts :: "meta \<Rightarrow> string \<Rightarrow> artifact_ref list result" where
  "read_artifacts d name =
     (let raw = dget d name in
      if \<not> is_list raw then Inl (GateError (''event '' @ name @ '' must be a list''))
      else map_result (read_artifact name) (list_of raw))"

text \<open>\<open>InteractionEvent.from_record\<close>; on a value that is not a mapping the reader fails on \<open>set\<close> or
  on the field names, which every caller treats alike.\<close>

definition event_from_record :: "pyval \<Rightarrow> interaction_event result" where
  "event_from_record v =
     (let d = dict_of v in
      if \<not> is_dict v then Inl (TypeError ''interaction event is not a mapping'')
      else if \<not> keys_exact d EVENT_KEYS then Inl (GateError ''interaction event fields are incomplete or unknown'')
      else if is_bool (dget d ''task_revision'') \<or> \<not> is_int (dget d ''task_revision'')
        then Inl (GateError ''interaction event task_revision is invalid'')
      else if py_str (dget d ''stage'') \<notin> set (GATE_SEQUENCE @ STAGE_GATE_SEQUENCE)
        then Inl (GateError ''unknown interaction gate stage'')
      else
        bindE (read_artifacts d ''before'') (\<lambda>before.
        bindE (read_artifacts d ''after'') (\<lambda>after.
        let e = \<lparr>ev_task_id = py_str (dget d ''task_id''),
                 ev_task_revision = int_of (dget d ''task_revision''),
                 ev_stage = py_str (dget d ''stage''),
                 ev_action = py_str (dget d ''action''),
                 ev_disposition = py_str (dget d ''disposition''),
                 ev_before = before,
                 ev_after = after,
                 ev_public_ref = py_str (dget d ''public_ref''),
                 ev_recorded_at = py_str (dget d ''recorded_at'')\<rparr>
        in bindE (check_event e) (\<lambda>_. Inr e))))"

definition event_record :: "interaction_event \<Rightarrow> pyval" where
  "event_record e = PDict [
     (''task_id'', PStr (ev_task_id e)),
     (''task_revision'', PInt (ev_task_revision e)),
     (''stage'', PStr (ev_stage e)),
     (''action'', PStr (ev_action e)),
     (''disposition'', PStr (ev_disposition e)),
     (''before'', PList (map artifact_record (ev_before e))),
     (''after'', PList (map artifact_record (ev_after e))),
     (''public_ref'', PStr (ev_public_ref e)),
     (''recorded_at'', PStr (ev_recorded_at e))]"

section \<open>The gate record\<close>

definition GATE_KEYS :: "string list" where
  "GATE_KEYS = [''required'', ''open_stage'', ''completed'', ''events'']"

definition GATE_OPTIONAL :: "string list" where
  "GATE_OPTIONAL = [''stage_sequence'', ''human_session'', ''authorized'', ''discussion_rounds'', ''reconciliation_required'']"

text \<open>\<open>len(xs) != len(set(xs))\<close> hashes every element.\<close>

definition has_duplicates :: "pyval list \<Rightarrow> bool result" where
  "has_duplicates xs =
     (if list_ex (\<lambda>x. is_list x \<or> is_dict x) xs then Inl (TypeError ''unhashable type'')
      else Inr (\<not> py_distinct xs))"

definition stage_sequence_bad :: "pyval \<Rightarrow> bool result" where
  "stage_sequence_bad v =
     (if v = PNone then Inr False
      else orE (Inr (\<not> is_list v \<or> list_of v = [])) (
           orE (has_duplicates (list_of v))
             (Inr (list_ex (\<lambda>x. x \<notin> PStr ` set (GATE_SEQUENCE @ STAGE_GATE_SEQUENCE)) (list_of v)))))"

fun event_errors :: "pyval list \<Rightarrow> string list" where
  "event_errors [] = []"
| "event_errors (x # xs) =
     (case event_from_record x of
        Inl e \<Rightarrow> [''oracle_gate event invalid: '' @ exc_message e]
      | Inr _ \<Rightarrow> event_errors xs)"

definition gate_sequence :: "meta \<Rightarrow> pyval list" where
  "gate_sequence d =
     (if dget d ''stage_sequence'' = PNone then map PStr GATE_SEQUENCE else list_of (dget d ''stage_sequence''))"

definition opening_event :: "pyval list \<Rightarrow> meta \<Rightarrow> bool" where
  "opening_event events session =
     list_ex (\<lambda>item. dget (dict_of item) ''action'' = PStr ''open''
        \<and> py_eq (dget (dict_of item) ''task_revision'') (dget session ''task_revision'')) events"

definition gate_errors :: "pyval \<Rightarrow> string list result" where
  "gate_errors v =
     (let d = dict_of v; sequence = gate_sequence d; session = dget d ''human_session'';
          rounds = dget_or d ''discussion_rounds'' (PInt 0); events = dget d ''events'' in
      if v = PNone then Inr []
      else if \<not> is_dict v then Inr [''oracle_gate must be an object'']
      else if \<not> keys_include d GATE_KEYS \<or> \<not> keys_within d (GATE_KEYS @ GATE_OPTIONAL)
        then Inr [''oracle_gate fields are incomplete or unknown'']
      else if dget d ''required'' \<noteq> PBool True then Inr [''oracle_gate.required must be true'']
      else bindE (stage_sequence_bad (dget d ''stage_sequence'')) (\<lambda>bad.
        if bad then Inr [''oracle_gate.stage_sequence is invalid'']
        else if dget d ''open_stage'' \<noteq> PNone \<and> \<not> py_in (dget d ''open_stage'') sequence
          then Inr [''oracle_gate.open_stage is invalid'']
        else if \<not> is_list (dget d ''completed'') \<or> list_ex (\<lambda>x. \<not> py_in x sequence) (list_of (dget d ''completed''))
          then Inr [''oracle_gate.completed is invalid'']
        else if \<not> is_int rounds \<or> \<not> (0 \<le> int_of rounds \<and> int_of rounds \<le> MAX_DISCUSSION_ROUNDS)
          then Inr [''oracle_gate.discussion_rounds is invalid'']
        else if dhas d ''authorized'' \<and> \<not> is_bool (dget d ''authorized'')
          then Inr [''oracle_gate.authorized is invalid'']
        else if \<not> is_bool (dget_or d ''reconciliation_required'' (PBool False))
          then Inr [''oracle_gate.reconciliation_required is invalid'']
        else if human_session_errors session \<noteq> [] then Inr (human_session_errors session)
        else if \<not> is_list events \<or> 32 < length (list_of events)
          then Inr [''oracle_gate.events is invalid or unbounded'']
        else if event_errors (list_of events) \<noteq> [] then Inr (event_errors (list_of events))
        else if session \<noteq> PNone \<and> \<not> opening_event (list_of events) (dict_of session)
          then Inr [''oracle_gate.human_session lacks its opening event'']
        else Inr []))"

text \<open>\<open>tuple(gate.get("stage_sequence", GATE_SEQUENCE))\<close>: an explicit \<open>None\<close> is not iterable. On a
  validated gate the value is a list of strings.\<close>

definition stage_tuple :: "meta \<Rightarrow> pyval list result" where
  "stage_tuple d =
     (let v = dget_or d ''stage_sequence'' (PList (map PStr GATE_SEQUENCE)) in
      if is_list v then Inr (list_of v)
      else if is_str v then Inr (map (\<lambda>c. PStr [c]) (str_of v))
      else if is_dict v then Inr (map PStr (dkeys (dict_of v)))
      else Inl (TypeError ''object is not iterable''))"

definition transition_allowed :: "meta \<Rightarrow> string \<Rightarrow> unit result" where
  "transition_allowed meta operation =
     (let gate = dget meta ''oracle_gate''; d = dict_of gate; session = dget d ''human_session'' in
      if \<not> is_dict gate then Inr ()
      else bindE (stage_tuple d) (\<lambda>sequence.
        let incomplete = (dhas d ''completed'' \<and> \<not> py_eq (dget d ''completed'') (PList sequence));
            presenting = (is_dict session \<and> dget (dict_of session) ''status'' = PStr ''presenting'');
            open_stage = dget d ''open_stage''
        in raise_if (dget d ''required'' = PBool True
             \<and> (truthy open_stage \<or> truthy (dget_or d ''reconciliation_required'' (PBool False)) \<or> incomplete \<or> presenting)
             \<and> operation \<in> set [''promote'', ''claim'', ''run'', ''release''])
           (GateError (''interaction gate unresolved: '' @
              (if truthy open_stage then py_str open_stage
               else if presenting then ''presenting'' else ''reconciliation'')))))"

section \<open>Applying an event\<close>

definition fresh_gate :: meta where
  "fresh_gate = [
     (''required'', PBool True),
     (''open_stage'', PNone),
     (''completed'', PList []),
     (''events'', PList []),
     (''discussion_rounds'', PInt 0),
     (''reconciliation_required'', PBool False)]"

definition setdefault :: "meta \<Rightarrow> string \<Rightarrow> pyval \<Rightarrow> meta" where
  "setdefault d k v = (if dhas d k then d else dset d k v)"

text \<open>The checks on a human session that opens with the event; \<open>{}\<close> stands in for a missing session,
  and \<open>.get\<close> of a value that is not a dictionary raises.\<close>

definition check_human_session :: "meta \<Rightarrow> interaction_event \<Rightarrow> pyval \<Rightarrow> unit result" where
  "check_human_session current e session =
     (if session = PNone then Inr () else
      bindE (raise_if (ev_action e \<noteq> ''open'')
               (GateError ''human session metadata is valid only when opening a gate'')) (\<lambda>_.
      bindE (raise_if (human_session_errors session \<noteq> []) (GateError (hd (human_session_errors session)))) (\<lambda>_.
      bindE (raise_if (\<not> py_eq (dget (dict_of session) ''task_revision'') (PInt (ev_task_revision e)))
               (GateError ''human session task_revision does not match gate event'')) (\<lambda>_.
      let old = dget_or current ''human_session'' (PDict []) in
      if \<not> is_dict old then Inl (AttributeError ''object has no attribute 'get' '')
      else raise_if (dget (dict_of old) ''status'' = PStr ''presenting'')
             (GateError ''a human session is already presenting'')))))"

definition index_of :: "pyval list \<Rightarrow> string \<Rightarrow> nat option" where
  "index_of xs s = (let n = length (takeWhile (\<lambda>x. x \<noteq> PStr s) xs) in if n < length xs then Some n else None)"

text \<open>One more discussion round, within the bound.\<close>

definition discussion_round :: "meta \<Rightarrow> meta result" where
  "discussion_round d =
     bindE (raise_if (MAX_DISCUSSION_ROUNDS \<le> int_of (dget d ''discussion_rounds''))
              (GateError ''repeated discussion limit exceeded'')) (\<lambda>_.
     Inr (dset (dset d ''discussion_rounds'' (PInt (int_of (dget d ''discussion_rounds'') + 1)))
            ''reconciliation_required'' (PBool True)))"

text \<open>The three actions: the new gate and its completed stages.\<close>

definition gate_action ::
  "interaction_event \<Rightarrow> nat \<Rightarrow> pyval list \<Rightarrow> meta \<Rightarrow> (meta \<times> pyval list) result" where
  "gate_action e index completed d =
     (let stage = PStr (ev_stage e); open_stage = dget d ''open_stage'' in
      if ev_action e = ''open'' then
        bindE (raise_if (open_stage \<noteq> PNone) (GateError ''interaction gate already open'')) (\<lambda>_.
        bindE (raise_if (py_in stage completed \<or> index \<noteq> length completed)
                 (GateError ''interaction gate skipped or already completed'')) (\<lambda>_.
        Inr (dset d ''open_stage'' stage, completed)))
      else if ev_action e = ''resolve'' then
        bindE (raise_if (open_stage \<noteq> stage) (GateError ''interaction event does not match open gate'')) (\<lambda>_.
        if ev_disposition e = ''accepted''
        then Inr (dset d ''open_stage'' PNone, completed @ [stage])
        else bindE (discussion_round (dset d ''open_stage'' stage)) (\<lambda>d'. Inr (d', completed)))
      else
        bindE (raise_if (\<not> py_in stage completed \<or> open_stage \<noteq> PNone)
                 (GateError ''only a completed gate can be reopened'')) (\<lambda>_.
        bindE (discussion_round (dset d ''open_stage'' stage)) (\<lambda>d'. Inr (d', take index completed))))"

definition close_session :: "interaction_event \<Rightarrow> meta \<Rightarrow> meta" where
  "close_session e d =
     (let session = dict_of (dget d ''human_session'') in
      if ev_action e = ''resolve'' \<and> is_dict (dget d ''human_session'')
        \<and> dget session ''status'' \<in> PStr ` set [''presenting'', ''clarification_requested'']
      then dset d ''human_session'' (PDict (dset (dset session ''status''
             (PStr (if ev_disposition e = ''accepted'' then ''resolved'' else ''clarification_requested'')))
             ''closed_at'' (PStr (ev_recorded_at e))))
      else d)"

text \<open>The gate to change, with the generic stage sequence filled in. A gate that is not a dictionary
  fails on the membership test or on the assignment, or is rejected by the validation below.\<close>

definition current_gate :: "meta \<Rightarrow> interaction_event \<Rightarrow> pyval result" where
  "current_gate meta e =
     (let gate = (if truthy (dget meta ''oracle_gate'') then dget meta ''oracle_gate'' else PDict fresh_gate);
          generic = (ev_stage e \<in> set STAGE_GATE_SEQUENCE);
          wrong = Inl (TypeError ''object does not support item assignment'') in
      case gate of
        PDict d \<Rightarrow> Inr (if \<not> dhas d ''stage_sequence'' \<and> generic
          then PDict (dset d ''stage_sequence'' (PList (map PStr STAGE_GATE_SEQUENCE))) else gate)
      | PStr s \<Rightarrow> if \<not> contains s ''stage_sequence'' \<and> generic then wrong else Inr gate
      | PList xs \<Rightarrow> if \<not> py_in (PStr ''stage_sequence'') xs \<and> generic then wrong else Inr gate
      | _ \<Rightarrow> Inl (TypeError ''argument is not iterable''))"

definition gate_defaults :: "meta \<Rightarrow> meta" where
  "gate_defaults current =
     setdefault (setdefault (dpop current ''authorized'') ''discussion_rounds'' (PInt 0))
       ''reconciliation_required'' (PBool False)"

text \<open>What follows the action: reconciliation, completed stages, the human session and the event.\<close>

definition gate_finish :: "interaction_event \<Rightarrow> pyval \<Rightarrow> meta \<Rightarrow> pyval list \<Rightarrow> meta" where
  "gate_finish e human_session d1 completed =
     (let d2 = (if ev_action e = ''resolve'' \<and> ev_disposition e = ''accepted''
                  \<and> ev_stage e \<in> set [''reconciliation'', ''decision'']
                then dset d1 ''reconciliation_required'' (PBool False) else d1);
          d3 = dset d2 ''completed'' (PList completed);
          d4 = (if human_session \<noteq> PNone then dset d3 ''human_session'' human_session else close_session e d3)
      in dset d4 ''events'' (PList (list_of (dget d4 ''events'') @ [event_record e])))"

definition apply_event :: "meta \<Rightarrow> interaction_event \<Rightarrow> pyval \<Rightarrow> (meta \<times> string) result" where
  "apply_event meta e human_session =
     bindE (raise_if (dget meta ''id'' \<noteq> PStr (ev_task_id e)) (GateError ''event task_id does not match task'')) (\<lambda>_.
     bindE (raise_if (\<not> py_eq (dget meta ''task_revision'') (PInt (ev_task_revision e)))
              (GateError ''stale interaction event revision'')) (\<lambda>_.
     bindE (current_gate meta e) (\<lambda>gate.
     bindE (gate_errors gate) (\<lambda>errors.
     bindE (raise_if (errors \<noteq> []) (GateError (hd errors))) (\<lambda>_.
     bindE (check_human_session (dict_of gate) e human_session) (\<lambda>_.
     let d0 = gate_defaults (dict_of gate) in
     bindE (stage_tuple d0) (\<lambda>sequence.
     case index_of sequence (ev_stage e) of
       None \<Rightarrow> Inl (GateError ''unknown interaction gate stage'')
     | Some index \<Rightarrow>
         bindE (gate_action e index (list_of (dget d0 ''completed'')) d0) (\<lambda>(d1, completed).
         let d5 = gate_finish e human_session d1 completed in
         bindE (raise_if (32 < length (list_of (dget d5 ''events'')))
                     (GateError ''interaction event history is bounded at 32 events'')) (\<lambda>_.
            Inr (dset meta ''oracle_gate'' (PDict d5),
              ''Recorded '' @ ev_action e @ '' interaction gate '' @ ev_stage e @ ''; event='' @
              digest (event_record e) @ ''.''))))))))))"

section \<open>Reading back an event\<close>

definition artifact_ok :: "artifact_ref \<Rightarrow> bool" where
  "artifact_ok a = (public_ref_ok (ar_ref a) \<and> is_digest (ar_digest a))"

lemma artifact_Inr: "artifact r g = Inr a \<longleftrightarrow> a = \<lparr>ar_ref = r, ar_digest = g\<rparr> \<and> artifact_ok a"
  by (auto simp: artifact_def gate_public_ref_def gate_digest_def result_simps artifact_ok_def)

lemma read_artifact_ok: "read_artifact name item = Inr a \<Longrightarrow> artifact_ok a"
  by (auto simp: read_artifact_def Let_def artifact_Inr split: sum.splits)

lemma read_artifact_record: "artifact_ok a \<Longrightarrow> read_artifact name (artifact_record a) = Inr a"
  by (simp add: read_artifact_def artifact_record_def artifact_Inr)

lemma read_artifacts_ok: "read_artifacts d name = Inr as \<Longrightarrow> list_all artifact_ok as"
  by (auto simp: read_artifacts_def Let_def map_result_Inr_iff list_all_iff list_all2_conv_all_nth in_set_conv_nth
      split: if_splits) (metis read_artifact_ok)

lemma read_artifacts_record:
  "list_all artifact_ok as \<Longrightarrow> map_result (read_artifact name) (map artifact_record as) = Inr as"
  by (induction as) (auto simp: read_artifact_record)

definition event_ok :: "interaction_event \<Rightarrow> bool" where
  "event_ok e = (check_event e = Inr () \<and> ev_stage e \<in> set (GATE_SEQUENCE @ STAGE_GATE_SEQUENCE) \<and>
     list_all artifact_ok (ev_before e) \<and> list_all artifact_ok (ev_after e))"

lemma event_from_record_ok: "event_from_record v = Inr e \<Longrightarrow> event_ok e"
  by (auto simp: event_from_record_def Let_def result_simps event_ok_def read_artifacts_ok split: if_splits)

lemma event_record_read: "event_ok e \<Longrightarrow> event_from_record (event_record e) = Inr e"
  by (cases e) (simp add: event_from_record_def event_record_def Let_def keys_exact_def EVENT_KEYS_def dkeys_def
      read_artifacts_def read_artifacts_record event_ok_def)

section \<open>What gate validation accepts\<close>

definition gate_valid :: "meta \<Rightarrow> bool" where
  "gate_valid d =
     (keys_include d GATE_KEYS \<and> keys_within d (GATE_KEYS @ GATE_OPTIONAL) \<and> dget d ''required'' = PBool True \<and>
      stage_sequence_bad (dget d ''stage_sequence'') = Inr False \<and>
      (dget d ''open_stage'' = PNone \<or> py_in (dget d ''open_stage'') (gate_sequence d)) \<and>
      is_list (dget d ''completed'') \<and> list_all (\<lambda>x. py_in x (gate_sequence d)) (list_of (dget d ''completed'')) \<and>
      is_int (dget_or d ''discussion_rounds'' (PInt 0)) \<and> 0 \<le> int_of (dget_or d ''discussion_rounds'' (PInt 0)) \<and>
      int_of (dget_or d ''discussion_rounds'' (PInt 0)) \<le> MAX_DISCUSSION_ROUNDS \<and>
      (dhas d ''authorized'' \<longrightarrow> is_bool (dget d ''authorized'')) \<and>
      is_bool (dget_or d ''reconciliation_required'' (PBool False)) \<and>
      human_session_errors (dget d ''human_session'') = [] \<and>
      is_list (dget d ''events'') \<and> length (list_of (dget d ''events'')) \<le> 32 \<and>
      event_errors (list_of (dget d ''events'')) = [] \<and>
      (dget d ''human_session'' = PNone \<or> opening_event (list_of (dget d ''events'')) (dict_of (dget d ''human_session''))))"

lemma gate_errors_Nil: "gate_errors v = Inr [] \<longleftrightarrow> v = PNone \<or> (\<exists>d. v = PDict d \<and> gate_valid d)"
proof (cases "is_dict v")
  case True
  then obtain d where v: "v = PDict d" by (auto simp: is_dict_iff)
  have "gate_errors (PDict d) = Inr [] \<longleftrightarrow> gate_valid d"
    unfolding gate_errors_def Let_def gate_valid_def
    by (simp only: result_simps value_simps pyval.distinct if_False if_True not_False_eq_True simp_thms)
      (auto simp: list_all_iff list_ex_iff)
  then show ?thesis using v by simp
qed (auto simp: gate_errors_def)

lemma event_errors_append: "event_errors (xs @ ys) = (if event_errors xs = [] then event_errors ys else event_errors xs)"
  by (induction xs) (auto split: sum.splits)

lemma gate_sequence_strings:
  assumes "stage_sequence_bad (dget d ''stage_sequence'') = Inr False"
  shows "set (gate_sequence d) \<subseteq> PStr ` set (GATE_SEQUENCE @ STAGE_GATE_SEQUENCE)"
proof (cases "dget d ''stage_sequence'' = PNone")
  case False
  then have "\<not> list_ex (\<lambda>x. x \<notin> PStr ` set (GATE_SEQUENCE @ STAGE_GATE_SEQUENCE)) (list_of (dget d ''stage_sequence''))"
    using assms by (simp add: stage_sequence_bad_def result_simps)
  with False show ?thesis by (auto simp: gate_sequence_def list_ex_iff)
qed (auto simp: gate_sequence_def)

lemma py_in_strings: "set xs \<subseteq> PStr ` ws \<Longrightarrow> py_in v xs \<longleftrightarrow> v \<in> set xs"
  by (auto simp: py_in_def list_ex_iff)

lemma stage_tuple_sequence:
  "stage_tuple d = Inr seq \<Longrightarrow> stage_sequence_bad (dget d ''stage_sequence'') = Inr False \<Longrightarrow> seq = gate_sequence d"
  by (auto simp: stage_tuple_def stage_sequence_bad_def gate_sequence_def dget_or_def dget_def Let_def result_simps
      split: option.splits if_splits)

lemma index_of_Some:
  assumes "index_of xs s = Some i"
  shows "i < length xs" "xs ! i = PStr s" "j < i \<Longrightarrow> xs ! j \<noteq> PStr s"
proof -
  have i: "i = length (takeWhile (\<lambda>x. x \<noteq> PStr s) xs)" "i < length xs"
    using assms by (auto simp: index_of_def Let_def split: if_splits)
  then show "i < length xs" "xs ! i = PStr s"
    using nth_length_takeWhile [of "\<lambda>x. x \<noteq> PStr s" xs] by auto
  show "j < i \<Longrightarrow> xs ! j \<noteq> PStr s"
    using i(1) nth_mem [of j "takeWhile (\<lambda>x. x \<noteq> PStr s) xs"] takeWhile_nth [of j "\<lambda>x. x \<noteq> PStr s" xs]
    by (auto dest: set_takeWhileD)
qed

section \<open>Stages are completed in order\<close>

text \<open>The completed stages are a prefix of the sequence and the open stage is the next one.\<close>

definition gate_ordered :: "meta \<Rightarrow> bool" where
  "gate_ordered d =
     (let completed = list_of (dget d ''completed''); k = length completed; sequence = gate_sequence d in
      completed = take k sequence \<and>
      (dget d ''open_stage'' = PNone \<or> (k < length sequence \<and> dget d ''open_stage'' = sequence ! k)))"

lemma gate_action_cases:
  assumes "gate_action e i completed d = Inr (d', completed')"
  obtains (open_gate) "ev_action e = ''open''" "dget d ''open_stage'' = PNone"
      "d' = dset d ''open_stage'' (PStr (ev_stage e))" "completed' = completed" "i = length completed"
    | (accepted) "ev_action e = ''resolve''" "ev_disposition e = ''accepted''" "dget d ''open_stage'' = PStr (ev_stage e)"
      "d' = dset d ''open_stage'' PNone" "completed' = completed @ [PStr (ev_stage e)]"
    | (discussed) "ev_action e = ''resolve''" "ev_disposition e \<noteq> ''accepted''" "dget d ''open_stage'' = PStr (ev_stage e)"
      "discussion_round (dset d ''open_stage'' (PStr (ev_stage e))) = Inr d'" "completed' = completed"
    | (reopened) "ev_action e \<noteq> ''open''" "ev_action e \<noteq> ''resolve''" "PStr (ev_stage e) \<in> set completed"
      "dget d ''open_stage'' = PNone"
      "discussion_round (dset d ''open_stage'' (PStr (ev_stage e))) = Inr d'" "completed' = take i completed"
proof (cases "ev_action e = ''open''")
  case True
  with assms show ?thesis
    by (intro open_gate) (simp_all add: gate_action_def Let_def result_simps)
next
  case not_open: False
  show ?thesis
  proof (cases "ev_action e = ''resolve''")
    case True
    show ?thesis
    proof (cases "ev_disposition e = ''accepted''")
      case acc: True
      with True assms show ?thesis
        by (intro accepted) (simp_all add: gate_action_def Let_def result_simps)
    next
      case acc: False
      with True assms show ?thesis
        by (intro discussed) (auto simp: gate_action_def Let_def result_simps)
    qed
  next
    case False
    with not_open assms show ?thesis
      by (intro reopened) (auto simp: gate_action_def Let_def result_simps py_in_PStr)
  qed
qed

lemma discussion_round_Inr:
  "discussion_round d = Inr d' \<longleftrightarrow> int_of (dget d ''discussion_rounds'') < MAX_DISCUSSION_ROUNDS \<and>
     d' = dset (dset d ''discussion_rounds'' (PInt (int_of (dget d ''discussion_rounds'') + 1)))
            ''reconciliation_required'' (PBool True)"
  by (auto simp: discussion_round_def result_simps not_le)

lemma discussion_round_open [simp]: "discussion_round d = Inr d' \<Longrightarrow> dget d' ''open_stage'' = dget d ''open_stage''"
  by (simp add: discussion_round_Inr)

lemma gate_action_ordered:
  assumes "gate_action e i completed d = Inr (d', completed')"
    and "completed = take (length completed) sequence"
    and "dget d ''open_stage'' = PNone \<or> (length completed < length sequence \<and> dget d ''open_stage'' = sequence ! length completed)"
    and "index_of sequence (ev_stage e) = Some i" and "set sequence \<subseteq> PStr ` ws"
  shows "completed' = take (length completed') sequence \<and>
    (dget d' ''open_stage'' = PNone \<or>
     (length completed' < length sequence \<and> dget d' ''open_stage'' = sequence ! length completed'))"
proof -
  note i = index_of_Some [OF assms(4)]
  have reopen: "i < length completed" if "PStr (ev_stage e) \<in> set completed"
  proof -
    obtain j where j: "j < length completed" "completed ! j = PStr (ev_stage e)"
      using \<open>PStr (ev_stage e) \<in> set completed\<close> by (auto simp: in_set_conv_nth)
    then have "sequence ! j = PStr (ev_stage e)"
      using assms(2) by (metis nth_take)
    then have "\<not> j < i" using i(3) [of j] by blast
    with j(1) show ?thesis by simp
  qed
  have len: "length completed \<le> length sequence"
    using assms(2) by (metis length_take min.cobounded1)
  from assms(1) show ?thesis
  proof (cases rule: gate_action_cases)
    case open_gate
    then show ?thesis using assms(2) i by auto
  next
    case accepted
    then have "length completed < length sequence" "sequence ! length completed = PStr (ev_stage e)"
      using assms(3) by auto
    then have "take (Suc (length completed)) sequence = completed @ [PStr (ev_stage e)]"
      using assms(2) by (simp add: take_Suc_conv_app_nth)
    with accepted show ?thesis by simp
  next
    case discussed
    then show ?thesis using assms(2,3) by (auto dest: discussion_round_open)
  next
    case reopened
    have "i < length completed" by (rule reopen [OF reopened(3)])
    moreover from this have "completed' = take i sequence"
      using reopened(6) assms(2) by (metis min.absorb1 less_imp_le take_take)
    moreover from calculation have "length completed' = i"
      using len by simp
    ultimately show ?thesis using discussion_round_open [OF reopened(5)] i by simp
  qed
qed

definition gate_in_order :: "pyval \<Rightarrow> bool" where
  "gate_in_order v = (v = PNone \<or> (is_dict v \<and> gate_ordered (dict_of v)))"

lemma prefix_sequence_frame:
  "''stage_sequence'' \<noteq> k \<Longrightarrow> gate_sequence (dset d k v) = gate_sequence d"
  "''stage_sequence'' \<noteq> k \<Longrightarrow> gate_sequence (dpop d k) = gate_sequence d"
  "''stage_sequence'' \<noteq> k \<Longrightarrow> gate_sequence (setdefault d k v) = gate_sequence d"
  by (simp_all add: gate_sequence_def setdefault_def)

lemma dget_setdefault [simp]:
  "dget (setdefault d k v) k' = (if k' = k \<and> \<not> dhas d k then v else dget d k')"
  by (simp add: setdefault_def)

lemma stages_disjoint: "set GATE_SEQUENCE \<inter> set STAGE_GATE_SEQUENCE = {}"
  by (simp add: GATE_SEQUENCE_def STAGE_GATE_SEQUENCE_def)

text \<open>The gate that an event is applied to is in order: filling in the generic stages is only valid
  while nothing has been completed or opened.\<close>

lemma current_gate_ordered:
  assumes "current_gate meta e = Inr (PDict d)" "gate_in_order (dget meta ''oracle_gate'')" "gate_valid d"
  shows "gate_ordered d"
proof -
  define g where "g = (if truthy (dget meta ''oracle_gate'') then dict_of (dget meta ''oracle_gate'') else fresh_gate)"
  have g: "gate_ordered g"
    using assms(2) by (auto simp: g_def gate_in_order_def gate_ordered_def Let_def fresh_gate_def gate_sequence_def)
  have "d = g \<or> (\<not> dhas g ''stage_sequence'' \<and> d = dset g ''stage_sequence'' (PList (map PStr STAGE_GATE_SEQUENCE)))"
    using assms(1,2) by (auto simp: current_gate_def Let_def g_def gate_in_order_def is_dict_iff split: if_splits)
  then show ?thesis
  proof
    assume d: "\<not> dhas g ''stage_sequence'' \<and> d = dset g ''stage_sequence'' (PList (map PStr STAGE_GATE_SEQUENCE))"
    then have seq: "gate_sequence d = map PStr STAGE_GATE_SEQUENCE" "gate_sequence g = map PStr GATE_SEQUENCE"
      by (auto simp: gate_sequence_def STAGE_GATE_SEQUENCE_def dget_not_None_dhas)
    have disjoint: "PStr ` set GATE_SEQUENCE \<inter> PStr ` set STAGE_GATE_SEQUENCE = {}"
      using stages_disjoint by auto
    have in_stage: "v \<in> PStr ` set STAGE_GATE_SEQUENCE" if "py_in v (gate_sequence d)" for v
      using that unfolding seq by (subst (asm) py_in_strings [of _ UNIV]) auto
    have "list_of (dget g ''completed'') = take (length (list_of (dget g ''completed''))) (map PStr GATE_SEQUENCE)"
      using g by (simp only: gate_ordered_def Let_def seq)
    then have "x \<in> set (list_of (dget g ''completed'')) \<Longrightarrow> x \<in> PStr ` set GATE_SEQUENCE" for x
      by (metis in_set_takeD set_map)
    moreover have "x \<in> set (list_of (dget g ''completed'')) \<Longrightarrow> x \<in> PStr ` set STAGE_GATE_SEQUENCE" for x
      using assms(3) d in_stage by (auto simp: gate_valid_def list_all_iff)
    ultimately have "x \<in> set (list_of (dget g ''completed'')) \<Longrightarrow> x \<in> PStr ` set GATE_SEQUENCE \<inter> PStr ` set STAGE_GATE_SEQUENCE" for x
      by (intro IntI)
    then have "x \<notin> set (list_of (dget g ''completed''))" for x
      unfolding disjoint by auto
    then have "list_of (dget g ''completed'') = []"
      by (cases "list_of (dget g ''completed'')") auto
    moreover have "dget g ''open_stage'' = PNone"
    proof (rule ccontr)
      assume o: "dget g ''open_stage'' \<noteq> PNone"
      then have "dget g ''open_stage'' \<in> set (gate_sequence g)"
        using g by (auto simp: gate_ordered_def Let_def)
      moreover have "dget g ''open_stage'' \<in> PStr ` set STAGE_GATE_SEQUENCE"
        using o assms(3) d in_stage by (auto simp: gate_valid_def)
      ultimately show False
        using disjoint unfolding seq by auto
    qed
    ultimately show ?thesis using d by (simp add: gate_ordered_def Let_def)
  qed (use g in simp)
qed

lemma gate_defaults_frame [simp]:
  "dget (gate_defaults d) ''completed'' = dget d ''completed''"
  "dget (gate_defaults d) ''open_stage'' = dget d ''open_stage''"
  "dget (gate_defaults d) ''events'' = dget d ''events''"
  "dget (gate_defaults d) ''human_session'' = dget d ''human_session''"
  "dget (gate_defaults d) ''required'' = dget d ''required''"
  "dget (gate_defaults d) ''stage_sequence'' = dget d ''stage_sequence''"
  "gate_sequence (gate_defaults d) = gate_sequence d"
  by (simp_all add: gate_defaults_def prefix_sequence_frame)

text \<open>A successful \<open>apply_event\<close>, as the steps it went through.\<close>

lemma apply_event_Inr:
  assumes "apply_event meta e hs = Inr (meta', msg)"
  obtains d i d1 completed where
    "current_gate meta e = Inr (PDict d)" "gate_valid d" "check_human_session d e hs = Inr ()"
    "index_of (gate_sequence d) (ev_stage e) = Some i"
    "gate_action e i (list_of (dget d ''completed'')) (gate_defaults d) = Inr (d1, completed)"
    "meta' = dset meta ''oracle_gate'' (PDict (gate_finish e hs d1 completed))"
    "length (list_of (dget (gate_finish e hs d1 completed) ''events'')) \<le> 32"
    "py_eq (dget meta ''task_revision'') (PInt (ev_task_revision e))"
proof -
  obtain gate sequence i d1 completed where
    a: "current_gate meta e = Inr gate" "gate_errors gate = Inr []" "check_human_session (dict_of gate) e hs = Inr ()"
      "stage_tuple (gate_defaults (dict_of gate)) = Inr sequence" "index_of sequence (ev_stage e) = Some i"
      "gate_action e i (list_of (dget (gate_defaults (dict_of gate)) ''completed'')) (gate_defaults (dict_of gate)) = Inr (d1, completed)"
      "meta' = dset meta ''oracle_gate'' (PDict (gate_finish e hs d1 completed))"
      "length (list_of (dget (gate_finish e hs d1 completed) ''events'')) \<le> 32"
      "py_eq (dget meta ''task_revision'') (PInt (ev_task_revision e))"
    using assms unfolding apply_event_def Let_def
    by (fastforce simp: result_simps not_less split: option.splits prod.splits)
  have "gate \<noteq> PNone"
    using a(1) by (auto simp: current_gate_def Let_def split: if_splits pyval.splits)
  then obtain d where d: "gate = PDict d" "gate_valid d"
    using a(2) by (auto simp: gate_errors_Nil)
  then have "sequence = gate_sequence d"
    using a(4) by (intro stage_tuple_sequence [of "gate_defaults d", simplified]) (auto simp: gate_valid_def)
  with a d that show thesis by simp
qed

lemma gate_finish_frame [simp]:
  "dget (gate_finish e hs d completed) ''open_stage'' = dget d ''open_stage''"
  "dget (gate_finish e hs d completed) ''completed'' = PList completed"
  "dget (gate_finish e hs d completed) ''stage_sequence'' = dget d ''stage_sequence''"
  "dget (gate_finish e hs d completed) ''required'' = dget d ''required''"
  "dget_or (gate_finish e hs d completed) ''discussion_rounds'' v = dget_or d ''discussion_rounds'' v"
  "dget (gate_finish e hs d completed) ''events'' = PList (list_of (dget d ''events'') @ [event_record e])"
  "dhas (gate_finish e hs d completed) ''authorized'' \<longleftrightarrow> dhas d ''authorized''"
  by (simp_all add: gate_finish_def Let_def close_session_def)

lemma gate_action_frame:
  assumes "gate_action e i completed d = Inr (d', completed')"
  shows "dget d' ''stage_sequence'' = dget d ''stage_sequence''" "dget d' ''events'' = dget d ''events''"
    "dget d' ''human_session'' = dget d ''human_session''" "dget d' ''required'' = dget d ''required''"
    "dhas d' ''authorized'' \<longleftrightarrow> dhas d ''authorized''"
    "set (dkeys d') \<subseteq> set (dkeys d) \<union> {''open_stage'', ''discussion_rounds'', ''reconciliation_required''}"
    "set (dkeys d) \<subseteq> set (dkeys d')"
  using assms by (cases rule: gate_action_cases; auto simp: discussion_round_Inr set_dkeys_dset)+

section \<open>Properties\<close>

text \<open>Property C16. The stages of a gate are completed in the order of its sequence: an event that is
  applied to a gate whose completed stages are a prefix of the sequence, with at most the next stage
  open, leaves such a gate; no event skips a stage, and reopening drops every later stage.\<close>

theorem apply_event_keeps_order:
  assumes "apply_event meta e hs = Inr (meta', msg)" and "gate_in_order (dget meta ''oracle_gate'')"
  shows "gate_in_order (dget meta' ''oracle_gate'')"
proof -
  obtain d i d1 completed where a: "current_gate meta e = Inr (PDict d)" "gate_valid d"
    "index_of (gate_sequence d) (ev_stage e) = Some i"
    "gate_action e i (list_of (dget d ''completed'')) (gate_defaults d) = Inr (d1, completed)"
    "meta' = dset meta ''oracle_gate'' (PDict (gate_finish e hs d1 completed))"
    using assms(1) by (rule apply_event_Inr)
  have "gate_ordered d" by (rule current_gate_ordered [OF a(1) assms(2) a(2)])
  moreover have "set (gate_sequence d) \<subseteq> PStr ` set (GATE_SEQUENCE @ STAGE_GATE_SEQUENCE)"
    using a(2) by (intro gate_sequence_strings) (simp add: gate_valid_def)
  ultimately have "completed = take (length completed) (gate_sequence d) \<and>
    (dget d1 ''open_stage'' = PNone \<or>
     (length completed < length (gate_sequence d) \<and> dget d1 ''open_stage'' = gate_sequence d ! length completed))"
    using a by (intro gate_action_ordered [OF a(4) _ _ a(3)]) (auto simp: gate_ordered_def Let_def)
  moreover have "gate_sequence (gate_finish e hs d1 completed) = gate_sequence d"
    using gate_action_frame(1) [OF a(4)] by (simp add: gate_sequence_def)
  ultimately show ?thesis
    using a(5) by (simp add: gate_in_order_def gate_ordered_def Let_def)
qed

definition example_event :: interaction_event where
  "example_event = \<lparr>ev_task_id = ''AR-0001'', ev_task_revision = 1, ev_stage = ''intake'', ev_action = ''open'',
     ev_disposition = ''unresolved'',
     ev_before = [\<lparr>ar_ref = ''spec/a.md'', ar_digest = ''sha256:'' @ replicate 64 CHR ''0''\<rparr>],
     ev_after = [\<lparr>ar_ref = ''spec/b.md'', ar_digest = ''sha256:'' @ replicate 64 CHR ''1''\<rparr>],
     ev_public_ref = ''AR-0001'', ev_recorded_at = isoformat_utc 0\<rparr>"

definition example_gated :: meta where
  "example_gated = [(''id'', PStr ''AR-0001''), (''task_revision'', PInt 1)]"

lemma fresh_gate_valid: "gate_valid fresh_gate"
  by (simp add: gate_valid_def fresh_gate_def keys_include_def keys_within_def dkeys_def GATE_KEYS_def GATE_OPTIONAL_def
      stage_sequence_bad_def MAX_DISCUSSION_ROUNDS_def human_session_errors_def)

lemma example_event_applies: "\<exists>meta' msg. apply_event example_gated example_event PNone = Inr (meta', msg)"
proof -
  have cur: "current_gate example_gated example_event = Inr (PDict fresh_gate)"
    by (simp add: current_gate_def example_gated_def example_event_def STAGE_GATE_SEQUENCE_def)
  have "gate_errors (PDict fresh_gate) = Inr []"
    by (simp add: gate_errors_Nil fresh_gate_valid)
  moreover have "stage_tuple (gate_defaults fresh_gate) = Inr (map PStr GATE_SEQUENCE)"
    by (simp add: stage_tuple_def gate_defaults_def setdefault_def fresh_gate_def)
  moreover have "index_of (map PStr GATE_SEQUENCE) (ev_stage example_event) = Some 0"
    by (simp add: index_of_def GATE_SEQUENCE_def example_event_def)
  moreover have "gate_action example_event 0 [] (gate_defaults fresh_gate) =
      Inr (dset (gate_defaults fresh_gate) ''open_stage'' (PStr ''intake''), [])"
    by (simp add: gate_action_def example_event_def fresh_gate_def py_in_def)
  moreover have "list_of (dget fresh_gate ''completed'') = []" "list_of (dget fresh_gate ''events'') = []"
    by (simp_all add: fresh_gate_def)
  ultimately show ?thesis
    by (simp add: apply_event_def cur check_human_session_def Let_def)
      (simp add: example_gated_def example_event_def)
qed

theorem apply_event_keeps_order_witness:
  "\<exists>meta' msg. apply_event example_gated example_event PNone = Inr (meta', msg) \<and>
     gate_in_order (dget meta' ''oracle_gate'')"
proof -
  obtain meta' msg where "apply_event example_gated example_event PNone = Inr (meta', msg)"
    using example_event_applies by blast
  moreover have "gate_in_order (dget example_gated ''oracle_gate'')"
    by (simp add: gate_in_order_def example_gated_def)
  ultimately show ?thesis using apply_event_keeps_order by blast
qed

lemma event_errors_single: "event_ok e \<Longrightarrow> event_errors [event_record e] = []"
  by (simp add: event_record_read)

lemma opening_event_append:
  "opening_event (xs @ ys) s \<longleftrightarrow> opening_event xs s \<or> opening_event ys s"
  by (simp add: opening_event_def)

lemma event_timestamp: "event_ok e \<Longrightarrow> gate_timestamp (PStr (ev_recorded_at e)) l = Inr ()"
  by (auto simp: event_ok_def check_event_def result_simps gate_timestamp_def split: sum.splits datetime.splits)

text \<open>Closing a presented session with a valid timestamp leaves a valid session of the same revision.\<close>

lemma human_session_Nil:
  "human_session_errors (PDict d) = [] \<longleftrightarrow>
     keys_include d SESSION_KEYS \<and> keys_within d (''closed_at'' # SESSION_KEYS) \<and>
     dget d ''schema_version'' = PStr ''1.0'' \<and> dget d ''tui_contract_version'' = PStr ''1.0'' \<and>
     is_str (dget d ''session_id'') \<and> is_tagged_ref ''AWTUI-'' (str_of (dget d ''session_id'')) \<and>
     is_str (dget d ''request_ref'') \<and> is_tagged_ref ''AWG-'' (str_of (dget d ''request_ref'')) \<and>
     is_str (dget d ''activation'') \<and> is_str (dget d ''status'') \<and>
     str_of (dget d ''activation'') \<in> set SESSION_ACTIVATIONS \<and> str_of (dget d ''status'') \<in> set SESSION_STATUSES \<and>
     \<not> is_bool (dget d ''task_revision'') \<and> is_int (dget d ''task_revision'') \<and> 1 \<le> int_of (dget d ''task_revision'') \<and>
     session_timestamps d = Inr () \<and> (dget d ''status'' = PStr ''presenting'' \<longleftrightarrow> \<not> dhas d ''closed_at'')"
  unfolding human_session_errors_def Let_def
  by (simp only: result_simps value_simps pyval.distinct if_False if_True not_False_eq_True simp_thms dict_of_def pyval.case)
    (cases "session_timestamps d"; auto simp: not_less)

lemma close_session_valid:
  assumes "human_session_errors (PDict s) = []" "gate_timestamp (PStr t) ''oracle_gate.human_session.closed_at'' = Inr ()"
    and "st \<in> {''resolved'', ''clarification_requested''}"
  shows "human_session_errors (PDict (dset (dset s ''status'' (PStr st)) ''closed_at'' (PStr t))) = []"
proof -
  have "keys_include (dset (dset s ''status'' (PStr st)) ''closed_at'' (PStr t)) SESSION_KEYS"
    "keys_within (dset (dset s ''status'' (PStr st)) ''closed_at'' (PStr t)) (''closed_at'' # SESSION_KEYS)"
    using assms(1) by (auto simp: human_session_Nil keys_include_iff keys_within_iff set_dkeys_dset SESSION_KEYS_def)
  moreover have "session_timestamps (dset (dset s ''status'' (PStr st)) ''closed_at'' (PStr t)) = Inr ()"
    using assms(1,2) by (simp add: human_session_Nil session_timestamps_def result_simps)
  moreover have "st \<in> set SESSION_STATUSES" "st \<noteq> ''presenting''"
    using assms(3) by (auto simp: SESSION_STATUSES_def)
  ultimately show ?thesis
    using assms(1) unfolding human_session_Nil by (simp del: keys_include_iff)
qed

lemma dhas_dget_or: "dhas d k \<Longrightarrow> dget_or d k v = dget d k" "\<not> dhas d k \<Longrightarrow> dget_or d k v = v"
  by (auto simp: dhas_def dget_or_def dget_def)

lemma gate_defaults_rounds:
  "dget (gate_defaults d) ''discussion_rounds'' = dget_or d ''discussion_rounds'' (PInt 0)"
  "dget_or (gate_defaults d) ''discussion_rounds'' v = dget_or d ''discussion_rounds'' (PInt 0)"
  "dget_or (gate_defaults d) ''reconciliation_required'' v = dget_or d ''reconciliation_required'' (PBool False)"
  "\<not> dhas (gate_defaults d) ''authorized''"
  "set (dkeys (gate_defaults d)) = (set (dkeys d) - {''authorized''}) \<union> {''discussion_rounds'', ''reconciliation_required''}"
  by (auto simp: gate_defaults_def setdefault_def dhas_dget_or set_dkeys_dset set_dkeys_dpop dhas_dkeys)

lemma gate_action_valid:
  assumes "gate_action e i completed (gate_defaults d) = Inr (d1, completed')" and "gate_valid d"
    and "index_of (gate_sequence d) (ev_stage e) = Some i" and "completed = list_of (dget d ''completed'')"
  shows "dget d1 ''open_stage'' = PNone \<or> py_in (dget d1 ''open_stage'') (gate_sequence d)"
    "list_all (\<lambda>x. py_in x (gate_sequence d)) completed'"
    "is_int (dget_or d1 ''discussion_rounds'' (PInt 0)) \<and> 0 \<le> int_of (dget_or d1 ''discussion_rounds'' (PInt 0)) \<and>
      int_of (dget_or d1 ''discussion_rounds'' (PInt 0)) \<le> MAX_DISCUSSION_ROUNDS"
    "is_bool (dget_or d1 ''reconciliation_required'' (PBool False))"
proof -
  have stage: "py_in (PStr (ev_stage e)) (gate_sequence d)"
    using index_of_Some [OF assms(3)] by (auto simp: py_in_PStr in_set_conv_nth)
  have old: "list_all (\<lambda>x. py_in x (gate_sequence d)) completed"
    using assms(2,4) by (simp add: gate_valid_def)
  show "dget d1 ''open_stage'' = PNone \<or> py_in (dget d1 ''open_stage'') (gate_sequence d)"
    using assms(1) stage by (cases rule: gate_action_cases) (auto dest: discussion_round_open)
  show "list_all (\<lambda>x. py_in x (gate_sequence d)) completed'"
    using assms(1) stage old by (cases rule: gate_action_cases) (auto simp: list_all_iff dest: in_set_takeD)
  show "is_int (dget_or d1 ''discussion_rounds'' (PInt 0)) \<and> 0 \<le> int_of (dget_or d1 ''discussion_rounds'' (PInt 0)) \<and>
      int_of (dget_or d1 ''discussion_rounds'' (PInt 0)) \<le> MAX_DISCUSSION_ROUNDS"
    using assms(1,2) by (cases rule: gate_action_cases) (auto simp: discussion_round_Inr gate_defaults_rounds gate_valid_def)
  show "is_bool (dget_or d1 ''reconciliation_required'' (PBool False))"
    using assms(1,2) by (cases rule: gate_action_cases) (auto simp: discussion_round_Inr gate_defaults_rounds gate_valid_def)
qed

lemma gate_finish_session:
  "dget (gate_finish e hs d completed) ''human_session'' =
     (if hs \<noteq> PNone then hs else dget (close_session e d) ''human_session'')"
  by (auto simp: gate_finish_def Let_def close_session_def)

lemma close_session_ok:
  assumes "human_session_errors (dget d ''human_session'') = []" and "event_ok e"
    and "dget d ''human_session'' = PNone \<or> opening_event events (dict_of (dget d ''human_session''))"
  shows "human_session_errors (dget (close_session e d) ''human_session'') = [] \<and>
    (dget (close_session e d) ''human_session'' = PNone \<or>
     opening_event events (dict_of (dget (close_session e d) ''human_session'')))"
proof (cases "ev_action e = ''resolve'' \<and> is_dict (dget d ''human_session'')
        \<and> dget (dict_of (dget d ''human_session'')) ''status'' \<in> PStr ` set [''presenting'', ''clarification_requested'']")
  case True
  then obtain s where s: "dget d ''human_session'' = PDict s" by (auto simp: is_dict_iff)
  define st where "st = (if ev_disposition e = ''accepted'' then ''resolved'' else ''clarification_requested'')"
  have close: "dget (close_session e d) ''human_session'' =
      PDict (dset (dset s ''status'' (PStr st)) ''closed_at'' (PStr (ev_recorded_at e)))"
    using True s by (simp add: close_session_def Let_def st_def)
  have "human_session_errors (PDict (dset (dset s ''status'' (PStr st)) ''closed_at'' (PStr (ev_recorded_at e)))) = []"
    using assms(1) s event_timestamp [OF assms(2)] by (intro close_session_valid) (simp_all add: st_def)
  then show ?thesis
    unfolding close using assms(3) s by (simp add: opening_event_def)
next
  case False
  then have "close_session e d = d"
    unfolding close_session_def Let_def by (simp only: if_False)
  then show ?thesis using assms by simp
qed

lemma finish_keys_valid:
  assumes "gate_valid d" "gate_action e i completed0 (gate_defaults d) = Inr (d1, completed)"
  shows "keys_include (gate_finish e hs d1 completed) GATE_KEYS" "keys_within (gate_finish e hs d1 completed) (GATE_KEYS @ GATE_OPTIONAL)"
proof -
  let ?g = "gate_finish e hs d1 completed"
  note frame = gate_action_frame [OF assms(2)]
  have finish_keys: "set (dkeys d1) \<subseteq> set (dkeys ?g)"
    "set (dkeys ?g) \<subseteq> set (dkeys d1) \<union> {''reconciliation_required'', ''completed'', ''human_session'', ''events''}"
    by (auto simp: gate_finish_def Let_def close_session_def set_dkeys_dset split: if_splits)
  have "set GATE_KEYS \<subseteq> set (dkeys d)" "set (dkeys d) \<subseteq> set (GATE_KEYS @ GATE_OPTIONAL)"
    using assms(1) by (simp_all add: gate_valid_def keys_include_iff keys_within_iff)
  moreover have "''authorized'' \<notin> set GATE_KEYS"
    "{''discussion_rounds'', ''reconciliation_required''} \<subseteq> set (GATE_KEYS @ GATE_OPTIONAL)"
    by (simp_all add: GATE_KEYS_def GATE_OPTIONAL_def)
  ultimately have k: "set GATE_KEYS \<subseteq> set (dkeys (gate_defaults d))"
    "set (dkeys (gate_defaults d)) \<subseteq> set (GATE_KEYS @ GATE_OPTIONAL)"
    unfolding gate_defaults_rounds by blast+
  show "keys_include ?g GATE_KEYS"
    unfolding keys_include_iff by (rule subset_trans [OF subset_trans [OF k(1) frame(7)] finish_keys(1)])
  have "set (dkeys d1) \<subseteq> set (GATE_KEYS @ GATE_OPTIONAL)"
    by (rule subset_trans [OF frame(6)], rule Un_least [OF k(2)]) (simp add: GATE_KEYS_def GATE_OPTIONAL_def)
  then show "keys_within ?g (GATE_KEYS @ GATE_OPTIONAL)"
    unfolding keys_within_iff
    by (intro subset_trans [OF finish_keys(2)] Un_least) (simp_all add: GATE_KEYS_def GATE_OPTIONAL_def)
qed

lemma finish_session_valid:
  assumes "gate_valid d" "check_human_session d e hs = Inr ()" "event_ok e"
    "gate_action e i completed0 (gate_defaults d) = Inr (d1, completed)"
  shows "human_session_errors (dget (gate_finish e hs d1 completed) ''human_session'') = [] \<and>
    (dget (gate_finish e hs d1 completed) ''human_session'' = PNone \<or>
     opening_event (list_of (dget (gate_finish e hs d1 completed) ''events'')) (dict_of (dget (gate_finish e hs d1 completed) ''human_session'')))"
    (is "_ \<and> (_ \<or> opening_event ?evs _)")
proof (cases "hs = PNone")
  case True
  have "human_session_errors (dget d1 ''human_session'') = []"
    "dget d1 ''human_session'' = PNone \<or> opening_event ?evs (dict_of (dget d1 ''human_session''))"
    using assms(1) gate_action_frame(2,3) [OF assms(4)] by (auto simp: gate_valid_def opening_event_append)
  then show ?thesis
    using True close_session_ok [OF _ assms(3)] by (simp add: gate_finish_session)
next
  case False
  then have "human_session_errors hs = []" "ev_action e = ''open''"
    "py_eq (dget (dict_of hs) ''task_revision'') (PInt (ev_task_revision e))"
    using assms(2) by (auto simp: check_human_session_def result_simps)
  then show ?thesis
    using False by (auto simp: gate_finish_session opening_event_append opening_event_def event_record_def
        py_eq_PInt_right)
qed

text \<open>Applying a well-formed event to a task leaves a gate record that the record
  validation of the coordinator accepts: fields, bounds on discussion rounds and events, the human
  session and its opening event included.\<close>

theorem apply_event_keeps_valid:
  assumes "apply_event meta e hs = Inr (meta', msg)" and "event_ok e"
  shows "gate_errors (dget meta' ''oracle_gate'') = Inr []"
proof -
  obtain d i d1 completed where a: "gate_valid d" "check_human_session d e hs = Inr ()"
    "index_of (gate_sequence d) (ev_stage e) = Some i"
    "gate_action e i (list_of (dget d ''completed'')) (gate_defaults d) = Inr (d1, completed)"
    "meta' = dset meta ''oracle_gate'' (PDict (gate_finish e hs d1 completed))"
    "length (list_of (dget (gate_finish e hs d1 completed) ''events'')) \<le> 32"
    using assms(1) by (rule apply_event_Inr)
  let ?g = "gate_finish e hs d1 completed"
  note act = gate_action_valid [OF a(4,1,3) refl] and frame = gate_action_frame [OF a(4)]
  have seq: "gate_sequence ?g = gate_sequence d"
    using frame(1) by (simp add: gate_sequence_def)
  have events: "event_errors (list_of (dget ?g ''events'')) = []"
    using a(1) frame(2) event_errors_single [OF assms(2)] by (simp add: event_errors_append gate_valid_def)
  have recon: "is_bool (dget_or ?g ''reconciliation_required'' (PBool False))"
    using act(4) by (auto simp: gate_finish_def Let_def close_session_def)
  have "gate_valid ?g"
    unfolding gate_valid_def seq
    using finish_keys_valid [OF a(1,4)] finish_session_valid [OF a(1,2) assms(2) a(4)] events recon act a(1,6) frame(1,4,5)
      gate_defaults_rounds(4) by (simp add: gate_valid_def)
  then show ?thesis using a(5) by (simp add: gate_errors_Nil)
qed

lemma example_event_ok: "event_ok example_event"
proof -
  have "gate_timestamp (PStr (isoformat_utc 0)) l = Inr ()" for l
    by (simp add: gate_timestamp_def from_iso_z_def replace_Z_isoformat fromisoformat_isoformat in_range_def
        max_us_def max_ordinal_def day_us_def second_us_def)
  then show ?thesis
    by (simp add: event_ok_def example_event_def check_event_def is_task_id_def starts_with_def is_digit_def digits_def
        ACTIONS_def DISPOSITIONS_def gate_public_ref_def public_ref_ok_def is_reference_def is_alnum_def is_upper_def
        is_lower_def upper_letters_def lower_letters_def GATE_SEQUENCE_def artifact_ok_def is_digest_def all_hex_def
        list_all_iff is_lower_hex_def lower_hex_def)
qed

theorem apply_event_keeps_valid_witness:
  "\<exists>meta' msg. apply_event example_gated example_event PNone = Inr (meta', msg) \<and>
     gate_errors (dget meta' ''oracle_gate'') = Inr []"
proof -
  obtain meta' msg where "apply_event example_gated example_event PNone = Inr (meta', msg)"
    using example_event_applies by blast
  then show ?thesis using apply_event_keeps_valid [OF _ example_event_ok] by blast
qed

lemma py_eq_strings: "py_eq v (PList (map PStr ws)) \<longleftrightarrow> v = PList (map PStr ws)"
proof (cases v)
  case (PList xs)
  have "list_all2 py_eq xs (map PStr ws) \<longleftrightarrow> xs = map PStr ws"
    by (induction ws arbitrary: xs) (auto simp: list_all2_Cons2)
  then show ?thesis using PList by simp
qed auto

lemma sequence_as_strings: "set xs \<subseteq> PStr ` ws \<Longrightarrow> xs = map PStr (map str_of xs)"
  by (induction xs) auto

text \<open>Property C17. On a task with a valid gate, an autonomous operation (promote, claim, run or release)
  is admitted exactly when no stage is open, no reconciliation is pending, every stage of the sequence
  is completed, and no human session is being presented.\<close>

theorem transition_allowed_exact:
  assumes "dget meta ''oracle_gate'' = PDict d" and "gate_errors (PDict d) = Inr []"
    and "stage_tuple d = Inr sequence" and "operation \<in> set [''promote'', ''claim'', ''run'', ''release'']"
  shows "transition_allowed meta operation = Inr () \<longleftrightarrow>
    dget d ''open_stage'' = PNone \<and> dget_or d ''reconciliation_required'' (PBool False) = PBool False \<and>
    dget d ''completed'' = PList sequence \<and>
    \<not> (is_dict (dget d ''human_session'') \<and> dget (dict_of (dget d ''human_session'')) ''status'' = PStr ''presenting'')"
proof -
  have v: "gate_valid d" using assms(2) by (simp add: gate_errors_Nil)
  then have seq: "sequence = gate_sequence d"
    using assms(3) by (intro stage_tuple_sequence) (simp_all add: gate_valid_def)
  have sub: "set sequence \<subseteq> PStr ` set (GATE_SEQUENCE @ STAGE_GATE_SEQUENCE)"
    unfolding seq using v by (intro gate_sequence_strings) (simp add: gate_valid_def)
  then obtain ss where ss: "sequence = map PStr ss"
    using sequence_as_strings by blast
  have opened: "truthy (dget d ''open_stage'') \<longleftrightarrow> dget d ''open_stage'' \<noteq> PNone"
  proof -
    have "dget d ''open_stage'' \<in> set sequence" if "dget d ''open_stage'' \<noteq> PNone"
      using v that py_in_strings [OF sub] by (auto simp: gate_valid_def seq)
    then show ?thesis
      using sub by (fastforce simp: GATE_SEQUENCE_def STAGE_GATE_SEQUENCE_def)
  qed
  have recon: "truthy (dget_or d ''reconciliation_required'' (PBool False)) \<longleftrightarrow>
      dget_or d ''reconciliation_required'' (PBool False) \<noteq> PBool False"
    using v by (cases "dget_or d ''reconciliation_required'' (PBool False)") (auto simp: gate_valid_def)
  have "dhas d ''completed''" "dget d ''required'' = PBool True"
    using v by (auto simp: gate_valid_def keys_include_iff dhas_dkeys GATE_KEYS_def)
  then show ?thesis
    using assms(1,3,4) opened recon py_eq_strings [of _ ss]
    unfolding transition_allowed_def Let_def by (auto simp: result_simps ss)
qed

theorem transition_allowed_exact_witness:
  "transition_allowed [(''oracle_gate'', PDict fresh_gate)] ''claim'' \<noteq> Inr () \<and>
   transition_allowed [(''oracle_gate'', PDict (dset fresh_gate ''completed'' (PList (map PStr GATE_SEQUENCE))))] ''claim'' = Inr ()"
proof -
  let ?done = "dset fresh_gate ''completed'' (PList (map PStr GATE_SEQUENCE))"
  have seq: "stage_tuple fresh_gate = Inr (map PStr GATE_SEQUENCE)" "stage_tuple ?done = Inr (map PStr GATE_SEQUENCE)"
    by (simp_all add: stage_tuple_def fresh_gate_def)
  have "gate_valid ?done"
    by (simp add: gate_valid_def fresh_gate_def keys_include_def keys_within_def dkeys_def GATE_KEYS_def GATE_OPTIONAL_def
      stage_sequence_bad_def MAX_DISCUSSION_ROUNDS_def human_session_errors_def dset_def gate_sequence_def py_in_def
      list_all_iff list_ex_iff)
  then have "gate_errors (PDict ?done) = Inr []" "gate_errors (PDict fresh_gate) = Inr []"
    by (simp_all add: gate_errors_Nil fresh_gate_valid)
  then show ?thesis
    using transition_allowed_exact [of "[(''oracle_gate'', PDict fresh_gate)]" fresh_gate "map PStr GATE_SEQUENCE" "''claim''"]
      transition_allowed_exact [of "[(''oracle_gate'', PDict ?done)]" ?done "map PStr GATE_SEQUENCE" "''claim''"] seq
    by (simp add: fresh_gate_def GATE_SEQUENCE_def)
qed

text \<open>Reading an event record and writing it again loses nothing: an event accepted by
  \<open>from_record\<close> is read back from its own \<open>as_record\<close> form as the same event.\<close>

theorem event_roundtrip:
  assumes "event_from_record v = Inr e"
  shows "event_from_record (event_record e) = Inr e"
  using assms by (intro event_record_read event_from_record_ok)

theorem event_roundtrip_witness:
  "event_from_record (event_record example_event) = Inr example_event"
  using event_roundtrip [of "event_record example_event" example_event] event_record_read [OF example_event_ok]
  by simp

end
