(* ===== verification/Hierarchy.thy ===== *)
theory Hierarchy
  imports Task_Graph
begin

text \<open>
  Parent and child edges between tasks (\<open>src/tools/hierarchy.py\<close>): the errors of a board's hierarchy
  and the admission of a parent that becomes done. The walk from a task to its ancestors ends because
  the set of tasks it has seen grows within the keys of the parent dictionary.
\<close>

definition TERMINAL_CHILD_STATUSES :: "string list" where
  "TERMINAL_CHILD_STATUSES = [''done'', ''cancelled'', ''superseded'']"

definition is_task_ref :: "pyval \<Rightarrow> bool" where
  "is_task_ref v = (is_str v \<and> is_task_id (str_of v))"

definition children_of :: "meta \<Rightarrow> string list \<times> string list" where
  "children_of meta =
     (let v = dget_or meta ''children'' (PList []) in
      if \<not> is_list v \<or> list_ex (\<lambda>x. \<not> is_task_ref x) (list_of v)
      then ([], [''children must be a list of AR identifiers''])
      else let children = map str_of (list_of v); duplicates = repeated children in
        if duplicates \<noteq> [] then (children, map (\<lambda>x. ''duplicate child '' @ x) duplicates)
        else if id_of meta \<in> set children then (children, [''task cannot be its own child''])
        else (children, []))"

text \<open>The dictionary \<open>by_id\<close> of \<open>hierarchy_errors\<close> is keyed by \<open>str(meta.get("id", ""))\<close>.\<close>

definition known_task :: "task list \<Rightarrow> string \<Rightarrow> meta option" where
  "known_task tasks x = find (\<lambda>m. id_of m = x) (rev (map task_meta tasks))"

definition parent_value :: "meta \<Rightarrow> pyval" where
  "parent_value meta = dget_or meta ''parent_task_ref'' (PStr [])"

text \<open>\<open>str(meta.get("parent_task_ref", ""))\<close>.\<close>

definition parent_text :: "meta \<Rightarrow> string" where
  "parent_text meta = py_str (parent_value meta)"

definition parent_errors :: "task list \<Rightarrow> meta \<Rightarrow> string list" where
  "parent_errors tasks meta =
     (let task_id = id_of meta; parent = parent_value meta in
      if truthy parent \<and> \<not> is_task_ref parent then [task_id @ '': invalid parent_task_ref'']
      else if truthy parent then
        (if py_str parent = task_id then [task_id @ '': parent_task_ref self reference'']
         else if known_task tasks (py_str parent) = None then [task_id @ '': missing parent task '' @ py_str parent]
         else [])
      else [])"

definition child_errors :: "task list \<Rightarrow> meta \<Rightarrow> string list" where
  "child_errors tasks meta =
     (let task_id = id_of meta; (children, errors) = children_of meta in
      map (\<lambda>e. task_id @ '': '' @ e) errors @
      concat (map (\<lambda>child. case known_task tasks child of
          None \<Rightarrow> [task_id @ '': missing child task '' @ child]
        | Some m \<Rightarrow> if parent_text m \<noteq> task_id
            then [task_id @ '': child '' @ child @ '' does not point back to parent''] else []) children))"

text \<open>The dictionaries \<open>parents\<close> and \<open>children_by_parent\<close>, in the order of assignment.\<close>

definition parents_of :: "task list \<Rightarrow> (string \<times> string) list" where
  "parents_of tasks =
     foldl (\<lambda>d t. let m = task_meta t in
        if truthy (parent_value m) \<and> is_task_ref (parent_value m)
        then AList.update (id_of m) (parent_text m) d else d) [] tasks"

definition children_by_parent :: "task list \<Rightarrow> graph" where
  "children_by_parent tasks =
     foldl (\<lambda>d t. AList.update (id_of (task_meta t)) (fst (children_of (task_meta t))) d) [] tasks"

definition unlisted_errors :: "task list \<Rightarrow> string list" where
  "unlisted_errors tasks =
     concat (map (\<lambda>(child, parent).
       if child \<notin> set (graph_get (children_by_parent tasks) parent)
       then [child @ '': parent '' @ parent @ '' does not list child''] else []) (parents_of tasks))"

definition unseen_parents :: "(string \<times> string) list \<Rightarrow> string list \<Rightarrow> nat" where
  "unseen_parents parents seen = length (filter (\<lambda>kv. fst kv \<notin> set seen) parents)"

lemma unseen_parents_decreases:
  assumes "map_of parents x = Some p" and "x \<notin> set seen"
  shows "unseen_parents parents (x # seen) < unseen_parents parents seen"
  unfolding unseen_parents_def
  by (rule length_filter_strict [OF _ map_of_SomeD [OF assms(1)]]) (use assms(2) in auto)

function ancestor_cycle :: "(string \<times> string) list \<Rightarrow> string list \<Rightarrow> string \<Rightarrow> bool" where
  "ancestor_cycle parents seen current =
     (case map_of parents current of
        None \<Rightarrow> False
      | Some p \<Rightarrow> if current \<in> set seen then True else ancestor_cycle parents (current # seen) p)"
  by pat_completeness auto
termination
  by (relation "measure (\<lambda>(parents, seen, current). unseen_parents parents seen)")
    (auto simp: unseen_parents_decreases)

definition hierarchy_errors :: "task list \<Rightarrow> string list" where
  "hierarchy_errors tasks =
     (let parents = parents_of tasks in
      sorted_set (
        concat (map (\<lambda>t. parent_errors tasks (task_meta t) @ child_errors tasks (task_meta t)) tasks) @
        unlisted_errors tasks @
        concat (map (\<lambda>x. if ancestor_cycle parents [] x then [''hierarchy cycle involving '' @ x] else [])
          (sorted_set (map (id_of \<circ> task_meta) tasks)))))"

definition open_child_error :: "meta \<Rightarrow> task list \<Rightarrow> string option result" where
  "open_child_error meta tasks =
     (if dget meta ''status'' \<noteq> PStr ''in_progress'' then Inr None
      else
        bindE (filter_result (\<lambda>m. if parent_text m = id_of meta
            then hash_not_in (dget m ''status'') TERMINAL_CHILD_STATUSES else Inr False)
          (map task_meta tasks)) (\<lambda>open_tasks.
        let children = map id_of open_tasks in
        if children \<noteq> []
        then bindE (ditem meta ''id'') (\<lambda>i.
          Inr (Some (py_str i @ '': cannot complete with open children: '' @ join '', '' (sort children))))
        else Inr None))"

section \<open>Lemmas\<close>

declare ancestor_cycle.simps [simp del]

definition has_parent :: "meta \<Rightarrow> bool" where
  "has_parent m = (truthy (parent_value m) \<and> is_task_ref (parent_value m))"

lemma parents_of_lookup:
  assumes "distinct (map (id_of \<circ> task_meta) tasks)"
  shows "map_of (parents_of tasks) x = Some p \<longleftrightarrow>
    (\<exists>t \<in> set tasks. id_of (task_meta t) = x \<and> has_parent (task_meta t) \<and> parent_text (task_meta t) = p)"
  using assms
proof (induction tasks rule: rev_induct)
  case (snoc t tasks)
  have "map_of (parents_of (tasks @ [t])) x =
      (if has_parent (task_meta t) \<and> x = id_of (task_meta t) then Some (parent_text (task_meta t))
       else map_of (parents_of tasks) x)"
    by (simp add: parents_of_def Let_def has_parent_def update_conv)
  moreover have "\<not> (\<exists>u \<in> set tasks. id_of (task_meta u) = id_of (task_meta t))"
  proof -
    have "id_of (task_meta t) \<notin> set (map (id_of \<circ> task_meta) tasks)"
      using snoc.prems by simp
    then show ?thesis unfolding set_map image_iff comp_def by metis
  qed
  ultimately show ?case
    using snoc by (cases "x = id_of (task_meta t)") auto
qed (simp add: parents_of_def)

lemma children_lookup:
  assumes "distinct (map (id_of \<circ> task_meta) tasks)" "t \<in> set tasks"
  shows "graph_get (children_by_parent tasks) (id_of (task_meta t)) = fst (children_of (task_meta t))"
proof -
  let ?f = "find (\<lambda>u. id_of (task_meta u) = id_of (task_meta t)) (rev tasks)"
  have "?f \<noteq> None" by (rule find_not_None [of t]) (use assms(2) in auto)
  then obtain u where u: "?f = Some u" by auto
  then have "u \<in> set tasks" "id_of (task_meta u) = id_of (task_meta t)"
    using find_Some_mem [OF u] by auto
  then have "u = t" using assms by (auto simp: distinct_map inj_on_def)
  with u show ?thesis
    by (simp add: graph_get_def children_by_parent_def map_of_fold_update)
qed

lemma known_task_Some:
  "known_task tasks x = Some m \<Longrightarrow> \<exists>t \<in> set tasks. task_meta t = m \<and> id_of m = x"
  unfolding known_task_def by (drule find_Some_mem) auto

lemma known_task_distinct:
  assumes "distinct (map (id_of \<circ> task_meta) tasks)" "t \<in> set tasks"
  shows "known_task tasks (id_of (task_meta t)) = Some (task_meta t)"
proof -
  have "known_task tasks (id_of (task_meta t)) \<noteq> None"
    unfolding known_task_def by (rule find_not_None [of "task_meta t"]) (use assms(2) in auto)
  then obtain m where m: "known_task tasks (id_of (task_meta t)) = Some m" by auto
  obtain u where "u \<in> set tasks" "task_meta u = m" "id_of m = id_of (task_meta t)"
    using known_task_Some [OF m] by auto
  then show ?thesis
    using assms m by (auto simp: distinct_map inj_on_def)
qed

text \<open>Tasks whose chain of parents ends.\<close>

inductive rooted :: "(string \<times> string) list \<Rightarrow> string \<Rightarrow> bool" for parents where
  rooted_top: "map_of parents x = None \<Longrightarrow> rooted parents x"
| rooted_child: "map_of parents x = Some p \<Longrightarrow> rooted parents p \<Longrightarrow> rooted parents x"

lemma no_cycle_rooted: "\<not> ancestor_cycle parents seen x \<Longrightarrow> rooted parents x"
proof (induction parents seen x rule: ancestor_cycle.induct)
  case (1 parents seen x)
  from 1(2) show ?case
    by (subst (asm) ancestor_cycle.simps)
      (auto split: option.splits if_splits intro: rooted.intros 1(1))
qed

definition parent_step :: "(string \<times> string) list \<Rightarrow> (string \<times> string) set" where
  "parent_step parents = {(x, p). map_of parents x = Some p}"

lemma rooted_not_cyclic: "rooted parents x \<Longrightarrow> (x, x) \<notin> (parent_step parents)\<^sup>+"
proof (induction rule: rooted.induct)
  case (rooted_top x)
  then show ?case
    by (auto simp: parent_step_def dest!: tranclD)
next
  case (rooted_child x p)
  show ?case
  proof
    assume "(x, x) \<in> (parent_step parents)\<^sup>+"
    then have "(p, x) \<in> (parent_step parents)\<^sup>*"
      using rooted_child.hyps(1) by (auto simp: parent_step_def dest!: tranclD)
    moreover have "(x, p) \<in> parent_step parents"
      using rooted_child.hyps(1) by (simp add: parent_step_def)
    ultimately show False
      using rooted_child.IH by (meson rtrancl_into_trancl1)
  qed
qed

text \<open>The parent relation that the children state, and the one that the parents state.\<close>

definition parent_rel :: "task list \<Rightarrow> (string \<times> string) set" where
  "parent_rel tasks = {(id_of (task_meta t), parent_text (task_meta t)) | t. t \<in> set tasks \<and> truthy (parent_value (task_meta t))}"

definition child_rel :: "task list \<Rightarrow> (string \<times> string) set" where
  "child_rel tasks = {(c, id_of (task_meta t)) | t c. t \<in> set tasks \<and> c \<in> set (fst (children_of (task_meta t)))}"

lemma hierarchy_parts:
  assumes "hierarchy_errors tasks = []"
  shows "t \<in> set tasks \<Longrightarrow> parent_errors tasks (task_meta t) = []"
    "t \<in> set tasks \<Longrightarrow> child_errors tasks (task_meta t) = []"
    "unlisted_errors tasks = []"
    "t \<in> set tasks \<Longrightarrow> \<not> ancestor_cycle (parents_of tasks) [] (id_of (task_meta t))"
  using assms by (auto simp: hierarchy_errors_def Let_def split: if_splits)

lemma parent_ok:
  assumes "parent_errors tasks m = []" "truthy (parent_value m)"
  shows "has_parent m" "\<exists>t \<in> set tasks. id_of (task_meta t) = parent_text m" "parent_text m \<noteq> id_of m"
proof -
  have ref: "is_task_ref (parent_value m)"
    and known: "known_task tasks (parent_text m) \<noteq> None" "parent_text m \<noteq> id_of m"
    using assms by (auto simp: parent_errors_def Let_def parent_text_def split: if_splits)
  then show "has_parent m" "parent_text m \<noteq> id_of m" using assms(2) by (simp_all add: has_parent_def)
  show "\<exists>t \<in> set tasks. id_of (task_meta t) = parent_text m"
    using known(1) known_task_Some by fastforce
qed

lemma child_ok:
  assumes "child_errors tasks m = []" "c \<in> set (fst (children_of m))"
  shows "\<exists>t \<in> set tasks. id_of (task_meta t) = c \<and> parent_text (task_meta t) = id_of m"
proof -
  obtain m' where m': "known_task tasks c = Some m'" "parent_text m' = id_of m"
    using assms by (fastforce simp: child_errors_def Let_def split: prod.splits option.splits if_splits)
  then show ?thesis using known_task_Some by blast
qed

section \<open>Properties\<close>

text \<open>The text of a value that is not true is never a task id.\<close>

lemma task_id_text_truthy: "is_task_id (py_str v) \<Longrightarrow> truthy v"
proof (rule ccontr)
  assume id: "is_task_id (py_str v)" and "\<not> truthy v"
  then have "v \<in> {PNone, PBool False, PInt 0, PStr [], PList [], PDict []}"
    by (cases v) auto
  then have "py_str v \<in> {''None'', ''False'', ''0'', [], ''[]'', ''{}''}"
    by (auto simp: py_str_def show_int_def show_nat.simps digits_def join_def)
  with id show False
    by (auto simp: is_task_id_def starts_with_def)
qed

text \<open>A board without hierarchy errors: the references of the tasks and the loops over them agree.\<close>

lemma parent_step_rel:
  assumes "hierarchy_errors tasks = []" "distinct (map (id_of \<circ> task_meta) tasks)"
  shows "parent_step (parents_of tasks) = parent_rel tasks"
proof -
  have "(x, p) \<in> parent_step (parents_of tasks) \<longleftrightarrow> (x, p) \<in> parent_rel tasks" for x p
    using hierarchy_parts(1) [OF assms(1)] parent_ok(1) parents_of_lookup [OF assms(2)]
    by (fastforce simp: parent_step_def parent_rel_def has_parent_def)
  then show ?thesis by auto
qed

lemma parent_rel_listed:
  assumes "hierarchy_errors tasks = []" "distinct (map (id_of \<circ> task_meta) tasks)"
  shows "parent_rel tasks \<subseteq> child_rel tasks"
proof
  note parts = hierarchy_parts [OF assms(1)]
  fix e assume e: "e \<in> parent_rel tasks"
  then obtain t where t: "t \<in> set tasks" "truthy (parent_value (task_meta t))"
    "e = (id_of (task_meta t), parent_text (task_meta t))"
    by (auto simp: parent_rel_def)
  obtain u where u: "u \<in> set tasks" "id_of (task_meta u) = parent_text (task_meta t)"
    using parent_ok(2) [OF parts(1) [OF t(1)] t(2)] by auto
  have "e \<in> set (parents_of tasks)"
    using e unfolding parent_step_rel [OF assms, symmetric] by (auto simp: parent_step_def intro: map_of_SomeD)
  then have "id_of (task_meta t) \<in> set (graph_get (children_by_parent tasks) (parent_text (task_meta t)))"
    using parts(3) t(3) by (fastforce simp: unlisted_errors_def split: if_splits)
  then have "id_of (task_meta t) \<in> set (fst (children_of (task_meta u)))"
    using u(2) children_lookup [OF assms(2) u(1)] by simp
  then have "(id_of (task_meta t), id_of (task_meta u)) \<in> child_rel tasks"
    using u(1) unfolding child_rel_def by blast
  then show "e \<in> child_rel tasks" using t(3) u(2) by simp
qed

lemma child_rel_named:
  assumes "hierarchy_errors tasks = []" "list_all is_task_id (map (id_of \<circ> task_meta) tasks)"
  shows "child_rel tasks \<subseteq> parent_rel tasks"
proof
  fix e assume "e \<in> child_rel tasks"
  then obtain t c where t: "t \<in> set tasks" "c \<in> set (fst (children_of (task_meta t)))" "e = (c, id_of (task_meta t))"
    by (auto simp: child_rel_def)
  obtain u where u: "u \<in> set tasks" "id_of (task_meta u) = c" "parent_text (task_meta u) = id_of (task_meta t)"
    using child_ok [OF hierarchy_parts(2) [OF assms(1) t(1)] t(2)] by auto
  have "truthy (parent_value (task_meta u))"
    using u(3) t(1) assms(2) by (intro task_id_text_truthy) (auto simp: parent_text_def list_all_iff)
  then have "(id_of (task_meta u), parent_text (task_meta u)) \<in> parent_rel tasks"
    using u(1) unfolding parent_rel_def by blast
  then show "e \<in> parent_rel tasks" using u(2,3) t(3) by simp
qed

lemma parent_rel_on_board:
  assumes "hierarchy_errors tasks = []"
  shows "Field (parent_rel tasks) \<subseteq> set (map (id_of \<circ> task_meta) tasks)"
proof -
  have "parent_text (task_meta t) \<in> set (map (id_of \<circ> task_meta) tasks)"
    if "t \<in> set tasks" "truthy (parent_value (task_meta t))" for t
    using parent_ok(2) [OF hierarchy_parts(1) [OF assms that(1)] that(2)] unfolding set_map image_iff comp_def by metis
  then show ?thesis
    unfolding Field_def parent_rel_def by auto
qed

lemma parent_rel_acyclic:
  assumes "hierarchy_errors tasks = []" "distinct (map (id_of \<circ> task_meta) tasks)"
  shows "acyclic (parent_rel tasks)"
proof -
  have "(x, x) \<notin> (parent_rel tasks)\<^sup>+" for x
  proof
    assume x: "(x, x) \<in> (parent_rel tasks)\<^sup>+"
    then obtain t where "t \<in> set tasks" "id_of (task_meta t) = x"
      by (auto simp: parent_rel_def dest!: tranclD)
    then have "rooted (parents_of tasks) x"
      using hierarchy_parts(4) [OF assms(1)] no_cycle_rooted by blast
    then show False
      using rooted_not_cyclic [of "parents_of tasks" x] x by (simp add: parent_step_rel [OF assms])
  qed
  then show ?thesis by (simp add: acyclic_def)
qed

text \<open>Property C15. On a board whose ids are distinct task ids, no hierarchy error means that the parent
  references and the children lists state the same relation, that every task in it is on the board,
  and that no task is its own ancestor.\<close>

theorem hierarchy_errors_sound:
  assumes "hierarchy_errors tasks = []"
    and "distinct (map (id_of \<circ> task_meta) tasks)" and "list_all is_task_id (map (id_of \<circ> task_meta) tasks)"
  shows "parent_rel tasks = child_rel tasks \<and>
    Field (parent_rel tasks) \<subseteq> set (map (id_of \<circ> task_meta) tasks) \<and> acyclic (parent_rel tasks)"
  using parent_rel_listed [OF assms(1,2)] child_rel_named [OF assms(1,3)] parent_rel_on_board [OF assms(1)]
    parent_rel_acyclic [OF assms(1,2)] by blast

definition example_family :: "task list" where
  "example_family = [
     (''AR-0001.md'', [(''id'', PStr ''AR-0001''), (''children'', PList [PStr ''AR-0002''])], []),
     (''AR-0002.md'', [(''id'', PStr ''AR-0002''), (''parent_task_ref'', PStr ''AR-0001'')], [])]"

theorem hierarchy_errors_sound_witness:
  "hierarchy_errors example_family = [] \<and> parent_rel example_family = child_rel example_family \<and>
   acyclic (parent_rel example_family)"
proof -
  have "hierarchy_errors example_family = []" "distinct (map (id_of \<circ> task_meta) example_family)"
    "list_all is_task_id (map (id_of \<circ> task_meta) example_family)"
    by code_simp+
  with hierarchy_errors_sound [of example_family] show ?thesis by metis
qed

text \<open>A task in progress gets no open-child error exactly when every task of the board that
  names it as parent has a terminal status (done, cancelled or superseded), whenever statuses are
  strings.\<close>

theorem open_child_error_exact:
  assumes "dget meta ''status'' = PStr ''in_progress''" and "dhas meta ''id''"
    and "list_all (\<lambda>t. is_str (dget (task_meta t) ''status'')) tasks"
  shows "open_child_error meta tasks = Inr None \<longleftrightarrow>
    (\<forall>t \<in> set tasks. parent_text (task_meta t) = id_of meta \<longrightarrow>
       str_of (dget (task_meta t) ''status'') \<in> set TERMINAL_CHILD_STATUSES)"
proof -
  let ?q = "\<lambda>m. parent_text m = id_of meta \<and> str_of (dget m ''status'') \<notin> set TERMINAL_CHILD_STATUSES"
  have "filter_result (\<lambda>m. if parent_text m = id_of meta
            then hash_not_in (dget m ''status'') TERMINAL_CHILD_STATUSES else Inr False) (map task_meta tasks) =
      Inr (filter ?q (map task_meta tasks))"
    using assms(3) by (intro filter_result_total) (auto simp: list_all_iff is_str_iff)
  then show ?thesis
    using assms(1,2) by (auto simp: open_child_error_def Let_def ditem_eq filter_empty_conv)
qed

theorem open_child_error_exact_witness:
  "open_child_error [(''id'', PStr ''AR-0001''), (''status'', PStr ''in_progress'')]
     [(''AR-0002.md'', [(''id'', PStr ''AR-0002''), (''status'', PStr ''done''), (''parent_task_ref'', PStr ''AR-0001'')], [])] = Inr None"
proof -
  let ?m = "[(''id'', PStr ''AR-0001''), (''status'', PStr ''in_progress'')]"
  let ?ts = "[(''AR-0002.md'', [(''id'', PStr ''AR-0002''), (''status'', PStr ''done''), (''parent_task_ref'', PStr ''AR-0001'')], [])]"
  show ?thesis
    using open_child_error_exact [of ?m ?ts] by (simp add: task_meta_def TERMINAL_CHILD_STATUSES_def)
qed

end
