(* ===== verification/Session_Records.thy ===== *)
theory Session_Records
  imports Py_Digest Journal
begin

text \<open>
  Work-session snapshots of \<open>src/tools/session_records.py\<close>: the record built from a task's metadata,
  its validation, and the bounded history file of one task.

  A history file is a list of lines; a line is the JSON value it decodes to, or \<open>BadLine\<close> when
  \<open>json.loads\<close> rejects it. Reading back what \<open>json.dumps\<close> wrote gives the written record (a
  dictionary, whose key order Python's equality ignores). The sequence of file system calls of the
  atomic replacement (temporary file, \<open>fsync\<close>, \<open>rename\<close>) is one assignment.
\<close>

datatype jsonl = JsonLine pyval | BadLine

type_synonym history_file = "jsonl list option"

section \<open>Records\<close>

definition SESSION_FIELDS :: "string list" where
  "SESSION_FIELDS = [''schema_version'', ''task'', ''task_revision'', ''recorded_at'', ''trigger'', ''status'',
     ''context_digest'', ''step_state'', ''artifact_refs'', ''next_action'']"

definition TRIGGERS :: "string list" where
  "TRIGGERS = [''update'', ''run'', ''pause'']"

definition MAX_SESSION_RECORDS :: nat where "MAX_SESSION_RECORDS = 32"
definition MAX_SESSION_BYTES :: nat where "MAX_SESSION_BYTES = 4096"

text \<open>\<open>str.isdigit\<close> below code point 256 also holds of the superscripts one, two and three.\<close>

definition py_isdigit :: "string \<Rightarrow> bool" where
  "py_isdigit s = (s \<noteq> [] \<and> list_all (\<lambda>c. is_digit c \<or> (of_char c :: nat) \<in> {178, 179, 185}) s)"

definition session_path :: "string \<Rightarrow> string result" where
  "session_path task_id =
     (if \<not> starts_with task_id ''AR-'' \<or> \<not> py_isdigit (drop 3 task_id)
      then Inl (ValueError ''invalid session task id'')
      else Inr (''sessions/'' @ task_id @ ''.jsonl''))"

text \<open>A non-empty string value with a prefix, as a list of at most one reference.\<close>

definition prefixed_ref :: "string \<Rightarrow> pyval \<Rightarrow> string list" where
  "prefixed_ref tag v = (if is_str v \<and> str_of v \<noteq> [] then [tag @ str_of v] else [])"

text \<open>Iterating a dictionary or a string gives strings, which the comprehension skips.\<close>

definition py_iter_dicts :: "pyval \<Rightarrow> meta list result" where
  "py_iter_dicts v =
     (case v of PList xs \<Rightarrow> Inr (map dict_of (filter is_dict xs))
      | PDict _ \<Rightarrow> Inr [] | PStr _ \<Rightarrow> Inr []
      | _ \<Rightarrow> Inl (TypeError ''object is not iterable''))"

definition ledger_artifact_refs :: "pyval \<Rightarrow> string list result" where
  "ledger_artifact_refs ledger =
     (if \<not> is_dict ledger then Inr []
      else let d = dict_of ledger in
        bindE (py_iter_dicts (dget_or d ''steps'' (PList []))) (\<lambda>steps.
        Inr (prefixed_ref ''candidate:'' (dget d ''candidate_ref'') @
             map (\<lambda>step. ''evidence:'' @ str_of (dget step ''evidence_ref''))
               (filter (\<lambda>step. is_str (dget step ''evidence_ref'')) steps))))"

text \<open>\<open>list(dict.fromkeys(refs))\<close> keeps the first occurrence of each reference.\<close>

fun first_occurrences :: "'a list \<Rightarrow> 'a list" where
  "first_occurrences [] = []"
| "first_occurrences (x # xs) = x # filter (\<lambda>y. y \<noteq> x) (first_occurrences xs)"

definition session_artifact_refs :: "meta \<Rightarrow> string list result" where
  "session_artifact_refs meta =
     bindE (ledger_artifact_refs (dget meta ''evidence_ledger'')) (\<lambda>ledger.
     let acceptance = dget meta ''spec_acceptance'';
         checkpoint = dget meta ''checkpoint_commit'' in
     Inr (take 8 (first_occurrences (
       prefixed_ref ''spec:'' (dget meta ''spec_ref'') @
       prefixed_ref ''envelope:'' (dget meta ''execution_envelope_ref'') @
       (if is_dict acceptance then prefixed_ref ''evidence:'' (dget (dict_of acceptance) ''evidence_ref'') else []) @
       ledger @
       (if is_str checkpoint \<and> all_hex 40 (str_of checkpoint) then [''git:'' @ str_of checkpoint] else [])))))"

definition session_context :: "meta \<Rightarrow> meta" where
  "session_context meta = [
     (''task'', dget meta ''id''),
     (''branch'', dget_or meta ''branch'' (PStr [])),
     (''worktree_key'', dget_or meta ''worktree_key'' (PStr [])),
     (''spec_ref'', dget_or meta ''spec_ref'' (PStr [])),
     (''spec_revision'', dget_or meta ''spec_revision'' (PInt 0)),
     (''execution_envelope_ref'', dget_or meta ''execution_envelope_ref'' (PStr [])),
     (''execution_envelope_revision'', dget_or meta ''execution_envelope_revision'' (PInt 0)),
     (''execution_envelope_digest'', dget_or meta ''execution_envelope_digest'' (PStr []))]"

section \<open>Validation\<close>

definition session_header :: "meta \<Rightarrow> unit result" where
  "session_header r =
     bindE (raise_if (\<not> keys_exact r SESSION_FIELDS) (ValueError ''session record fields are not exact'')) (\<lambda>_.
     bindE (raise_if (\<not> exact_int (dget r ''schema_version'') \<or> int_of (dget r ''schema_version'') \<noteq> 1)
              (ValueError ''unsupported session record schema'')) (\<lambda>_.
     bindE (raise_if (\<not> is_str (dget r ''task'') \<or> \<not> is_task_id (str_of (dget r ''task'')))
              (ValueError ''invalid session record task'')) (\<lambda>_.
     bindE (raise_if (\<not> exact_int (dget r ''task_revision'') \<or> int_of (dget r ''task_revision'') < 1)
              (ValueError ''invalid session record revision'')) (\<lambda>_.
     bindE (raise_if (\<not> is_str (dget r ''recorded_at'') \<or> str_of (dget r ''recorded_at'') = [])
              (ValueError ''invalid session record timestamp'')) (\<lambda>_.
     bindE (hash_not_in (dget r ''trigger'') TRIGGERS) (\<lambda>bad.
     bindE (raise_if bad (ValueError ''invalid session record trigger'')) (\<lambda>_.
     bindE (raise_if (\<not> is_str (dget r ''status'') \<or> str_of (dget r ''status'') = [])
              (ValueError ''invalid session record status'')) (\<lambda>_.
     raise_if (\<not> is_str (dget r ''context_digest'') \<or> \<not> is_digest (str_of (dget r ''context_digest'')))
              (ValueError ''invalid session context digest'')))))))))"

definition session_step_state :: "meta \<Rightarrow> unit result" where
  "session_step_state r =
     (let s = dict_of (dget r ''step_state'') in
      bindE (raise_if (\<not> is_dict (dget r ''step_state'') \<or> \<not> keys_exact s [''status'', ''task_revision''])
               (ValueError ''invalid session step state'')) (\<lambda>_.
      bindE (raise_if (\<not> exact_int (dget s ''task_revision'') \<or> int_of (dget s ''task_revision'') < 1)
               (ValueError ''invalid session step revision'')) (\<lambda>_.
      bindE (raise_if (\<not> py_eq (dget s ''status'') (dget r ''status''))
               (ValueError ''session step status differs from record status'')) (\<lambda>_.
      raise_if (\<not> py_eq (dget s ''task_revision'') (dget r ''task_revision''))
               (ValueError ''session step revision differs from record revision'')))))"

definition session_payload :: "meta \<Rightarrow> unit result" where
  "session_payload r =
     (let refs = dget r ''artifact_refs'' in
      bindE (raise_if (\<not> is_list refs \<or> 8 < length (list_of refs)
                 \<or> \<not> list_all (\<lambda>v. is_str v \<and> str_of v \<noteq> []) (list_of refs))
               (ValueError ''invalid session artifact refs'')) (\<lambda>_.
      bindE (raise_if (\<not> is_str (dget r ''next_action'') \<or> newline \<in> set (str_of (dget r ''next_action''))
                 \<or> 1024 < length (str_of (dget r ''next_action'')))
               (ValueError ''invalid session next action'')) (\<lambda>_.
      raise_if (MAX_SESSION_BYTES < length (canonical (PDict r)))
               (ValueError ''session record exceeds bounded size''))))"

definition validate_session_record :: "meta \<Rightarrow> unit result" where
  "validate_session_record r =
     bindE (session_header r) (\<lambda>_.
     bindE (session_step_state r) (\<lambda>_.
     session_payload r))"

definition build_session_record :: "meta \<Rightarrow> string \<Rightarrow> string \<Rightarrow> meta result" where
  "build_session_record meta trigger recorded_at =
     bindE (raise_if (trigger \<notin> set TRIGGERS) (ValueError ''unknown session trigger'')) (\<lambda>_.
     bindE (ditem meta ''id'') (\<lambda>task.
     bindE (bindE (ditem meta ''task_revision'') py_int) (\<lambda>revision.
     bindE (ditem meta ''status'') (\<lambda>status.
     bindE (session_artifact_refs meta) (\<lambda>refs.
     let record = [
       (''schema_version'', PInt 1),
       (''task'', PStr (py_str task)),
       (''task_revision'', PInt revision),
       (''recorded_at'', PStr recorded_at),
       (''trigger'', PStr trigger),
       (''status'', PStr (py_str status)),
       (''context_digest'', PStr (digest (PDict (session_context meta)))),
       (''step_state'', PDict [(''status'', PStr (py_str status)), (''task_revision'', PInt revision)]),
       (''artifact_refs'', PList (map PStr refs)),
       (''next_action'', PStr (py_str (dget_or meta ''next_action'' (PStr []))))]
     in bindE (validate_session_record record) (\<lambda>_. Inr record))))))"

section \<open>The history of one task\<close>

text \<open>One line of the loop of \<open>decode_session_lines\<close>: the state is the revisions seen so far and the
  records read so far; the line number only appears in the message.\<close>

definition line_error :: "string \<Rightarrow> nat \<Rightarrow> exc" where
  "line_error text number = ValueError (text @ show_nat number)"

fun decode_lines ::
  "string option \<Rightarrow> nat \<Rightarrow> jsonl list \<Rightarrow> int list \<Rightarrow> meta list \<Rightarrow> meta list result" where
  "decode_lines bound_task number [] revisions records = Inr records"
| "decode_lines bound_task number (BadLine # ls) revisions records =
     Inl (line_error ''invalid session record line '' number)"
| "decode_lines bound_task number (JsonLine v # ls) revisions records =
     (if \<not> is_dict v then Inl (line_error ''invalid session record line '' number)
      else let r = dict_of v in
        bindE (validate_session_record r) (\<lambda>_.
        bindE (raise_if (case bound_task of None \<Rightarrow> False | Some t \<Rightarrow> dget r ''task'' \<noteq> PStr t)
                 (line_error ''session record task differs from history at line '' number)) (\<lambda>_.
        let revision = int_of (dget r ''task_revision'') in
        bindE (raise_if (revision \<in> set revisions)
                 (line_error ''duplicate session revision at line '' number)) (\<lambda>_.
        decode_lines bound_task (Suc number) ls (revision # revisions) (records @ [r])))))"

definition decode_session_lines :: "string \<Rightarrow> history_file \<Rightarrow> string option \<Rightarrow> meta list result" where
  "decode_session_lines stem file expected_task =
     (case file of None \<Rightarrow> Inr []
      | Some ls \<Rightarrow>
          bindE (raise_if (MAX_SESSION_RECORDS < length ls)
                   (ValueError ''session history exceeds bounded retention'')) (\<lambda>_.
          let bound_task = (case expected_task of Some t \<Rightarrow> Some t
                | None \<Rightarrow> if is_task_id stem then Some stem else None) in
          bindE (raise_if (case bound_task of None \<Rightarrow> False | Some t \<Rightarrow> \<not> is_task_id t)
                   (ValueError ''invalid expected session task'')) (\<lambda>_.
          decode_lines bound_task 1 ls [] [])))"

text \<open>The files under a root directory, by path.\<close>

type_synonym files = "string \<Rightarrow> history_file"

definition append_session_record :: "files \<Rightarrow> meta \<Rightarrow> files result" where
  "append_session_record root record =
     bindE (validate_session_record record) (\<lambda>_.
     let task = py_str (dget record ''task'') in
     bindE (session_path task) (\<lambda>path.
     bindE (decode_session_lines task (root path) (Some task)) (\<lambda>records.
     bindE (raise_if (list_ex (\<lambda>item. py_eq (dget item ''task_revision'') (dget record ''task_revision'')) records)
              (ValueError ''duplicate session revision'')) (\<lambda>_.
     Inr (root(path := Some (map (\<lambda>r. JsonLine (PDict r)) (keep_last MAX_SESSION_RECORDS (records @ [record])))))))))"

definition load_session :: "files \<Rightarrow> string \<Rightarrow> meta list result" where
  "load_session root task_id =
     bindE (session_path task_id) (\<lambda>path. decode_session_lines task_id (root path) (Some task_id))"

definition latest_session :: "files \<Rightarrow> string \<Rightarrow> meta option result" where
  "latest_session root task_id =
     bindE (load_session root task_id) (\<lambda>records.
     Inr (if records = [] then None else Some (last records)))"

section \<open>Lemmas\<close>

definition session_revision :: "meta \<Rightarrow> int" where
  "session_revision r = int_of (dget r ''task_revision'')"

definition session_task :: "meta \<Rightarrow> string" where
  "session_task r = py_str (dget r ''task'')"

text \<open>What decoding accepts: valid records of the bound task with distinct revisions.\<close>

lemma decode_lines_Inr:
  "decode_lines b n ls revs recs = Inr out \<longleftrightarrow>
     (\<exists>rs. ls = map (\<lambda>r. JsonLine (PDict r)) rs \<and> out = recs @ rs \<and>
       (\<forall>r \<in> set rs. validate_session_record r = Inr () \<and> (\<forall>t. b = Some t \<longrightarrow> dget r ''task'' = PStr t)) \<and>
       distinct (map session_revision rs) \<and> set (map session_revision rs) \<inter> set revs = {})"
proof (induction ls arbitrary: n revs recs)
  case (Cons l ls)
  consider "l = BadLine" | v where "l = JsonLine v" "\<not> is_dict v" | d where "l = JsonLine (PDict d)"
    by (cases l) (auto simp: is_dict_iff)
  then show ?case
  proof cases
    case (3 d)
    have "decode_lines b n (JsonLine (PDict d) # ls) revs recs = Inr out \<longleftrightarrow>
        validate_session_record d = Inr () \<and> (\<forall>t. b = Some t \<longrightarrow> dget d ''task'' = PStr t) \<and>
        session_revision d \<notin> set revs \<and>
        decode_lines b (Suc n) ls (session_revision d # revs) (recs @ [d]) = Inr out"
      by (auto simp: result_simps Let_def session_revision_def split: option.splits)
    also have "\<dots> \<longleftrightarrow> (\<exists>rs. JsonLine (PDict d) # ls = map (\<lambda>r. JsonLine (PDict r)) rs \<and> out = recs @ rs \<and>
       (\<forall>r \<in> set rs. validate_session_record r = Inr () \<and> (\<forall>t. b = Some t \<longrightarrow> dget r ''task'' = PStr t)) \<and>
       distinct (map session_revision rs) \<and> set (map session_revision rs) \<inter> set revs = {})"
    proof (cases "validate_session_record d = Inr () \<and> (\<forall>t. b = Some t \<longrightarrow> dget d ''task'' = PStr t) \<and>
        session_revision d \<notin> set revs")
      case True
      have IH: "decode_lines b (Suc n) ls (session_revision d # revs) (recs @ [d]) = Inr out \<longleftrightarrow>
         (\<exists>rs. ls = map (\<lambda>r. JsonLine (PDict r)) rs \<and> out = (recs @ [d]) @ rs \<and>
          (\<forall>r \<in> set rs. validate_session_record r = Inr () \<and> (\<forall>t. b = Some t \<longrightarrow> dget r ''task'' = PStr t)) \<and>
          distinct (map session_revision rs) \<and> set (map session_revision rs) \<inter> set (session_revision d # revs) = {})"
        by (rule Cons.IH)
      show ?thesis
        unfolding IH using True by (fastforce simp: Cons_eq_map_conv)
    next
      case False
      then show ?thesis by (auto simp: Cons_eq_map_conv)
    qed
    finally show ?thesis using 3 by simp
  qed (auto simp: Cons_eq_map_conv)
qed auto

lemma session_valid_task:
  "validate_session_record r = Inr () \<Longrightarrow>
     \<exists>t. dget r ''task'' = PStr t \<and> is_task_id t \<and> session_task r = t \<and> exact_int (dget r ''task_revision'')"
  by (auto simp: validate_session_record_def session_header_def result_simps is_str_iff session_task_def)

lemma session_path_task [simp]: "is_task_id t \<Longrightarrow> session_path t = Inr (''sessions/'' @ t @ ''.jsonl'')"
proof -
  assume "is_task_id t"
  then have "starts_with t ''AR-''" "length (drop 3 t) = 4" "list_all is_digit (drop 3 t)"
    by (simp_all add: is_task_id_def)
  then show ?thesis
    by (auto simp: session_path_def py_isdigit_def list_all_iff)
qed

lemma session_path_eq: "session_path t = Inr p \<Longrightarrow> p = ''sessions/'' @ t @ ''.jsonl''"
  by (auto simp: session_path_def split: if_splits)

text \<open>What a load of a task's history returns, and that the file written by an append is accepted by
  the next load.\<close>

lemma decode_session_Inr:
  "decode_session_lines t f (Some t) = Inr rs \<longleftrightarrow>
     (f = None \<and> rs = []) \<or>
     (f = Some (map (\<lambda>r. JsonLine (PDict r)) rs) \<and> length rs \<le> MAX_SESSION_RECORDS \<and> is_task_id t \<and>
      (\<forall>r \<in> set rs. validate_session_record r = Inr () \<and> dget r ''task'' = PStr t) \<and>
      distinct (map session_revision rs))"
  by (cases f) (auto simp: decode_session_lines_def result_simps Let_def decode_lines_Inr not_less)

definition session_accepts :: "meta \<Rightarrow> meta list \<Rightarrow> bool" where
  "session_accepts r rs =
     (validate_session_record r = Inr () \<and> session_revision r \<notin> set (map session_revision rs))"

lemma py_eq_exact_int: "exact_int a \<Longrightarrow> exact_int b \<Longrightarrow> py_eq a b \<longleftrightarrow> int_of a = int_of b"
  by (auto simp: exact_int_iff)

lemma append_session_Inr:
  "append_session_record root r = Inr root' \<longleftrightarrow>
     (\<exists>rs. load_session root (session_task r) = Inr rs \<and> session_accepts r rs \<and>
       root' = root(''sessions/'' @ session_task r @ ''.jsonl'' :=
         Some (map (\<lambda>r. JsonLine (PDict r)) (keep_last MAX_SESSION_RECORDS (rs @ [r])))))"
proof (cases "validate_session_record r = Inr ()")
  case True
  then obtain t where t: "dget r ''task'' = PStr t" "is_task_id t" "session_task r = t"
    "exact_int (dget r ''task_revision'')"
    using session_valid_task by blast
  have same: "list_ex (\<lambda>item. py_eq (dget item ''task_revision'') (dget r ''task_revision'')) rs \<longleftrightarrow>
      session_revision r \<in> set (map session_revision rs)"
    if "decode_session_lines t f (Some t) = Inr rs" for f rs
  proof -
    have "py_eq (dget item ''task_revision'') (dget r ''task_revision'') \<longleftrightarrow> session_revision item = session_revision r"
      if "item \<in> set rs" for item
      using that \<open>decode_session_lines t f (Some t) = Inr rs\<close> session_valid_task [of item] t(4)
      by (auto simp: decode_session_Inr session_revision_def py_eq_exact_int)
    then show ?thesis unfolding list_ex_iff set_map image_iff by metis
  qed
  show ?thesis
    using True t same
    by (auto simp: append_session_record_def load_session_def Let_def result_simps session_accepts_def)
next
  case False
  then show ?thesis
    by (auto simp: append_session_record_def session_accepts_def result_simps)
qed

interpretation sessions: bounded_history append_session_record load_session session_task session_accepts
  MAX_SESSION_RECORDS
proof
  fix h r h'
  assume "append_session_record h r = Inr h'"
  then obtain rs where rs: "load_session h (session_task r) = Inr rs" "session_accepts r rs"
    "h' = h(''sessions/'' @ session_task r @ ''.jsonl'' :=
         Some (map (\<lambda>r. JsonLine (PDict r)) (keep_last MAX_SESSION_RECORDS (rs @ [r]))))"
    by (auto simp: append_session_Inr)
  obtain t where t: "dget r ''task'' = PStr t" "is_task_id t" "session_task r = t"
    using rs(2) session_valid_task by (auto simp: session_accepts_def)
  have "decode_session_lines t (h (''sessions/'' @ t @ ''.jsonl'')) (Some t) = Inr rs"
    using rs(1) t by (simp add: load_session_def)
  then have old: "\<forall>x \<in> set rs. validate_session_record x = Inr () \<and> dget x ''task'' = PStr t"
    "distinct (map session_revision rs)"
    by (auto simp: decode_session_Inr)
  have "distinct (map session_revision (keep_last MAX_SESSION_RECORDS (rs @ [r])))"
    using old rs(2) by (auto simp: map_keep_last session_accepts_def intro!: distinct_keep_last)
  moreover have "validate_session_record x = Inr () \<and> dget x ''task'' = PStr t"
    if "x \<in> set (keep_last MAX_SESSION_RECORDS (rs @ [r]))" for x
    using that old(1) rs(2) t(1) set_keep_last [of MAX_SESSION_RECORDS "rs @ [r]"]
    by (auto simp: session_accepts_def)
  ultimately have "load_session h' t = Inr (keep_last MAX_SESSION_RECORDS (rs @ [r]))"
    using t rs(3) by (simp add: load_session_def decode_session_Inr)
  then show "\<exists>rs. load_session h (session_task r) = Inr rs \<and> session_accepts r rs \<and>
      load_session h' (session_task r) = Inr (keep_last MAX_SESSION_RECORDS (rs @ [r]))"
    using rs t(3) by blast
next
  fix h r h' k
  assume "append_session_record h r = Inr h'" "k \<noteq> session_task r"
  then show "load_session h' k = load_session h k"
    by (cases "session_path k") (auto simp: append_session_Inr load_session_def dest: session_path_eq)
next
  fix h r rs
  assume "load_session h (session_task r) = Inr rs" "session_accepts r rs"
  then show "\<exists>h'. append_session_record h r = Inr h'"
    by (auto simp: append_session_Inr)
next
  fix h k rs
  assume "load_session h k = Inr rs"
  then show "length rs \<le> MAX_SESSION_RECORDS"
    by (auto simp: load_session_def result_simps decode_session_Inr)
qed (simp add: MAX_SESSION_RECORDS_def)

lemma build_session_Inr:
  "build_session_record meta trigger at = Inr r \<Longrightarrow>
     validate_session_record r = Inr () \<and> session_task r = py_str (dget meta ''id'') \<and>
     dget r ''status'' = PStr (py_str (dget meta ''status'')) \<and>
     py_int (dget meta ''task_revision'') = Inr (session_revision r)"
  by (auto simp: build_session_record_def result_simps Let_def ditem_eq session_task_def session_revision_def)

section \<open>Properties\<close>

text \<open>Property C18. A snapshot that \<open>build_session_record\<close> returns is valid and carries the task's id,
  status and revision; appending it succeeds exactly when the task's history holds no record of that
  revision, and the history then returns it as the latest session.\<close>

theorem session_snapshot_latest:
  assumes "build_session_record meta trigger at = Inr r"
    and "load_session root (py_str (dget meta ''id'')) = Inr rs"
  shows "(if session_revision r \<in> set (map session_revision rs)
          then \<not> succeeds (append_session_record root r)
          else \<exists>root'. append_session_record root r = Inr root' \<and>
                 latest_session root' (py_str (dget meta ''id'')) = Inr (Some r))
      \<and> dget r ''status'' = PStr (py_str (dget meta ''status''))
      \<and> py_int (dget meta ''task_revision'') = Inr (session_revision r)"
proof -
  note b = build_session_Inr [OF assms(1)]
  have iff: "(\<exists>root'. append_session_record root r = Inr root') \<longleftrightarrow> session_accepts r rs"
    using assms(2) b by (intro sessions.append_iff) simp
  have "latest_session root' (session_task r) = Inr (Some r)" if "append_session_record root r = Inr root'" for root'
    using sessions.append_load [OF that] sessions.append_latest [OF that]
    by (auto simp: latest_session_def)
  then show ?thesis
    using iff b by (auto simp: session_accepts_def succeeds_iff)
qed

definition example_task :: meta where
  "example_task = [(''id'', PStr ''AR-0007''), (''task_revision'', PInt 3), (''status'', PStr ''in_progress''),
     (''next_action'', PStr ''run the tests'')]"

lemma hex_json [simp]: "list_all is_lower_hex w \<Longrightarrow> concat (map json_char w) = w"
proof (induction w)
  case (Cons c w)
  then show ?case
    by (auto simp: is_lower_hex_def lower_hex_def json_char_def)
qed simp

lemma json_digest: "length (json_str (digest v)) = 73"
proof -
  have "list_all is_lower_hex (sha256_hex (canonical v))" "length (sha256_hex (canonical v)) = 64"
    using sha256_hex_shape [of "canonical v"] by (simp_all add: all_hex_def)
  then show ?thesis
    by (simp add: digest_def json_str_def) (simp add: json_char_def)
qed

lemma example_task_builds: "\<exists>r. build_session_record example_task ''update'' ''t'' = Inr r"
proof -
  have "is_digest (digest v)" for v by simp
  then show ?thesis
    unfolding build_session_record_def example_task_def
    by (simp add: result_simps Let_def TRIGGERS_def session_artifact_refs_def ledger_artifact_refs_def
        prefixed_ref_def validate_session_record_def session_header_def keys_exact_def SESSION_FIELDS_def dkeys_def
        is_task_id_def starts_with_def is_digit_def digits_def session_step_state_def session_payload_def newline_def
        MAX_SESSION_BYTES_def)
      (simp add: join_def json_digest, simp add: json_str_def json_char_def show_int_def show_nat.simps)
qed

theorem session_snapshot_latest_witness:
  "\<exists>r root'. build_session_record example_task ''update'' ''t'' = Inr r \<and>
     append_session_record (\<lambda>_. None) r = Inr root' \<and> latest_session root' ''AR-0007'' = Inr (Some r)"
proof -
  obtain r where "build_session_record example_task ''update'' ''t'' = Inr r"
    using example_task_builds by blast
  moreover have "load_session (\<lambda>_. None) (py_str (dget example_task ''id'')) = Inr []"
    by (simp add: load_session_def decode_session_Inr example_task_def is_task_id_def starts_with_def
        is_digit_def digits_def)
  ultimately show ?thesis
    using session_snapshot_latest [of example_task "''update''" "''t''" r "\<lambda>_. None" "[]"]
    by (auto simp: example_task_def)
qed

end
