(* ===== verification/Lifecycle.thy ===== *)
theory Lifecycle
  imports Execution_Fence Predicate_Ledger Assumptions Change_Drift Retry_Circuit Autonomy_Limits Oracle_Gates Hierarchy Session_Records
begin

text \<open>
  The lifecycle of a task: the \<open>apply_*\<close> handlers of \<open>src/tools/handoffctl.py\<close> and the dispatcher
  \<open>apply_transition\<close> that every task mutation goes through, with \<open>src/tools/legacy_binding_repair.py\<close>.

  A handler takes the parsed arguments and the metadata of the selected task and returns the updated
  metadata with the note that is appended to the task body, or the exception it raises. What it reads
  besides is the world record: clock, processes and roles (\<open>runtime\<close>), the session store, the state
  root, the private configuration, Git.
\<close>

section \<open>The world\<close>

text \<open>\<open>w_sessions\<close> is \<open>load_session_records\<close> of the storage backend. \<open>w_config\<close> is the private configuration,
  \<open>None\<close> when the file is missing. \<open>w_ref_format\<close> tells whether \<open>git check-ref-format --branch\<close> accepts a
  branch and echoes it; \<open>w_direct root key\<close> whether the key is no link and lies inside the root.\<close>

record world =
  w_rt :: runtime
  w_sessions :: "string \<Rightarrow> meta list result"
  w_envelopes :: "string \<Rightarrow> envelope_source"
  w_root :: project_root
  w_policy :: policy_source
  w_config :: "meta option"
  w_ref_format :: "string \<Rightarrow> bool"
  w_direct :: "string \<Rightarrow> string \<Rightarrow> bool"
  w_observer :: "string \<Rightarrow> observer"
  w_worktrees :: "string \<Rightarrow> string \<Rightarrow> git_worktree option"

definition projects_root :: "world \<Rightarrow> string result" where
  "projects_root w =
     (case w_config w of None \<Rightarrow> Inl (RuntimeError ''missing private runtime config'')
      | Some settings \<Rightarrow> bindE (ditem settings ''projects_root'') (\<lambda>v. Inr (py_str v)))"

text \<open>\<open>except GateError as error: raise RuntimeError(str(error))\<close>.\<close>

definition gate_to_runtime :: "'a result \<Rightarrow> 'a result" where
  "gate_to_runtime m = catchE m (\<lambda>e. if is_gate_error e then Inl (RuntimeError (exc_message e)) else Inl e)"

definition noted :: "namespace \<Rightarrow> string \<Rightarrow> unit result" where
  "noted args text = raise_if (strip (arg_str args ''note'') = []) (RuntimeError text)"

definition require_status :: "meta \<Rightarrow> string \<Rightarrow> string \<Rightarrow> unit result" where
  "require_status meta status text = raise_if (dget meta ''status'' \<noteq> PStr status) (RuntimeError text)"

definition require_unclaimed :: "meta \<Rightarrow> string \<Rightarrow> unit result" where
  "require_unclaimed meta text = raise_if (truthy (dget meta ''owner'') \<or> truthy (dget meta ''claim_expires'')) (RuntimeError text)"

definition clear_claim :: "meta \<Rightarrow> pyval \<Rightarrow> meta" where
  "clear_claim meta status =
     dpop (dset (dset (dset meta ''status'' status) ''owner'' (PStr [])) ''claim_expires'' (PStr [])) ''claim_process''"

section \<open>Admission to done\<close>

definition assumption_freshness :: "world \<Rightarrow> meta \<Rightarrow> meta list \<Rightarrow> string option result" where
  "assumption_freshness w meta tasks =
     bindE (needs_admission meta) (\<lambda>needed.
     if needed then bindE (projects_root w) (\<lambda>root. assumption_admission_error (w_observer w root) meta tasks) else Inr None)"

definition deny :: "string option \<Rightarrow> unit result" where
  "deny error = (case error of None \<Rightarrow> Inr () | Some m \<Rightarrow> raise_if (m \<noteq> []) (RuntimeError m))"

definition require_done_admission :: "world \<Rightarrow> meta \<Rightarrow> task list \<Rightarrow> evidence_policy option \<Rightarrow> unit result" where
  "require_done_admission w meta tasks policy =
     (if dget meta ''status'' \<noteq> PStr ''in_progress'' then Inr ()
      else
        bindE (bindE (done_admission_error (w_root w) (w_policy w) meta policy) deny) (\<lambda>_.
        bindE (bindE (open_child_error meta tasks) deny) (\<lambda>_.
        bindE (bindE (drift_done_error meta) deny) (\<lambda>_.
        bindE (assumption_freshness w meta (map task_meta tasks)) deny))))"

definition require_release_admission :: "world \<Rightarrow> string \<Rightarrow> pyval \<Rightarrow> meta \<Rightarrow> task list \<Rightarrow> evidence_policy option \<Rightarrow> unit result" where
  "require_release_admission w kind status meta tasks policy =
     (if kind = ''release'' \<and> status = PStr ''done'' then require_done_admission w meta tasks policy else Inr ())"

section \<open>Claiming and promoting\<close>

definition pending_dependencies :: "meta \<Rightarrow> task list \<Rightarrow> string list result" where
  "pending_dependencies meta tasks =
     bindE (py_iter (dget_or meta ''depends_on'' (PList []))) (\<lambda>items.
     if list_all is_str items then Inr (filter (\<lambda>d. \<not> dependency_satisfied d tasks) (map str_of items))
     else Inl (TypeError ''sequence item: expected str instance''))"

definition require_dependencies :: "meta \<Rightarrow> task list \<Rightarrow> unit result" where
  "require_dependencies meta tasks =
     bindE (pending_dependencies meta tasks) (\<lambda>pending.
     raise_if (pending \<noteq> []) (RuntimeError (''unfinished dependencies: '' @ join '', '' pending)))"

definition held_tasks :: "namespace \<Rightarrow> task list \<Rightarrow> pyval list result" where
  "held_tasks args tasks =
     bindE (filter_result (\<lambda>t. let item = task_meta t in
        if dget item ''status'' = PStr ''in_progress'' \<and> py_eq (dget item ''owner'') (dget args ''owner'')
        then bindE (ditem item ''id'') (\<lambda>i. Inr (\<not> py_eq i (dget args ''task''))) else Inr False) tasks) (\<lambda>held.
     Inr (map (\<lambda>t. dget (task_meta t) ''id'') held))"

definition apply_claim :: "world \<Rightarrow> namespace \<Rightarrow> meta \<Rightarrow> task list \<Rightarrow> (meta \<times> string) result" where
  "apply_claim w args meta tasks =
     bindE (if dget args ''_receipt_id'' \<noteq> PNone then require_revision args meta else Inr ()) (\<lambda>_.
     bindE (raise_if (int_of (dget args ''lease_minutes'') \<le> 0) (RuntimeError ''lease must be positive'')) (\<lambda>_.
     bindE (require_status meta ''open'' (py_str (dget args ''task'') @ '' is not open'')) (\<lambda>_.
     bindE (require_role_admission (w_rt w) (py_str (dget args ''owner''))) (\<lambda>_.
     bindE (require_dependencies meta tasks) (\<lambda>_.
     bindE (gate_to_runtime (transition_allowed meta ''claim'')) (\<lambda>_.
     bindE (held_tasks args tasks) (\<lambda>held.
     bindE (raise_if (held \<noteq> []) (RuntimeError (''owner already holds '' @ py_str (hd held)))) (\<lambda>_.
     bindE (attach_claim_process (w_rt w) args (dset (dset meta ''owner'' (dget args ''owner'')) ''status'' (PStr ''in_progress''))) (\<lambda>meta1.
     bindE (lease_text (w_rt w) (dget args ''lease_minutes'')) (\<lambda>expiry.
     Inr (dset meta1 ''claim_expires'' expiry, ''Claimed by '' @ py_str (dget args ''owner'') @ ''.'')))))))))))"

definition apply_promote :: "namespace \<Rightarrow> meta \<Rightarrow> task list \<Rightarrow> (meta \<times> string) result" where
  "apply_promote args meta tasks =
     bindE (require_revision args meta) (\<lambda>_.
     bindE (require_status meta ''planned'' (py_str (dget args ''task'') @ '' is not planned'')) (\<lambda>_.
     bindE (require_unclaimed meta (py_str (dget args ''task'') @ '' has active claim metadata'')) (\<lambda>_.
     bindE (require_dependencies meta tasks) (\<lambda>_.
     bindE (gate_to_runtime (transition_allowed meta ''promote'')) (\<lambda>_.
     bindE (noted args ''promotion note must not be empty'') (\<lambda>_.
     Inr (dset meta ''status'' (PStr ''open''), arg_str args ''note'')))))))"

section \<open>Pausing and reopening\<close>

definition apply_pause :: "world \<Rightarrow> namespace \<Rightarrow> meta \<Rightarrow> (meta \<times> string) result" where
  "apply_pause w args meta =
     bindE (require_owner args meta) (\<lambda>_.
     bindE (require_role_admission (w_rt w) (py_str (dget args ''owner''))) (\<lambda>_.
     bindE (require_no_execution_reservation meta) (\<lambda>_.
     bindE (require_revision args meta) (\<lambda>_.
     bindE (require_status meta ''in_progress'' (py_str (dget args ''task'') @ '' is not in progress'')) (\<lambda>_.
     bindE (noted args ''pause note must not be empty'') (\<lambda>_.
     Inr (clear_claim meta (PStr ''blocked''), arg_str args ''note'')))))))"

text \<open>\<open>^(AR-[0-9]{4})@([1-9][0-9]*)$\<close>: the task and the revision of a session reference.\<close>

definition session_reference :: "string \<Rightarrow> (string \<times> int) option" where
  "session_reference s =
     (case partition_char CHR ''@'' s of (task, found, ds) \<Rightarrow>
        if found \<and> is_task_id task \<and> ds \<noteq> [] \<and> list_all is_digit ds \<and> hd ds \<noteq> CHR ''0''
        then Some (task, int (nat_of_digits ds)) else None)"

definition coherent_pause_session :: "meta \<Rightarrow> string \<Rightarrow> int \<Rightarrow> bool" where
  "coherent_pause_session r task_id revision =
     (let step_state = dget r ''step_state'' in
      dget r ''task'' = PStr task_id \<and> dget r ''trigger'' = PStr ''pause'' \<and> dget r ''status'' = PStr ''blocked'' \<and> is_dict step_state
      \<and> dget (dict_of step_state) ''status'' = PStr ''blocked'' \<and> py_eq (dget (dict_of step_state) ''task_revision'') (PInt revision))"

text \<open>The validated snapshots at one revision; \<open>except ValueError\<close> replaces the error.\<close>

definition sessions_at :: "world \<Rightarrow> string \<Rightarrow> int \<Rightarrow> string \<Rightarrow> meta list result" where
  "sessions_at w task_id revision malformed =
     value_to (RuntimeError malformed)
       (bindE (w_sessions w task_id) (\<lambda>rs.
        let current = filter (\<lambda>r. py_eq (dget r ''task_revision'') (PInt revision)) rs in
        bindE (for_each validate_session_record current) (\<lambda>_. Inr current)))"

definition session_for_reference :: "world \<Rightarrow> string \<Rightarrow> string \<Rightarrow> meta result" where
  "session_for_reference w task_id reference =
     (case session_reference reference of
        None \<Rightarrow> Inl (RuntimeError ''session reference must use TASK@REVISION for the target task'')
      | Some (task, revision) \<Rightarrow>
          if task \<noteq> task_id then Inl (RuntimeError ''session reference must use TASK@REVISION for the target task'')
          else
            bindE (sessions_at w task_id revision ''session provenance is malformed'') (\<lambda>current.
            bindE (raise_if (current = []) (RuntimeError ''no session snapshot at requested revision'')) (\<lambda>_.
            bindE (raise_if (length current \<noteq> 1) (RuntimeError ''session provenance is ambiguous'')) (\<lambda>_.
            bindE (raise_if (\<not> coherent_pause_session (hd current) task_id revision)
                     (RuntimeError ''session reference is not a coherent paused snapshot'')) (\<lambda>_.
            Inr (hd current))))))"

definition apply_resume :: "world \<Rightarrow> namespace \<Rightarrow> meta \<Rightarrow> (meta \<times> string) result" where
  "apply_resume w args meta =
     bindE (require_revision args meta) (\<lambda>_.
     bindE (require_status meta ''blocked'' (py_str (dget args ''task'') @ '' is not blocked'')) (\<lambda>_.
     bindE (require_unclaimed meta (py_str (dget args ''task'') @ '' has active claim metadata'')) (\<lambda>_.
     bindE (session_for_reference w (arg_str args ''task'') (arg_str args ''session'')) (\<lambda>r.
     bindE (ditem r ''task_revision'') (\<lambda>revision.
     bindE (raise_if (\<not> py_eq revision (dget args ''expected_revision''))
              (RuntimeError ''session snapshot revision does not match expected revision'')) (\<lambda>_.
     bindE (noted args ''resume note must not be empty'') (\<lambda>_.
     bindE (ditem r ''next_action'') (\<lambda>action.
     Inr (dset (dset meta ''next_action'' (PStr (py_str action))) ''status'' (PStr ''open''), arg_str args ''note'')))))))))"

definition blocked_provenance :: "world \<Rightarrow> string \<Rightarrow> int \<Rightarrow> string result" where
  "blocked_provenance w task_id revision =
     bindE (sessions_at w task_id revision ''blocked provenance is malformed'') (\<lambda>current.
     if current = [] then Inr ''external''
     else
       bindE (raise_if (length current \<noteq> 1) (RuntimeError ''blocked provenance is ambiguous'')) (\<lambda>_.
       bindE (raise_if (\<not> coherent_pause_session (hd current) task_id revision) (RuntimeError ''blocked provenance is ambiguous'')) (\<lambda>_.
       Inr ''pause'')))"

definition apply_unblock :: "world \<Rightarrow> namespace \<Rightarrow> meta \<Rightarrow> (meta \<times> string) result" where
  "apply_unblock w args meta =
     bindE (require_revision args meta) (\<lambda>_.
     bindE (require_status meta ''blocked'' (py_str (dget args ''task'') @ '' is not blocked'')) (\<lambda>_.
     bindE (require_unclaimed meta (py_str (dget args ''task'') @ '' has active claim metadata'')) (\<lambda>_.
     bindE (py_int (dget meta ''task_revision'')) (\<lambda>revision.
     bindE (blocked_provenance w (arg_str args ''task'') revision) (\<lambda>provenance.
     bindE (raise_if (provenance \<noteq> ''external'') (RuntimeError ''task is paused; use resume with its exact session reference'')) (\<lambda>_.
     bindE (noted args ''unblock note must not be empty'') (\<lambda>_.
     Inr (dset meta ''status'' (PStr ''open''), arg_str args ''note''))))))))"

definition current_recovery_session :: "meta list \<Rightarrow> int \<Rightarrow> meta option result" where
  "current_recovery_session rs revision =
     bindE (for_each (\<lambda>r. bindE (validate_session_record r) (\<lambda>_.
        raise_if (revision < int_of (dget r ''task_revision'')) (RuntimeError ''session snapshot revision is newer than the task''))) rs) (\<lambda>_.
     Inr (find (\<lambda>r. py_eq (dget r ''task_revision'') (PInt revision)) (rev rs)))"

definition apply_recover_expired :: "world \<Rightarrow> namespace \<Rightarrow> meta \<Rightarrow> (meta \<times> string) result" where
  "apply_recover_expired w args meta =
     (let invalid = RuntimeError (py_str (dget args ''task'') @ '' has invalid claim expiry'') in
      bindE (require_revision args meta) (\<lambda>_.
      bindE (raise_if (dget meta ''status'' \<noteq> PStr ''in_progress'' \<or> \<not> truthy (dget meta ''owner''))
               (RuntimeError (py_str (dget args ''task'') @ '' does not have an active claim''))) (\<lambda>_.
      bindE (catchE (parse_claim_expiry (dget meta ''claim_expires'')) (\<lambda>e. if is_type_error e \<or> is_value_error e then Inl invalid else Inl e)) (\<lambda>expiry.
      bindE (raise_if (rt_now (w_rt w) < expiry) (RuntimeError (py_str (dget args ''task'') @ '' claim has not expired''))) (\<lambda>_.
      bindE (noted args ''expired-claim recovery note must not be empty'') (\<lambda>_.
      bindE (require_no_live_reservation meta (now_text (w_rt w))) (\<lambda>meta1.
      bindE (w_sessions w (arg_str args ''task'')) (\<lambda>rs.
      bindE (py_int (dget meta1 ''task_revision'')) (\<lambda>revision.
      bindE (current_recovery_session rs revision) (\<lambda>session.
      bindE (case session of
          Some s \<Rightarrow> bindE (ditem s ''next_action'') (\<lambda>action. Inr (dset meta1 ''next_action'' (PStr (py_str action)), arg_str args ''note''))
        | None \<Rightarrow>
            bindE (legacy_recovery_admitted (w_rt w) args meta1) (\<lambda>legacy.
            if legacy then Inr (meta1, ''LEGACY_NO_IDENTITY_RECOVERY: '' @ arg_str args ''note'')
            else bindE (require_claimed_worker_absent (w_rt w) meta1) (\<lambda>_. Inr (meta1, arg_str args ''note'')))) (\<lambda>(meta2, note).
      Inr (clear_claim meta2 (PStr ''open''),
           ''Recovered expired claim formerly owned by '' @ py_str (dget meta1 ''owner'') @ ''. '' @ note))))))))))))"

definition apply_recover_expired_transition :: "world \<Rightarrow> namespace \<Rightarrow> meta \<Rightarrow> (meta \<times> string) result" where
  "apply_recover_expired_transition w args meta =
     bindE (require_no_execution_reservation meta) (\<lambda>_. apply_recover_expired w args meta)"

section \<open>Acceptance and bindings\<close>

definition apply_accept :: "world \<Rightarrow> namespace \<Rightarrow> meta \<Rightarrow> evidence_policy option \<Rightarrow> meta list \<Rightarrow> (meta \<times> string) result" where
  "apply_accept w args meta policy tasks =
     bindE (require_role_admission (w_rt w) (py_str (dget args ''owner''))) (\<lambda>_.
     apply_acceptance (w_root w) (w_policy w) args meta policy (assumption_freshness w meta tasks))"

definition apply_bind_spec :: "world \<Rightarrow> namespace \<Rightarrow> meta \<Rightarrow> evidence_policy option \<Rightarrow> (meta \<times> string) result" where
  "apply_bind_spec w args meta policy =
     (let spec_ref = dget args ''spec_ref''; spec_revision = dget args ''spec_revision'';
          candidate = dset (dset meta ''spec_ref'' spec_ref) ''spec_revision'' spec_revision in
      bindE (require_owner args meta) (\<lambda>_.
      bindE (require_role_admission (w_rt w) (py_str (dget args ''owner''))) (\<lambda>_.
      bindE (require_status meta ''in_progress'' ''bind-spec requires an active task'') (\<lambda>_.
      bindE (require_unexpired (w_rt w) meta ''bind-spec requires an unexpired owner lease'') (\<lambda>_.
      bindE (require_revision args meta) (\<lambda>_.
      bindE (raise_if (list_ex (dhas meta) [''spec_ref'', ''spec_revision'', ''spec_acceptance'']) (RuntimeError ''bind-spec requires an unbound task spec'')) (\<lambda>_.
      bindE (task_spec_errors (w_root w) (w_policy w) candidate policy True) (\<lambda>errors.
      bindE (raise_if (errors \<noteq> []) (RuntimeError (''bind-spec task spec is invalid: '' @ join ''; '' errors))) (\<lambda>_.
      Inr (candidate, ''Bound task spec '' @ py_str spec_ref @ '' revision '' @ py_str spec_revision @ ''.''))))))))))"

definition valid_binding_branch :: "world \<Rightarrow> pyval \<Rightarrow> bool" where
  "valid_binding_branch w v = (is_str v \<and> length (str_of v) \<le> 128 \<and> str_of v \<noteq> ''DETACHED'' \<and> w_ref_format w (str_of v))"

definition valid_binding_worktree :: "world \<Rightarrow> pyval \<Rightarrow> bool" where
  "valid_binding_worktree w v =
     (valid_worktree_key v \<and>
      (case w_config w of
         None \<Rightarrow> True
       | Some settings \<Rightarrow>
           if str_of v \<in> set [''.'', ''..'', py_str (dget_or settings ''product_worktree'' (PStr []))] then False
           else if \<not> dhas settings ''projects_root'' then settings \<noteq> []
           else is_str (dget settings ''projects_root'') \<and> str_of (dget settings ''projects_root'') \<noteq> []
             \<and> w_direct w (str_of (dget settings ''projects_root'')) (str_of v)))"

definition binding_identity_conflicts :: "namespace \<Rightarrow> meta \<Rightarrow> task list \<Rightarrow> bool" where
  "binding_identity_conflicts args meta tasks =
     list_ex (\<lambda>t. let other = task_meta t in
        \<not> py_eq (dget other ''id'') (dget meta ''id'') \<and> dget other ''status'' = PStr ''in_progress'' \<and>
        (py_eq (dget other ''branch'') (dget args ''branch'') \<or> py_eq (dget other ''worktree_key'') (dget args ''worktree_key''))) tasks"

definition require_bind_worktree_admission :: "world \<Rightarrow> namespace \<Rightarrow> meta \<Rightarrow> task list \<Rightarrow> unit result" where
  "require_bind_worktree_admission w args meta tasks =
     (let branch = dget_or meta ''branch'' (PStr []); key = dget_or meta ''worktree_key'' (PStr []);
          wanted_branch = dget args ''branch''; wanted_key = dget args ''worktree_key'' in
      bindE (require_active_binding_owner (w_rt w) args meta) (\<lambda>_.
      bindE (raise_if (\<not> valid_binding_branch w wanted_branch) (RuntimeError ''bind-worktree branch is invalid'')) (\<lambda>_.
      bindE (raise_if (\<not> valid_binding_worktree w wanted_key) (RuntimeError ''bind-worktree worktree key is invalid'')) (\<lambda>_.
      bindE (raise_if (binding_identity_conflicts args meta tasks) (RuntimeError ''bind-worktree identity conflicts with an active task'')) (\<lambda>_.
      if truthy branch \<and> truthy key then
        (if py_eq branch wanted_branch \<and> py_eq key wanted_key
         then Inl (IdempotentMutationError (''Worktree '' @ py_str wanted_key @ '' on branch '' @ py_str wanted_branch @ '' is already bound.''))
         else Inl (RuntimeError ''bind-worktree requires empty legacy worktree metadata''))
      else
        bindE (raise_if (truthy branch) (RuntimeError ''bind-worktree requires an empty legacy branch'')) (\<lambda>_.
        raise_if (truthy key \<and> \<not> py_eq key wanted_key)
          (RuntimeError ''bind-worktree worktree key conflicts with declared legacy metadata'')))))))"

definition apply_bind_worktree :: "world \<Rightarrow> namespace \<Rightarrow> meta \<Rightarrow> task list \<Rightarrow> (meta \<times> string) result" where
  "apply_bind_worktree w args meta tasks =
     bindE (require_bind_worktree_admission w args meta tasks) (\<lambda>_.
     bindE (require_no_execution_reservation meta) (\<lambda>_.
     Inr (dset (dset meta ''branch'' (dget args ''branch'')) ''worktree_key'' (dget args ''worktree_key''),
          ''Bound worktree '' @ py_str (dget args ''worktree_key'') @ '' on branch '' @ py_str (dget args ''branch'') @ ''.'')))"

definition repair_binding :: "namespace \<Rightarrow> meta \<Rightarrow> (meta \<times> string) result" where
  "repair_binding args meta =
     bindE (require_revision args meta) (\<lambda>_.
     bindE (hash_in (dget meta ''status'') [''open'', ''done'']) (\<lambda>inactive.
     bindE (raise_if (\<not> inactive \<or> truthy (dget meta ''owner'') \<or> truthy (dget meta ''claim_expires''))
              (RuntimeError ''repair-legacy-binding requires an inactive, unowned task'')) (\<lambda>_.
     bindE (raise_if (dget meta ''status'' = PStr ''open'' \<and> truthy (dget meta ''branch''))
              (RuntimeError ''repair-legacy-binding requires an empty legacy branch'')) (\<lambda>_.
     bindE (raise_if (\<not> py_eq (dget meta ''worktree_key'') (dget args ''worktree_key''))
              (RuntimeError ''repair-legacy-binding worktree key does not match retained metadata'')) (\<lambda>_.
     bindE (noted args ''repair-legacy-binding note must not be empty'') (\<lambda>_.
     Inr (dset meta ''worktree_key'' (PStr []), arg_str args ''note'')))))))"

definition bind_envelope_candidate :: "world \<Rightarrow> namespace \<Rightarrow> meta \<Rightarrow> meta result" where
  "bind_envelope_candidate w args meta =
     bindE (raise_if (\<not> is_str (dget meta ''spec_ref'') \<or> \<not> is_int (dget meta ''spec_revision'')) (RuntimeError ''bind-envelope requires a bound task spec'')) (\<lambda>_.
     bindE (envelope_load (w_envelopes w) (arg_str args ''envelope_ref'')) (\<lambda>(loaded, _, found).
     let invalid = Inl (RuntimeError (''bind-envelope envelope is invalid: '' @ join ''; '' found)) in
     bindE (case loaded of None \<Rightarrow> invalid | Some e \<Rightarrow> if found \<noteq> [] then invalid else Inr e) (\<lambda>e.
     bindE (envelope_errors (PDict e)) (\<lambda>errors.
     bindE (raise_if (errors \<noteq> []) (RuntimeError ''bind-envelope envelope is invalid'')) (\<lambda>_.
     bindE (raise_if (\<not> py_eq (dget e ''task'') (dget args ''task'') \<or> \<not> py_eq (dget e ''spec_ref'') (dget meta ''spec_ref''))
              (RuntimeError ''bind-envelope envelope task or spec does not match'')) (\<lambda>_.
     bindE (raise_if (\<not> py_eq (dget e ''task_revision'') (dget meta ''task_revision''))
              (RuntimeError ''bind-envelope envelope task revision does not match'')) (\<lambda>_.
     bindE (raise_if (\<not> py_eq (dget e ''spec_revision'') (dget meta ''spec_revision''))
              (RuntimeError ''bind-envelope envelope spec revision does not match'')) (\<lambda>_.
     bindE (raise_if (\<not> py_eq (dget args ''envelope_revision'') (dget e ''envelope_revision''))
              (RuntimeError ''bind-envelope envelope revision does not match'')) (\<lambda>_.
     Inr e)))))))))"

definition ENVELOPE_BINDING :: "string list" where
  "ENVELOPE_BINDING = [''execution_envelope_ref'', ''execution_envelope_revision'', ''execution_envelope_task_revision'', ''execution_envelope_digest'',
     ''execution_envelope'']"

definition apply_bind_envelope :: "world \<Rightarrow> namespace \<Rightarrow> meta \<Rightarrow> (meta \<times> string) result" where
  "apply_bind_envelope w args meta =
     (let ref = dget args ''envelope_ref''; revision = dget args ''envelope_revision'' in
      bindE (require_active_binding_owner (w_rt w) args meta) (\<lambda>_.
      bindE (require_no_execution_reservation meta) (\<lambda>_.
      bindE (bind_envelope_candidate w args meta) (\<lambda>envelope.
      let requested = [ref, revision, dget meta ''task_revision'', PStr (canonical_digest envelope), PDict envelope];
          existing = map (dget meta) ENVELOPE_BINDING in
      if list_ex (\<lambda>v. v \<noteq> PNone) existing then
        (if py_eq (PList existing) (PList requested)
         then Inl (IdempotentMutationError (''Execution envelope '' @ py_str ref @ '' is already bound.''))
         else Inl (RuntimeError ''bind-envelope requires an unbound execution envelope''))
      else Inr (bind_fields meta ref revision (dget meta ''task_revision'') envelope,
                ''Bound execution envelope '' @ py_str ref @ '' revision '' @ py_str revision @ ''.'')))))"

definition apply_replace_envelope :: "world \<Rightarrow> namespace \<Rightarrow> meta \<Rightarrow> (meta \<times> string) result" where
  "apply_replace_envelope w args meta =
     bindE (require_active_binding_owner (w_rt w) args meta) (\<lambda>_.
     bindE (require_no_execution_reservation meta) (\<lambda>_.
     replace_bound (w_envelopes w) meta args (now_text (w_rt w))))"

section \<open>Owned changes\<close>

definition require_owned_change_admission :: "world \<Rightarrow> namespace \<Rightarrow> string \<Rightarrow> meta \<Rightarrow> task list \<Rightarrow> evidence_policy option \<Rightarrow> unit result" where
  "require_owned_change_admission w args kind meta tasks policy =
     bindE (require_owner args meta) (\<lambda>_.
     bindE (if kind = ''update'' \<or> kind = ''pause'' then require_role_admission (w_rt w) (py_str (dget args ''owner'')) else Inr ()) (\<lambda>_.
     bindE (if kind = ''release'' \<or> kind = ''pause'' then require_no_execution_reservation meta else Inr ()) (\<lambda>_.
     bindE (raise_if ((kind = ''heartbeat'' \<or> kind = ''update'') \<and> dget meta ''execution_reservation'' \<noteq> PNone)
              (RuntimeError ''EXECUTION_IN_PROGRESS: use the bound command completion path'')) (\<lambda>_.
     require_release_admission w kind (dget args ''status'') meta tasks policy))))"

definition set_given :: "namespace \<Rightarrow> string \<Rightarrow> meta \<Rightarrow> meta" where
  "set_given args name meta = (if dget args name \<noteq> PNone then dset meta name (dget args name) else meta)"

definition apply_update :: "namespace \<Rightarrow> string \<Rightarrow> meta \<Rightarrow> (meta \<times> string) result" where
  "apply_update args kind meta =
     bindE (require_optional_revision args meta) (\<lambda>_.
     bindE (raise_if (dget args ''status'' \<noteq> PNone \<and> dget args ''status'' \<noteq> PStr ''in_progress'') (RuntimeError ''use release for a non-active status'')) (\<lambda>_.
     bindE (carry_run_hold args kind (fold (set_given args) [''status'', ''priority'', ''summary'', ''next_action''] meta)) (\<lambda>meta1.
     Inr (meta1, arg_str args ''note''))))"

definition apply_owned_change :: "world \<Rightarrow> namespace \<Rightarrow> string \<Rightarrow> meta \<Rightarrow> task list \<Rightarrow> evidence_policy option \<Rightarrow> (meta \<times> string) result" where
  "apply_owned_change w args kind meta tasks policy =
     bindE (require_owned_change_admission w args kind meta tasks policy) (\<lambda>_.
     if kind = ''heartbeat'' then
       bindE (raise_if (int_of (dget args ''lease_minutes'') \<le> 0 \<or> dget meta ''status'' \<noteq> PStr ''in_progress'')
                (RuntimeError ''heartbeat requires an active task and positive lease'')) (\<lambda>_.
       bindE (require_optional_revision args meta) (\<lambda>_.
       bindE (lease_text (w_rt w) (dget args ''lease_minutes'')) (\<lambda>expiry.
       Inr (dset meta ''claim_expires'' expiry, ''Heartbeat by '' @ py_str (dget args ''owner'') @ ''.''))))
     else if kind = ''release'' then
       bindE (gate_to_runtime (transition_allowed meta ''release'')) (\<lambda>_.
       Inr (clear_claim meta (dget args ''status''), arg_str args ''note''))
     else apply_update args kind meta)"

section \<open>Checkpoints, rollback and gates\<close>

definition apply_checkpoint :: "world \<Rightarrow> namespace \<Rightarrow> meta \<Rightarrow> (meta \<times> string) result" where
  "apply_checkpoint w args meta =
     bindE (require_owner args meta) (\<lambda>_.
     bindE (require_revision args meta) (\<lambda>_.
     bindE (require_role_admission (w_rt w) (py_str (dget args ''owner''))) (\<lambda>_.
     Inr (dset meta ''checkpoint_commit'' (PStr (py_str (dget args ''source_commit''))),
          ''Checkpointed source commit '' @ py_str (dget args ''source_commit'') @ ''.''))))"

definition ROLLBACK_FIELDS :: "string list" where
  "ROLLBACK_FIELDS = [''priority'', ''summary'', ''next_action'', ''depends_on'', ''superseded_by'', ''spec_ref'', ''spec_revision'',
     ''spec_acceptance'', ''branch'', ''worktree_key'', ''checkpoint_commit'']"

definition restore_field :: "meta \<Rightarrow> string \<Rightarrow> meta \<Rightarrow> meta" where
  "restore_field state name meta = (if dhas state name then dset meta name (dget state name) else meta)"

definition apply_rollback :: "namespace \<Rightarrow> meta \<Rightarrow> (meta \<times> string) result" where
  "apply_rollback args meta =
     (let checkpoint = dict_of (dget args ''rollback_checkpoint'') in
      bindE (require_unclaimed meta ''rollback requires the target task to have no active claim'') (\<lambda>_.
      bindE (ditem checkpoint ''state'') (\<lambda>saved.
      let state = dict_of saved in
      bindE (raise_if (\<not> is_dict saved \<or> \<not> py_eq (dget state ''id'') (dget meta ''id'')) (RuntimeError ''rollback checkpoint task does not match target task'')) (\<lambda>_.
      let meta1 = (if dhas state ''short_title'' then dset meta ''short_title'' (dget state ''short_title'') else dpop meta ''short_title'');
          meta2 = fold (restore_field state) ROLLBACK_FIELDS meta1;
          meta3 = dset meta2 ''status'' (if dget state ''status'' = PStr ''in_progress'' then PStr ''open'' else dget state ''status'') in
      bindE (ditem checkpoint ''source_commit'') (\<lambda>commit.
      bindE (ditem checkpoint ''name'') (\<lambda>name.
      Inr (dset (dpop (dset (dset meta3 ''owner'' (PStr [])) ''claim_expires'' (PStr [])) ''claim_process'') ''checkpoint_commit'' (PStr (py_str commit)),
           ''Restored checkpoint '' @ py_str name @ '' from source commit '' @ py_str commit @ ''.'')))))))"

definition artifact_values :: "pyval list \<Rightarrow> string \<Rightarrow> artifact_ref list result" where
  "artifact_values values label =
     map_result (\<lambda>v. case partition_char CHR ''='' (str_of v) of (ref, separator, dig) \<Rightarrow>
        bindE (raise_if (\<not> separator) (RuntimeError (label @ '' must use REF=DIGEST''))) (\<lambda>_. gate_to_runtime (artifact ref dig))) values"

definition human_session_values :: "namespace \<Rightarrow> string \<Rightarrow> pyval result" where
  "human_session_values args recorded_at =
     (let given = map (dget args) [''session_id'', ''request_ref'', ''activation'', ''tui_contract_version''] in
      if \<not> list_ex truthy given then Inr PNone
      else
        bindE (raise_if (dget args ''action'' \<noteq> PStr ''open'') (RuntimeError ''human session metadata is valid only when opening a gate'')) (\<lambda>_.
        bindE (raise_if (\<not> list_all truthy given)
                 (RuntimeError ''human session metadata requires --session-id, --request-ref, --activation, and --tui-contract-version'')) (\<lambda>_.
        bindE (py_int (dget args ''expected_revision'')) (\<lambda>revision.
        Inr (PDict [(''schema_version'', PStr ''1.0''), (''session_id'', dget args ''session_id''), (''request_ref'', dget args ''request_ref''),
          (''activation'', dget args ''activation''), (''status'', PStr ''presenting''), (''task_revision'', PInt revision),
          (''tui_contract_version'', dget args ''tui_contract_version''), (''opened_at'', PStr recorded_at)])))))"

definition apply_gate :: "world \<Rightarrow> namespace \<Rightarrow> meta \<Rightarrow> (meta \<times> string) result" where
  "apply_gate w args meta =
     (let recorded_at = now_text (w_rt w); stage = py_str (dget args ''stage'') in
      value_to_runtime
        (bindE (raise_if (stage \<notin> set GATE_SEQUENCE \<and> stage \<notin> set STAGE_GATE_SEQUENCE) (GateError ''unknown interaction gate stage'')) (\<lambda>_.
         bindE (ditem meta ''id'') (\<lambda>task_id.
         bindE (py_int (dget args ''expected_revision'')) (\<lambda>revision.
         bindE (artifact_values (list_of (dget args ''before'')) ''--before'') (\<lambda>before.
         bindE (artifact_values (list_of (dget args ''after'')) ''--after'') (\<lambda>after.
         let event = \<lparr>ev_task_id = py_str task_id, ev_task_revision = revision, ev_stage = stage, ev_action = py_str (dget args ''action''),
               ev_disposition = py_str (dget args ''disposition''), ev_before = before, ev_after = after,
               ev_public_ref = py_str (dget args ''public_ref''), ev_recorded_at = recorded_at\<rparr> in
         bindE (check_event event) (\<lambda>_.
         bindE (human_session_values args recorded_at) (\<lambda>session.
         apply_event meta event session)))))))))"

section \<open>The dispatcher\<close>

definition apply_transition :: "world \<Rightarrow> namespace \<Rightarrow> string \<Rightarrow> meta \<Rightarrow> task list \<Rightarrow> evidence_policy option \<Rightarrow> (meta \<times> string) result" where
  "apply_transition w args kind meta tasks policy =
     (let rt = w_rt w; at = now_text rt in
      if starts_with kind ''autonomy-limits'' then limits_transition (require_active_binding_owner rt) args meta at
      else if kind = ''claim'' then apply_claim w args meta tasks
      else if kind = ''promote'' then apply_promote args meta tasks
      else if kind = ''pause'' then apply_pause w args meta
      else if kind = ''resume'' then apply_resume w args meta
      else if kind = ''unblock'' then apply_unblock w args meta
      else if kind = ''recover-expired'' then apply_recover_expired_transition w args meta
      else if kind = ''recover-execution'' then execution_recover rt args meta
      else if kind = ''abandon-execution'' then execution_abandon rt args meta
      else if kind = ''gate'' then apply_gate w args meta
      else if kind = ''change-drift'' then
        bindE (projects_root w) (\<lambda>root.
        apply_drift (w_worktrees w root)
          (case w_config w of None \<Rightarrow> [] | Some settings \<Rightarrow> py_str (dget_or settings ''product_worktree'' (PStr []))) at args meta)
      else if kind = ''assumption'' then
        bindE (projects_root w) (\<lambda>root. apply_assumption (w_observer w root) args meta (map task_meta tasks))
      else if kind = ''retry-circuit'' then retry_apply args meta at
      else if kind = ''retry-circuit-reserve'' then apply_reserve args meta at
      else if kind = ''retry-circuit-resolve'' then apply_resolve args meta at
      else if kind = ''checkpoint'' then apply_checkpoint w args meta
      else if kind = ''rollback'' then apply_rollback args meta
      else if kind = ''accept'' then apply_accept w args meta policy []
      else if kind = ''bind-spec'' then apply_bind_spec w args meta policy
      else if kind = ''bind-worktree'' then apply_bind_worktree w args meta tasks
      else if kind = ''repair-legacy-binding'' then repair_binding args meta
      else if kind = ''repair-predicate-ledger'' then repair_ledger (w_root w) (w_policy w) args meta policy
      else if kind = ''bind-envelope'' then apply_bind_envelope w args meta
      else if kind = ''replace-envelope'' then apply_replace_envelope w args meta
      else if kind = ''execution-start'' then execution_start rt args meta
      else if kind = ''execution-result'' then execution_result args meta
      else if kind = ''execution-finish'' then execution_finish args meta
      else apply_owned_change w args kind meta tasks policy)"

section \<open>Operations that leave the claim alone\<close>

text \<open>A claimed task is in progress with an owner and a lease; every other task has neither, and no execution is reserved for it.\<close>

definition claim_wf :: "meta \<Rightarrow> bool" where
  "claim_wf meta =
     (if dget meta ''status'' = PStr ''in_progress'' then truthy (dget meta ''owner'') \<and> truthy (dget meta ''claim_expires'')
      else \<not> truthy (dget meta ''owner'') \<and> \<not> truthy (dget meta ''claim_expires'') \<and> dget meta ''execution_reservation'' = PNone)"

text \<open>What the lifecycle is about: the state of a task as a client of the coordinator sees it.\<close>

datatype life = Idle pyval | Active pyval

definition life_of :: "meta \<Rightarrow> life" where
  "life_of meta = (if dget meta ''status'' = PStr ''in_progress'' then Active (dget meta ''owner'') else Idle (dget meta ''status''))"

definition same_claim :: "meta \<Rightarrow> meta \<Rightarrow> bool" where
  "same_claim meta meta' =
     (dget meta' ''id'' = dget meta ''id'' \<and> dget meta' ''task_revision'' = dget meta ''task_revision'' \<and> dget meta' ''status'' = dget meta ''status'' \<and> dget meta' ''owner'' = dget meta ''owner'' \<and>
      truthy (dget meta' ''claim_expires'') = truthy (dget meta ''claim_expires'') \<and>
      (dget meta' ''execution_reservation'' \<noteq> PNone \<longrightarrow> dget meta ''execution_reservation'' \<noteq> PNone \<or> dget meta ''status'' = PStr ''in_progress''))"

locale claim_neutral =
  fixes run :: "namespace \<Rightarrow> meta \<Rightarrow> (meta \<times> string) result"
  assumes run_keeps: "run args meta = Inr (meta', msg) \<Longrightarrow> same_claim meta meta'"
begin

lemma run_life: "run args meta = Inr (meta', msg) \<Longrightarrow> life_of meta' = life_of meta"
  using run_keeps [of args meta meta' msg] by (simp add: life_of_def same_claim_def)

lemma run_wf: "run args meta = Inr (meta', msg) \<Longrightarrow> claim_wf meta \<Longrightarrow> claim_wf meta'"
  using run_keeps [of args meta meta' msg] by (auto simp: claim_wf_def same_claim_def)

end

text \<open>An operation that changes only the fields of \<open>ks\<close>.\<close>

definition writes_only :: "string list \<Rightarrow> meta \<Rightarrow> meta \<Rightarrow> bool" where
  "writes_only ks meta meta' = (\<forall>k. k \<notin> set ks \<longrightarrow> dget meta' k = dget meta k)"

lemma writes_only_claim:
  "writes_only ks meta meta' \<Longrightarrow> list_all (\<lambda>k. k \<notin> set ks) [''id'', ''task_revision'', ''status'', ''owner'', ''claim_expires'', ''execution_reservation''] \<Longrightarrow> same_claim meta meta'"
  by (auto simp: writes_only_def list_all_iff same_claim_def)

lemma writes_only_trans: "writes_only ks a b \<Longrightarrow> writes_only ks b c \<Longrightarrow> writes_only ks a c"
  by (simp add: writes_only_def)

lemma bindE_elim: "bindE m f = Inr y \<Longrightarrow> (\<And>x. m = Inr x \<Longrightarrow> f x = Inr y \<Longrightarrow> P) \<Longrightarrow> P"
  by (auto simp: bindE_Inr)

lemma checkpoint_writes: "apply_checkpoint w args meta = Inr (meta', msg) \<Longrightarrow> writes_only [''checkpoint_commit''] meta meta'"
  by (auto simp: apply_checkpoint_def bindE_Inr writes_only_def)

lemma bind_spec_writes: "apply_bind_spec w args meta policy = Inr (meta', msg) \<Longrightarrow> writes_only [''spec_ref'', ''spec_revision''] meta meta'"
  by (auto simp: apply_bind_spec_def bindE_Inr writes_only_def Let_def)

lemma bind_worktree_writes: "apply_bind_worktree w args meta tasks = Inr (meta', msg) \<Longrightarrow> writes_only [''branch'', ''worktree_key''] meta meta'"
  by (auto simp: apply_bind_worktree_def bindE_Inr writes_only_def)

lemma repair_binding_writes: "repair_binding args meta = Inr (meta', msg) \<Longrightarrow> writes_only [''worktree_key''] meta meta'"
  by (auto simp: repair_binding_def bindE_Inr writes_only_def)

lemma repair_ledger_writes: "repair_ledger root src args meta policy = Inr (meta', msg) \<Longrightarrow> writes_only [''evidence_ledger''] meta meta'"
  unfolding repair_ledger_def Let_def by (auto simp: bindE_Inr writes_only_def)

lemma accept_writes: "apply_accept w args meta policy tasks = Inr (meta', msg) \<Longrightarrow> writes_only [''evidence_ledger'', ''spec_acceptance''] meta meta'"
  by (auto simp: apply_accept_def apply_acceptance_def apply_predicate_acceptance_def record_step_def bindE_Inr writes_only_def Let_def split: option.splits)

lemma bind_envelope_writes: "apply_bind_envelope w args meta = Inr (meta', msg) \<Longrightarrow> writes_only ENVELOPE_BINDING meta meta'"
  by (auto simp: apply_bind_envelope_def bindE_Inr writes_only_def bind_fields_def ENVELOPE_BINDING_def Let_def split: if_splits)

lemma drift_writes: "apply_drift wts product at args meta = Inr (meta', msg) \<Longrightarrow> writes_only [''change_drift''] meta meta'"
  by (auto simp: apply_drift_def bindE_Inr writes_only_def split: prod.splits)

lemma assumption_writes: "apply_assumption ob args meta tasks = Inr (meta', msg) \<Longrightarrow> writes_only [''assumption_revalidation''] meta meta'"
  by (auto simp: apply_assumption_def bindE_Inr writes_only_def Let_def split: prod.splits)

lemma parse_claim_expiry_truthy: "parse_claim_expiry v = Inr t \<Longrightarrow> truthy v"
  by (cases v) (auto simp: parse_claim_expiry_def split: if_splits)

lemma isoformat_at_truthy: "isoformat_at l off \<noteq> []"
  by (simp add: isoformat_at_def offset_text_def Let_def)

lemma execution_start_claim: "execution_start rt args meta = Inr (meta', msg) \<Longrightarrow> same_claim meta meta'"
  by (auto simp: execution_start_def bindE_Inr raise_if_Inr Let_def active_binding_owner_Inr aware_case_Inr same_claim_def
      isoformat_at_truthy dest: parse_claim_expiry_truthy split: if_splits)

lemma execution_result_claim: "execution_result args meta = Inr (meta', msg) \<Longrightarrow> same_claim meta meta'"
  unfolding execution_result_def Let_def
  by (auto elim!: bindE_elim simp: same_claim_def split: if_split_asm)

lemma execution_finish_claim: "execution_finish args meta = Inr (meta', msg) \<Longrightarrow> same_claim meta meta'"
  unfolding execution_finish_def Let_def
  by (auto elim!: bindE_elim simp: same_claim_def split: if_split_asm)

lemma execution_recover_claim: "execution_recover rt args meta = Inr (meta', msg) \<Longrightarrow> same_claim meta meta'"
  unfolding execution_recover_def by (auto elim!: bindE_elim simp: same_claim_def)

lemma replace_writes: "replace_bound files meta args at = Inr (meta', msg) \<Longrightarrow> writes_only (''execution_envelope_replacements'' # ENVELOPE_BINDING) meta meta'"
  unfolding replace_bound_def Let_def by (auto simp: bindE_Inr writes_only_def bind_fields_def ENVELOPE_BINDING_def split: if_splits option.splits)

lemma replace_envelope_writes:
  "apply_replace_envelope w args meta = Inr (meta', msg) \<Longrightarrow> writes_only (''execution_envelope_replacements'' # ENVELOPE_BINDING) meta meta'"
  by (auto simp: apply_replace_envelope_def bindE_Inr intro: replace_writes)

lemma gate_writes: "apply_event meta e s = Inr (meta', msg) \<Longrightarrow> writes_only [''oracle_gate''] meta meta'"
  by (auto simp: apply_event_def bindE_Inr writes_only_def Let_def split: option.splits prod.splits)

lemma apply_gate_writes: "apply_gate w args meta = Inr (meta', msg) \<Longrightarrow> writes_only [''oracle_gate''] meta meta'"
  unfolding apply_gate_def Let_def value_to_runtime_Inr by (elim bindE_elim) (rule gate_writes)

lemma limits_state_writes: "limits_state meta sel at = Inr (meta', st) \<Longrightarrow> writes_only [''autonomy_limits''] meta meta'"
  by (auto simp: limits_state_def bindE_Inr writes_only_def Let_def)

lemma preflight_writes:
  assumes "apply_preflight args meta sel at = Inr (meta', msg)"
  shows "writes_only [''autonomy_limits''] meta meta'"
  using assms unfolding apply_preflight_def
  by (auto elim!: bindE_elim dest!: limits_state_writes simp: writes_only_def split: option.split_asm prod.split_asm)

lemma limits_record_writes:
  assumes "apply_record args meta sel at = Inr (meta', msg)"
  shows "writes_only [''autonomy_limits''] meta meta'"
  using assms unfolding apply_record_def Let_def
  by (auto elim!: bindE_elim dest!: limits_state_writes simp: writes_only_def split: option.split_asm prod.split_asm if_split_asm)

lemma dispose_writes: "apply_dispose args meta at = Inr (meta', msg) \<Longrightarrow> writes_only [''autonomy_limits''] meta meta'"
  unfolding apply_dispose_def Let_def by (auto elim!: bindE_elim simp: writes_only_def)

lemma limits_writes: "limits_transition admit args meta at = Inr (meta', msg) \<Longrightarrow> writes_only [''autonomy_limits''] meta meta'"
  unfolding limits_transition_def
  by (auto elim!: bindE_elim intro: preflight_writes limits_record_writes dispose_writes split: if_split_asm)

lemma cleanup_writes: "cleanup_expired meta at = Inr (meta', n) \<Longrightarrow> writes_only [''retry_circuit''] meta meta'"
  by (auto simp: cleanup_expired_def bindE_Inr writes_only_def Let_def split: if_splits)

lemma no_live_writes: "require_no_live_reservation meta at = Inr meta' \<Longrightarrow> writes_only [''retry_circuit''] meta meta'"
  by (auto simp: require_no_live_reservation_def bindE_Inr Let_def dest: cleanup_writes split: prod.splits)

lemma record_failure_writes: "record_failure meta i f n at = Inr (meta', msg) \<Longrightarrow> writes_only [''retry_circuit''] meta meta'"
  by (auto simp: record_failure_def bindE_Inr writes_only_def Let_def case_prod_unfold)

lemma recover_writes: "recover meta i kind reason at = Inr (meta', msg) \<Longrightarrow> writes_only [''retry_circuit''] meta meta'"
  by (auto simp: recover_def bindE_Inr writes_only_def Let_def)

lemma retry_writes: "retry_apply args meta at = Inr (meta', msg) \<Longrightarrow> writes_only [''retry_circuit''] meta meta'"
  by (auto simp: retry_apply_def bindE_Inr intro: writes_only_trans dest!: no_live_writes recover_writes)

lemma reserve_writes: "apply_reserve args meta at = Inr (meta', msg) \<Longrightarrow> writes_only [''retry_circuit''] meta meta'"
  unfolding apply_reserve_def reserve_def Let_def
  by (auto simp: bindE_Inr writes_only_def dest!: cleanup_writes split: prod.splits)

lemma resolve_writes: "apply_resolve args meta at = Inr (meta', msg) \<Longrightarrow> writes_only [''retry_circuit''] meta meta'"
  unfolding apply_resolve_def resolve_def Let_def
  by (auto simp: bindE_Inr writes_only_def dest!: record_failure_writes split: option.splits if_splits)

section \<open>The neutral operations\<close>

interpretation limits: claim_neutral "\<lambda>args meta. limits_transition admit args meta at" for admit at
  by unfold_locales (rule writes_only_claim, erule limits_writes, simp)

interpretation checkpoint: claim_neutral "apply_checkpoint w" for w
  by unfold_locales (rule writes_only_claim, erule checkpoint_writes, simp)

interpretation gate: claim_neutral "apply_gate w" for w
  by unfold_locales (rule writes_only_claim, erule apply_gate_writes, simp)

interpretation retry: claim_neutral "\<lambda>args meta. retry_apply args meta at" for at
  by unfold_locales (rule writes_only_claim, erule retry_writes, simp)

interpretation retry_slot: claim_neutral "\<lambda>args meta. apply_reserve args meta at" for at
  by unfold_locales (rule writes_only_claim, erule reserve_writes, simp)

interpretation retry_end: claim_neutral "\<lambda>args meta. apply_resolve args meta at" for at
  by unfold_locales (rule writes_only_claim, erule resolve_writes, simp)

interpretation acceptance: claim_neutral "\<lambda>args meta. apply_accept w args meta policy tasks" for w policy tasks
  by unfold_locales (rule writes_only_claim, erule accept_writes, simp)

interpretation spec_binding: claim_neutral "\<lambda>args meta. apply_bind_spec w args meta policy" for w policy
  by unfold_locales (rule writes_only_claim, erule bind_spec_writes, simp)

interpretation worktree_binding: claim_neutral "\<lambda>args meta. apply_bind_worktree w args meta tasks" for w tasks
  by unfold_locales (rule writes_only_claim, erule bind_worktree_writes, simp)

interpretation legacy_binding: claim_neutral repair_binding
  by unfold_locales (rule writes_only_claim, erule repair_binding_writes, simp)

interpretation ledger_repair: claim_neutral "\<lambda>args meta. repair_ledger root src args meta policy" for root src policy
  by unfold_locales (rule writes_only_claim, erule repair_ledger_writes, simp)

interpretation envelope_binding: claim_neutral "apply_bind_envelope w" for w
  by unfold_locales (rule writes_only_claim, erule bind_envelope_writes, simp add: ENVELOPE_BINDING_def)

interpretation envelope_exchange: claim_neutral "apply_replace_envelope w" for w
  by unfold_locales (rule writes_only_claim, erule replace_envelope_writes, simp add: ENVELOPE_BINDING_def)

interpretation fence_start: claim_neutral "execution_start rt" for rt
  by unfold_locales (rule execution_start_claim)

interpretation fence_result: claim_neutral execution_result
  by unfold_locales (rule execution_result_claim)

interpretation fence_finish: claim_neutral execution_finish
  by unfold_locales (rule execution_finish_claim)

interpretation fence_recover: claim_neutral "execution_recover rt" for rt
  by unfold_locales (rule execution_recover_claim)

interpretation drift_record: claim_neutral "apply_drift wts product at" for wts product at
  by unfold_locales (rule writes_only_claim, erule drift_writes, simp)

interpretation assumption_record: claim_neutral "\<lambda>args meta. apply_assumption ob args meta tasks" for ob tasks
  by unfold_locales (rule writes_only_claim, erule assumption_writes, simp)

section \<open>The abstract lifecycle\<close>

text \<open>The moves of a task: which command takes which state to which. Every other command leaves the state alone.\<close>

definition MOVES :: "string list" where
  "MOVES = [''promote'', ''claim'', ''pause'', ''resume'', ''unblock'', ''recover-expired'', ''abandon-execution'', ''release'', ''rollback'']"

text \<open>The other commands that the dispatcher names; what is left over is an update.\<close>

definition HANDLED :: "string list" where
  "HANDLED = [''heartbeat'', ''recover-execution'', ''gate'', ''change-drift'', ''assumption'', ''retry-circuit'', ''retry-circuit-reserve'',
     ''retry-circuit-resolve'', ''checkpoint'', ''accept'', ''bind-spec'', ''bind-worktree'', ''repair-legacy-binding'', ''repair-predicate-ledger'',
     ''bind-envelope'', ''replace-envelope'', ''execution-start'', ''execution-result'', ''execution-finish'']"

inductive life_step :: "string \<Rightarrow> life \<Rightarrow> life \<Rightarrow> bool" where
  step_promote: "life_step ''promote'' (Idle (PStr ''planned'')) (Idle (PStr ''open''))"
| step_claim: "truthy owner \<Longrightarrow> life_step ''claim'' (Idle (PStr ''open'')) (Active owner)"
| step_pause: "life_step ''pause'' (Active owner) (Idle (PStr ''blocked''))"
| step_resume: "life_step ''resume'' (Idle (PStr ''blocked'')) (Idle (PStr ''open''))"
| step_unblock: "life_step ''unblock'' (Idle (PStr ''blocked'')) (Idle (PStr ''open''))"
| step_recover: "life_step ''recover-expired'' (Active owner) (Idle (PStr ''open''))"
| step_abandon: "life_step ''abandon-execution'' (Active owner) (Idle (PStr ''open''))"
| step_release: "status \<noteq> PStr ''in_progress'' \<Longrightarrow> life_step ''release'' (Active owner) (Idle status)"
| step_rollback: "status' \<noteq> PStr ''in_progress'' \<Longrightarrow> life_step ''rollback'' (Idle status) (Idle status')"
| step_other: "kind \<notin> set MOVES \<Longrightarrow> life_step kind l l"

inductive_simps done_step_iff: "life_step kind l (Idle (PStr ''done''))"

text \<open>
  The owner argument of a command is not checked for being empty, and an unowned task passes the comparison of owners
  with an empty argument. These are the moves that only such a command makes: the claim of an open task and the update of
  an idle one leave a task in progress with an empty owner, and the release of an idle task gives it any status.
\<close>

inductive unowned_step :: "string \<Rightarrow> life \<Rightarrow> life \<Rightarrow> bool" where
  unowned_claim: "\<not> truthy owner \<Longrightarrow> unowned_step ''claim'' (Idle (PStr ''open'')) (Active owner)"
| unowned_release: "unowned_step ''release'' (Idle status) (Idle status')"
| unowned_update: "kind \<notin> set HANDLED \<Longrightarrow> kind \<notin> set MOVES \<Longrightarrow> \<not> truthy owner \<Longrightarrow> unowned_step kind (Idle status) (Active owner)"

inductive_simps unowned_done_iff: "unowned_step kind l (Idle (PStr ''done''))"
inductive_simps unowned_active_iff: "unowned_step kind l (Active owner)"

text \<open>What a handler of the command \<open>kind\<close> is to show.\<close>

definition refines :: "string \<Rightarrow> meta \<Rightarrow> meta \<Rightarrow> bool" where
  "refines kind meta meta' = (life_step kind (life_of meta) (life_of meta') \<and> claim_wf meta')"

lemma py_eq_truthy: "py_eq a b \<Longrightarrow> truthy b = truthy a"
  by (cases a; cases b) (auto simp: list_all2_Nil list_all2_Nil2)

lemma in_progress_refines:
  assumes "dget meta ''status'' = PStr ''in_progress''" "dget meta' ''status'' \<noteq> PStr ''in_progress''"
    "life_step kind (Active (dget meta ''owner'')) (Idle (dget meta' ''status''))"
    "\<not> truthy (dget meta' ''owner'')" "\<not> truthy (dget meta' ''claim_expires'')" "dget meta' ''execution_reservation'' = PNone"
  shows "refines kind meta meta'"
  using assms by (simp add: refines_def life_of_def claim_wf_def)

lemma idle_refines:
  assumes "claim_wf meta" "dget meta ''status'' \<noteq> PStr ''in_progress''" "dget meta' ''status'' \<noteq> PStr ''in_progress''"
    "life_step kind (Idle (dget meta ''status'')) (Idle (dget meta' ''status''))"
    "\<not> truthy (dget meta' ''owner'')" "\<not> truthy (dget meta' ''claim_expires'')"
    "dget meta' ''execution_reservation'' = dget meta ''execution_reservation''"
  shows "refines kind meta meta'"
  using assms by (simp add: refines_def life_of_def claim_wf_def)

lemma clear_claim_fields [simp]:
  "dget (clear_claim meta status) ''status'' = status" "dget (clear_claim meta status) ''owner'' = PStr []"
  "dget (clear_claim meta status) ''claim_expires'' = PStr []"
  "dget (clear_claim meta status) ''execution_reservation'' = dget meta ''execution_reservation''"
  by (simp_all add: clear_claim_def)

lemma promote_refines:
  assumes "apply_promote args meta tasks = Inr (meta', msg)" "claim_wf meta"
  shows "refines ''promote'' meta meta'"
  using assms(1) by (intro idle_refines [OF assms(2)])
    (auto simp: apply_promote_def require_status_def require_unclaimed_def bindE_Inr raise_if_Inr intro: step_promote)

lemma claim_moves:
  assumes "apply_claim w args meta tasks = Inr (meta', msg)"
  shows "life_of meta = Idle (PStr ''open'')" "life_of meta' = Active (dget args ''owner'')"
    "truthy (dget args ''owner'') \<Longrightarrow> claim_wf meta'"
proof -
  obtain meta1 v where m: "dget meta ''status'' = PStr ''open''" "0 < int_of (dget args ''lease_minutes'')"
    "attach_claim_process (w_rt w) args (dset (dset meta ''owner'' (dget args ''owner'')) ''status'' (PStr ''in_progress'')) = Inr meta1"
    "lease_text (w_rt w) (dget args ''lease_minutes'') = Inr v" "meta' = dset meta1 ''claim_expires'' v"
    using assms(1) by (auto simp: apply_claim_def require_status_def bindE_Inr raise_if_Inr)
  have "dget meta1 ''status'' = PStr ''in_progress''" "dget meta1 ''owner'' = dget args ''owner''"
    using m(3) by (auto simp: attach_claim_process_def bindE_Inr split: option.splits)
  then show "life_of meta = Idle (PStr ''open'')" "life_of meta' = Active (dget args ''owner'')"
    "truthy (dget args ''owner'') \<Longrightarrow> claim_wf meta'"
    using m lease_text_live(2) [OF m(4,2)] by (simp_all add: life_of_def claim_wf_def)
qed

lemma claim_refines:
  assumes "apply_claim w args meta tasks = Inr (meta', msg)" "truthy (dget args ''owner'')"
  shows "refines ''claim'' meta meta'"
  using claim_moves [OF assms(1)] assms(2) by (simp add: refines_def step_claim)

lemma pause_refines:
  assumes "apply_pause w args meta = Inr (meta', msg)"
  shows "refines ''pause'' meta meta'"
  using assms by (intro in_progress_refines)
    (auto simp: apply_pause_def require_status_def bindE_Inr raise_if_Inr require_no_execution_reservation_Inr intro: step_pause)

lemma resume_refines:
  assumes "apply_resume w args meta = Inr (meta', msg)" "claim_wf meta"
  shows "refines ''resume'' meta meta'"
  using assms(1) by (intro idle_refines [OF assms(2)])
    (auto simp: apply_resume_def require_status_def require_unclaimed_def bindE_Inr raise_if_Inr intro: step_resume)

lemma unblock_refines:
  assumes "apply_unblock w args meta = Inr (meta', msg)" "claim_wf meta"
  shows "refines ''unblock'' meta meta'"
  using assms(1) by (intro idle_refines [OF assms(2)])
    (auto simp: apply_unblock_def require_status_def require_unclaimed_def bindE_Inr raise_if_Inr intro: step_unblock)

lemma no_live_fields:
  assumes "require_no_live_reservation meta at = Inr meta1"
  shows "dget meta1 ''status'' = dget meta ''status''" "dget meta1 ''owner'' = dget meta ''owner''"
    "dget meta1 ''execution_reservation'' = dget meta ''execution_reservation''" "dget meta1 ''task_revision'' = dget meta ''task_revision''"
  using no_live_writes [OF assms] by (simp_all add: writes_only_def)

lemma recover_expired_Inr:
  assumes "apply_recover_expired w args meta = Inr (meta', msg)"
  obtains meta1 where "dget meta ''status'' = PStr ''in_progress''" "truthy (dget meta ''owner'')"
    "meta' = clear_claim meta1 (PStr ''open'')" "dget meta1 ''execution_reservation'' = dget meta ''execution_reservation''"
    "\<exists>t. parse_claim_expiry (dget meta ''claim_expires'') = Inr t \<and> t \<le> rt_now (w_rt w)"
proof -
  let ?P = "\<lambda>m. meta' = clear_claim m (PStr ''open'') \<and> dget m ''execution_reservation'' = dget meta ''execution_reservation''"
  have g: "dget meta ''status'' = PStr ''in_progress'' \<and> truthy (dget meta ''owner'') \<and>
      (\<exists>t. parse_claim_expiry (dget meta ''claim_expires'') = Inr t \<and> t \<le> rt_now (w_rt w))"
    using assms unfolding apply_recover_expired_def Let_def
    by (elim bindE_elim) (auto simp: raise_if_Inr catchE_def not_less split: if_split_asm sum.split_asm)
  moreover have "\<exists>m. ?P m"
    using assms unfolding apply_recover_expired_def Let_def
    by (elim bindE_elim) (auto dest!: no_live_fields(3) simp: bindE_Inr split: option.split_asm if_split_asm)
  ultimately show ?thesis using that by blast
qed

lemma recover_expired_refines:
  assumes "apply_recover_expired_transition w args meta = Inr (meta', msg)"
  shows "refines ''recover-expired'' meta meta'"
proof -
  have a: "apply_recover_expired w args meta = Inr (meta', msg)" "dget meta ''execution_reservation'' = PNone"
    using assms by (auto simp: apply_recover_expired_transition_def bindE_Inr require_no_execution_reservation_Inr)
  show ?thesis
    using a(2) by (rule_tac recover_expired_Inr [OF a(1)]) (auto intro!: in_progress_refines step_recover)
qed

lemma valid_reservation_present: "require_valid_reservation meta text = Inr r \<Longrightarrow> dget meta ''execution_reservation'' \<noteq> PNone"
  by (auto simp: require_valid_reservation_def bindE_Inr raise_if_Inr Let_def valid_reservation_def)

lemma abandon_refines:
  assumes "execution_abandon rt args meta = Inr (meta', msg)" "claim_wf meta"
  shows "refines ''abandon-execution'' meta meta'"
proof -
  have "dget meta ''execution_reservation'' \<noteq> PNone"
    and m: "dget meta' ''status'' = PStr ''open''" "dget meta' ''owner'' = PStr []" "dget meta' ''claim_expires'' = PStr []"
      "dget meta' ''execution_reservation'' = PNone"
    using assms(1) unfolding execution_abandon_def
    by (auto elim!: bindE_elim dest: valid_reservation_present)
  then have "dget meta ''status'' = PStr ''in_progress''"
    using assms(2) by (auto simp: claim_wf_def split: if_splits)
  then show ?thesis using m by (intro in_progress_refines) (auto intro: step_abandon)
qed

lemma restore_same: "k \<notin> set ks \<Longrightarrow> dget (fold (restore_field st) ks m) k = dget m k"
  by (induction ks arbitrary: m) (auto simp: restore_field_def)

lemma rollback_refines:
  assumes "apply_rollback args meta = Inr (meta', msg)" "claim_wf meta"
  shows "refines ''rollback'' meta meta'"
proof -
  have keep: "dget (fold (restore_field st) ROLLBACK_FIELDS m) ''execution_reservation'' = dget m ''execution_reservation''" for st m
    by (rule restore_same) (simp add: ROLLBACK_FIELDS_def)
  have "\<not> truthy (dget meta ''owner'')" using assms(1) by (auto simp: apply_rollback_def require_unclaimed_def bindE_Inr raise_if_Inr Let_def)
  then have idle: "dget meta ''status'' \<noteq> PStr ''in_progress''" using assms(2) by (auto simp: claim_wf_def)
  have m: "dget meta' ''status'' \<noteq> PStr ''in_progress''" "dget meta' ''owner'' = PStr []" "dget meta' ''claim_expires'' = PStr []"
      "dget meta' ''execution_reservation'' = dget meta ''execution_reservation''"
    using assms(1) unfolding apply_rollback_def Let_def
    by (auto elim!: bindE_elim simp: keep split: if_split_asm)
  show ?thesis using m by (intro idle_refines [OF assms(2) idle]) (auto intro: step_rollback)
qed

lemma same_claim_refines:
  assumes "same_claim meta meta'" "claim_wf meta" "kind \<notin> set MOVES"
  shows "refines kind meta meta'"
proof -
  have "life_of meta' = life_of meta" using assms(1) by (simp add: life_of_def same_claim_def)
  moreover have "claim_wf meta'" using assms(1,2) by (auto simp: claim_wf_def same_claim_def)
  ultimately show ?thesis using step_other [OF assms(3)] by (simp add: refines_def)
qed

lemma owned_in_progress:
  assumes "require_owned_change_admission w args kind meta tasks policy = Inr u" "claim_wf meta" "truthy (dget args ''owner'')"
  shows "dget meta ''status'' = PStr ''in_progress''"
proof -
  have "py_eq (dget meta ''owner'') (dget args ''owner'')"
    using assms(1) by (auto simp: require_owned_change_admission_def bindE_Inr require_owner_Inr)
  then show ?thesis using assms(2,3) py_eq_truthy by (auto simp: claim_wf_def split: if_splits)
qed

lemma update_fields:
  assumes "apply_update args kind meta = Inr (meta', msg)"
  shows "dget args ''status'' = PNone \<or> dget args ''status'' = PStr ''in_progress''"
    "dget meta' ''status'' = (if dget args ''status'' = PNone then dget meta ''status'' else PStr ''in_progress'')"
    "k \<in> {''id'', ''task_revision'', ''owner'', ''claim_expires'', ''execution_reservation''} \<Longrightarrow> dget meta' k = dget meta k"
proof -
  let ?m = "fold (set_given args) [''status'', ''priority'', ''summary'', ''next_action''] meta"
  have "carry_run_hold args kind ?m = Inr meta'" and given: "dget args ''status'' = PNone \<or> dget args ''status'' = PStr ''in_progress''"
    using assms unfolding apply_update_def by (auto elim!: bindE_elim simp: raise_if_Inr simp del: fold.simps)
  then have "dget meta' k = dget ?m k" if "k \<noteq> ''autonomy_limits''" for k
    using that by (auto simp: carry_run_hold_def Let_def bindE_Inr simp del: fold.simps split: if_split_asm)
  then show "dget meta' ''status'' = (if dget args ''status'' = PNone then dget meta ''status'' else PStr ''in_progress'')"
    "k \<in> {''id'', ''task_revision'', ''owner'', ''claim_expires'', ''execution_reservation''} \<Longrightarrow> dget meta' k = dget meta k"
    using given by (auto simp: set_given_def)
  show "dget args ''status'' = PNone \<or> dget args ''status'' = PStr ''in_progress''" by (rule given)
qed

lemma update_same:
  assumes "apply_update args kind meta = Inr (meta', msg)" "dget meta ''status'' = PStr ''in_progress'' \<or> dget args ''status'' = PNone"
  shows "same_claim meta meta'"
proof -
  have "dget meta' k = dget meta k" if "k \<in> {''id'', ''task_revision'', ''owner'', ''claim_expires'', ''execution_reservation''}" for k
    using update_fields(3) [OF assms(1) that] .
  moreover have "dget meta' ''status'' = dget meta ''status''" using assms(2) update_fields(2) [OF assms(1)] by auto
  ultimately show ?thesis by (simp add: same_claim_def)
qed

lemma owned_change_cases:
  assumes "apply_owned_change w args kind meta tasks policy = Inr (meta', msg)" "claim_wf meta"
  obtains (release) "kind = ''release''" "meta' = clear_claim meta (dget args ''status'')" "dget meta ''execution_reservation'' = PNone"
    | (heartbeat) "kind = ''heartbeat''" "dget meta ''status'' = PStr ''in_progress''" "same_claim meta meta'"
    | (update) "kind \<noteq> ''release''" "kind \<noteq> ''heartbeat''" "apply_update args kind meta = Inr (meta', msg)"
proof -
  consider "kind = ''release''" | "kind = ''heartbeat''" | "kind \<noteq> ''release''" "kind \<noteq> ''heartbeat''" by blast
  then show thesis
  proof cases
    case 1
    then have "meta' = clear_claim meta (dget args ''status'')" "dget meta ''execution_reservation'' = PNone"
      using assms(1) by (auto simp: apply_owned_change_def require_owned_change_admission_def bindE_Inr require_no_execution_reservation_Inr)
    then show thesis by (rule release [OF 1])
  next
    case 2
    then obtain v where v: "dget meta ''status'' = PStr ''in_progress''" "0 < int_of (dget args ''lease_minutes'')"
      "lease_text (w_rt w) (dget args ''lease_minutes'') = Inr v" "meta' = dset meta ''claim_expires'' v"
      using assms(1) by (auto simp: apply_owned_change_def bindE_Inr raise_if_Inr)
    then have "same_claim meta meta'"
      using lease_text_live(2) assms(2) by (auto simp: same_claim_def claim_wf_def)
    then show thesis by (rule heartbeat [OF 2 v(1)])
  next
    case 3
    then have "apply_update args kind meta = Inr (meta', msg)"
      using assms(1) by (auto simp: apply_owned_change_def bindE_Inr)
    then show thesis by (rule update [OF 3])
  qed
qed

lemma owned_change_refines:
  assumes "apply_owned_change w args kind meta tasks policy = Inr (meta', msg)" "claim_wf meta" "dget meta ''status'' = PStr ''in_progress''"
    "kind = ''release'' \<longrightarrow> dget args ''status'' \<noteq> PStr ''in_progress''" "kind \<notin> set MOVES \<or> kind = ''release''"
  shows "refines kind meta meta'"
  using assms(1,2)
proof (cases rule: owned_change_cases)
  case release
  then show ?thesis using assms(3,4) by (auto intro!: in_progress_refines step_release)
next
  case heartbeat
  then show ?thesis using assms(2) by (intro same_claim_refines) (auto simp: MOVES_def)
next
  case update
  then show ?thesis using assms(2,3,5) by (intro same_claim_refines [OF update_same]) auto
qed

lemma unowned_change_refines:
  assumes "apply_owned_change w args kind meta tasks policy = Inr (meta', msg)" "claim_wf meta" "dget meta ''status'' \<noteq> PStr ''in_progress''"
    "kind = ''release'' \<longrightarrow> dget args ''status'' \<noteq> PStr ''in_progress''" "kind \<notin> set MOVES \<or> kind = ''release''" "kind \<notin> set HANDLED \<or> kind = ''heartbeat''"
  shows "refines kind meta meta' \<or> unowned_step kind (life_of meta) (life_of meta')"
  using assms(1,2)
proof (cases rule: owned_change_cases)
  case release
  then show ?thesis using assms(3,4) by (simp add: life_of_def unowned_release)
next
  case heartbeat
  then show ?thesis using assms(3) by simp
next
  case update
  show ?thesis
  proof (cases "dget args ''status'' = PNone")
    case True
    then have "same_claim meta meta'" using update(3) by (intro update_same) auto
    then show ?thesis using update assms(2,5) by (intro disjI1 same_claim_refines) auto
  next
    case False
    then have "life_of meta' = Active (dget meta ''owner'')" "life_of meta = Idle (dget meta ''status'')"
      using update_fields(2) [OF update(3)] update_fields(3) [OF update(3), of "''owner''"] False assms(3) by (simp_all add: life_of_def)
    moreover have "\<not> truthy (dget meta ''owner'')" using assms(2,3) by (simp add: claim_wf_def)
    ultimately show ?thesis using update assms(5,6) by (auto intro: unowned_update)
  qed
qed

lemma transition_handled:
  "apply_transition w args ''recover-execution'' meta tasks policy = execution_recover (w_rt w) args meta"
  "apply_transition w args ''gate'' meta tasks policy = apply_gate w args meta"
  "apply_transition w args ''change-drift'' meta tasks policy =
     bindE (projects_root w) (\<lambda>root. apply_drift (w_worktrees w root)
       (case w_config w of None \<Rightarrow> [] | Some settings \<Rightarrow> py_str (dget_or settings ''product_worktree'' (PStr []))) (now_text (w_rt w)) args meta)"
  "apply_transition w args ''assumption'' meta tasks policy =
     bindE (projects_root w) (\<lambda>root. apply_assumption (w_observer w root) args meta (map task_meta tasks))"
  "apply_transition w args ''retry-circuit'' meta tasks policy = retry_apply args meta (now_text (w_rt w))"
  "apply_transition w args ''retry-circuit-reserve'' meta tasks policy = apply_reserve args meta (now_text (w_rt w))"
  "apply_transition w args ''retry-circuit-resolve'' meta tasks policy = apply_resolve args meta (now_text (w_rt w))"
  "apply_transition w args ''checkpoint'' meta tasks policy = apply_checkpoint w args meta"
  "apply_transition w args ''accept'' meta tasks policy = apply_accept w args meta policy []"
  "apply_transition w args ''bind-spec'' meta tasks policy = apply_bind_spec w args meta policy"
  "apply_transition w args ''bind-worktree'' meta tasks policy = apply_bind_worktree w args meta tasks"
  "apply_transition w args ''repair-legacy-binding'' meta tasks policy = repair_binding args meta"
  "apply_transition w args ''repair-predicate-ledger'' meta tasks policy = repair_ledger (w_root w) (w_policy w) args meta policy"
  "apply_transition w args ''bind-envelope'' meta tasks policy = apply_bind_envelope w args meta"
  "apply_transition w args ''replace-envelope'' meta tasks policy = apply_replace_envelope w args meta"
  "apply_transition w args ''execution-start'' meta tasks policy = execution_start (w_rt w) args meta"
  "apply_transition w args ''execution-result'' meta tasks policy = execution_result args meta"
  "apply_transition w args ''execution-finish'' meta tasks policy = execution_finish args meta"
  by (simp_all add: apply_transition_def Let_def starts_with_def)

lemmas neutral_handlers = limits.run_keeps fence_recover.run_keeps gate.run_keeps drift_record.run_keeps assumption_record.run_keeps
  retry.run_keeps retry_slot.run_keeps retry_end.run_keeps checkpoint.run_keeps acceptance.run_keeps spec_binding.run_keeps
  worktree_binding.run_keeps legacy_binding.run_keeps ledger_repair.run_keeps envelope_binding.run_keeps envelope_exchange.run_keeps
  fence_start.run_keeps fence_result.run_keeps fence_finish.run_keeps

lemma handled_neutral:
  assumes "apply_transition w args kind meta tasks policy = Inr (meta', msg)" "kind \<in> set HANDLED" "kind \<noteq> ''heartbeat''"
  shows "same_claim meta meta'"
  using assms(2,1,3) unfolding HANDLED_def list.set insert_iff empty_iff
  by (elim disjE FalseE) (simp_all only: transition_handled, (auto elim!: bindE_elim intro: neutral_handlers)+)

lemma unhandled_neutral:
  assumes "apply_transition w args kind meta tasks policy = Inr (meta', msg)" "kind \<notin> set MOVES"
  shows "same_claim meta meta' \<or> apply_owned_change w args kind meta tasks policy = Inr (meta', msg)"
  using assms unfolding apply_transition_def Let_def MOVES_def
  by (auto split: if_split_asm elim!: bindE_elim intro: neutral_handlers)

lemma transition_neutral:
  assumes "apply_transition w args kind meta tasks policy = Inr (meta', msg)" "kind \<notin> set MOVES"
  shows "same_claim meta meta' \<or>
    (kind \<notin> set HANDLED \<or> kind = ''heartbeat'') \<and> apply_owned_change w args kind meta tasks policy = Inr (meta', msg)"
  using unhandled_neutral [OF assms] handled_neutral [OF assms(1)] by blast

lemma MOVES_cases [consumes 1]:
  assumes "kind \<in> set MOVES"
  obtains "kind = ''promote''" | "kind = ''claim''" | "kind = ''pause''" | "kind = ''resume''" | "kind = ''unblock''"
    | "kind = ''recover-expired''" | "kind = ''abandon-execution''" | "kind = ''release''" | "kind = ''rollback''"
  using assms unfolding MOVES_def list.set insert_iff empty_iff by (elim disjE FalseE) (erule that)+

lemma transition_moves:
  "apply_transition w args ''promote'' meta tasks policy = apply_promote args meta tasks"
  "apply_transition w args ''claim'' meta tasks policy = apply_claim w args meta tasks"
  "apply_transition w args ''pause'' meta tasks policy = apply_pause w args meta"
  "apply_transition w args ''resume'' meta tasks policy = apply_resume w args meta"
  "apply_transition w args ''unblock'' meta tasks policy = apply_unblock w args meta"
  "apply_transition w args ''recover-expired'' meta tasks policy = apply_recover_expired_transition w args meta"
  "apply_transition w args ''abandon-execution'' meta tasks policy = execution_abandon (w_rt w) args meta"
  "apply_transition w args ''release'' meta tasks policy = apply_owned_change w args ''release'' meta tasks policy"
  "apply_transition w args ''rollback'' meta tasks policy = apply_rollback args meta"
  by (simp_all add: apply_transition_def Let_def starts_with_def)

section \<open>The identity of a task\<close>

definition same_id :: "meta \<Rightarrow> meta \<Rightarrow> bool" where "same_id meta meta' = (dget meta' ''id'' = dget meta ''id'' \<and> dget meta' ''task_revision'' = dget meta ''task_revision'')"

lemma same_id_moves:
  "apply_promote args meta tasks = Inr (meta', msg) \<Longrightarrow> same_id meta meta'"
  "apply_pause w args meta = Inr (meta', msg) \<Longrightarrow> same_id meta meta'"
  "apply_resume w args meta = Inr (meta', msg) \<Longrightarrow> same_id meta meta'"
  "apply_unblock w args meta = Inr (meta', msg) \<Longrightarrow> same_id meta meta'"
  by (auto simp: apply_promote_def apply_pause_def apply_resume_def apply_unblock_def clear_claim_def same_id_def elim!: bindE_elim)

lemma claim_same_id: "apply_claim w args meta tasks = Inr (meta', msg) \<Longrightarrow> same_id meta meta'"
  by (auto simp: apply_claim_def attach_claim_process_def same_id_def elim!: bindE_elim split: option.split_asm)

lemma recover_expired_same_id: "apply_recover_expired_transition w args meta = Inr (meta', msg) \<Longrightarrow> same_id meta meta'"
  unfolding apply_recover_expired_transition_def apply_recover_expired_def Let_def
  by (elim bindE_elim) (auto dest!: no_live_writes simp: writes_only_def clear_claim_def same_id_def elim!: bindE_elim split: option.split_asm if_split_asm)

lemma abandon_same_id: "execution_abandon rt args meta = Inr (meta', msg) \<Longrightarrow> same_id meta meta'"
  unfolding execution_abandon_def by (auto elim!: bindE_elim simp: same_id_def)

lemma owned_change_same_id: "apply_owned_change w args kind meta tasks policy = Inr (meta', msg) \<Longrightarrow> same_id meta meta'"
  by (auto simp: apply_owned_change_def apply_update_def carry_run_hold_def set_given_def clear_claim_def same_id_def Let_def
      elim!: bindE_elim split: if_split_asm)

lemma rollback_same_id: "apply_rollback args meta = Inr (meta', msg) \<Longrightarrow> same_id meta meta'"
  using restore_same [of "''id''" ROLLBACK_FIELDS] restore_same [of "''task_revision''" ROLLBACK_FIELDS] unfolding apply_rollback_def Let_def
  by (auto elim!: bindE_elim simp: same_id_def ROLLBACK_FIELDS_def split: if_split_asm)

lemma transition_same_id:
  assumes "apply_transition w args kind meta tasks policy = Inr (meta', msg)"
  shows "same_id meta meta'"
proof (cases "kind \<in> set MOVES")
  case True
  then show ?thesis
    using assms by (cases rule: MOVES_cases)
      (simp_all add: transition_moves same_id_moves claim_same_id recover_expired_same_id abandon_same_id owned_change_same_id rollback_same_id)
next
  case False
  then show ?thesis using transition_neutral [OF assms] owned_change_same_id by (auto simp: same_claim_def same_id_def)
qed

section \<open>The lifecycle relation\<close>

lemma unowned_change:
  assumes "apply_owned_change w args kind meta tasks policy = Inr (meta', msg)" "claim_wf meta" "dget meta ''status'' \<noteq> PStr ''in_progress''"
  shows "\<not> truthy (dget args ''owner'')"
  using assms owned_in_progress by (auto simp: apply_owned_change_def bindE_Inr)

lemma owned_change_moves:
  assumes "apply_owned_change w args kind meta tasks policy = Inr (meta', msg)" "claim_wf meta"
    "kind = ''release'' \<longrightarrow> dget args ''status'' \<noteq> PStr ''in_progress''" "kind \<notin> set MOVES \<or> kind = ''release''" "kind \<notin> set HANDLED \<or> kind = ''heartbeat''"
  shows "refines kind meta meta' \<or> \<not> truthy (dget args ''owner'') \<and> unowned_step kind (life_of meta) (life_of meta')"
  using owned_change_refines [OF assms(1,2) _ assms(3,4)] unowned_change_refines [OF assms(1,2) _ assms(3-5)] unowned_change [OF assms(1,2)]
  by blast

lemma transition_refines:
  assumes "apply_transition w args kind meta tasks policy = Inr (meta', msg)" "claim_wf meta"
    "kind = ''release'' \<longrightarrow> dget args ''status'' \<noteq> PStr ''in_progress''"
  shows "refines kind meta meta' \<or> \<not> truthy (dget args ''owner'') \<and> unowned_step kind (life_of meta) (life_of meta')"
proof (cases "kind \<in> set MOVES")
  case True
  then show ?thesis
  proof (cases rule: MOVES_cases)
    case 1
    show ?thesis using assms(1) unfolding 1 transition_moves by (intro disjI1 promote_refines [OF _ assms(2)])
  next
    case 2
    have c: "apply_claim w args meta tasks = Inr (meta', msg)" using assms(1) unfolding 2 transition_moves .
    show ?thesis using claim_refines [OF c] claim_moves [OF c] unfolding 2 by (auto intro: unowned_claim)
  next
    case 3
    show ?thesis using assms(1) unfolding 3 transition_moves by (intro disjI1 pause_refines)
  next
    case 4
    show ?thesis using assms(1) unfolding 4 transition_moves by (intro disjI1 resume_refines [OF _ assms(2)])
  next
    case 5
    show ?thesis using assms(1) unfolding 5 transition_moves by (intro disjI1 unblock_refines [OF _ assms(2)])
  next
    case 6
    show ?thesis using assms(1) unfolding 6 transition_moves by (intro disjI1 recover_expired_refines)
  next
    case 7
    show ?thesis using assms(1) unfolding 7 transition_moves by (intro disjI1 abandon_refines [OF _ assms(2)])
  next
    case 8
    show ?thesis using assms(1,3) unfolding 8 transition_moves by (intro owned_change_moves [OF _ assms(2)]) (auto simp: HANDLED_def)
  next
    case 9
    show ?thesis using assms(1) unfolding 9 transition_moves by (intro disjI1 rollback_refines [OF _ assms(2)])
  qed
next
  case False
  then show ?thesis
    using transition_neutral [OF assms(1) False] same_claim_refines [OF _ assms(2) False] owned_change_moves [OF _ assms(2,3)] by blast
qed

lemma denial_texts:
  "done_admission_error root src meta policy = Inr (Some m) \<Longrightarrow> m \<noteq> []"
  "open_child_error meta tasks = Inr (Some m) \<Longrightarrow> m \<noteq> []"
  "drift_done_error meta = Inr (Some m) \<Longrightarrow> m \<noteq> []"
  "assumption_freshness w meta ms = Inr (Some m) \<Longrightarrow> m \<noteq> []"
proof -
  show "done_admission_error root src meta policy = Inr (Some m) \<Longrightarrow> m \<noteq> []"
    by (auto simp: done_admission_error_def acceptance_error_def Let_def bindE_Inr split: if_split_asm sum.split_asm)
  show "open_child_error meta tasks = Inr (Some m) \<Longrightarrow> m \<noteq> []"
    by (auto simp: open_child_error_def Let_def bindE_Inr split: if_split_asm)
  show "drift_done_error meta = Inr (Some m) \<Longrightarrow> m \<noteq> []"
    by (auto simp: drift_done_error_def completion_error_def Let_def bindE_Inr split: if_split_asm sum.split_asm)
  have stale: "stale_assumption ob meta ms rs = Inr (Some m) \<Longrightarrow> m \<noteq> []" for ob rs
    by (induction rs) (auto simp: bindE_Inr split: if_split_asm)
  have "assumption_admission_error ob meta ms = Inr (Some m) \<Longrightarrow> m \<noteq> []" for ob
    using stale by (cases "bindE (assumption_records meta) (\<lambda>rs. stale_assumption ob meta ms (active_assumptions rs))")
      (auto simp: assumption_admission_error_def bindE_Inr split: if_split_asm)
  then show "assumption_freshness w meta ms = Inr (Some m) \<Longrightarrow> m \<noteq> []"
    by (auto simp: assumption_freshness_def bindE_Inr split: if_split_asm)
qed

lemma deny_passes:
  assumes "bindE m deny = Inr u" "\<And>t. m = Inr (Some t) \<Longrightarrow> t \<noteq> []"
  shows "m = Inr None"
proof -
  obtain e where e: "m = Inr e" "deny e = Inr u" using assms(1) by (auto simp: bindE_Inr)
  then show ?thesis using assms(2) by (cases e) (auto simp: deny_def raise_if_Inr)
qed

lemma done_admitted:
  assumes "require_done_admission w meta tasks policy = Inr u" "dget meta ''status'' = PStr ''in_progress''"
  shows "done_admission_error (w_root w) (w_policy w) meta policy = Inr None" "open_child_error meta tasks = Inr None"
    "drift_done_error meta = Inr None" "assumption_freshness w meta (map task_meta tasks) = Inr None"
  using assms unfolding require_done_admission_def
  by (auto elim!: bindE_elim [of "bindE m deny" for m] dest: deny_passes [OF _ denial_texts(1)] deny_passes [OF _ denial_texts(2)]
      deny_passes [OF _ denial_texts(3)] deny_passes [OF _ denial_texts(4)])

section \<open>Properties\<close>

text \<open>
  Property C6. A command that the dispatcher accepts on a task with a coherent claim (in progress with an owner and a
  lease, or else with neither and with no reserved execution) is a move of the abstract lifecycle and leaves the claim
  coherent. The one exception is a command with an empty owner argument on an idle task, and what such a command can do
  is listed by \<open>unowned_step\<close>: claim it for nobody, update it to be in progress for nobody, or release it to another
  status. A release is taken to name a status other than in progress, as the command line offers no such choice.
\<close>

theorem lifecycle_refines:
  assumes "apply_transition w args kind meta tasks policy = Inr (meta', msg)"
    and "claim_wf meta"
    and "kind = ''release'' \<longrightarrow> dget args ''status'' \<noteq> PStr ''in_progress''"
  shows "life_step kind (life_of meta) (life_of meta') \<and> claim_wf meta' \<or>
    \<not> truthy (dget args ''owner'') \<and> unowned_step kind (life_of meta) (life_of meta')"
  using transition_refines [OF assms] by (simp add: refines_def)

text \<open>
  Property C5. A task with a coherent claim becomes done only by the release of its owner with every admission passed
  (the evidence its specification asks for, no open child, no unexplained change, no stale assumption), by the
  restoration of a checkpoint, or by the release of a task that is not in progress with an empty owner argument.
\<close>

theorem done_only_admitted:
  assumes "apply_transition w args kind meta tasks policy = Inr (meta', msg)"
    and "claim_wf meta"
    and "dget meta ''status'' \<noteq> PStr ''done''" and "dget meta' ''status'' = PStr ''done''"
  shows "kind = ''rollback'' \<or>
    kind = ''release'' \<and> dget meta ''status'' \<noteq> PStr ''in_progress'' \<and> \<not> truthy (dget args ''owner'') \<or>
    kind = ''release'' \<and> dget meta ''status'' = PStr ''in_progress'' \<and> py_eq (dget meta ''owner'') (dget args ''owner'') \<and>
    done_admission_error (w_root w) (w_policy w) meta policy = Inr None \<and> open_child_error meta tasks = Inr None \<and>
    drift_done_error meta = Inr None \<and> assumption_freshness w meta (map task_meta tasks) = Inr None"
proof (cases "kind = ''release''")
  case True
  then have rel: "apply_owned_change w args ''release'' meta tasks policy = Inr (meta', msg)"
    using assms(1) by (simp add: transition_moves)
  then have adm: "require_owned_change_admission w args ''release'' meta tasks policy = Inr ()"
    and st: "dget args ''status'' = PStr ''done''"
    using assms(4) by (auto simp: apply_owned_change_def bindE_Inr)
  have "require_done_admission w meta tasks policy = Inr ()" "py_eq (dget meta ''owner'') (dget args ''owner'')"
    using adm st by (auto simp: require_owned_change_admission_def require_release_admission_def bindE_Inr require_owner_Inr)
  then show ?thesis
    using True done_admitted [of w meta tasks policy] unowned_change [OF rel assms(2)] by (cases "dget meta ''status'' = PStr ''in_progress''") simp_all
next
  case False
  have "life_of meta' = Idle (PStr ''done'')" "life_of meta \<noteq> Idle (PStr ''done'')"
    using assms(3,4) by (auto simp: life_of_def)
  then show ?thesis
    using False transition_refines [OF assms(1,2)] by (auto simp: refines_def done_step_iff unowned_done_iff)
qed

text \<open>
  Property C33. The release to done of a task that is not in progress and has no owner, with an empty owner argument,
  consults the execution fence and the oracle gate and nothing else: when both pass, the task is done, with none of the
  admissions of a release by its owner (evidence, open children, drift, stale assumptions).
\<close>

theorem unowned_release_is_done:
  assumes "dget meta ''status'' \<noteq> PStr ''in_progress''" "dget meta ''owner'' = PStr []"
    and "dget args ''owner'' = PStr []" "dget args ''status'' = PStr ''done''"
  shows "apply_transition w args ''release'' meta tasks policy =
    bindE (require_no_execution_reservation meta) (\<lambda>_. bindE (gate_to_runtime (transition_allowed meta ''release'')) (\<lambda>_.
      Inr (clear_claim meta (PStr ''done''), arg_str args ''note'')))"
  using assms
  by (cases "require_no_execution_reservation meta")
    (simp_all add: transition_moves apply_owned_change_def require_owned_change_admission_def require_owner_def require_release_admission_def
      require_done_admission_def)

section \<open>Examples\<close>

definition example_world :: world where
  "example_world = \<lparr>w_rt = early_runtime, w_sessions = (\<lambda>_. Inr []), w_envelopes = (\<lambda>_. SourceSymlink),
     w_root = \<lparr>root_json = (\<lambda>_. Inl []), root_artifact = (\<lambda>_. None)\<rparr>, w_policy = PolicyAbsent False, w_config = None,
     w_ref_format = (\<lambda>_. True), w_direct = (\<lambda>_ _. True), w_observer = (\<lambda>_. example_observer), w_worktrees = (\<lambda>_ _. None)\<rparr>"

definition example_open :: meta where
  "example_open = [(''id'', PStr ''AR-0001''), (''status'', PStr ''open''), (''owner'', PStr []), (''claim_expires'', PStr []), (''task_revision'', PInt 3)]"

definition example_claim :: namespace where
  "example_claim = [(''task'', PStr ''AR-0001''), (''owner'', PStr ''dev''), (''lease_minutes'', PInt 30)]"

definition example_active :: meta where
  "example_active = [(''id'', PStr ''AR-0001''), (''status'', PStr ''in_progress''), (''owner'', PStr ''dev''), (''claim_expires'', PStr ''2026''),
     (''task_revision'', PInt 4), (''spec_acceptance'', PDict [(''status'', PStr ''pass''), (''evidence_class'', PStr ''mechanical''),
       (''evidence_ref'', PStr ''docs/evidence''), (''evidence_digest'', PStr (digest PNone)), (''match'', PStr ''best_effort'')])]"

definition example_release :: namespace where
  "example_release = [(''task'', PStr ''AR-0001''), (''owner'', PStr ''dev''), (''status'', PStr ''done''), (''note'', PStr ''finished'')]"

lemma example_claimed: "\<exists>meta' msg. apply_transition example_world example_claim ''claim'' example_open [] None = Inr (meta', msg)"
proof -
  have "\<exists>v. lease_text early_runtime (PInt 30) = Inr v"
    by (simp add: lease_text_def lease_end_def early_runtime_def in_range_def max_us_def max_ordinal_def day_us_def second_us_def)
  then obtain v where "lease_text early_runtime (PInt 30) = Inr v" by blast
  then show ?thesis
    unfolding transition_moves
    by (simp add: apply_claim_def example_world_def example_claim_def example_open_def require_status_def require_role_admission_def
        early_runtime_def example_runtime_def require_dependencies_def pending_dependencies_def transition_allowed_def gate_to_runtime_def
        held_tasks_def attach_claim_process_def claimed_process_identity_def)
qed

theorem lifecycle_refines_witness:
  "\<exists>meta' msg. apply_transition example_world example_claim ''claim'' example_open [] None = Inr (meta', msg) \<and>
     life_step ''claim'' (life_of example_open) (life_of meta') \<and> claim_wf meta'"
proof -
  obtain meta' msg where m: "apply_transition example_world example_claim ''claim'' example_open [] None = Inr (meta', msg)"
    using example_claimed by blast
  have "claim_wf example_open" "truthy (dget example_claim ''owner'')"
    by (simp_all add: claim_wf_def example_open_def example_claim_def)
  then show ?thesis using lifecycle_refines [OF m] m by auto
qed

lemma example_done_release:
  "apply_transition example_world example_release ''release'' example_active [] None = Inr (clear_claim example_active (PStr ''done''), ''finished'')"
proof -
  have g: "dget example_active ''status'' = PStr ''in_progress''" "dget example_active ''owner'' = PStr ''dev''"
    "dget example_active ''execution_reservation'' = PNone" "dget example_active ''oracle_gate'' = PNone"
    "dget example_active ''evidence_ledger'' = PNone" "\<not> dhas example_active ''spec_ref''" "\<not> dhas example_active ''spec_revision''"
    "dget_or example_active ''change_drift'' (PList []) = PList []" "dget_or example_active ''assumption_revalidation'' (PList []) = PList []"
    by (simp_all add: example_active_def)
  have "is_evidence_ref ''docs/evidence''" by code_simp
  then have "acceptance_error example_active EVIDENCE_CLASSES = Inr None"
    by (simp add: acceptance_error_def example_active_def keys_exact_def dkeys_def acceptance_keys_def hash_in_def EVIDENCE_CLASSES_def not_text_def)
  then have d: "done_admission_error (w_root example_world) (PolicyAbsent False) example_active None = Inr None"
    using g by (simp add: done_admission_error_def task_spec_errors_def select_policy_def load_evidence_policy_def DEFAULT_EVIDENCE_POLICY_def)
  have c: "open_child_error example_active [] = Inr None" by (simp add: open_child_error_def)
  have r: "drift_done_error example_active = Inr None" using g by (simp add: drift_done_error_def drift_records_def completion_error_def unresolved_def latest_of_def)
  have a: "assumption_freshness example_world example_active [] = Inr None"
    using g by (simp add: assumption_freshness_def needs_admission_def assumption_records_def active_assumptions_def)
  have "require_done_admission example_world example_active [] None = Inr ()"
    using d c r a by (simp add: require_done_admission_def deny_def example_world_def)
  then show ?thesis
    using g unfolding transition_moves
    by (simp add: apply_owned_change_def require_owned_change_admission_def require_owner_def require_release_admission_def
      require_no_execution_reservation_def transition_allowed_def gate_to_runtime_def example_release_def arg_str_def)
qed

theorem done_only_admitted_witness:
  "done_admission_error (w_root example_world) (w_policy example_world) example_active None = Inr None"
proof -
  have "claim_wf example_active" "truthy (dget example_release ''owner'')" "dget example_active ''status'' \<noteq> PStr ''done''"
    by (simp_all add: claim_wf_def example_active_def example_release_def)
  then show ?thesis using done_only_admitted [OF example_done_release] by simp
qed

theorem unowned_release_is_done_witness:
  "apply_transition example_world [(''task'', PStr ''AR-0001''), (''owner'', PStr []), (''status'', PStr ''done''), (''note'', PStr ''x'')] ''release''
     example_open [] None = Inr (clear_claim example_open (PStr ''done''), ''x'')"
  by (subst unowned_release_is_done)
    (simp_all add: example_open_def arg_str_def require_no_execution_reservation_def transition_allowed_def gate_to_runtime_def)

end
