(* ===== verification/Task_Records.thy ===== *)
theory Task_Records
  imports Lifecycle
begin

text \<open>
  The validators of task records and of the whole board, from \<open>src/tools/handoffctl.py\<close>: the schema of one
  record (\<open>field_errors\<close>, \<open>value_errors\<close>, \<open>execution_metadata_errors\<close>, \<open>reference_errors\<close>), its claim
  (\<open>claim_errors\<close>) and what a mutation checks of all tasks together (\<open>supersession_errors\<close>,
  \<open>mutation_global_errors\<close>).

  \<open>ck_plan path plan\<close> tells whether the plan of the task at \<open>path\<close> is a file, \<open>ck_private path text\<close> whether
  \<open>private_text_errors\<close> (a table of regular expressions) finds something in the text. The unknown
  fields of a record are a set in the source and reported here in the order of the record.
\<close>

section \<open>The schema\<close>

record checker =
  ck_world :: world
  ck_plan :: "string \<Rightarrow> string \<Rightarrow> bool"
  ck_private :: "string \<Rightarrow> string \<Rightarrow> bool"

definition STATUSES :: "string list" where
  "STATUSES = [''in_progress'', ''open'', ''blocked'', ''planned'', ''future'', ''done'', ''cancelled'', ''superseded'']"

definition PRIORITIES :: "string list" where "PRIORITIES = [''P0'', ''P1'', ''P2'', ''P3'', ''P4'']"

definition REQ :: "string list" where
  "REQ = [''schema_version'', ''id'', ''title'', ''status'', ''priority'', ''summary'', ''next_action'', ''task_revision'', ''updated_at'']"

definition FIELDS :: "string list" where
  "FIELDS = REQ @ [''short_title'', ''owner'', ''role'', ''team'', ''claim_expires'', ''claim_process'', ''worktree_key'', ''branch'',
     ''checkpoint_commit'', ''plan'', ''depends_on'', ''observed_branch'', ''observed_head'', ''observed_dirty'', ''superseded_by'',
     ''oracle_gate'', ''spec_ref'', ''spec_revision'', ''spec_acceptance'', ''evidence_ledger'', ''execution_envelope_ref'',
     ''execution_envelope_revision'', ''execution_envelope_task_revision'', ''execution_envelope_digest'', ''execution_envelope'',
     ''execution_reservation'', ''execution_result'', ''execution_abandonments'', ''parent_task_ref'', ''children'', ''issue_series'',
     ''change_drift'', ''assumption_revalidation'', ''retry_circuit'', ''autonomy_limits'']"

definition field_errors :: "string \<Rightarrow> meta \<Rightarrow> string list" where
  "field_errors path meta =
     map (\<lambda>k. path @ '': missing '' @ k) (filter (\<lambda>k. \<not> dhas meta k) REQ) @
     map (\<lambda>k. path @ '': unknown field '' @ k) (filter (\<lambda>k. k \<notin> set FIELDS) (dkeys meta))"

definition is_control :: "char \<Rightarrow> bool" where
  "is_control c = ((of_char c :: nat) < 32 \<or> (of_char c :: nat) = 127)"

definition short_title_errors :: "checker \<Rightarrow> string \<Rightarrow> string \<Rightarrow> pyval \<Rightarrow> string list" where
  "short_title_errors ck path task_id v =
     (if v = PNone then []
      else if \<not> is_str v \<or> strip (str_of v) = [] \<or> list_ex is_control (str_of v) then [task_id @ '': invalid short_title'']
      else if 120 < length (str_of v) then [task_id @ '': short_title exceeds 120 characters'']
      else if 4 < length (words (str_of v)) then [task_id @ '': short_title exceeds four words'']
      else if ck_private ck path (str_of v) then [task_id @ '': privacy-unsafe short_title'']
      else [])"

text \<open>\<open>if error := f(meta): errors.append(f"{task_id}: {error}")\<close>.\<close>

definition found_error :: "string \<Rightarrow> string option \<Rightarrow> string list" where
  "found_error task_id e = (case e of None \<Rightarrow> [] | Some m \<Rightarrow> if m = [] then [] else [task_id @ '': '' @ m])"

definition if_given :: "pyval \<Rightarrow> bool result \<Rightarrow> bool result" where
  "if_given v m = (if v = PNone then Inr True else m)"

definition execution_abandonment_errors :: "string \<Rightarrow> meta \<Rightarrow> string list" where
  "execution_abandonment_errors task_id meta =
     (if valid_records (dget meta ''execution_abandonments'') then [] else [task_id @ '': invalid execution_abandonments''])"

definition execution_metadata_errors :: "string \<Rightarrow> meta \<Rightarrow> string list result" where
  "execution_metadata_errors task_id meta =
     (let process = dget meta ''claim_process''; reservation = dget meta ''execution_reservation''; res = dget meta ''execution_result'' in
      bindE (if_given reservation (valid_reservation reservation)) (\<lambda>reserved.
      bindE (if_given res (receipt_valid res)) (\<lambda>received.
      bindE (drift_metadata_error meta) (\<lambda>drift.
      bindE (assumption_metadata_error meta) (\<lambda>assumption.
      bindE (retry_metadata_error meta) (\<lambda>retry.
      bindE (limits_metadata_error meta) (\<lambda>limits.
      Inr (
        (if process \<noteq> PNone \<and> \<not> valid_claim_process process then [task_id @ '': invalid claim_process''] else []) @
        (if \<not> reserved then [task_id @ '': invalid execution_reservation''] else []) @
        (if \<not> received then [task_id @ '': invalid execution_result''] else []) @
        execution_abandonment_errors task_id meta @
        (if \<not> valid_binding meta then [task_id @ '': invalid execution envelope binding''] else []) @
        (if \<not> valid_replacements (dget meta ''execution_envelope_replacements'')
         then [task_id @ '': invalid execution envelope replacements''] else []) @
        found_error task_id drift @ found_error task_id assumption @ found_error task_id retry @ found_error task_id limits))))))))"

definition bad_revision :: "meta \<Rightarrow> bool" where
  "bad_revision meta = (\<not> is_int (dget meta ''task_revision'') \<or> int_of (dget meta ''task_revision'') < 1)"

definition TEXT_FIELDS :: "string list" where "TEXT_FIELDS = [''title'', ''summary'', ''next_action'', ''updated_at'']"

definition value_errors :: "checker \<Rightarrow> string \<Rightarrow> meta \<Rightarrow> string list result" where
  "value_errors ck path meta =
     (let v = dget_or meta ''id'' (PStr []); task_id = py_str v; key = dget meta ''worktree_key'' in
      bindE (raise_if (\<not> is_str v) (TypeError ''expected string or bytes-like object'')) (\<lambda>_.
      bindE (gate_errors (dget meta ''oracle_gate'')) (\<lambda>gate.
      bindE (execution_metadata_errors task_id meta) (\<lambda>execution.
      Inr (
        (if \<not> is_task_id (str_of v) then [path @ '': invalid id''] else []) @
        (if \<not> py_in (dget meta ''status'') (map PStr STATUSES) then [task_id @ '': invalid status''] else []) @
        (if \<not> py_in (dget meta ''priority'') (map PStr PRIORITIES) then [task_id @ '': invalid priority''] else []) @
        (if bad_revision meta then [task_id @ '': invalid revision''] else []) @
        map (\<lambda>name. task_id @ '': invalid '' @ name)
          (filter (\<lambda>name. \<not> is_str (dget meta name) \<or> \<not> truthy (dget meta name)) TEXT_FIELDS) @
        short_title_errors ck path task_id (dget meta ''short_title'') @
        (if \<not> py_in key [PNone, PStr []] \<and> \<not> valid_binding_worktree (ck_world ck) key then [task_id @ '': invalid worktree_key''] else []) @
        map (\<lambda>e. task_id @ '': '' @ e) gate @
        execution)))))"

section \<open>References\<close>

text \<open>\<open>v and not test(v)\<close> for a test that wants a string.\<close>

definition fails_text :: "pyval \<Rightarrow> (string \<Rightarrow> bool) \<Rightarrow> bool result" where
  "fails_text v ok = (if \<not> truthy v then Inr False else if is_str v then Inr (\<not> ok (str_of v)) else Inl (TypeError ''expected string''))"

definition updated_at_bad :: "meta \<Rightarrow> bool result" where
  "updated_at_bad meta =
     (case from_iso_z (py_str (dget_or meta ''updated_at'' (PStr []))) of
        Inr _ \<Rightarrow> Inr False | Inl e \<Rightarrow> if is_value_error e then Inr True else Inl e)"

definition bound_envelope_errors :: "string \<Rightarrow> meta \<Rightarrow> string list result" where
  "bound_envelope_errors task_id meta =
     (let envelope = dget meta ''execution_envelope''; d = dict_of envelope in
      if \<not> is_str (dget meta ''execution_envelope_ref'') then Inr []
      else
        bindE (envelope_errors envelope) (\<lambda>found.
        Inr (if \<not> is_dict envelope \<or> found \<noteq> [] then [task_id @ '': invalid execution envelope: '' @ join ''; '' found]
          else if dget meta ''execution_envelope_digest'' \<noteq> PStr (canonical_digest d) then [task_id @ '': execution envelope digest mismatch'']
          else if \<not> py_eq (dget meta ''execution_envelope_revision'') (dget d ''envelope_revision'')
            then [task_id @ '': execution envelope revision mismatch'']
          else if \<not> py_eq (dget meta ''execution_envelope_task_revision'') (dget d ''task_revision'')
            then [task_id @ '': execution envelope task revision mismatch'']
          else [])))"

definition reference_errors :: "checker \<Rightarrow> string \<Rightarrow> meta \<Rightarrow> string list result" where
  "reference_errors ck path meta =
     (let task_id = id_of meta in
      bindE (updated_at_bad meta) (\<lambda>updated.
      bindE (fails_text (dget meta ''checkpoint_commit'') (all_hex 40)) (\<lambda>checkpoint.
      bindE (fails_text (dget meta ''plan'') (ck_plan ck path)) (\<lambda>plan.
      bindE (bound_envelope_errors task_id meta) (\<lambda>envelope.
      Inr ((if updated then [task_id @ '': invalid updated_at''] else []) @
           (if checkpoint then [task_id @ '': invalid checkpoint commit''] else []) @
           (if plan then [task_id @ '': missing plan '' @ py_str (dget meta ''plan'')] else []) @ envelope))))))"

definition basic_task_errors :: "checker \<Rightarrow> string \<Rightarrow> meta \<Rightarrow> evidence_policy option \<Rightarrow> bool \<Rightarrow> string list result" where
  "basic_task_errors ck path meta policy include_ledger =
     bindE (value_errors ck path meta) (\<lambda>values.
     bindE (reference_errors ck path meta) (\<lambda>references.
     bindE (task_spec_errors (w_root (ck_world ck)) (w_policy (ck_world ck)) meta policy include_ledger) (\<lambda>spec.
     Inr (field_errors path meta @ values @ references @ spec))))"

section \<open>The board\<close>

definition supersession_error :: "task list \<Rightarrow> meta \<Rightarrow> string list" where
  "supersession_error tasks meta =
     (let successor = dget meta ''superseded_by''; task_id = id_of meta in
      if successor = PNone then []
      else if dget meta ''status'' \<noteq> PStr ''superseded'' then [task_id @ '': superseded_by requires superseded status'']
      else if \<not> is_str successor \<or> \<not> is_task_id (str_of successor) then [task_id @ '': invalid superseded_by'']
      else if str_of successor = task_id then [task_id @ '': superseded_by self reference'']
      else if by_id tasks (str_of successor) = None then [task_id @ '': missing superseded_by task '' @ str_of successor]
      else if \<not> dependency_satisfied (str_of successor) tasks then [task_id @ '': superseded_by chain does not end in done task'']
      else [])"

definition supersession_errors :: "task list \<Rightarrow> string list result" where
  "supersession_errors tasks =
     bindE (raise_if (\<not> list_all (\<lambda>t. hashable (dget (task_meta t) ''id'')) tasks) (TypeError ''unhashable type'')) (\<lambda>_.
     Inr (concat (map (\<lambda>t. supersession_error tasks (task_meta t)) tasks)))"

text \<open>The dictionaries \<open>active_owners\<close>, \<open>active_worktrees\<close> and \<open>active_branches\<close>, by the field they are for.\<close>

type_synonym seen = "string \<Rightarrow> (pyval \<times> string) list"

definition ACTIVE_KEYS :: "string list" where "ACTIVE_KEYS = [''owner'', ''worktree_key'', ''branch'']"

definition use_key :: "string \<Rightarrow> meta \<Rightarrow> string \<Rightarrow> string list \<times> seen \<Rightarrow> (string list \<times> seen) result" where
  "use_key task_id meta field = (\<lambda>(errors, seen).
     let v = dget meta field in
     if \<not> truthy v then Inr (errors, seen)
     else if \<not> hashable v then Inl (TypeError ''unhashable type'')
     else case find (\<lambda>kv. py_eq v (fst kv)) (seen field) of
       Some kv \<Rightarrow> Inr (errors @ [task_id @ '': active '' @ field @ '' also used by '' @ snd kv], seen)
     | None \<Rightarrow> Inr (errors, seen(field := seen field @ [(v, task_id)])))"

definition claim_errors :: "runtime \<Rightarrow> meta \<Rightarrow> seen \<Rightarrow> (string list \<times> seen) result" where
  "claim_errors rt meta seen =
     (let task_id = id_of meta in
      if dget meta ''status'' \<noteq> PStr ''in_progress'' then
        Inr (if truthy (dget meta ''owner'') \<or> truthy (dget meta ''claim_expires'') then [task_id @ '': inactive task retains claim''] else [], seen)
      else
        bindE (active_expiry_errors rt task_id (dget meta ''claim_expires'')) (\<lambda>expiry.
        fold_result (use_key task_id meta) ACTIVE_KEYS
          ((if \<not> truthy (dget meta ''owner'') then [task_id @ '': active without claim''] else []) @ expiry, seen)))"

definition global_step :: "task \<Rightarrow> string list \<times> string list \<times> seen \<Rightarrow> (string list \<times> string list \<times> seen) result" where
  "global_step t = (\<lambda>(errors, ids, seen).
     let meta = task_meta t; task_id = id_of meta;
         errors1 = (if task_id \<in> set ids then errors @ [''duplicate '' @ task_id] else errors) in
     if dget meta ''status'' \<noteq> PStr ''in_progress'' then Inr (errors1, ids @ [task_id], seen)
     else bindE (fold_result (use_key task_id meta) ACTIVE_KEYS (errors1, seen)) (\<lambda>(errors2, seen2). Inr (errors2, ids @ [task_id], seen2)))"

definition mutation_global_errors :: "task list \<Rightarrow> string list result" where
  "mutation_global_errors tasks =
     bindE (fold_result global_step tasks ([], [], \<lambda>_. [])) (\<lambda>(errors, _, _).
     bindE (supersession_errors tasks) (\<lambda>supersession.
     Inr (errors @ graph_errors tasks @ hierarchy_errors tasks @ supersession)))"

section \<open>What the board scan establishes\<close>

lemma fold_result_append: "fold_result f (xs @ ys) s = bindE (fold_result f xs s) (fold_result f ys)"
  by (induction xs arbitrary: s) (auto simp: bindE_def split: sum.splits)

definition fresh_key :: "seen \<Rightarrow> meta \<Rightarrow> string \<Rightarrow> bool" where
  "fresh_key seen meta f = (truthy (dget meta f) \<longrightarrow> hashable (dget meta f) \<and> (\<forall>kv \<in> set (seen f). \<not> py_eq (dget meta f) (fst kv)))"

definition keep_key :: "string \<Rightarrow> meta \<Rightarrow> string \<Rightarrow> seen \<Rightarrow> seen" where
  "keep_key task_id meta f seen = (if truthy (dget meta f) then seen(f := seen f @ [(dget meta f, task_id)]) else seen)"

lemma use_key_quiet:
  "use_key task_id meta f (e, seen) = Inr ([], seen') \<longleftrightarrow> e = [] \<and> fresh_key seen meta f \<and> seen' = keep_key task_id meta f seen"
proof (cases "find (\<lambda>kv. py_eq (dget meta f) (fst kv)) (seen f)")
  case None
  then have "\<forall>kv \<in> set (seen f). \<not> py_eq (dget meta f) (fst kv)" using find_None_mem by fast
  with None show ?thesis by (auto simp: use_key_def fresh_key_def keep_key_def Let_def)
next
  case (Some kv)
  then have "kv \<in> set (seen f)" "py_eq (dget meta f) (fst kv)" using find_Some_mem by fast+
  with Some show ?thesis by (auto simp: use_key_def fresh_key_def keep_key_def Let_def)
qed

lemma fresh_keep_other [simp]: "f \<noteq> g \<Longrightarrow> fresh_key (keep_key task_id meta f seen) meta' g = fresh_key seen meta' g"
  by (simp add: fresh_key_def keep_key_def)

definition keep_keys :: "string \<Rightarrow> meta \<Rightarrow> seen \<Rightarrow> seen" where
  "keep_keys task_id meta seen = (\<lambda>f. if f \<in> set ACTIVE_KEYS \<and> truthy (dget meta f) then seen f @ [(dget meta f, task_id)] else seen f)"

lemma use_keys_quiet:
  "fold_result (use_key task_id meta) ACTIVE_KEYS (e, seen) = Inr ([], seen') \<longleftrightarrow>
     e = [] \<and> (\<forall>f \<in> set ACTIVE_KEYS. fresh_key seen meta f) \<and> seen' = keep_keys task_id meta seen"
proof -
  have k: "keep_key task_id meta ''branch'' (keep_key task_id meta ''worktree_key'' (keep_key task_id meta ''owner'' seen)) = keep_keys task_id meta seen"
    by (auto simp: keep_key_def keep_keys_def ACTIVE_KEYS_def)
  show ?thesis
    unfolding ACTIVE_KEYS_def fold_result.simps bindE_Inr
    by (auto simp: use_key_quiet k)
qed

text \<open>The values of one key among the tasks in progress, with the tasks that use them.\<close>

definition active_uses :: "string \<Rightarrow> task list \<Rightarrow> (pyval \<times> string) list" where
  "active_uses f tasks =
     map (\<lambda>t. (dget (task_meta t) f, id_of (task_meta t)))
       (filter (\<lambda>t. dget (task_meta t) ''status'' = PStr ''in_progress'' \<and> truthy (dget (task_meta t) f)) tasks)"

definition exclusive :: "string \<Rightarrow> task list \<Rightarrow> bool" where
  "exclusive f tasks = (list_all (\<lambda>kv. hashable (fst kv)) (active_uses f tasks) \<and> sorted_wrt (\<lambda>a b. \<not> py_eq (fst b) (fst a)) (active_uses f tasks))"

lemma active_uses_snoc:
  "active_uses f (ts @ [t]) = active_uses f ts @
     (if dget (task_meta t) ''status'' = PStr ''in_progress'' \<and> truthy (dget (task_meta t) f) then [(dget (task_meta t) f, id_of (task_meta t))] else [])"
  by (simp add: active_uses_def)

lemma exclusive_snoc:
  "dget (task_meta t) ''status'' = PStr ''in_progress'' \<Longrightarrow> seen f = active_uses f ts \<Longrightarrow> fresh_key seen (task_meta t) f \<Longrightarrow>
     exclusive f ts \<Longrightarrow> exclusive f (ts @ [t])"
  by (auto simp: exclusive_def active_uses_snoc fresh_key_def sorted_wrt_append)

lemma global_step_quiet:
  "global_step t (e, ids, seen) = Inr ([], ids', seen') \<Longrightarrow>
     e = [] \<and> id_of (task_meta t) \<notin> set ids \<and> ids' = ids @ [id_of (task_meta t)] \<and>
     (if dget (task_meta t) ''status'' = PStr ''in_progress''
      then (\<forall>f \<in> set ACTIVE_KEYS. fresh_key seen (task_meta t) f) \<and> seen' = keep_keys (id_of (task_meta t)) (task_meta t) seen
      else seen' = seen)"
  by (auto simp: global_step_def Let_def bindE_Inr use_keys_quiet split: if_split_asm prod.split_asm)

lemma global_scan:
  assumes "fold_result global_step ts ([], [], \<lambda>_. []) = Inr ([], ids, seen)"
  shows "ids = map (id_of \<circ> task_meta) ts \<and> distinct ids \<and> (\<forall>f \<in> set ACTIVE_KEYS. seen f = active_uses f ts \<and> exclusive f ts)"
  using assms
proof (induction ts arbitrary: ids seen rule: rev_induct)
  case Nil
  then show ?case by (auto simp: active_uses_def exclusive_def)
next
  case (snoc t ts)
  obtain e0 ids0 seen0 where m: "fold_result global_step ts ([], [], \<lambda>_. []) = Inr (e0, ids0, seen0)" "global_step t (e0, ids0, seen0) = Inr ([], ids, seen)"
    using snoc.prems by (auto simp: fold_result_append bindE_Inr)
  note q = global_step_quiet [OF m(2)]
  then have ih: "ids0 = map (id_of \<circ> task_meta) ts" "distinct ids0" "\<forall>f \<in> set ACTIVE_KEYS. seen0 f = active_uses f ts \<and> exclusive f ts"
    using snoc.IH m(1) by auto
  show ?case
  proof (cases "dget (task_meta t) ''status'' = PStr ''in_progress''")
    case True
    then show ?thesis using q ih exclusive_snoc [of t seen0 _ ts] by (auto simp: keep_keys_def active_uses_snoc)
  next
    case False
    then show ?thesis using q ih by (auto simp: active_uses_snoc exclusive_def)
  qed
qed

lemma hashable_sym: "hashable a \<Longrightarrow> truthy a \<Longrightarrow> py_eq b a = py_eq a b"
  by (cases a; cases b) (auto simp: hashable_def)

lemma exclusive_tasks:
  assumes "exclusive f tasks" "t \<in> set tasks" "u \<in> set tasks" "id_of (task_meta t) \<noteq> id_of (task_meta u)"
    and "dget (task_meta t) ''status'' = PStr ''in_progress''" "dget (task_meta u) ''status'' = PStr ''in_progress''"
    and "truthy (dget (task_meta t) f)"
  shows "\<not> py_eq (dget (task_meta t) f) (dget (task_meta u) f)"
proof
  let ?a = "(dget (task_meta t) f, id_of (task_meta t))" and ?b = "(dget (task_meta u) f, id_of (task_meta u))"
  assume eq: "py_eq (dget (task_meta t) f) (dget (task_meta u) f)"
  then have tr: "truthy (dget (task_meta u) f)" using assms(7) py_eq_truthy by simp
  have mem: "?a \<in> set (active_uses f tasks)" "?b \<in> set (active_uses f tasks)"
    using assms tr by (auto simp: active_uses_def)
  then have h: "hashable (fst ?a)" "hashable (fst ?b)" using assms(1) by (auto simp: exclusive_def list_all_iff)
  obtain i j where ij: "i < length (active_uses f tasks)" "active_uses f tasks ! i = ?a"
    "j < length (active_uses f tasks)" "active_uses f tasks ! j = ?b"
    using mem by (auto simp: in_set_conv_nth)
  have "i \<noteq> j" using ij assms(4) by auto
  then show False
    using ij assms(1,7) eq h tr hashable_sym sorted_wrt_nth_less [of _ "active_uses f tasks"]
    unfolding exclusive_def by (metis fst_conv linorder_neqE_nat)
qed

section \<open>Properties\<close>

text \<open>
  Property C12. A board the global check accepts has distinct ids, an acyclic dependency graph and hierarchy, no
  owner, worktree or branch shared by two tasks in progress, and every superseded task leads to a done one.
\<close>

theorem board_is_coherent:
  assumes "mutation_global_errors tasks = Inr []"
  shows "distinct (map (id_of \<circ> task_meta) tasks) \<and> acyclic (depends tasks) \<and> acyclic (parent_rel tasks) \<and>
    (\<forall>t \<in> set tasks. \<forall>u \<in> set tasks. id_of (task_meta t) \<noteq> id_of (task_meta u) \<longrightarrow>
       dget (task_meta t) ''status'' = PStr ''in_progress'' \<longrightarrow> dget (task_meta u) ''status'' = PStr ''in_progress'' \<longrightarrow>
       (\<forall>f \<in> {''owner'', ''worktree_key'', ''branch''}. truthy (dget (task_meta t) f) \<longrightarrow>
          \<not> py_eq (dget (task_meta t) f) (dget (task_meta u) f))) \<and>
    (\<forall>t \<in> set tasks. dget (task_meta t) ''superseded_by'' \<noteq> PNone \<longrightarrow>
       (\<exists>s. dget (task_meta t) ''superseded_by'' = PStr s \<and> satisfied tasks s))"
proof -
  obtain ids seen where scan: "fold_result global_step tasks ([], [], \<lambda>_. []) = Inr ([], ids, seen)"
    and g: "graph_errors tasks = []" "hierarchy_errors tasks = []" "supersession_errors tasks = Inr []"
    using assms by (auto simp: mutation_global_errors_def bindE_Inr)
  have d: "distinct (map (id_of \<circ> task_meta) tasks)" "acyclic (depends tasks)" using g(1) by (auto simp: graph_errors_iff)
  have "\<forall>f \<in> {''owner'', ''worktree_key'', ''branch''}. exclusive f tasks"
    using global_scan [OF scan] by (simp add: ACTIVE_KEYS_def)
  moreover have "\<exists>s. dget (task_meta t) ''superseded_by'' = PStr s \<and> satisfied tasks s"
    if "t \<in> set tasks" "dget (task_meta t) ''superseded_by'' \<noteq> PNone" for t
  proof -
    have "supersession_error tasks (task_meta t) = []"
      using g(3) that(1) by (auto simp: supersession_errors_def bindE_Inr)
    then show ?thesis
      using that(2) by (auto simp: supersession_error_def Let_def is_str_iff dependency_satisfied_iff split: if_split_asm)
  qed
  ultimately show ?thesis
    using d parent_rel_acyclic [OF g(2) d(1)] exclusive_tasks by blast
qed

text \<open>
  A task alone passes the claim check exactly when it is idle without owner and lease, or in progress
  with an owner and a lease that ends after the present, and the keys of the active task can be used
  as such.
\<close>

theorem claim_errors_exact:
  "(\<exists>seen. claim_errors rt meta (\<lambda>_. []) = Inr ([], seen)) \<longleftrightarrow>
     (if dget meta ''status'' = PStr ''in_progress''
      then truthy (dget meta ''owner'') \<and> (\<exists>t. parse_claim_expiry (dget meta ''claim_expires'') = Inr t \<and> rt_now rt < t) \<and>
        (\<forall>f \<in> set ACTIVE_KEYS. truthy (dget meta f) \<longrightarrow> hashable (dget meta f))
      else \<not> truthy (dget meta ''owner'') \<and> \<not> truthy (dget meta ''claim_expires''))"
proof -
  have e: "active_expiry_errors rt i v = Inr [] \<longleftrightarrow> (\<exists>t. parse_claim_expiry v = Inr t \<and> rt_now rt < t)" for i v
    by (auto simp: active_expiry_errors_def not_le dest: parse_claim_expiry_truthy split: sum.splits)
  show ?thesis
    by (auto simp: claim_errors_def Let_def bindE_Inr use_keys_quiet fresh_key_def e)
qed

section \<open>Examples\<close>

definition coherent_board :: "task list" where
  "coherent_board = [
     (''AR-0001.md'', [(''id'', PStr ''AR-0001''), (''status'', PStr ''done'')], []),
     (''AR-0002.md'', [(''id'', PStr ''AR-0002''), (''status'', PStr ''superseded''), (''superseded_by'', PStr ''AR-0001'')], []),
     (''AR-0003.md'', [(''id'', PStr ''AR-0003''), (''status'', PStr ''in_progress''), (''owner'', PStr ''dev''), (''depends_on'', PList [PStr ''AR-0002''])], []),
     (''AR-0004.md'', [(''id'', PStr ''AR-0004''), (''status'', PStr ''in_progress''), (''owner'', PStr ''ops'')], [])]"

theorem board_is_coherent_witness:
  "mutation_global_errors coherent_board = Inr [] \<and> acyclic (depends coherent_board) \<and> satisfied coherent_board ''AR-0001''"
proof -
  have e: "mutation_global_errors coherent_board = Inr []" by code_simp
  have "\<forall>t \<in> set coherent_board. dget (task_meta t) ''superseded_by'' \<noteq> PNone \<longrightarrow>
      (\<exists>s. dget (task_meta t) ''superseded_by'' = PStr s \<and> satisfied coherent_board s)" "acyclic (depends coherent_board)"
    using board_is_coherent [OF e] by simp_all
  then show ?thesis using e by (auto simp: coherent_board_def task_meta_def)
qed

theorem claim_errors_exact_witness:
  "\<exists>seen. claim_errors early_runtime [(''status'', PStr ''in_progress''), (''owner'', PStr ''dev''), (''claim_expires'', PStr (isoformat_utc 0))]
     (\<lambda>_. []) = Inr ([], seen)"
proof -
  have "parse_claim_expiry (PStr (isoformat_utc 0)) = Inr 0"
    by (simp add: parse_claim_expiry_def from_iso_z_isoformat astimezone_utc_def truncate_us_def)
  then show ?thesis
    unfolding claim_errors_exact by (simp add: early_runtime_def hashable_def ACTIVE_KEYS_def)
qed

end
