(* ===== verification/Checkpoint_Records.thy ===== *)
theory Checkpoint_Records
  imports Session_Records
begin

text \<open>
  Task checkpoints of \<open>src/tools/checkpoint_records.py\<close>: the record that snapshots a task's whole
  metadata with the digest of its body, its validation, and the bounded checkpoint file of a task.
  Files are modelled as in \<open>Session_Records\<close>.
\<close>

definition MAX_CHECKPOINTS :: nat where "MAX_CHECKPOINTS = 16"

definition CHECKPOINT_REQUIRED :: "string list" where
  "CHECKPOINT_REQUIRED = [''schema_version'', ''name'', ''task'', ''task_revision'', ''recorded_at'',
     ''source_commit'', ''state'', ''body_digest'', ''artifact_refs'']"

definition checkpoint_path :: "string \<Rightarrow> string result" where
  "checkpoint_path task_id =
     (if \<not> is_task_id task_id then Inl (ValueError ''invalid checkpoint task'')
      else Inr (''checkpoints/'' @ task_id @ ''.jsonl''))"

definition checkpoint_artifact_refs :: "meta \<Rightarrow> string list" where
  "checkpoint_artifact_refs meta =
     (let acceptance = dget meta ''spec_acceptance'' in
      take 8 (
        prefixed_ref ''spec:'' (dget meta ''spec_ref'') @
        prefixed_ref ''envelope:'' (dget meta ''execution_envelope_ref'') @
        (if is_dict acceptance then prefixed_ref ''evidence:'' (dget (dict_of acceptance) ''evidence_ref'') else [])))"

definition checkpoint_name :: "string \<Rightarrow> int \<Rightarrow> string" where
  "checkpoint_name task revision = task @ ''-r'' @ show_int4 revision"

text \<open>\<open>body.encode()\<close> is UTF-8; bytes of a text below code point 128 are its characters, and each
  other character below 256 is two bytes.\<close>

definition utf8 :: "string \<Rightarrow> string" where
  "utf8 s = concat (map (\<lambda>c. let n = (of_char c :: nat) in
     if n < 128 then [c] else [char_of (192 + n div 64 :: nat), char_of (128 + n mod 64 :: nat)]) s)"

definition build_checkpoint :: "meta \<Rightarrow> string \<Rightarrow> string \<Rightarrow> string \<Rightarrow> meta result" where
  "build_checkpoint meta body source_commit recorded_at =
     bindE (raise_if (\<not> all_hex 40 source_commit)
              (ValueError ''checkpoint source commit must be a 40-character hexadecimal commit'')) (\<lambda>_.
     let task_id = py_str (dget_or meta ''id'' (PStr [])) in
     bindE (raise_if (\<not> is_task_id task_id) (ValueError ''invalid checkpoint task'')) (\<lambda>_.
     bindE (bindE (ditem meta ''task_revision'') py_int) (\<lambda>revision.
     Inr [
       (''schema_version'', PInt 1),
       (''name'', PStr (checkpoint_name task_id revision)),
       (''task'', PStr task_id),
       (''task_revision'', PInt revision),
       (''recorded_at'', PStr recorded_at),
       (''source_commit'', PStr source_commit),
       (''state'', PDict meta),
       (''body_digest'', PStr (sha256_hex (utf8 body))),
       (''artifact_refs'', PList (map PStr (checkpoint_artifact_refs meta)))])))"

text \<open>\<open>f"{v:04d}"\<close>: a string raises \<open>ValueError\<close>, any other value that is not a number
  \<open>TypeError\<close>.\<close>

definition format_04d :: "pyval \<Rightarrow> string result" where
  "format_04d v = (if is_int v then Inr (show_int4 (int_of v))
     else if is_str v then Inl (ValueError (''Unknown format code 'd' for object of type 'str'' @ [CHR 0x27]))
     else Inl (TypeError ''unsupported format string''))"

definition checkpoint_identity :: "meta \<Rightarrow> unit result" where
  "checkpoint_identity r =
     (let task = dget r ''task''; state = dget r ''state'' in
      bindE (raise_if (\<not> keys_exact r CHECKPOINT_REQUIRED) (ValueError ''invalid checkpoint fields'')) (\<lambda>_.
      bindE (raise_if (\<not> py_eq (dget r ''schema_version'') (PInt 1))
               (ValueError ''unsupported checkpoint schema'')) (\<lambda>_.
      bindE (raise_if (\<not> is_str task \<or> \<not> is_task_id (str_of task)) (ValueError ''invalid checkpoint task'')) (\<lambda>_.
      bindE (if \<not> is_str (dget r ''name'') then Inr True
             else bindE (format_04d (dget r ''task_revision'')) (\<lambda>n.
               Inr (str_of (dget r ''name'') \<noteq> str_of task @ ''-r'' @ n))) (\<lambda>bad.
      bindE (raise_if bad (ValueError ''invalid checkpoint name'')) (\<lambda>_.
      bindE (raise_if (\<not> exact_int (dget r ''task_revision'') \<or> int_of (dget r ''task_revision'') < 1)
               (ValueError ''invalid checkpoint revision'')) (\<lambda>_.
      bindE (raise_if (\<not> is_str (dget r ''source_commit'') \<or> \<not> all_hex 40 (str_of (dget r ''source_commit'')))
               (ValueError ''invalid checkpoint source commit'')) (\<lambda>_.
      raise_if (\<not> is_dict state \<or> \<not> py_eq (dget (dict_of state) ''id'') task)
               (ValueError ''invalid checkpoint state'')))))))))"

definition checkpoint_content :: "meta \<Rightarrow> unit result" where
  "checkpoint_content r =
     (let refs = dget r ''artifact_refs'' in
      bindE (raise_if (\<not> is_str (dget r ''recorded_at'') \<or> str_of (dget r ''recorded_at'') = [])
               (ValueError ''invalid checkpoint timestamp'')) (\<lambda>_.
      bindE (raise_if (\<not> is_str (dget r ''body_digest'') \<or> \<not> all_hex 64 (str_of (dget r ''body_digest'')))
               (ValueError ''invalid checkpoint body digest'')) (\<lambda>_.
      raise_if (\<not> is_list refs \<or> 8 < length (list_of refs)
                 \<or> list_ex (\<lambda>v. \<not> is_str v \<or> str_of v = []) (list_of refs))
               (ValueError ''invalid checkpoint artifact refs''))))"

definition validate_checkpoint :: "meta \<Rightarrow> unit result" where
  "validate_checkpoint r = bindE (checkpoint_identity r) (\<lambda>_. checkpoint_content r)"

fun checkpoint_lines :: "nat \<Rightarrow> jsonl list \<Rightarrow> meta list \<Rightarrow> meta list result" where
  "checkpoint_lines number [] records = Inr records"
| "checkpoint_lines number (BadLine # ls) records = Inl (line_error ''invalid checkpoint line '' number)"
| "checkpoint_lines number (JsonLine v # ls) records =
     (if \<not> is_dict v then Inl (line_error ''invalid checkpoint line '' number)
      else bindE (validate_checkpoint (dict_of v)) (\<lambda>_. checkpoint_lines (Suc number) ls (records @ [dict_of v])))"

definition decode_checkpoints :: "jsonl list \<Rightarrow> meta list result" where
  "decode_checkpoints ls =
     bindE (checkpoint_lines 1 ls []) (\<lambda>records.
     bindE (raise_if (MAX_CHECKPOINTS < length records) (ValueError ''checkpoint history exceeds bound'')) (\<lambda>_.
     Inr records))"

definition append_checkpoint :: "files \<Rightarrow> meta \<Rightarrow> files result" where
  "append_checkpoint root record =
     bindE (validate_checkpoint record) (\<lambda>_.
     bindE (checkpoint_path (py_str (dget record ''task''))) (\<lambda>path.
     bindE (case root path of None \<Rightarrow> Inr [] | Some ls \<Rightarrow> decode_checkpoints ls) (\<lambda>existing.
     Inr (root(path := Some (map (\<lambda>r. JsonLine (PDict r)) (keep_last MAX_CHECKPOINTS (existing @ [record]))))))))"

text \<open>\<open>globbed\<close> is the sorted list of files that match \<open>checkpoints/AR-*.jsonl\<close>.\<close>

definition load_checkpoints :: "files \<Rightarrow> string list \<Rightarrow> string option \<Rightarrow> meta list result" where
  "load_checkpoints root globbed task_id =
     bindE (case task_id of
              Some t \<Rightarrow> if t \<noteq> [] then bindE (checkpoint_path t) (\<lambda>p. Inr [p]) else Inr globbed
            | None \<Rightarrow> Inr globbed) (\<lambda>paths.
     fold_result (\<lambda>p records. case root p of None \<Rightarrow> Inr records
         | Some ls \<Rightarrow> bindE (decode_checkpoints ls) (\<lambda>rs. Inr (records @ rs))) paths [])"

section \<open>Lemmas\<close>

definition checkpoint_task :: "meta \<Rightarrow> string" where
  "checkpoint_task r = py_str (dget r ''task'')"

definition task_checkpoints :: "files \<Rightarrow> string \<Rightarrow> meta list result" where
  "task_checkpoints root t = load_checkpoints root [] (Some t)"

definition checkpoint_accepts :: "meta \<Rightarrow> meta list \<Rightarrow> bool" where
  "checkpoint_accepts r rs = (validate_checkpoint r = Inr ())"

lemma checkpoint_lines_Inr:
  "checkpoint_lines n ls recs = Inr out \<longleftrightarrow>
     (\<exists>rs. ls = map (\<lambda>r. JsonLine (PDict r)) rs \<and> out = recs @ rs \<and> (\<forall>r \<in> set rs. validate_checkpoint r = Inr ()))"
proof (induction ls arbitrary: n recs)
  case (Cons l ls)
  consider "l = BadLine" | v where "l = JsonLine v" "\<not> is_dict v" | d where "l = JsonLine (PDict d)"
    by (cases l) (auto simp: is_dict_iff)
  then show ?case
  proof cases
    case (3 d)
    have "checkpoint_lines n (JsonLine (PDict d) # ls) recs = Inr out \<longleftrightarrow>
        validate_checkpoint d = Inr () \<and> checkpoint_lines (Suc n) ls (recs @ [d]) = Inr out"
      by (auto simp: result_simps)
    then show ?thesis
      unfolding 3 Cons.IH by (fastforce simp: Cons_eq_map_conv)
  qed (auto simp: Cons_eq_map_conv)
qed auto

lemma decode_checkpoints_Inr:
  "decode_checkpoints ls = Inr rs \<longleftrightarrow>
     ls = map (\<lambda>r. JsonLine (PDict r)) rs \<and> length rs \<le> MAX_CHECKPOINTS \<and> (\<forall>r \<in> set rs. validate_checkpoint r = Inr ())"
  by (auto simp: decode_checkpoints_def result_simps checkpoint_lines_Inr not_less)

lemma validate_checkpoint_task:
  "validate_checkpoint r = Inr () \<Longrightarrow> is_task_id (checkpoint_task r) \<and> dget r ''task'' = PStr (checkpoint_task r)"
  by (auto simp: validate_checkpoint_def checkpoint_identity_def Let_def result_simps is_str_iff checkpoint_task_def)

lemma task_id_not_Nil: "is_task_id t \<Longrightarrow> t \<noteq> []"
  by (auto simp: is_task_id_def)

lemma task_checkpoints_eq:
  "is_task_id t \<Longrightarrow> task_checkpoints root t =
     (case root (''checkpoints/'' @ t @ ''.jsonl'') of None \<Rightarrow> Inr [] | Some ls \<Rightarrow> decode_checkpoints ls)"
  by (auto simp: task_checkpoints_def load_checkpoints_def checkpoint_path_def task_id_not_Nil bindE_def
      split: option.splits sum.splits)

lemma task_checkpoints_invalid:
  "\<not> is_task_id t \<Longrightarrow> task_checkpoints root t = (if t = [] then Inr [] else Inl (ValueError ''invalid checkpoint task''))"
  by (simp add: task_checkpoints_def load_checkpoints_def checkpoint_path_def)

lemma append_checkpoint_Inr:
  "append_checkpoint root r = Inr root' \<longleftrightarrow>
     (\<exists>rs. validate_checkpoint r = Inr () \<and> task_checkpoints root (checkpoint_task r) = Inr rs \<and>
       root' = root(''checkpoints/'' @ checkpoint_task r @ ''.jsonl'' :=
         Some (map (\<lambda>r. JsonLine (PDict r)) (keep_last MAX_CHECKPOINTS (rs @ [r])))))"
proof (cases "validate_checkpoint r = Inr ()")
  case True
  then have "is_task_id (checkpoint_task r)" by (simp add: validate_checkpoint_task)
  with True show ?thesis
    by (auto simp: append_checkpoint_def result_simps checkpoint_path_def task_checkpoints_eq
        simp flip: checkpoint_task_def)
next
  case False
  then show ?thesis by (auto simp: append_checkpoint_def result_simps)
qed

interpretation checkpoints: bounded_history append_checkpoint task_checkpoints checkpoint_task checkpoint_accepts
  MAX_CHECKPOINTS
proof
  fix h r h'
  assume "append_checkpoint h r = Inr h'"
  then obtain rs where rs: "validate_checkpoint r = Inr ()" "task_checkpoints h (checkpoint_task r) = Inr rs"
    "h' = h(''checkpoints/'' @ checkpoint_task r @ ''.jsonl'' :=
         Some (map (\<lambda>r. JsonLine (PDict r)) (keep_last MAX_CHECKPOINTS (rs @ [r]))))"
    by (auto simp: append_checkpoint_Inr)
  have t: "is_task_id (checkpoint_task r)" using rs(1) by (simp add: validate_checkpoint_task)
  have "\<forall>x \<in> set (rs @ [r]). validate_checkpoint x = Inr ()"
    using rs t by (auto simp: task_checkpoints_eq decode_checkpoints_Inr split: option.splits)
  then have "\<forall>x \<in> set (keep_last MAX_CHECKPOINTS (rs @ [r])). validate_checkpoint x = Inr ()"
    by (meson set_keep_last subsetD)
  then have "task_checkpoints h' (checkpoint_task r) = Inr (keep_last MAX_CHECKPOINTS (rs @ [r]))"
    using rs(3) t by (simp add: task_checkpoints_eq decode_checkpoints_Inr)
  then show "\<exists>rs. task_checkpoints h (checkpoint_task r) = Inr rs \<and> checkpoint_accepts r rs \<and>
      task_checkpoints h' (checkpoint_task r) = Inr (keep_last MAX_CHECKPOINTS (rs @ [r]))"
    using rs by (auto simp: checkpoint_accepts_def)
next
  fix h r h' k
  assume "append_checkpoint h r = Inr h'" "k \<noteq> checkpoint_task r"
  then show "task_checkpoints h' k = task_checkpoints h k"
    by (cases "is_task_id k") (auto simp: append_checkpoint_Inr task_checkpoints_eq task_checkpoints_invalid)
next
  fix h r rs
  assume "task_checkpoints h (checkpoint_task r) = Inr rs" "checkpoint_accepts r rs"
  then show "\<exists>h'. append_checkpoint h r = Inr h'"
    by (auto simp: append_checkpoint_Inr checkpoint_accepts_def)
next
  fix h k rs
  assume "task_checkpoints h k = Inr rs"
  then show "length rs \<le> MAX_CHECKPOINTS"
    by (cases "is_task_id k")
      (auto simp: task_checkpoints_eq task_checkpoints_invalid decode_checkpoints_Inr split: option.splits if_splits)
qed (simp add: MAX_CHECKPOINTS_def)

lemma prefixed_ref_nonempty: "x \<in> set (prefixed_ref (c # tag) v) \<Longrightarrow> x \<noteq> []"
  by (auto simp: prefixed_ref_def)

lemma build_checkpoint_valid:
  assumes "build_checkpoint meta body commit at = Inr r" and "at \<noteq> []"
    and "is_str (dget meta ''id'')" and "py_int (dget meta ''task_revision'') = Inr n" "1 \<le> n"
  shows "validate_checkpoint r = Inr ()"
proof -
  obtain t where t: "dget meta ''id'' = PStr t" "is_task_id t" "all_hex 40 commit"
    "r = [(''schema_version'', PInt 1), (''name'', PStr (checkpoint_name t n)), (''task'', PStr t),
       (''task_revision'', PInt n), (''recorded_at'', PStr at), (''source_commit'', PStr commit),
       (''state'', PDict meta), (''body_digest'', PStr (sha256_hex (utf8 body))),
       (''artifact_refs'', PList (map PStr (checkpoint_artifact_refs meta)))]"
    using assms by (auto simp: build_checkpoint_def result_simps Let_def ditem_eq is_str_iff dget_or_def dget_def
        split: option.splits if_splits)
  have "x \<noteq> []" if "x \<in> set (checkpoint_artifact_refs meta)" for x
  proof -
    have "x \<in> set (prefixed_ref ''spec:'' (dget meta ''spec_ref'')) \<or>
        x \<in> set (prefixed_ref ''envelope:'' (dget meta ''execution_envelope_ref'')) \<or>
        x \<in> set (prefixed_ref ''evidence:'' (dget (dict_of (dget meta ''spec_acceptance'')) ''evidence_ref''))"
      using set_take_subset that
      by (fastforce simp: checkpoint_artifact_refs_def Let_def split: if_splits)
    then show ?thesis using prefixed_ref_nonempty by blast
  qed
  then have "\<not> list_ex (\<lambda>v. \<not> is_str v \<or> str_of v = []) (map PStr (checkpoint_artifact_refs meta))"
    by (auto simp: list_ex_iff)
  moreover have "length (checkpoint_artifact_refs meta) \<le> 8"
    by (simp add: checkpoint_artifact_refs_def Let_def)
  ultimately show ?thesis
    using t assms(2,5)
    by (simp add: validate_checkpoint_def checkpoint_identity_def checkpoint_content_def Let_def keys_exact_def
        CHECKPOINT_REQUIRED_def dkeys_def format_04d_def checkpoint_name_def sha256_hex_shape)
qed

section \<open>Properties\<close>

text \<open>Property C19. A checkpoint built from a task record with an id and a positive revision is always
  storable in a readable checkpoint file of its task: it is appended, it becomes the last of the
  loaded checkpoints with the task's metadata as its state, the file keeps at most sixteen, and no
  other task's checkpoints change.\<close>

theorem checkpoint_roundtrip:
  assumes "build_checkpoint meta body commit at = Inr r" and "at \<noteq> []"
    and "dget meta ''id'' = PStr t" and "py_int (dget meta ''task_revision'') = Inr n" "1 \<le> n"
    and "load_checkpoints root [] (Some t) = Inr rs"
  shows "\<exists>root'. append_checkpoint root r = Inr root' \<and>
    load_checkpoints root' [] (Some t) = Inr (keep_last MAX_CHECKPOINTS (rs @ [r])) \<and>
    dget r ''state'' = PDict meta \<and>
    (\<forall>u. u \<noteq> t \<longrightarrow> load_checkpoints root' [] (Some u) = load_checkpoints root [] (Some u))"
proof -
  have valid: "validate_checkpoint r = Inr ()"
    using assms(3) by (intro build_checkpoint_valid [OF assms(1,2) _ assms(4,5)]) simp
  have r: "checkpoint_task r = t" "dget r ''state'' = PDict meta"
    using assms(1,3) by (auto simp: build_checkpoint_def result_simps Let_def checkpoint_task_def dget_or_def dget_def
        split: option.splits)
  obtain root' where root': "append_checkpoint root r = Inr root'"
    using checkpoints.append_accepts [of root r rs] valid assms(6) r(1)
    by (auto simp: checkpoint_accepts_def task_checkpoints_def)
  then show ?thesis
    using checkpoints.append_load [OF root'] checkpoints.append_frame [OF root'] assms(6) r
    by (auto simp: task_checkpoints_def)
qed

definition example_commit :: string where "example_commit = replicate 40 CHR ''a''"

theorem checkpoint_roundtrip_witness:
  "\<exists>r root'. build_checkpoint [(''id'', PStr ''AR-0001''), (''task_revision'', PInt 2)] ''body'' example_commit ''t'' = Inr r \<and>
     append_checkpoint (\<lambda>_. None) r = Inr root' \<and> load_checkpoints root' [] (Some ''AR-0001'') = Inr [r]"
proof -
  let ?m = "[(''id'', PStr ''AR-0001''), (''task_revision'', PInt 2)]"
  have "is_task_id ''AR-0001''" "all_hex 40 example_commit"
    by (simp_all add: is_task_id_def starts_with_def is_digit_def digits_def example_commit_def all_hex_def
        list_all_iff is_lower_hex_def lower_hex_def)
  then obtain r where "build_checkpoint ?m ''body'' example_commit ''t'' = Inr r"
    "load_checkpoints (\<lambda>_. None) [] (Some ''AR-0001'') = Inr []"
    by (auto simp: build_checkpoint_def load_checkpoints_def checkpoint_path_def Let_def)
  then show ?thesis
    using checkpoint_roundtrip [of ?m "''body''" example_commit "''t''" r "''AR-0001''" 2 "\<lambda>_. None" "[]"]
    by (auto simp: MAX_CHECKPOINTS_def keep_last_def)
qed

end
