(* ===== verification/Sqlite_Store.thy ===== *)
theory Sqlite_Store
  imports Task_Records Checkpoint_Records
begin

text \<open>
  The SQLite authority of the coordinator, \<open>src/tools/sqlite_storage.py\<close>: the tables of the schema with their
  constraints, and the transactions that write them.

  A table is the list of its rows in the order of their sequence numbers. The JSON columns hold the
  value they decode to; \<open>json.dumps(..., sort_keys=True)\<close> reorders the keys of a record, which no reader
  of the store observes. A transaction maps a database to a database or raises, and a raised
  exception leaves the database as it was (\<open>rollback\<close>). The checks of the mutation scope and of the
  capability binding are the arguments \<open>enter\<close> and \<open>confirm\<close> of a transaction; connection errors are not modelled.
\<close>

section \<open>Tables\<close>

record task_row =
  r_id :: string
  r_filename :: string
  r_meta :: meta
  r_body :: string
  r_revision :: int
  r_status :: string
  r_owner :: string
  r_expires :: string
  r_branch :: string
  r_worktree :: string
  r_updated :: string

record event_row =
  e_task :: string
  e_revision :: int
  e_kind :: string
  e_at :: string
  e_note :: string

record history_row =
  h_task :: string
  h_revision :: int
  h_record :: meta
  h_at :: string

record command_row =
  c_task :: string
  c_owner :: string
  c_argv :: string
  c_code :: int
  c_class :: string
  c_at :: string

record sql_db =
  db_state :: "string option"
  db_tasks :: "task_row list"
  db_deps :: "(string \<times> string) list"
  db_events :: "event_row list"
  db_sessions :: "history_row list"
  db_checkpoints :: "history_row list"
  db_commands :: "command_row list"

text \<open>What \<open>_translate\<close> makes of a constraint or binding error.\<close>

definition sql_error :: "string \<Rightarrow> exc" where
  "sql_error text = RuntimeError (''SQLITE_ERROR: '' @ text)"

definition sql_int :: "int \<Rightarrow> int result" where
  "sql_int i = (if - (2 ^ 63) \<le> i \<and> i < 2 ^ 63 then Inr i else Inl (OverflowError ''Python int too large to convert to SQLite INTEGER''))"

text \<open>A value bound to a \<open>TEXT NOT NULL\<close> column of a strict table.\<close>

definition sql_text :: "pyval \<Rightarrow> string result" where
  "sql_text v =
     (case v of PStr s \<Rightarrow> Inr s
      | PInt i \<Rightarrow> bindE (sql_int i) (\<lambda>j. Inr (show_int j))
      | PBool b \<Rightarrow> Inr (if b then ''1'' else ''0'')
      | PNone \<Rightarrow> Inl (sql_error ''NOT NULL constraint failed'')
      | _ \<Rightarrow> Inl (sql_error ''type is not supported''))"

section \<open>Constraints\<close>

definition is_active :: "task_row \<Rightarrow> bool" where "is_active r = (r_status r = ''in_progress'')"

definition row_checks :: "task_row \<Rightarrow> bool" where
  "row_checks r =
     (is_task_id (r_id r) \<and> 1 \<le> r_revision r \<and> r_status r \<in> set STATUSES \<and>
      (is_active r \<and> r_owner r \<noteq> [] \<and> r_expires r \<noteq> [] \<or> \<not> is_active r \<and> r_owner r = [] \<and> r_expires r = []))"

text \<open>The unique indexes \<open>one_active_owner\<close>, \<open>one_active_branch\<close> and \<open>one_active_worktree\<close>.\<close>

definition index_free :: "(task_row \<Rightarrow> string) \<Rightarrow> task_row \<Rightarrow> task_row list \<Rightarrow> bool" where
  "index_free col r rows = (is_active r \<and> col r \<noteq> [] \<longrightarrow> list_all (\<lambda>q. \<not> (is_active q \<and> col q = col r)) rows)"

definition row_admitted :: "task_row \<Rightarrow> task_row list \<Rightarrow> bool" where
  "row_admitted r rows =
     (row_checks r \<and> r_filename r \<notin> r_filename ` set rows \<and> index_free r_owner r rows \<and> index_free r_branch r rows \<and> index_free r_worktree r rows)"

section \<open>Reading\<close>

definition load_row :: "task_row \<Rightarrow> task result" where
  "load_row r =
     (if py_eq (dget (r_meta r) ''task_revision'') (PInt (r_revision r)) then Inr (r_filename r, r_meta r, r_body r)
      else Inl (StorageCorruptionError ''SQLITE_CORRUPT: task revision columns disagree''))"

definition load_tasks :: "sql_db \<Rightarrow> task list result" where
  "load_tasks db = map_result load_row (sort_key r_id (db_tasks db))"

definition load_session_row :: "history_row \<Rightarrow> meta result" where
  "load_session_row r =
     (let corrupt = StorageCorruptionError ''SQLITE_CORRUPT: session record identity mismatch'' in
      bindE (value_to (StorageCorruptionError ''SQLITE_CORRUPT: invalid session record'') (validate_session_record (h_record r))) (\<lambda>_.
      bindE (ditem (h_record r) ''task'') (\<lambda>task.
      bindE (ditem (h_record r) ''task_revision'') (\<lambda>revision.
      bindE (raise_if (task \<noteq> PStr (h_task r) \<or> \<not> py_eq revision (PInt (h_revision r))) corrupt) (\<lambda>_.
      Inr (h_record r))))))"

definition of_task :: "string option \<Rightarrow> history_row \<Rightarrow> bool" where
  "of_task task_id r = (case task_id of None \<Rightarrow> True | Some t \<Rightarrow> h_task r = t)"

definition load_session_records :: "sql_db \<Rightarrow> string option \<Rightarrow> meta list result" where
  "load_session_records db task_id = map_result load_session_row (filter (of_task task_id) (db_sessions db))"

definition load_checkpoint_records :: "sql_db \<Rightarrow> string option \<Rightarrow> meta list" where
  "load_checkpoint_records db task_id = map h_record (filter (of_task task_id) (db_checkpoints db))"

definition has_command_result :: "sql_db \<Rightarrow> string \<Rightarrow> string \<Rightarrow> string \<Rightarrow> bool" where
  "has_command_result db task_id owner argv = list_ex (\<lambda>c. c_task c = task_id \<and> c_owner c = owner \<and> c_argv c = argv) (db_commands db)"

section \<open>Statements\<close>

text \<open>\<open>UPDATE tasks SET ... WHERE id=? AND revision=?\<close>: the new rows and the row count.\<close>

definition row_hit :: "string \<Rightarrow> int \<Rightarrow> task_row \<Rightarrow> bool" where
  "row_hit task_id current r = (r_id r = task_id \<and> r_revision r = current)"

definition update_rows :: "string \<Rightarrow> int \<Rightarrow> (task_row \<Rightarrow> task_row) \<Rightarrow> task_row list \<Rightarrow> (task_row list \<times> nat) result" where
  "update_rows task_id current f rows =
     (if list_all (\<lambda>r. row_hit task_id current r \<longrightarrow> row_admitted (f r) (filter (\<lambda>q. r_id q \<noteq> task_id) rows)) rows
      then Inr (map (\<lambda>r. if row_hit task_id current r then f r else r) rows, length (filter (row_hit task_id current) rows))
      else Inl (sql_error ''constraint failed: tasks''))"

definition row_values :: "meta \<Rightarrow> string \<Rightarrow> (task_row \<Rightarrow> task_row) result" where
  "row_values meta body =
     bindE (ditem meta ''task_revision'') (\<lambda>revision.
     bindE (ditem meta ''status'') (\<lambda>status_value.
     bindE (ditem meta ''updated_at'') (\<lambda>updated_value.
     bindE (sql_int (int_of revision)) (\<lambda>rev_column.
     bindE (sql_text status_value) (\<lambda>status.
     bindE (sql_text (dget_or meta ''owner'' (PStr []))) (\<lambda>owner.
     bindE (sql_text (dget_or meta ''claim_expires'' (PStr []))) (\<lambda>expires.
     bindE (sql_text (dget_or meta ''branch'' (PStr []))) (\<lambda>branch.
     bindE (sql_text (dget_or meta ''worktree_key'' (PStr []))) (\<lambda>worktree.
     bindE (sql_text updated_value) (\<lambda>updated.
     Inr (\<lambda>r. r\<lparr>r_meta := meta, r_body := body, r_revision := rev_column, r_status := status, r_owner := owner, r_expires := expires,
       r_branch := branch, r_worktree := worktree, r_updated := updated\<rparr>)))))))))))"

definition write_task :: "string \<Rightarrow> string \<Rightarrow> int \<Rightarrow> meta \<Rightarrow> string \<Rightarrow> sql_db \<Rightarrow> sql_db result" where
  "write_task lost task_id current meta body db =
     bindE (row_values meta body) (\<lambda>f.
     bindE (update_rows task_id current f (db_tasks db)) (\<lambda>(rows, count).
     bindE (raise_if (count \<noteq> 1) (RuntimeError lost)) (\<lambda>_.
     Inr (db\<lparr>db_tasks := rows\<rparr>))))"

definition known_id :: "sql_db \<Rightarrow> string \<Rightarrow> bool" where
  "known_id db x = (x \<in> r_id ` set (db_tasks db))"

definition insert_dep :: "sql_db \<Rightarrow> string \<Rightarrow> pyval \<Rightarrow> (string \<times> string) list \<Rightarrow> (string \<times> string) list result" where
  "insert_dep db task_id v deps =
     bindE (sql_text v) (\<lambda>dep.
     if \<not> known_id db dep \<or> \<not> known_id db task_id then Inl (sql_error ''FOREIGN KEY constraint failed'')
     else if dep = task_id then Inl (sql_error ''CHECK constraint failed: task_id<>dependency_id'')
     else if (task_id, dep) \<in> set deps then Inl (sql_error ''UNIQUE constraint failed: dependencies.task_id, dependencies.dependency_id'')
     else Inr (deps @ [(task_id, dep)]))"

definition replace_deps :: "string \<Rightarrow> meta \<Rightarrow> sql_db \<Rightarrow> sql_db result" where
  "replace_deps task_id meta db =
     bindE (py_iter (dget_or meta ''depends_on'' (PList []))) (\<lambda>values.
     bindE (fold_result (insert_dep db task_id) values (filter (\<lambda>d. fst d \<noteq> task_id) (db_deps db))) (\<lambda>deps.
     Inr (db\<lparr>db_deps := deps\<rparr>)))"

definition insert_event :: "string \<Rightarrow> int \<Rightarrow> string \<Rightarrow> string \<Rightarrow> string \<Rightarrow> sql_db \<Rightarrow> sql_db result" where
  "insert_event task_id revision kind at note db =
     bindE (sql_int revision) (\<lambda>_.
     if \<not> known_id db task_id then Inl (sql_error ''FOREIGN KEY constraint failed'')
     else if list_ex (\<lambda>e. e_task e = task_id \<and> e_revision e = revision) (db_events db)
       then Inl (sql_error ''UNIQUE constraint failed: events.task_id, events.revision'')
     else Inr (db\<lparr>db_events := db_events db @ [\<lparr>e_task = task_id, e_revision = revision, e_kind = kind, e_at = at, e_note = note\<rparr>]\<rparr>))"

text \<open>\<open>DELETE ... WHERE task_id=? AND sequence NOT IN (SELECT ... ORDER BY sequence DESC LIMIT cap)\<close>.\<close>

fun trim :: "nat \<Rightarrow> string \<Rightarrow> history_row list \<Rightarrow> history_row list" where
  "trim cap task_id [] = []"
| "trim cap task_id (r # rs) =
     (if h_task r = task_id \<and> cap \<le> length (filter (\<lambda>q. h_task q = task_id) rs) then trim cap task_id rs else r # trim cap task_id rs)"

definition insert_history :: "nat \<Rightarrow> string \<Rightarrow> meta \<Rightarrow> sql_db \<Rightarrow> history_row list \<Rightarrow> history_row list result" where
  "insert_history cap task_id entry db rows =
     bindE (ditem entry ''task_revision'') (\<lambda>v.
     bindE (py_int v) (\<lambda>revision.
     bindE (ditem entry ''recorded_at'') (\<lambda>at.
     bindE (sql_int revision) (\<lambda>_.
     if \<not> known_id db task_id then Inl (sql_error ''FOREIGN KEY constraint failed'')
     else if list_ex (\<lambda>r. h_task r = task_id \<and> h_revision r = revision) rows then Inl (sql_error ''UNIQUE constraint failed'')
     else Inr (trim cap task_id (rows @ [\<lparr>h_task = task_id, h_revision = revision, h_record = entry, h_at = py_str at\<rparr>]))))))"

section \<open>Transactions\<close>

definition transaction :: "unit result \<Rightarrow> unit result \<Rightarrow> (sql_db \<Rightarrow> sql_db result) \<Rightarrow> sql_db \<Rightarrow> sql_db result" where
  "transaction enter confirm body db =
     bindE (raise_if (db_state db \<noteq> Some ''active'') (RuntimeError ''SQLITE_BACKEND_INACTIVE: retry using the selected backend'')) (\<lambda>_.
     bindE enter (\<lambda>_.
     bindE (body db) (\<lambda>db'.
     bindE confirm (\<lambda>_. Inr db'))))"

definition select_task :: "string \<Rightarrow> task list \<Rightarrow> task result" where
  "select_task task_id tasks =
     bindE (find_result (\<lambda>t. bindE (ditem (task_meta t) ''id'') (\<lambda>i. Inr (py_eq i (PStr task_id)))) tasks) (\<lambda>found.
     case found of None \<Rightarrow> Inl (RuntimeError (''unknown task '' @ task_id)) | Some t \<Rightarrow> Inr t)"

definition build_record :: "(meta \<Rightarrow> meta result) option \<Rightarrow> meta \<Rightarrow> meta option result" where
  "build_record factory meta = (case factory of None \<Rightarrow> Inr None | Some build \<Rightarrow> bindE (build meta) (\<lambda>r. Inr (Some r)))"

definition store_checkpoint :: "string \<Rightarrow> meta option \<Rightarrow> sql_db \<Rightarrow> sql_db result" where
  "store_checkpoint task_id r db =
     (case r of None \<Rightarrow> Inr db
      | Some entry \<Rightarrow> bindE (insert_history 16 task_id entry db (db_checkpoints db)) (\<lambda>rows. Inr (db\<lparr>db_checkpoints := rows\<rparr>)))"

definition store_session :: "string \<Rightarrow> meta option \<Rightarrow> sql_db \<Rightarrow> sql_db result" where
  "store_session task_id r db =
     (case r of None \<Rightarrow> Inr db
      | Some entry \<Rightarrow> bindE (insert_history 32 task_id entry db (db_sessions db)) (\<lambda>rows. Inr (db\<lparr>db_sessions := rows\<rparr>)))"

definition mutate_body ::
  "string \<Rightarrow> int \<Rightarrow> string \<Rightarrow> string \<Rightarrow> (meta \<Rightarrow> task list \<Rightarrow> (meta \<times> string \<times> string) result) \<Rightarrow> meta option \<Rightarrow>
     (meta \<Rightarrow> meta result) option \<Rightarrow> (meta \<Rightarrow> meta result) option \<Rightarrow> sql_db \<Rightarrow> sql_db result" where
  "mutate_body task_id expected kind at transition session_record session_factory checkpoint_factory db =
     bindE (load_tasks db) (\<lambda>tasks.
     bindE (select_task task_id tasks) (\<lambda>selected.
     bindE (ditem (task_meta selected) ''task_revision'') (\<lambda>v.
     bindE (py_int v) (\<lambda>current.
     bindE (raise_if (current \<noteq> expected)
              (RuntimeError (''stale revision: expected '' @ show_int expected @ '', current '' @ show_int current))) (\<lambda>_.
     bindE (transition (task_meta selected) tasks) (\<lambda>(meta1, note, body).
     let meta2 = dset (dset meta1 ''task_revision'' (PInt (current + 1))) ''updated_at'' (PStr at) in
     bindE (build_record checkpoint_factory meta2) (\<lambda>checkpoint.
     bindE (store_checkpoint task_id checkpoint db) (\<lambda>db1.
     bindE (write_task ''SQLITE_CONFLICT: exact-revision update lost its fence'' task_id current meta2 body db1) (\<lambda>db2.
     bindE (build_record session_factory meta2) (\<lambda>built.
     bindE (replace_deps task_id meta2 db2) (\<lambda>db3.
     bindE (insert_event task_id (current + 1) kind at note db3) (\<lambda>db4.
     store_session task_id (case built of None \<Rightarrow> session_record | Some r \<Rightarrow> Some r) db4))))))))))))"

definition sqlite_mutate ::
  "unit result \<Rightarrow> unit result \<Rightarrow> string \<Rightarrow> int \<Rightarrow> string \<Rightarrow> string \<Rightarrow> (meta \<Rightarrow> task list \<Rightarrow> (meta \<times> string \<times> string) result) \<Rightarrow> meta option \<Rightarrow>
     (meta \<Rightarrow> meta result) option \<Rightarrow> (meta \<Rightarrow> meta result) option \<Rightarrow> sql_db \<Rightarrow> sql_db result" where
  "sqlite_mutate enter confirm task_id expected kind at transition session_record session_factory checkpoint_factory =
     transaction enter confirm (mutate_body task_id expected kind at transition session_record session_factory checkpoint_factory)"

definition observed_values :: "meta \<Rightarrow> meta result" where
  "observed_values item =
     bindE (ditem item ''branch'') (\<lambda>branch.
     bindE (ditem item ''head'') (\<lambda>head.
     bindE (ditem item ''dirty'') (\<lambda>dirty.
     Inr [(''observed_branch'', branch), (''observed_head'', head), (''observed_dirty'', dirty)])))"

definition observe_row :: "(string \<times> meta) list \<Rightarrow> string \<Rightarrow> task \<Rightarrow> sql_db \<Rightarrow> sql_db result" where
  "observe_row observations at t db =
     (let meta = task_meta t; key = py_str (dget_or meta ''worktree_key'' (PStr [])) in
      case (if key = [] then None else map_of observations key) of
        None \<Rightarrow> Inr db
      | Some item \<Rightarrow>
          bindE (observed_values item) (\<lambda>values.
          if list_all (\<lambda>(name, v). py_eq (dget meta name) v) values then Inr db
          else
            bindE (ditem meta ''task_revision'') (\<lambda>v.
            bindE (py_int v) (\<lambda>current.
            let meta1 = dset (dset (fold (\<lambda>(name, v) m. dset m name v) values meta) ''task_revision'' (PInt (current + 1))) ''updated_at'' (PStr at) in
            bindE (ditem meta ''id'') (\<lambda>task_value.
            bindE (sql_text task_value) (\<lambda>task_id.
            bindE (write_task ''SQLITE_CONFLICT: observation update lost its fence'' task_id current meta1 (snd (snd t)) db) (\<lambda>db1.
            insert_event task_id (current + 1) ''reconcile'' at ''Recorded live worktree state.'' db1)))))))"

definition update_observations :: "unit result \<Rightarrow> unit result \<Rightarrow> (string \<times> meta) list \<Rightarrow> string \<Rightarrow> sql_db \<Rightarrow> sql_db result" where
  "update_observations enter confirm observations at =
     transaction enter confirm (\<lambda>db. bindE (load_tasks db) (\<lambda>tasks. fold_result (observe_row observations at) tasks db))"

definition append_command_result :: "unit result \<Rightarrow> unit result \<Rightarrow> command_row \<Rightarrow> sql_db \<Rightarrow> sql_db result" where
  "append_command_result enter confirm row =
     transaction enter confirm (\<lambda>db.
       bindE (sql_int (c_code row)) (\<lambda>_.
       if \<not> known_id db (c_task row) then Inl (sql_error ''FOREIGN KEY constraint failed'')
       else if length (c_argv row) \<noteq> 64 then Inl (sql_error ''CHECK constraint failed: length(argv_sha256)=64'')
       else Inr (db\<lparr>db_commands := db_commands db @ [row]\<rparr>)))"

definition retire :: "unit result \<Rightarrow> unit result \<Rightarrow> (task list \<Rightarrow> unit result) \<Rightarrow> unit result \<Rightarrow> sql_db \<Rightarrow> sql_db result" where
  "retire enter confirm project switch_selector =
     transaction enter confirm (\<lambda>db.
       bindE (load_tasks db) (\<lambda>tasks.
       bindE (project tasks) (\<lambda>_.
       bindE switch_selector (\<lambda>_.
       Inr (db\<lparr>db_state := Some ''retired''\<rparr>)))))"

section \<open>The invariant of the database\<close>

text \<open>The columns of a row are those its record gives.\<close>

definition row_matches :: "task_row \<Rightarrow> bool" where
  "row_matches r \<longleftrightarrow>
     dget (r_meta r) ''id'' = PStr (r_id r) \<and> dget (r_meta r) ''task_revision'' = PInt (r_revision r) \<and>
     (\<exists>f. row_values (r_meta r) (r_body r) = Inr f \<and> f r = r)"

definition COLUMNS :: "(task_row \<Rightarrow> string) list" where "COLUMNS = [r_owner, r_branch, r_worktree]"

definition tasks_ok :: "task_row list \<Rightarrow> bool" where
  "tasks_ok rows \<longleftrightarrow>
     distinct (map r_id rows) \<and> distinct (map r_filename rows) \<and>
     (\<forall>r \<in> set rows. row_checks r \<and> row_matches r \<and>
        (\<forall>col \<in> set COLUMNS. index_free col r (filter (\<lambda>q. r_id q \<noteq> r_id r) rows)))"

definition deps_ok :: "sql_db \<Rightarrow> bool" where
  "deps_ok db \<longleftrightarrow> distinct (db_deps db) \<and> (\<forall>(a, b) \<in> set (db_deps db). known_id db a \<and> known_id db b \<and> a \<noteq> b)"

definition events_ok :: "sql_db \<Rightarrow> bool" where
  "events_ok db \<longleftrightarrow>
     distinct (map (\<lambda>e. (e_task e, e_revision e)) (db_events db)) \<and>
     (\<forall>e \<in> set (db_events db). \<exists>r \<in> set (db_tasks db). r_id r = e_task e \<and> e_revision e \<le> r_revision r)"

definition history_ok :: "nat \<Rightarrow> sql_db \<Rightarrow> history_row list \<Rightarrow> bool" where
  "history_ok cap db rows \<longleftrightarrow>
     distinct (map (\<lambda>h. (h_task h, h_revision h)) rows) \<and> (\<forall>h \<in> set rows. known_id db (h_task h)) \<and>
     (\<forall>x. length (filter (\<lambda>h. h_task h = x) rows) \<le> cap)"

definition db_ok :: "sql_db \<Rightarrow> bool" where
  "db_ok db \<longleftrightarrow> tasks_ok (db_tasks db) \<and> deps_ok db \<and> events_ok db \<and> history_ok 32 db (db_sessions db) \<and> history_ok 16 db (db_checkpoints db)"

definition look :: "sql_db \<Rightarrow> string \<Rightarrow> task_row option" where
  "look db x = find (\<lambda>r. r_id r = x) (db_tasks db)"

lemma look_Some: "look db x = Some r \<Longrightarrow> r \<in> set (db_tasks db) \<and> r_id r = x"
  unfolding look_def by (rule find_Some_mem)

lemma find_unique: "distinct (map g xs) \<Longrightarrow> x \<in> set xs \<Longrightarrow> find (\<lambda>y. g y = g x) xs = Some x"
  by (induction xs) (auto simp: image_iff)

lemma look_unique: "distinct (map r_id (db_tasks db)) \<Longrightarrow> r \<in> set (db_tasks db) \<Longrightarrow> look db (r_id r) = Some r"
  unfolding look_def by (rule find_unique)

section \<open>Statements keep it\<close>

lemma row_values_Inr:
  assumes "row_values meta body = Inr f"
  shows "r_id (f r) = r_id r" "r_filename (f r) = r_filename r" "r_meta (f r) = meta" "r_body (f r) = body" "f (f q) = f q"
    "r_revision (f r) = int_of (dget meta ''task_revision'')"
  using assms by (auto simp: row_values_def bindE_Inr sql_int_def dest!: ditem_Inr_dget split: if_splits)

lemma update_rows_Inr:
  assumes "update_rows task_id current f rows = Inr (rows', 1)" "distinct (map r_id rows)"
  obtains r where "r \<in> set rows" "r_id r = task_id" "r_revision r = current"
    "row_admitted (f r) (filter (\<lambda>q. r_id q \<noteq> task_id) rows)" "rows' = map (\<lambda>q. if r_id q = task_id then f r else q) rows"
proof -
  have adm: "\<And>r. r \<in> set rows \<Longrightarrow> row_hit task_id current r \<Longrightarrow> row_admitted (f r) (filter (\<lambda>q. r_id q \<noteq> task_id) rows)"
    and rows': "rows' = map (\<lambda>r. if row_hit task_id current r then f r else r) rows" and n: "length (filter (row_hit task_id current) rows) = 1"
    using assms(1) by (auto simp: update_rows_def list_all_iff split: if_splits)
  obtain r where r: "filter (row_hit task_id current) rows = [r]" using n by (auto simp: length_Suc_conv)
  then have "r \<in> set (filter (row_hit task_id current) rows)" by simp
  then have mem: "r \<in> set rows" "row_hit task_id current r" by simp_all
  have "q = r" if "q \<in> set rows" "r_id q = task_id" for q
    using that mem assms(2) by (auto simp: row_hit_def distinct_map inj_on_def)
  then have "rows' = map (\<lambda>q. if r_id q = task_id then f r else q) rows"
    unfolding rows' using mem(2) by (auto simp: row_hit_def)
  then show ?thesis using that mem adm by (auto simp: row_hit_def)
qed

lemma write_task_Inr:
  assumes "write_task lost task_id current meta body db = Inr db'" "distinct (map r_id (db_tasks db))"
  obtains f r where "row_values meta body = Inr f" "look db task_id = Some r" "r_revision r = current"
    "row_admitted (f r) (filter (\<lambda>q. r_id q \<noteq> task_id) (db_tasks db))"
    "db' = db\<lparr>db_tasks := map (\<lambda>q. if r_id q = task_id then f r else q) (db_tasks db)\<rparr>"
proof -
  obtain f rows where w: "row_values meta body = Inr f" "update_rows task_id current f (db_tasks db) = Inr (rows, 1)" "db' = db\<lparr>db_tasks := rows\<rparr>"
    using assms(1) by (auto simp: write_task_def bindE_Inr raise_if_Inr)
  obtain r where "r \<in> set (db_tasks db)" "r_id r = task_id" "r_revision r = current"
    "row_admitted (f r) (filter (\<lambda>q. r_id q \<noteq> task_id) (db_tasks db))" "rows = map (\<lambda>q. if r_id q = task_id then f r else q) (db_tasks db)"
    using w(2) assms(2) by (rule update_rows_Inr)
  then show ?thesis using that w look_unique [OF assms(2)] by auto
qed

text \<open>Replacing one row by an admitted one.\<close>

lemma index_free_sym:
  "index_free col r rows \<Longrightarrow> q \<in> set rows \<Longrightarrow> is_active q \<Longrightarrow> col q \<noteq> [] \<Longrightarrow> \<not> (is_active r \<and> col r = col q)"
  by (auto simp: index_free_def list_all_iff)

lemma tasks_ok_replace:
  assumes "tasks_ok rows" "r \<in> set rows" "r_id r = x" "r_id q = x" "r_filename q = r_filename r"
    "row_admitted q (filter (\<lambda>u. r_id u \<noteq> x) rows)" "row_matches q"
  shows "tasks_ok (map (\<lambda>u. if r_id u = x then q else u) rows)"
proof -
  let ?m = "\<lambda>u. if r_id u = x then q else u"
  have same: "u = r" if "u \<in> set rows" "r_id u = x" for u
    using that assms(1,2,3) by (auto simp: tasks_ok_def distinct_map inj_on_def)
  have ids: "map r_id (map ?m rows) = map r_id rows" using assms(4) by auto
  have names: "map r_filename (map ?m rows) = map r_filename rows" using assms(5) same by auto
  have others: "filter (\<lambda>u. r_id u \<noteq> x) (map ?m rows) = filter (\<lambda>u. r_id u \<noteq> x) rows"
    using assms(4) by (induction rows) auto
  have free: "\<And>col. col \<in> set COLUMNS \<Longrightarrow> index_free col q (filter (\<lambda>u. r_id u \<noteq> x) rows)"
    using assms(6) by (auto simp: row_admitted_def COLUMNS_def)
  have "index_free col u (filter (\<lambda>v. r_id v \<noteq> r_id u) (map ?m rows))"
    if u: "u \<in> set rows" "r_id u \<noteq> x" and col: "col \<in> set COLUMNS" for u col
  proof -
    have old: "index_free col u (filter (\<lambda>v. r_id v \<noteq> r_id u) rows)" using assms(1) u col by (auto simp: tasks_ok_def)
    have "\<not> (is_active q \<and> col q = col u)" if "is_active u" "col u \<noteq> []"
      using index_free_sym [OF free [OF col] _ that] u by auto
    then show ?thesis using old by (auto simp: index_free_def list_all_iff)
  qed
  moreover have "row_checks q" using assms(6) by (simp add: row_admitted_def)
  ultimately have "\<forall>u \<in> set (map ?m rows). row_checks u \<and> row_matches u \<and>
      (\<forall>col \<in> set COLUMNS. index_free col u (filter (\<lambda>v. r_id v \<noteq> r_id u) (map ?m rows)))"
    using assms(1,4,7) free others by (auto simp: tasks_ok_def)
  then show ?thesis
    unfolding tasks_ok_def ids names using assms(1) by (intro conjI) (auto simp: tasks_ok_def)
qed

lemma written_row_matches:
  assumes "row_values meta body = Inr f" "dget meta ''id'' = PStr (r_id r)" "dget meta ''task_revision'' = PInt n"
  shows "row_matches (f r)"
  using assms row_values_Inr [OF assms(1)] by (simp add: row_matches_def)

text \<open>A write of the record with the next revision.\<close>

definition wrote :: "string \<Rightarrow> meta \<Rightarrow> string \<Rightarrow> sql_db \<Rightarrow> sql_db \<Rightarrow> bool" where
  "wrote x meta body db db' \<longleftrightarrow>
     (\<exists>r q. look db x = Some r \<and> r_id q = x \<and> r_filename q = r_filename r \<and> r_meta q = meta \<and> r_body q = body \<and> r_revision q = r_revision r + 1 \<and>
        db' = db\<lparr>db_tasks := map (\<lambda>u. if r_id u = x then q else u) (db_tasks db)\<rparr>)"

lemma wrote_look:
  assumes "wrote x meta body db db'"
  shows "look db' y = (if y = x then look db' x else look db y)" "\<exists>q. look db' x = Some q \<and> r_meta q = meta"
    "known_id db' y = known_id db y" "db_deps db' = db_deps db" "db_events db' = db_events db"
    "db_sessions db' = db_sessions db" "db_checkpoints db' = db_checkpoints db" "db_state db' = db_state db" "db_commands db' = db_commands db"
proof -
  obtain r q where w: "look db x = Some r" "r_id q = x" "r_meta q = meta"
    "db' = db\<lparr>db_tasks := map (\<lambda>u. if r_id u = x then q else u) (db_tasks db)\<rparr>"
    using assms by (auto simp: wrote_def)
  have f: "find (\<lambda>v. r_id v = y) (map (\<lambda>u. if r_id u = x then q else u) rows) =
      (if y = x then (if \<exists>u \<in> set rows. r_id u = x then Some q else None) else find (\<lambda>v. r_id v = y) rows)" for y rows
    using w(2) by (induction rows) auto
  have "\<exists>u \<in> set (db_tasks db). r_id u = x" using look_Some [OF w(1)] by blast
  then show "look db' y = (if y = x then look db' x else look db y)" "\<exists>q. look db' x = Some q \<and> r_meta q = meta"
    using w(3) by (auto simp: look_def w(4) f)
  have "map r_id (db_tasks db') = map r_id (db_tasks db)" using w(2) by (auto simp: w(4))
  then show "known_id db' y = known_id db y" unfolding known_id_def by (metis list.set_map)
qed (use assms in \<open>auto simp: wrote_def\<close>)

lemma wrote_row:
  assumes "wrote x meta body db db'"
  shows "\<exists>r q. look db x = Some r \<and> look db' x = Some q \<and> r_filename q = r_filename r \<and> r_body q = body \<and>
    db_tasks db' = map (\<lambda>u. if r_id u = x then q else u) (db_tasks db)"
proof -
  obtain r q where w: "look db x = Some r" "r_id q = x" "r_filename q = r_filename r" "r_body q = body"
    "db' = db\<lparr>db_tasks := map (\<lambda>u. if r_id u = x then q else u) (db_tasks db)\<rparr>"
    using assms by (auto simp: wrote_def)
  have "find (\<lambda>v. r_id v = x) (map (\<lambda>u. if r_id u = x then q else u) rows) = Some q" if "\<exists>u \<in> set rows. r_id u = x" for rows
    using that w(2) by (induction rows) auto
  then have "look db' x = Some q" using look_Some [OF w(1)] by (auto simp: w(5) look_def)
  then show ?thesis using w by auto
qed

lemma write_task_wrote:
  assumes "write_task lost x current meta body db = Inr db'" "db_ok db"
    and "dget meta ''id'' = PStr x" "dget meta ''task_revision'' = PInt (current + 1)"
  shows "wrote x meta body db db'" "tasks_ok (db_tasks db')" "\<exists>r. look db x = Some r \<and> r_revision r = current"
    "look db' x = Some q \<Longrightarrow> r_revision q = current + 1"
proof -
  have ok: "tasks_ok (db_tasks db)" "distinct (map r_id (db_tasks db))" using assms(2) by (auto simp: db_ok_def tasks_ok_def)
  obtain f r where w: "row_values meta body = Inr f" "look db x = Some r" "r_revision r = current"
    "row_admitted (f r) (filter (\<lambda>q. r_id q \<noteq> x) (db_tasks db))"
    "db' = db\<lparr>db_tasks := map (\<lambda>q. if r_id q = x then f r else q) (db_tasks db)\<rparr>"
    using assms(1) ok(2) by (rule write_task_Inr)
  note fr = row_values_Inr [OF w(1)] and r = look_Some [OF w(2)]
  show "wrote x meta body db db'" "\<exists>r. look db x = Some r \<and> r_revision r = current"
    using w fr r assms(4) by (auto simp: wrote_def intro!: exI [of _ "f r"])
  show "tasks_ok (db_tasks db')"
    unfolding w(5) using r fr w(4) written_row_matches [OF w(1), of r "current + 1"] assms(3,4)
    by (auto intro!: tasks_ok_replace [OF ok(1), of r])
  show "r_revision q = current + 1" if "look db' x = Some q"
  proof -
    have "q \<in> set (map (\<lambda>q. if r_id q = x then f r else q) (db_tasks db))" "r_id q = x" using look_Some [OF that] by (auto simp: w(5))
    then have "q = f r" by auto
    then show ?thesis using fr(6) assms(4) by simp
  qed
qed

definition deps_fit :: "sql_db \<Rightarrow> (string \<times> string) list \<Rightarrow> bool" where
  "deps_fit db deps \<longleftrightarrow> distinct deps \<and> (\<forall>(a, b) \<in> set deps. known_id db a \<and> known_id db b \<and> a \<noteq> b)"

lemma insert_deps_fit: "fold_result (insert_dep db x) values deps = Inr deps' \<Longrightarrow> deps_fit db deps \<Longrightarrow> deps_fit db deps'"
proof (induction "values" arbitrary: deps)
  case (Cons v vs)
  then obtain deps1 where d: "insert_dep db x v deps = Inr deps1" "fold_result (insert_dep db x) vs deps1 = Inr deps'"
    by (auto simp: bindE_Inr)
  then have "deps_fit db deps1" using Cons.prems(2) by (auto simp: insert_dep_def deps_fit_def bindE_Inr split: if_splits)
  then show ?case using Cons.IH d(2) by blast
qed simp

lemma replace_deps_Inr:
  assumes "replace_deps x meta db = Inr db'" "deps_fit db (db_deps db)"
  shows "\<exists>deps. db' = db\<lparr>db_deps := deps\<rparr> \<and> deps_fit db deps"
proof -
  have "deps_fit db (filter (\<lambda>d. fst d \<noteq> x) (db_deps db))" using assms(2) by (auto simp: deps_fit_def)
  then show ?thesis using assms(1) insert_deps_fit by (fastforce simp: replace_deps_def bindE_Inr)
qed

lemma insert_event_Inr:
  assumes "insert_event x n kind at note db = Inr db'"
  shows "db' = db\<lparr>db_events := db_events db @ [\<lparr>e_task = x, e_revision = n, e_kind = kind, e_at = at, e_note = note\<rparr>]\<rparr>"
    "\<forall>e \<in> set (db_events db). \<not> (e_task e = x \<and> e_revision e = n)"
  using assms by (auto simp: insert_event_def bindE_Inr list_ex_iff split: if_splits)

lemma trim_sub: "set (trim cap x rows) \<subseteq> set rows"
  by (induction rows) auto

lemma trim_distinct: "distinct (map g rows) \<Longrightarrow> distinct (map g (trim cap x rows))"
  by (induction rows) (auto dest: trim_sub [THEN subsetD])

lemma trim_other: "y \<noteq> x \<Longrightarrow> filter (\<lambda>h. h_task h = y) (trim cap x rows) = filter (\<lambda>h. h_task h = y) rows"
  by (induction rows) auto

lemma trim_count: "length (filter (\<lambda>h. h_task h = x) (trim cap x rows)) = min cap (length (filter (\<lambda>h. h_task h = x) rows))"
  by (induction rows) auto

lemma insert_history_ok:
  assumes "insert_history cap x entry db rows = Inr rows'" "history_ok cap db rows"
  shows "history_ok cap db rows'"
proof -
  obtain n at where h: "known_id db x" "\<forall>r \<in> set rows. \<not> (h_task r = x \<and> h_revision r = n)"
    "rows' = trim cap x (rows @ [\<lparr>h_task = x, h_revision = n, h_record = entry, h_at = at\<rparr>])" (is "_ = trim cap x ?all")
    using assms(1) by (auto simp: insert_history_def bindE_Inr list_ex_iff split: if_splits)
  have "distinct (map (\<lambda>h. (h_task h, h_revision h)) ?all)" using assms(2) h(2) by (auto simp: history_ok_def)
  moreover have "\<forall>r \<in> set ?all. known_id db (h_task r)" using assms(2) h(1) by (auto simp: history_ok_def)
  moreover have "length (filter (\<lambda>h. h_task h = y) rows') \<le> cap" for y
    using assms(2) by (cases "y = x") (auto simp: history_ok_def h(3) trim_count trim_other)
  ultimately show ?thesis
    unfolding history_ok_def h(3) using trim_distinct trim_sub by blast
qed

text \<open>A stored record with its event: the next revision of one task.\<close>

lemma write_event_ok:
  assumes "db_ok db" "write_task lost x current meta body db = Inr db1" "dget meta ''id'' = PStr x" "dget meta ''task_revision'' = PInt (current + 1)"
    and "deps_fit db1 deps" "insert_event x (current + 1) kind at note (db1\<lparr>db_deps := deps\<rparr>) = Inr db2"
  shows "db_ok db2"
proof -
  note w = write_task_wrote [OF assms(2,1,3,4)] and e = insert_event_Inr [OF assms(6)]
  note l = wrote_look [OF w(1)]
  obtain q where q: "look db1 x = Some q" using l(2) by blast
  have known: "known_id db2 y = known_id db y" for y using l(3) e(1) by (simp add: known_id_def)
  obtain r where r: "look db x = Some r" "r_revision r = current" using w(3) by blast
  have later: "\<exists>u \<in> set (db_tasks db1). r_id u = r_id v \<and> r_revision v \<le> r_revision u" if v: "v \<in> set (db_tasks db)" for v
  proof (cases "r_id v = x")
    case True
    have "look db (r_id v) = Some v" using assms(1) v by (intro look_unique) (auto simp: db_ok_def tasks_ok_def)
    then show ?thesis using True r w(4) [OF q] look_Some [OF q] by auto
  next
    case False
    have "look db (r_id v) = Some v" using assms(1) v by (intro look_unique) (auto simp: db_ok_def tasks_ok_def)
    then have "look db1 (r_id v) = Some v" using l(1) [of "r_id v"] False by simp
    then show ?thesis using look_Some by blast
  qed
  have old: "distinct (map (\<lambda>e. (e_task e, e_revision e)) (db_events db))"
      "\<forall>e \<in> set (db_events db). \<exists>r \<in> set (db_tasks db). r_id r = e_task e \<and> e_revision e \<le> r_revision r"
    using assms(1) by (simp_all add: db_ok_def events_ok_def)
  have "\<forall>e \<in> set (db_events db). \<exists>r \<in> set (db_tasks db1). r_id r = e_task e \<and> e_revision e \<le> r_revision r"
    using old(2) later by (metis order_trans)
  moreover have "\<exists>r \<in> set (db_tasks db1). r_id r = x \<and> current + 1 \<le> r_revision r" using w(4) [OF q] look_Some [OF q] by auto
  ultimately have "events_ok db2" using old(1) e(2) l(5) by (auto simp: events_ok_def e(1))
  moreover have "deps_ok db2" using assms(5) by (simp add: deps_ok_def deps_fit_def e(1) known_id_def)
  moreover have "history_ok 32 db2 (db_sessions db2)" "history_ok 16 db2 (db_checkpoints db2)"
    using assms(1) known l(6,7) by (simp_all add: history_ok_def db_ok_def e(1))
  ultimately show ?thesis using w(2) by (simp add: db_ok_def e(1))
qed

section \<open>Transactions keep it\<close>

lemma loaded_row:
  assumes "load_tasks db = Inr tasks" "t \<in> set tasks"
  shows "\<exists>r \<in> set (db_tasks db). t = (r_filename r, r_meta r, r_body r)"
proof -
  have "map_result load_row rows = Inr ts \<Longrightarrow> t \<in> set ts \<Longrightarrow> \<exists>r \<in> set rows. load_row r = Inr t" for rows ts
    by (induction rows arbitrary: ts) (auto simp: bindE_Inr)
  then show ?thesis using assms by (fastforce simp: load_tasks_def load_row_def split: if_splits)
qed

lemma find_result_Some: "find_result p xs = Inr (Some x) \<Longrightarrow> x \<in> set xs \<and> p x = Inr True"
  by (induction xs) (auto simp: bindE_Inr split: if_splits)

lemma selected_row:
  assumes "load_tasks db = Inr tasks" "select_task x tasks = Inr t" "db_ok db"
  shows "\<exists>r. look db x = Some r \<and> t = (r_filename r, r_meta r, r_body r) \<and> row_matches r"
proof -
  have t: "t \<in> set tasks" "dget (task_meta t) ''id'' = PStr x"
    using assms(2) by (auto simp: select_task_def bindE_Inr dest!: find_result_Some ditem_Inr_dget split: option.splits)
  obtain r where r: "r \<in> set (db_tasks db)" "t = (r_filename r, r_meta r, r_body r)" using loaded_row [OF assms(1) t(1)] by blast
  have "row_matches r" "distinct (map r_id (db_tasks db))" using assms(3) r(1) by (auto simp: db_ok_def tasks_ok_def)
  moreover have "r_id r = x" using t(2) r(2) \<open>row_matches r\<close> by (simp add: row_matches_def task_meta_def)
  ultimately show ?thesis using look_unique r by blast
qed

text \<open>What one step may do to the tasks: each row stays as it is or gets a larger revision, and each revision gained
  has its event.\<close>

definition logged :: "sql_db \<Rightarrow> string \<Rightarrow> int \<Rightarrow> bool" where
  "logged db x n = (\<exists>e \<in> set (db_events db). e_task e = x \<and> e_revision e = n)"

definition moved :: "sql_db \<Rightarrow> sql_db \<Rightarrow> bool" where
  "moved db db' \<longleftrightarrow>
     set (db_events db) \<subseteq> set (db_events db') \<and>
     (\<forall>x r. look db x = Some r \<longrightarrow> (\<exists>q. look db' x = Some q \<and> (q = r \<or> r_revision r < r_revision q) \<and>
        (\<forall>n. r_revision r < n \<and> n \<le> r_revision q \<longrightarrow> logged db' x n)))"

lemma moved_refl: "moved db db"
  by (auto simp: moved_def)

lemma moved_trans:
  assumes "moved a b" "moved b c"
  shows "moved a c"
  unfolding moved_def
proof (intro conjI allI impI)
  show "set (db_events a) \<subseteq> set (db_events c)" using assms by (auto simp: moved_def)
  fix x r assume "look a x = Some r"
  then obtain q where q: "look b x = Some q" "q = r \<or> r_revision r < r_revision q" "\<forall>n. r_revision r < n \<and> n \<le> r_revision q \<longrightarrow> logged b x n"
    using assms(1) unfolding moved_def by blast
  then obtain u where u: "look c x = Some u" "u = q \<or> r_revision q < r_revision u" "\<forall>n. r_revision q < n \<and> n \<le> r_revision u \<longrightarrow> logged c x n"
    using assms(2) unfolding moved_def by blast
  have up: "logged c x n" if "logged b x n" for n using that assms(2) by (auto simp: moved_def logged_def)
  have "logged c x n" if "r_revision r < n" "n \<le> r_revision u" for n
    using that q(3) u(3) up by (cases "n \<le> r_revision q") auto
  then show "\<exists>u. look c x = Some u \<and> (u = r \<or> r_revision r < r_revision u) \<and> (\<forall>n. r_revision r < n \<and> n \<le> r_revision u \<longrightarrow> logged c x n)"
    using q(2) u(1,2) by (intro exI [of _ u]) auto
qed

lemma write_event_moved:
  assumes "db_ok db" "write_task lost x current meta body db = Inr db1" "dget meta ''id'' = PStr x" "dget meta ''task_revision'' = PInt (current + 1)"
    and "insert_event x (current + 1) kind at note (db1\<lparr>db_deps := deps\<rparr>) = Inr db2"
  shows "moved db db2" "\<exists>q. look db2 x = Some q \<and> r_meta q = meta \<and> r_revision q = current + 1" "y \<noteq> x \<Longrightarrow> look db2 y = look db y"
proof -
  note w = write_task_wrote [OF assms(2,1,3,4)] and e = insert_event_Inr [OF assms(5)]
  note l = wrote_look [OF w(1)]
  have look2: "look db2 y = look db1 y" for y by (simp add: look_def e(1))
  obtain q where q: "look db1 x = Some q" "r_meta q = meta" "r_revision q = current + 1" using l(2) w(4) by blast
  then show "\<exists>q. look db2 x = Some q \<and> r_meta q = meta \<and> r_revision q = current + 1" by (simp add: look2)
  show other: "look db2 y = look db y" if "y \<noteq> x" for y using l(1) [of y] that by (simp add: look2)
  obtain r where r: "look db x = Some r" "r_revision r = current" using w(3) by blast
  have log: "logged db2 x (current + 1)" by (simp add: logged_def e(1))
  have "\<exists>q. look db2 y = Some q \<and> (q = v \<or> r_revision v < r_revision q) \<and> (\<forall>n. r_revision v < n \<and> n \<le> r_revision q \<longrightarrow> logged db2 y n)"
    if v: "look db y = Some v" for y v
  proof (cases "y = x")
    case True
    then have "v = r" using v r by simp
    moreover have "logged db2 x n" if "current < n" "n \<le> current + 1" for n
    proof -
      have "n = current + 1" using that by simp
      then show ?thesis using log by simp
    qed
    ultimately show ?thesis using True q r by (auto simp: look2)
  next
    case False
    then show ?thesis using v other by auto
  qed
  then show "moved db db2" using l(5) by (auto simp: moved_def e(1))
qed

definition keeps_id :: "(meta \<Rightarrow> task list \<Rightarrow> (meta \<times> string \<times> string) result) \<Rightarrow> bool" where
  "keeps_id transition = (\<forall>meta tasks meta' note body. transition meta tasks = Inr (meta', note, body) \<longrightarrow> dget meta' ''id'' = dget meta ''id'')"

lemma store_checkpoint_Inr:
  assumes "store_checkpoint x entry db = Inr db'" "db_ok db"
  shows "db_ok db'" "db_tasks db' = db_tasks db" "db_events db' = db_events db"
  using assms insert_history_ok [of 16 x _ db "db_checkpoints db"]
  by (auto simp: store_checkpoint_def db_ok_def bindE_Inr history_ok_def known_id_def deps_ok_def events_ok_def split: option.splits)

lemma store_session_Inr:
  assumes "store_session x entry db = Inr db'" "db_ok db"
  shows "db_ok db'" "db_tasks db' = db_tasks db" "db_events db' = db_events db"
  using assms insert_history_ok [of 32 x _ db "db_sessions db"]
  by (auto simp: store_session_def db_ok_def bindE_Inr history_ok_def known_id_def deps_ok_def events_ok_def split: option.splits)

text \<open>The mutation of one task: it saw the row it replaces, at the expected revision.\<close>

lemma mutate_body_Inr:
  assumes "mutate_body x expected kind at transition given session_factory checkpoint_factory db = Inr db'" "db_ok db" "keeps_id transition"
  obtains r tasks meta1 msg body where "look db x = Some r" "r_revision r = expected" "load_tasks db = Inr tasks"
    "transition (r_meta r) tasks = Inr (meta1, msg, body)" "db_ok db'" "moved db db'"
    "\<exists>q. look db' x = Some q \<and> r_meta q = dset (dset meta1 ''task_revision'' (PInt (expected + 1))) ''updated_at'' (PStr at) \<and>
       r_revision q = expected + 1"
    "\<forall>y. y \<noteq> x \<longrightarrow> look db' y = look db y"
    "\<exists>q. look db' x = Some q \<and> r_filename q = r_filename r \<and> r_body q = body \<and> db_tasks db' = map (\<lambda>u. if r_id u = x then q else u) (db_tasks db)"
proof -
  obtain tasks t meta1 msg body checkpoint session db1 db2 db3 db4 where b: "load_tasks db = Inr tasks" "select_task x tasks = Inr t"
    "py_int (dget (task_meta t) ''task_revision'') = Inr expected" "transition (task_meta t) tasks = Inr (meta1, msg, body)"
    "store_checkpoint x checkpoint db = Inr db1"
    "write_task ''SQLITE_CONFLICT: exact-revision update lost its fence'' x expected
       (dset (dset meta1 ''task_revision'' (PInt (expected + 1))) ''updated_at'' (PStr at)) body db1 = Inr db2"
    "replace_deps x (dset (dset meta1 ''task_revision'' (PInt (expected + 1))) ''updated_at'' (PStr at)) db2 = Inr db3"
    "insert_event x (expected + 1) kind at msg db3 = Inr db4" "store_session x session db4 = Inr db'"
    using assms(1) unfolding mutate_body_def Let_def
    by (elim bindE_elim) (auto simp: raise_if_Inr split: prod.split_asm dest!: ditem_Inr_dget elim!: bindE_elim)
  let ?m = "dset (dset meta1 ''task_revision'' (PInt (expected + 1))) ''updated_at'' (PStr at)"
  obtain r where r: "look db x = Some r" "t = (r_filename r, r_meta r, r_body r)" "row_matches r"
    using selected_row [OF b(1,2) assms(2)] by blast
  then have rid: "r_id r = x" "r_revision r = expected" using b(3) look_Some by (auto simp: row_matches_def task_meta_def)
  have "dget meta1 ''id'' = dget (task_meta t) ''id''" using assms(3) b(4) unfolding keeps_id_def by blast
  then have id: "dget ?m ''id'' = PStr x" "dget ?m ''task_revision'' = PInt (expected + 1)"
    using r rid by (auto simp: row_matches_def task_meta_def)
  note c = store_checkpoint_Inr [OF b(5) assms(2)]
  note w = write_task_wrote(1) [OF b(6) c(1) id]
  have "deps_fit db2 (db_deps db2)"
    using c(1) wrote_look(3,4) [OF w] by (auto simp: db_ok_def deps_ok_def deps_fit_def)
  then obtain deps where d: "db3 = db2\<lparr>db_deps := deps\<rparr>" "deps_fit db2 deps" using replace_deps_Inr [OF b(7)] by blast
  note e = b(8) [unfolded d(1)]
  have ok4: "db_ok db4" using write_event_ok [OF c(1) b(6) id d(2) e] .
  note m = write_event_moved [OF c(1) b(6) id e]
  note s = store_session_Inr [OF b(9) ok4]
  have same: "look db1 = look db" "db_events db1 = db_events db" "look db' = look db4" "db_events db' = db_events db4"
    using c(2,3) s(2,3) by (auto simp: look_def)
  have mv: "moved db db'" using m(1) by (simp add: moved_def same logged_def)
  obtain q where q: "look db2 x = Some q" "r_filename q = r_filename r" "r_body q = body"
    "db_tasks db2 = map (\<lambda>u. if r_id u = x then q else u) (db_tasks db)"
    using wrote_row [OF w] r(1) by (auto simp: c(2) same(1))
  have "db_tasks db' = db_tasks db2" using s(2) insert_event_Inr(1) [OF e] by simp
  then have stored: "\<exists>q. look db' x = Some q \<and> r_filename q = r_filename r \<and> r_body q = body \<and> db_tasks db' = map (\<lambda>u. if r_id u = x then q else u) (db_tasks db)"
    using q by (auto simp: look_def)
  show ?thesis
  proof (rule that [OF r(1) rid(2) b(1) _ s(1) mv _ _ stored])
    show "transition (r_meta r) tasks = Inr (meta1, msg, body)" using b(4) by (simp add: r(2) task_meta_def)
    show "\<exists>q. look db' x = Some q \<and> r_meta q = ?m \<and> r_revision q = expected + 1" "\<forall>y. y \<noteq> x \<longrightarrow> look db' y = look db y"
      using m(2,3) by (simp_all add: same)
  qed
qed

lemma observe_row_ok:
  assumes "observe_row observations at t db = Inr db'" "db_ok db" "is_str (dget (task_meta t) ''id'')"
  shows "db_ok db' \<and> moved db db'"
proof (cases "db' = db")
  case True
  then show ?thesis using assms(2) moved_refl by blast
next
  case False
  obtain b h d current x db1 where o: "dget (task_meta t) ''id'' = PStr x"
    "write_task ''SQLITE_CONFLICT: observation update lost its fence'' x current
       (dset (dset (dset (dset (dset (task_meta t) ''observed_branch'' b) ''observed_head'' h) ''observed_dirty'' d)
         ''task_revision'' (PInt (current + 1))) ''updated_at'' (PStr at)) (snd (snd t)) db = Inr db1"
    "insert_event x (current + 1) ''reconcile'' at ''Recorded live worktree state.'' db1 = Inr db'"
    using assms(1,3) False unfolding observe_row_def Let_def observed_values_def
    by (auto simp: bindE_Inr sql_text_def is_str_iff dest!: ditem_Inr_dget split: option.split_asm if_split_asm)
  have e: "insert_event x (current + 1) ''reconcile'' at ''Recorded live worktree state.'' (db1\<lparr>db_deps := db_deps db1\<rparr>) = Inr db'"
    using o(3) by simp
  let ?m = "dset (dset (dset (dset (dset (task_meta t) ''observed_branch'' b) ''observed_head'' h) ''observed_dirty'' d)
         ''task_revision'' (PInt (current + 1))) ''updated_at'' (PStr at)"
  have id: "dget ?m ''id'' = PStr x" "dget ?m ''task_revision'' = PInt (current + 1)" using o(1) by simp_all
  have "deps_fit db1 (db_deps db1)"
    using assms(2) wrote_look(3,4) [OF write_task_wrote(1) [OF o(2) assms(2) id]] by (auto simp: db_ok_def deps_ok_def deps_fit_def)
  then show ?thesis
    using write_event_ok [OF assms(2) o(2) id _ e] write_event_moved(1) [OF assms(2) o(2) id e] by blast
qed

lemma observe_rows_ok:
  "fold_result (observe_row observations at) tasks db = Inr db' \<Longrightarrow> db_ok db \<Longrightarrow> \<forall>t \<in> set tasks. is_str (dget (task_meta t) ''id'') \<Longrightarrow>
     db_ok db' \<and> moved db db'"
proof (induction tasks arbitrary: db)
  case Nil
  then show ?case by (simp add: moved_refl)
next
  case (Cons t ts)
  then obtain db1 where d: "observe_row observations at t db = Inr db1" "fold_result (observe_row observations at) ts db1 = Inr db'"
    by (auto simp: bindE_Inr)
  have "db_ok db1 \<and> moved db db1" using observe_row_ok [OF d(1)] Cons.prems(2,3) by simp
  then show ?case using Cons.IH [OF d(2)] Cons.prems(3) moved_trans by fastforce
qed

section \<open>Versioned stores\<close>

text \<open>The interface of a store with optimistic concurrency: a client that read version \<open>v\<close> of an entry and later
  writes with the test that the version is still \<open>v\<close> relies on the entry being unchanged then.\<close>

locale versioned_store =
  fixes ok :: "'db \<Rightarrow> bool"
    and entry :: "'db \<Rightarrow> 'k \<Rightarrow> 'r option"
    and version :: "'r \<Rightarrow> int"
    and recorded :: "'db \<Rightarrow> 'k \<Rightarrow> int \<Rightarrow> bool"
    and step :: "'db \<Rightarrow> 'db \<Rightarrow> bool"
  assumes ok_step: "ok db \<Longrightarrow> step db db' \<Longrightarrow> ok db'"
    and entry_step: "ok db \<Longrightarrow> step db db' \<Longrightarrow> entry db k = Some r \<Longrightarrow>
      \<exists>q. entry db' k = Some q \<and> (q = r \<or> version r < version q) \<and> (\<forall>n. version r < n \<and> n \<le> version q \<longrightarrow> recorded db' k n)"
    and recorded_step: "ok db \<Longrightarrow> step db db' \<Longrightarrow> recorded db k n \<Longrightarrow> recorded db' k n"
begin

lemma run_ok: "step\<^sup>*\<^sup>* db db' \<Longrightarrow> ok db \<Longrightarrow> ok db'"
  by (induction rule: rtranclp_induct) (auto intro: ok_step)

lemma run_entry:
  assumes "step\<^sup>*\<^sup>* db db'" "ok db" "entry db k = Some r"
  shows "\<exists>q. entry db' k = Some q \<and> (q = r \<or> version r < version q) \<and> (\<forall>n. version r < n \<and> n \<le> version q \<longrightarrow> recorded db' k n)"
  using assms
proof (induction rule: rtranclp_induct)
  case (step b c)
  then obtain q where q: "entry b k = Some q" "q = r \<or> version r < version q" "\<forall>n. version r < n \<and> n \<le> version q \<longrightarrow> recorded b k n" by blast
  have ok: "ok b" using run_ok step.hyps(1) step.prems(1) by blast
  obtain u where u: "entry c k = Some u" "u = q \<or> version q < version u" "\<forall>n. version q < n \<and> n \<le> version u \<longrightarrow> recorded c k n"
    using entry_step [OF ok step.hyps(2) q(1)] by blast
  have "recorded c k n" if "version r < n" "n \<le> version u" for n
    using that q(3) u(3) recorded_step [OF ok step.hyps(2)] by (cases "n \<le> version q") auto
  then show ?case using q(2) u(1,2) by (intro exI [of _ u]) auto
qed auto

lemma same_version_same_entry:
  assumes "step\<^sup>*\<^sup>* db db'" "ok db" "entry db k = Some r" "entry db' k = Some q" "version q = version r"
  shows "q = r"
  using run_entry [OF assms(1-3)] assms(4,5) by auto

lemma versions_grow:
  assumes "step\<^sup>*\<^sup>* db db'" "ok db" "entry db k = Some r" "entry db' k = Some q"
  shows "version r \<le> version q"
  using run_entry [OF assms(1-3)] assms(4) by auto

lemma versions_recorded:
  assumes "step\<^sup>*\<^sup>* db db'" "ok db" "entry db k = Some r" "entry db' k = Some q" "version r < n" "n \<le> version q"
  shows "recorded db' k n"
  using run_entry [OF assms(1-3)] assms(4-6) by auto

end

text \<open>The transactions of the database.\<close>

inductive store_step :: "sql_db \<Rightarrow> sql_db \<Rightarrow> bool" where
  step_mutate: "keeps_id transition \<Longrightarrow>
    sqlite_mutate enter confirm x expected kind at transition given session_factory checkpoint_factory db = Inr db' \<Longrightarrow> store_step db db'"
| step_observe: "update_observations enter confirm observations at db = Inr db' \<Longrightarrow> store_step db db'"
| step_command: "append_command_result enter confirm row db = Inr db' \<Longrightarrow> store_step db db'"
| step_retire: "retire enter confirm project switch_selector db = Inr db' \<Longrightarrow> store_step db db'"

lemma store_step_ok:
  assumes "store_step db db'" "db_ok db"
  shows "db_ok db' \<and> moved db db'"
  using assms(1)
proof cases
  case (step_mutate transition enter confirm x expected kind at "given" session_factory checkpoint_factory)
  then have "mutate_body x expected kind at transition given session_factory checkpoint_factory db = Inr db'"
    by (auto simp: sqlite_mutate_def transaction_def bindE_Inr)
  then show ?thesis using assms(2) step_mutate(1) by (rule mutate_body_Inr) blast
next
  case (step_observe enter confirm observations at)
  then obtain tasks where t: "load_tasks db = Inr tasks" "fold_result (observe_row observations at) tasks db = Inr db'"
    by (auto simp: update_observations_def transaction_def bindE_Inr)
  have "\<forall>t \<in> set tasks. is_str (dget (task_meta t) ''id'')"
    using loaded_row [OF t(1)] assms(2) by (fastforce simp: db_ok_def tasks_ok_def row_matches_def task_meta_def)
  then show ?thesis using observe_rows_ok [OF t(2) assms(2)] by blast
next
  case (step_command enter confirm row)
  then have d: "\<exists>rows. db' = db\<lparr>db_commands := rows\<rparr>"
    by (auto simp: append_command_result_def transaction_def bindE_Inr split: if_splits)
  then show ?thesis using assms(2) by (auto simp: db_ok_def deps_ok_def events_ok_def history_ok_def known_id_def moved_def look_def logged_def)
next
  case (step_retire enter confirm project switch_selector)
  then have "db' = db\<lparr>db_state := Some ''retired''\<rparr>" by (auto simp: retire_def transaction_def bindE_Inr)
  then show ?thesis using assms(2) by (auto simp: db_ok_def deps_ok_def events_ok_def history_ok_def known_id_def moved_def look_def logged_def)
qed

interpretation sqlite: versioned_store db_ok look r_revision logged store_step
proof unfold_locales
  show "db_ok db \<Longrightarrow> store_step db db' \<Longrightarrow> db_ok db'" for db db' using store_step_ok by blast
  show "\<exists>q. look db' k = Some q \<and> (q = r \<or> r_revision r < r_revision q) \<and> (\<forall>n. r_revision r < n \<and> n \<le> r_revision q \<longrightarrow> logged db' k n)"
    if "db_ok db" "store_step db db'" "look db k = Some r" for db db' k r
    using store_step_ok [OF that(2,1)] that(3) unfolding moved_def by blast
  show "logged db' k n" if "db_ok db" "store_step db db'" "logged db k n" for db db' k n
    using store_step_ok [OF that(2,1)] that(3) by (auto simp: moved_def logged_def)
qed

lemma active_exclusive:
  assumes "tasks_ok rows" "col \<in> set COLUMNS" "r \<in> set rows" "q \<in> set rows" "is_active r" "is_active q" "col r \<noteq> []" "col r = col q"
  shows "r = q"
proof (rule ccontr)
  assume ne: "r \<noteq> q"
  have "r_id r \<noteq> r_id q" using assms(1,3,4) ne by (auto simp: tasks_ok_def distinct_map inj_on_def)
  moreover have "index_free col r (filter (\<lambda>u. r_id u \<noteq> r_id r) rows)" using assms(1,2,3) by (auto simp: tasks_ok_def)
  ultimately show False using assms(4-8) by (auto simp: index_free_def list_all_iff)
qed

lemma load_tasks_ok:
  assumes "db_ok db"
  shows "load_tasks db = Inr (map (\<lambda>r. (r_filename r, r_meta r, r_body r)) (sort_key r_id (db_tasks db)))"
proof -
  have "\<forall>r \<in> set (sort_key r_id (db_tasks db)). load_row r = Inr (r_filename r, r_meta r, r_body r)"
    using assms by (auto simp: db_ok_def tasks_ok_def row_matches_def load_row_def)
  then show ?thesis unfolding load_tasks_def map_result_Inr_iff by (simp add: list_all2_map2 list_all2_same)
qed

lemma find_result_total: "\<forall>t \<in> set ts. \<exists>b. p t = Inr b \<Longrightarrow> \<exists>f. find_result p ts = Inr f"
proof (induction ts)
  case (Cons t ts)
  then obtain b where "p t = Inr b" by auto
  then show ?case using Cons by (cases b) auto
qed simp

lemma select_task_ok:
  assumes "db_ok db" "look db x = Some r" "load_tasks db = Inr tasks"
  shows "select_task x tasks = Inr (r_filename r, r_meta r, r_body r)"
proof -
  let ?p = "\<lambda>t. bindE (ditem (task_meta t) ''id'') (\<lambda>i. Inr (py_eq i (PStr x)))" and ?t = "(r_filename r, r_meta r, r_body r)"
  have r: "r \<in> set (db_tasks db)" "r_id r = x" using look_Some [OF assms(2)] by auto
  have tasks: "tasks = map (\<lambda>r. (r_filename r, r_meta r, r_body r)) (sort_key r_id (db_tasks db))" using load_tasks_ok [OF assms(1)] assms(3) by simp
  have p: "\<forall>t \<in> set tasks. \<exists>b. ?p t = Inr b" "?p ?t = Inr True" "?t \<in> set tasks"
    using assms(1) r by (auto simp: tasks db_ok_def tasks_ok_def row_matches_def task_meta_def ditem_eq dget_not_None_dhas)
  obtain f where f: "find_result ?p tasks = Inr f" using find_result_total [OF p(1)] by blast
  then obtain t where t: "find_result ?p tasks = Inr (Some t)" using p(2,3) find_result_None [of ?p tasks] by (cases f) auto
  then have "select_task x tasks = Inr t" by (simp add: select_task_def)
  moreover obtain q where "look db x = Some q" "t = (r_filename q, r_meta q, r_body q)" using selected_row [OF assms(3) calculation assms(1)] by blast
  ultimately show ?thesis using assms(2) by simp
qed

text \<open>A database with one task in progress, and the transition that parks it.\<close>

definition example_meta :: meta where
  "example_meta = [(''id'', PStr ''AR-0001''), (''task_revision'', PInt 3), (''status'', PStr ''in_progress''), (''owner'', PStr ''w1''),
     (''claim_expires'', PStr ''2030-01-01T00:00:00Z''), (''branch'', PStr ''b1''), (''updated_at'', PStr ''2029-01-01T00:00:00Z'')]"

definition example_row :: task_row where
  "example_row = \<lparr>r_id = ''AR-0001'', r_filename = ''AR-0001.md'', r_meta = example_meta, r_body = ''body'', r_revision = 3, r_status = ''in_progress'',
     r_owner = ''w1'', r_expires = ''2030-01-01T00:00:00Z'', r_branch = ''b1'', r_worktree = [], r_updated = ''2029-01-01T00:00:00Z''\<rparr>"

definition example_db :: sql_db where
  "example_db = \<lparr>db_state = Some ''active'', db_tasks = [example_row], db_deps = [], db_events = [], db_sessions = [], db_checkpoints = [], db_commands = []\<rparr>"

definition park :: "meta \<Rightarrow> task list \<Rightarrow> (meta \<times> string \<times> string) result" where
  "park m tasks = Inr (dset (dset (dset m ''status'' (PStr ''open'')) ''owner'' (PStr [])) ''claim_expires'' (PStr []), ''parked'', ''body'')"

definition parked_db :: sql_db where
  "parked_db = (case sqlite_mutate (Inr ()) (Inr ()) ''AR-0001'' 3 ''release'' ''2029-02-01T00:00:00Z'' park None None None example_db of Inr db \<Rightarrow> db | Inl _ \<Rightarrow> example_db)"

lemmas example_defs = example_db_def example_row_def example_meta_def

lemma example_look: "look example_db ''AR-0001'' = Some example_row"
  by (simp add: example_db_def look_def example_row_def)

lemma example_id: "is_task_id ''AR-0001''"
  by code_simp

lemma example_ok: "db_ok example_db"
  by (simp add: db_ok_def tasks_ok_def deps_ok_def events_ok_def history_ok_def index_free_def row_matches_def row_values_def sql_int_def sql_text_def
      row_checks_def is_active_def example_defs STATUSES_def example_id ditem_def dget_def dget_or_def)

lemma park_keeps_id: "keeps_id park"
  by (auto simp: keeps_id_def park_def)

lemma example_parked: "sqlite_mutate (Inr ()) (Inr ()) ''AR-0001'' 3 ''release'' ''2029-02-01T00:00:00Z'' park None None None example_db = Inr parked_db"
  by code_simp

lemma example_step: "store_step example_db parked_db"
  using park_keeps_id example_parked by (rule step_mutate)

lemma parked_look: "\<exists>q. look parked_db ''AR-0001'' = Some q \<and> r_revision q = 4"
proof -
  have "map_option r_revision (look parked_db ''AR-0001'') = Some 4" by code_simp
  then show ?thesis by auto
qed

section \<open>Properties\<close>

text \<open>
  Property C10. Whatever transactions run, the database keeps its schema: a task is in progress exactly when it has an
  owner and a lease, no two tasks in progress share an owner, a branch or a worktree, the columns of
  each row are those of its record, and at most 32 sessions and 16 checkpoints are kept per task.
\<close>

theorem store_keeps_schema:
  assumes "store_step\<^sup>*\<^sup>* db db'" and "db_ok db"
  shows "db_ok db' \<and>
    (\<forall>r \<in> set (db_tasks db'). is_active r = (r_owner r \<noteq> []) \<and> is_active r = (r_expires r \<noteq> []) \<and>
       (\<forall>q \<in> set (db_tasks db'). is_active r \<and> is_active q \<and> r \<noteq> q \<longrightarrow>
          r_owner r \<noteq> r_owner q \<and> (r_branch r = r_branch q \<longrightarrow> r_branch r = []) \<and> (r_worktree r = r_worktree q \<longrightarrow> r_worktree r = [])))"
proof -
  have ok: "db_ok db'" using sqlite.run_ok [OF assms] .
  then have t: "tasks_ok (db_tasks db')" by (simp add: db_ok_def)
  have "is_active r = (r_owner r \<noteq> []) \<and> is_active r = (r_expires r \<noteq> [])" if "r \<in> set (db_tasks db')" for r
    using t that by (auto simp: tasks_ok_def row_checks_def)
  then show ?thesis using ok active_exclusive [OF t] unfolding COLUMNS_def by (metis list.set_intros(1,2))
qed

theorem store_keeps_schema_witness:
  "store_step\<^sup>*\<^sup>* example_db parked_db \<and> db_ok example_db \<and> db_ok parked_db"
  using store_keeps_schema [OF r_into_rtranclp [of store_step, OF example_step] example_ok] example_step example_ok by auto

text \<open>
  Property C2. No update is lost: when a client read a task at some revision and any transactions ran since, a
  mutation that expects that revision and commits has applied its transition to exactly the record the
  client read, and leaves every other task alone.
\<close>

theorem no_lost_update:
  assumes "store_step\<^sup>*\<^sup>* db0 db" and "db_ok db0" and "look db0 x = Some r" and "keeps_id transition"
    and "sqlite_mutate enter confirm x (r_revision r) kind at transition s session_factory checkpoint_factory db = Inr db'"
  shows "look db x = Some r \<and>
    (\<exists>tasks meta1 msg body. load_tasks db = Inr tasks \<and> transition (r_meta r) tasks = Inr (meta1, msg, body) \<and>
       (\<exists>q. look db' x = Some q \<and> r_revision q = r_revision r + 1 \<and>
          r_meta q = dset (dset meta1 ''task_revision'' (PInt (r_revision r + 1))) ''updated_at'' (PStr at))) \<and>
    (\<forall>y. y \<noteq> x \<longrightarrow> look db' y = look db y)"
proof -
  have "mutate_body x (r_revision r) kind at transition s session_factory checkpoint_factory db = Inr db'"
    using assms(5) by (auto simp: sqlite_mutate_def transaction_def bindE_Inr)
  then obtain q tasks meta1 msg body where m: "look db x = Some q" "r_revision q = r_revision r" "load_tasks db = Inr tasks"
    "transition (r_meta q) tasks = Inr (meta1, msg, body)"
    "\<exists>u. look db' x = Some u \<and> r_meta u = dset (dset meta1 ''task_revision'' (PInt (r_revision r + 1))) ''updated_at'' (PStr at) \<and>
       r_revision u = r_revision r + 1" "\<forall>y. y \<noteq> x \<longrightarrow> look db' y = look db y"
    using sqlite.run_ok [OF assms(1,2)] assms(4) by (rule mutate_body_Inr)
  have "q = r" using sqlite.same_version_same_entry [OF assms(1-3) m(1,2)] .
  then show ?thesis using m by blast
qed

theorem no_lost_update_witness:
  "(\<exists>q. look parked_db ''AR-0001'' = Some q \<and> r_revision q = 4) \<and> look parked_db ''AR-0002'' = look example_db ''AR-0002''"
proof -
  have "sqlite_mutate (Inr ()) (Inr ()) ''AR-0001'' (r_revision example_row) ''release'' ''2029-02-01T00:00:00Z'' park None None None example_db = Inr parked_db"
    using example_parked by (simp add: example_row_def)
  from no_lost_update [OF rtranclp.rtrancl_refl example_ok example_look park_keeps_id this] show ?thesis
    by (auto simp: example_row_def)
qed

text \<open>
  Property C34. The event log is a complete audit: revisions only grow, and every revision a task gained during a run
  has exactly one event.
\<close>

theorem revisions_audited:
  assumes "store_step\<^sup>*\<^sup>* db db'" and "db_ok db" and "look db x = Some r" and "r_revision r < n"
    and "look db' x = Some q" and "n \<le> r_revision q"
  shows "\<exists>!i. i < length (db_events db') \<and> e_task (db_events db' ! i) = x \<and> e_revision (db_events db' ! i) = n"
proof -
  have "distinct (map (\<lambda>e. (e_task e, e_revision e)) (db_events db'))"
    using sqlite.run_ok [OF assms(1,2)] by (simp add: db_ok_def events_ok_def)
  moreover have "logged db' x n" using sqlite.versions_recorded [OF assms(1-3,5,4,6)] .
  ultimately show ?thesis
    by (fastforce simp: logged_def distinct_conv_nth in_set_conv_nth)
qed

theorem revisions_audited_witness:
  "\<exists>!i. i < length (db_events parked_db) \<and> e_task (db_events parked_db ! i) = ''AR-0001'' \<and> e_revision (db_events parked_db ! i) = 4"
proof -
  obtain q where q: "look parked_db ''AR-0001'' = Some q" "r_revision q = 4" using parked_look by blast
  show ?thesis
    using revisions_audited [OF r_into_rtranclp [of store_step, OF example_step] example_ok example_look _ q(1), of 4] q(2) by (simp add: example_row_def)
qed

text \<open>
  A mutation that expects another revision than the stored one is refused, with the current revision in
  the message, whatever its transition would do.
\<close>

theorem stale_mutation_refused:
  assumes "db_ok db" and "db_state db = Some ''active''" and "look db x = Some r" and "expected \<noteq> r_revision r"
  shows "sqlite_mutate (Inr ()) confirm x expected kind at transition s session_factory checkpoint_factory db =
    Inl (RuntimeError (''stale revision: expected '' @ show_int expected @ '', current '' @ show_int (r_revision r)))"
proof -
  obtain tasks where t: "load_tasks db = Inr tasks" using load_tasks_ok [OF assms(1)] by blast
  have m: "ditem (r_meta r) ''task_revision'' = Inr (PInt (r_revision r))"
    using assms(1) look_Some [OF assms(3)] by (auto simp: db_ok_def tasks_ok_def row_matches_def ditem_eq dget_not_None_dhas)
  show ?thesis
    using assms(2,4) t select_task_ok [OF assms(1,3) t] m by (simp add: sqlite_mutate_def transaction_def mutate_body_def task_meta_def)
qed

theorem stale_mutation_refused_witness:
  "sqlite_mutate (Inr ()) (Inr ()) ''AR-0001'' 2 ''release'' ''2029-02-01T00:00:00Z'' park None None None example_db =
     Inl (RuntimeError (''stale revision: expected '' @ show_int 2 @ '', current '' @ show_int 3))"
  using stale_mutation_refused [OF example_ok _ example_look, of 2] by (simp add: example_defs)

end
