(* ===== verification/Py_Textwrap.thy ===== *)
theory Py_Textwrap
  imports Py_Values
begin

text \<open>
  \<open>textwrap.fill\<close> of the Python standard library with \<open>break_long_words=False\<close> and
  \<open>break_on_hyphens=False\<close>, as the coordinator calls it to append a note to the body of a task: tabs are
  expanded, whitespace becomes spaces, the text is cut into words and gaps, and lines are filled with
  as many of them as fit.
\<close>

definition wrap_space :: "char \<Rightarrow> bool" where
  "wrap_space c = ((of_char c :: nat) \<in> {9, 10, 11, 12, 13, 32})"

fun expandtabs :: "nat \<Rightarrow> string \<Rightarrow> string" where
  "expandtabs col [] = []"
| "expandtabs col (c # s) =
     (if (of_char c :: nat) = 9 then replicate (8 - col mod 8) CHR '' '' @ expandtabs (col + (8 - col mod 8)) s
      else c # expandtabs (if (of_char c :: nat) \<in> {10, 13} then 0 else col + 1) s)"

definition munge_whitespace :: "string \<Rightarrow> string" where
  "munge_whitespace s = map (\<lambda>c. if wrap_space c then CHR '' '' else c) (expandtabs 0 s)"

text \<open>Maximal runs of spaces and of other characters.\<close>

fun text_chunks :: "string \<Rightarrow> string list" where
  "text_chunks [] = []"
| "text_chunks (c # s) =
     (case text_chunks s of
        (d # w) # rest \<Rightarrow> if wrap_space c = wrap_space d then (c # d # w) # rest else [c] # (d # w) # rest
      | rest \<Rightarrow> [c] # rest)"

definition blank :: "string \<Rightarrow> bool" where "blank w = (strip w = [])"

fun fit :: "nat \<Rightarrow> string list \<Rightarrow> string list \<times> string list" where
  "fit room [] = ([], [])"
| "fit room (w # ws) =
     (if length w \<le> room then (let (line, rest) = fit (room - length w) ws in (w # line, rest)) else ([], w # ws))"

lemma fit_append: "fit room ws = (line, rest) \<Longrightarrow> line @ rest = ws"
  by (induction ws arbitrary: room line rest) (auto split: if_splits prod.splits)

text \<open>One round of the outer loop: the words of the next line and the words left. A word longer than the line
  stands alone on it.\<close>

definition next_line :: "nat \<Rightarrow> bool \<Rightarrow> string list \<Rightarrow> string list \<times> string list" where
  "next_line room first ws =
     (let ws1 = (if \<not> first \<and> ws \<noteq> [] \<and> blank (hd ws) then tl ws else ws);
          (line, rest) = fit room ws1;
          (line1, rest1) = (if line = [] \<and> rest \<noteq> [] then ([hd rest], tl rest) else (line, rest))
      in (if line1 \<noteq> [] \<and> blank (last line1) then butlast line1 else line1, rest1))"

lemma next_line_shorter:
  assumes "ws \<noteq> []"
  shows "length (snd (next_line room first ws)) < length ws"
proof -
  obtain w rs where ws: "ws = w # rs" using assms by (cases ws) auto
  have less: "length (snd (let (line, rest) = fit room xs; (line1, rest1) = (if line = [] \<and> rest \<noteq> [] then ([hd rest], tl rest) else (line, rest))
      in (if line1 \<noteq> [] \<and> blank (last line1) then butlast line1 else line1, rest1))) < length ws"
    if "length xs < length ws \<or> xs = ws" for xs
  proof -
    obtain line rest where f: "fit room xs = (line, rest)" by fastforce
    have "length line + length rest = length xs" using fit_append [OF f] by (metis length_append)
    then show ?thesis using f that assms by (cases line; cases rest) auto
  qed
  show ?thesis
    unfolding next_line_def Let_def using less [of ws] less [of rs] ws by (auto simp: Let_def)
qed

function wrap_lines :: "nat \<Rightarrow> bool \<Rightarrow> string list \<Rightarrow> string list" where
  "wrap_lines room first [] = []"
| "wrap_lines room first (w # ws) =
     (let (line, rest) = next_line room first (w # ws) in
      if line = [] then wrap_lines room first rest
      else ((if first then ''- '' else ''  '') @ concat line) # wrap_lines room False rest)"
  by pat_completeness auto
termination
proof (relation "measure (\<lambda>(_, _, ws). length ws)", goal_cases)
  case (2 room first w ws x line rest)
  then show ?case using next_line_shorter [of "w # ws" room first] by (metis case_prod_conv in_measure list.distinct(1) snd_conv)
next
  case (3 room first w ws x line rest)
  then show ?case using next_line_shorter [of "w # ws" room first] by (metis case_prod_conv in_measure list.distinct(1) snd_conv)
qed simp

text \<open>\<open>textwrap.fill(s, width=100, initial_indent="- ", subsequent_indent="  ", ...)\<close>.\<close>

definition fill :: "string \<Rightarrow> string" where
  "fill s = join [newline] (wrap_lines 98 True (text_chunks (munge_whitespace s)))"

end
