(* ===== verification/Task_Mutation.thy ===== *)
theory Task_Mutation
  imports Sqlite_Store Py_Textwrap
begin

text \<open>
  The mutation of a task through the SQLite authority, \<open>mutate_sqlite\<close> of \<open>src/tools/handoffctl.py\<close>: a
  snapshot is read, the transition of \<open>apply_transition\<close> runs inside the transaction of the storage
  backend together with the checks of the new record and board, and the projections are exported after
  the commit.

  Other processes may commit between the snapshot and the transaction, so a call takes two databases:
  \<open>db0\<close>, which the snapshot is read from, and \<open>db\<close>, which the transaction runs on.
\<close>

section \<open>One call\<close>

text \<open>\<open>m_checker\<close> is the world during the transaction, \<open>m_policy0\<close> the policy file when the call starts, \<open>m_at\<close> the
  time of the mutation, \<open>m_enter\<close> and \<open>m_confirm\<close> the checks of the transaction scope, \<open>m_export\<close> the export of
  the projections of a database.\<close>

record sqlite_call =
  m_checker :: checker
  m_policy0 :: policy_source
  m_at :: string
  m_enter :: "unit result"
  m_confirm :: "unit result"
  m_export :: "sql_db \<Rightarrow> unit result"

definition transition_note :: "string \<Rightarrow> string \<Rightarrow> string \<Rightarrow> string" where
  "transition_note body msg at = (if msg = [] then body else body @ [newline] @ fill (at @ '': '' @ msg) @ [newline])"

text \<open>The board with the projected record of the task.\<close>

definition candidate_board :: "string \<Rightarrow> meta \<Rightarrow> task list \<Rightarrow> task list result" where
  "candidate_board task_id validated =
     map_result (\<lambda>t. bindE (ditem (task_meta t) ''id'') (\<lambda>i. Inr (fst t, if py_eq i (PStr task_id) then validated else task_meta t, snd (snd t))))"

definition transition_errors :: "checker \<Rightarrow> evidence_policy \<Rightarrow> string \<Rightarrow> string \<Rightarrow> meta \<Rightarrow> task list \<Rightarrow> string list result" where
  "transition_errors ck policy kind path validated candidate =
     bindE (basic_task_errors ck path validated (Some policy) (kind \<noteq> ''repair-predicate-ledger'')) (\<lambda>basic.
     bindE (supersession_errors candidate) (\<lambda>supersession.
     Inr (basic @ graph_errors candidate @ hierarchy_errors candidate @ supersession)))"

definition sqlite_transition ::
  "checker \<Rightarrow> namespace \<Rightarrow> string \<Rightarrow> evidence_policy \<Rightarrow> string \<Rightarrow> task \<Rightarrow> meta \<Rightarrow> task list \<Rightarrow> (meta \<times> string \<times> string) result" where
  "sqlite_transition ck args kind policy at selected meta tasks =
     bindE (require_policy_unchanged (w_policy (ck_world ck)) policy) (\<lambda>_.
     bindE (apply_transition (ck_world ck) args kind meta tasks (Some policy)) (\<lambda>(meta1, msg).
     bindE (next_revision_projection meta1) (\<lambda>validated.
     bindE (candidate_board (arg_str args ''task'') validated tasks) (\<lambda>candidate.
     bindE (transition_errors ck policy kind (fst selected) validated candidate) (\<lambda>errors.
     bindE (raise_if (errors \<noteq> []) (RuntimeError (''transition validation failed:'' @ [newline] @ join [newline] errors))) (\<lambda>_.
     bindE (require_policy_unchanged (w_policy (ck_world ck)) policy) (\<lambda>_.
     Inr (meta1, msg, transition_note (snd (snd selected)) msg at))))))))"

definition session_trigger :: "namespace \<Rightarrow> string \<Rightarrow> string" where
  "session_trigger args kind = py_str (dget_or args ''_session_trigger'' (PStr kind))"

definition records_session :: "namespace \<Rightarrow> string \<Rightarrow> bool" where
  "records_session args kind =
     (kind = ''update'' \<and> session_trigger args kind \<in> {''update'', ''run''} \<or> kind = ''pause'' \<and> session_trigger args kind = ''pause'')"

definition session_factory :: "namespace \<Rightarrow> string \<Rightarrow> string \<Rightarrow> (meta \<Rightarrow> meta result) option" where
  "session_factory args kind at =
     (if records_session args kind then Some (\<lambda>updated. build_session_record updated (session_trigger args kind) at) else None)"

definition checkpoint_factory :: "namespace \<Rightarrow> string \<Rightarrow> string \<Rightarrow> string \<Rightarrow> (meta \<Rightarrow> meta result) option" where
  "checkpoint_factory args kind body at =
     (if kind = ''checkpoint'' then Some (\<lambda>updated. build_checkpoint updated body (arg_str args ''source_commit'') at) else None)"

definition expected_revision :: "namespace \<Rightarrow> int \<Rightarrow> int result" where
  "expected_revision args current =
     (if dget args ''expected_revision'' = PNone then Inr current else py_int (dget args ''expected_revision''))"

text \<open>The call up to the commit: the expected revision and the committed database.\<close>

definition commit_sqlite :: "sqlite_call \<Rightarrow> namespace \<Rightarrow> string \<Rightarrow> evidence_policy option \<Rightarrow> sql_db \<Rightarrow> sql_db \<Rightarrow> (int \<times> sql_db) result" where
  "commit_sqlite c args kind policy db0 db =
     bindE (select_policy (m_policy0 c) policy) (\<lambda>p.
     bindE (load_tasks db0) (\<lambda>initial.
     bindE (select_task (arg_str args ''task'') initial) (\<lambda>selected.
     bindE (ditem (task_meta selected) ''task_revision'') (\<lambda>v.
     bindE (py_int v) (\<lambda>current.
     bindE (expected_revision args current) (\<lambda>expected.
     bindE (sqlite_mutate (m_enter c) (m_confirm c) (arg_str args ''task'') expected kind (m_at c)
              (sqlite_transition (m_checker c) args kind p (m_at c) selected) None
              (session_factory args kind (m_at c)) (checkpoint_factory args kind (snd (snd selected)) (m_at c)) db) (\<lambda>db'.
     Inr (expected, db'))))))))"

definition export_outcome :: "string \<Rightarrow> int \<Rightarrow> unit result \<Rightarrow> unit result" where
  "export_outcome task_id revision r =
     (case r of Inr _ \<Rightarrow> Inr ()
      | Inl e \<Rightarrow> Inl (StorageCommittedError (''SQLITE_COMMITTED_EXPORT_FAILED: task='' @ task_id @ ''; revision='' @ show_int revision @ ''; '' @ exc_message e)))"

text \<open>The database after the call, and what the call returns or raises.\<close>

definition mutate_sqlite :: "sqlite_call \<Rightarrow> namespace \<Rightarrow> string \<Rightarrow> evidence_policy option \<Rightarrow> sql_db \<Rightarrow> sql_db \<Rightarrow> sql_db \<times> unit result" where
  "mutate_sqlite c args kind policy db0 db =
     (case commit_sqlite c args kind policy db0 db of
        Inl e \<Rightarrow> (db, Inl e)
      | Inr (expected, db') \<Rightarrow> (db', export_outcome (arg_str args ''task'') (expected + 1) (m_export c db')))"

text \<open>\<open>fast_receipt_id\<close> and the SQLite branch of \<open>_mutate_fenced\<close>; a replayed mutation returns its message.\<close>

definition fast_receipt_id :: "namespace \<Rightarrow> string \<Rightarrow> string option result" where
  "fast_receipt_id args kind =
     (let receipt_id = dget args ''_receipt_id'' in
      if receipt_id = PNone then Inr None
      else if kind \<notin> {''claim'', ''heartbeat'', ''promote'', ''update''} \<or> \<not> is_str receipt_id \<or> \<not> all_hex 32 (str_of receipt_id)
          \<or> dget args ''expected_revision'' = PNone
        then Inl (RuntimeError ''invalid fast receipt mutation'')
      else Inr (Some (str_of receipt_id)))"

definition mutate_fenced_sqlite :: "sqlite_call \<Rightarrow> namespace \<Rightarrow> string \<Rightarrow> evidence_policy option \<Rightarrow> sql_db \<Rightarrow> sql_db \<Rightarrow> sql_db \<times> string option result" where
  "mutate_fenced_sqlite c args kind policy db0 db =
     (case fast_receipt_id args kind of
        Inl e \<Rightarrow> (db, Inl e)
      | Inr (Some _) \<Rightarrow> (db, Inl (RuntimeError ''fast receipts require Git authority''))
      | Inr None \<Rightarrow>
          (case mutate_sqlite c args kind policy db0 db of
             (db', Inr _) \<Rightarrow> (db', Inr None)
           | (db', Inl (IdempotentMutationError m)) \<Rightarrow> (db', Inr (Some m))
           | (db', Inl e) \<Rightarrow> (db', Inl e)))"

section \<open>Checks do not read the time of a record\<close>

text \<open>The checks run on the projected record, before the time of the mutation and the note are written. A change of
  tasks that keeps every field but \<open>updated_at\<close> is not seen by them.\<close>

definition same_but_time :: "meta \<Rightarrow> meta \<Rightarrow> bool" where
  "same_but_time m m' = (\<forall>k. k \<noteq> ''updated_at'' \<longrightarrow> map_of m' k = map_of m k)"

locale restamping =
  fixes stamp :: "task \<Rightarrow> task"
  assumes stamp_same: "same_but_time (task_meta t) (task_meta (stamp t))"
begin

lemma fields [simp]:
  "k \<noteq> ''updated_at'' \<Longrightarrow> dget (task_meta (stamp t)) k = dget (task_meta t) k"
  "k \<noteq> ''updated_at'' \<Longrightarrow> dget_or (task_meta (stamp t)) k v = dget_or (task_meta t) k v"
  using stamp_same [of t] by (simp_all add: same_but_time_def dget_def dget_or_def)

lemma meta_views [simp]:
  "id_of (task_meta (stamp t)) = id_of (task_meta t)" "parent_value (task_meta (stamp t)) = parent_value (task_meta t)"
  "parent_text (task_meta (stamp t)) = parent_text (task_meta t)" "children_of (task_meta (stamp t)) = children_of (task_meta t)"
  "task_dependencies (task_meta (stamp t)) known = task_dependencies (task_meta t) known"
  "successor_ref (task_meta (stamp t)) = successor_ref (task_meta t)"
  by (simp_all add: id_of_def parent_text_def parent_value_def children_of_def task_dependencies_def successor_ref_def Let_def)

lemma graph_errors_stamp: "graph_errors (map stamp ts) = graph_errors ts"
  by (simp add: graph_errors_def dependency_shape_def foldl_map comp_def case_prod_unfold Let_def)

lemma find_stamp: "(\<And>t. P (task_meta (stamp t)) = P (task_meta t)) \<Longrightarrow>
    rel_option same_but_time (find P (map task_meta ts)) (find P (map (task_meta \<circ> stamp) ts))"
  using stamp_same by (induction ts) auto

lemma known_stamp: "rel_option same_but_time (known_task ts x) (known_task (map stamp ts) x)"
  using find_stamp [of "\<lambda>m. id_of m = x" "rev ts"] by (simp add: known_task_def rev_map comp_def)

lemma by_id_stamp: "rel_option same_but_time (by_id ts x) (by_id (map stamp ts) x)"
  using find_stamp [of "\<lambda>m. dget m ''id'' = PStr x" "rev ts"] by (simp add: by_id_def rev_map comp_def)

end

lemma same_but_time_dget: "same_but_time m m' \<Longrightarrow> k \<noteq> ''updated_at'' \<Longrightarrow> dget m' k = dget m k"
  by (simp add: same_but_time_def dget_def)

lemma same_but_time_views:
  assumes "same_but_time m m'"
  shows "parent_text m' = parent_text m" "successor_ref m' = successor_ref m" "dget m' ''status'' = dget m ''status''"
  using assms by (simp_all add: same_but_time_def parent_text_def parent_value_def dget_or_def successor_ref_def dget_def)

context restamping
begin

lemma parent_errors_stamp: "parent_errors (map stamp ts) (task_meta (stamp t)) = parent_errors ts (task_meta t)"
  using known_stamp [of ts "py_str (parent_value (task_meta t))"] by (auto simp: parent_errors_def Let_def)

lemma child_errors_stamp: "child_errors (map stamp ts) (task_meta (stamp t)) = child_errors ts (task_meta t)"
proof -
  have "(case known_task (map stamp ts) c of None \<Rightarrow> a | Some m \<Rightarrow> if parent_text m \<noteq> i then b else d) =
      (case known_task ts c of None \<Rightarrow> a | Some m \<Rightarrow> if parent_text m \<noteq> i then b else d)" for c i and a b d :: "string list"
    using known_stamp [of ts c] same_but_time_views(1) by (auto simp: option_rel_Some1 option_rel_Some2 elim!: option.rel_cases)
  then show ?thesis by (simp add: child_errors_def)
qed

lemma hierarchy_errors_stamp: "hierarchy_errors (map stamp ts) = hierarchy_errors ts"
  by (simp add: hierarchy_errors_def parents_of_def unlisted_errors_def children_by_parent_def foldl_map comp_def
      parent_errors_stamp child_errors_stamp Let_def cong: if_cong)

lemma satisfied_stamp: "satisfied_loop (map stamp ts) seen x = satisfied_loop ts seen x"
proof (induction ts seen x rule: satisfied_loop.induct)
  case (1 ts seen x)
  show ?case
  proof (cases "by_id ts x")
    case None
    then show ?thesis using by_id_stamp [of ts x] by (subst (1 2) satisfied_loop.simps) simp
  next
    case (Some m)
    then obtain m' where m': "by_id (map stamp ts) x = Some m'" "same_but_time m m'" using by_id_stamp [of ts x] by (auto simp: option_rel_Some1)
    show ?thesis
      using 1 Some m' same_but_time_views [OF m'(2)] by (subst (1 2) satisfied_loop.simps) (auto split: option.split)
  qed
qed

lemma supersession_error_stamp: "supersession_error (map stamp ts) (task_meta (stamp t)) = supersession_error ts (task_meta t)"
  using by_id_stamp [of ts "str_of (dget (task_meta t) ''superseded_by'')"]
  by (auto simp: supersession_error_def Let_def dependency_satisfied_def satisfied_stamp)

lemma supersession_errors_stamp: "supersession_errors (map stamp ts) = supersession_errors ts"
  by (simp add: supersession_errors_def supersession_error_stamp list_all_iff comp_def)

lemmas checks_stamp = graph_errors_stamp hierarchy_errors_stamp supersession_errors_stamp

end

section \<open>What a committed call stored\<close>

definition stamp_task :: "string \<Rightarrow> string \<Rightarrow> string \<Rightarrow> task \<Rightarrow> task" where
  "stamp_task x at body t = (if dget (task_meta t) ''id'' = PStr x then (fst t, dset (task_meta t) ''updated_at'' (PStr at), body) else t)"

interpretation stamped: restamping "stamp_task x at body" for x at body
  by unfold_locales (simp add: same_but_time_def stamp_task_def task_meta_def dset_def update_conv')

lemma candidate_board_Inr:
  "candidate_board x v tasks = Inr candidate \<Longrightarrow>
     candidate = map (\<lambda>t. (fst t, if dget (task_meta t) ''id'' = PStr x then v else task_meta t, snd (snd t))) tasks"
  unfolding candidate_board_def
  by (induction tasks arbitrary: candidate) (auto simp: bindE_Inr dest!: ditem_Inr_dget)

lemma reloaded_board:
  assumes ok: "db_ok db" "db_ok db'" and r: "look db x = Some r" and q: "look db' x = Some q" "r_filename q = r_filename r"
      "r_meta q = dset v ''updated_at'' (PStr at)" "db_tasks db' = map (\<lambda>u. if r_id u = x then q else u) (db_tasks db)"
    and v: "dget v ''id'' = PStr x" and c: "load_tasks db = Inr tasks" "candidate_board x v tasks = Inr candidate"
  shows "load_tasks db' = Inr (map (stamp_task x at (r_body q)) candidate)"
proof -
  let ?f = "\<lambda>u. if r_id u = x then q else u" and ?t = "\<lambda>r. (r_filename r, r_meta r, r_body r)"
  have qx: "r_id q = x" using look_Some [OF q(1)] by simp
  have rows: "dget (r_meta u) ''id'' = PStr (r_id u)" "r_id u = x \<longrightarrow> u = r" if "u \<in> set (db_tasks db)" for u
    using ok(1) that look_Some [OF r] by (auto simp: db_ok_def tasks_ok_def row_matches_def distinct_map inj_on_def)
  have tasks: "tasks = map ?t (sort_key r_id (db_tasks db))" using load_tasks_ok [OF ok(1)] c(1) by simp
  have "load_tasks db' = Inr (map ?t (map ?f (sort_key r_id (db_tasks db))))"
    using load_tasks_ok [OF ok(2)] sort_key_map_key [of r_id ?f r_id] qx by (simp add: q(4))
  moreover have "map ?t (map ?f (sort_key r_id (db_tasks db))) = map (stamp_task x at (r_body q)) candidate"
    using rows q(2,3) v by (auto simp: candidate_board_Inr [OF c(2)] tasks stamp_task_def task_meta_def)
  ultimately show ?thesis by simp
qed

lemma transition_errors_Nil:
  "transition_errors ck policy kind path v candidate = Inr [] \<longleftrightarrow>
     basic_task_errors ck path v (Some policy) (kind \<noteq> ''repair-predicate-ledger'') = Inr [] \<and>
     graph_errors candidate = [] \<and> hierarchy_errors candidate = [] \<and> supersession_errors candidate = Inr []"
  by (auto simp: transition_errors_def bindE_Inr)

lemma sqlite_transition_Inr:
  assumes "sqlite_transition ck args kind policy at selected meta tasks = Inr (meta1, msg, body)"
  obtains v candidate where "apply_transition (ck_world ck) args kind meta tasks (Some policy) = Inr (meta1, msg)"
    "next_revision_projection meta1 = Inr v" "candidate_board (arg_str args ''task'') v tasks = Inr candidate"
    "transition_errors ck policy kind (fst selected) v candidate = Inr []" "body = transition_note (snd (snd selected)) msg at"
  using assms unfolding sqlite_transition_def
  by (auto elim!: bindE_elim simp: raise_if_Inr)

lemma sqlite_transition_keeps_id: "keeps_id (sqlite_transition ck args kind policy at selected)"
  unfolding keeps_id_def by (auto elim!: sqlite_transition_Inr dest!: transition_same_id simp: same_id_def)

text \<open>The facts about a committed call, from which the properties are read off.\<close>

lemma commit_sqlite_Inr:
  assumes "commit_sqlite c args kind policy db0 db = Inr (expected, db')" "db_ok db0" "db_ok db"
  obtains p r0 r q v msg candidate where "select_policy (m_policy0 c) policy = Inr p"
    "look db0 (arg_str args ''task'') = Some r0" "expected_revision args (r_revision r0) = Inr expected"
    "look db (arg_str args ''task'') = Some r" "r_revision r = expected"
    "look db' (arg_str args ''task'') = Some q" "r_revision q = expected + 1" "r_meta q = dset v ''updated_at'' (PStr (m_at c))"
    "r_body q = transition_note (r_body r0) msg (m_at c)"
    "transition_errors (m_checker c) p kind (r_filename r0) v candidate = Inr []"
    "load_tasks db' = Inr (map (stamp_task (arg_str args ''task'') (m_at c) (r_body q)) candidate)" "db_ok db'" "store_step db db'"
proof -
  let ?x = "arg_str args ''task''"
  obtain p initial selected current where a: "select_policy (m_policy0 c) policy = Inr p" "load_tasks db0 = Inr initial" "select_task ?x initial = Inr selected"
    "py_int (dget (task_meta selected) ''task_revision'') = Inr current" "expected_revision args current = Inr expected"
    "sqlite_mutate (m_enter c) (m_confirm c) ?x expected kind (m_at c) (sqlite_transition (m_checker c) args kind p (m_at c) selected) None
       (session_factory args kind (m_at c)) (checkpoint_factory args kind (snd (snd selected)) (m_at c)) db = Inr db'"
    using assms(1) unfolding commit_sqlite_def by (auto elim!: bindE_elim dest!: ditem_Inr_dget)
  obtain r0 where r0: "look db0 ?x = Some r0" "selected = (r_filename r0, r_meta r0, r_body r0)" "row_matches r0"
    using selected_row [OF a(2,3) assms(2)] by blast
  have cur: "current = r_revision r0" using a(4) r0(2,3) by (simp add: row_matches_def task_meta_def)
  have "mutate_body ?x expected kind (m_at c) (sqlite_transition (m_checker c) args kind p (m_at c) selected) None
       (session_factory args kind (m_at c)) (checkpoint_factory args kind (snd (snd selected)) (m_at c)) db = Inr db'"
    using a(6) by (auto simp: sqlite_mutate_def transaction_def bindE_Inr)
  then obtain r tasks meta1 msg body where m: "look db ?x = Some r" "r_revision r = expected" "load_tasks db = Inr tasks"
    "sqlite_transition (m_checker c) args kind p (m_at c) selected (r_meta r) tasks = Inr (meta1, msg, body)" "db_ok db'"
    "\<exists>q. look db' ?x = Some q \<and> r_meta q = dset (dset meta1 ''task_revision'' (PInt (expected + 1))) ''updated_at'' (PStr (m_at c)) \<and> r_revision q = expected + 1"
    "\<exists>q. look db' ?x = Some q \<and> r_filename q = r_filename r \<and> r_body q = body \<and> db_tasks db' = map (\<lambda>u. if r_id u = ?x then q else u) (db_tasks db)"
    using assms(3) sqlite_transition_keeps_id by (rule mutate_body_Inr)
  obtain v candidate where t: "apply_transition (ck_world (m_checker c)) args kind (r_meta r) tasks (Some p) = Inr (meta1, msg)"
    "next_revision_projection meta1 = Inr v" "candidate_board ?x v tasks = Inr candidate"
    "transition_errors (m_checker c) p kind (fst selected) v candidate = Inr []" "body = transition_note (snd (snd selected)) msg (m_at c)"
    using m(4) by (rule sqlite_transition_Inr)
  have row: "dget (r_meta r) ''id'' = PStr ?x" "dget (r_meta r) ''task_revision'' = PInt expected"
    using assms(3) look_Some [OF m(1)] m(2) by (auto simp: db_ok_def tasks_ok_def row_matches_def)
  then have v: "v = dset meta1 ''task_revision'' (PInt (expected + 1))" "dget v ''id'' = PStr ?x"
    using t(2) transition_same_id [OF t(1)] by (auto simp: next_revision_projection_def task_revision_int_def same_id_def bindE_Inr dest!: ditem_Inr_dget)
  obtain q where q: "look db' ?x = Some q" "r_meta q = dset v ''updated_at'' (PStr (m_at c))" "r_revision q = expected + 1"
    "r_filename q = r_filename r" "r_body q = body" "db_tasks db' = map (\<lambda>u. if r_id u = ?x then q else u) (db_tasks db)"
    using m(6,7) v(1) by auto
  show ?thesis
  proof (rule that [OF a(1) r0(1) _ m(1,2) q(1,3,2) _ _ _ m(5)])
    show "expected_revision args (r_revision r0) = Inr expected" using a(5) cur by simp
    show "r_body q = transition_note (r_body r0) msg (m_at c)" using q(5) t(5) r0(2) by simp
    show "transition_errors (m_checker c) p kind (r_filename r0) v candidate = Inr []" using t(4) r0(2) by simp
    show "load_tasks db' = Inr (map (stamp_task ?x (m_at c) (r_body q)) candidate)"
      using reloaded_board [OF assms(3) m(5,1) q(1,4,2,6) v(2) m(3) t(3)] .
    show "store_step db db'" using sqlite_transition_keeps_id a(6) by (rule step_mutate)
  qed
qed

lemma committed_Inr:
  assumes "mutate_sqlite c args kind policy db0 db = (db', res)" "db' \<noteq> db"
  obtains expected where "commit_sqlite c args kind policy db0 db = Inr (expected, db')"
    "res = export_outcome (arg_str args ''task'') (expected + 1) (m_export c db')"
  using assms by (auto simp: mutate_sqlite_def split: sum.split_asm)

section \<open>An example\<close>

text \<open>A planned task is promoted.\<close>

definition planned_meta :: meta where
  "planned_meta = [(''schema_version'', PInt 1), (''id'', PStr ''AR-0001''), (''title'', PStr ''t''), (''status'', PStr ''planned''), (''priority'', PStr ''P1''),
     (''summary'', PStr ''s''), (''next_action'', PStr ''n''), (''task_revision'', PInt 1), (''updated_at'', PStr ''2029-01-01T00:00:00+00:00'')]"

definition planned_row :: task_row where
  "planned_row = \<lparr>r_id = ''AR-0001'', r_filename = ''AR-0001.md'', r_meta = planned_meta, r_body = ''body'', r_revision = 1, r_status = ''planned'',
     r_owner = [], r_expires = [], r_branch = [], r_worktree = [], r_updated = ''2029-01-01T00:00:00+00:00''\<rparr>"

definition planned_db :: sql_db where
  "planned_db = \<lparr>db_state = Some ''active'', db_tasks = [planned_row], db_deps = [], db_events = [], db_sessions = [], db_checkpoints = [], db_commands = []\<rparr>"

definition promote_args :: namespace where
  "promote_args = [(''task'', PStr ''AR-0001''), (''note'', PStr ''planning finished''), (''expected_revision'', PInt 1)]"

definition promote_checker :: checker where
  "promote_checker = \<lparr>ck_world = example_world, ck_plan = \<lambda>_ _. True, ck_private = \<lambda>_ _. False\<rparr>"

definition promote_call :: sqlite_call where
  "promote_call = \<lparr>m_checker = promote_checker, m_policy0 = PolicyAbsent False,
     m_at = ''2029-02-01T00:00:00+00:00'', m_enter = Inr (), m_confirm = Inr (), m_export = \<lambda>_. Inr ()\<rparr>"

definition promoted_meta :: meta where "promoted_meta = dset (dset planned_meta ''status'' (PStr ''open'')) ''task_revision'' (PInt 2)"

lemma promote_policy: "select_policy (PolicyAbsent False) None = Inr DEFAULT_EVIDENCE_POLICY" by (simp add: select_policy_def load_evidence_policy_def)

lemma promote_policy_kept: "require_policy_unchanged (PolicyAbsent False) DEFAULT_EVIDENCE_POLICY = Inr ()" by (simp add: require_policy_unchanged_def load_evidence_policy_def)

lemma note_stripped: "strip ''planning finished'' = ''planning finished''" by code_simp

lemma promote_applies: "apply_transition (ck_world promote_checker) promote_args ''promote'' planned_meta tasks p = Inr (dset planned_meta ''status'' (PStr ''open''), ''planning finished'')"
  unfolding transition_moves 
    by (simp add: apply_promote_def promote_args_def planned_meta_def require_revision_def require_status_def require_unclaimed_def require_dependencies_def pending_dependencies_def
      transition_allowed_def gate_to_runtime_def noted_def arg_str_def note_stripped)

lemma promoted_dget: "dget promoted_meta k = (if k = ''status'' then PStr ''open'' else if k = ''task_revision'' then PInt 2 else dget planned_meta k)"
  by (simp add: promoted_meta_def)

lemma promoted_dget_or: "dget_or promoted_meta k v = (if k = ''status'' then PStr ''open'' else if k = ''task_revision'' then PInt 2 else dget_or planned_meta k v)"
  by (simp add: promoted_meta_def)

lemma promoted_execution: "execution_metadata_errors x promoted_meta = Inr []"
  by (simp add: execution_metadata_errors_def promoted_dget promoted_dget_or Let_def planned_meta_def if_given_def drift_metadata_error_def drift_records_def assumption_metadata_error_def assumption_records_def
     retry_metadata_error_def limits_metadata_error_def execution_abandonment_errors_def valid_records_def valid_binding_def BINDING_FIELDS_def valid_replacements_def found_error_def)

lemma promoted_values: "value_errors promote_checker ''AR-0001.md'' promoted_meta = Inr []" 
  by (simp add: value_errors_def promoted_dget promoted_dget_or planned_meta_def gate_errors_def STATUSES_def PRIORITIES_def bad_revision_def TEXT_FIELDS_def short_title_errors_def promoted_execution example_id py_in_def)

lemma planned_time: "\<exists>t. from_iso_z ''2029-01-01T00:00:00+00:00'' = Inr t"
proof -
  have "isl (from_iso_z ''2029-01-01T00:00:00+00:00'') = False" by code_simp
  then show ?thesis by (cases "from_iso_z ''2029-01-01T00:00:00+00:00''") auto
qed

lemma promoted_references: "reference_errors promote_checker ''AR-0001.md'' promoted_meta = Inr []"
  using planned_time by (auto simp: reference_errors_def promoted_dget promoted_dget_or planned_meta_def updated_at_bad_def fails_text_def bound_envelope_errors_def)

lemma promoted_spec: "task_spec_errors root src promoted_meta p b = Inr []" 
  by (simp add: task_spec_errors_def promoted_meta_def planned_meta_def dhas_def dset_def Let_def)

lemma promoted_fields: "field_errors ''AR-0001.md'' promoted_meta = []" by code_simp

lemma promoted_graph: "graph_errors [(''AR-0001.md'', promoted_meta, ''body'')] = []" by code_simp

lemma promoted_hierarchy: "hierarchy_errors [(''AR-0001.md'', promoted_meta, ''body'')] = []" by code_simp

lemma promoted_supersession: "supersession_errors [(''AR-0001.md'', promoted_meta, ''body'')] = Inr []" by code_simp

lemma planned_load: "load_tasks planned_db = Inr [(''AR-0001.md'', planned_meta, ''body'')]" by (simp add: load_tasks_def planned_db_def planned_row_def load_row_def planned_meta_def)

lemma planned_select: "select_task ''AR-0001'' [(''AR-0001.md'', planned_meta, ''body'')] = Inr (''AR-0001.md'', planned_meta, ''body'')"
  by (simp add: select_task_def planned_meta_def task_meta_def ditem_def)

lemma promote_transition: "sqlite_transition promote_checker promote_args ''promote'' DEFAULT_EVIDENCE_POLICY at (''AR-0001.md'', planned_meta, ''body'') planned_meta [(''AR-0001.md'', planned_meta, ''body'')] =
   Inr (dset planned_meta ''status'' (PStr ''open''), ''planning finished'', transition_note ''body'' ''planning finished'' at)"
proof -
  have n: "next_revision_projection (dset planned_meta ''status'' (PStr ''open'')) = Inr promoted_meta"
    by (simp add: next_revision_projection_def task_revision_int_def promoted_meta_def planned_meta_def ditem_def dset_def)
  have c: "candidate_board ''AR-0001'' promoted_meta [(''AR-0001.md'', planned_meta, ''body'')] = Inr [(''AR-0001.md'', promoted_meta, ''body'')]"
    by (simp add: candidate_board_def planned_meta_def task_meta_def ditem_def)
  have e: "transition_errors promote_checker DEFAULT_EVIDENCE_POLICY ''promote'' ''AR-0001.md'' promoted_meta [(''AR-0001.md'', promoted_meta, ''body'')] = Inr []"
    by (simp add: transition_errors_def basic_task_errors_def promoted_values promoted_references promoted_spec promoted_fields promoted_graph promoted_hierarchy promoted_supersession)
  have a: "arg_str promote_args ''task'' = ''AR-0001''" by (simp add: promote_args_def arg_str_def)
  have w: "w_policy (ck_world promote_checker) = PolicyAbsent False" by (simp add: promote_checker_def example_world_def)
  show ?thesis by (simp add: sqlite_transition_def w promote_policy_kept promote_applies n c e a)
qed

lemma promote_args_fields: "arg_str promote_args ''task'' = ''AR-0001''" "dget promote_args ''expected_revision'' = PInt 1" by (simp_all add: promote_args_def arg_str_def)

lemma promote_call_fields: "m_enter promote_call = Inr ()" "m_confirm promote_call = Inr ()" "m_policy0 promote_call = PolicyAbsent False" "m_export promote_call db = Inr ()" "m_checker promote_call = promote_checker"
  by (simp_all add: promote_call_def)

lemma planned_revision: "ditem planned_meta ''task_revision'' = Inr (PInt 1)" by (simp add: planned_meta_def ditem_def)

lemma planned_fields: "db_tasks planned_db = [planned_row]" "db_state planned_db = Some ''active''" "db_deps planned_db = []" "db_events planned_db = []" by (simp_all add: planned_db_def)

lemma promote_write: "\<exists>q. write_task lost ''AR-0001'' 1 (dset (dset (dset planned_meta ''status'' (PStr ''open'')) ''task_revision'' (PInt 2)) ''updated_at'' (PStr at)) body planned_db =
   Inr (planned_db\<lparr>db_tasks := [q]\<rparr>) \<and> r_revision q = 2 \<and> r_id q = ''AR-0001''"
  by (rule exI [of _ "planned_row\<lparr>r_meta := dset (dset (dset planned_meta ''status'' (PStr ''open'')) ''task_revision'' (PInt 2)) ''updated_at'' (PStr at),
      r_body := body, r_revision := 2, r_status := ''open'', r_updated := at\<rparr>"])
    (simp add: write_task_def row_values_def update_rows_def row_hit_def row_admitted_def row_checks_def index_free_def is_active_def STATUSES_def planned_fields planned_row_def planned_meta_def
    sql_int_def sql_text_def ditem_def dget_or_def example_id dset_def)

lemma promote_commits: "\<exists>db'. commit_sqlite promote_call promote_args ''promote'' None planned_db planned_db = Inr (1, db') \<and> db' \<noteq> planned_db"
proof -
  let ?m = "dset (dset (dset planned_meta ''status'' (PStr ''open'')) ''task_revision'' (PInt 2)) ''updated_at'' (PStr (m_at promote_call))"
  obtain q where q: "write_task ''SQLITE_CONFLICT: exact-revision update lost its fence'' ''AR-0001'' 1 ?m (transition_note ''body'' ''planning finished'' (m_at promote_call)) planned_db =
      Inr (planned_db\<lparr>db_tasks := [q]\<rparr>)" "r_revision q = 2" "r_id q = ''AR-0001''" using promote_write by blast
  have d: "dget_or planned_meta ''depends_on'' (PList []) = PList []" by (simp add: planned_meta_def)
  have ne: "db'\<noteq> planned_db" if "db_events db' \<noteq> []" for db' using that by (auto simp: planned_fields)
  show ?thesis
   using q by (simp add: commit_sqlite_def promote_args_fields promote_call_fields planned_load planned_select promote_policy planned_revision task_meta_def expected_revision_def sqlite_mutate_def transaction_def mutate_body_def promote_transition Let_def
      session_factory_def records_session_def checkpoint_factory_def build_record_def store_checkpoint_def store_session_def planned_fields d replace_deps_def insert_event_def known_id_def sql_int_def ne)
qed

lemma planned_ok: "db_ok planned_db"
  by (simp add: db_ok_def tasks_ok_def deps_ok_def events_ok_def history_ok_def index_free_def row_matches_def row_values_def sql_int_def sql_text_def
      row_checks_def is_active_def planned_db_def planned_row_def planned_meta_def STATUSES_def example_id ditem_def dget_def dget_or_def)

section \<open>Properties\<close>

text \<open>
  Property C1. Whenever a task mutation changes the database, whatever other transactions ran since its snapshot, the
  committed board has no graph, hierarchy or supersession errors, the database keeps its invariant, the
  task has the next revision, its stored record is one the record checks accepted, with the time of the
  mutation, and its body is the body of the snapshot with the note appended.
\<close>

theorem committed_mutation_valid:
  assumes "store_step\<^sup>*\<^sup>* db0 db" and "db_ok db0"
    and "mutate_sqlite c args kind policy db0 db = (db', res)" and "db' \<noteq> db"
  shows "db_ok db' \<and>
    (\<exists>tasks. load_tasks db' = Inr tasks \<and> graph_errors tasks = [] \<and> hierarchy_errors tasks = [] \<and> supersession_errors tasks = Inr []) \<and>
    (\<exists>r0 r q v p msg. look db0 (arg_str args ''task'') = Some r0 \<and> look db (arg_str args ''task'') = Some r \<and> look db' (arg_str args ''task'') = Some q \<and>
       r_revision q = r_revision r + 1 \<and> r_meta q = dset v ''updated_at'' (PStr (m_at c)) \<and>
       basic_task_errors (m_checker c) (r_filename r0) v (Some p) (kind \<noteq> ''repair-predicate-ledger'') = Inr [] \<and>
       r_body q = transition_note (r_body r0) msg (m_at c) \<and> (dget args ''expected_revision'' = PNone \<longrightarrow> r0 = r))"
proof -
  obtain expected where e: "commit_sqlite c args kind policy db0 db = Inr (expected, db')" using assms(3,4) by (rule committed_Inr)
  obtain p r0 r q v msg candidate where c: "look db0 (arg_str args ''task'') = Some r0" "expected_revision args (r_revision r0) = Inr expected"
    "look db (arg_str args ''task'') = Some r" "r_revision r = expected"
    "look db' (arg_str args ''task'') = Some q" "r_revision q = expected + 1" "r_meta q = dset v ''updated_at'' (PStr (m_at c))"
    "r_body q = transition_note (r_body r0) msg (m_at c)"
    "transition_errors (m_checker c) p kind (r_filename r0) v candidate = Inr []"
    "load_tasks db' = Inr (map (stamp_task (arg_str args ''task'') (m_at c) (r_body q)) candidate)" "db_ok db'" "store_step db db'"
    using e assms(2) sqlite.run_ok [OF assms(1,2)] by (rule commit_sqlite_Inr)
  have "r0 = r" if "dget args ''expected_revision'' = PNone"
    using sqlite.same_version_same_entry [OF assms(1,2) c(1,3)] c(2,4) that by (simp add: expected_revision_def)
  moreover have "\<exists>tasks. load_tasks db' = Inr tasks \<and> graph_errors tasks = [] \<and> hierarchy_errors tasks = [] \<and> supersession_errors tasks = Inr []"
    using c(9,10) by (simp add: transition_errors_Nil stamped.checks_stamp)
  moreover have "basic_task_errors (m_checker c) (r_filename r0) v (Some p) (kind \<noteq> ''repair-predicate-ledger'') = Inr []"
    using c(9) by (simp add: transition_errors_Nil)
  ultimately show ?thesis using c by blast
qed

theorem committed_mutation_valid_witness:
  "\<exists>db' q. mutate_sqlite promote_call promote_args ''promote'' None planned_db planned_db = (db', Inr ()) \<and> db_ok db' \<and>
     look db' ''AR-0001'' = Some q \<and> r_revision q = 2"
proof -
  obtain db' where c: "commit_sqlite promote_call promote_args ''promote'' None planned_db planned_db = Inr (1, db')" "db' \<noteq> planned_db"
    using promote_commits by blast
  then have m: "mutate_sqlite promote_call promote_args ''promote'' None planned_db planned_db = (db', Inr ())"
    by (simp add: mutate_sqlite_def promote_call_fields export_outcome_def)
  have "look planned_db ''AR-0001'' = Some planned_row" by (simp add: look_def planned_db_def planned_row_def)
  then show ?thesis
    using m committed_mutation_valid [OF rtranclp.rtrancl_refl planned_ok m c(2)] by (auto simp: promote_args_fields planned_row_def)
qed

end
