(* ===== verification/Py_Json.thy ===== *)
theory Py_Json
  imports Py_Digest Py_Time
begin

text \<open>
  \<open>json.dumps(v, indent=2, sort_keys=True)\<close> and \<open>json.loads\<close> of the Python standard library on the values
  that task records hold, and that reading inverts printing. Numbers with a fraction or an exponent
  and characters beyond Latin-1 are outside the value type; \<open>loads\<close> refuses them.
\<close>

section \<open>Printing\<close>

definition quote :: char where "quote = CHR 0x22"

definition backslash :: char where "backslash = CHR 0x5C"

definition fresh_line :: "nat \<Rightarrow> string" where
  "fresh_line n = newline # replicate n CHR '' ''"

definition bracketed :: "char \<Rightarrow> char \<Rightarrow> nat \<Rightarrow> string list \<Rightarrow> string" where
  "bracketed l r n items =
     (if items = [] then [l, r] else [l] @ fresh_line (n + 2) @ join (CHR '','' # fresh_line (n + 2)) items @ fresh_line n @ [r])"

fun pretty :: "nat \<Rightarrow> pyval \<Rightarrow> string" where
  "pretty n PNone = ''null''"
| "pretty n (PBool b) = (if b then ''true'' else ''false'')"
| "pretty n (PInt i) = show_int i"
| "pretty n (PStr s) = json_str s"
| "pretty n (PList xs) = bracketed CHR ''['' CHR '']'' n (map (pretty (n + 2)) xs)"
| "pretty n (PDict d) =
     bracketed CHR ''{'' CHR ''}'' n (map snd (sort_key fst (map (\<lambda>kv. (fst kv, json_str (fst kv) @ '': '' @ pretty (n + 2) (snd kv))) d)))"

section \<open>Reading\<close>

definition json_space :: "char \<Rightarrow> bool" where
  "json_space c = (c = CHR '' '' \<or> c = CHR 0x09 \<or> c = CHR 0x0A \<or> c = CHR 0x0D)"

definition skip_space :: "string \<Rightarrow> string" where
  "skip_space s = dropWhile json_space s"

definition hex_value :: "char \<Rightarrow> nat option" where
  "hex_value c =
     (let n = (of_char c :: nat) in
      if 48 \<le> n \<and> n \<le> 57 then Some (n - 48) else if 97 \<le> n \<and> n \<le> 102 then Some (n - 87)
      else if 65 \<le> n \<and> n \<le> 70 then Some (n - 55) else None)"

definition unicode_escape :: "string \<Rightarrow> (char \<times> string) option" where
  "unicode_escape s =
     (case s of
        a # b # c # d # t \<Rightarrow>
          (case (hex_value a, hex_value b, hex_value c, hex_value d) of
             (Some h, Some i, Some j, Some k) \<Rightarrow> if h = 0 \<and> i = 0 then Some (char_of (16 * j + k), t) else None
           | _ \<Rightarrow> None)
      | _ \<Rightarrow> None)"

definition ESCAPES :: "(char \<times> char) list" where
  "ESCAPES = [(quote, quote), (backslash, backslash), (CHR ''/'', CHR ''/''), (CHR ''b'', CHR 0x08), (CHR ''f'', CHR 0x0C),
     (CHR ''n'', CHR 0x0A), (CHR ''r'', CHR 0x0D), (CHR ''t'', CHR 0x09)]"

definition escaped :: "string \<Rightarrow> (char \<times> string) option" where
  "escaped s =
     (case s of [] \<Rightarrow> None
      | c # t \<Rightarrow> if c = CHR ''u'' then unicode_escape t else map_option (\<lambda>e. (e, t)) (map_of ESCAPES c))"

lemma escaped_shorter: "escaped s = Some (c, t) \<Longrightarrow> length t < length s"
  by (auto simp: escaped_def unicode_escape_def split: list.split_asm if_split_asm option.split_asm)

text \<open>The rest of a string after its opening quote.\<close>

function scan_string :: "string \<Rightarrow> (string \<times> string) option" where
  "scan_string [] = None"
| "scan_string (c # s) =
     (if c = quote then Some ([], s)
      else if c = backslash then
        (case escaped s of None \<Rightarrow> None | Some (e, t) \<Rightarrow> map_option (\<lambda>(w, r). (e # w, r)) (scan_string t))
      else if (of_char c :: nat) < 32 then None
      else map_option (\<lambda>(w, r). (c # w, r)) (scan_string s))"
  by pat_completeness auto
termination
proof (relation "measure length", goal_cases)
  case (2 c s x e t)
  then show ?case using escaped_shorter [of s e t] by simp
qed auto

text \<open>\<open>-?(0|[1-9][0-9]*)\<close>, not followed by a fraction or an exponent.\<close>

definition scan_int :: "string \<Rightarrow> (int \<times> string) option" where
  "scan_int s =
     (let neg = (s \<noteq> [] \<and> hd s = CHR ''-''); t = (if neg then tl s else s); ds = takeWhile is_digit t; rest = dropWhile is_digit t;
          (ds1, rest1) = (if ds \<noteq> [] \<and> hd ds = CHR ''0'' then ([hd ds], tl t) else (ds, rest)) in
      if ds1 = [] \<or> rest1 \<noteq> [] \<and> hd rest1 \<in> {CHR ''.'', CHR ''e'', CHR ''E''} then None
      else Some ((if neg then - 1 else 1) * int (nat_of_digits ds1), rest1))"

definition scan_literal :: "string \<Rightarrow> (pyval \<times> string) option" where
  "scan_literal s =
     (if starts_with s ''null'' then Some (PNone, drop 4 s)
      else if starts_with s ''true'' then Some (PBool True, drop 4 s)
      else if starts_with s ''false'' then Some (PBool False, drop 5 s)
      else map_option (\<lambda>(i, r). (PInt i, r)) (scan_int s))"

text \<open>\<open>scan_once\<close>, \<open>JSONArray\<close> and \<open>JSONObject\<close>. Each call consumes a character before it calls another, so the
  length of the text is enough fuel.\<close>

fun scan_value :: "nat \<Rightarrow> string \<Rightarrow> (pyval \<times> string) option"
  and scan_items :: "nat \<Rightarrow> pyval list \<Rightarrow> string \<Rightarrow> (pyval \<times> string) option"
  and scan_members :: "nat \<Rightarrow> meta \<Rightarrow> string \<Rightarrow> (pyval \<times> string) option" where
  "scan_value 0 s = None"
| "scan_value (Suc n) s =
     (case s of [] \<Rightarrow> None
      | c # t \<Rightarrow>
          if c = quote then map_option (\<lambda>(w, r). (PStr w, r)) (scan_string t)
          else if c = CHR ''['' then
            (let u = skip_space t in if u \<noteq> [] \<and> hd u = CHR '']'' then Some (PList [], tl u) else scan_items n [] u)
          else if c = CHR ''{'' then
            (let u = skip_space t in if u \<noteq> [] \<and> hd u = CHR ''}'' then Some (PDict [], tl u) else scan_members n [] u)
          else scan_literal s)"
| "scan_items 0 xs s = None"
| "scan_items (Suc n) xs s =
     (case scan_value n s of None \<Rightarrow> None
      | Some (v, t) \<Rightarrow>
          (case skip_space t of [] \<Rightarrow> None
           | c # u \<Rightarrow>
               if c = CHR '']'' then Some (PList (xs @ [v]), u)
               else if c = CHR '','' then scan_items n (xs @ [v]) (skip_space u)
               else None))"
| "scan_members 0 d s = None"
| "scan_members (Suc n) d s =
     (if s = [] \<or> hd s \<noteq> quote then None
      else case scan_string (tl s) of None \<Rightarrow> None
      | Some (k, t) \<Rightarrow>
          (let u = skip_space t in
           if u = [] \<or> hd u \<noteq> CHR '':'' then None
           else case scan_value n (skip_space (tl u)) of None \<Rightarrow> None
           | Some (v, r) \<Rightarrow>
               (case skip_space r of [] \<Rightarrow> None
                | c # rest \<Rightarrow>
                    if c = CHR ''}'' then Some (PDict (dset d k v), rest)
                    else if c = CHR '','' then scan_members n (dset d k v) (skip_space rest)
                    else None)))"

definition loads :: "string \<Rightarrow> pyval result" where
  "loads s =
     (case scan_value (Suc (length s)) (skip_space s) of
        Some (v, r) \<Rightarrow> if skip_space r = [] then Inr v else Inl (ValueError ''Extra data'')
      | None \<Rightarrow> Inl (ValueError ''Expecting value''))"

section \<open>Strings and numbers\<close>

lemma hex_value_digit: "hex_value (hex_digit n) = Some (n mod 16)"
proof -
  have "\<forall>k \<in> set [0..<16]. hex_value (lower_hex ! k) = Some k" by code_simp
  moreover have "n mod 16 \<in> set [0..<16]" by simp
  ultimately show ?thesis unfolding hex_digit_def by blast
qed

lemma scan_json_char: "scan_string (json_char c @ s) = map_option (\<lambda>(w, r). (c # w, r)) (scan_string s)"
proof -
  have "(of_char c :: nat) div 16 < 16" using nat_of_char_less_256 [of c] by (simp add: less_mult_imp_div_less)
  then have join: "16 * ((of_char c :: nat) div 16 mod 16) + of_char c mod 16 = of_char c" by simp
  have chr: "(of_char c :: nat) = 8 \<longleftrightarrow> c = CHR 0x08" "(of_char c :: nat) = 9 \<longleftrightarrow> c = CHR 0x09" "(of_char c :: nat) = 10 \<longleftrightarrow> c = CHR 0x0A"
      "(of_char c :: nat) = 12 \<longleftrightarrow> c = CHR 0x0C" "(of_char c :: nat) = 13 \<longleftrightarrow> c = CHR 0x0D"
    using of_char_eq_iff [of c "CHR 0x08", where 'a = nat] of_char_eq_iff [of c "CHR 0x09", where 'a = nat] of_char_eq_iff [of c "CHR 0x0A", where 'a = nat]
      of_char_eq_iff [of c "CHR 0x0C", where 'a = nat] of_char_eq_iff [of c "CHR 0x0D", where 'a = nat] by simp_all
  have zero: "hex_value CHR ''0'' = Some 0" by code_simp
  show ?thesis
    unfolding json_char_def Let_def chr
    by (auto simp: escaped_def unicode_escape_def hex_value_digit join zero quote_def backslash_def ESCAPES_def)
qed

lemma scan_json_str: "scan_string (concat (map json_char s) @ quote # r) = Some (s, r)"
proof (induction s)
  case (Cons c s)
  then show ?case using scan_json_char [of c "concat (map json_char s) @ quote # r"] by simp
qed simp

lemma nat_of_digits_snoc: "nat_of_digits (s @ [c]) = 10 * nat_of_digits s + digit_val c"
  by (simp add: nat_of_digits_def)

lemma nat_of_show_nat: "nat_of_digits (show_nat n) = n"
proof (induction n rule: show_nat.induct)
  case (1 n)
  show ?case
  proof (cases "n < 10")
    case True
    then show ?thesis using digit_val_nth [of n] by (subst show_nat.simps) (simp add: nat_of_digits_def)
  next
    case False
    then show ?thesis using 1 digit_val_nth [of "n mod 10"] by (subst show_nat.simps) (simp add: nat_of_digits_snoc)
  qed
qed

lemma show_nat_zero: "hd (show_nat n) = CHR ''0'' \<Longrightarrow> show_nat n = ''0''"
proof (induction n rule: show_nat.induct)
  case (1 n)
  have d: "k < 10 \<Longrightarrow> digits ! k = CHR ''0'' \<Longrightarrow> k = 0" for k using digit_val_nth [of k] by (simp add: digit_val_def)
  show ?case
  proof (cases "n < 10")
    case True
    then show ?thesis using 1(2) d [of n] by (auto simp: show_nat.simps [of n] show_nat.simps [of 0] digits_def)
  next
    case False
    then have "hd (show_nat (n div 10)) = CHR ''0''" using 1(2) by (subst (asm) show_nat.simps) simp
    then have "show_nat (n div 10) = ''0''" using 1(1) False by simp
    then have "n div 10 = 0" using nat_of_show_nat [of "n div 10"] by (simp add: nat_of_digits_def digit_val_def)
    then show ?thesis using False by simp
  qed
qed

text \<open>What may follow a printed value inside a document: nothing, a comma or a new line.\<close>

definition stops :: "string \<Rightarrow> bool" where
  "stops r = (r \<noteq> [] \<longrightarrow> hd r \<in> {CHR '','', newline})"

lemma stops_not_digit: "stops r \<Longrightarrow> r \<noteq> [] \<Longrightarrow> \<not> is_digit (hd r) \<and> hd r \<notin> {CHR ''.'', CHR ''e'', CHR ''E''}"
  by (auto simp: stops_def newline_def is_digit_def digits_def)

lemma scan_show_nat:
  assumes "stops r"
  shows "takeWhile is_digit (show_nat n @ r) = show_nat n" "dropWhile is_digit (show_nat n @ r) = r"
proof -
  have all: "\<forall>c \<in> set (show_nat n). is_digit c" using show_nat_digits [of n] by (simp add: list_all_iff)
  have r: "takeWhile is_digit r = []" "dropWhile is_digit r = r" using stops_not_digit [OF assms] by (cases r; simp)+
  show "takeWhile is_digit (show_nat n @ r) = show_nat n" "dropWhile is_digit (show_nat n @ r) = r"
    using all r by (simp_all add: takeWhile_append2 dropWhile_append2)
qed

lemma scan_digits:
  assumes "stops r"
  shows "scan_int (show_nat n @ r) = Some (int n, r)" "scan_int (CHR ''-'' # show_nat n @ r) = Some (- int n, r)"
proof -
  have hd: "hd (show_nat n @ r) \<noteq> CHR ''-''" using show_nat_digits [of n] by (cases "show_nat n") (auto simp: is_digit_def digits_def)
  have z: "hd (show_nat n) = CHR ''0'' \<Longrightarrow> [hd (show_nat n)] = show_nat n \<and> tl (show_nat n @ r) = r" using show_nat_zero [of n] by auto
  show "scan_int (show_nat n @ r) = Some (int n, r)" "scan_int (CHR ''-'' # show_nat n @ r) = Some (- int n, r)"
    using hd z stops_not_digit [OF assms] scan_show_nat [OF assms, of n] nat_of_show_nat [of n]
    by (auto simp: scan_int_def Let_def)
qed

lemma scan_show_int: "stops r \<Longrightarrow> scan_int (show_int i @ r) = Some (i, r)"
  using scan_digits [of r "nat i"] scan_digits [of r "nat (- i)"] by (auto simp: show_int_def)

section \<open>Reading inverts printing\<close>

text \<open>The value that is read back: dictionaries come with their keys in order.\<close>

fun tidy :: "pyval \<Rightarrow> pyval" where
  "tidy (PList xs) = PList (map tidy xs)"
| "tidy (PDict d) = PDict (sort_key fst (map (\<lambda>kv. (fst kv, tidy (snd kv))) d))"
| "tidy v = v"

text \<open>Python dictionaries have distinct keys.\<close>

fun keys_distinct :: "pyval \<Rightarrow> bool" where
  "keys_distinct (PList xs) = list_all keys_distinct xs"
| "keys_distinct (PDict d) = (distinct (map fst d) \<and> list_all (\<lambda>kv. keys_distinct (snd kv)) d)"
| "keys_distinct v = True"

definition member_text :: "nat \<Rightarrow> string \<times> pyval \<Rightarrow> string" where
  "member_text n kv = json_str (fst kv) @ '': '' @ pretty n (snd kv)"

lemma pretty_PDict:
  "pretty n (PDict d) = bracketed CHR ''{'' CHR ''}'' n (map (member_text (n + 2)) (sort_key fst d))"
  using sort_key_map_key [of fst "\<lambda>kv. (fst kv, json_str (fst kv) @ '': '' @ pretty (n + 2) (snd kv))" fst d]
  by (simp add: member_text_def [abs_def] comp_def)

lemma tidy_PDict: "tidy (PDict d) = PDict (map (\<lambda>kv. (fst kv, tidy (snd kv))) (sort_key fst d))"
  using sort_key_map_key [of fst "\<lambda>kv. (fst kv, tidy (snd kv))" fst d] by simp

lemma dset_new: "k \<notin> fst ` set d \<Longrightarrow> dset d k v = d @ [(k, v)]"
  unfolding dset_def by (induction d) auto

lemma skip_fresh: "s \<noteq> [] \<Longrightarrow> \<not> json_space (hd s) \<Longrightarrow> skip_space (fresh_line n @ s) = s"
proof -
  assume s: "s \<noteq> []" "\<not> json_space (hd s)"
  have "dropWhile json_space (replicate n CHR '' '' @ s) = s" using s by (induction n) (cases s, auto simp: json_space_def)
  then show ?thesis by (simp add: skip_space_def fresh_line_def json_space_def newline_def)
qed

lemma show_int_hd: "show_int i \<noteq> [] \<and> (hd (show_int i) = CHR ''-'' \<or> is_digit (hd (show_int i)))"
  using show_nat_digits [of "nat i"] show_nat_digits [of "nat (- i)"]
  by (cases "show_nat (nat i)") (auto simp: show_int_def)

lemma pretty_hd: "pretty n v \<noteq> [] \<and> \<not> json_space (hd (pretty n v)) \<and> hd (pretty n v) \<notin> {CHR '']'', CHR ''}''}"
  using show_int_hd [of "int_of v"]
  by (cases v) (auto simp: json_str_def bracketed_def json_space_def is_digit_def digits_def pretty_PDict simp del: pretty.simps(6))

lemma scan_scalar:
  assumes "stops r"
  shows "scan_value (Suc f) (''null'' @ r) = Some (PNone, r)" "scan_value (Suc f) (''true'' @ r) = Some (PBool True, r)"
    "scan_value (Suc f) (''false'' @ r) = Some (PBool False, r)" "scan_value (Suc f) (json_str s @ r) = Some (PStr s, r)"
    "scan_value (Suc f) (show_int i @ r) = Some (PInt i, r)"
proof -
  show "scan_value (Suc f) (''null'' @ r) = Some (PNone, r)" "scan_value (Suc f) (''true'' @ r) = Some (PBool True, r)"
    "scan_value (Suc f) (''false'' @ r) = Some (PBool False, r)" by (simp_all add: scan_literal_def starts_with_def quote_def)
  show "scan_value (Suc f) (json_str s @ r) = Some (PStr s, r)"
    using scan_json_str [of s r] by (simp add: json_str_def quote_def)
  obtain c t where ct: "show_int i = c # t" "c = CHR ''-'' \<or> is_digit c" using show_int_hd [of i] by (cases "show_int i") auto
  have "scan_literal (show_int i @ r) = Some (PInt i, r)"
    using ct scan_show_int [OF assms, of i] by (auto simp: scan_literal_def starts_with_def is_digit_def digits_def)
  then show "scan_value (Suc f) (show_int i @ r) = Some (PInt i, r)"
    using ct by (auto simp: quote_def is_digit_def digits_def)
qed

definition reads :: "nat \<Rightarrow> pyval \<Rightarrow> bool" where
  "reads n v = (\<forall>f r. length (pretty n v) \<le> f \<and> stops r \<longrightarrow> scan_value f (pretty n v @ r) = Some (tidy v, r))"

lemma readsD: "reads n v \<Longrightarrow> length (pretty n v) \<le> f \<Longrightarrow> stops r \<Longrightarrow> scan_value f (pretty n v @ r) = Some (tidy v, r)"
  by (simp add: reads_def)

lemma stops_fresh [simp]: "stops (fresh_line m @ r)" "stops (CHR '','' # r)"
  by (simp_all add: stops_def fresh_line_def)

lemma join_Cons: "ws \<noteq> [] \<Longrightarrow> join sep (w # ws) = w @ sep @ join sep ws"
  by (cases ws) (simp_all add: join_def)

lemma join_single [simp]: "join sep [w] = w"
  by (simp add: join_def)

lemma scan_items_reads:
  assumes "vs \<noteq> []" "\<forall>v \<in> set vs. reads n v" "length (join (CHR '','' # fresh_line k) (map (pretty n) vs)) < f"
  shows "scan_items f acc (join (CHR '','' # fresh_line k) (map (pretty n) vs) @ fresh_line m @ CHR '']'' # r) = Some (PList (acc @ map tidy vs), r)"
  using assms
proof (induction vs arbitrary: f acc)
  case (Cons v vs)
  let ?j = "join (CHR '','' # fresh_line k) (map (pretty n) vs)"
  obtain g where f: "f = Suc g" using Cons.prems(3) by (cases f) auto
  have close: "skip_space (fresh_line m @ CHR '']'' # r) = CHR '']'' # r" by (rule skip_fresh) (simp_all add: json_space_def)
  show ?case
  proof (cases "vs = []")
    case True
    then have "scan_value g (pretty n v @ fresh_line m @ CHR '']'' # r) = Some (tidy v, fresh_line m @ CHR '']'' # r)"
      using Cons.prems f by (intro readsD) auto
    then show ?thesis using True f close by simp
  next
    case False
    have len: "length (pretty n v) \<le> g" "length ?j < g" using Cons.prems(3) False f by (auto simp: join_Cons fresh_line_def)
    let ?rest = "fresh_line k @ ?j @ fresh_line m @ CHR '']'' # r"
    have "scan_value g (pretty n v @ CHR '','' # ?rest) = Some (tidy v, CHR '','' # ?rest)"
      using Cons.prems len by (intro readsD) auto
    moreover have "skip_space ?rest = ?j @ fresh_line m @ CHR '']'' # r"
      using False pretty_hd by (intro skip_fresh) (cases vs; auto simp: join_def)+
    moreover have "skip_space (CHR '','' # s) = CHR '','' # s" for s by (simp add: skip_space_def json_space_def)
    ultimately show ?thesis using Cons.IH [OF False _ len(2), of "acc @ [tidy v]"] Cons.prems(2) False f by (simp add: join_Cons)
  qed
qed simp

lemma scan_members_reads:
  assumes "kvs \<noteq> []" "\<forall>kv \<in> set kvs. reads n (snd kv)" "length (join (CHR '','' # fresh_line k) (map (member_text n) kvs)) < f"
    "distinct (map fst acc @ map fst kvs)"
  shows "scan_members f acc (join (CHR '','' # fresh_line k) (map (member_text n) kvs) @ fresh_line m @ CHR ''}'' # r) =
    Some (PDict (acc @ map (\<lambda>kv. (fst kv, tidy (snd kv))) kvs), r)"
  using assms
proof (induction kvs arbitrary: f acc)
  case (Cons kv kvs)
  let ?j = "join (CHR '','' # fresh_line k) (map (member_text n) kvs)" and ?v = "pretty n (snd kv)"
  obtain g where f: "f = Suc g" using Cons.prems(3) by (cases f) auto
  have shape: "member_text n kv @ s = quote # concat (map json_char (fst kv)) @ quote # '': '' @ ?v @ s" for s
    by (simp add: member_text_def json_str_def quote_def)
  obtain c w where v: "?v = c # w" "\<not> json_space c" using pretty_hd [of n "snd kv"] by (metis list.collapse)
  have colon: "skip_space ('': '' @ s) = '': '' @ s" "skip_space (CHR '' '' # ?v @ s) = ?v @ s" for s
    unfolding v(1) using v(2) by (simp_all add: skip_space_def json_space_def)
  have close: "skip_space (fresh_line m @ CHR ''}'' # r) = CHR ''}'' # r" by (rule skip_fresh) (simp_all add: json_space_def)
  have set_kv: "dset acc (fst kv) (tidy (snd kv)) = acc @ [(fst kv, tidy (snd kv))]" using Cons.prems(4) by (simp add: dset_new)
  show ?case
  proof (cases "kvs = []")
    case True
    then have "scan_value g (?v @ fresh_line m @ CHR ''}'' # r) = Some (tidy (snd kv), fresh_line m @ CHR ''}'' # r)"
      using Cons.prems f by (intro readsD) (auto simp: member_text_def)
    then show ?thesis using True f close colon set_kv by (simp add: shape scan_json_str)
  next
    case False
    have "length ?v \<le> length (member_text n kv)" by (simp add: member_text_def)
    then have len: "length ?v \<le> g" "length ?j < g" using Cons.prems(3) False f by (auto simp: join_Cons fresh_line_def)
    let ?rest = "fresh_line k @ ?j @ fresh_line m @ CHR ''}'' # r"
    have "scan_value g (?v @ CHR '','' # ?rest) = Some (tidy (snd kv), CHR '','' # ?rest)"
      using Cons.prems len by (intro readsD) auto
    moreover have "skip_space ?rest = ?j @ fresh_line m @ CHR ''}'' # r"
      using False by (intro skip_fresh) (cases kvs; auto simp: join_def member_text_def json_str_def json_space_def)+
    moreover have "skip_space (CHR '','' # s) = CHR '','' # s" for s by (simp add: skip_space_def json_space_def)
    ultimately show ?thesis
      using Cons.IH [OF False _ len(2), of "acc @ [(fst kv, tidy (snd kv))]"] Cons.prems(2,4) False f colon set_kv by (simp add: join_Cons shape scan_json_str)
  qed
qed simp

lemma bracketed_shape:
  "items \<noteq> [] \<Longrightarrow> bracketed l r n items @ rest = l # fresh_line (n + 2) @ join (CHR '','' # fresh_line (n + 2)) items @ fresh_line n @ r # rest"
  by (simp add: bracketed_def)

lemma bracketed_length: "items \<noteq> [] \<Longrightarrow> Suc (length (join (CHR '','' # fresh_line (n + 2)) items)) < length (bracketed l r n items)"
  by (simp add: bracketed_def fresh_line_def)

lemma join_hd: "w \<noteq> [] \<Longrightarrow> join sep (w # ws) \<noteq> [] \<and> hd (join sep (w # ws)) = hd w"
  by (simp add: join_def)

lemma list_reads:
  assumes "\<forall>v \<in> set xs. reads (n + 2) v"
  shows "reads n (PList xs)"
  unfolding reads_def
proof (intro allI impI, elim conjE)
  fix f r assume len: "length (pretty n (PList xs)) \<le> f" and r: "stops r"
  obtain g where f: "f = Suc g" using len pretty_hd [of n "PList xs"] by (cases f) auto
  show "scan_value f (pretty n (PList xs) @ r) = Some (tidy (PList xs), r)"
  proof (cases xs)
    case Nil
    then show ?thesis by (simp add: f bracketed_def skip_space_def json_space_def quote_def)
  next
    case (Cons v vs)
    let ?u = "join (CHR '','' # fresh_line (n + 2)) (map (pretty (n + 2)) xs)"
    have shape: "pretty n (PList xs) @ r = CHR ''['' # fresh_line (n + 2) @ ?u @ fresh_line n @ CHR '']'' # r"
      using Cons by (simp only: pretty.simps) (rule bracketed_shape, simp)
    have hd: "?u \<noteq> []" "\<not> json_space (hd ?u)" "hd ?u \<noteq> CHR '']''"
      using join_hd [of "pretty (n + 2) v"] pretty_hd [of "n + 2" v] by (simp_all add: Cons)
    have "skip_space (fresh_line (n + 2) @ ?u @ fresh_line n @ CHR '']'' # r) = ?u @ fresh_line n @ CHR '']'' # r"
      using hd by (intro skip_fresh) auto
    moreover have "length ?u < g"
      using bracketed_length [of "map (pretty (n + 2)) xs" n "CHR ''[''" "CHR '']''"] len f Cons unfolding pretty.simps by simp
    ultimately show ?thesis
      using scan_items_reads [of xs "n + 2" "n + 2" g "[]" n r] assms hd Cons f unfolding shape by (simp add: quote_def)
  qed
qed

lemma dict_reads:
  assumes "\<forall>kv \<in> set d. reads (n + 2) (snd kv)" "distinct (map fst d)"
  shows "reads n (PDict d)"
  unfolding reads_def
proof (intro allI impI, elim conjE)
  fix f r assume len: "length (pretty n (PDict d)) \<le> f" and r: "stops r"
  obtain g where f: "f = Suc g" using len pretty_hd [of n "PDict d"] by (cases f) auto
  define e where "e = sort_key fst d"
  have e: "\<forall>kv \<in> set e. reads (n + 2) (snd kv)" "distinct (map fst e)" "e = [] \<longleftrightarrow> d = []"
    using assms by (simp_all add: e_def distinct_map) (metis set_empty set_sort)
  show "scan_value f (pretty n (PDict d) @ r) = Some (tidy (PDict d), r)"
  proof (cases e)
    case Nil
    then show ?thesis using e(3) by (simp add: f bracketed_def skip_space_def json_space_def quote_def)
  next
    case (Cons kv kvs)
    let ?u = "join (CHR '','' # fresh_line (n + 2)) (map (member_text (n + 2)) e)"
    have shape: "pretty n (PDict d) @ r = CHR ''{'' # fresh_line (n + 2) @ ?u @ fresh_line n @ CHR ''}'' # r"
      using Cons unfolding pretty_PDict e_def [symmetric] by (intro bracketed_shape) simp
    have hd: "?u \<noteq> []" "\<not> json_space (hd ?u)" "hd ?u \<noteq> CHR ''}''"
      using join_hd [of "member_text (n + 2) kv"] by (simp_all add: Cons member_text_def json_str_def json_space_def)
    have "skip_space (fresh_line (n + 2) @ ?u @ fresh_line n @ CHR ''}'' # r) = ?u @ fresh_line n @ CHR ''}'' # r"
      using hd by (intro skip_fresh) auto
    moreover have "length ?u < g"
      using bracketed_length [of "map (member_text (n + 2)) e" n "CHR ''{''" "CHR ''}''"] len f Cons unfolding pretty_PDict e_def [symmetric] by simp
    ultimately show ?thesis
      using scan_members_reads [of e "n + 2" "n + 2" g "[]" n r] e hd Cons f unfolding shape tidy_PDict e_def [symmetric] by (simp add: quote_def)
  qed
qed

lemma scalar_reads:
  assumes "\<And>f r. stops r \<Longrightarrow> scan_value (Suc f) (pretty n v @ r) = Some (v, r)" "tidy v = v"
  shows "reads n v"
  unfolding reads_def
proof (intro allI impI, elim conjE)
  fix f r assume "length (pretty n v) \<le> f" "stops r"
  then show "scan_value f (pretty n v @ r) = Some (tidy v, r)" using assms pretty_hd [of n v] by (cases f) auto
qed

lemma pretty_reads: "keys_distinct v \<Longrightarrow> reads n v"
proof (induction v arbitrary: n)
  case (PList xs)
  then show ?case by (intro list_reads) (auto simp: list_all_iff)
next
  case (PDict d)
  then show ?case by (intro dict_reads) (auto simp: list_all_iff)
qed (auto intro!: scalar_reads simp only: pretty.simps tidy.simps scan_scalar split: if_splits)

lemma loads_pretty:
  assumes "keys_distinct v"
  shows "loads (pretty n v) = Inr (tidy v)"
proof -
  have "skip_space (pretty n v) = pretty n v" using pretty_hd [of n v] by (cases "pretty n v") (auto simp: skip_space_def)
  moreover have "scan_value (Suc (length (pretty n v))) (pretty n v @ []) = Some (tidy v, [])"
    using pretty_reads [OF assms] by (intro readsD) (auto simp: stops_def)
  ultimately show ?thesis by (simp add: loads_def skip_space_def)
qed

end
