(* ===== verification/Task_Files.thy ===== *)
theory Task_Files
  imports Py_Json Task_Graph
begin

text \<open>
  The task files of the Git authority, \<open>read_task\<close>, \<open>write_task\<close>, \<open>git_tasks\<close> and \<open>locate\<close> of
  \<open>src/tools/handoffctl.py\<close>: a record as JSON front matter between two lines of dashes, then the body.
\<close>

section \<open>One file\<close>

text \<open>\<open>s.find(sub)\<close>, as the text before and after the first occurrence.\<close>

fun cut :: "string \<Rightarrow> string \<Rightarrow> (string \<times> string) option" where
  "cut sub s =
     (if starts_with s sub then Some ([], drop (length sub) s)
      else case s of [] \<Rightarrow> None | c # t \<Rightarrow> map_option (\<lambda>(a, b). (c # a, b)) (cut sub t))"

declare cut.simps [simp del]

text \<open>\<open>path.read_text()\<close> of a file: text mode turns \<open>CR LF\<close> and \<open>CR\<close> into a line feed. Writing in text mode leaves a
  carriage return alone, so a file keeps what was written and the reader sees its translation.\<close>

definition carriage_return :: char where "carriage_return = CHR 0x0D"

fun universal_newlines :: "string \<Rightarrow> string" where
  "universal_newlines [] = []"
| "universal_newlines (c # s) =
     (if c = carriage_return then newline # universal_newlines (if starts_with s [newline] then tl s else s)
      else c # universal_newlines s)"

definition FENCE :: string where "FENCE = ''---'' @ [newline]"

definition read_task :: "string \<Rightarrow> string \<Rightarrow> (pyval \<times> string) result" where
  "read_task path content =
     (let text = universal_newlines content in
      if \<not> starts_with text FENCE then Inl (ValueError (path @ '': no front matter''))
      else case cut (newline # FENCE) (drop 4 text) of
        None \<Rightarrow> Inl (ValueError (path @ '': unterminated front matter''))
      | Some (front, body) \<Rightarrow> bindE (loads front) (\<lambda>v. Inr (v, body)))"

definition task_text :: "meta \<Rightarrow> string \<Rightarrow> string" where
  "task_text meta body = FENCE @ pretty 0 (PDict meta) @ newline # FENCE @ body"

section \<open>The end of the front matter\<close>

text \<open>Printed JSON has no line that starts with a dash, so the first such line ends the front matter.\<close>

definition line_safe :: "string \<Rightarrow> bool" where
  "line_safe s = (\<forall>a b. s = a @ newline # b \<longrightarrow> b \<noteq> [] \<and> hd b \<noteq> CHR ''-'')"

lemma line_safe_append: "line_safe s \<Longrightarrow> line_safe t \<Longrightarrow> line_safe (s @ t)"
  unfolding line_safe_def
proof (intro allI impI)
  fix a b assume s: "\<forall>a b. s = a @ newline # b \<longrightarrow> b \<noteq> [] \<and> hd b \<noteq> CHR ''-''" and t: "\<forall>a b. t = a @ newline # b \<longrightarrow> b \<noteq> [] \<and> hd b \<noteq> CHR ''-''"
    and eq: "s @ t = a @ newline # b"
  from eq consider u where "s = a @ u" "u @ t = newline # b" | u where "a = s @ u" "t = u @ newline # b"
    by (auto simp: append_eq_append_conv2)
  then show "b \<noteq> [] \<and> hd b \<noteq> CHR ''-''"
  proof cases
    case 1
    then show ?thesis using s t by (cases u) auto
  next
    case 2
    then show ?thesis using t by blast
  qed
qed

lemma line_safe_plain: "newline \<notin> set s \<Longrightarrow> line_safe s"
  by (auto simp: line_safe_def)

lemma line_safe_concat: "\<forall>s \<in> set ss. line_safe s \<Longrightarrow> line_safe (concat ss)"
  by (induction ss) (auto intro: line_safe_append line_safe_plain)

lemma line_safe_fresh: "c \<noteq> CHR ''-'' \<Longrightarrow> c \<noteq> newline \<Longrightarrow> line_safe (fresh_line n @ [c])" "line_safe (fresh_line (Suc n))"
proof -
  have sp: "newline \<noteq> CHR '' ''" by (simp add: newline_def)
  show "line_safe (fresh_line n @ [c])" if "c \<noteq> CHR ''-''" "c \<noteq> newline"
    using that sp by (cases n) (auto simp: line_safe_def fresh_line_def Cons_eq_append_conv append_eq_Cons_conv dest!: arg_cong [where f = set])
  show "line_safe (fresh_line (Suc n))"
    using sp by (auto simp: line_safe_def fresh_line_def Cons_eq_append_conv dest!: arg_cong [where f = set])
qed

lemma json_str_plain: "newline \<notin> set (json_str s)"
proof -
  have chr: "(of_char c :: nat) = 10 \<longleftrightarrow> c = newline" for c
    using of_char_eq_iff [of c "CHR 0x0A", where 'a = nat] by (simp add: newline_def)
  have hex: "newline \<noteq> hex_digit n" for n
    using is_lower_hex_digit [of n] by (auto simp: is_lower_hex_def lower_hex_def newline_def)
  have "newline \<notin> set (json_char c)" for c
    unfolding json_char_def Let_def using chr [of c] hex by (auto simp: newline_def)
  then show ?thesis by (simp add: json_str_def newline_def)
qed

lemma show_int_plain: "newline \<notin> set (show_int i)"
proof -
  have "\<not> is_digit newline" by (simp add: is_digit_def digits_def newline_def)
  then have "newline \<notin> set (show_nat n)" for n using show_nat_digits [of n] by (auto simp: list_all_iff)
  then show ?thesis by (simp add: show_int_def newline_def)
qed

lemma join_safe:
  assumes "\<forall>w \<in> set ws. line_safe w" "line_safe sep"
  shows "line_safe (join sep ws)"
proof (cases ws)
  case (Cons w r)
  have "line_safe (concat (map (\<lambda>x. sep @ x) r))" using assms Cons by (intro line_safe_concat) (auto intro: line_safe_append)
  then show ?thesis using assms Cons by (simp add: join_def line_safe_append)
qed (simp add: join_def line_safe_plain)

lemma bracketed_safe:
  assumes "\<forall>w \<in> set items. line_safe w" "l \<noteq> newline" "r \<noteq> newline" "r \<noteq> CHR ''-''"
  shows "line_safe (bracketed l r n items)"
proof -
  have comma: "line_safe (CHR '','' # fresh_line (n + 2))"
    using line_safe_append [OF line_safe_plain [of "[CHR '','']"] line_safe_fresh(2) [of "Suc n"]] by (simp add: newline_def)
  have "line_safe ([l] @ fresh_line (Suc (Suc n)) @ join (CHR '','' # fresh_line (n + 2)) items @ fresh_line n @ [r])"
    using assms comma by (intro line_safe_append line_safe_fresh join_safe) (auto intro: line_safe_plain)
  moreover have "line_safe [l, r]" using assms by (intro line_safe_plain) auto
  ultimately show ?thesis by (simp add: bracketed_def)
qed

lemma pretty_safe: "line_safe (pretty n v)"
proof (induction v arbitrary: n)
  case (PList xs)
  then show ?case unfolding pretty.simps by (intro bracketed_safe) (auto simp: newline_def)
next
  case (PDict d)
  have "line_safe (member_text (n + 2) kv)" if "kv \<in> set d" for kv
  proof -
    have "snd kv \<in> Basic_BNFs.snds kv" by (cases kv) simp
    then have "line_safe (pretty (n + 2) (snd kv))" by (rule PDict [OF that])
    moreover have "line_safe (json_str (fst kv))" "line_safe '': ''" using json_str_plain by (auto simp: newline_def intro!: line_safe_plain)
    ultimately show ?thesis unfolding member_text_def by (intro line_safe_append)
  qed
  then show ?case unfolding pretty_PDict by (intro bracketed_safe) (auto simp: newline_def)
next
  case (PInt i)
  then show ?case using line_safe_plain show_int_plain by simp
next
  case (PStr s)
  then show ?case using line_safe_plain json_str_plain by simp
qed (auto simp: newline_def intro!: line_safe_plain)

lemma cut_safe: "line_safe s \<Longrightarrow> cut (newline # FENCE) (s @ newline # FENCE @ body) = Some (s, body)"
proof (induction s)
  case Nil
  then show ?case by (subst cut.simps) (simp add: starts_with_def)
next
  case (Cons c s)
  have "\<not> starts_with ((c # s) @ newline # FENCE @ body) (newline # FENCE)"
    using Cons.prems by (cases s) (auto simp: starts_with_def line_safe_def FENCE_def dest: spec [of _ "[]"])
  moreover have "line_safe s" using Cons.prems unfolding line_safe_def by (metis append_Cons)
  ultimately show ?case using Cons.IH by (subst cut.simps) simp
qed

section \<open>Values that are read back\<close>

lemma tidy_equal: "keys_distinct v \<Longrightarrow> py_eq v (tidy v)"
proof (induction v)
  case (PList xs)
  then show ?case by (auto simp: list_all_iff list_all2_map2 list_all2_same)
next
  case (PDict d)
  let ?e = "map (\<lambda>kv. (fst kv, tidy (snd kv))) d"
  have d: "distinct (map fst ?e)" using PDict.prems by (simp add: comp_def)
  have "distinct (map fst (sort_key fst ?e))" using d unfolding distinct_map distinct_sort set_sort .
  then have m: "map_of (sort_key fst ?e) = map_of ?e" using d map_of_inject_set [of "sort_key fst ?e" ?e] by simp
  have "py_eq (snd kv) (tidy (snd kv)) \<and> map_of (sort_key fst ?e) (fst kv) = Some (tidy (snd kv))" if kv: "kv \<in> set d" for kv
  proof -
    have "snd kv \<in> Basic_BNFs.snds kv" "keys_distinct (snd kv)" using PDict.prems kv by (cases kv; auto simp: list_all_iff)+
    moreover have "map_of ?e (fst kv) = Some (tidy (snd kv))" using d by (rule map_of_is_SomeI) (use kv in simp)
    ultimately show ?thesis using PDict.IH [OF kv] m by simp
  qed
  then show ?case by (simp add: list_all_iff)
qed auto

section \<open>Line ends\<close>

lemma newline_not_return [simp]: "newline \<noteq> carriage_return" "carriage_return \<noteq> newline"
  by (simp_all add: newline_def carriage_return_def)

lemma universal_newlines_plain: "carriage_return \<notin> set a \<Longrightarrow> universal_newlines (a @ s) = a @ universal_newlines s"
  by (induction a) auto

lemma universal_newlines_id: "carriage_return \<notin> set a \<Longrightarrow> universal_newlines a = a"
  using universal_newlines_plain [of a "[]"] by simp

lemma no_return: "carriage_return \<notin> set (universal_newlines s)"
  by (induction s rule: universal_newlines.induct) auto

lemma universal_newlines_idem [simp]: "universal_newlines (universal_newlines s) = universal_newlines s"
  by (rule universal_newlines_id [OF no_return])

lemma read_task_universal: "read_task path (universal_newlines content) = read_task path content"
  by (simp add: read_task_def)

lemma json_str_no_return: "carriage_return \<notin> set (json_str s)"
proof -
  have chr: "(of_char c :: nat) = 13 \<longleftrightarrow> c = carriage_return" for c
    using of_char_eq_iff [of c "CHR 0x0D", where 'a = nat] by (simp add: carriage_return_def)
  have hex: "carriage_return \<noteq> hex_digit n" for n
    using is_lower_hex_digit [of n] by (auto simp: is_lower_hex_def lower_hex_def carriage_return_def)
  have "carriage_return \<notin> set (json_char c)" for c
    unfolding json_char_def Let_def using chr [of c] hex by (auto simp: carriage_return_def)
  then show ?thesis by (simp add: json_str_def carriage_return_def)
qed

lemma show_int_no_return: "carriage_return \<notin> set (show_int i)"
proof -
  have "\<not> is_digit carriage_return" by (simp add: is_digit_def digits_def carriage_return_def)
  then have "carriage_return \<notin> set (show_nat n)" for n using show_nat_digits [of n] by (auto simp: list_all_iff)
  then show ?thesis by (simp add: show_int_def carriage_return_def)
qed

lemma bracketed_no_return:
  assumes "\<forall>w \<in> set items. carriage_return \<notin> set w" "l \<noteq> carriage_return" "r \<noteq> carriage_return"
  shows "carriage_return \<notin> set (bracketed l r n items)"
proof -
  have f: "carriage_return \<notin> set (fresh_line m)" for m by (auto simp: fresh_line_def carriage_return_def newline_def)
  have "carriage_return \<notin> set (join sep ws)" if "carriage_return \<notin> set sep" "\<forall>w \<in> set ws. carriage_return \<notin> set w" for sep ws
    using that by (auto simp: join_def split: list.split)
  from this [of "CHR '','' # fresh_line (n + 2)" items] f assms show ?thesis by (auto simp: bracketed_def carriage_return_def)
qed

lemma pretty_no_return: "carriage_return \<notin> set (pretty n v)"
proof (induction v arbitrary: n)
  case (PList xs)
  then show ?case unfolding pretty.simps by (intro bracketed_no_return) (auto simp: carriage_return_def)
next
  case (PDict d)
  have "carriage_return \<notin> set (member_text (n + 2) kv)" if "kv \<in> set d" for kv
  proof -
    have "snd kv \<in> Basic_BNFs.snds kv" by (cases kv) simp
    then have "carriage_return \<notin> set (pretty (n + 2) (snd kv))" by (rule PDict [OF that])
    then show ?thesis using json_str_no_return by (simp add: member_text_def carriage_return_def)
  qed
  then show ?case unfolding pretty_PDict by (intro bracketed_no_return) (auto simp: carriage_return_def)
next
  case (PInt i)
  then show ?case using show_int_no_return by simp
next
  case (PStr s)
  then show ?case using json_str_no_return by simp
qed (auto simp: carriage_return_def)

lemma task_text_newlines: "universal_newlines (task_text meta body) = task_text meta (universal_newlines body)"
proof -
  have "carriage_return \<notin> set (FENCE @ pretty 0 (PDict meta) @ newline # FENCE)"
    using pretty_no_return [of 0 "PDict meta"] by (auto simp: FENCE_def carriage_return_def newline_def simp del: pretty.simps)
  from universal_newlines_plain [OF this, of body] show ?thesis by (simp add: task_text_def del: pretty.simps)
qed

declare universal_newlines.simps [simp del]

lemma read_task_text: "keys_distinct (PDict meta) \<Longrightarrow> read_task path (task_text meta body) = Inr (tidy (PDict meta), universal_newlines body)"
  unfolding read_task_def task_text_newlines Let_def
  using cut_safe [OF pretty_safe] loads_pretty [of "PDict meta" 0]
  by (simp add: task_text_def starts_with_def FENCE_def del: tidy.simps pretty.simps keys_distinct.simps)

section \<open>Properties\<close>

text \<open>
  Property C11. A task file that was written is read back: the front matter ends where the record ends, whatever
  the record and the body contain, and the record is equal to the one written. The body comes back with its line
  ends as line feeds: a body without carriage returns is the same, and a body that was read from a file
  has none.
\<close>

theorem task_file_roundtrip:
  assumes "keys_distinct (PDict meta)"
  shows "\<exists>v. read_task path (task_text meta body) = Inr (v, universal_newlines body) \<and> py_eq (PDict meta) v \<and>
    (carriage_return \<notin> set body \<longrightarrow> universal_newlines body = body) \<and> carriage_return \<notin> set (universal_newlines body)"
  using read_task_text [OF assms] tidy_equal [OF assms] universal_newlines_id no_return by blast

theorem task_file_roundtrip_witness:
  "\<exists>v. read_task ''AR-0001.md'' (task_text [(''title'', PStr (newline # ''---'' @ [newline])), (''id'', PStr ''AR-0001'')] (FENCE @ ''x'')) = Inr (v, FENCE @ ''x'') \<and>
     py_eq (PDict [(''title'', PStr (newline # ''---'' @ [newline])), (''id'', PStr ''AR-0001'')]) v"
proof -
  have "carriage_return \<notin> set (FENCE @ ''x'')" by (simp add: FENCE_def carriage_return_def newline_def)
  then show ?thesis
    using task_file_roundtrip [of "[(''title'', PStr (newline # ''---'' @ [newline])), (''id'', PStr ''AR-0001'')]" "''AR-0001.md''" "FENCE @ ''x''"]
    by (auto simp del: py_eq.simps)
qed

end
