(* ===== verification/Git_Mutation.thy ===== *)
theory Git_Mutation
  imports Task_Mutation Task_Files
begin

text \<open>
  The mutation of a task through the Git authority, \<open>_mutate_fenced\<close>, \<open>persist_git_mutation\<close> and
  \<open>commit_persisted_mutation\<close> of \<open>src/tools/handoffctl.py\<close>: under the repository lock the transition runs,
  the journals, the task file and the generated views are written, the result is read back and checked,
  and the changed paths are committed. When anything raises before the commit, the paths recorded
  before the mutation are restored.

  The state tree holds the text files, the session and checkpoint journals and the commits made. A step
  of the transaction maps a tree to a tree and a result, since what a failed step wrote stays until it
  is restored.
\<close>

section \<open>The state tree\<close>

record tree =
  t_texts :: "(string \<times> string) list"
  t_journals :: files
  t_commits :: "(string \<times> string list) list"

type_synonym 'a stage = "tree \<Rightarrow> tree \<times> 'a result"

definition lift_result :: "'a result \<Rightarrow> 'a stage" where
  "lift_result r t = (t, r)"

definition andThen :: "'a stage \<Rightarrow> ('a \<Rightarrow> 'b stage) \<Rightarrow> 'b stage" where
  "andThen m f t = (case m t of (t', Inl e) \<Rightarrow> (t', Inl e) | (t', Inr x) \<Rightarrow> f x t')"

definition write_text :: "string \<Rightarrow> string \<Rightarrow> unit stage" where
  "write_text path content t = (t\<lparr>t_texts := AList.update path content (t_texts t)\<rparr>, Inr ())"

definition on_journals :: "(files \<Rightarrow> files result) \<Rightarrow> unit stage" where
  "on_journals f t = (case f (t_journals t) of Inl e \<Rightarrow> (t, Inl e) | Inr j \<Rightarrow> (t\<lparr>t_journals := j\<rparr>, Inr ()))"

text \<open>\<open>TASKS.glob("AR-*.md")\<close>; a record that is not an object is refused here, where the source fails at its first field.\<close>

definition ends_md :: "string \<Rightarrow> bool" where
  "ends_md s = starts_with (rev s) (rev ''.md'')"

definition is_task_file :: "string \<Rightarrow> bool" where
  "is_task_file p = (starts_with p ''tasks/AR-'' \<and> ends_md (drop 9 p) \<and> CHR ''/'' \<notin> set (drop 6 p))"

definition git_task :: "string \<times> string \<Rightarrow> task result" where
  "git_task pc =
     bindE (read_task (fst pc) (snd pc)) (\<lambda>(v, body).
     if is_dict v then Inr (drop 6 (fst pc), dict_of v, body) else Inl (TypeError ''task record is not an object''))"

definition git_tasks :: "(string \<times> string) list \<Rightarrow> task list result" where
  "git_tasks texts = map_result git_task (sort_key fst (filter (\<lambda>pc. is_task_file (fst pc)) texts))"

definition locate :: "(string \<times> string) list \<Rightarrow> string \<Rightarrow> task result" where
  "locate texts task_id = bindE (git_tasks texts) (select_task task_id)"

section \<open>Generated views\<close>

definition is_status_page :: "string \<Rightarrow> bool" where
  "is_status_page p = (starts_with p ''status/STATUS-'' \<and> ends_md (drop 14 p) \<and> CHR ''/'' \<notin> set (drop 7 p))"

definition generated_paths :: "bool \<Rightarrow> (string \<times> string) list \<Rightarrow> string list" where
  "generated_paths status_view texts =
     [''CURRENT.md'', ''PROJECT_STATE.md'', ''WORKTREES.md''] @
     (if status_view then ''STATUS.md'' # sort (filter is_status_page (map fst texts)) else [])"

definition is_status_view :: "string \<Rightarrow> bool" where
  "is_status_view p = (p = ''STATUS.md'' \<or> starts_with p ''status/'')"

text \<open>\<open>write_rendered_task_views\<close>: obsolete status pages are removed, then every view is written.\<close>

definition write_views :: "bool \<Rightarrow> (string \<times> string) list \<Rightarrow> unit stage" where
  "write_views status_view views t =
     (let obsolete = (\<lambda>p. p \<in> set (generated_paths status_view (t_texts t)) \<and> p \<notin> fst ` set views \<and> is_status_view p) in
      (t\<lparr>t_texts := fold (\<lambda>(p, content). AList.update p content) views (filter (\<lambda>pc. \<not> obsolete (fst pc)) (t_texts t))\<rparr>, Inr ()))"

section \<open>Snapshots\<close>

text \<open>\<open>path.read_text() if path.exists() else None\<close>.\<close>

definition text_of :: "tree \<Rightarrow> string \<Rightarrow> string option" where
  "text_of t p = map_option universal_newlines (map_of (t_texts t) p)"

record snapshot =
  b_texts :: "(string \<times> string option) list"
  b_journals :: "(string \<times> history_file) list"

definition restore_text :: "string \<times> string option \<Rightarrow> (string \<times> string) list \<Rightarrow> (string \<times> string) list" where
  "restore_text po texts = (case snd po of None \<Rightarrow> AList.delete (fst po) texts | Some content \<Rightarrow> AList.update (fst po) content texts)"

definition restore_paths :: "snapshot \<Rightarrow> tree \<Rightarrow> tree" where
  "restore_paths before t =
     t\<lparr>t_texts := fold restore_text (b_texts before) (t_texts t), t_journals := fold (\<lambda>(p, old) j. j(p := old)) (b_journals before) (t_journals t)\<rparr>"

definition changed_paths :: "snapshot \<Rightarrow> tree \<Rightarrow> string list" where
  "changed_paths before t =
     map fst (filter (\<lambda>(p, old). text_of t p \<noteq> old) (b_texts before)) @
     map fst (filter (\<lambda>(p, old). t_journals t p \<noteq> old) (b_journals before))"

definition add_generated :: "bool \<Rightarrow> tree \<Rightarrow> snapshot \<Rightarrow> snapshot" where
  "add_generated status_view t before =
     before\<lparr>b_texts := b_texts before @
       map (\<lambda>p. (p, None)) (filter (\<lambda>p. p \<notin> fst ` set (b_texts before)) (generated_paths status_view (t_texts t)))\<rparr>"

section \<open>One call\<close>

text \<open>\<open>g_render\<close> renders the views of a board; \<open>g_settings\<close> tells whether the project settings were stable meanwhile;
  \<open>g_content\<close> is \<open>generated_view_errors\<close> and \<open>introduced_content_errors\<close> of a tree. \<open>g_commit message paths\<close> is
  \<open>git commit\<close>: whether it made a commit. \<open>g_ready\<close> is the lock, the backend selection and the replica
  synchronisation before a write, \<open>g_preflight\<close> the view and cleanliness check before a promotion, \<open>g_oid\<close> the
  identifier of the commit, \<open>g_push\<close> the push to the replica, \<open>g_lstat\<close> whether a path is a regular file and its size.\<close>

record git_call =
  g_checker :: checker
  g_policy0 :: policy_source
  g_at :: string
  g_status_view :: bool
  g_ready :: "unit result"
  g_preflight :: "unit result"
  g_render :: "task list \<Rightarrow> (string \<times> string) list result"
  g_settings :: "unit result"
  g_content :: "tree \<Rightarrow> task list \<Rightarrow> string list result"
  g_commit :: "string \<Rightarrow> string list \<Rightarrow> tree \<Rightarrow> bool result"
  g_oid :: "string result"
  g_push :: "unit result"
  g_lstat :: "string \<Rightarrow> (bool \<times> nat) option"

text \<open>The artifact that a binding names is committed along.\<close>

definition binding_artifact_path :: "git_call \<Rightarrow> namespace \<Rightarrow> string \<Rightarrow> string option" where
  "binding_artifact_path c args kind =
     (case dget args (if kind = ''bind-spec'' then ''spec_ref'' else ''envelope_ref'') of
        PStr reference \<Rightarrow>
          (if reference = [] \<or> hd reference = CHR ''/'' \<or> ''..'' \<in> set (path_parts reference) then None
           else case g_lstat c (join ''/'' (path_parts reference)) of
             Some (True, n) \<Rightarrow> if n > 4194304 then None else Some (join ''/'' (path_parts reference))
           | _ \<Rightarrow> None)
      | _ \<Rightarrow> None)"

definition mutation_errors :: "git_call \<Rightarrow> evidence_policy \<Rightarrow> string \<Rightarrow> string \<Rightarrow> tree \<Rightarrow> string list result" where
  "mutation_errors c policy kind name t =
     bindE (git_tasks (t_texts t)) (\<lambda>tasks.
     case filter (\<lambda>u. fst u = name) tasks of
       [selected] \<Rightarrow>
         bindE (basic_task_errors (g_checker c) name (task_meta selected) (Some policy) (kind \<noteq> ''repair-predicate-ledger'')) (\<lambda>basic.
         bindE (claim_errors (w_rt (ck_world (g_checker c))) (task_meta selected) (\<lambda>_. [])) (\<lambda>(claim, _).
         bindE (mutation_global_errors tasks) (\<lambda>board.
         bindE (g_content c t tasks) (\<lambda>views.
         Inr (basic @ claim @ board @ views)))))
     | _ \<Rightarrow> Inr [name @ '': mutation target is not unique''])"

definition raise_errors :: "string list \<Rightarrow> unit result" where
  "raise_errors errors = raise_if (errors \<noteq> []) (RuntimeError (join [newline] errors))"

definition append_given :: "(files \<Rightarrow> meta \<Rightarrow> files result) \<Rightarrow> meta option \<Rightarrow> unit stage" where
  "append_given store r = (case r of None \<Rightarrow> lift_result (Inr ()) | Some entry \<Rightarrow> on_journals (\<lambda>j. store j entry))"

text \<open>The writes and checks of \<open>persist_git_mutation\<close> up to the commit.\<close>

definition write_and_check ::
  "git_call \<Rightarrow> string \<Rightarrow> evidence_policy \<Rightarrow> string \<Rightarrow> meta \<Rightarrow> string \<Rightarrow> meta option \<Rightarrow> meta option \<Rightarrow> unit stage" where
  "write_and_check c kind policy name meta body session checkpoint =
     andThen (append_given append_session_record session) (\<lambda>_.
     andThen (append_given append_checkpoint checkpoint) (\<lambda>_.
     andThen (write_text (''tasks/'' @ name) (task_text meta body)) (\<lambda>_.
     andThen (\<lambda>t. (t, bindE (git_tasks (t_texts t)) (g_render c))) (\<lambda>views.
     andThen (lift_result (g_settings c)) (\<lambda>_.
     andThen (write_views (g_status_view c) views) (\<lambda>_.
     andThen (lift_result (require_policy_unchanged (w_policy (ck_world (g_checker c))) policy)) (\<lambda>_.
     (\<lambda>t. (t, bindE (mutation_errors c policy kind name t) raise_errors)))))))))"

definition commit_paths :: "git_call \<Rightarrow> string \<Rightarrow> string list \<Rightarrow> bool stage" where
  "commit_paths c message paths t =
     (if paths = [] then (t, Inr False)
      else case g_commit c message paths t of
        Inl e \<Rightarrow> (t, Inl e)
      | Inr made \<Rightarrow> (if made then t\<lparr>t_commits := t_commits t @ [(message, paths)]\<rparr> else t, Inr made))"

definition commit_message :: "namespace \<Rightarrow> string \<Rightarrow> string option \<Rightarrow> string" where
  "commit_message args kind receipt_id =
     ''chore(state): '' @ kind @ '' '' @ arg_str args ''task'' @
     (case receipt_id of None \<Rightarrow> [] | Some r \<Rightarrow> [newline, newline] @ ''Handoffctl-Receipt: '' @ r)"

definition commit_persisted :: "git_call \<Rightarrow> namespace \<Rightarrow> string \<Rightarrow> string option \<Rightarrow> string option \<Rightarrow> snapshot \<Rightarrow> bool stage" where
  "commit_persisted c args kind receipt_id extra before t =
     (let changed = changed_paths before t;
          retained = filter (\<lambda>p. map_of (t_texts t) p \<noteq> None \<and> p \<notin> set changed) (case extra of None \<Rightarrow> [] | Some p \<Rightarrow> [p]) in
      andThen (commit_paths c (commit_message args kind receipt_id) (changed @ retained)) (\<lambda>committed.
      if receipt_id = None then lift_result (Inr committed)
      else if \<not> committed then lift_result (Inl (RuntimeError ''fast receipt mutation produced no signed commit''))
      else andThen (lift_result (g_oid c)) (\<lambda>_. lift_result (Inr committed))) t)"

definition persist_git_mutation ::
  "git_call \<Rightarrow> namespace \<Rightarrow> string \<Rightarrow> string option \<Rightarrow> evidence_policy \<Rightarrow> string \<Rightarrow> meta \<Rightarrow> string \<Rightarrow> meta option \<Rightarrow> meta option \<Rightarrow>
     string option \<Rightarrow> snapshot \<Rightarrow> unit stage" where
  "persist_git_mutation c args kind receipt_id policy name meta body session checkpoint extra before t =
     (case write_and_check c kind policy name meta body session checkpoint t of
        (t1, Inl e) \<Rightarrow> (restore_paths before t1, Inl e)
      | (t1, Inr _) \<Rightarrow>
          (let before1 = add_generated (g_status_view c) t1 before in
           case commit_persisted c args kind receipt_id extra before1 t1 of
             (t2, Inl e) \<Rightarrow> (restore_paths before1 t2, Inl e)
           | (t2, Inr committed) \<Rightarrow>
               (case (if receipt_id = None then g_push c else Inr ()) of
                  Inr _ \<Rightarrow> (t2, Inr ())
                | Inl e \<Rightarrow> (if committed then t2 else restore_paths before1 t2, Inl e))))"

definition git_session_record :: "namespace \<Rightarrow> string \<Rightarrow> meta \<Rightarrow> meta option result" where
  "git_session_record args kind meta =
     (if \<not> records_session args kind then Inr None
      else
        bindE (ditem meta ''updated_at'') (\<lambda>at.
        bindE (catchE (build_session_record meta (session_trigger args kind) (py_str at))
          (\<lambda>e. if is_value_error e then Inl (RuntimeError (''state file exceeds 200 KiB: '' @ exc_message e)) else Inl e)) (\<lambda>r.
        Inr (Some r))))"

definition git_checkpoint_record :: "namespace \<Rightarrow> string \<Rightarrow> meta \<Rightarrow> string \<Rightarrow> string \<Rightarrow> meta option result" where
  "git_checkpoint_record args kind meta body at =
     (if kind \<noteq> ''checkpoint'' then Inr None
      else bindE (build_checkpoint meta body (py_str (dget args ''source_commit'')) at) (\<lambda>r. Inr (Some r)))"

text \<open>The snapshot of a journal, when a record goes to it.\<close>

definition journal_before :: "(string \<Rightarrow> string result) \<Rightarrow> meta option \<Rightarrow> string \<Rightarrow> tree \<Rightarrow> (string \<times> history_file) list result" where
  "journal_before path_of r task_id t =
     (if r = None then Inr [] else bindE (path_of task_id) (\<lambda>p. Inr [(p, t_journals t p)]))"

text \<open>What a call prepares before it writes: the file name, the new record and body, the journal records, the snapshot.\<close>

record prepared =
  p_policy :: evidence_policy
  p_name :: string
  p_meta :: meta
  p_body :: string
  p_session :: "meta option"
  p_checkpoint :: "meta option"
  p_artifact :: "string option"
  p_before :: snapshot

definition prepare_git :: "git_call \<Rightarrow> namespace \<Rightarrow> string \<Rightarrow> evidence_policy option \<Rightarrow> tree \<Rightarrow> prepared result" where
  "prepare_git c args kind policy t =
     bindE (g_ready c) (\<lambda>_.
     bindE (select_policy (g_policy0 c) policy) (\<lambda>p.
     bindE (locate (t_texts t) (arg_str args ''task'')) (\<lambda>(name, meta, body).
     bindE (if kind \<in> {''promote'', ''resume'', ''unblock''} then g_preflight c else Inr ()) (\<lambda>_.
     bindE (git_tasks (t_texts t)) (\<lambda>tasks.
     bindE (apply_transition (ck_world (g_checker c)) args kind meta tasks (Some p)) (\<lambda>(meta1, msg).
     bindE (ditem meta1 ''task_revision'') (\<lambda>v.
     bindE (py_add v 1) (\<lambda>revision.
     let meta2 = dset (dset meta1 ''task_revision'' revision) ''updated_at'' (PStr (g_at c)) in
     bindE (git_session_record args kind meta2) (\<lambda>session.
     bindE (journal_before session_path session (id_of meta2) t) (\<lambda>sessions.
     bindE (git_checkpoint_record args kind meta2 body (g_at c)) (\<lambda>checkpoint.
     bindE (journal_before checkpoint_path checkpoint (id_of meta2) t) (\<lambda>checkpoints.
     Inr \<lparr>p_policy = p, p_name = name, p_meta = meta2, p_body = transition_note body msg (g_at c), p_session = session, p_checkpoint = checkpoint, p_artifact = binding_artifact_path c args kind,
       p_before = \<lparr>b_texts = (''tasks/'' @ name, text_of t (''tasks/'' @ name)) #
           map (\<lambda>q. (q, text_of t q)) (generated_paths (g_status_view c) (t_texts t)),
         b_journals = sessions @ checkpoints\<rparr>\<rparr>))))))))))))"

definition mutate_git :: "git_call \<Rightarrow> namespace \<Rightarrow> string \<Rightarrow> evidence_policy option \<Rightarrow> tree \<Rightarrow> tree \<times> string option result" where
  "mutate_git c args kind policy t =
     (case fast_receipt_id args kind of
        Inl e \<Rightarrow> (t, Inl e)
      | Inr receipt_id \<Rightarrow>
          (case prepare_git c args kind policy t of
             Inl (IdempotentMutationError m) \<Rightarrow> (t, Inr (Some m))
           | Inl e \<Rightarrow> (t, Inl e)
           | Inr p \<Rightarrow>
               (case persist_git_mutation c args kind receipt_id (p_policy p) (p_name p) (p_meta p) (p_body p) (p_session p) (p_checkpoint p) (p_artifact p) (p_before p) t of
                  (t', Inl e) \<Rightarrow> (t', Inl e)
                | (t', Inr _) \<Rightarrow> (t', Inr None))))"

section \<open>Steps\<close>

lemma andThen_Inr: "andThen m f t = (t', Inr y) \<longleftrightarrow> (\<exists>t1 x. m t = (t1, Inr x) \<and> f x t1 = (t', Inr y))"
  by (auto simp: andThen_def split: prod.splits sum.splits)

lemma lift_result_Inr [simp]: "lift_result r t = (t', Inr x) \<longleftrightarrow> t' = t \<and> r = Inr x"
  by (auto simp: lift_result_def)

text \<open>A stage that keeps an assertion, whether it returns or raises.\<close>

definition keeps :: "(tree \<Rightarrow> bool) \<Rightarrow> 'a stage \<Rightarrow> bool" where
  "keeps P m = (\<forall>t. P t \<longrightarrow> P (fst (m t)))"

lemma keepsD: "keeps P m \<Longrightarrow> m t = (t', r) \<Longrightarrow> P t \<Longrightarrow> P t'"
  by (auto simp: keeps_def dest: spec [of _ t])

lemma keeps_lift [intro]: "keeps P (lift_result r)" "keeps P (\<lambda>t. (t, f t))"
  by (simp_all add: keeps_def lift_result_def)

lemma keeps_andThen: "keeps P m \<Longrightarrow> (\<And>t t' x. m t = (t', Inr x) \<Longrightarrow> keeps P (f x)) \<Longrightarrow> keeps P (andThen m f)"
  unfolding keeps_def andThen_def by (fastforce split: prod.split sum.split)

text \<open>What may differ from the tree before the mutation: the file of the task, views and the journals \<open>js\<close>.\<close>

definition touched :: "tree \<Rightarrow> string \<Rightarrow> string set \<Rightarrow> tree \<Rightarrow> bool" where
  "touched t0 path js t \<longleftrightarrow>
     distinct (map fst (t_texts t)) \<and> t_commits t = t_commits t0 \<and>
     (\<forall>p. starts_with p ''tasks/'' \<and> p \<noteq> path \<longrightarrow> map_of (t_texts t) p = map_of (t_texts t0) p) \<and>
     (\<forall>j. j \<notin> js \<longrightarrow> t_journals t j = t_journals t0 j)"

lemma touched_start: "distinct (map fst (t_texts t0)) \<Longrightarrow> touched t0 path js t0"
  by (simp add: touched_def)

lemma keeps_write_text [intro]: "keeps (touched t0 path js) (write_text path content)"
  by (auto simp: keeps_def write_text_def touched_def update_conv' distinct_update)

lemma keeps_append [intro]:
  assumes "\<And>j j'. store j entry = Inr j' \<Longrightarrow> \<exists>v. j' = j(f := v)" "f \<in> js"
  shows "keeps (touched t0 path js) (on_journals (\<lambda>j. store j entry))"
  using assms by (fastforce simp: keeps_def on_journals_def touched_def split: sum.split)

lemma map_of_filter_key: "map_of (filter (\<lambda>pc. P (fst pc)) xs) p = (if P p then map_of xs p else None)"
  by (induction xs) auto

lemma fold_update:
  "p \<notin> fst ` set views \<Longrightarrow> map_of (fold (\<lambda>(q, content). AList.update q content) views texts) p = map_of texts p"
  "distinct (map fst texts) \<Longrightarrow> distinct (map fst (fold (\<lambda>(q, content). AList.update q content) views texts))"
  by (induction views arbitrary: texts) (auto simp: update_conv' distinct_update)

lemma distinct_filter_key: "distinct (map fst xs) \<Longrightarrow> distinct (map fst (filter P xs))"
  by (auto simp: distinct_map intro: inj_on_subset)

lemma write_views_texts:
  assumes "starts_with p ''tasks/''" "p \<notin> fst ` set views"
  shows "map_of (t_texts (fst (write_views sv views t))) p = map_of (t_texts t) p"
proof -
  have "\<not> is_status_view p" using assms(1) by (cases p) (auto simp: is_status_view_def starts_with_def)
  then show ?thesis
    using assms(2) map_of_filter_key [of "\<lambda>q. \<not> (q \<in> set (generated_paths sv (t_texts t)) \<and> q \<notin> fst ` set views \<and> is_status_view q)" "t_texts t" p]
    by (simp add: write_views_def fold_update(1))
qed

lemma keeps_views:
  assumes "\<forall>p \<in> fst ` set views. \<not> starts_with p ''tasks/''"
  shows "keeps (touched t0 path js) (write_views sv views)"
  unfolding keeps_def
proof (intro allI impI)
  fix t assume t: "touched t0 path js t"
  have "distinct (map fst (t_texts (fst (write_views sv views t))))"
    using t by (simp add: write_views_def touched_def fold_update(2) distinct_filter_key)
  moreover have "map_of (t_texts (fst (write_views sv views t))) p = map_of (t_texts t) p" if "starts_with p ''tasks/''" for p
    using that assms by (intro write_views_texts) auto
  moreover have "t_journals (fst (write_views sv views t)) = t_journals t" "t_commits (fst (write_views sv views t)) = t_commits t"
    by (simp_all add: write_views_def)
  ultimately show "touched t0 path js (fst (write_views sv views t))" using t by (auto simp: touched_def)
qed

text \<open>The rendered views are \<open>CURRENT.md\<close>, \<open>STATUS.md\<close> and the status pages: none is a task file.\<close>

definition views_apart :: "git_call \<Rightarrow> bool" where
  "views_apart c = (\<forall>tasks views. g_render c tasks = Inr views \<longrightarrow> (\<forall>p \<in> fst ` set views. \<not> starts_with p ''tasks/''))"

lemma rendered_apart:
  "views_apart c \<Longrightarrow> (t, bindE (git_tasks (t_texts t)) (g_render c)) = (t', Inr views) \<Longrightarrow> \<forall>p \<in> fst ` set views. \<not> starts_with p ''tasks/''"
  unfolding views_apart_def by (auto simp: bindE_Inr)

lemma keeps_append_given:
  assumes "\<And>entry j j'. r = Some entry \<Longrightarrow> store j entry = Inr j' \<Longrightarrow> \<exists>f v. f \<in> js \<and> j' = j(f := v)"
  shows "keeps (touched t0 path js) (append_given store r)"
proof (cases r)
  case None
  then show ?thesis by (simp add: append_given_def keeps_lift)
next
  case (Some entry)
  have "touched t0 path js (fst (on_journals (\<lambda>j. store j entry) t))" if t: "touched t0 path js t" for t
  proof (cases "store (t_journals t) entry")
    case (Inr j)
    then obtain f v where "f \<in> js" "j = (t_journals t)(f := v)" using assms Some by blast
    then show ?thesis using t Inr by (auto simp: on_journals_def touched_def)
  qed (use t in \<open>simp add: on_journals_def\<close>)
  then show ?thesis using Some by (simp add: append_given_def keeps_def)
qed

text \<open>The journal records that a call stores go to the journals \<open>js\<close>.\<close>

definition journals_cover :: "meta option \<Rightarrow> meta option \<Rightarrow> string set \<Rightarrow> bool" where
  "journals_cover session checkpoint js \<longleftrightarrow>
     (\<forall>r. session = Some r \<longrightarrow> ''sessions/'' @ session_task r @ ''.jsonl'' \<in> js) \<and>
     (\<forall>r. checkpoint = Some r \<longrightarrow> ''checkpoints/'' @ checkpoint_task r @ ''.jsonl'' \<in> js)"

lemma keeps_write_and_check:
  assumes "views_apart c" "journals_cover session checkpoint js"
  shows "keeps (touched t0 (''tasks/'' @ name) js) (write_and_check c kind policy name meta body session checkpoint)"
proof -
  have s: "keeps (touched t0 (''tasks/'' @ name) js) (append_given append_session_record session)"
    using assms(2) by (intro keeps_append_given) (auto simp: append_session_Inr journals_cover_def)
  have k: "keeps (touched t0 (''tasks/'' @ name) js) (append_given append_checkpoint checkpoint)"
    using assms(2) by (intro keeps_append_given) (auto simp: append_checkpoint_Inr journals_cover_def)
  show ?thesis
    unfolding write_and_check_def
    by (intro keeps_andThen s k keeps_write_text keeps_lift keeps_views) (rule rendered_apart [OF assms(1)])
qed

lemma write_and_check_Inr:
  assumes "write_and_check c kind policy name meta body session checkpoint t = (t', Inr u)" "views_apart c"
  shows "map_of (t_texts t') (''tasks/'' @ name) = Some (task_text meta body)" "mutation_errors c policy kind name t' = Inr []"
proof -
  obtain t1 t2 views where w: "write_text (''tasks/'' @ name) (task_text meta body) t1 = (t2, Inr ())"
    "bindE (git_tasks (t_texts t2)) (g_render c) = Inr views" "write_views (g_status_view c) views t2 = (t', Inr ())"
    "bindE (mutation_errors c policy kind name t') raise_errors = Inr u"
    using assms(1) unfolding write_and_check_def andThen_Inr by auto
  have "map_of (t_texts t2) (''tasks/'' @ name) = Some (task_text meta body)" using w(1) by (auto simp: write_text_def update_conv')
  moreover have "starts_with (''tasks/'' @ name) ''tasks/''" by (simp add: starts_with_def)
  then have "''tasks/'' @ name \<notin> fst ` set views" using rendered_apart [OF assms(2), of t2 t2 views] w(2) by blast
  ultimately show "map_of (t_texts t') (''tasks/'' @ name) = Some (task_text meta body)"
    using write_views_texts [of "''tasks/'' @ name" views "g_status_view c" t2] w(3) by (simp add: starts_with_def)
  show "mutation_errors c policy kind name t' = Inr []" using w(4) by (auto simp: bindE_Inr raise_errors_def raise_if_Inr)
qed

section \<open>Restoring\<close>

lemma restore_text_map_of: "map_of (restore_text po texts) p = (if p = fst po then snd po else map_of texts p)"
  by (auto simp: restore_text_def update_conv' delete_conv' split: option.split)

lemma restore_text_distinct: "distinct (map fst texts) \<Longrightarrow> distinct (map fst (restore_text po texts))"
  by (auto simp: restore_text_def distinct_update distinct_delete split: option.split)

lemma restore_fold:
  "p \<notin> fst ` set bs \<Longrightarrow> map_of (fold restore_text bs texts) p = map_of texts p"
  "distinct (map fst texts) \<Longrightarrow> distinct (map fst (fold restore_text bs texts))"
  by (induction bs arbitrary: texts) (auto simp: restore_text_map_of restore_text_distinct)

lemma restore_journals:
  "\<forall>(p, old) \<in> set bs. old = j0 p \<Longrightarrow> \<forall>p. p \<notin> fst ` set bs \<longrightarrow> j p = j0 p \<Longrightarrow> fold (\<lambda>(p, old) j. j(p := old)) bs j = j0"
proof (induction bs arbitrary: j)
  case (Cons b bs)
  then show ?case by (cases b) (auto intro!: Cons.IH)
qed auto

text \<open>A snapshot that holds what the tree had: the task file, views, and the journals.\<close>

definition snapshot_of :: "tree \<Rightarrow> string \<Rightarrow> snapshot \<Rightarrow> bool" where
  "snapshot_of t0 path before \<longleftrightarrow>
     (\<exists>rest. b_texts before = (path, text_of t0 path) # rest \<and> (\<forall>p \<in> fst ` set rest. \<not> starts_with p ''tasks/'')) \<and>
     (\<forall>(p, old) \<in> set (b_journals before). old = t_journals t0 p)"

lemma restored:
  assumes "snapshot_of t0 path before" "starts_with path ''tasks/''" "touched t0 path (fst ` set (b_journals before)) t"
  shows "distinct (map fst (t_texts (restore_paths before t)))" "t_journals (restore_paths before t) = t_journals t0"
    "starts_with p ''tasks/'' \<Longrightarrow> text_of (restore_paths before t) p = text_of t0 p"
proof -
  obtain rest where r: "b_texts before = (path, text_of t0 path) # rest" "\<forall>p \<in> fst ` set rest. \<not> starts_with p ''tasks/''"
    using assms(1) by (auto simp: snapshot_of_def)
  show "distinct (map fst (t_texts (restore_paths before t)))" using assms(3) by (simp add: restore_paths_def restore_fold(2) touched_def)
  show "t_journals (restore_paths before t) = t_journals t0"
    using assms(1,3) restore_journals [of "b_journals before" "t_journals t0" "t_journals t"] by (simp add: restore_paths_def snapshot_of_def touched_def)
  show "text_of (restore_paths before t) p = text_of t0 p" if p: "starts_with p ''tasks/''"
  proof -
    have "map_of (t_texts (restore_paths before t)) p = map_of (restore_text (path, text_of t0 path) (t_texts t)) p"
      using p r restore_fold(1) [of p rest] by (auto simp: restore_paths_def)
    then show ?thesis using p assms(3) by (auto simp: restore_text_map_of touched_def text_of_def option.map_comp o_def)
  qed
qed

lemma generated_apart: "p \<in> set (generated_paths sv texts) \<Longrightarrow> \<not> starts_with p ''tasks/''"
  by (cases p) (auto simp: generated_paths_def is_status_page_def starts_with_def split: if_splits)

lemma snapshot_add: "snapshot_of t0 path before \<Longrightarrow> snapshot_of t0 path (add_generated sv t before)"
  using generated_apart by (fastforce simp: snapshot_of_def add_generated_def)

lemma starts_with_prefix: "starts_with p (a @ b) \<Longrightarrow> starts_with p a"
proof -
  assume "starts_with p (a @ b)"
  moreover have "take (length a) p = take (length a) (take (length (a @ b)) p)" by simp
  ultimately show ?thesis by (simp add: starts_with_def)
qed

text \<open>The board is what the reader sees of the files.\<close>

definition as_read :: "(string \<times> string) list \<Rightarrow> (string \<times> string) list" where
  "as_read texts = map (\<lambda>pc. (fst pc, universal_newlines (snd pc))) texts"

lemma as_read_facts:
  "map fst (as_read texts) = map fst texts" "map_of (as_read texts) p = map_option universal_newlines (map_of texts p)"
  by (induction texts) (simp_all add: as_read_def)

lemma git_tasks_as_read: "git_tasks (as_read texts) = git_tasks texts"
proof -
  let ?g = "\<lambda>pc :: string \<times> string. (fst pc, universal_newlines (snd pc))"
  have g: "git_task (?g pc) = git_task pc" for pc unfolding git_task_def fst_conv snd_conv read_task_universal ..
  have "map_result git_task (map ?g xs) = map_result git_task xs" for xs by (induction xs) (simp_all add: g)
  moreover have "sort_key fst (filter (\<lambda>pc. is_task_file (fst pc)) (as_read texts)) = map ?g (sort_key fst (filter (\<lambda>pc. is_task_file (fst pc)) texts))"
    unfolding as_read_def filter_map o_def fst_conv by (rule sort_key_map_key) simp
  ultimately show ?thesis by (simp add: git_tasks_def)
qed

lemma git_tasks_texts:
  assumes "distinct (map fst a)" "distinct (map fst b)" "\<And>p. starts_with p ''tasks/'' \<Longrightarrow> map_of a p = map_of b p"
  shows "git_tasks a = git_tasks b"
proof -
  let ?f = "filter (\<lambda>pc. is_task_file (fst pc))"
  have d: "distinct (map fst (?f a))" "distinct (map fst (?f b))" using assms by (auto intro: distinct_filter_key)
  have "starts_with p ''tasks/''" if "is_task_file p" for p
    using that starts_with_prefix [of p "''tasks/''" "''AR-''"] by (simp add: is_task_file_def)
  then have "map_of (?f a) = map_of (?f b)" using assms(3) by (auto simp: map_of_filter_key)
  then have same: "set (?f a) = set (?f b)" using map_of_inject_set [OF d] by simp
  have k: "distinct (map fst (sort_key fst (?f a)))" "distinct (map fst (sort_key fst (?f b)))" using d unfolding distinct_map distinct_sort set_sort .
  have "inj_on fst (set (?f a))" using d(1) by (simp add: distinct_map)
  then have "sort_key fst (?f a) = sort_key fst (?f b)"
    using same k by (intro map_sorted_distinct_set_unique [of fst]) auto
  then show ?thesis by (simp add: git_tasks_def)
qed

lemma git_tasks_cong:
  assumes "distinct (map fst (t_texts a))" "distinct (map fst (t_texts b))" "\<And>p. starts_with p ''tasks/'' \<Longrightarrow> text_of a p = text_of b p"
  shows "git_tasks (t_texts a) = git_tasks (t_texts b)"
  using assms git_tasks_texts [of "as_read (t_texts a)" "as_read (t_texts b)"] by (simp add: as_read_facts git_tasks_as_read text_of_def)

section \<open>The commit\<close>

lemma commit_persisted_texts:
  "commit_persisted c args kind receipt_id extra before t = (t', r) \<Longrightarrow> t_texts t' = t_texts t \<and> t_journals t' = t_journals t"
  by (auto simp: commit_persisted_def andThen_def commit_paths_def lift_result_def Let_def split: if_split_asm sum.split_asm prod.split_asm)

lemma commit_persisted_commits:
  "commit_persisted c args kind receipt_id extra before t = (t', Inr True) \<Longrightarrow> t_commits t' \<noteq> t_commits t"
  by (auto simp: commit_persisted_def andThen_def commit_paths_def lift_result_def Let_def split: if_split_asm sum.split_asm prod.split_asm)

lemma touched_commit:
  assumes "touched t0 path js t1" "t_texts t2 = t_texts t1" "t_journals t2 = t_journals t1" "t_commits t2 = t_commits t0"
  shows "touched t0 path js t2"
  using assms by (simp add: touched_def)

text \<open>What is left when a mutation raises without a commit.\<close>

definition unharmed :: "tree \<Rightarrow> tree \<Rightarrow> bool" where
  "unharmed t0 t \<longleftrightarrow> t_journals t = t_journals t0 \<and> git_tasks (t_texts t) = git_tasks (t_texts t0)"

lemma restored_unharmed:
  assumes "distinct (map fst (t_texts t0))" "snapshot_of t0 (''tasks/'' @ name) before"
    "touched t0 (''tasks/'' @ name) (fst ` set (b_journals before)) t"
  shows "unharmed t0 (restore_paths before t)"
proof -
  have "starts_with (''tasks/'' @ name) ''tasks/''" by (simp add: starts_with_def)
  note r = restored [OF assms(2) this assms(3)]
  show ?thesis unfolding unharmed_def using r(2) git_tasks_cong [OF r(1) assms(1)] r(3) by blast
qed

lemma persist_Inl:
  assumes "persist_git_mutation c args kind receipt_id policy name meta body session checkpoint extra before t = (t', Inl e)"
    and "t_commits t' = t_commits t" "views_apart c" "distinct (map fst (t_texts t))" "snapshot_of t (''tasks/'' @ name) before"
    "journals_cover session checkpoint (fst ` set (b_journals before))"
  shows "unharmed t t'"
proof -
  obtain t1 r where w: "write_and_check c kind policy name meta body session checkpoint t = (t1, r)" by (cases "write_and_check c kind policy name meta body session checkpoint t")
  have t1: "touched t (''tasks/'' @ name) (fst ` set (b_journals before)) t1"
    using keepsD [OF keeps_write_and_check [OF assms(3,6)] w] touched_start [OF assms(4)] by blast
  have c: "t_commits (restore_paths b u) = t_commits u" for b u by (simp add: restore_paths_def)
  show ?thesis
  proof (cases r)
    case (Inl e')
    then have "t' = restore_paths before t1" using assms(1) w by (simp add: persist_git_mutation_def)
    then show ?thesis using restored_unharmed [OF assms(4,5) t1] by simp
  next
    case (Inr u)
    let ?b = "add_generated (g_status_view c) t1 before"
    have b: "snapshot_of t (''tasks/'' @ name) ?b" "b_journals ?b = b_journals before" using snapshot_add [OF assms(5)] by (simp_all add: add_generated_def)
    obtain t2 q where k: "commit_persisted c args kind receipt_id extra ?b t1 = (t2, q)" by (cases "commit_persisted c args kind receipt_id extra ?b t1")
    have "q \<noteq> Inr True"
      using assms(1,2) w Inr k commit_persisted_commits [of c args kind receipt_id extra ?b t1 t2] t1
      by (auto simp: persist_git_mutation_def Let_def touched_def split: sum.split_asm if_split_asm)
    then have t': "t' = restore_paths ?b t2"
      using assms(1) w Inr k by (auto simp: persist_git_mutation_def Let_def split: sum.split_asm if_split_asm)
    have "touched t (''tasks/'' @ name) (fst ` set (b_journals ?b)) t2"
      using touched_commit [OF t1] commit_persisted_texts [OF k] assms(2) t' c b(2) by simp
    then show ?thesis using restored_unharmed [OF assms(4) b(1)] t' by simp
  qed
qed

lemma persist_Inr:
  assumes "persist_git_mutation c args kind receipt_id policy name meta body session checkpoint extra before t = (t', Inr u)" "views_apart c"
  shows "map_of (t_texts t') (''tasks/'' @ name) = Some (task_text meta body)"
    "\<exists>t1. t_texts t1 = t_texts t' \<and> mutation_errors c policy kind name t1 = Inr []"
proof -
  obtain t1 where w: "write_and_check c kind policy name meta body session checkpoint t = (t1, Inr ())" and k: "t_texts t' = t_texts t1"
    using assms(1) by (auto simp: persist_git_mutation_def Let_def dest!: commit_persisted_texts split: prod.split_asm sum.split_asm if_split_asm)
  note i = write_and_check_Inr [OF w assms(2)]
  show "map_of (t_texts t') (''tasks/'' @ name) = Some (task_text meta body)"
    "\<exists>t1. t_texts t1 = t_texts t' \<and> mutation_errors c policy kind name t1 = Inr []"
    using i k by auto
qed

section \<open>A whole call\<close>

lemma git_session_path:
  assumes "git_session_record args kind meta = Inr (Some r)" "journal_before session_path (Some r) (id_of meta) t = Inr js"
  shows "js = [(''sessions/'' @ session_task r @ ''.jsonl'', t_journals t (''sessions/'' @ session_task r @ ''.jsonl''))]"
proof -
  obtain at where b: "build_session_record meta (session_trigger args kind) at = Inr r" and "dhas meta ''id''"
    using assms(1) by (auto simp: git_session_record_def build_session_record_def bindE_Inr catchE_def ditem_eq split: if_split_asm sum.split_asm)
  then have "id_of meta = session_task r" "is_task_id (session_task r)"
    using build_session_Inr [OF b] session_valid_task [of r] by (auto simp: id_of_def dget_or_def dget_def dhas_def)
  then show ?thesis using assms(2) by (simp add: journal_before_def)
qed

lemma git_checkpoint_path:
  assumes "git_checkpoint_record args kind meta body at = Inr (Some r)" "journal_before checkpoint_path (Some r) (id_of meta) t = Inr js"
  shows "js = [(''checkpoints/'' @ checkpoint_task r @ ''.jsonl'', t_journals t (''checkpoints/'' @ checkpoint_task r @ ''.jsonl''))]"
proof -
  have "checkpoint_task r = id_of meta" "is_task_id (id_of meta)"
    using assms(1) by (auto simp: git_checkpoint_record_def build_checkpoint_def bindE_Inr Let_def raise_if_Inr checkpoint_task_def id_of_def split: if_split_asm)
  then show ?thesis using assms(2) by (simp add: journal_before_def checkpoint_path_def)
qed

lemma journal_before_old: "journal_before path_of r x t = Inr js \<Longrightarrow> \<forall>(p, old) \<in> set js. old = t_journals t p"
  by (auto simp: journal_before_def bindE_Inr split: if_split_asm)

lemma prepare_Inr:
  assumes "prepare_git c args kind policy t = Inr p"
  obtains meta tasks meta1 msg n body where "locate (t_texts t) (arg_str args ''task'') = Inr (p_name p, meta, body)" "git_tasks (t_texts t) = Inr tasks"
    "apply_transition (ck_world (g_checker c)) args kind meta tasks (Some (p_policy p)) = Inr (meta1, msg)"
    "is_int (dget meta1 ''task_revision'')" "n = int_of (dget meta1 ''task_revision'')"
    "p_meta p = dset (dset meta1 ''task_revision'' (PInt (n + 1))) ''updated_at'' (PStr (g_at c))" "p_body p = transition_note body msg (g_at c)"
    "snapshot_of t (''tasks/'' @ p_name p) (p_before p)" "journals_cover (p_session p) (p_checkpoint p) (fst ` set (b_journals (p_before p)))"
proof -
  obtain pol name meta body tasks meta1 msg v revision session sessions checkpoint checkpoints where m: "locate (t_texts t) (arg_str args ''task'') = Inr (name, meta, body)"
    "git_tasks (t_texts t) = Inr tasks" "apply_transition (ck_world (g_checker c)) args kind meta tasks (Some pol) = Inr (meta1, msg)"
    "ditem meta1 ''task_revision'' = Inr v" "py_add v 1 = Inr revision"
    "git_session_record args kind (dset (dset meta1 ''task_revision'' revision) ''updated_at'' (PStr (g_at c))) = Inr session"
    "journal_before session_path session (id_of (dset (dset meta1 ''task_revision'' revision) ''updated_at'' (PStr (g_at c)))) t = Inr sessions"
    "git_checkpoint_record args kind (dset (dset meta1 ''task_revision'' revision) ''updated_at'' (PStr (g_at c))) body (g_at c) = Inr checkpoint"
    "journal_before checkpoint_path checkpoint (id_of (dset (dset meta1 ''task_revision'' revision) ''updated_at'' (PStr (g_at c)))) t = Inr checkpoints"
    "p = \<lparr>p_policy = pol, p_name = name, p_meta = dset (dset meta1 ''task_revision'' revision) ''updated_at'' (PStr (g_at c)), p_body = transition_note body msg (g_at c),
       p_session = session, p_checkpoint = checkpoint, p_artifact = binding_artifact_path c args kind,
       p_before = \<lparr>b_texts = (''tasks/'' @ name, text_of t (''tasks/'' @ name)) #
           map (\<lambda>q. (q, text_of t q)) (generated_paths (g_status_view c) (t_texts t)), b_journals = sessions @ checkpoints\<rparr>\<rparr>"
    using assms unfolding prepare_git_def Let_def by (auto elim!: bindE_elim)
  have rev: "is_int (dget meta1 ''task_revision'')" "revision = PInt (int_of (dget meta1 ''task_revision'') + 1)"
    using m(4,5) by (auto simp: py_add_def dest!: ditem_Inr_dget split: if_split_asm)
  have "snapshot_of t (''tasks/'' @ name) (p_before p)"
    using generated_apart journal_before_old [OF m(7)] journal_before_old [OF m(9)] by (auto simp: snapshot_of_def m(10))
  moreover have "journals_cover session checkpoint (fst ` set (b_journals (p_before p)))"
  proof -
    have "''sessions/'' @ session_task r @ ''.jsonl'' \<in> fst ` set sessions" if "session = Some r" for r
      using git_session_path [OF m(6) [unfolded that] m(7) [unfolded that]] by simp
    moreover have "''checkpoints/'' @ checkpoint_task r @ ''.jsonl'' \<in> fst ` set checkpoints" if "checkpoint = Some r" for r
      using git_checkpoint_path [OF m(8) [unfolded that] m(9) [unfolded that]] by simp
    ultimately show ?thesis by (simp add: journals_cover_def m(10) image_Un)
  qed
  ultimately show ?thesis using that m(1-3,10) rev by simp
qed

lemma prepare_journals:
  assumes "prepare_git c args kind policy t = Inr p"
  obtains meta body js1 js2 where "git_session_record args kind meta = Inr (p_session p)" "git_checkpoint_record args kind meta body (g_at c) = Inr (p_checkpoint p)"
    "journal_before session_path (p_session p) (id_of meta) t = Inr js1" "journal_before checkpoint_path (p_checkpoint p) (id_of meta) t = Inr js2"
    "b_journals (p_before p) = js1 @ js2"
  using assms unfolding prepare_git_def Let_def by (auto elim!: bindE_elim)

lemma mutation_errors_Nil:
  assumes "mutation_errors c policy kind name t = Inr []"
  shows "\<exists>tasks u. git_tasks (t_texts t) = Inr tasks \<and> mutation_global_errors tasks = Inr [] \<and> u \<in> set tasks \<and> fst u = name \<and>
    basic_task_errors (g_checker c) name (task_meta u) (Some policy) (kind \<noteq> ''repair-predicate-ledger'') = Inr [] \<and>
    (\<exists>seen. claim_errors (w_rt (ck_world (g_checker c))) (task_meta u) (\<lambda>_. []) = Inr ([], seen))"
proof -
  obtain tasks u where t: "git_tasks (t_texts t) = Inr tasks" "filter (\<lambda>u. fst u = name) tasks = [u]"
    "basic_task_errors (g_checker c) name (task_meta u) (Some policy) (kind \<noteq> ''repair-predicate-ledger'') = Inr []"
    "\<exists>seen. claim_errors (w_rt (ck_world (g_checker c))) (task_meta u) (\<lambda>_. []) = Inr ([], seen)" "mutation_global_errors tasks = Inr []"
    using assms unfolding mutation_errors_def by (auto elim!: bindE_elim split: list.split_asm)
  have "u \<in> set (filter (\<lambda>u. fst u = name) tasks)" by (simp add: t(2))
  then have "u \<in> set tasks" "fst u = name" by simp_all
  then show ?thesis using t(1,3,4,5) by (intro exI [of _ tasks] exI [of _ u]) blast
qed

section \<open>An example\<close>

text \<open>A planned task is promoted; its record is read back with sorted keys.\<close>

definition planned_file :: meta where
  "planned_file = [(''id'', PStr ''AR-0001''), (''next_action'', PStr ''n''), (''priority'', PStr ''P1''), (''schema_version'', PInt 1), (''status'', PStr ''planned''),
     (''summary'', PStr ''s''), (''task_revision'', PInt 1), (''title'', PStr ''t''), (''updated_at'', PStr ''2029-01-01T00:00:00+00:00'')]"

definition planned_tree :: tree where
  "planned_tree = \<lparr>t_texts = [(''tasks/AR-0001.md'', task_text planned_file ''body'')], t_journals = Map.empty, t_commits = []\<rparr>"

definition promote_git :: git_call where
  "promote_git = \<lparr>g_checker = promote_checker, g_policy0 = PolicyAbsent False, g_at = ''2029-01-01T00:00:00+00:00'', g_status_view = False, g_ready = Inr (),
     g_preflight = Inr (), g_render = (\<lambda>_. Inr [(''CURRENT.md'', ''board'')]), g_settings = Inr (), g_content = (\<lambda>_ _. Inr []),
     g_commit = (\<lambda>_ _ _. Inr True), g_oid = Inr ''c0ffee'', g_push = Inr (), g_lstat = (\<lambda>_. None)\<rparr>"

definition promoted_file :: meta where
  "promoted_file = [(''id'', PStr ''AR-0001''), (''next_action'', PStr ''n''), (''priority'', PStr ''P1''), (''schema_version'', PInt 1), (''status'', PStr ''open''),
     (''summary'', PStr ''s''), (''task_revision'', PInt 2), (''title'', PStr ''t''), (''updated_at'', PStr ''2029-01-01T00:00:00+00:00'')]"

lemma tidy_files: "tidy (PDict planned_file) = PDict planned_file" "tidy (PDict promoted_file) = PDict promoted_file"
  by code_simp+

lemma one_task_file:
  assumes "tidy (PDict m) = PDict m" "keys_distinct (PDict m)"
  shows "git_tasks [(''tasks/AR-0001.md'', task_text m b)] = Inr [(''AR-0001.md'', m, universal_newlines b)]"
    "git_tasks [(''tasks/AR-0001.md'', task_text m b), (''CURRENT.md'', v)] = Inr [(''AR-0001.md'', m, universal_newlines b)]"
proof -
  have "git_task (''tasks/AR-0001.md'', task_text m b) = Inr (''AR-0001.md'', m, universal_newlines b)"
    using read_task_text [OF assms(2)] assms(1) by (simp add: git_task_def)
  moreover have "is_task_file ''tasks/AR-0001.md''" "\<not> is_task_file ''CURRENT.md''" by code_simp+
  ultimately show "git_tasks [(''tasks/AR-0001.md'', task_text m b)] = Inr [(''AR-0001.md'', m, universal_newlines b)]"
    "git_tasks [(''tasks/AR-0001.md'', task_text m b), (''CURRENT.md'', v)] = Inr [(''AR-0001.md'', m, universal_newlines b)]"
    by (simp_all add: git_tasks_def)
qed

lemma files_distinct: "keys_distinct (PDict planned_file)" "keys_distinct (PDict promoted_file)"
  by code_simp+

lemmas planned_board = one_task_file [OF tidy_files(1) files_distinct(1)]
lemmas promoted_board = one_task_file [OF tidy_files(2) files_distinct(2)]

lemma promote_file: "apply_transition (ck_world promote_checker) promote_args ''promote'' planned_file tasks p = Inr (dset planned_file ''status'' (PStr ''open''), ''planning finished'')"
  unfolding transition_moves
  by (simp add: apply_promote_def promote_args_def planned_file_def require_revision_def require_status_def require_unclaimed_def require_dependencies_def pending_dependencies_def
      transition_allowed_def gate_to_runtime_def noted_def arg_str_def note_stripped)

lemma promoted_file_eq:
  "dset (dset (dset planned_file ''status'' (PStr ''open'')) ''task_revision'' (PInt 2)) ''updated_at'' (PStr ''2029-01-01T00:00:00+00:00'') = promoted_file"
  by (simp add: planned_file_def promoted_file_def dset_def)

lemma promoted_same: "dget promoted_file k = dget promoted_meta k" "dget_or promoted_file k v = dget_or promoted_meta k v"
  by (simp_all add: promoted_dget promoted_dget_or promoted_file_def planned_meta_def)

lemma promoted_file_basic: "basic_task_errors promote_checker ''AR-0001.md'' promoted_file p b = Inr []"
proof -
  have "execution_metadata_errors x promoted_file = Inr []" for x
    by (simp add: execution_metadata_errors_def promoted_same promoted_dget promoted_dget_or Let_def planned_meta_def if_given_def drift_metadata_error_def drift_records_def
      assumption_metadata_error_def assumption_records_def retry_metadata_error_def limits_metadata_error_def execution_abandonment_errors_def valid_records_def
      valid_binding_def BINDING_FIELDS_def valid_replacements_def found_error_def)
  then have v: "value_errors promote_checker ''AR-0001.md'' promoted_file = Inr []"
    by (simp add: value_errors_def promoted_same promoted_dget promoted_dget_or planned_meta_def gate_errors_def STATUSES_def PRIORITIES_def bad_revision_def TEXT_FIELDS_def
      short_title_errors_def example_id py_in_def)
  have "reference_errors promote_checker ''AR-0001.md'' promoted_file = Inr []"
    using planned_time by (auto simp: reference_errors_def promoted_same promoted_dget promoted_dget_or planned_meta_def updated_at_bad_def fails_text_def bound_envelope_errors_def)
  moreover have "task_spec_errors root src promoted_file p b = Inr []" for root src
    by (simp add: task_spec_errors_def promoted_file_def dhas_def Let_def)
  moreover have "field_errors ''AR-0001.md'' promoted_file = []" by code_simp
  ultimately show ?thesis using v by (simp add: basic_task_errors_def)
qed

lemma body_plain [simp]: "universal_newlines ''body'' = ''body''"
  by (rule universal_newlines_id) (simp add: carriage_return_def)

lemma promoted_file_checked:
  "mutation_errors promote_git p ''promote'' ''AR-0001.md'' \<lparr>t_texts = [(''tasks/AR-0001.md'', task_text promoted_file b), (''CURRENT.md'', v)], t_journals = j, t_commits = k\<rparr> = Inr []"
proof -
  have "mutation_global_errors [(''AR-0001.md'', promoted_file, b')] = Inr []" for b'
  proof -
    have "graph_errors [(''AR-0001.md'', promoted_file, b')] = []" "hierarchy_errors [(''AR-0001.md'', promoted_file, b')] = []"
      "supersession_errors [(''AR-0001.md'', promoted_file, b')] = Inr []" by code_simp+
    then show ?thesis by (simp add: mutation_global_errors_def global_step_def task_meta_def promoted_file_def)
  qed
  then show ?thesis
    by (simp add: mutation_errors_def promoted_board promote_git_def task_meta_def promoted_file_basic) (simp add: claim_errors_def promoted_file_def)
qed

lemma planned_locate: "locate (t_texts planned_tree) ''AR-0001'' = Inr (''AR-0001.md'', planned_file, ''body'')"
  by (simp add: locate_def planned_tree_def planned_board select_task_def task_meta_def ditem_def) (simp add: planned_file_def)

lemma promote_prepared:
  "prepare_git promote_git promote_args ''promote'' None planned_tree =
     Inr \<lparr>p_policy = DEFAULT_EVIDENCE_POLICY, p_name = ''AR-0001.md'', p_meta = promoted_file, p_body = transition_note ''body'' ''planning finished'' (g_at promote_git),
       p_session = None, p_checkpoint = None, p_artifact = None,
       p_before = \<lparr>b_texts = [(''tasks/AR-0001.md'', Some (task_text planned_file ''body'')), (''CURRENT.md'', None), (''PROJECT_STATE.md'', None), (''WORKTREES.md'', None)], b_journals = []\<rparr>\<rparr>"
proof -
  have v: "ditem planned_file ''task_revision'' = Inr (PInt 1)" by (simp add: planned_file_def ditem_def)
  have a: "binding_artifact_path promote_git promote_args ''promote'' = None" by (simp add: binding_artifact_path_def promote_args_def)
  have t: "git_tasks (t_texts planned_tree) = Inr [(''AR-0001.md'', planned_file, ''body'')]" by (simp add: planned_tree_def planned_board)
  have c: "g_checker promote_git = promote_checker" "g_policy0 promote_git = PolicyAbsent False" "g_at promote_git = ''2029-01-01T00:00:00+00:00''"
    "g_ready promote_git = Inr ()" "g_preflight promote_git = Inr ()" "g_status_view promote_git = False" by (simp_all add: promote_git_def)
  show ?thesis
    by (simp add: prepare_git_def promote_args_fields planned_locate v a t c promote_policy promote_file Let_def py_add_def promoted_file_eq git_session_record_def records_session_def
      git_checkpoint_record_def journal_before_def generated_paths_def) (simp add: planned_tree_def text_of_def task_text_newlines)
qed

section \<open>Properties\<close>

text \<open>
  Property C3. A Git mutation is all or nothing. When it returns, the task file holds the record of the transition at the
  next revision with the note appended to its body, and the board read back from the files passed the
  board check, the record check and the claim check. When it raises without having made a commit, the
  journals and the board are those from before. A replayed mutation changes nothing.
\<close>

theorem git_mutation_atomic:
  assumes "views_apart c" and "distinct (map fst (t_texts t))" and "mutate_git c args kind policy t = (t', res)"
  shows "case res of
      Inl e \<Rightarrow> t_commits t' = t_commits t \<longrightarrow> t_journals t' = t_journals t \<and> git_tasks (t_texts t') = git_tasks (t_texts t)
    | Inr (Some m) \<Rightarrow> t' = t
    | Inr None \<Rightarrow> \<exists>name meta body tasks p meta1 msg tasks' u.
        locate (t_texts t) (arg_str args ''task'') = Inr (name, meta, body) \<and> git_tasks (t_texts t) = Inr tasks \<and>
        apply_transition (ck_world (g_checker c)) args kind meta tasks (Some p) = Inr (meta1, msg) \<and>
        map_of (t_texts t') (''tasks/'' @ name) =
          Some (task_text (dset (dset meta1 ''task_revision'' (PInt (int_of (dget meta ''task_revision'') + 1))) ''updated_at'' (PStr (g_at c)))
            (transition_note body msg (g_at c))) \<and>
        git_tasks (t_texts t') = Inr tasks' \<and> mutation_global_errors tasks' = Inr [] \<and> u \<in> set tasks' \<and> fst u = name \<and>
        basic_task_errors (g_checker c) name (task_meta u) (Some p) (kind \<noteq> ''repair-predicate-ledger'') = Inr [] \<and>
        (\<exists>seen. claim_errors (w_rt (ck_world (g_checker c))) (task_meta u) (\<lambda>_. []) = Inr ([], seen))"
proof (cases "\<exists>receipt_id p. fast_receipt_id args kind = Inr receipt_id \<and> prepare_git c args kind policy t = Inr p")
  case False
  then have "t' = t \<and> res \<noteq> Inr None"
    using assms(3) by (cases "fast_receipt_id args kind"; cases "prepare_git c args kind policy t") (auto simp: mutate_git_def split: exc.split_asm)
  then show ?thesis by (auto split: sum.split option.split)
next
  case True
  then obtain receipt_id p where p: "fast_receipt_id args kind = Inr receipt_id" "prepare_git c args kind policy t = Inr p" by blast
  obtain t1 r where q: "persist_git_mutation c args kind receipt_id (p_policy p) (p_name p) (p_meta p) (p_body p) (p_session p) (p_checkpoint p) (p_artifact p) (p_before p) t = (t1, r)"
    by fastforce
  obtain meta tasks meta1 msg n body where m: "locate (t_texts t) (arg_str args ''task'') = Inr (p_name p, meta, body)" "git_tasks (t_texts t) = Inr tasks"
    "apply_transition (ck_world (g_checker c)) args kind meta tasks (Some (p_policy p)) = Inr (meta1, msg)"
    "is_int (dget meta1 ''task_revision'')" "n = int_of (dget meta1 ''task_revision'')"
    "p_meta p = dset (dset meta1 ''task_revision'' (PInt (n + 1))) ''updated_at'' (PStr (g_at c))" "p_body p = transition_note body msg (g_at c)"
    "snapshot_of t (''tasks/'' @ p_name p) (p_before p)" "journals_cover (p_session p) (p_checkpoint p) (fst ` set (b_journals (p_before p)))"
    using p(2) by (rule prepare_Inr)
  have n: "n = int_of (dget meta ''task_revision'')" using transition_same_id [OF m(3)] m(5) by (simp add: same_id_def)
  show ?thesis
  proof (cases r)
    case (Inl e)
    then have "t' = t1" "res = Inl e" using assms(3) p q by (auto simp: mutate_git_def)
    then show ?thesis using persist_Inl [OF q [unfolded Inl] _ assms(1,2) m(8,9)] by (auto simp: unharmed_def)
  next
    case (Inr u)
    then have t1: "t' = t1" "res = Inr None" using assms(3) p q by (auto simp: mutate_git_def)
    note w = persist_Inr [OF q [unfolded Inr] assms(1)]
    obtain t2 where t2: "t_texts t2 = t_texts t1" "mutation_errors c (p_policy p) kind (p_name p) t2 = Inr []" using w(2) by blast
    obtain tasks' u where e: "git_tasks (t_texts t') = Inr tasks'" "mutation_global_errors tasks' = Inr []" "u \<in> set tasks'" "fst u = p_name p"
      "basic_task_errors (g_checker c) (p_name p) (task_meta u) (Some (p_policy p)) (kind \<noteq> ''repair-predicate-ledger'') = Inr []"
      "\<exists>seen. claim_errors (w_rt (ck_world (g_checker c))) (task_meta u) (\<lambda>_. []) = Inr ([], seen)"
      using mutation_errors_Nil [OF t2(2)] unfolding t2(1) t1(1) by blast
    show ?thesis unfolding t1(2) sum.case option.case
      using m(1-3) w(1) [unfolded m(6,7) n, folded t1(1)] e
      by (intro exI [of _ "p_name p"] exI [of _ meta] exI [of _ body] exI [of _ tasks] exI [of _ "p_policy p"] exI [of _ meta1] exI [of _ msg]
        exI [of _ tasks'] exI [of _ u] conjI)
  qed
qed

theorem git_mutation_atomic_witness:
  "\<exists>t'. mutate_git promote_git promote_args ''promote'' None planned_tree = (t', Inr None) \<and>
     map_of (t_texts t') ''tasks/AR-0001.md'' = Some (task_text promoted_file (transition_note ''body'' ''planning finished'' ''2029-01-01T00:00:00+00:00'')) \<and>
     length (t_commits t') = 1"
proof -
  let ?b = "transition_note ''body'' ''planning finished'' ''2029-01-01T00:00:00+00:00''"
  have c: "g_at promote_git = ''2029-01-01T00:00:00+00:00''" "g_render promote_git = (\<lambda>_. Inr [(''CURRENT.md'', ''board'')])" "g_settings promote_git = Inr ()"
    "g_commit promote_git = (\<lambda>_ _ _. Inr True)" "g_push promote_git = Inr ()" "g_status_view promote_git = False" "g_checker promote_git = promote_checker"
    "w_policy (ck_world promote_checker) = PolicyAbsent False" by (simp_all add: promote_git_def promote_checker_def example_world_def)
  have w: "write_and_check promote_git ''promote'' DEFAULT_EVIDENCE_POLICY ''AR-0001.md'' promoted_file ?b None None planned_tree =
      (\<lparr>t_texts = [(''tasks/AR-0001.md'', task_text promoted_file ?b), (''CURRENT.md'', ''board'')], t_journals = Map.empty, t_commits = []\<rparr>, Inr ())"
    by (simp add: write_and_check_def append_given_def andThen_def lift_result_def write_text_def planned_tree_def promoted_board c write_views_def promote_policy_kept
      promoted_file_checked raise_errors_def raise_if_def generated_paths_def is_status_view_def starts_with_def)
  have f: "fast_receipt_id promote_args ''promote'' = Inr None" by (simp add: fast_receipt_id_def promote_args_def)
  have "\<exists>t'. mutate_git promote_git promote_args ''promote'' None planned_tree = (t', Inr None) \<and> length (t_commits t') = 1"
    by (simp add: mutate_git_def f promote_prepared persist_git_mutation_def c w Let_def commit_persisted_def andThen_def commit_paths_def lift_result_def add_generated_def
      changed_paths_def generated_paths_def text_of_def)
  then obtain t' where t': "mutate_git promote_git promote_args ''promote'' None planned_tree = (t', Inr None)" "length (t_commits t') = 1" by blast
  have "views_apart promote_git" by (simp add: views_apart_def promote_git_def starts_with_def)
  moreover have "distinct (map fst (t_texts planned_tree))" by (simp add: planned_tree_def)
  moreover have "dget planned_file ''task_revision'' = PInt 1" by (simp add: planned_file_def)
  ultimately have "map_of (t_texts t') ''tasks/AR-0001.md'' = Some (task_text promoted_file ?b)"
    using git_mutation_atomic [OF _ _ t'(1)] by (auto simp: planned_locate promote_args_fields c promote_file promoted_file_eq)
  then show ?thesis using t' by blast
qed

end
