(* ===== verification/Roles.thy ===== *)
theory Roles
  imports Lifecycle Sqlite_Store
begin

text \<open>
  The role store, \<open>src/tools/role_registry.py\<close>, \<open>src/tools/role_assignment.py\<close> and \<open>src/tools/roles.py\<close>: the
  validation of the role registry and of assignments, the assignment of roles by compare-and-swap on the
  revision of the store, and the admission of an owner, which the task handlers ask for.

  A JSON file is absent, unreadable or a value; the order of keys in a written file is immaterial.
  \<open>RoleRegistryError\<close> and \<open>RoleAssignmentError\<close> are value errors here: no other value error is raised where they
  are caught.
\<close>

section \<open>Patterns\<close>

definition word_ok :: "(char \<Rightarrow> bool) \<Rightarrow> (char \<Rightarrow> bool) \<Rightarrow> nat \<Rightarrow> nat \<Rightarrow> string \<Rightarrow> bool" where
  "word_ok first rest lo hi s = (case s of [] \<Rightarrow> False | c # r \<Rightarrow> first c \<and> list_all rest r \<and> lo \<le> length r \<and> length r \<le> hi)"

definition ROLE_ID :: "string \<Rightarrow> bool" where
  "ROLE_ID = word_ok is_lower (\<lambda>c. is_lower c \<or> is_digit c \<or> c = CHR ''-'') 2 63"

definition ACTION :: "string \<Rightarrow> bool" where
  "ACTION = word_ok is_lower (\<lambda>c. is_lower c \<or> is_digit c \<or> c \<in> set ''_.:-'') 1 63"

definition PUBLIC_REF :: "string \<Rightarrow> bool" where "PUBLIC_REF = is_reference ''._/-'' 0 127"

definition PATH_PATTERN :: "string \<Rightarrow> bool" where "PATH_PATTERN s = (1 \<le> length s \<and> length s \<le> 200)"

definition ASSIGNMENT_ID :: "string \<Rightarrow> bool" where "ASSIGNMENT_ID = is_reference ''._-'' 2 63"

definition OWNER_ID :: "string \<Rightarrow> bool" where "OWNER_ID = is_reference ''._:@/-'' 2 127"

text \<open>A template character \<open>9\<close> stands for a digit, \<open>T\<close> for a letter T of either case, \<open>+\<close> for a sign.\<close>

definition template :: "string \<Rightarrow> string \<Rightarrow> bool" where
  "template = list_all2 (\<lambda>p c. if p = CHR ''9'' then is_digit c else if p = CHR ''T'' then c \<in> set ''Tt'' else if p = CHR ''+'' then c \<in> set ''+-'' else c = p)"

definition RFC3339_TIMESTAMP :: "string \<Rightarrow> bool" where
  "RFC3339_TIMESTAMP s =
     (let rest = drop 19 s; fraction = takeWhile is_digit (tl rest);
          zone = (if rest \<noteq> [] \<and> hd rest = CHR ''.'' then drop (length fraction) (tl rest) else rest) in
      template ''9999-99-99T99:99:99'' (take 19 s) \<and> (rest \<noteq> [] \<and> hd rest = CHR ''.'' \<longrightarrow> fraction \<noteq> []) \<and>
      (zone \<in> {''Z'', ''z''} \<or> template ''+99:99'' zone))"

section \<open>The registry\<close>

datatype json_file = Missing | Unreadable | Parsed pyval

definition load_json :: "string \<Rightarrow> json_file \<Rightarrow> meta result" where
  "load_json path f =
     (case f of
        Parsed v \<Rightarrow> if is_dict v then Inr (dict_of v) else Inl (ValueError ''role registry must be an object'')
      | _ \<Rightarrow> Inl (ValueError (''cannot read JSON registry: '' @ path)))"

definition fields_text :: "string list \<Rightarrow> string" where
  "fields_text names = py_repr (PList (map PStr names))"

definition exact_object :: "pyval \<Rightarrow> string list \<Rightarrow> string \<Rightarrow> string list" where
  "exact_object v required label =
     (if \<not> is_dict v then [label @ '' must be an object'']
      else let d = dict_of v; missing = sort (filter (\<lambda>k. \<not> dhas d k) required); unknown = sort (filter (\<lambda>k. k \<notin> set required) (dkeys d)) in
        (if missing \<noteq> [] then [label @ '' is missing required fields: '' @ fields_text missing] else []) @
        (if unknown \<noteq> [] then [label @ '' has unknown fields: '' @ fields_text unknown] else []))"

definition string_errors :: "pyval \<Rightarrow> string \<Rightarrow> (string \<Rightarrow> bool) \<Rightarrow> nat \<Rightarrow> nat \<Rightarrow> string list" where
  "string_errors v label pattern minimum maximum =
     (if \<not> is_str v then [label @ '' must be a string'']
      else if \<not> (minimum \<le> length (str_of v) \<and> length (str_of v) \<le> maximum)
        then [label @ '' length must be between '' @ show_nat minimum @ '' and '' @ show_nat maximum]
      else if \<not> pattern (str_of v) then [label @ '' has an invalid format''] else [])"

definition unique_strings :: "pyval \<Rightarrow> string \<Rightarrow> nat \<Rightarrow> (string \<Rightarrow> bool) \<Rightarrow> string list" where
  "unique_strings v label minimum pattern =
     (if \<not> is_list v \<or> \<not> list_all is_str (list_of v) then [label @ '' must be an array of strings'']
      else if length (list_of v) < minimum then [label @ '' must contain at least '' @ show_nat minimum @ '' items'']
      else if \<not> py_distinct (list_of v) then [label @ '' must not contain duplicates'']
      else concat (map (\<lambda>x. string_errors x label pattern 1 200) (list_of v)))"

definition text_within :: "pyval \<Rightarrow> nat \<Rightarrow> bool" where
  "text_within v maximum = (is_str v \<and> 1 \<le> length (str_of v) \<and> length (str_of v) \<le> maximum)"

definition version_one :: "pyval \<Rightarrow> bool" where
  "version_one v = (is_int v \<and> \<not> is_bool v \<and> int_of v = 1)"

definition role_capability_errors :: "pyval \<Rightarrow> string list" where
  "role_capability_errors v =
     (let d = dict_of v; shape = exact_object v [''capability_id'', ''description'', ''actions'', ''scope''] ''capability'' in
      if shape \<noteq> [] then shape
      else string_errors (dget d ''capability_id'') ''capability_id'' ROLE_ID 3 64 @
        (if \<not> text_within (dget d ''description'') 500 then [''capability description must be a non-empty string of at most 500 characters''] else []) @
        unique_strings (dget d ''actions'') ''capability actions'' 1 ACTION @
        (if \<not> is_str (dget d ''scope'') \<or> str_of (dget d ''scope'') \<notin> {''read'', ''write'', ''admin''} then [''capability scope is invalid''] else []))"

text \<open>The test of the worktree mode hashes the mode: a list or an object raises.\<close>

definition role_policy_errors :: "meta \<Rightarrow> string list result" where
  "role_policy_errors d =
     (let policy = dget d ''tool_policy''; worktree = dget d ''worktree_policy'';
          tools = exact_object policy [''allow'', ''deny''] ''tool_policy'' @
            (if is_dict policy \<and> keys_exact (dict_of policy) [''allow'', ''deny'']
             then unique_strings (dget (dict_of policy) ''allow'') ''tool_policy allow'' 0 ACTION @
               unique_strings (dget (dict_of policy) ''deny'') ''tool_policy deny'' 0 ACTION else []);
          shape = exact_object worktree [''mode'', ''path_patterns''] ''worktree_policy'' in
      if is_dict worktree \<and> keys_exact (dict_of worktree) [''mode'', ''path_patterns''] then
        bindE (hash_not_in (dget (dict_of worktree) ''mode'') [''shared'', ''isolated'', ''none'']) (\<lambda>bad.
        Inr (tools @ shape @ (if bad then [''worktree mode is invalid''] else []) @
          unique_strings (dget (dict_of worktree) ''path_patterns'') ''worktree path_patterns'' 1 PATH_PATTERN))
      else Inr (tools @ shape))"

definition ROLE_FIELDS :: "string list" where
  "ROLE_FIELDS = [''schema_version'', ''role_id'', ''title'', ''summary'', ''capabilities'', ''forbidden_actions'', ''tool_policy'', ''worktree_policy'', ''awq_profile_refs'']"

definition capability_list_errors :: "pyval \<Rightarrow> string list" where
  "capability_list_errors v =
     (if \<not> is_list v \<or> list_of v = [] then [''role capabilities must be a non-empty array'']
      else if list_all is_dict (list_of v) then concat (map role_capability_errors (list_of v))
      else [''role capabilities must contain objects''])"

definition role_errors :: "pyval \<Rightarrow> string list result" where
  "role_errors v =
     (let d = dict_of v; shape = exact_object v ROLE_FIELDS ''role'' in
      if shape \<noteq> [] then Inr shape
      else bindE (role_policy_errors d) (\<lambda>policy.
        Inr ((if \<not> version_one (dget d ''schema_version'') then [''role schema_version must be 1''] else []) @
          string_errors (dget d ''role_id'') ''role_id'' ROLE_ID 3 64 @
          (if \<not> text_within (dget d ''title'') 100 then [''role title must be a non-empty string of at most 100 characters''] else []) @
          (if \<not> text_within (dget d ''summary'') 1000 then [''role summary must be a non-empty string of at most 1000 characters''] else []) @
          capability_list_errors (dget d ''capabilities'') @
          unique_strings (dget d ''forbidden_actions'') ''forbidden_actions'' 0 ACTION @ policy @
          unique_strings (dget d ''awq_profile_refs'') ''awq_profile_refs'' 0 PUBLIC_REF)))"

definition role_list_errors :: "pyval \<Rightarrow> string list result" where
  "role_list_errors v =
     (if \<not> is_list v \<or> list_of v = [] then Inr [''registry roles must be a non-empty array'']
      else if list_all is_dict (list_of v) then bindE (map_result role_errors (list_of v)) (\<lambda>ess. Inr (concat ess))
      else Inr [''registry roles must contain objects''])"

definition registry_schema_errors :: "meta \<Rightarrow> string list result" where
  "registry_schema_errors d =
     (let shape = exact_object (PDict d) [''schema_version'', ''registry_id'', ''roles'', ''default_role'', ''default_awq_profile_refs''] ''role registry'' in
      if shape \<noteq> [] then Inr shape
      else bindE (role_list_errors (dget d ''roles'')) (\<lambda>roles.
        Inr ((if \<not> version_one (dget d ''schema_version'') then [''registry schema_version must be 1''] else []) @
          string_errors (dget d ''registry_id'') ''registry_id'' ROLE_ID 3 64 @ roles @
          string_errors (dget d ''default_role'') ''default_role'' ROLE_ID 3 64 @
          unique_strings (dget d ''default_awq_profile_refs'') ''default_awq_profile_refs'' 1 PUBLIC_REF)))"

definition strings_of :: "pyval \<Rightarrow> string list" where
  "strings_of v = map str_of (list_of v)"

definition field_of :: "string \<Rightarrow> pyval \<Rightarrow> pyval" where
  "field_of k v = dget (dict_of v) k"

definition role_semantic_errors :: "pyval \<Rightarrow> string list" where
  "role_semantic_errors role =
     (let role_id = str_of (field_of ''role_id'' role); capabilities = list_of (field_of ''capabilities'' role);
          forbidden = strings_of (field_of ''forbidden_actions'' role); allowed = strings_of (field_of ''allow'' (field_of ''tool_policy'' role));
          actions = concat (map (\<lambda>c. strings_of (field_of ''actions'' c)) capabilities);
          overlap = sorted_set (filter (\<lambda>a. a \<in> set forbidden) actions) in
      (if role_id \<in> {''administrator'', ''admin-role'', ''root'', ''superuser''} then [''semantic: forbidden role alias: '' @ role_id] else []) @
      (if \<not> py_distinct (map (field_of ''capability_id'') capabilities) then [''semantic: duplicate capability_id in role: '' @ role_id] else []) @
      (if list_ex (\<lambda>a. a \<in> set allowed) forbidden then [''semantic: tool action is both allowed and forbidden: '' @ role_id] else []) @
      (if overlap \<noteq> [] then [''semantic: capability action is forbidden ('' @ role_id @ ''): '' @ fields_text overlap] else []))"

definition registry_semantic_errors :: "meta \<Rightarrow> string list" where
  "registry_semantic_errors d =
     (let roles = list_of (dget d ''roles''); role_ids = map (field_of ''role_id'') roles in
      (if \<not> py_distinct role_ids then [''semantic: role_id values must be unique''] else []) @
      (if \<not> py_in (dget d ''default_role'') role_ids then [''semantic: default_role must reference a declared role''] else []) @
      concat (map role_semantic_errors roles))"

definition registry_errors :: "pyval \<Rightarrow> string list result" where
  "registry_errors v =
     (if \<not> is_dict v then Inr [''role registry must be an object'']
      else bindE (registry_schema_errors (dict_of v)) (\<lambda>errors.
        Inr (if errors \<noteq> [] then map (\<lambda>e. ''schema: '' @ e) errors else registry_semantic_errors (dict_of v))))"

definition validate_registry :: "pyval \<Rightarrow> meta result" where
  "validate_registry v =
     bindE (registry_errors v) (\<lambda>errors.
     bindE (raise_if (errors \<noteq> []) (ValueError (join ''; '' errors))) (\<lambda>_. Inr (dict_of v)))"

section \<open>Assignments\<close>

definition expiry_time :: "string \<Rightarrow> datetime result" where
  "expiry_time s = fromisoformat (replace_char CHR ''z'' ''+00:00'' (replace_char CHR ''Z'' ''+00:00'' s))"

definition assignment_role_error :: "pyval \<Rightarrow> string list" where
  "assignment_role_error role =
     (let d = dict_of role; role_id = dget d ''role_id''; expires_at = dget d ''expires_at'' in
      if \<not> is_dict role \<or> \<not> keys_exact d [''role_id'', ''expires_at''] then [''assignment role fields are malformed'']
      else (if \<not> is_str role_id \<or> \<not> ROLE_ID (str_of role_id) then [''assignment role_id has an invalid format''] else []) @
        (if \<not> is_str expires_at \<or> \<not> RFC3339_TIMESTAMP (str_of expires_at) then [''assignment expires_at must be a timezone-aware date-time'']
         else case expiry_time (str_of expires_at) of
           Inr (Aware _ _) \<Rightarrow> []
         | _ \<Rightarrow> [''assignment expires_at must be a timezone-aware date-time'']))"

definition assignment_role_errors :: "pyval \<Rightarrow> string list" where
  "assignment_role_errors v =
     (if \<not> is_list v \<or> list_of v = [] then [''assignment roles must be a non-empty array'']
      else concat (map assignment_role_error (list_of v)))"

definition evidence_item_errors :: "pyval \<Rightarrow> string list" where
  "evidence_item_errors v =
     (let d = dict_of v in
      if \<not> is_dict v \<or> \<not> keys_exact d [''kind'', ''ref'', ''digest''] then [''authorization evidence fields are malformed'']
      else (if \<not> is_str (dget d ''kind'') \<or> str_of (dget d ''kind'') \<notin> {''review'', ''policy'', ''ticket''} then [''authorization evidence kind is invalid''] else []) @
        (if \<not> is_str (dget d ''ref'') \<or> \<not> PUBLIC_REF (str_of (dget d ''ref'')) then [''authorization evidence ref has an invalid format''] else []) @
        (if \<not> is_str (dget d ''digest'') \<or> \<not> is_digest (str_of (dget d ''digest'')) then [''authorization evidence digest has an invalid format''] else []))"

definition role_evidence_errors :: "pyval \<Rightarrow> string list" where
  "role_evidence_errors v =
     (if \<not> is_list v \<or> list_of v = [] then [''authorization_evidence must be a non-empty array'']
      else concat (map evidence_item_errors (list_of v)))"

definition ASSIGNMENT_FIELDS :: "string list" where
  "ASSIGNMENT_FIELDS = [''schema_version'', ''assignment_id'', ''owner_id'', ''roles'', ''authorization_evidence'']"

definition id_errors :: "meta \<Rightarrow> string \<Rightarrow> (string \<Rightarrow> bool) \<Rightarrow> string list" where
  "id_errors d field pattern =
     (if \<not> is_str (dget d field) \<or> \<not> pattern (str_of (dget d field)) then [field @ '' has an invalid format''] else [])"

definition assignment_schema_errors :: "meta \<Rightarrow> string list" where
  "assignment_schema_errors d =
     (if \<not> keys_exact d ASSIGNMENT_FIELDS then [''role assignment fields are malformed'']
      else (if \<not> version_one (dget d ''schema_version'') then [''assignment schema_version must be 1''] else []) @
        id_errors d ''assignment_id'' ASSIGNMENT_ID @ id_errors d ''owner_id'' OWNER_ID @
        assignment_role_errors (dget d ''roles'') @ role_evidence_errors (dget d ''authorization_evidence''))"

definition expiry_errors :: "datetime \<Rightarrow> pyval \<Rightarrow> string list result" where
  "expiry_errors current item =
     bindE (expiry_time (str_of (field_of ''expires_at'' item))) (\<lambda>expires.
     bindE (dt_le expires current) (\<lambda>expired.
     Inr (if expired then [''semantic: expired role assignment: '' @ str_of (field_of ''role_id'' item)] else [])))"

definition assignment_semantic_errors :: "meta \<Rightarrow> meta \<Rightarrow> datetime \<Rightarrow> bool \<Rightarrow> string list result" where
  "assignment_semantic_errors d registry current check_expiry =
     (let roles = dget registry ''roles''; assignments = list_of (dget d ''roles''); role_ids = map (\<lambda>i. str_of (field_of ''role_id'' i)) assignments in
      if \<not> is_list roles then Inr [''registry: roles are unavailable'']
      else bindE (py_set (PList (map (field_of ''role_id'') (filter is_dict (list_of roles))))) (\<lambda>known.
        let unknown = sorted_set (filter (\<lambda>i. \<not> py_in (PStr i) known) role_ids) in
        bindE (if \<not> check_expiry then Inr []
          else if \<not> is_aware current then Inr [''semantic: validation time must be timezone-aware'']
          else bindE (map_result (expiry_errors current) assignments) (\<lambda>ess. Inr (concat ess))) (\<lambda>expired.
        Inr ((if \<not> distinct role_ids then [''semantic: one owner cannot receive a role more than once''] else []) @
          (if unknown \<noteq> [] then [''semantic: unknown role: '' @ fields_text unknown] else []) @ expired))))"

definition assignment_errors :: "pyval \<Rightarrow> pyval \<Rightarrow> datetime \<Rightarrow> bool \<Rightarrow> string list result" where
  "assignment_errors v registry current check_expiry =
     (if \<not> is_dict v then Inr [''role assignment must be an object'']
      else if assignment_schema_errors (dict_of v) \<noteq> [] then Inr (map (\<lambda>e. ''schema: '' @ e) (assignment_schema_errors (dict_of v)))
      else if \<not> is_dict registry then Inr [''registry: role registry must be an object'']
      else assignment_semantic_errors (dict_of v) (dict_of registry) current check_expiry)"

definition validate_assignment :: "pyval \<Rightarrow> pyval \<Rightarrow> datetime \<Rightarrow> bool \<Rightarrow> meta result" where
  "validate_assignment v registry current check_expiry =
     bindE (assignment_errors v registry current check_expiry) (\<lambda>errors.
     bindE (raise_if (errors \<noteq> []) (ValueError (join ''; '' errors))) (\<lambda>_. Inr (dict_of v)))"

section \<open>The store\<close>

record role_files =
  rf_state_path :: string
  rf_state :: json_file
  rf_registry_path :: string
  rf_registry :: json_file

definition value_to_roles :: "'a result \<Rightarrow> 'a result" where
  "value_to_roles m = catchE m (\<lambda>e. if is_value_error e then Inl (RolesError (exc_message e)) else Inl e)"

definition read_state :: "role_files \<Rightarrow> meta result" where
  "read_state rf =
     (case rf_state rf of
        Missing \<Rightarrow> Inr [(''schema_version'', PInt 1), (''revision'', PInt 0), (''assignments'', PList [])]
      | Unreadable \<Rightarrow> Inl (RolesError (''cannot read role state: '' @ rf_state_path rf))
      | Parsed v \<Rightarrow>
          (let d = dict_of v in
           if \<not> is_dict v \<or> \<not> py_eq (dget d ''schema_version'') (PInt 1) \<or> \<not> is_int (dget d ''revision'') \<or> int_of (dget d ''revision'') < 0 \<or>
             \<not> is_list (dget d ''assignments'')
           then Inl (RolesError ''role state is malformed'') else Inr d))"

definition write_state :: "meta \<Rightarrow> role_files \<Rightarrow> role_files" where
  "write_state d rf = rf\<lparr>rf_state := Parsed (PDict d)\<rparr>"

definition roles_registry :: "role_files \<Rightarrow> meta result" where
  "roles_registry rf = value_to_roles (bindE (load_json (rf_registry_path rf) (rf_registry rf)) (\<lambda>d. validate_registry (PDict d)))"

definition stored :: "meta \<Rightarrow> pyval list" where
  "stored state = list_of (dget state ''assignments'')"

definition revision_of :: "meta \<Rightarrow> int" where
  "revision_of state = int_of (dget state ''revision'')"

definition stale_role_revision :: "meta \<Rightarrow> int \<Rightarrow> exc" where
  "stale_role_revision state expected = RolesError (''stale role revision: expected '' @ show_int expected @ '', current '' @ py_str (dget state ''revision''))"

text \<open>\<open>sorted\<close> by owner, then assignment.\<close>

definition role_assignments :: "int \<Rightarrow> meta \<Rightarrow> meta \<Rightarrow> meta list result" where
  "role_assignments clock state registry =
     bindE (map_result (\<lambda>v. value_to_roles (validate_assignment v (PDict registry) (Aware clock 0) True)) (stored state)) (\<lambda>items.
     Inr (sort_key (\<lambda>i. str_of (dget i ''owner_id'')) (sort_key (\<lambda>i. str_of (dget i ''assignment_id'')) items)))"

record role_request =
  q_assignment_id :: string
  q_owner_id :: string
  q_role_id :: string
  q_expires_at :: string
  q_kind :: string
  q_ref :: string
  q_digest :: string

definition requested :: "role_request \<Rightarrow> meta" where
  "requested q =
     [(''schema_version'', PInt 1), (''assignment_id'', PStr (q_assignment_id q)), (''owner_id'', PStr (q_owner_id q)),
      (''roles'', PList [PDict [(''role_id'', PStr (q_role_id q)), (''expires_at'', PStr (q_expires_at q))]]),
      (''authorization_evidence'', PList [PDict [(''kind'', PStr (q_kind q)), (''ref'', PStr (q_ref q)), (''digest'', PStr (q_digest q))]])]"

definition next_state :: "meta \<Rightarrow> pyval list \<Rightarrow> role_files \<Rightarrow> int \<times> role_files" where
  "next_state state items rf =
     (revision_of state + 1, write_state (dset (dset state ''assignments'' (PList items)) ''revision'' (PInt (revision_of state + 1))) rf)"

definition assign :: "int \<Rightarrow> int \<Rightarrow> role_request \<Rightarrow> role_files \<Rightarrow> (int \<times> role_files) result" where
  "assign clock expected q rf =
     bindE (read_state rf) (\<lambda>state.
     bindE (raise_if (revision_of state \<noteq> expected) (stale_role_revision state expected)) (\<lambda>_.
     bindE (roles_registry rf) (\<lambda>registry.
     bindE (value_to_roles (validate_assignment (PDict (requested q)) (PDict registry) (Aware clock 0) True)) (\<lambda>item.
     bindE (any_result (\<lambda>v. bindE (subscript v ''assignment_id'') (\<lambda>i. Inr (py_eq i (PStr (q_assignment_id q))))) (stored state)) (\<lambda>exists.
     bindE (raise_if exists (RolesError (''assignment already exists: '' @ q_assignment_id q))) (\<lambda>_.
     Inr (next_state state (stored state @ [PDict item]) rf)))))))"

definition remove_assignment :: "int \<Rightarrow> int \<Rightarrow> string \<Rightarrow> role_files \<Rightarrow> (int \<times> role_files) result" where
  "remove_assignment clock expected assignment_id rf =
     bindE (read_state rf) (\<lambda>state.
     bindE (raise_if (revision_of state \<noteq> expected) (stale_role_revision state expected)) (\<lambda>_.
     bindE (roles_registry rf) (\<lambda>registry.
     bindE (for_each (\<lambda>v. bindE (value_to_roles (validate_assignment v (PDict registry) (Aware clock 0) False)) (\<lambda>_. Inr ())) (stored state)) (\<lambda>_.
     let kept = filter (\<lambda>v. \<not> py_eq (field_of ''assignment_id'' v) (PStr assignment_id)) (stored state) in
     bindE (raise_if (length kept = length (stored state)) (RolesError (''assignment not found: '' @ assignment_id))) (\<lambda>_.
     Inr (next_state state kept rf))))))"

definition list_assignments :: "int \<Rightarrow> string option \<Rightarrow> role_files \<Rightarrow> (pyval \<times> meta list) result" where
  "list_assignments clock owner_id rf =
     bindE (read_state rf) (\<lambda>state.
     bindE (roles_registry rf) (\<lambda>registry.
     bindE (role_assignments clock state registry) (\<lambda>items.
     Inr (dget state ''revision'', case owner_id of None \<Rightarrow> items | Some owner \<Rightarrow> filter (\<lambda>i. dget i ''owner_id'' = PStr owner) items))))"

definition check_owner :: "int \<Rightarrow> string \<Rightarrow> role_files \<Rightarrow> pyval result" where
  "check_owner clock owner_id rf =
     bindE (list_assignments clock (Some owner_id) rf) (\<lambda>(revision, items).
     bindE (raise_if (items = []) (RolesError (''no active role assignment for owner: '' @ owner_id))) (\<lambda>_. Inr revision))"

section \<open>Admission\<close>

definition is_roles_error :: "exc \<Rightarrow> bool" where
  "is_roles_error e = (case e of RolesError _ \<Rightarrow> True | _ \<Rightarrow> False)"

definition admission_answer :: "meta list \<Rightarrow> string \<Rightarrow> string \<Rightarrow> string option" where
  "admission_answer items owner_id required_role =
     (let owned = filter (\<lambda>i. dget i ''owner_id'' = PStr owner_id) items;
          role_ids = concat (map (\<lambda>i. map (field_of ''role_id'') (list_of (dget i ''roles''))) owned) in
      if owned = [] then Some (''role admission denied: owner has no active assignment: '' @ owner_id)
      else if PStr required_role \<notin> set role_ids then Some (''role admission denied: '' @ owner_id @ '' lacks role: '' @ required_role)
      else None)"

definition role_admission_error :: "int \<Rightarrow> datetime option \<Rightarrow> role_files \<Rightarrow> string \<Rightarrow> string \<Rightarrow> string option result" where
  "role_admission_error clock now rf owner_id required_role =
     (if rf_state rf = Missing then Inr None
      else case bindE (read_state rf) (\<lambda>state. bindE (roles_registry rf) (role_assignments clock state)) of
        Inl e \<Rightarrow> if is_roles_error e then Inr (Some (''role admission unavailable: '' @ exc_message e)) else Inl e
      | Inr items \<Rightarrow>
          (case now of Some (Naive _) \<Rightarrow> Inr (Some ''role admission requires a timezone-aware validation time'')
           | _ \<Rightarrow> Inr (admission_answer items owner_id required_role)))"

definition role_admission_errors :: "int \<Rightarrow> role_files \<Rightarrow> (string \<times> string) list \<Rightarrow> string list result" where
  "role_admission_errors clock rf owners_and_roles =
     (if rf_state rf = Missing then Inr []
      else bindE (map_result (\<lambda>(owner, role). role_admission_error clock None rf owner role) owners_and_roles) (\<lambda>answers.
        Inr (sorted_set (concat (map (\<lambda>a. case a of None \<Rightarrow> [] | Some e \<Rightarrow> [e]) answers)))))"

definition require_admission :: "int \<Rightarrow> role_files \<Rightarrow> string \<Rightarrow> string \<Rightarrow> unit result" where
  "require_admission clock rf owner_id role =
     bindE (role_admission_error clock None rf owner_id role) (\<lambda>error.
     case error of None \<Rightarrow> Inr () | Some e \<Rightarrow> Inl (RuntimeError e))"

text \<open>The runtime of the task handlers, with the role admission of a store.\<close>

definition with_roles :: "role_files \<Rightarrow> runtime \<Rightarrow> runtime" where
  "with_roles rf rt = rt\<lparr>rt_role := require_admission (rt_now rt) rf\<rparr>"

section \<open>What the validators accept\<close>

text \<open>A role that a registry declares; an assignment of a role that has not expired.\<close>

definition declared :: "meta \<Rightarrow> string \<Rightarrow> bool" where
  "declared registry role \<longleftrightarrow> (\<exists>x \<in> set (list_of (dget registry ''roles'')). is_dict x \<and> field_of ''role_id'' x = PStr role)"

definition live :: "int \<Rightarrow> pyval \<Rightarrow> bool" where
  "live clock r \<longleftrightarrow> (\<exists>l off. expiry_time (str_of (field_of ''expires_at'' r)) = Inr (Aware l off) \<and> clock < l - off)"

definition assigned_roles :: "pyval \<Rightarrow> pyval list" where
  "assigned_roles v = list_of (field_of ''roles'' v)"

definition role_name :: "pyval \<Rightarrow> string" where
  "role_name r = str_of (field_of ''role_id'' r)"

definition well_formed :: "meta \<Rightarrow> pyval \<Rightarrow> bool" where
  "well_formed registry v \<longleftrightarrow>
     is_dict v \<and> assignment_schema_errors (dict_of v) = [] \<and> distinct (map role_name (assigned_roles v)) \<and> (\<forall>r \<in> set (assigned_roles v). declared registry (role_name r))"

definition grants :: "pyval \<Rightarrow> string \<Rightarrow> string \<Rightarrow> bool" where
  "grants v owner role \<longleftrightarrow> field_of ''owner_id'' v = PStr owner \<and> (\<exists>r \<in> set (assigned_roles v). field_of ''role_id'' r = PStr role)"

lemma string_errors_Nil: "string_errors v label pattern lo hi = [] \<longleftrightarrow> is_str v \<and> lo \<le> length (str_of v) \<and> length (str_of v) \<le> hi \<and> pattern (str_of v)"
  by (auto simp: string_errors_def)

lemma map_result_concat_Nil: "(\<exists>ess. map_result f xs = Inr ess \<and> concat ess = []) \<longleftrightarrow> (\<forall>x \<in> set xs. f x = Inr [])"
  by (induction xs) (auto simp: bindE_Inr)

lemma value_to_roles_Inr [simp]: "value_to_roles m = Inr x \<longleftrightarrow> m = Inr x"
  by (auto simp: value_to_roles_def catchE_def split: sum.split if_splits)

lemma registry_accepted:
  assumes "roles_registry rf = Inr registry"
  shows "rf_registry rf = Parsed (PDict registry)" "registry_schema_errors registry = Inr []" "registry_semantic_errors registry = []"
  using assms by (auto simp: roles_registry_def load_json_def validate_registry_def registry_errors_def bindE_Inr raise_if_Inr is_dict_iff split: json_file.split_asm if_split_asm)

lemma registry_roles:
  assumes "registry_schema_errors registry = Inr []"
  shows "is_list (dget registry ''roles'')" "\<forall>x \<in> set (list_of (dget registry ''roles'')). is_dict x \<and> is_str (field_of ''role_id'' x)"
proof -
  have r: "role_list_errors (dget registry ''roles'') = Inr []"
    using assms by (auto simp: registry_schema_errors_def Let_def bindE_Inr split: if_split_asm)
  then show "is_list (dget registry ''roles'')" by (auto simp: role_list_errors_def split: if_split_asm)
  have "is_str (field_of ''role_id'' x)" if "role_errors x = Inr []" for x
    using that by (auto simp: role_errors_def Let_def bindE_Inr string_errors_Nil field_of_def split: if_split_asm)
  moreover have "(\<exists>ess. map_result role_errors (list_of (dget registry ''roles'')) = Inr ess \<and> concat ess = []) \<and> list_all is_dict (list_of (dget registry ''roles''))"
    using r by (auto simp: role_list_errors_def bindE_Inr split: if_split_asm)
  then have "\<forall>x \<in> set (list_of (dget registry ''roles'')). is_dict x \<and> role_errors x = Inr []"
    unfolding map_result_concat_Nil by (simp add: list_all_iff)
  ultimately show "\<forall>x \<in> set (list_of (dget registry ''roles'')). is_dict x \<and> is_str (field_of ''role_id'' x)" by blast
qed

lemma known_roles:
  assumes "registry_schema_errors registry = Inr []"
  shows "py_set (PList (map (field_of ''role_id'') (filter is_dict (list_of (dget registry ''roles''))))) =
      Inr (map (field_of ''role_id'') (list_of (dget registry ''roles'')))"
    "py_in (PStr i) (map (field_of ''role_id'') (list_of (dget registry ''roles''))) \<longleftrightarrow> declared registry i"
proof -
  note r = registry_roles(2) [OF assms]
  have "filter is_dict (list_of (dget registry ''roles'')) = list_of (dget registry ''roles'')" using r by (simp add: filter_id_conv)
  moreover have "hashable v" if "is_str v" for v using that by (cases v) (auto simp: hashable_def)
  ultimately show "py_set (PList (map (field_of ''role_id'') (filter is_dict (list_of (dget registry ''roles''))))) =
      Inr (map (field_of ''role_id'') (list_of (dget registry ''roles'')))" using r by (simp add: py_set_def list_all_iff)
  show "py_in (PStr i) (map (field_of ''role_id'') (list_of (dget registry ''roles''))) \<longleftrightarrow> declared registry i"
    using r by (force simp: py_in_PStr declared_def)
qed

lemma expiry_Nil: "expiry_errors (Aware clock 0) r = Inr [] \<Longrightarrow> live clock r"
  by (auto simp: expiry_errors_def live_def bindE_Inr dt_le_def split: if_split_asm) (metis is_aware.elims(2) not_le utc_of.simps(1))

lemma live_expiry: "live clock r \<Longrightarrow> expiry_errors (Aware clock 0) r = Inr []"
  by (auto simp: expiry_errors_def live_def dt_le_def)

lemma assignment_accepted:
  assumes "registry_schema_errors registry = Inr []"
  shows "assignment_errors v (PDict registry) c False = Inr [] \<longleftrightarrow> well_formed registry v"
    "assignment_errors v (PDict registry) (Aware clock 0) True = Inr [] \<longleftrightarrow> well_formed registry v \<and> (\<forall>r \<in> set (assigned_roles v). live clock r)"
proof -
  note k = known_roles [OF assms] registry_roles(1) [OF assms]
  have m: "(\<exists>ess. map_result (expiry_errors (Aware clock 0)) rs = Inr ess \<and> concat ess = []) \<longleftrightarrow> (\<forall>r \<in> set rs. live clock r)" for rs
    unfolding map_result_concat_Nil by (auto dest: expiry_Nil live_expiry)
  show "assignment_errors v (PDict registry) c False = Inr [] \<longleftrightarrow> well_formed registry v"
    by (auto simp: assignment_errors_def assignment_semantic_errors_def well_formed_def k Let_def assigned_roles_def role_name_def [abs_def] field_of_def filter_empty_conv)
  show "assignment_errors v (PDict registry) (Aware clock 0) True = Inr [] \<longleftrightarrow> well_formed registry v \<and> (\<forall>r \<in> set (assigned_roles v). live clock r)"
    using m [of "assigned_roles v"]
    by (auto simp: assignment_errors_def assignment_semantic_errors_def well_formed_def k Let_def assigned_roles_def role_name_def [abs_def] field_of_def filter_empty_conv bindE_Inr)
qed

lemma validate_assignment_Inr: "validate_assignment v registry c b = Inr d \<longleftrightarrow> assignment_errors v registry c b = Inr [] \<and> d = dict_of v"
  by (auto simp: validate_assignment_def bindE_Inr raise_if_Inr)

section \<open>Admission is exact\<close>

lemma role_assignments_Inr:
  assumes "registry_schema_errors registry = Inr []"
  shows "(\<exists>items. role_assignments clock state registry = Inr items) \<longleftrightarrow>
      (\<forall>v \<in> set (stored state). well_formed registry v \<and> (\<forall>r \<in> set (assigned_roles v). live clock r))"
    "role_assignments clock state registry = Inr items \<Longrightarrow> set items = dict_of ` set (stored state)"
proof -
  have m: "map_result (\<lambda>v. value_to_roles (validate_assignment v (PDict registry) (Aware clock 0) True)) vs = Inr ds \<longleftrightarrow>
      (\<forall>v \<in> set vs. well_formed registry v \<and> (\<forall>r \<in> set (assigned_roles v). live clock r)) \<and> ds = map dict_of vs" for vs ds
    by (induction vs arbitrary: ds) (auto simp: bindE_Inr validate_assignment_Inr assignment_accepted [OF assms])
  show "(\<exists>items. role_assignments clock state registry = Inr items) \<longleftrightarrow>
      (\<forall>v \<in> set (stored state). well_formed registry v \<and> (\<forall>r \<in> set (assigned_roles v). live clock r))"
    by (simp add: role_assignments_def bindE_Inr m)
  show "role_assignments clock state registry = Inr items \<Longrightarrow> set items = dict_of ` set (stored state)"
    by (auto simp: role_assignments_def bindE_Inr m)
qed

lemma admission_answer_None: "admission_answer (map dict_of vs) owner role = None \<longleftrightarrow> (\<exists>v \<in> set vs. grants v owner role)"
  by (force simp: admission_answer_def Let_def grants_def field_of_def assigned_roles_def filter_empty_conv)

lemma admission_answer_set: "set xs = set ys \<Longrightarrow> admission_answer xs owner role = None \<longleftrightarrow> admission_answer ys owner role = None"
  by (auto simp: admission_answer_def Let_def filter_empty_conv)

text \<open>When the store admits an owner to a role.\<close>

definition role_held :: "int \<Rightarrow> role_files \<Rightarrow> string \<Rightarrow> string \<Rightarrow> bool" where
  "role_held clock rf owner role \<longleftrightarrow>
     (\<exists>state registry. read_state rf = Inr state \<and> roles_registry rf = Inr registry \<and>
       (\<forall>v \<in> set (stored state). well_formed registry v \<and> (\<forall>r \<in> set (assigned_roles v). live clock r)) \<and>
       (\<exists>v \<in> set (stored state). grants v owner role))"

lemma require_admission_exact:
  assumes "rf_state rf \<noteq> Missing"
  shows "require_admission clock rf owner role = Inr () \<longleftrightarrow> role_held clock rf owner role"
proof -
  let ?sound = "\<lambda>state registry. \<forall>v \<in> set (stored state). well_formed registry v \<and> (\<forall>r \<in> set (assigned_roles v). live clock r)"
  have a: "(\<exists>items. role_assignments clock state registry = Inr items \<and> admission_answer items owner role = None) \<longleftrightarrow> ?sound state registry \<and> (\<exists>v \<in> set (stored state). grants v owner role)"
    if "roles_registry rf = Inr registry" for state registry
  proof -
    note r = registry_accepted(2) [OF that]
    have "admission_answer items owner role = None \<longleftrightarrow> (\<exists>v \<in> set (stored state). grants v owner role)" if "role_assignments clock state registry = Inr items" for items
      using role_assignments_Inr(2) [OF r that] admission_answer_set [of items "map dict_of (stored state)" owner role] by (simp add: admission_answer_None)
    then show ?thesis using role_assignments_Inr(1) [OF r, of clock state] by blast
  qed
  have "require_admission clock rf owner role = Inr () \<longleftrightarrow>
      (\<exists>state registry. read_state rf = Inr state \<and> roles_registry rf = Inr registry \<and> (\<exists>items. role_assignments clock state registry = Inr items \<and> admission_answer items owner role = None))"
    using assms by (auto simp: require_admission_def role_admission_error_def bindE_Inr split: sum.split option.split if_split_asm)
  then show ?thesis unfolding role_held_def by (simp add: a cong: conj_cong)
qed

section \<open>The store under its commands\<close>

definition assignment_name :: "pyval \<Rightarrow> string" where
  "assignment_name v = str_of (field_of ''assignment_id'' v)"

text \<open>The state of the store: the registry and the state file are readable, every assignment is well formed for the registry,
  and no two have the same name.\<close>

definition roles_ok :: "role_files \<Rightarrow> bool" where
  "roles_ok rf \<longleftrightarrow>
     (\<exists>state registry. read_state rf = Inr state \<and> roles_registry rf = Inr registry \<and> list_all (well_formed registry) (stored state) \<and>
       distinct (map assignment_name (stored state)))"

definition role_revision :: "role_files \<Rightarrow> int" where
  "role_revision rf = (case read_state rf of Inl _ \<Rightarrow> 0 | Inr state \<Rightarrow> revision_of state)"

inductive role_step :: "role_files \<Rightarrow> role_files \<Rightarrow> bool" where
  assigned: "assign clock expected q rf = Inr (n, rf') \<Longrightarrow> role_step rf rf'"
| removed: "remove_assignment clock expected x rf = Inr (n, rf') \<Longrightarrow> role_step rf rf'"

lemma next_state_read:
  assumes "read_state rf = Inr state" "next_state state items rf = (n, rf')"
  obtains state' where "read_state rf' = Inr state'" "stored state' = items" "revision_of state' = n" "n = revision_of state + 1" "roles_registry rf' = roles_registry rf"
    "rf_state rf' \<noteq> Missing"
proof -
  let ?d = "dset (dset state ''assignments'' (PList items)) ''revision'' (PInt (revision_of state + 1))"
  have rf': "rf' = rf\<lparr>rf_state := Parsed (PDict ?d)\<rparr>" "n = revision_of state + 1" using assms(2) by (auto simp: next_state_def write_state_def)
  have "py_eq (dget state ''schema_version'') (PInt 1)" "0 \<le> revision_of state"
    using assms(1) by (auto simp: read_state_def Let_def revision_of_def split: json_file.split_asm if_split_asm)
  then have "read_state rf' = Inr ?d" by (simp add: read_state_def rf'(1))
  moreover have "roles_registry rf' = roles_registry rf" by (simp add: rf'(1) roles_registry_def)
  moreover have "stored ?d = items" "revision_of ?d = n" by (simp_all add: stored_def revision_of_def rf'(2))
  moreover have "rf_state rf' \<noteq> Missing" by (simp add: rf'(1))
  ultimately show ?thesis using that rf'(2) by blast
qed

lemma assign_Inr:
  assumes "assign clock expected q rf = Inr (n, rf')"
  obtains state registry state' where "read_state rf = Inr state" "revision_of state = expected" "roles_registry rf = Inr registry"
    "well_formed registry (PDict (requested q))" "\<forall>r \<in> set (assigned_roles (PDict (requested q))). live clock r"
    "\<forall>v \<in> set (stored state). field_of ''assignment_id'' v \<noteq> PStr (q_assignment_id q)"
    "read_state rf' = Inr state'" "stored state' = stored state @ [PDict (requested q)]" "revision_of state' = expected + 1" "n = expected + 1"
    "roles_registry rf' = Inr registry" "rf_state rf' \<noteq> Missing"
proof -
  obtain state registry item where a: "read_state rf = Inr state" "revision_of state = expected" "roles_registry rf = Inr registry"
    "validate_assignment (PDict (requested q)) (PDict registry) (Aware clock 0) True = Inr item"
    "any_result (\<lambda>v. bindE (subscript v ''assignment_id'') (\<lambda>i. Inr (py_eq i (PStr (q_assignment_id q))))) (stored state) = Inr False"
    "next_state state (stored state @ [PDict item]) rf = (n, rf')"
    using assms by (auto simp: assign_def raise_if_Inr elim!: bindE_elim)
  note v = a(4) [unfolded validate_assignment_Inr assignment_accepted [OF registry_accepted(2) [OF a(3)]]]
  have "field_of ''assignment_id'' v \<noteq> PStr (q_assignment_id q)" if "v \<in> set (stored state)" for v
    using a(5) that unfolding any_result_False by (cases v) (auto simp: subscript_def bindE_Inr ditem_eq field_of_def dget_def split: if_split_asm dest!: bspec [of _ _ v])
  moreover obtain state' where "read_state rf' = Inr state'" "stored state' = stored state @ [PDict item]" "revision_of state' = n" "n = revision_of state + 1"
    "roles_registry rf' = roles_registry rf" "rf_state rf' \<noteq> Missing" using a(1,6) by (rule next_state_read)
  ultimately show ?thesis using that [of state registry state'] a(1-3) v by simp
qed

lemma remove_Inr:
  assumes "remove_assignment clock expected x rf = Inr (n, rf')"
  obtains state registry state' where "read_state rf = Inr state" "revision_of state = expected" "roles_registry rf = Inr registry" "list_all (well_formed registry) (stored state)"
    "read_state rf' = Inr state'" "stored state' = filter (\<lambda>v. \<not> py_eq (field_of ''assignment_id'' v) (PStr x)) (stored state)" "revision_of state' = expected + 1" "n = expected + 1"
    "roles_registry rf' = Inr registry"
proof -
  obtain state registry where a: "read_state rf = Inr state" "revision_of state = expected" "roles_registry rf = Inr registry"
    "\<forall>v \<in> set (stored state). bindE (value_to_roles (validate_assignment v (PDict registry) (Aware clock 0) False)) (\<lambda>_. Inr ()) = Inr ()"
    "next_state state (filter (\<lambda>v. \<not> py_eq (field_of ''assignment_id'' v) (PStr x)) (stored state)) rf = (n, rf')"
    using assms by (auto simp: remove_assignment_def Let_def raise_if_Inr for_each_Inr elim!: bindE_elim)
  have "list_all (well_formed registry) (stored state)"
    using a(4) by (auto simp: list_all_iff bindE_Inr validate_assignment_Inr assignment_accepted [OF registry_accepted(2) [OF a(3)]])
  moreover obtain state' where "read_state rf' = Inr state'" "stored state' = filter (\<lambda>v. \<not> py_eq (field_of ''assignment_id'' v) (PStr x)) (stored state)"
    "revision_of state' = n" "n = revision_of state + 1" "roles_registry rf' = roles_registry rf" using a(1,5) by (rule next_state_read)
  ultimately show ?thesis using that [of state registry state'] a(1-3) by simp
qed

lemma well_formed_name: "well_formed registry v \<Longrightarrow> field_of ''assignment_id'' v = PStr (assignment_name v)"
  by (auto simp: well_formed_def assignment_schema_errors_def id_errors_def assignment_name_def field_of_def is_str_iff split: if_split_asm)

lemma role_step_ok:
  assumes "role_step rf rf'" "roles_ok rf"
  shows "roles_ok rf'"
  using assms
proof (induction rule: role_step.induct)
  case (assigned clock expected q rf n rf')
  obtain state registry state' where a: "read_state rf = Inr state" "roles_registry rf = Inr registry" "well_formed registry (PDict (requested q))"
    "\<forall>v \<in> set (stored state). field_of ''assignment_id'' v \<noteq> PStr (q_assignment_id q)"
    "read_state rf' = Inr state'" "stored state' = stored state @ [PDict (requested q)]" "roles_registry rf' = Inr registry"
    using assigned.hyps by (rule assign_Inr)
  have ok: "list_all (well_formed registry) (stored state)" "distinct (map assignment_name (stored state))" using assigned.prems a(1,2) by (auto simp: roles_ok_def)
  have "assignment_name v \<noteq> q_assignment_id q" if "v \<in> set (stored state)" for v
    using a(4) ok(1) that well_formed_name [of registry v] by (auto simp: list_all_iff)
  moreover have "assignment_name (PDict (requested q)) = q_assignment_id q" by (simp add: assignment_name_def field_of_def requested_def)
  ultimately have "distinct (map assignment_name (stored state'))" using ok(2) by (simp add: a(6)) fastforce
  then show ?case using a ok by (simp add: roles_ok_def)
next
  case (removed clock expected x rf n rf')
  obtain state registry state' where a: "read_state rf = Inr state" "roles_registry rf = Inr registry" "list_all (well_formed registry) (stored state)"
    "read_state rf' = Inr state'" "stored state' = filter (\<lambda>v. \<not> py_eq (field_of ''assignment_id'' v) (PStr x)) (stored state)" "roles_registry rf' = Inr registry"
    using removed.hyps by (rule remove_Inr)
  have "distinct (map assignment_name (stored state))" using removed.prems a(1,2) by (auto simp: roles_ok_def)
  then show ?case using a by (auto simp: roles_ok_def list_all_iff distinct_map_filter)
qed

lemma role_step_revision: "role_step rf rf' \<Longrightarrow> role_revision rf' = role_revision rf + 1"
  by (induction rule: role_step.induct) (auto simp: role_revision_def elim!: assign_Inr remove_Inr)

text \<open>The store as a whole is the entry of a versioned store.\<close>

interpretation role_store: versioned_store roles_ok "\<lambda>rf (_::unit). Some rf" role_revision "\<lambda>_ _ _. True" role_step
  by unfold_locales (auto intro: role_step_ok dest: role_step_revision)

text \<open>No stored assignment has expired.\<close>

definition roles_live :: "int \<Rightarrow> role_files \<Rightarrow> bool" where
  "roles_live clock rf \<longleftrightarrow>
     (\<exists>state registry. read_state rf = Inr state \<and> roles_registry rf = Inr registry \<and>
       (\<forall>v \<in> set (stored state). well_formed registry v \<and> (\<forall>r \<in> set (assigned_roles v). live clock r)))"

section \<open>An example\<close>

definition example_registry :: meta where
  "example_registry = [(''schema_version'', PInt 1), (''registry_id'', PStr ''team''),
     (''roles'', PList [PDict [(''schema_version'', PInt 1), (''role_id'', PStr ''implementer''), (''title'', PStr ''t''), (''summary'', PStr ''s''),
       (''capabilities'', PList [PDict [(''capability_id'', PStr ''edit''), (''description'', PStr ''d''), (''actions'', PList [PStr ''write'']), (''scope'', PStr ''write'')]]),
       (''forbidden_actions'', PList [PStr ''push'']), (''tool_policy'', PDict [(''allow'', PList []), (''deny'', PList [])]),
       (''worktree_policy'', PDict [(''mode'', PStr ''shared''), (''path_patterns'', PList [PStr ''w''])]), (''awq_profile_refs'', PList [])]]),
     (''default_role'', PStr ''implementer''), (''default_awq_profile_refs'', PList [PStr ''p''])]"

definition example_role_files :: role_files where
  "example_role_files = \<lparr>rf_state_path = ''roles.json'', rf_state = Missing, rf_registry_path = ''registry.json'', rf_registry = Parsed (PDict example_registry)\<rparr>"

definition example_request :: role_request where
  "example_request = \<lparr>q_assignment_id = ''a-1'', q_owner_id = ''dev'', q_role_id = ''implementer'', q_expires_at = ''2030-01-01T00:00:00Z'', q_kind = ''review'', q_ref = ''r'',
     q_digest = ''sha256:'' @ replicate 64 CHR ''0''\<rparr>"

lemma example_registry_valid: "registry_errors (PDict example_registry) = Inr []"
  by code_simp

lemma example_registry_read: "roles_registry example_role_files = Inr example_registry"
  using example_registry_valid by (simp add: roles_registry_def load_json_def example_role_files_def validate_registry_def value_to_roles_def catchE_def raise_if_def)

lemma example_assignment_valid: "assignment_errors (PDict (requested example_request)) (PDict example_registry) (Aware 0 0) True = Inr []"
  by code_simp

lemma example_assigned:
  obtains rf' state' where "assign 0 0 example_request example_role_files = Inr (1, rf')" "read_state rf' = Inr state'" "stored state' = [PDict (requested example_request)]"
proof -
  let ?state = "[(''schema_version'', PInt 1), (''revision'', PInt 0), (''assignments'', PList [])]"
  have s: "read_state example_role_files = Inr ?state" "stored ?state = []" "revision_of ?state = 0" by (simp_all add: read_state_def example_role_files_def stored_def revision_of_def)
  obtain rf' where n: "next_state ?state [PDict (requested example_request)] example_role_files = (1, rf')" by (simp add: next_state_def s)
  then have "assign 0 0 example_request example_role_files = Inr (1, rf')"
    using s by (simp add: assign_def example_registry_read validate_assignment_def example_assignment_valid value_to_roles_def catchE_def raise_if_def)
  moreover obtain state' where "read_state rf' = Inr state'" "stored state' = [PDict (requested example_request)]" using s(1) n by (rule next_state_read)
  ultimately show ?thesis using that by blast
qed

lemma example_assigned_held:
  assumes "assign 0 0 example_request example_role_files = Inr (1, rf')"
  shows "role_held (rt_now early_runtime) rf' ''dev'' ''implementer''"
proof -
  obtain state registry state' where a: "read_state example_role_files = Inr state" "roles_registry example_role_files = Inr registry" "well_formed registry (PDict (requested example_request))"
    "\<forall>r \<in> set (assigned_roles (PDict (requested example_request))). live 0 r"
    "read_state rf' = Inr state'" "stored state' = stored state @ [PDict (requested example_request)]" "roles_registry rf' = Inr registry"
    using assms by (rule assign_Inr)
  have "stored state = []" using a(1) by (auto simp: read_state_def example_role_files_def stored_def)
  moreover have "\<forall>r \<in> set (assigned_roles (PDict (requested example_request))). live (rt_now early_runtime) r"
    using a(4) by (fastforce simp: live_def early_runtime_def)
  moreover have "grants (PDict (requested example_request)) ''dev'' ''implementer''"
    by (simp add: grants_def requested_def field_of_def assigned_roles_def example_request_def)
  ultimately show ?thesis using a(3,5-7) by (simp add: role_held_def)
qed

section \<open>Properties\<close>

text \<open>
  Property C35. Once the role store exists, a task with a coherent claim gets a new, non-empty owner only by a claim, and only
  when the store grants the owner the role of an implementer at that time: the registry is valid, every stored assignment
  is well formed and unexpired, and one of them gives the owner the role. (A release is taken to name a status other than in
  progress, as the command line offers no such choice.)
\<close>

theorem owners_hold_roles:
  assumes "apply_transition w args kind meta tasks policy = Inr (meta', msg)"
    and "claim_wf meta" and "kind = ''release'' \<longrightarrow> dget args ''status'' \<noteq> PStr ''in_progress''"
    and "w_rt w = with_roles rf rt" and "rf_state rf \<noteq> Missing"
    and "life_of meta' = Active owner" and "life_of meta \<noteq> Active owner" and "truthy owner"
  shows "kind = ''claim'' \<and> role_held (rt_now rt) rf (py_str owner) ''implementer''"
proof -
  have "life_step kind (life_of meta) (Active owner)"
    using transition_refines [OF assms(1-3)] assms(6,8) by (auto simp: refines_def unowned_active_iff)
  then have k: "kind = ''claim''" using assms(7) by cases auto
  have c: "apply_claim w args meta tasks = Inr (meta', msg)" using assms(1) unfolding k transition_moves .
  have "dget meta' ''owner'' = dget args ''owner''"
    using c by (auto simp: apply_claim_def attach_claim_process_def elim!: bindE_elim split: option.split_asm)
  then have "owner = dget args ''owner''" using assms(6) by (auto simp: life_of_def split: if_split_asm)
  moreover have "require_role_admission (w_rt w) (py_str (dget args ''owner'')) = Inr ()" using c by (auto simp: apply_claim_def elim!: bindE_elim)
  ultimately show ?thesis using k require_admission_exact [OF assms(5)] by (simp add: assms(4) with_roles_def require_role_admission_def)
qed

text \<open>
  Property C36. Role commands are serialised by the revision of the store: every command that succeeds leaves a well-formed
  store with distinct assignment names at the next revision, and a command that expects the revision of an earlier
  state is refused.
\<close>

theorem role_store_serialized:
  assumes "role_step\<^sup>+\<^sup>+ rf rf'" and "roles_ok rf"
  shows "roles_ok rf' \<and> role_revision rf < role_revision rf' \<and>
    (\<exists>state. read_state rf' = Inr state \<and> assign clock (role_revision rf) q rf' = Inl (stale_role_revision state (role_revision rf)) \<and>
      remove_assignment clock (role_revision rf) x rf' = Inl (stale_role_revision state (role_revision rf)))"
proof -
  obtain rf1 where "role_step rf rf1" "role_step\<^sup>*\<^sup>* rf1 rf'" using assms(1) by (blast dest: tranclpD)
  then have r: "roles_ok rf'" "role_revision rf < role_revision rf'"
    using role_store.run_ok [of rf1 rf'] role_store.versions_grow [OF _ _ refl refl, of rf1 rf'] role_step_ok [OF _ assms(2)] role_step_revision [of rf rf1] by auto
  then obtain state where "read_state rf' = Inr state" by (auto simp: roles_ok_def)
  then show ?thesis using r by (auto simp: assign_def remove_assignment_def role_revision_def raise_if_def)
qed

text \<open>
  A role that was assigned is in force: while no stored assignment has expired, the new owner is admitted to the role, and
  nobody else's admission changes.
\<close>

theorem assigned_role_admitted:
  assumes "assign clock expected q rf = Inr (n, rf')" and "roles_live clock rf"
  shows "require_admission clock rf' (q_owner_id q) (q_role_id q) = Inr () \<and>
    (rf_state rf \<noteq> Missing \<longrightarrow>
      (\<forall>owner role. require_admission clock rf' owner role = Inr () \<longleftrightarrow>
        require_admission clock rf owner role = Inr () \<or> owner = q_owner_id q \<and> role = q_role_id q))"
proof -
  obtain state registry state' where a: "read_state rf = Inr state" "roles_registry rf = Inr registry"
    "well_formed registry (PDict (requested q))" "\<forall>r \<in> set (assigned_roles (PDict (requested q))). live clock r"
    "read_state rf' = Inr state'" "stored state' = stored state @ [PDict (requested q)]" "roles_registry rf' = Inr registry" "rf_state rf' \<noteq> Missing"
    using assms(1) by (rule assign_Inr)
  have g: "grants (PDict (requested q)) owner role \<longleftrightarrow> owner = q_owner_id q \<and> role = q_role_id q" for owner role
    by (auto simp: grants_def requested_def field_of_def assigned_roles_def)
  have "role_held clock rf' owner role \<longleftrightarrow> (\<exists>v \<in> set (stored state). grants v owner role) \<or> owner = q_owner_id q \<and> role = q_role_id q" for owner role
    using assms(2) a by (auto simp: role_held_def roles_live_def g)
  moreover have "role_held clock rf owner role \<longleftrightarrow> (\<exists>v \<in> set (stored state). grants v owner role)" for owner role
    using assms(2) a by (auto simp: role_held_def roles_live_def)
  ultimately show ?thesis using require_admission_exact [OF a(8)] require_admission_exact [of rf] by simp
qed

theorem owners_hold_roles_witness:
  "\<exists>rf' w meta' msg. assign 0 0 example_request example_role_files = Inr (1, rf') \<and> w_rt w = with_roles rf' early_runtime \<and>
     apply_transition w example_claim ''claim'' example_open [] None = Inr (meta', msg) \<and> role_held (rt_now early_runtime) rf' ''dev'' ''implementer''"
proof -
  obtain rf' state' where a: "assign 0 0 example_request example_role_files = Inr (1, rf')" "read_state rf' = Inr state'" "stored state' = [PDict (requested example_request)]"
    by (rule example_assigned)
  let ?w = "example_world\<lparr>w_rt := with_roles rf' early_runtime\<rparr>"
  have admitted: "require_admission (rt_now early_runtime) rf' ''dev'' ''implementer'' = Inr ()" 
  proof -
    have "role_held (rt_now early_runtime) rf' ''dev'' ''implementer''" using example_assigned_held a by blast
    moreover have "rf_state rf' \<noteq> Missing" using a(1) by (auto elim: assign_Inr)
    ultimately show ?thesis using require_admission_exact by blast
  qed
  obtain v where v: "lease_text early_runtime (PInt 30) = Inr v"
    by (simp add: lease_text_def lease_end_def early_runtime_def in_range_def max_us_def max_ordinal_def day_us_def second_us_def)
  obtain meta' msg where c: "apply_transition ?w example_claim ''claim'' example_open [] None = Inr (meta', msg)" "life_of meta' = Active (PStr ''dev'')"
    using v admitted unfolding transition_moves
    by (simp add: apply_claim_def example_claim_def example_open_def require_status_def require_role_admission_def with_roles_def 
        require_dependencies_def pending_dependencies_def transition_allowed_def gate_to_runtime_def
        held_tasks_def attach_claim_process_def claimed_process_identity_def lease_text_def life_of_def)
  have "claim_wf example_open" "life_of example_open \<noteq> Active (PStr ''dev'')"
    by (simp_all add: claim_wf_def example_open_def example_claim_def life_of_def)
  moreover have "rf_state rf' \<noteq> Missing" using a(1) by (auto elim: assign_Inr)
  ultimately have "role_held (rt_now early_runtime) rf' ''dev'' ''implementer''"
    using owners_hold_roles [OF c(1), of rf' early_runtime "PStr ''dev''"] c(2) by simp
  then show ?thesis using a(1) c(1) by (intro exI [of _ rf'] exI [of _ ?w] exI [of _ meta'] exI [of _ msg]) simp
qed

theorem role_store_serialized_witness:
  "\<exists>rf'. role_step example_role_files rf' \<and> roles_ok rf' \<and> 0 < role_revision rf'"
proof -
  obtain rf' state' where a: "assign 0 0 example_request example_role_files = Inr (1, rf')" by (rule example_assigned)
  have "roles_ok example_role_files"
    using example_registry_read by (simp add: roles_ok_def) (simp add: read_state_def example_role_files_def stored_def)
  moreover have s: "role_step example_role_files rf'" using a by (rule role_step.assigned)
  moreover have "role_revision example_role_files = 0" by (simp add: role_revision_def read_state_def example_role_files_def revision_of_def)
  ultimately show ?thesis using role_store_serialized [OF tranclp.r_into_trancl [of role_step, OF s]] by auto
qed

theorem assigned_role_admitted_witness:
  "\<exists>rf'. assign 0 0 example_request example_role_files = Inr (1, rf') \<and> require_admission 0 rf' ''dev'' ''implementer'' = Inr ()"
proof -
  obtain rf' state' where a: "assign 0 0 example_request example_role_files = Inr (1, rf')" by (rule example_assigned)
  have "roles_live 0 example_role_files"
    using example_registry_read by (simp add: roles_live_def) (simp add: read_state_def example_role_files_def stored_def)
  then show ?thesis using a assigned_role_admitted [OF a] by (simp add: example_request_def)
qed

end
