(* ===== verification/Jsonl_Journal.thy ===== *)
theory Jsonl_Journal
  imports Session_Records
begin

text \<open>
  A journal file that is read and rewritten as a whole: one record per line, every record valid, at most
  \<open>cap\<close> records. The directive journal (\<open>src/tools/directive_records.py\<close>) and the rollback journal
  (\<open>src/tools/rollback_records.py\<close>) share this format; the label names the journal in the messages.
\<close>

fun decode_jsonl :: "(meta \<Rightarrow> unit result) \<Rightarrow> string \<Rightarrow> nat \<Rightarrow> jsonl list \<Rightarrow> meta list result" where
  "decode_jsonl check label number [] = Inr []"
| "decode_jsonl check label number (l # ls) =
     (case l of
        JsonLine (PDict r) \<Rightarrow> bindE (check r) (\<lambda>_. bindE (decode_jsonl check label (Suc number) ls) (\<lambda>rs. Inr (r # rs)))
      | _ \<Rightarrow> Inl (ValueError (''invalid '' @ label @ '' line '' @ show_nat number)))"

definition load_jsonl :: "(meta \<Rightarrow> unit result) \<Rightarrow> string \<Rightarrow> nat \<Rightarrow> history_file \<Rightarrow> meta list result" where
  "load_jsonl check label cap j =
     (case j of None \<Rightarrow> Inr []
      | Some ls \<Rightarrow>
          bindE (decode_jsonl check label 1 ls) (\<lambda>rs.
          bindE (raise_if (cap < length rs) (ValueError (label @ '' journal exceeds bound''))) (\<lambda>_. Inr rs)))"

text \<open>What a rewrite leaves: the newest \<open>cap\<close> records.\<close>

definition write_jsonl :: "nat \<Rightarrow> meta list \<Rightarrow> history_file" where
  "write_jsonl cap rs = Some (map (\<lambda>r. JsonLine (PDict r)) (keep_last cap rs))"

lemma decode_jsonl_Inr: "decode_jsonl check label n ls = Inr rs \<longleftrightarrow> ls = map (\<lambda>r. JsonLine (PDict r)) rs \<and> (\<forall>r \<in> set rs. check r = Inr ())"
proof (induction ls arbitrary: n rs)
  case (Cons l ls)
  then show ?case by (cases rs) (auto simp: bindE_Inr split: jsonl.split pyval.split)
qed auto

lemma load_jsonl_Inr:
  "load_jsonl check label cap j = Inr rs \<longleftrightarrow>
     (j = None \<and> rs = [] \<or> j = Some (map (\<lambda>r. JsonLine (PDict r)) rs)) \<and> (\<forall>r \<in> set rs. check r = Inr ()) \<and> length rs \<le> cap"
  by (cases j) (auto simp: load_jsonl_def decode_jsonl_Inr bindE_Inr raise_if_Inr)

lemma load_write_jsonl:
  assumes "load_jsonl check label cap j = Inr rs" "check r = Inr ()"
  shows "load_jsonl check label cap (write_jsonl cap (rs @ [r])) = Inr (keep_last cap (rs @ [r]))"
  using assms set_keep_last [of cap "rs @ [r]"] by (auto simp: load_jsonl_Inr write_jsonl_def)

end
