(* ===== verification/Directives.thy ===== *)
theory Directives
  imports Task_Records Jsonl_Journal
begin

text \<open>
  Operator directives: the journal of \<open>src/tools/directive_records.py\<close> and the directive command of
  \<open>src/tools/handoffctl.py\<close>. A directive is a list of revisions in one bounded journal; it is proposed by its owner,
  activated when it does not contradict an active directive, and superseded, revoked or escalated. The
  theory shows that directives which contradict each other are never active together, and which
  directives no command can change any more.
\<close>

section \<open>Records\<close>

definition MAX_DIRECTIVES :: nat where "MAX_DIRECTIVES = 64"

definition is_directive_id :: "string \<Rightarrow> bool" where
  "is_directive_id s = (starts_with s ''UD-'' \<and> length s = 7 \<and> list_all is_digit (drop 3 s))"

definition REF_RE :: "string \<Rightarrow> bool" where "REF_RE = is_reference ''._/-'' 2 127"

definition LIFECYCLES :: "string list" where
  "LIFECYCLES = [''proposed'', ''active'', ''superseded'', ''revoked'', ''escalated'']"

definition DIRECTIVE_FIELDS :: "string list" where
  "DIRECTIVE_FIELDS = [''schema_version'', ''directive_id'', ''authority'', ''precedence'', ''scope'', ''statement'', ''lifecycle'', ''revision'', ''owner'',
     ''claim_expires'', ''guidance_ref'', ''created_at'', ''updated_at'']"

definition scope_list :: "pyval list \<Rightarrow> (string \<Rightarrow> bool) \<Rightarrow> string \<Rightarrow> unit result" where
  "scope_list vs pattern label =
     bindE (raise_if (list_ex (\<lambda>v. \<not> is_str v) vs) (ValueError (''invalid directive '' @ label @ '' scope''))) (\<lambda>_.
     bindE (raise_if (\<not> py_distinct vs) (ValueError ''directive scope contains duplicates'')) (\<lambda>_.
     raise_if (list_ex (\<lambda>v. \<not> pattern (str_of v)) vs) (ValueError (''invalid directive '' @ label @ '' scope''))))"

text \<open>The roles and the tasks of a scope, each sorted.\<close>

definition scope_of :: "pyval \<Rightarrow> (string list \<times> string list) result" where
  "scope_of v =
     (let roles = dget (dict_of v) ''roles''; tasks = dget (dict_of v) ''tasks'' in
      bindE (raise_if (\<not> is_dict v \<or> \<not> keys_exact (dict_of v) [''roles'', ''tasks'']) (ValueError ''directive scope must contain roles and tasks'')) (\<lambda>_.
      bindE (raise_if (\<not> is_list roles \<or> \<not> is_list tasks) (ValueError ''directive scope values must be lists'')) (\<lambda>_.
      bindE (raise_if (list_of roles = [] \<and> list_of tasks = []) (ValueError ''directive scope must target a role or task'')) (\<lambda>_.
      bindE (scope_list (list_of roles) REF_RE ''role'') (\<lambda>_.
      bindE (scope_list (list_of tasks) is_task_id ''task'') (\<lambda>_.
      Inr (sort (map str_of (list_of roles)), sort (map str_of (list_of tasks)))))))))"

definition scope_value :: "string list \<times> string list \<Rightarrow> pyval" where
  "scope_value s = PDict [(''roles'', PList (map PStr (fst s))), (''tasks'', PList (map PStr (snd s)))]"

definition validate_identity :: "meta \<Rightarrow> unit result" where
  "validate_identity r =
     bindE (raise_if (\<not> keys_exact r DIRECTIVE_FIELDS \<or> \<not> py_eq (dget r ''schema_version'') (PInt 1)) (ValueError ''invalid directive fields'')) (\<lambda>_.
     bindE (raise_if (\<not> is_str (dget r ''directive_id'') \<or> \<not> is_directive_id (str_of (dget r ''directive_id''))) (ValueError ''invalid directive id'')) (\<lambda>_.
     bindE (raise_if (\<not> is_str (dget r ''authority'') \<or> \<not> REF_RE (str_of (dget r ''authority''))) (ValueError ''invalid directive authority'')) (\<lambda>_.
     bindE (raise_if (\<not> exact_int (dget r ''precedence'') \<or> int_of (dget r ''precedence'') < 1) (ValueError ''invalid directive precedence'')) (\<lambda>_.
     bindE (scope_of (dget r ''scope'')) (\<lambda>_. Inr ())))))"

definition validate_statement :: "pyval \<Rightarrow> unit result" where
  "validate_statement v =
     raise_if (\<not> is_str v \<or> strip (str_of v) = [] \<or> newline \<in> set (str_of v) \<or> 4096 < length (str_of v)) (ValueError ''invalid directive statement'')"

text \<open>A text that is empty or of the given form.\<close>

definition validate_optional :: "pyval \<Rightarrow> (string \<Rightarrow> bool) \<Rightarrow> string \<Rightarrow> unit result" where
  "validate_optional v pattern message = raise_if (\<not> is_str v \<or> str_of v \<noteq> [] \<and> \<not> pattern (str_of v)) (ValueError message)"

definition validate_stamp :: "meta \<Rightarrow> string \<Rightarrow> unit result" where
  "validate_stamp r field = raise_if (\<not> is_str (dget r field) \<or> str_of (dget r field) = []) (ValueError (''invalid directive '' @ field))"

definition validate_content :: "meta \<Rightarrow> unit result" where
  "validate_content r =
     bindE (validate_statement (dget r ''statement'')) (\<lambda>_.
     bindE (hash_not_in (dget r ''lifecycle'') LIFECYCLES) (\<lambda>bad.
     bindE (raise_if bad (ValueError ''invalid directive lifecycle'')) (\<lambda>_.
     bindE (raise_if (\<not> exact_int (dget r ''revision'') \<or> int_of (dget r ''revision'') < 1) (ValueError ''invalid directive revision'')) (\<lambda>_.
     bindE (validate_optional (dget r ''owner'') REF_RE ''invalid directive owner'') (\<lambda>_.
     bindE (raise_if (\<not> is_str (dget r ''claim_expires'')) (ValueError ''invalid directive lease'')) (\<lambda>_.
     bindE (validate_optional (dget r ''guidance_ref'') (\<lambda>s. s = ''AR-0053'') ''invalid directive guidance reference'') (\<lambda>_.
     bindE (validate_stamp r ''created_at'') (\<lambda>_. validate_stamp r ''updated_at''))))))))"

definition validate_directive :: "meta \<Rightarrow> unit result" where
  "validate_directive r = bindE (validate_identity r) (\<lambda>_. validate_content r)"

text \<open>A new directive; the arguments come from the command line, so identifiers and texts are strings.\<close>

definition build_directive :: "namespace \<Rightarrow> string \<Rightarrow> string \<Rightarrow> meta result" where
  "build_directive args recorded_at claim_expires =
     bindE (raise_if (\<not> is_directive_id (arg_str args ''directive_id'')) (ValueError ''invalid directive id'')) (\<lambda>_.
     bindE (scope_of (PDict [(''roles'', dget args ''role_scope''), (''tasks'', dget args ''task_scope'')])) (\<lambda>scope.
     let record = [(''schema_version'', PInt 1), (''directive_id'', PStr (arg_str args ''directive_id'')), (''authority'', dget args ''authority''), (''precedence'', dget args ''precedence''),
       (''scope'', scope_value scope), (''statement'', PStr (strip (arg_str args ''statement''))), (''lifecycle'', PStr ''proposed''), (''revision'', PInt 1),
       (''owner'', dget args ''owner''), (''claim_expires'', PStr claim_expires), (''guidance_ref'', dget args ''guidance_ref''), (''created_at'', PStr recorded_at), (''updated_at'', PStr recorded_at)] in
     bindE (validate_directive record) (\<lambda>_. Inr record)))"

section \<open>The journal\<close>

definition load_directives :: "history_file \<Rightarrow> meta list result" where
  "load_directives j = load_jsonl validate_directive ''directive'' MAX_DIRECTIVES j"

definition directive_id :: "meta \<Rightarrow> string" where "directive_id r = py_str (dget r ''directive_id'')"

definition directive_revision :: "meta \<Rightarrow> int" where "directive_revision r = int_of (dget r ''revision'')"

definition latest_step :: "meta \<Rightarrow> (string \<times> meta) list \<Rightarrow> (string \<times> meta) list result" where
  "latest_step r latest =
     (case map_of latest (directive_id r) of
        Some current \<Rightarrow>
          if directive_revision r \<le> directive_revision current then Inl (ValueError ''directive revisions are not strictly increasing'')
          else Inr (AList.update (directive_id r) r latest)
      | None \<Rightarrow> Inr (AList.update (directive_id r) r latest))"

definition latest_directives :: "history_file \<Rightarrow> meta list result" where
  "latest_directives j =
     bindE (load_directives j) (\<lambda>rs.
     bindE (fold_result latest_step rs []) (\<lambda>latest.
     Inr (sort_key directive_id (map snd latest))))"

definition append_directive :: "history_file \<Rightarrow> meta \<Rightarrow> history_file result" where
  "append_directive j r =
     bindE (validate_directive r) (\<lambda>_.
     bindE (load_directives j) (\<lambda>existing.
     let same = filter (\<lambda>i. py_eq (dget i ''directive_id'') (dget r ''directive_id'')) existing in
     bindE (raise_if (same \<noteq> [] \<and> directive_revision r \<noteq> directive_revision (last same) + 1) (ValueError ''directive revision is not the next CAS revision'')) (\<lambda>_.
     Inr (write_jsonl MAX_DIRECTIVES (existing @ [r])))))"

section \<open>Conflicts\<close>

definition scopes_overlap :: "meta \<Rightarrow> meta \<Rightarrow> bool result" where
  "scopes_overlap left right =
     bindE (scope_of (dget left ''scope'')) (\<lambda>(roles1, tasks1).
     bindE (scope_of (dget right ''scope'')) (\<lambda>(roles2, tasks2).
     Inr (set roles1 \<inter> set roles2 \<noteq> {} \<or> set tasks1 \<inter> set tasks2 \<noteq> {})))"

definition conflicts_with :: "meta \<Rightarrow> meta \<Rightarrow> bool result" where
  "conflicts_with candidate r =
     (if dget r ''lifecycle'' = PStr ''active'' \<and> int_of (dget r ''precedence'') = int_of (dget candidate ''precedence'') \<and>
        \<not> py_eq (dget r ''directive_id'') (dget candidate ''directive_id'')
      then bindE (scopes_overlap r candidate) (\<lambda>overlap. Inr (overlap \<and> \<not> py_eq (dget r ''statement'') (dget candidate ''statement'')))
      else Inr False)"

definition conflicting_directives :: "meta list \<Rightarrow> meta \<Rightarrow> meta list result" where
  "conflicting_directives records candidate = filter_result (conflicts_with candidate) records"

fun first_conflict :: "meta list \<Rightarrow> string list result" where
  "first_conflict [] = Inr []"
| "first_conflict (r # rs) =
     bindE (conflicting_directives rs r) (\<lambda>conflicts.
     if conflicts \<noteq> [] then Inr [''directive validation failed: active conflict requires guidance AR-0053: '' @ join '','' (map directive_id conflicts)]
     else first_conflict rs)"

definition directive_validation_errors :: "history_file \<Rightarrow> string list result" where
  "directive_validation_errors j =
     catchE (bindE (latest_directives j) (\<lambda>records.
       bindE (for_each validate_directive records) (\<lambda>_.
       first_conflict (filter (\<lambda>r. dget r ''lifecycle'' = PStr ''active'') records))))
       (\<lambda>e. if is_value_error e \<or> is_runtime_error e then Inr [''directive validation failed: '' @ exc_message e] else Inl e)"

definition in_scope :: "string \<Rightarrow> string \<Rightarrow> meta \<Rightarrow> bool result" where
  "in_scope role task r =
     (if dget r ''lifecycle'' \<noteq> PStr ''active'' then Inr False
      else bindE (scope_of (dget r ''scope'')) (\<lambda>(roles, tasks). Inr (role \<noteq> [] \<and> role \<in> set roles \<or> task \<noteq> [] \<and> task \<in> set tasks)))"

text \<open>Highest precedence first, then by identifier: a stable sort by identifier, then by negated precedence.\<close>

definition applicable_directives :: "meta list \<Rightarrow> string \<Rightarrow> string \<Rightarrow> meta list result" where
  "applicable_directives records role task =
     bindE (raise_if (role = [] \<and> task = []) (ValueError ''directive applicability requires a role or task'')) (\<lambda>_.
     bindE (raise_if (role \<noteq> [] \<and> \<not> REF_RE role) (ValueError ''invalid directive role'')) (\<lambda>_.
     bindE (raise_if (task \<noteq> [] \<and> \<not> is_task_id task) (ValueError ''invalid directive task'')) (\<lambda>_.
     bindE (filter_result (in_scope role task) records) (\<lambda>selected.
     Inr (sort_key (\<lambda>r. - int_of (dget r ''precedence'')) (sort_key directive_id selected))))))"

section \<open>The command\<close>

text \<open>The clock and the effects of the command: the backend test, lock and replica synchronisation, \<open>git commit\<close> (whether it made
  a commit) and the push.\<close>

record directive_env =
  d_now :: int
  d_ready :: "unit result"
  d_commit :: "bool result"
  d_push :: "unit result"

definition directive_now :: "directive_env \<Rightarrow> string" where
  "directive_now env = isoformat_utc (truncate_us (d_now env))"

definition directive_claim_expiry :: "directive_env \<Rightarrow> int \<Rightarrow> string result" where
  "directive_claim_expiry env minutes =
     bindE (raise_if (minutes \<le> 0) (RuntimeError ''directive lease must be positive'')) (\<lambda>_. lease_end (d_now env) minutes)"

definition directive_claim_is_live :: "directive_env \<Rightarrow> meta \<Rightarrow> string \<Rightarrow> unit result" where
  "directive_claim_is_live env r owner =
     bindE (raise_if (py_str (dget r ''owner'') \<noteq> owner)
       (RuntimeError (''directive is owned by '' @ (if truthy (dget r ''owner'') then py_str (dget r ''owner'') else ''nobody'')))) (\<lambda>_.
     bindE (value_to (RuntimeError ''directive claim expiry is invalid'') (fromisoformat (py_str (dget r ''claim_expires'')))) (\<lambda>expires.
     raise_if (\<not> is_aware expires \<or> utc_of expires \<le> d_now env) (RuntimeError ''directive claim has expired'')))"

definition create_directive :: "directive_env \<Rightarrow> namespace \<Rightarrow> meta list \<Rightarrow> meta result" where
  "create_directive env args records =
     bindE (raise_if (list_ex (\<lambda>i. py_eq (dget i ''directive_id'') (dget args ''directive_id'')) records)
       (RuntimeError (''directive already exists: '' @ arg_str args ''directive_id''))) (\<lambda>_.
     bindE (directive_claim_expiry env (int_of (dget args ''lease_minutes''))) (\<lambda>expires.
     build_directive args (directive_now env) expires))"

definition directive_lifecycle :: "string \<Rightarrow> meta \<Rightarrow> meta list \<Rightarrow> string result" where
  "directive_lifecycle action candidate records =
     (if action = ''activate'' then
        bindE (conflicting_directives records (dset candidate ''lifecycle'' (PStr ''active''))) (\<lambda>conflicts.
        bindE (raise_if (conflicts \<noteq> [] \<and> dget candidate ''guidance_ref'' \<noteq> PStr ''AR-0053'') (RuntimeError ''directive conflict requires guidance escalation AR-0053'')) (\<lambda>_.
        Inr (if conflicts \<noteq> [] then ''escalated'' else ''active'')))
      else if action = ''escalate'' then
        bindE (raise_if (dget candidate ''guidance_ref'' \<noteq> PStr ''AR-0053'') (RuntimeError ''directive escalation requires guidance AR-0053'')) (\<lambda>_. Inr ''escalated'')
      else if action = ''supersede'' then Inr ''superseded''
      else if action = ''revoke'' then Inr ''revoked''
      else Inl (RuntimeError ''unknown directive action''))"

definition transition_directive :: "directive_env \<Rightarrow> namespace \<Rightarrow> meta list \<Rightarrow> meta result" where
  "transition_directive env args records =
     (case find (\<lambda>i. py_eq (dget i ''directive_id'') (dget args ''directive_id'')) records of
        None \<Rightarrow> Inl (RuntimeError (''unknown directive: '' @ arg_str args ''directive_id''))
      | Some current \<Rightarrow>
          bindE (raise_if (directive_revision current \<noteq> int_of (dget args ''expected_revision''))
            (RuntimeError (''stale directive revision: expected '' @ py_str (dget args ''expected_revision'') @ '', current '' @ py_str (dget current ''revision'')))) (\<lambda>_.
          bindE (directive_claim_is_live env current (arg_str args ''owner'')) (\<lambda>_.
          let guidance = (if truthy (dget args ''guidance_ref'') then dget args ''guidance_ref'' else PStr (py_str (dget current ''guidance_ref'')));
              candidate = dset (dset (dset current ''revision'' (PInt (directive_revision current + 1))) ''updated_at'' (PStr (directive_now env))) ''guidance_ref'' guidance in
          bindE (directive_lifecycle (arg_str args ''action'') candidate records) (\<lambda>lifecycle.
          let moved = dset candidate ''lifecycle'' (PStr lifecycle) in
          Inr (if lifecycle \<noteq> ''active'' then dset (dset moved ''owner'' (PStr [])) ''claim_expires'' (PStr []) else moved)))))"

definition commit_directive :: "directive_env \<Rightarrow> meta \<Rightarrow> history_file \<Rightarrow> history_file \<times> unit result" where
  "commit_directive env r j =
     (case append_directive j r of
        Inl e \<Rightarrow> (j, Inl e)
      | Inr j' \<Rightarrow> (j', bindE (d_commit env) (\<lambda>committed.
          bindE (raise_if (\<not> committed) (RuntimeError ''directive record was not committed'')) (\<lambda>_. d_push env))))"

definition list_directives :: "namespace \<Rightarrow> meta list \<Rightarrow> meta list" where
  "list_directives args records = filter (\<lambda>i. \<not> truthy (dget args ''lifecycle'') \<or> py_eq (dget i ''lifecycle'') (dget args ''lifecycle'')) records"

text \<open>The command returns the journal and the records it prints.\<close>

definition cmd_directive :: "directive_env \<Rightarrow> namespace \<Rightarrow> history_file \<Rightarrow> history_file \<times> meta list result" where
  "cmd_directive env args j =
     (case bindE (d_ready env) (\<lambda>_. latest_directives j) of
        Inl e \<Rightarrow> (j, Inl e)
      | Inr records \<Rightarrow>
          if dget args ''directive_action'' = PStr ''list'' then (j, Inr (list_directives args records))
          else
            (case if dget args ''directive_action'' = PStr ''create'' then create_directive env args records else transition_directive env args records of
               Inl e \<Rightarrow> (j, Inl e)
             | Inr r \<Rightarrow> (case commit_directive env r j of (j', outcome) \<Rightarrow> (j', bindE outcome (\<lambda>_. Inr [r])))))"

section \<open>Valid records\<close>

abbreviation valid_directive :: "meta \<Rightarrow> bool" where
  "valid_directive r \<equiv> validate_directive r = Inr ()"

lemma valid_directive_fields:
  assumes "valid_directive r"
  shows "dget r ''directive_id'' = PStr (directive_id r)" "\<exists>s. dget r ''statement'' = PStr s" "\<exists>roles tasks. scope_of (dget r ''scope'') = Inr (roles, tasks)"
    "dget r ''revision'' = PInt (directive_revision r)"
  using assms
  by (auto simp: validate_directive_def validate_identity_def validate_content_def validate_statement_def bindE_Inr raise_if_Inr directive_id_def directive_revision_def is_str_iff exact_int_iff)

lemma load_directives_Inr:
  "load_directives j = Inr rs \<longleftrightarrow> (j = None \<and> rs = [] \<or> j = Some (map (\<lambda>r. JsonLine (PDict r)) rs)) \<and> (\<forall>r \<in> set rs. valid_directive r) \<and> length rs \<le> MAX_DIRECTIVES"
  unfolding load_directives_def by (rule load_jsonl_Inr)

section \<open>The latest revisions\<close>

definition newest_of :: "meta list \<Rightarrow> string \<Rightarrow> meta option" where
  "newest_of rs = map_of (rev (map (\<lambda>r. (directive_id r, r)) rs))"

definition increasing :: "meta list \<Rightarrow> bool" where
  "increasing = sorted_wrt (\<lambda>a b. directive_id a = directive_id b \<longrightarrow> directive_revision a < directive_revision b)"

lemma newest_of_snoc [simp]: "newest_of (rs @ [r]) = (newest_of rs)(directive_id r \<mapsto> r)"
  by (simp add: newest_of_def)

lemma newest_of_Nil [simp]: "newest_of [] = Map.empty"
  by (simp add: newest_of_def)

lemma newest_of_Some: "newest_of rs k = Some r \<Longrightarrow> r \<in> set rs \<and> directive_id r = k"
  by (auto simp: newest_of_def dest!: map_of_SomeD)

lemma newest_of_None: "newest_of rs k = None \<longleftrightarrow> k \<notin> directive_id ` set rs"
  by (auto simp: newest_of_def map_of_eq_None_iff image_image)

lemma newest_of_suffix: "newest_of ys k = Some r \<Longrightarrow> newest_of (xs @ ys) k = Some r"
  by (simp add: newest_of_def)

lemma latest_is_newest:
  assumes "increasing rs" "newest_of rs k = Some c" "r \<in> set rs" "directive_id r = k"
  shows "directive_revision r \<le> directive_revision c"
  using assms
proof (induction rs rule: rev_induct)
  case (snoc x rs)
  show ?case
  proof (cases "directive_id x = k")
    case True
    then have "c = x" "r = x \<or> directive_revision r < directive_revision x" using snoc.prems by (auto simp: increasing_def sorted_wrt_append)
    then show ?thesis by auto
  next
    case False
    then show ?thesis using snoc by (auto simp: increasing_def sorted_wrt_append)
  qed
qed simp

lemma latest_fold:
  assumes "increasing rs"
  shows "\<exists>m. fold_result latest_step rs [] = Inr m \<and> map_of m = newest_of rs \<and> distinct (map fst m)"
  using assms
proof (induction rs rule: rev_induct)
  case (snoc x rs)
  then obtain m where m: "fold_result latest_step rs [] = Inr m" "map_of m = newest_of rs" "distinct (map fst m)" by (auto simp: increasing_def sorted_wrt_append)
  have "directive_revision c < directive_revision x" if "newest_of rs (directive_id x) = Some c" for c
    using newest_of_Some [OF that] snoc.prems by (auto simp: increasing_def sorted_wrt_append)
  then have "latest_step x m = Inr (AList.update (directive_id x) x m)" by (auto simp: latest_step_def m(2) not_le split: option.split)
  then show ?case using m by (auto simp: fold_result_append update_conv' distinct_update)
qed simp

lemma latest_directives_of:
  assumes "load_directives j = Inr rs" "increasing rs"
  obtains xs where "latest_directives j = Inr xs" "\<forall>x. x \<in> set xs \<longleftrightarrow> newest_of rs (directive_id x) = Some x" "distinct (map directive_id xs)"
proof -
  obtain m where m: "fold_result latest_step rs [] = Inr m" "map_of m = newest_of rs" "distinct (map fst m)" using latest_fold [OF assms(2)] by blast
  have n: "newest_of rs (fst p) = Some (snd p)" if "p \<in> set m" for p
    using map_of_is_SomeI [OF m(3), of "fst p" "snd p"] that by (simp add: m(2))
  have k: "fst p = directive_id (snd p)" if "p \<in> set m" for p using newest_of_Some [OF n [OF that]] by simp
  let ?xs = "sort_key directive_id (map snd m)"
  have "latest_directives j = Inr ?xs" using assms(1) m(1) by (simp add: latest_directives_def)
  moreover have "x \<in> set ?xs \<longleftrightarrow> newest_of rs (directive_id x) = Some x" for x
  proof
    assume "x \<in> set ?xs"
    then obtain p where p: "p \<in> set m" "x = snd p" by auto
    then show "newest_of rs (directive_id x) = Some x" using n [of p] k [of p] by simp
  next
    assume "newest_of rs (directive_id x) = Some x"
    then show "x \<in> set ?xs" using map_of_SomeD [of m "directive_id x" x] by (force simp: m(2))
  qed
  moreover have "map directive_id (map snd m) = map fst m" using k by simp
  then have "distinct (map directive_id ?xs)" using m(3) by (metis distinct_map distinct_sort set_sort)
  ultimately show ?thesis using that by blast
qed

section \<open>Active directives do not contradict each other\<close>

text \<open>Two active directives contradict each other when they have the same precedence, a common role or task and different statements.\<close>

definition contradicts :: "meta \<Rightarrow> meta \<Rightarrow> bool" where
  "contradicts a b \<longleftrightarrow>
     dget a ''lifecycle'' = PStr ''active'' \<and> dget b ''lifecycle'' = PStr ''active'' \<and> directive_id a \<noteq> directive_id b \<and>
     int_of (dget a ''precedence'') = int_of (dget b ''precedence'') \<and> scopes_overlap a b = Inr True \<and> dget a ''statement'' \<noteq> dget b ''statement''"

lemma scopes_overlap_commute: "valid_directive a \<Longrightarrow> valid_directive b \<Longrightarrow> scopes_overlap a b = scopes_overlap b a"
  using valid_directive_fields(3) [of a] valid_directive_fields(3) [of b] by (auto simp: scopes_overlap_def)

lemma contradicts_commute: "valid_directive a \<Longrightarrow> valid_directive b \<Longrightarrow> contradicts a b \<longleftrightarrow> contradicts b a"
  using scopes_overlap_commute [of a b] by (auto simp: contradicts_def)

lemma conflicts_with_valid:
  assumes "valid_directive c" "valid_directive r" "dget c ''lifecycle'' = PStr ''active''"
  shows "conflicts_with c r = Inr (contradicts r c)"
  using valid_directive_fields [OF assms(1)] valid_directive_fields [OF assms(2)] assms(3)
  by (auto simp: conflicts_with_def contradicts_def scopes_overlap_def)

lemma conflicting_valid:
  assumes "\<forall>r \<in> set rs. valid_directive r" "valid_directive c" "dget c ''lifecycle'' = PStr ''active''"
  shows "conflicting_directives rs c = Inr (filter (\<lambda>r. contradicts r c) rs)"
  unfolding conflicting_directives_def using assms conflicts_with_valid by (intro filter_result_total) auto

definition journal_ok :: "history_file \<Rightarrow> bool" where
  "journal_ok j \<longleftrightarrow>
     (\<exists>rs. load_directives j = Inr rs \<and> increasing rs \<and> (\<forall>a b. newest_of rs (directive_id a) = Some a \<and> newest_of rs (directive_id b) = Some b \<longrightarrow> \<not> contradicts a b))"

lemma first_conflict_Nil:
  assumes "\<forall>r \<in> set rs. valid_directive r \<and> dget r ''lifecycle'' = PStr ''active''" "\<forall>a \<in> set rs. \<forall>b \<in> set rs. \<not> contradicts a b"
  shows "first_conflict rs = Inr []"
  using assms by (induction rs) (auto simp: conflicting_valid filter_empty_conv)

lemma journal_ok_checked:
  assumes "journal_ok j"
  shows "directive_validation_errors j = Inr []"
proof -
  obtain rs where rs: "load_directives j = Inr rs" "increasing rs" "\<forall>a b. newest_of rs (directive_id a) = Some a \<and> newest_of rs (directive_id b) = Some b \<longrightarrow> \<not> contradicts a b"
    using assms by (auto simp: journal_ok_def)
  obtain xs where xs: "latest_directives j = Inr xs" "\<forall>x. x \<in> set xs \<longleftrightarrow> newest_of rs (directive_id x) = Some x" using rs(1,2) by (rule latest_directives_of) blast
  have v: "\<forall>x \<in> set xs. valid_directive x" using rs(1) xs(2) newest_of_Some by (auto simp: load_directives_Inr)
  then have "for_each validate_directive xs = Inr ()" by (simp add: for_each_Inr)
  moreover have "first_conflict (filter (\<lambda>r. dget r ''lifecycle'' = PStr ''active'') xs) = Inr []" using v xs(2) rs(3) by (intro first_conflict_Nil) auto
  ultimately show ?thesis by (simp add: directive_validation_errors_def xs(1) catchE_def)
qed

lemma appended_increasing:
  assumes "load_directives j = Inr rs" "increasing rs" "append_directive j r = Inr j'"
  shows "increasing (rs @ [r])" "valid_directive r" "load_directives j' = Inr (keep_last MAX_DIRECTIVES (rs @ [r]))"
proof -
  let ?same = "filter (\<lambda>i. py_eq (dget i ''directive_id'') (dget r ''directive_id'')) rs"
  have a: "valid_directive r" "?same = [] \<or> directive_revision r = directive_revision (last ?same) + 1"
    "j' = write_jsonl MAX_DIRECTIVES (rs @ [r])"
    using assms(3) by (auto simp: append_directive_def assms(1) bindE_Inr raise_if_Inr Let_def)
  have v: "\<forall>i \<in> set rs. valid_directive i" using assms(1) by (simp add: load_directives_Inr)
  have same: "?same = filter (\<lambda>i. directive_id i = directive_id r) rs"
    using v a(1) valid_directive_fields(1) by (intro filter_cong) auto
  have "directive_revision i < directive_revision r" if i: "i \<in> set rs" "directive_id i = directive_id r" for i
  proof -
    have "?same \<noteq> []" "i \<in> set ?same" using i by (auto simp: same filter_empty_conv)
    moreover have "sorted_wrt (\<lambda>a b. directive_revision a < directive_revision b) ?same"
      unfolding same by (rule sorted_wrt_mono_rel [OF _ sorted_wrt_filter [OF assms(2) [unfolded increasing_def]]]) auto
    ultimately have "directive_revision i \<le> directive_revision (last ?same)"
      by (cases ?same rule: rev_cases) (auto simp: sorted_wrt_append)
    then show ?thesis using a(2) \<open>?same \<noteq> []\<close> by auto
  qed
  then show "increasing (rs @ [r])" using assms(2) by (auto simp: increasing_def sorted_wrt_append)
  show "valid_directive r" by (rule a(1))
  show "load_directives j' = Inr (keep_last MAX_DIRECTIVES (rs @ [r]))"
    using assms(1) a(1) unfolding a(3) load_directives_def by (rule load_write_jsonl)
qed

lemma newest_of_keep_last: "newest_of (keep_last n rs) k = Some r \<Longrightarrow> newest_of rs k = Some r"
  using newest_of_suffix [of "keep_last n rs" k r "take (length rs - n) rs"] by (simp add: keep_last_def)

lemma appended_ok:
  assumes "journal_ok j" "append_directive j r = Inr j'" 
    and "\<And>rs b. load_directives j = Inr rs \<Longrightarrow> newest_of rs (directive_id b) = Some b \<Longrightarrow> valid_directive r \<Longrightarrow> \<not> contradicts b r"
  shows "journal_ok j'"
proof -
  obtain rs where rs: "load_directives j = Inr rs" "increasing rs" "\<forall>a b. newest_of rs (directive_id a) = Some a \<and> newest_of rs (directive_id b) = Some b \<longrightarrow> \<not> contradicts a b"
    using assms(1) by (auto simp: journal_ok_def)
  note a = appended_increasing [OF rs(1,2) assms(2)]
  have "\<not> contradicts a b"
    if "newest_of (keep_last MAX_DIRECTIVES (rs @ [r])) (directive_id a) = Some a" "newest_of (keep_last MAX_DIRECTIVES (rs @ [r])) (directive_id b) = Some b" for a b
  proof -
    have "x = r \<or> newest_of rs (directive_id x) = Some x" if "newest_of (keep_last MAX_DIRECTIVES (rs @ [r])) (directive_id x) = Some x" for x
    proof (cases "directive_id x = directive_id r")
      case True
      have "newest_of (rs @ [r]) (directive_id x) = Some x" using that by (rule newest_of_keep_last)
      moreover have "newest_of (rs @ [r]) (directive_id x) = Some r" unfolding True by simp
      ultimately show ?thesis by simp
    next
      case False
      then show ?thesis using newest_of_keep_last [OF that] by (simp add: fun_upd_other)
    qed
    note ab = this [OF that(1)] this [OF that(2)]
    have "valid_directive x" if "newest_of rs (directive_id x) = Some x" for x
      using newest_of_Some [OF that] rs(1) by (simp add: load_directives_Inr)
    then have c: "\<not> contradicts x r \<and> \<not> contradicts r x" if "newest_of rs (directive_id x) = Some x" for x
      using that assms(3) [OF rs(1) that a(2)] contradicts_commute [OF _ a(2)] by blast
    have "\<not> contradicts r r" by (simp add: contradicts_def)
    then show ?thesis using ab rs(3) c by blast
  qed
  moreover have "increasing (keep_last MAX_DIRECTIVES (rs @ [r]))" using a(1) by (simp add: increasing_def sorted_wrt_keep_last)
  ultimately show ?thesis using a(3) by (auto simp: journal_ok_def)
qed

section \<open>Commands\<close>

text \<open>One command, whether it returns or raises.\<close>

inductive directive_step :: "history_file \<Rightarrow> history_file \<Rightarrow> bool" where
  command: "cmd_directive env args j = (j', res) \<Longrightarrow> directive_step j j'"

lemma cmd_directive_cases:
  assumes "cmd_directive env args j = (j', res)"
  obtains "j' = j"
  | records r where "latest_directives j = Inr records" "create_directive env args records = Inr r" "append_directive j r = Inr j'"
  | records r where "latest_directives j = Inr records" "transition_directive env args records = Inr r" "append_directive j r = Inr j'"
  using assms
  by (auto simp: cmd_directive_def commit_directive_def bindE_Inr split: sum.split_asm if_split_asm prod.split_asm)

lemma created_proposed: "create_directive env args records = Inr r \<Longrightarrow> dget r ''lifecycle'' = PStr ''proposed''"
  by (auto simp: create_directive_def build_directive_def Let_def elim!: bindE_elim)

lemma transition_active:
  assumes "transition_directive env args records = Inr r" "dget r ''lifecycle'' = PStr ''active''"
  shows "conflicting_directives records r = Inr []"
proof -
  obtain candidate lifecycle where c: "directive_lifecycle (arg_str args ''action'') candidate records = Inr lifecycle"
    "r = (let m = dset candidate ''lifecycle'' (PStr lifecycle) in if lifecycle \<noteq> ''active'' then dset (dset m ''owner'' (PStr [])) ''claim_expires'' (PStr []) else m)"
    using assms(1) unfolding transition_directive_def Let_def by (auto elim!: bindE_elim split: option.split_asm if_split_asm)
  have l: "lifecycle = ''active''" using assms(2) unfolding c(2) by (auto simp: Let_def split: if_split_asm)
  then have "r = dset candidate ''lifecycle'' (PStr ''active'')" by (simp add: c(2))
  moreover have "conflicting_directives records (dset candidate ''lifecycle'' (PStr ''active'')) = Inr []"
    using c(1) unfolding l by (auto simp: directive_lifecycle_def elim!: bindE_elim split: if_split_asm)
  ultimately show ?thesis by simp
qed

lemma cmd_directive_ok:
  assumes "journal_ok j" "cmd_directive env args j = (j', res)"
  shows "journal_ok j'"
  using assms(2)
proof (rule cmd_directive_cases)
  assume "j' = j"
  then show ?thesis using assms(1) by simp
next
  fix records r assume c: "create_directive env args records = Inr r" "append_directive j r = Inr j'"
  show ?thesis using assms(1) c(2) by (rule appended_ok) (simp add: contradicts_def created_proposed [OF c(1)])
next
  fix records r assume c: "latest_directives j = Inr records" "transition_directive env args records = Inr r" "append_directive j r = Inr j'"
  obtain rs where rs: "load_directives j = Inr rs" "increasing rs" using assms(1) by (auto simp: journal_ok_def)
  have records: "\<forall>x. x \<in> set records \<longleftrightarrow> newest_of rs (directive_id x) = Some x"
  proof -
    obtain xs where "latest_directives j = Inr xs" "\<forall>x. x \<in> set xs \<longleftrightarrow> newest_of rs (directive_id x) = Some x" using rs by (rule latest_directives_of) blast
    then show ?thesis using c(1) by simp
  qed
  have "\<forall>x \<in> set records. valid_directive x" using records newest_of_Some rs(1) by (fastforce simp: load_directives_Inr)
  then have "\<not> contradicts b r" if "b \<in> set records" "valid_directive r" for b
    using that transition_active [OF c(2)] conflicting_valid [of records r] by (auto simp: contradicts_def filter_empty_conv)
  then have "\<not> contradicts b r" if "load_directives j = Inr rs'" "newest_of rs' (directive_id b) = Some b" "valid_directive r" for rs' b
    using that records rs(1) by simp
  with assms(1) c(3) show ?thesis by (rule appended_ok)
qed

lemma reachable_journal_ok:
  assumes "directive_step\<^sup>*\<^sup>* None j"
  shows "journal_ok j"
  using assms
proof (induction rule: rtranclp_induct)
  case base
  show ?case by (simp add: journal_ok_def load_directives_def load_jsonl_def increasing_def)
next
  case (step j j')
  then show ?case by (auto elim!: directive_step.cases dest: cmd_directive_ok)
qed

text \<open>The lease of a directive.\<close>

definition claim_live :: "int \<Rightarrow> meta \<Rightarrow> bool" where
  "claim_live clock r \<longleftrightarrow> (\<exists>l off. fromisoformat (py_str (dget r ''claim_expires'')) = Inr (Aware l off) \<and> clock < l - off)"

lemma directive_claim_live: "directive_claim_is_live env r owner = Inr () \<longleftrightarrow> py_str (dget r ''owner'') = owner \<and> claim_live (d_now env) r"
proof -
  show ?thesis
  proof (cases "fromisoformat (py_str (dget r ''claim_expires''))")
    case (Inr t)
    then show ?thesis by (cases t) (auto simp: directive_claim_is_live_def claim_live_def bindE_Inr raise_if_Inr value_to_def catchE_def not_le)
  qed (auto simp: directive_claim_is_live_def claim_live_def bindE_Inr raise_if_Inr value_to_def catchE_def)
qed

text \<open>Retention counts revisions, not directives: the revision that falls out of a full journal may be the only one of an active directive.\<close>

lemma oldest_directive_lost:
  assumes "load_directives j = Inr (d # rs)" "length rs = 63" "directive_id d \<notin> directive_id ` set rs" "directive_id r \<noteq> directive_id d" "append_directive j r = Inr j'"
  shows "\<exists>rs'. load_directives j' = Inr rs' \<and> newest_of rs' (directive_id d) = None"
proof -
  have a: "j' = write_jsonl MAX_DIRECTIVES ((d # rs) @ [r])" "valid_directive r"
    using assms(5) by (auto simp: append_directive_def assms(1) bindE_Inr Let_def)
  have k: "keep_last MAX_DIRECTIVES ((d # rs) @ [r]) = rs @ [r]" using assms(2) by (simp add: keep_last_def MAX_DIRECTIVES_def)
  have "load_directives j' = Inr (rs @ [r])"
    using load_write_jsonl [OF assms(1) [unfolded load_directives_def] a(2)] unfolding load_directives_def a(1) k .
  moreover have "newest_of (rs @ [r]) (directive_id d) = None" using assms(3,4) by (simp add: newest_of_None)
  ultimately show ?thesis by blast
qed

lemma latest_unique:
  assumes "directive_step\<^sup>*\<^sup>* None j" "latest_directives j = Inr records"
  shows "a \<in> set records \<Longrightarrow> b \<in> set records \<Longrightarrow> directive_id a = directive_id b \<Longrightarrow> a = b"
    "a \<in> set records \<Longrightarrow> dget a ''directive_id'' = PStr (directive_id a)"
proof -
  obtain rs where rs: "load_directives j = Inr rs" "increasing rs" using reachable_journal_ok [OF assms(1)] by (auto simp: journal_ok_def)
  obtain xs where "latest_directives j = Inr xs" "\<forall>x. x \<in> set xs \<longleftrightarrow> newest_of rs (directive_id x) = Some x" using rs by (rule latest_directives_of) blast
  then have x: "\<forall>x. x \<in> set records \<longleftrightarrow> newest_of rs (directive_id x) = Some x" using assms(2) by simp
  show "a \<in> set records \<Longrightarrow> b \<in> set records \<Longrightarrow> directive_id a = directive_id b \<Longrightarrow> a = b" using x by simp
  show "a \<in> set records \<Longrightarrow> dget a ''directive_id'' = PStr (directive_id a)"
    using x newest_of_Some [of rs "directive_id a" a] rs(1) valid_directive_fields(1) [of a] by (simp add: load_directives_Inr)
qed

text \<open>A record that is appended has the identifier of the arguments, and a transition needs a live lease.\<close>

lemma directive_id_text: "is_directive_id (str_of v) \<Longrightarrow> v = PStr (str_of v)"
  by (cases v) (simp_all add: is_directive_id_def str_of_def)

lemma created_id:
  assumes "create_directive env args records = Inr r"
  shows "dget args ''directive_id'' = PStr (directive_id r)" "\<forall>i \<in> set records. \<not> py_eq (dget i ''directive_id'') (PStr (directive_id r))"
proof -
  have b: "is_directive_id (arg_str args ''directive_id'')" "directive_id r = arg_str args ''directive_id''"
    "\<forall>i \<in> set records. \<not> py_eq (dget i ''directive_id'') (dget args ''directive_id'')"
    using assms by (auto simp: create_directive_def build_directive_def directive_id_def Let_def raise_if_Inr list_ex_iff elim!: bindE_elim)
  show "dget args ''directive_id'' = PStr (directive_id r)"
    using b(1,2) directive_id_text [of "dget args ''directive_id''"] by (simp add: arg_str_def)
  then show "\<forall>i \<in> set records. \<not> py_eq (dget i ''directive_id'') (PStr (directive_id r))" using b(3) by simp
qed

lemma transition_id:
  assumes "transition_directive env args records = Inr r"
  obtains c where "c \<in> set records" "claim_live (d_now env) c" "py_eq (dget c ''directive_id'') (dget args ''directive_id'')" "directive_id r = directive_id c"
proof -
  obtain c where c: "find (\<lambda>i. py_eq (dget i ''directive_id'') (dget args ''directive_id'')) records = Some c" "claim_live (d_now env) c"
    "dget r ''directive_id'' = dget c ''directive_id''"
    using assms by (auto simp: transition_directive_def directive_claim_live Let_def elim!: bindE_elim split: option.split_asm)
  then have "c \<in> set records" "py_eq (dget c ''directive_id'') (dget args ''directive_id'')" by (auto simp: find_Some_iff)
  then show thesis using that c(2,3) by (simp add: directive_id_def)
qed

lemma newest_of_Cons: "newest_of (a # rs) k = (case newest_of rs k of Some r \<Rightarrow> Some r | None \<Rightarrow> if directive_id a = k then Some a else None)"
  by (auto simp: newest_of_def map_add_def split: option.splits)

lemma appended_newest:
  assumes "newest_of rs k = Some c" "directive_id r \<noteq> k" "length rs \<le> MAX_DIRECTIVES"
  shows "newest_of (keep_last MAX_DIRECTIVES (rs @ [r])) k = Some c \<or>
    newest_of (keep_last MAX_DIRECTIVES (rs @ [r])) k = None \<and> (\<exists>xs. rs = c # xs \<and> length rs = MAX_DIRECTIVES \<and> k \<notin> directive_id ` set xs)"
proof (cases "length rs = MAX_DIRECTIVES")
  case True
  then obtain a xs where xs: "rs = a # xs" by (cases rs) (auto simp: MAX_DIRECTIVES_def)
  then have "keep_last MAX_DIRECTIVES (rs @ [r]) = xs @ [r]" using True by (simp add: keep_last_def)
  then show ?thesis
    using assms(1,2) True newest_of_None [of xs k] by (auto simp: xs newest_of_Cons split: option.splits if_splits)
next
  case False
  then have "keep_last MAX_DIRECTIVES (rs @ [r]) = rs @ [r]" using assms(3) by (simp add: keep_last_def)
  then show ?thesis using assms(1,2) by simp
qed

section \<open>An example\<close>

definition example_directive_env :: directive_env where
  "example_directive_env = \<lparr>d_now = 0, d_ready = Inr (), d_commit = Inr True, d_push = Inr ()\<rparr>"

definition example_directive_args :: namespace where
  "example_directive_args = [(''directive_action'', PStr ''create''), (''directive_id'', PStr ''UD-0001''), (''authority'', PStr ''BOARD-001''), (''precedence'', PInt 10),
     (''role_scope'', PList [PStr ''implementer'']), (''task_scope'', PList []), (''statement'', PStr ''keep''), (''owner'', PStr ''BOARD''), (''lease_minutes'', PInt 1), (''guidance_ref'', PStr [])]"

definition example_directive :: meta where
  "example_directive = [(''schema_version'', PInt 1), (''directive_id'', PStr ''UD-0001''), (''authority'', PStr ''BOARD-001''), (''precedence'', PInt 10),
     (''scope'', PDict [(''roles'', PList [PStr ''implementer'']), (''tasks'', PList [])]), (''statement'', PStr ''keep''), (''lifecycle'', PStr ''proposed''), (''revision'', PInt 1),
     (''owner'', PStr ''BOARD''), (''claim_expires'', PStr ''0001-01-01T00:01:00+00:00''), (''guidance_ref'', PStr []), (''created_at'', PStr ''0001-01-01T00:00:00+00:00''),
     (''updated_at'', PStr ''0001-01-01T00:00:00+00:00'')]"

lemma example_directive_created: "cmd_directive example_directive_env example_directive_args None = (Some [JsonLine (PDict example_directive)], Inr [example_directive])"
  by code_simp

lemma example_directive_latest: "latest_directives (Some [JsonLine (PDict example_directive)]) = Inr [example_directive]"
  by code_simp

lemma example_directive_expiry: "fromisoformat ''0001-01-01T00:01:00+00:00'' = Inr (Aware 60000000 0)"
  by code_simp

section \<open>Properties\<close>

text \<open>
  Property C37. Whatever directive commands run, and whether they return or raise, the journal stays readable with
  increasing revisions, the directive validation of the board check finds nothing, and no two active directives contradict each other.
\<close>

theorem active_directives_agree:
  assumes "directive_step\<^sup>*\<^sup>* None j"
  shows "directive_validation_errors j = Inr [] \<and>
    (\<exists>records. latest_directives j = Inr records \<and> distinct (map directive_id records) \<and> (\<forall>a \<in> set records. \<forall>b \<in> set records. \<not> contradicts a b))"
proof -
  note ok = reachable_journal_ok [OF assms]
  obtain rs where rs: "load_directives j = Inr rs" "increasing rs" "\<forall>a b. newest_of rs (directive_id a) = Some a \<and> newest_of rs (directive_id b) = Some b \<longrightarrow> \<not> contradicts a b"
    using ok by (auto simp: journal_ok_def)
  obtain xs where "latest_directives j = Inr xs" "\<forall>x. x \<in> set xs \<longleftrightarrow> newest_of rs (directive_id x) = Some x" "distinct (map directive_id xs)"
    using rs(1,2) by (rule latest_directives_of)
  then show ?thesis using rs(3) journal_ok_checked [OF ok] by auto
qed

lemma expired_untouched:
  assumes "directive_step\<^sup>*\<^sup>* None j" "latest_directives j = Inr records" "current \<in> set records" "\<not> claim_live (d_now env) current"
    and "create_directive env args records = Inr r \<or> transition_directive env args records = Inr r"
  shows "directive_id r \<noteq> directive_id current" "dget args ''directive_id'' \<noteq> PStr (directive_id current)"
proof -
  note unique = latest_unique [OF assms(1,2)]
  have "directive_id r \<noteq> directive_id current \<and> dget args ''directive_id'' \<noteq> PStr (directive_id current)"
    using assms(5)
  proof
    assume c: "create_directive env args records = Inr r"
    then have "directive_id r \<noteq> directive_id current" using created_id(2) [OF c] unique(2) [OF assms(3)] assms(3) by fastforce
    then show ?thesis using created_id(1) [OF c] by simp
  next
    assume "transition_directive env args records = Inr r"
    then obtain c where c: "c \<in> set records" "claim_live (d_now env) c" "py_eq (dget c ''directive_id'') (dget args ''directive_id'')" "directive_id r = directive_id c"
      by (rule transition_id)
    then have "directive_id c \<noteq> directive_id current" using unique(1) [OF c(1) assms(3)] assms(4) by blast
    then show ?thesis using c(3,4) unique(2) [OF c(1)] by auto
  qed
  then show "directive_id r \<noteq> directive_id current" "dget args ''directive_id'' \<noteq> PStr (directive_id current)" by simp_all
qed

lemma latest_after_append:
  assumes "load_directives j = Inr rs" "increasing rs" "append_directive j r = Inr j'" "newest_of rs (directive_id c) = Some c" "directive_id r \<noteq> directive_id c"
  shows "\<exists>records'. latest_directives j' = Inr records' \<and>
    (c \<in> set records' \<or> directive_id c \<notin> directive_id ` set records' \<and>
      (\<exists>xs. rs = c # xs \<and> length rs = MAX_DIRECTIVES \<and> directive_id c \<notin> directive_id ` set xs))"
proof -
  note a = appended_increasing [OF assms(1-3)]
  have "increasing (keep_last MAX_DIRECTIVES (rs @ [r]))" using a(1) by (simp add: increasing_def keep_last_def sorted_wrt_drop del: drop_append)
  then obtain ys where ys: "latest_directives j' = Inr ys" "\<forall>x. x \<in> set ys \<longleftrightarrow> newest_of (keep_last MAX_DIRECTIVES (rs @ [r])) (directive_id x) = Some x"
    using a(3) latest_directives_of by blast
  have "length rs \<le> MAX_DIRECTIVES" using assms(1) by (simp add: load_directives_Inr)
  from appended_newest [OF assms(4,5) this] show ?thesis
  proof
    assume "newest_of (keep_last MAX_DIRECTIVES (rs @ [r])) (directive_id c) = Some c"
    then show ?thesis using ys by blast
  next
    assume lost: "newest_of (keep_last MAX_DIRECTIVES (rs @ [r])) (directive_id c) = None \<and>
      (\<exists>xs. rs = c # xs \<and> length rs = MAX_DIRECTIVES \<and> directive_id c \<notin> directive_id ` set xs)"
    have "directive_id c \<notin> directive_id ` set ys"
    proof
      assume "directive_id c \<in> directive_id ` set ys"
      then obtain x where "x \<in> set ys" "directive_id x = directive_id c" by auto
      then show False using ys(2) lost by fastforce
    qed
    then show ?thesis using ys(1) lost by blast
  qed
qed

text \<open>
  Property C38. No command changes a directive whose lease has run out. A command that names it, other than a listing, is
  refused and leaves the journal alone: it cannot be activated, superseded, revoked or escalated, and it cannot be created
  again. After any command its latest record is still the same, or the journal was full, held that record alone of the
  directive and held it first: then a revision of another directive has pushed it out, and the directive is gone.
\<close>

theorem expired_directive_frozen:
  assumes "directive_step\<^sup>*\<^sup>* None j" and "latest_directives j = Inr records" and "current \<in> set records"
    and "\<not> claim_live (d_now env) current" and "cmd_directive env args j = (j', res)"
  shows "(dget args ''directive_id'' = PStr (directive_id current) \<and> dget args ''directive_action'' \<noteq> PStr ''list'' \<longrightarrow> j' = j \<and> (\<exists>e. res = Inl e)) \<and>
    (\<exists>records'. latest_directives j' = Inr records' \<and>
      (current \<in> set records' \<or>
       directive_id current \<notin> directive_id ` set records' \<and>
       (\<exists>rs. load_directives j = Inr (current # rs) \<and> Suc (length rs) = MAX_DIRECTIVES \<and> directive_id current \<notin> directive_id ` set rs)))"
proof -
  note moved = expired_untouched [OF assms(1-4)]
  obtain rs where rs: "load_directives j = Inr rs" "increasing rs" using reachable_journal_ok [OF assms(1)] by (auto simp: journal_ok_def)
  obtain xs where "latest_directives j = Inr xs" "\<forall>x. x \<in> set xs \<longleftrightarrow> newest_of rs (directive_id x) = Some x" using rs by (rule latest_directives_of) blast
  then have newest: "newest_of rs (directive_id current) = Some current" using assms(2,3) by simp
  have appended: "\<exists>records'. latest_directives j' = Inr records' \<and> (current \<in> set records' \<or> directive_id current \<notin> directive_id ` set records' \<and>
       (\<exists>rs. load_directives j = Inr (current # rs) \<and> Suc (length rs) = MAX_DIRECTIVES \<and> directive_id current \<notin> directive_id ` set rs))"
    if "append_directive j r = Inr j'" "directive_id r \<noteq> directive_id current" for r
    using latest_after_append [OF rs that(1) newest that(2)] rs(1) by auto
  have refused: "j' = j \<and> (\<exists>e. res = Inl e)" if "dget args ''directive_id'' = PStr (directive_id current)" "dget args ''directive_action'' \<noteq> PStr ''list''"
  proof -
    have "\<exists>e. (if dget args ''directive_action'' = PStr ''create'' then create_directive env args records else transition_directive env args records) = Inl e"
      using moved(2) that(1) by (cases "create_directive env args records"; cases "transition_directive env args records") auto
    then show ?thesis using assms(2,5) that(2) by (cases "d_ready env") (auto simp: cmd_directive_def)
  qed
  have "\<exists>records'. latest_directives j' = Inr records' \<and> (current \<in> set records' \<or> directive_id current \<notin> directive_id ` set records' \<and>
       (\<exists>rs. load_directives j = Inr (current # rs) \<and> Suc (length rs) = MAX_DIRECTIVES \<and> directive_id current \<notin> directive_id ` set rs))"
    using assms(5)
  proof (rule cmd_directive_cases)
    assume "j' = j"
    then show ?thesis using assms(2,3) by blast
  next
    fix records' r assume c: "latest_directives j = Inr records'" "create_directive env args records' = Inr r" "append_directive j r = Inr j'"
    then have "directive_id r \<noteq> directive_id current" using moved(1) [of args r] assms(2) by simp
    then show ?thesis by (rule appended [OF c(3)])
  next
    fix records' r assume c: "latest_directives j = Inr records'" "transition_directive env args records' = Inr r" "append_directive j r = Inr j'"
    then have "directive_id r \<noteq> directive_id current" using moved(1) [of args r] assms(2) by simp
    then show ?thesis by (rule appended [OF c(3)])
  qed
  then show ?thesis using refused by blast
qed

theorem active_directives_agree_witness:
  "\<exists>j. directive_step\<^sup>*\<^sup>* None j \<and> latest_directives j = Inr [example_directive] \<and> directive_validation_errors j = Inr []"
proof -
  let ?j = "Some [JsonLine (PDict example_directive)]"
  have "directive_step\<^sup>*\<^sup>* None ?j" using directive_step.command [OF example_directive_created] by simp
  then show ?thesis using active_directives_agree [of ?j] example_directive_latest by blast
qed

theorem expired_directive_frozen_witness:
  "\<exists>j e. directive_step\<^sup>*\<^sup>* None j \<and> cmd_directive (example_directive_env\<lparr>d_now := 60000000\<rparr>)
     [(''directive_action'', PStr ''transition''), (''directive_id'', PStr ''UD-0001''), (''action'', PStr ''revoke''), (''owner'', PStr ''BOARD''), (''expected_revision'', PInt 1)] j = (j, Inl e)"
proof -
  let ?j = "Some [JsonLine (PDict example_directive)]" and ?env = "example_directive_env\<lparr>d_now := 60000000\<rparr>"
  let ?args = "[(''directive_action'', PStr ''transition''), (''directive_id'', PStr ''UD-0001''), (''action'', PStr ''revoke''), (''owner'', PStr ''BOARD''), (''expected_revision'', PInt 1)]"
  have s: "directive_step\<^sup>*\<^sup>* None ?j" using directive_step.command [OF example_directive_created] by simp
  have e: "\<not> claim_live (d_now ?env) example_directive" using example_directive_expiry by (simp add: claim_live_def example_directive_def)
  have n: "dget ?args ''directive_id'' = PStr (directive_id example_directive)" by (simp add: directive_id_def example_directive_def)
  obtain j' res where c: "cmd_directive ?env ?args ?j = (j', res)" by (cases "cmd_directive ?env ?args ?j")
  have "example_directive \<in> set [example_directive]" by simp
  from expired_directive_frozen [OF s example_directive_latest this e c] n have "j' = ?j \<and> (\<exists>e. res = Inl e)" by simp
  then show ?thesis using s c by blast
qed

end
