(* ===== verification/Rollback.thy ===== *)
theory Rollback
  imports Git_Mutation Jsonl_Journal
begin

text \<open>
  The rollback of a checkpoint: the journal of \<open>src/tools/rollback_records.py\<close> and \<open>cmd_rollback\<close> of
  \<open>src/tools/handoffctl.py\<close>. The command records that a restore is planned and started, reverts the product
  checkout, restores the task and records the completion; when an effect fails it records that the operation
  is ambiguous, and a later command reconciles it. The theory shows that the product is reverted at
  most once, also when the command is killed at any of its effects.

  An action maps a state to a state and an outcome: it returns, raises, or the process dies, which no handler
  catches. The state holds the tree of the coordinator, the head of the product checkout and, for the
  statements only, the heads that reverts have made.
\<close>

section \<open>Records\<close>

definition MAX_ROLLBACK_RECORDS :: nat where "MAX_ROLLBACK_RECORDS = 64"

definition COMMIT_RE :: "string \<Rightarrow> bool" where "COMMIT_RE = all_hex 40"

definition CHECKPOINT_RE :: "string \<Rightarrow> bool" where
  "CHECKPOINT_RE s = (is_task_id (take 7 s) \<and> starts_with (drop 7 s) ''-r'' \<and> length s = 13 \<and> list_all is_digit (drop 9 s))"

definition ROLLBACK_STATUS :: "string list" where
  "ROLLBACK_STATUS = [''planned'', ''restore_started'', ''rollback_completed'', ''ambiguous'']"

definition ROLLBACK_RECORD_FIELDS :: "string list" where
  "ROLLBACK_RECORD_FIELDS = [''schema_version'', ''operation_id'', ''checkpoint'', ''task'', ''source_commit'', ''current_commit'', ''rollback_commit'', ''recorded_at'', ''status'', ''revision'']"

text \<open>\<open>str(uuid.UUID(s))\<close>: prefixes, braces and hyphens are dropped, and \<open>int(h, 16)\<close> reads what is left.\<close>

fun remove_sub :: "nat \<Rightarrow> string \<Rightarrow> string \<Rightarrow> string" where
  "remove_sub skip sub [] = []"
| "remove_sub (Suc n) sub (c # s) = remove_sub n sub s"
| "remove_sub 0 sub (c # s) = (if starts_with (c # s) sub then remove_sub (length sub - 1) sub s else c # remove_sub 0 sub s)"

definition parse_hex :: "string \<Rightarrow> int option" where
  "parse_hex s =
     (let t = strip s; neg = starts_with t ''-''; u = (if neg \<or> starts_with t ''+'' then drop 1 t else t);
          prefixed = starts_with u ''0x'' \<or> starts_with u ''0X''; v = (if prefixed then drop 2 u else u);
          w = (if prefixed \<and> starts_with v ''_'' then drop 1 v else v); gs = split_on CHR ''_'' w in
      if list_all (\<lambda>g. g \<noteq> [] \<and> list_all (\<lambda>c. hex_value c \<noteq> None) g) gs
      then Some ((if neg then - 1 else 1) * fold (\<lambda>c n. 16 * n + int (the (hex_value c))) (concat gs) 0) else None)"

definition strip_braces :: "string \<Rightarrow> string" where
  "strip_braces s = rev (dropWhile (\<lambda>c. c \<in> set ''{}'') (rev (dropWhile (\<lambda>c. c \<in> set ''{}'') s)))"

definition uuid_text :: "string \<Rightarrow> string result" where
  "uuid_text s =
     (let h = filter (\<lambda>c. c \<noteq> CHR ''-'') (strip_braces (remove_sub 0 ''uuid:'' (remove_sub 0 ''urn:'' s)));
          invalid = Inl (ValueError ''badly formed hexadecimal UUID string'') in
      if length h \<noteq> 32 then invalid
      else case parse_hex h of
        None \<Rightarrow> invalid
      | Some n \<Rightarrow> if n < 0 then invalid
          else let ds = map (\<lambda>i. hex_digit (nat (n div 16 ^ (31 - i) mod 16))) [0..<32] in
            Inr (take 8 ds @ ''-'' @ take 4 (drop 8 ds) @ ''-'' @ take 4 (drop 12 ds) @ ''-'' @ take 4 (drop 16 ds) @ ''-'' @ drop 20 ds))"

text \<open>\<open>fresh\<close> is the identifier that \<open>uuid4\<close> gives.\<close>

definition build_rollback :: "string \<Rightarrow> meta \<Rightarrow> string \<Rightarrow> string \<Rightarrow> string \<Rightarrow> string \<Rightarrow> string \<Rightarrow> int \<Rightarrow> meta result" where
  "build_rollback fresh checkpoint current_commit recorded_at status operation_id rollback_commit revision =
     (let name = py_str (dget_or checkpoint ''name'' (PStr [])); source = py_str (dget_or checkpoint ''source_commit'' (PStr []));
          task = py_str (dget_or checkpoint ''task'' (PStr [])) in
      bindE (raise_if (\<not> CHECKPOINT_RE name) (ValueError ''invalid rollback checkpoint'')) (\<lambda>_.
      bindE (raise_if (\<not> is_task_id task) (ValueError ''invalid rollback task'')) (\<lambda>_.
      bindE (raise_if (\<not> COMMIT_RE source \<or> \<not> COMMIT_RE current_commit) (ValueError ''invalid rollback commit'')) (\<lambda>_.
      bindE (raise_if (rollback_commit \<noteq> [] \<and> \<not> COMMIT_RE rollback_commit) (ValueError ''invalid rollback result commit'')) (\<lambda>_.
      bindE (raise_if (status \<notin> set ROLLBACK_STATUS) (ValueError ''invalid rollback status'')) (\<lambda>_.
      bindE (raise_if (revision < 1) (ValueError ''invalid rollback revision'')) (\<lambda>_.
      bindE (value_to (ValueError ''invalid rollback operation'') (if operation_id \<noteq> [] then uuid_text operation_id else Inr fresh)) (\<lambda>operation.
      Inr [(''schema_version'', PInt 1), (''operation_id'', PStr operation), (''checkpoint'', PStr name), (''task'', PStr task), (''source_commit'', PStr source),
        (''current_commit'', PStr current_commit), (''rollback_commit'', PStr rollback_commit), (''recorded_at'', PStr recorded_at), (''status'', PStr status), (''revision'', PInt revision)]))))))))"

definition rollback_identity :: "meta \<Rightarrow> unit result" where
  "rollback_identity r =
     bindE (raise_if (\<not> keys_exact r ROLLBACK_RECORD_FIELDS \<or> \<not> py_eq (dget r ''schema_version'') (PInt 1)) (ValueError ''invalid rollback fields'')) (\<lambda>_.
     bindE (value_to (ValueError ''invalid rollback operation'') (uuid_text (py_str (dget r ''operation_id'')))) (\<lambda>_.
     bindE (raise_if (\<not> CHECKPOINT_RE (py_str (dget r ''checkpoint''))) (ValueError ''invalid rollback checkpoint'')) (\<lambda>_.
     bindE (raise_if (\<not> is_task_id (py_str (dget r ''task''))) (ValueError ''invalid rollback task'')) (\<lambda>_.
     for_each (\<lambda>field. raise_if (\<not> is_str (dget r field) \<or> \<not> COMMIT_RE (str_of (dget r field))) (ValueError ''invalid rollback commit'')) [''source_commit'', ''current_commit'']))))"

definition rollback_content :: "meta \<Rightarrow> unit result" where
  "rollback_content r =
     bindE (raise_if (\<not> is_str (dget r ''rollback_commit'') \<or> str_of (dget r ''rollback_commit'') \<noteq> [] \<and> \<not> COMMIT_RE (str_of (dget r ''rollback_commit'')))
       (ValueError ''invalid rollback result commit'')) (\<lambda>_.
     bindE (raise_if (\<not> is_str (dget r ''recorded_at'') \<or> str_of (dget r ''recorded_at'') = []) (ValueError ''invalid rollback timestamp'')) (\<lambda>_.
     bindE (hash_not_in (dget r ''status'') ROLLBACK_STATUS) (\<lambda>bad.
     bindE (raise_if bad (ValueError ''invalid rollback status'')) (\<lambda>_.
     raise_if (\<not> exact_int (dget r ''revision'') \<or> int_of (dget r ''revision'') < 1) (ValueError ''invalid rollback revision'')))))"

definition validate_rollback :: "meta \<Rightarrow> unit result" where
  "validate_rollback r = bindE (rollback_identity r) (\<lambda>_. rollback_content r)"

section \<open>The journal\<close>

definition rollback_path :: string where "rollback_path = ''rollbacks/operations.jsonl''"

definition load_rollbacks :: "history_file \<Rightarrow> meta list result" where
  "load_rollbacks j = load_jsonl validate_rollback ''rollback'' MAX_ROLLBACK_RECORDS j"

definition append_rollback :: "history_file \<Rightarrow> meta \<Rightarrow> history_file result" where
  "append_rollback j r =
     bindE (validate_rollback r) (\<lambda>_.
     bindE (load_rollbacks j) (\<lambda>existing.
     Inr (write_jsonl MAX_ROLLBACK_RECORDS (existing @ [r]))))"

definition latest_for_checkpoint :: "history_file \<Rightarrow> string \<Rightarrow> meta option result" where
  "latest_for_checkpoint j checkpoint =
     bindE (load_rollbacks j) (\<lambda>rs.
     let matches = filter (\<lambda>r. py_eq (dget r ''checkpoint'') (PStr checkpoint)) rs in
     Inr (if matches \<noteq> [] then Some (last matches) else None))"

section \<open>Actions\<close>

datatype 'a outcome = Returned 'a | Raised exc | Killed

record rb_state =
  rb_tree :: tree
  rb_head :: string
  rb_reverts :: "string list"

type_synonym 'a act = "rb_state \<Rightarrow> rb_state \<times> 'a outcome"

definition act_bind :: "'a act \<Rightarrow> ('a \<Rightarrow> 'b act) \<Rightarrow> 'b act" where
  "act_bind m f s = (case m s of (s', Returned x) \<Rightarrow> f x s' | (s', Raised e) \<Rightarrow> (s', Raised e) | (s', Killed) \<Rightarrow> (s', Killed))"

text \<open>\<open>try: m except Exception as e: h e\<close>.\<close>

definition act_catch :: "'a act \<Rightarrow> (exc \<Rightarrow> 'a act) \<Rightarrow> 'a act" where
  "act_catch m h s = (case m s of (s', Raised e) \<Rightarrow> h e s' | r \<Rightarrow> r)"

definition act_result :: "'a result \<Rightarrow> 'a act" where
  "act_result r s = (s, case r of Inl e \<Rightarrow> Raised e | Inr x \<Rightarrow> Returned x)"

definition act_outcome :: "'a outcome \<Rightarrow> 'a act" where
  "act_outcome r s = (s, r)"

section \<open>The command\<close>

text \<open>The surroundings of one command: \<open>v_ready\<close> is the backend test, the lock and the test that the state repository is clean,
  \<open>v_paths\<close> the checkpoint files, \<open>v_product source head\<close> the configured checkout with the tests that it is clean and that the
  source commit is an ancestor of its head, \<open>v_policy\<close> the policy file at the start, after the target was
  found, before the product effect and before the task effect. \<open>v_commit\<close> and \<open>v_push\<close> are the
  commit and the push of a journal record, by its status, \<open>v_revert source head\<close> is the Git revert of the product, with the
  head it leaves; \<open>v_git\<close> serves the mutation of the task, \<open>v_reconcile\<close> is the refresh of the views.\<close>

record rb_env =
  v_ready :: "unit result"
  v_paths :: "string list"
  v_product :: "string \<Rightarrow> string \<Rightarrow> unit result"
  v_policy :: "nat \<Rightarrow> policy_source"
  v_at :: "string \<Rightarrow> string"
  v_fresh :: string
  v_commit :: "string \<Rightarrow> bool outcome"
  v_push :: "string \<Rightarrow> unit outcome"
  v_revert :: "string \<Rightarrow> string \<Rightarrow> string \<times> string outcome"
  v_git :: git_call
  v_reconcile :: "unit outcome"

definition journal_of :: "rb_state \<Rightarrow> history_file" where
  "journal_of s = t_journals (rb_tree s) rollback_path"

definition put_journal :: "history_file \<Rightarrow> rb_state \<Rightarrow> rb_state" where
  "put_journal j s = s\<lparr>rb_tree := (rb_tree s)\<lparr>t_journals := (t_journals (rb_tree s))(rollback_path := j)\<rparr>\<rparr>"

definition rollback_commit_record :: "rb_env \<Rightarrow> meta \<Rightarrow> unit act" where
  "rollback_commit_record env r s =
     (let status = py_str (dget r ''status'') in
      case append_rollback (journal_of s) r of
        Inl e \<Rightarrow> (s, Raised e)
      | Inr j \<Rightarrow>
          act_bind (act_outcome (v_commit env status)) (\<lambda>committed.
          act_bind (act_result (raise_if (\<not> committed) (RuntimeError ''rollback journal state was not committed''))) (\<lambda>_.
          act_outcome (v_push env status))) (put_journal j s))"

text \<open>Builds a record, appends and commits it.\<close>

definition record_status :: "rb_env \<Rightarrow> meta \<Rightarrow> string \<Rightarrow> string \<Rightarrow> string \<Rightarrow> string \<Rightarrow> int \<Rightarrow> meta act" where
  "record_status env checkpoint current_commit status operation_id rollback_commit revision =
     act_bind (act_result (build_rollback (v_fresh env) checkpoint current_commit (v_at env status) status operation_id rollback_commit revision)) (\<lambda>r.
     act_bind (rollback_commit_record env r) (\<lambda>_. act_outcome (Returned r)))"

definition rollback_target :: "rb_env \<Rightarrow> namespace \<Rightarrow> rb_state \<Rightarrow> (meta \<times> string \<times> meta option) result" where
  "rollback_target env args s =
     bindE (v_ready env) (\<lambda>_.
     bindE (load_checkpoints (t_journals (rb_tree s)) (v_paths env) None) (\<lambda>checkpoints.
     case find (\<lambda>c. py_eq (dget c ''name'') (dget args ''checkpoint'')) checkpoints of
       None \<Rightarrow> Inl (RuntimeError (''unknown checkpoint '' @ arg_str args ''checkpoint''))
     | Some checkpoint \<Rightarrow>
         bindE (latest_for_checkpoint (journal_of s) (arg_str args ''checkpoint'')) (\<lambda>previous.
         let status = (case previous of None \<Rightarrow> PNone | Some r \<Rightarrow> dget r ''status'') in
         bindE (raise_if (status = PStr ''rollback_completed'') (RuntimeError ''checkpoint rollback is already completed'')) (\<lambda>_.
         bindE (raise_if (status \<in> {PStr ''restore_started'', PStr ''ambiguous''} \<and> \<not> truthy (dget args ''reconcile''))
           (RuntimeError ''checkpoint rollback requires explicit ambiguous recovery'')) (\<lambda>_.
         bindE (v_product env (py_str (dget checkpoint ''source_commit'')) (rb_head s)) (\<lambda>_.
         Inr (checkpoint, rb_head s, previous)))))))"

definition start_fresh :: "rb_env \<Rightarrow> meta \<Rightarrow> string \<Rightarrow> (meta \<times> bool) act" where
  "start_fresh env checkpoint current_commit =
     act_bind (record_status env checkpoint current_commit ''planned'' [] [] 1) (\<lambda>planned.
     act_bind (record_status env checkpoint current_commit ''restore_started'' (py_str (dget planned ''operation_id'')) [] 2) (\<lambda>started.
     act_outcome (Returned (started, False))))"

definition start_rollback :: "rb_env \<Rightarrow> namespace \<Rightarrow> meta \<Rightarrow> string \<Rightarrow> meta option \<Rightarrow> (meta \<times> bool) act" where
  "start_rollback env args checkpoint current_commit previous =
     (case previous of
        None \<Rightarrow> start_fresh env checkpoint current_commit
      | Some p \<Rightarrow>
          if \<not> truthy (dget args ''reconcile'') then start_fresh env checkpoint current_commit
          else
            let published = py_str (dget p ''rollback_commit'') in
            act_bind (act_result
              (if published \<noteq> []
               then raise_if (current_commit \<noteq> published) (RuntimeError ''reconcile product head does not match rollback commit'')
               else raise_if (current_commit \<noteq> py_str (dget p ''current_commit'')) (RuntimeError ''reconcile product head changed during ambiguous rollback''))) (\<lambda>_.
            act_bind (record_status env checkpoint current_commit ''restore_started'' (py_str (dget p ''operation_id'')) published (int_of (dget p ''revision'') + 1)) (\<lambda>started.
            act_outcome (Returned (started, published \<noteq> [])))))"

definition revert_product :: "rb_env \<Rightarrow> string \<Rightarrow> string \<Rightarrow> string act" where
  "revert_product env source_commit current_commit s =
     (if current_commit = source_commit then (s, Returned current_commit)
      else case v_revert env source_commit current_commit of
        (head, out) \<Rightarrow> (s\<lparr>rb_head := head, rb_reverts := rb_reverts s @ (if head \<noteq> rb_head s then [head] else [])\<rparr>, out))"

text \<open>Records an ambiguous operation, then raises.\<close>

definition give_up :: "rb_env \<Rightarrow> meta \<Rightarrow> string \<Rightarrow> meta \<Rightarrow> string \<Rightarrow> string \<Rightarrow> 'a act" where
  "give_up env checkpoint current_commit started rollback_commit message =
     act_bind (record_status env checkpoint current_commit ''ambiguous'' (py_str (dget started ''operation_id'')) rollback_commit (int_of (dget started ''revision'') + 1)) (\<lambda>_.
     act_outcome (Raised (RuntimeError message)))"

definition current_revision :: "string \<Rightarrow> rb_state \<Rightarrow> int result" where
  "current_revision task s =
     bindE (git_tasks (t_texts (rb_tree s))) (\<lambda>tasks.
     bindE (find_result (\<lambda>t. bindE (ditem (task_meta t) ''id'') (\<lambda>i. Inr (py_eq i (PStr task)))) tasks) (\<lambda>found.
     case found of None \<Rightarrow> Inl (RuntimeError ''StopIteration'') | Some t \<Rightarrow> bindE (ditem (task_meta t) ''task_revision'') py_int))"

definition mutate_rollback :: "rb_env \<Rightarrow> namespace \<Rightarrow> evidence_policy \<Rightarrow> unit act" where
  "mutate_rollback env args policy s =
     (case mutate_git (v_git env) args ''rollback'' (Some policy) (rb_tree s) of
        (t, Inl e) \<Rightarrow> (s\<lparr>rb_tree := t\<rparr>, Raised e)
      | (t, Inr _) \<Rightarrow> (s\<lparr>rb_tree := t\<rparr>, Returned ()))"

text \<open>The two guarded effects: the revert of the product, which a reconciliation skips when the rollback commit is
  published, and the restoration of the task.\<close>

definition product_effect :: "rb_env \<Rightarrow> evidence_policy \<Rightarrow> meta \<Rightarrow> string \<Rightarrow> meta \<Rightarrow> bool \<Rightarrow> string act" where
  "product_effect env policy checkpoint current_commit started skip_product =
     act_catch
       (act_bind (act_result (require_policy_unchanged (v_policy env 2) policy)) (\<lambda>_.
        if skip_product then act_outcome (Returned (py_str (dget started ''rollback_commit'')))
        else revert_product env (py_str (dget checkpoint ''source_commit'')) current_commit))
       (\<lambda>_. give_up env checkpoint current_commit started [] ''rollback product effect failed; recovery is required'')"

definition task_effect :: "rb_env \<Rightarrow> namespace \<Rightarrow> evidence_policy \<Rightarrow> meta \<Rightarrow> string \<Rightarrow> meta \<Rightarrow> string \<Rightarrow> unit act" where
  "task_effect env args policy checkpoint current_commit started rollback_commit =
     act_catch
       (act_bind (act_result (require_policy_unchanged (v_policy env 3) policy)) (\<lambda>_. mutate_rollback env args policy))
       (\<lambda>_. give_up env checkpoint current_commit started rollback_commit ''rollback state publication failed; recovery is required'')"

definition perform_rollback :: "rb_env \<Rightarrow> namespace \<Rightarrow> evidence_policy \<Rightarrow> meta \<times> string \<times> meta option \<Rightarrow> unit act" where
  "perform_rollback env args policy target =
     (case target of (checkpoint, current_commit, previous) \<Rightarrow>
     act_bind (act_result (require_policy_unchanged (v_policy env 1) policy)) (\<lambda>_.
     act_bind (start_rollback env args checkpoint current_commit previous) (\<lambda>(started, skip_product).
     act_bind (product_effect env policy checkpoint current_commit started skip_product) (\<lambda>rollback_commit.
     act_bind (\<lambda>s. act_result (current_revision (py_str (dget checkpoint ''task'')) s) s) (\<lambda>revision.
     act_bind (task_effect env (dset (dset (dset args ''task'' (PStr (py_str (dget checkpoint ''task'')))) ''expected_revision'' (PInt revision)) ''rollback_checkpoint'' (PDict checkpoint))
       policy checkpoint current_commit started rollback_commit) (\<lambda>_.
     act_bind (record_status env checkpoint current_commit ''rollback_completed'' (py_str (dget started ''operation_id'')) rollback_commit (int_of (dget started ''revision'') + 1)) (\<lambda>_.
     act_outcome (v_reconcile env))))))))"

definition cmd_rollback :: "rb_env \<Rightarrow> namespace \<Rightarrow> unit act" where
  "cmd_rollback env args =
     act_bind (act_result (load_evidence_policy (v_policy env 0))) (\<lambda>policy.
     act_bind (\<lambda>s. act_result (rollback_target env args s) s) (perform_rollback env args policy))"

section \<open>Reasoning about actions\<close>

text \<open>From a state in \<open>P\<close> an action returns in \<open>Q\<close>, or raises or dies in \<open>E\<close>.\<close>

definition triple :: "(rb_state \<Rightarrow> bool) \<Rightarrow> 'a act \<Rightarrow> ('a \<Rightarrow> rb_state \<Rightarrow> bool) \<Rightarrow> (rb_state \<Rightarrow> bool) \<Rightarrow> bool" where
  "triple P m Q E \<longleftrightarrow> (\<forall>s s' out. P s \<longrightarrow> m s = (s', out) \<longrightarrow> (case out of Returned x \<Rightarrow> Q x s' | _ \<Rightarrow> E s'))"

lemma tripleD: "triple P m Q E \<Longrightarrow> P s \<Longrightarrow> m s = (s', out) \<Longrightarrow> (case out of Returned x \<Rightarrow> Q x s' | _ \<Rightarrow> E s')"
  unfolding triple_def by blast

lemma triple_bind:
  assumes "triple P m R E" "\<And>x. triple (R x) (f x) Q E"
  shows "triple P (act_bind m f) Q E"
  unfolding triple_def
proof (intro allI impI)
  fix s s' out assume "P s" and b: "act_bind m f s = (s', out)"
  obtain s1 o1 where m: "m s = (s1, o1)" by (cases "m s")
  note r = tripleD [OF assms(1) \<open>P s\<close> m]
  show "case out of Returned x \<Rightarrow> Q x s' | _ \<Rightarrow> E s'"
  proof (cases o1)
    case (Returned x)
    then show ?thesis using tripleD [OF assms(2), of x s1 s' out] r b m by (simp add: act_bind_def)
  qed (use b m r in \<open>auto simp: act_bind_def\<close>)
qed

lemma triple_catch:
  assumes "triple P m Q E" "\<And>e. triple E (h e) Q F" "\<And>s. E s \<Longrightarrow> F s"
  shows "triple P (act_catch m h) Q F"
  unfolding triple_def
proof (intro allI impI)
  fix s s' out assume "P s" and b: "act_catch m h s = (s', out)"
  obtain s1 o1 where m: "m s = (s1, o1)" by (cases "m s")
  note r = tripleD [OF assms(1) \<open>P s\<close> m]
  show "case out of Returned x \<Rightarrow> Q x s' | _ \<Rightarrow> F s'"
  proof (cases o1)
    case (Raised e)
    then show ?thesis using tripleD [OF assms(2), of s1 e s' out] r b m by (simp add: act_catch_def)
  qed (use b m r assms(3) in \<open>auto simp: act_catch_def\<close>)
qed

lemma triple_result: "(\<And>s. P s \<Longrightarrow> E s) \<Longrightarrow> (\<And>s x. P s \<Longrightarrow> r s = Inr x \<Longrightarrow> Q x s) \<Longrightarrow> triple P (\<lambda>s. act_result (r s) s) Q E"
  by (auto simp: triple_def act_result_def split: sum.split)

lemma triple_outcome: "(\<And>s. P s \<Longrightarrow> E s) \<Longrightarrow> (\<And>s x. P s \<Longrightarrow> out = Returned x \<Longrightarrow> Q x s) \<Longrightarrow> triple P (act_outcome out) Q E"
  by (auto simp: triple_def act_outcome_def split: outcome.split)

lemma triple_weaken: "triple P' m Q' E' \<Longrightarrow> (\<And>s. P s \<Longrightarrow> P' s) \<Longrightarrow> (\<And>x s. Q' x s \<Longrightarrow> Q x s) \<Longrightarrow> (\<And>s. E' s \<Longrightarrow> E s) \<Longrightarrow> triple P m Q E"
  by (fastforce simp: triple_def split: outcome.split)

section \<open>What the effects leave alone\<close>

lemma write_and_check_journals:
  "write_and_check c kind policy name meta body None None t = (t', r) \<Longrightarrow> t_journals t' = t_journals t"
  by (auto simp: write_and_check_def append_given_def andThen_def lift_result_def write_text_def write_views_def Let_def split: sum.split_asm)

lemma persist_journals:
  assumes "persist_git_mutation c args kind receipt_id policy name meta body None None extra before t = (t', r)" "b_journals before = []"
  shows "t_journals t' = t_journals t"
proof -
  obtain t1 r1 where w: "write_and_check c kind policy name meta body None None t = (t1, r1)" by (cases "write_and_check c kind policy name meta body None None t")
  have j: "t_journals (restore_paths b u) = t_journals u" if "b_journals b = []" for b u using that by (simp add: restore_paths_def)
  have b: "b_journals (add_generated sv u before) = []" for sv u using assms(2) by (simp add: add_generated_def)
  obtain t2 r2 where k: "commit_persisted c args kind receipt_id extra (add_generated (g_status_view c) t1 before) t1 = (t2, r2)"
    by (cases "commit_persisted c args kind receipt_id extra (add_generated (g_status_view c) t1 before) t1")
  show ?thesis
    using assms write_and_check_journals [OF w] commit_persisted_texts [OF k] w k j b
    by (auto simp: persist_git_mutation_def Let_def split: sum.split_asm if_split_asm)
qed

lemma mutate_git_journals:
  assumes "mutate_git c args ''rollback'' policy t = (t', r)"
  shows "t_journals t' = t_journals t"
proof (cases "\<exists>receipt_id p. fast_receipt_id args ''rollback'' = Inr receipt_id \<and> prepare_git c args ''rollback'' policy t = Inr p")
  case False
  then show ?thesis
    using assms by (cases "fast_receipt_id args ''rollback''"; cases "prepare_git c args ''rollback'' policy t") (auto simp: mutate_git_def split: exc.split_asm)
next
  case True
  then obtain receipt_id p where p: "fast_receipt_id args ''rollback'' = Inr receipt_id" "prepare_git c args ''rollback'' policy t = Inr p" by blast
  obtain meta body js1 js2 where q: "git_session_record args ''rollback'' meta = Inr (p_session p)" "git_checkpoint_record args ''rollback'' meta body (g_at c) = Inr (p_checkpoint p)"
    "journal_before session_path (p_session p) (id_of meta) t = Inr js1" "journal_before checkpoint_path (p_checkpoint p) (id_of meta) t = Inr js2"
    "b_journals (p_before p) = js1 @ js2" using p(2) by (rule prepare_journals)
  have "p_session p = None" "p_checkpoint p = None" using q(1,2) by (simp_all add: git_session_record_def git_checkpoint_record_def records_session_def)
  moreover from this have "b_journals (p_before p) = []" using q(3-5) by (simp add: journal_before_def)
  ultimately show ?thesis
    using assms p persist_journals [of c args "''rollback''" receipt_id "p_policy p" "p_name p" "p_meta p" "p_body p" "p_artifact p" "p_before p" t]
    by (auto simp: mutate_git_def split: prod.split_asm sum.split_asm)
qed

lemma appended_latest:
  assumes "append_rollback j r = Inr j'" "dget r ''checkpoint'' = PStr name"
  shows "latest_for_checkpoint j' name = Inr (Some r)"
proof -
  obtain rs where rs: "load_rollbacks j = Inr rs" "validate_rollback r = Inr ()" "j' = write_jsonl MAX_ROLLBACK_RECORDS (rs @ [r])"
    using assms(1) by (auto simp: append_rollback_def bindE_Inr)
  have "load_rollbacks j' = Inr (keep_last MAX_ROLLBACK_RECORDS (rs @ [r]))"
    using rs(1,2) unfolding load_rollbacks_def rs(3) by (rule load_write_jsonl)
  then show ?thesis using assms(2) by (simp add: latest_for_checkpoint_def keep_last_append_last MAX_ROLLBACK_RECORDS_def)
qed

lemma built_fields:
  assumes "build_rollback fresh checkpoint current_commit recorded_at status operation_id rollback_commit revision = Inr r" "dget checkpoint ''name'' = PStr name"
  shows "dget r ''checkpoint'' = PStr name" "dget r ''status'' = PStr status" "dget r ''rollback_commit'' = PStr rollback_commit" "dget r ''current_commit'' = PStr current_commit"
proof -
  have "dget_or checkpoint ''name'' (PStr []) = PStr name" using assms(2) by (auto simp: dget_def dget_or_def split: option.split_asm)
  then show "dget r ''checkpoint'' = PStr name" "dget r ''status'' = PStr status" "dget r ''rollback_commit'' = PStr rollback_commit" "dget r ''current_commit'' = PStr current_commit"
    using assms(1) by (auto simp: build_rollback_def Let_def elim!: bindE_elim)
qed

section \<open>The product is reverted at most once\<close>

text \<open>The latest record of a checkpoint prevents a second revert of a product whose head is the rollback commit \<open>c\<close>.\<close>

definition vouches :: "string \<Rightarrow> meta \<Rightarrow> bool" where
  "vouches c r \<longleftrightarrow> dget r ''status'' = PStr ''rollback_completed'' \<or>
     dget r ''status'' \<in> {PStr ''restore_started'', PStr ''ambiguous''} \<and>
     (dget r ''rollback_commit'' = PStr c \<or> dget r ''rollback_commit'' = PStr [] \<and> dget r ''current_commit'' \<noteq> PStr c \<and> is_str (dget r ''current_commit''))"

definition unreverted :: "string list \<Rightarrow> rb_state \<Rightarrow> bool" where
  "unreverted heads s \<longleftrightarrow> rb_reverts s = heads"

definition reverted :: "string \<Rightarrow> string list \<Rightarrow> string \<Rightarrow> rb_state \<Rightarrow> bool" where
  "reverted name heads c s \<longleftrightarrow> rb_reverts s = heads @ [c] \<and> rb_head s = c \<and> c \<noteq> [] \<and> (\<exists>r. latest_for_checkpoint (journal_of s) name = Inr (Some r) \<and> vouches c r)"

lemma record_effect:
  assumes "record_status env checkpoint current_commit status operation_id rollback_commit revision s = (s', out)" "dget checkpoint ''name'' = PStr name"
  shows "rb_reverts s' = rb_reverts s" "rb_head s' = rb_head s"
    "s' = s \<and> (\<forall>r. out \<noteq> Returned r) \<or> (\<exists>r. latest_for_checkpoint (journal_of s') name = Inr (Some r) \<and> (\<forall>x. out = Returned x \<longrightarrow> x = r) \<and>
      dget r ''status'' = PStr status \<and> dget r ''rollback_commit'' = PStr rollback_commit \<and> dget r ''current_commit'' = PStr current_commit)"
proof -
  have "s' = s \<and> (\<forall>r. out \<noteq> Returned r) \<or> (\<exists>r j. build_rollback (v_fresh env) checkpoint current_commit (v_at env status) status operation_id rollback_commit revision = Inr r \<and>
      append_rollback (journal_of s) r = Inr j \<and> s' = put_journal j s \<and> (\<forall>x. out = Returned x \<longrightarrow> x = r))"
    using assms(1) by (auto simp: record_status_def rollback_commit_record_def act_bind_def act_result_def act_outcome_def Let_def split: sum.split_asm outcome.split_asm)
  then show "s' = s \<and> (\<forall>r. out \<noteq> Returned r) \<or> (\<exists>r. latest_for_checkpoint (journal_of s') name = Inr (Some r) \<and> (\<forall>x. out = Returned x \<longrightarrow> x = r) \<and>
      dget r ''status'' = PStr status \<and> dget r ''rollback_commit'' = PStr rollback_commit \<and> dget r ''current_commit'' = PStr current_commit)"
  proof (elim disjE exE conjE)
    fix r j assume r: "build_rollback (v_fresh env) checkpoint current_commit (v_at env status) status operation_id rollback_commit revision = Inr r"
      "append_rollback (journal_of s) r = Inr j" "s' = put_journal j s" "\<forall>x. out = Returned x \<longrightarrow> x = r"
    note f = built_fields [OF r(1) assms(2)]
    have "journal_of s' = j" by (simp add: r(3) journal_of_def put_journal_def)
    then have "latest_for_checkpoint (journal_of s') name = Inr (Some r)" using appended_latest [OF r(2) f(1)] by simp
    then show ?thesis using f r(4) by blast
  qed blast
  show "rb_reverts s' = rb_reverts s" "rb_head s' = rb_head s"
    using assms(1) by (auto simp: record_status_def rollback_commit_record_def act_bind_def act_result_def act_outcome_def put_journal_def Let_def split: sum.split_asm outcome.split_asm)
qed

text \<open>Records that vouch for the head keep the state; any record keeps an unreverted one.\<close>

lemma record_reverted:
  assumes "dget checkpoint ''name'' = PStr name"
    and "status = ''rollback_completed'' \<or> status \<in> {''restore_started'', ''ambiguous''} \<and> (rollback_commit = c \<or> rollback_commit = [] \<and> current_commit \<noteq> c)"
  shows "triple (reverted name heads c) (record_status env checkpoint current_commit status operation_id rollback_commit revision)
    (\<lambda>r s. reverted name heads c s \<and> dget r ''rollback_commit'' = PStr rollback_commit) (reverted name heads c)"
  unfolding triple_def
proof (intro allI impI)
  fix s s' out assume s: "reverted name heads c s" and m: "record_status env checkpoint current_commit status operation_id rollback_commit revision s = (s', out)"
  note e = record_effect [OF m assms(1)]
  have "vouches c r" if "dget r ''status'' = PStr status" "dget r ''rollback_commit'' = PStr rollback_commit" "dget r ''current_commit'' = PStr current_commit" for r
    using that assms(2) by (auto simp: vouches_def)
  then show "case out of Returned r \<Rightarrow> reverted name heads c s' \<and> dget r ''rollback_commit'' = PStr rollback_commit | _ \<Rightarrow> reverted name heads c s'"
    using s e by (auto simp: reverted_def split: outcome.split)
qed

lemma record_unreverted:
  assumes "dget checkpoint ''name'' = PStr name"
  shows "triple (\<lambda>s. unreverted heads s \<and> rb_head s = h) (record_status env checkpoint current_commit status operation_id rollback_commit revision)
    (\<lambda>r s. unreverted heads s \<and> rb_head s = h \<and> latest_for_checkpoint (journal_of s) name = Inr (Some r) \<and>
      dget r ''status'' = PStr status \<and> dget r ''rollback_commit'' = PStr rollback_commit \<and> dget r ''current_commit'' = PStr current_commit) (unreverted heads)"
  unfolding triple_def
proof (intro allI impI)
  fix s s' out assume s: "unreverted heads s \<and> rb_head s = h" and m: "record_status env checkpoint current_commit status operation_id rollback_commit revision s = (s', out)"
  show "case out of Returned r \<Rightarrow> unreverted heads s' \<and> rb_head s' = h \<and> latest_for_checkpoint (journal_of s') name = Inr (Some r) \<and>
      dget r ''status'' = PStr status \<and> dget r ''rollback_commit'' = PStr rollback_commit \<and> dget r ''current_commit'' = PStr current_commit | _ \<Rightarrow> unreverted heads s'"
    using s record_effect [OF m assms] by (auto simp: unreverted_def split: outcome.split)
qed

text \<open>After the product effect the command knows the head \<open>x\<close> that it publishes.\<close>

definition settled :: "string \<Rightarrow> string list \<Rightarrow> string \<Rightarrow> rb_state \<Rightarrow> bool" where
  "settled name heads x s \<longleftrightarrow> unreverted heads s \<or> reverted name heads x s"

definition at_most_once :: "string \<Rightarrow> string list \<Rightarrow> rb_state \<Rightarrow> bool" where
  "at_most_once name heads s \<longleftrightarrow> unreverted heads s \<or> (\<exists>c. reverted name heads c s)"

definition stranded :: "string \<Rightarrow> string list \<Rightarrow> string \<Rightarrow> rb_state \<Rightarrow> bool" where
  "stranded name heads current_commit s \<longleftrightarrow> unreverted heads s \<or> (\<exists>c. reverted name heads c s \<and> current_commit \<noteq> c)"

lemma triple_disj: "triple P m Q E \<Longrightarrow> triple P' m Q E \<Longrightarrow> triple (\<lambda>s. P s \<or> P' s) m Q E"
  unfolding triple_def by blast

lemma triple_ex: "(\<And>h. triple (P h) m Q E) \<Longrightarrow> triple (\<lambda>s. \<exists>h. P h s) m Q E"
  unfolding triple_def by blast

lemma triple_read:
  assumes "\<And>s. P s \<Longrightarrow> E s" "\<And>s x. P s \<Longrightarrow> r s = Inr x \<Longrightarrow> triple (\<lambda>u. u = s) (f x) Q E"
  shows "triple P (act_bind (\<lambda>s. act_result (r s) s) f) Q E"
  unfolding triple_def
proof (intro allI impI)
  fix s s' out assume s: "P s" and b: "act_bind (\<lambda>s. act_result (r s) s) f s = (s', out)"
  show "case out of Returned x \<Rightarrow> Q x s' | _ \<Rightarrow> E s'"
  proof (cases "r s")
    case (Inl e)
    then show ?thesis using b s assms(1) by (auto simp: act_bind_def act_result_def)
  next
    case (Inr x)
    then show ?thesis using b tripleD [OF assms(2) [OF s Inr] refl, of s' out] by (simp add: act_bind_def act_result_def)
  qed
qed

lemma record_unreverted':
  assumes "dget checkpoint ''name'' = PStr name"
  shows "triple (unreverted heads) (record_status env checkpoint current_commit status operation_id rollback_commit revision) (\<lambda>r. unreverted heads) (unreverted heads)"
  by (rule triple_weaken [OF triple_ex [of "\<lambda>h s. unreverted heads s \<and> rb_head s = h", OF triple_weaken [OF record_unreverted [OF assms]]]]) auto

lemma record_settled:
  assumes "dget checkpoint ''name'' = PStr name" "status \<in> {''ambiguous'', ''rollback_completed''}"
  shows "triple (settled name heads x) (record_status env checkpoint current_commit status operation_id x revision) (\<lambda>_. at_most_once name heads) (at_most_once name heads)"
  unfolding settled_def
proof (rule triple_disj)
  show "triple (unreverted heads) (record_status env checkpoint current_commit status operation_id x revision) (\<lambda>_. at_most_once name heads) (at_most_once name heads)"
    by (rule triple_weaken [OF record_unreverted' [OF assms(1)]]) (auto simp: at_most_once_def)
  show "triple (reverted name heads x) (record_status env checkpoint current_commit status operation_id x revision) (\<lambda>_. at_most_once name heads) (at_most_once name heads)"
    by (rule triple_weaken [OF record_reverted [OF assms(1)]]) (use assms(2) in \<open>auto simp: at_most_once_def\<close>)
qed

lemma record_stranded:
  assumes "dget checkpoint ''name'' = PStr name"
  shows "triple (stranded name heads current_commit) (record_status env checkpoint current_commit ''ambiguous'' operation_id [] revision) (\<lambda>_. at_most_once name heads) (at_most_once name heads)"
  unfolding stranded_def
proof (intro triple_disj triple_ex)
  show "triple (unreverted heads) (record_status env checkpoint current_commit ''ambiguous'' operation_id [] revision) (\<lambda>_. at_most_once name heads) (at_most_once name heads)"
    by (rule triple_weaken [OF record_unreverted' [OF assms(1)]]) (auto simp: at_most_once_def)
  fix c
  have "triple (\<lambda>s. reverted name heads c s) (record_status env checkpoint current_commit ''ambiguous'' operation_id [] revision) (\<lambda>_. at_most_once name heads) (at_most_once name heads)"
    if "current_commit \<noteq> c"
    by (rule triple_weaken [OF record_reverted [OF assms(1), of "''ambiguous''" "[]" c current_commit heads]]) (use that in \<open>auto simp: at_most_once_def\<close>)
  then show "triple (\<lambda>s. reverted name heads c s \<and> current_commit \<noteq> c) (record_status env checkpoint current_commit ''ambiguous'' operation_id [] revision)
      (\<lambda>_. at_most_once name heads) (at_most_once name heads)"
    unfolding triple_def by blast
qed

lemma give_up_triple:
  assumes "triple P (record_status env checkpoint current_commit ''ambiguous'' (py_str (dget started ''operation_id'')) rollback_commit (int_of (dget started ''revision'') + 1)) (\<lambda>_. E) E"
  shows "triple P (give_up env checkpoint current_commit started rollback_commit message) Q E"
  unfolding give_up_def by (rule triple_bind [OF assms]) (rule triple_outcome, auto)

lemma mutate_keeps:
  assumes "mutate_rollback env args policy s = (s', out)"
  shows "rb_reverts s' = rb_reverts s" "rb_head s' = rb_head s" "journal_of s' = journal_of s"
  using assms mutate_git_journals by (fastforce simp: mutate_rollback_def journal_of_def split: prod.split_asm sum.split_asm)+

lemma mutate_settled: "mutate_rollback env args policy s = (s', out) \<Longrightarrow> settled name heads x s \<Longrightarrow> settled name heads x s'"
  using mutate_keeps [of env args policy s s' out] by (simp add: settled_def unreverted_def reverted_def)

lemma task_effect_settled:
  assumes "dget checkpoint ''name'' = PStr name"
  shows "triple (settled name heads x) (task_effect env args policy checkpoint current_commit started x) (\<lambda>_. settled name heads x) (at_most_once name heads)"
  unfolding task_effect_def
proof (rule triple_catch)
  have "triple (settled name heads x) (mutate_rollback env args policy) (\<lambda>_. settled name heads x) (settled name heads x)"
    unfolding triple_def using mutate_settled by (auto split: outcome.split)
  then show "triple (settled name heads x) (act_bind (act_result (require_policy_unchanged (v_policy env 3) policy)) (\<lambda>_. mutate_rollback env args policy))
      (\<lambda>_. settled name heads x) (settled name heads x)"
    by (intro triple_bind [of _ _ "\<lambda>_. settled name heads x"] triple_result) auto
  show "triple (settled name heads x) (give_up env checkpoint current_commit started x ''rollback state publication failed; recovery is required'') (\<lambda>_. settled name heads x) (at_most_once name heads)"
    for e :: exc by (intro give_up_triple record_settled assms) simp
qed (auto simp: settled_def at_most_once_def)

lemma finish_settled:
  assumes "dget checkpoint ''name'' = PStr name"
  shows "triple (settled name heads x)
    (act_bind (\<lambda>s. act_result (current_revision task s) s) (\<lambda>revision.
     act_bind (task_effect env (f revision) policy checkpoint current_commit started x) (\<lambda>_.
     act_bind (record_status env checkpoint current_commit ''rollback_completed'' operation_id x n) (\<lambda>_. act_outcome out))))
    (\<lambda>_. at_most_once name heads) (at_most_once name heads)"
proof -
  have "triple (at_most_once name heads) (act_outcome out) (\<lambda>_. at_most_once name heads) (at_most_once name heads)" by (rule triple_outcome) auto
  moreover have "triple (settled name heads x) (record_status env checkpoint current_commit ''rollback_completed'' operation_id x n) (\<lambda>_. at_most_once name heads) (at_most_once name heads)"
    by (rule record_settled [OF assms]) simp
  moreover have "triple (settled name heads x) (\<lambda>s. act_result (current_revision task s) s) (\<lambda>_. settled name heads x) (at_most_once name heads)"
    by (rule triple_result) (auto simp: settled_def at_most_once_def)
  ultimately show ?thesis using task_effect_settled [OF assms] by (intro triple_bind)
qed

text \<open>What the theorem asks of the surroundings: the policy file is stable until the product effect, and a revert that returns made a new commit.\<close>

definition steady :: "rb_env \<Rightarrow> bool" where
  "steady env \<longleftrightarrow> v_policy env 2 = v_policy env 0 \<and>
     (\<forall>source head head' out. v_revert env source head = (head', out) \<longrightarrow> head' \<noteq> [] \<and> (\<forall>x. out = Returned x \<longrightarrow> x = head' \<and> head' \<noteq> head))"

lemma policy_stable: "load_evidence_policy src = Inr p \<Longrightarrow> require_policy_unchanged src p = Inr ()"
  by (simp add: require_policy_unchanged_def raise_if_def)

lemma target_Inr:
  assumes "rollback_target env args s = Inr (checkpoint, current_commit, previous)" "dget args ''checkpoint'' = PStr name"
  shows "dget checkpoint ''name'' = PStr name" "current_commit = rb_head s" "latest_for_checkpoint (journal_of s) name = Inr previous"
    "\<And>p. previous = Some p \<Longrightarrow> dget p ''status'' \<noteq> PStr ''rollback_completed'' \<and>
      (dget p ''status'' \<in> {PStr ''restore_started'', PStr ''ambiguous''} \<longrightarrow> truthy (dget args ''reconcile''))"
proof -
  have a: "arg_str args ''checkpoint'' = name" using assms(2) by (simp add: arg_str_def)
  obtain checkpoints where t: "find (\<lambda>c. py_eq (dget c ''name'') (dget args ''checkpoint'')) checkpoints = Some checkpoint" "latest_for_checkpoint (journal_of s) name = Inr previous"
    "\<not> (case previous of None \<Rightarrow> PNone | Some r \<Rightarrow> dget r ''status'') = PStr ''rollback_completed''"
    "(case previous of None \<Rightarrow> PNone | Some r \<Rightarrow> dget r ''status'') \<in> {PStr ''restore_started'', PStr ''ambiguous''} \<longrightarrow> truthy (dget args ''reconcile'')"
    "current_commit = rb_head s"
    using assms(1) unfolding rollback_target_def Let_def a by (auto simp: raise_if_Inr elim!: bindE_elim split: option.split_asm)
  show "dget checkpoint ''name'' = PStr name" using t(1) assms(2) by (auto simp: find_Some_iff)
  show "current_commit = rb_head s" by (rule t(5))
  show "latest_for_checkpoint (journal_of s) name = Inr previous" by (rule t(2))
  show "dget p ''status'' \<noteq> PStr ''rollback_completed'' \<and> (dget p ''status'' \<in> {PStr ''restore_started'', PStr ''ambiguous''} \<longrightarrow> truthy (dget args ''reconcile''))"
    if "previous = Some p" for p using t(3,4) by (simp add: that)
qed

definition authorized :: "string \<Rightarrow> string list \<Rightarrow> string \<Rightarrow> meta \<Rightarrow> rb_state \<Rightarrow> bool" where
  "authorized name heads current_commit started s \<longleftrightarrow>
     unreverted heads s \<and> rb_head s = current_commit \<and> latest_for_checkpoint (journal_of s) name = Inr (Some started) \<and>
     dget started ''status'' = PStr ''restore_started'' \<and> dget started ''rollback_commit'' = PStr [] \<and> dget started ''current_commit'' = PStr current_commit"

definition ready_to_revert :: "string \<Rightarrow> string list \<Rightarrow> string \<Rightarrow> meta \<times> bool \<Rightarrow> rb_state \<Rightarrow> bool" where
  "ready_to_revert name heads current_commit r s \<longleftrightarrow> unreverted heads s \<and> (snd r \<or> authorized name heads current_commit (fst r) s)"

lemma record_started:
  assumes "dget checkpoint ''name'' = PStr name"
  shows "triple (\<lambda>s. unreverted heads s \<and> rb_head s = current_commit)
    (act_bind (record_status env checkpoint current_commit ''restore_started'' operation_id published n) (\<lambda>started. act_outcome (Returned (started, published \<noteq> []))))
    (ready_to_revert name heads current_commit) (unreverted heads)"
  by (rule triple_bind [OF record_unreverted [OF assms]], rule triple_outcome) (auto simp: ready_to_revert_def authorized_def)

lemma start_unreverted:
  assumes "dget checkpoint ''name'' = PStr name"
  shows "triple (\<lambda>s. unreverted heads s \<and> rb_head s = current_commit) (start_rollback env args checkpoint current_commit previous)
    (ready_to_revert name heads current_commit) (unreverted heads)"
proof -
  let ?P = "\<lambda>s. unreverted heads s \<and> rb_head s = current_commit"
  have planned: "triple ?P (record_status env checkpoint current_commit ''planned'' [] [] 1) (\<lambda>_. ?P) (unreverted heads)"
    by (rule triple_weaken [OF record_unreverted [OF assms]]) auto
  have fresh: "triple ?P (start_fresh env checkpoint current_commit) (ready_to_revert name heads current_commit) (unreverted heads)"
    unfolding start_fresh_def using record_started [OF assms, where published = "[]"] by (intro triple_bind [OF planned]) simp
  have again: "triple ?P (act_bind (act_result r) (\<lambda>_. act_bind (record_status env checkpoint current_commit ''restore_started'' operation_id published n)
      (\<lambda>started. act_outcome (Returned (started, published \<noteq> []))))) (ready_to_revert name heads current_commit) (unreverted heads)" for r operation_id published n
    by (rule triple_bind [of _ _ "\<lambda>_. ?P"], rule triple_result) (auto intro: record_started [OF assms])
  show ?thesis
  proof (cases "previous = None \<or> \<not> truthy (dget args ''reconcile'')")
    case True
    then show ?thesis using fresh by (auto simp: start_rollback_def split: option.split)
  next
    case False
    then obtain p where p: "previous = Some p" "(\<not> truthy (dget args ''reconcile'')) = False" by (cases previous) auto
    show ?thesis unfolding start_rollback_def p option.case if_False Let_def by (rule again)
  qed
qed

lemma revert_authorized:
  assumes "steady env"
  shows "triple (authorized name heads current_commit started) (revert_product env source_commit current_commit) (settled name heads) (stranded name heads current_commit)"
  unfolding triple_def
proof (intro allI impI)
  fix s s' out assume a: "authorized name heads current_commit started s" and r: "revert_product env source_commit current_commit s = (s', out)"
  show "case out of Returned x \<Rightarrow> settled name heads x s' | _ \<Rightarrow> stranded name heads current_commit s'"
  proof (cases "current_commit = source_commit")
    case True
    then show ?thesis using a r by (auto simp: revert_product_def authorized_def settled_def)
  next
    case False
    obtain head' where v: "v_revert env source_commit current_commit = (head', out)"
      "s' = s\<lparr>rb_head := head', rb_reverts := rb_reverts s @ (if head' \<noteq> rb_head s then [head'] else [])\<rparr>"
      using r False by (auto simp: revert_product_def split: prod.split_asm)
    have h: "head' \<noteq> []" "\<And>x. out = Returned x \<Longrightarrow> x = head' \<and> head' \<noteq> current_commit" using assms v(1) unfolding steady_def by blast+
    have "unreverted heads s'" if "head' = current_commit" using a that by (simp add: v(2) authorized_def unreverted_def)
    moreover have "reverted name heads head' s'" if "head' \<noteq> current_commit"
      using a h(1) that by (auto simp: v(2) authorized_def unreverted_def reverted_def vouches_def journal_of_def)
    ultimately show ?thesis using h(2) by (cases out) (auto simp: settled_def stranded_def)
  qed
qed

lemma product_unreverted:
  assumes "steady env" "dget checkpoint ''name'' = PStr name"
  shows "triple (ready_to_revert name heads current_commit (started, skip_product)) (product_effect env policy checkpoint current_commit started skip_product)
    (settled name heads) (at_most_once name heads)"
  unfolding product_effect_def
proof (rule triple_catch [where E = "stranded name heads current_commit"])
  have "triple (ready_to_revert name heads current_commit (started, skip_product))
      (if skip_product then act_outcome (Returned (py_str (dget started ''rollback_commit''))) else revert_product env (py_str (dget checkpoint ''source_commit'')) current_commit)
      (settled name heads) (stranded name heads current_commit)"
  proof (cases skip_product)
    case True
    then show ?thesis by (simp, intro triple_outcome) (auto simp: ready_to_revert_def settled_def stranded_def)
  next
    case False
    then show ?thesis by simp (rule triple_weaken [OF revert_authorized [OF assms(1), of name heads current_commit started]], auto simp: ready_to_revert_def)
  qed
  then show "triple (ready_to_revert name heads current_commit (started, skip_product))
      (act_bind (act_result (require_policy_unchanged (v_policy env 2) policy)) (\<lambda>_.
        if skip_product then act_outcome (Returned (py_str (dget started ''rollback_commit''))) else revert_product env (py_str (dget checkpoint ''source_commit'')) current_commit))
      (settled name heads) (stranded name heads current_commit)"
    by (intro triple_bind [of _ _ "\<lambda>_. ready_to_revert name heads current_commit (started, skip_product)"] triple_result) (auto simp: ready_to_revert_def stranded_def)
  show "triple (stranded name heads current_commit) (give_up env checkpoint current_commit started [] ''rollback product effect failed; recovery is required'')
      (settled name heads) (at_most_once name heads)" for e :: exc
    by (rule give_up_triple [OF record_stranded [OF assms(2)]])
qed (auto simp: stranded_def at_most_once_def)

lemma start_reverted:
  assumes "dget checkpoint ''name'' = PStr name" "vouches c p" "dget p ''status'' \<noteq> PStr ''rollback_completed''" "truthy (dget args ''reconcile'')" "c \<noteq> []"
  shows "triple (reverted name heads c) (start_rollback env args checkpoint c (Some p))
    (\<lambda>r s. reverted name heads c s \<and> snd r \<and> dget (fst r) ''rollback_commit'' = PStr c) (reverted name heads c)"
proof (cases "dget p ''rollback_commit'' = PStr c")
  case True
  have "triple (reverted name heads c) (act_bind (record_status env checkpoint c ''restore_started'' operation_id c n) (\<lambda>started. act_outcome (Returned (started, c \<noteq> []))))
      (\<lambda>r s. reverted name heads c s \<and> snd r \<and> dget (fst r) ''rollback_commit'' = PStr c) (reverted name heads c)" for operation_id n
    by (rule triple_bind [OF record_reverted [OF assms(1), of "''restore_started''" c c c heads]], simp, rule triple_outcome) (use assms(5) in auto)
  note again = this
  have "triple (reverted name heads c) (act_bind (act_result r) (\<lambda>_. act_bind (record_status env checkpoint c ''restore_started'' operation_id c n)
      (\<lambda>started. act_outcome (Returned (started, c \<noteq> [])))))
      (\<lambda>r s. reverted name heads c s \<and> snd r \<and> dget (fst r) ''rollback_commit'' = PStr c) (reverted name heads c)" for r :: "unit result" and operation_id n
    by (rule triple_bind [of _ _ "\<lambda>_. reverted name heads c"], rule triple_result) (auto intro: again)
  moreover have p: "py_str (dget p ''rollback_commit'') = c" "(\<not> truthy (dget args ''reconcile'')) = False" using True assms(4) by simp_all
  ultimately show ?thesis unfolding start_rollback_def option.case p if_False Let_def by blast
next
  case False
  then have "dget p ''rollback_commit'' = PStr []" "py_str (dget p ''current_commit'') \<noteq> c" using assms(2,3) by (auto simp: vouches_def is_str_iff)
  then have "start_rollback env args checkpoint c (Some p) s = (s, Raised (RuntimeError ''reconcile product head changed during ambiguous rollback''))" for s
    using assms(4) by (simp add: start_rollback_def Let_def act_bind_def act_result_def raise_if_def)
  then show ?thesis by (auto simp: triple_def)
qed

lemma perform_unreverted:
  assumes "steady env" "dget checkpoint ''name'' = PStr name"
  shows "triple (\<lambda>s. unreverted heads s \<and> rb_head s = current_commit) (perform_rollback env args policy (checkpoint, current_commit, previous))
    (\<lambda>_. at_most_once name heads) (at_most_once name heads)"
proof -
  have u: "unreverted heads s \<Longrightarrow> at_most_once name heads s" for s by (simp add: at_most_once_def)
  have start: "triple (\<lambda>s. unreverted heads s \<and> rb_head s = current_commit) (start_rollback env args checkpoint current_commit previous)
      (ready_to_revert name heads current_commit) (at_most_once name heads)"
    by (rule triple_weaken [OF start_unreverted [OF assms(2)]]) (auto simp: u)
  show ?thesis
    unfolding perform_rollback_def prod.case
    by (rule triple_bind [of _ _ "\<lambda>_ s. unreverted heads s \<and> rb_head s = current_commit"], rule triple_result, simp_all add: u,
        rule triple_bind [OF start], clarsimp, rule triple_bind [OF product_unreverted [OF assms]], rule finish_settled [OF assms(2)])
qed

lemma perform_reverted:
  assumes "dget checkpoint ''name'' = PStr name" "vouches c p" "dget p ''status'' \<noteq> PStr ''rollback_completed''" "truthy (dget args ''reconcile'')" "c \<noteq> []"
    and "require_policy_unchanged (v_policy env 2) policy = Inr ()"
  shows "triple (reverted name heads c) (perform_rollback env args policy (checkpoint, c, Some p)) (\<lambda>_. at_most_once name heads) (at_most_once name heads)"
proof -
  have v: "reverted name heads c s \<Longrightarrow> at_most_once name heads s" for s by (auto simp: at_most_once_def)
  have start: "triple (reverted name heads c) (start_rollback env args checkpoint c (Some p))
      (\<lambda>r s. reverted name heads c s \<and> snd r \<and> dget (fst r) ''rollback_commit'' = PStr c) (at_most_once name heads)"
    by (rule triple_weaken [OF start_reverted [OF assms(1-5)]]) (auto simp: v)
  have product: "triple (\<lambda>s. reverted name heads c s \<and> skip \<and> dget started ''rollback_commit'' = PStr c) (product_effect env policy checkpoint c started skip)
      (settled name heads) (at_most_once name heads)" for started skip
    unfolding triple_def by (auto simp: product_effect_def act_catch_def act_bind_def act_result_def act_outcome_def assms(6) settled_def)
  show ?thesis
    unfolding perform_rollback_def prod.case
    by (rule triple_bind [of _ _ "\<lambda>_. reverted name heads c"], rule triple_result, simp_all add: v,
        rule triple_bind [OF start], clarsimp, rule triple_bind [OF product], rule finish_settled [OF assms(1)])
qed

lemma cmd_keeps_at_most_once:
  assumes "steady env" "dget args ''checkpoint'' = PStr name"
  shows "triple (at_most_once name heads) (cmd_rollback env args) (\<lambda>_. at_most_once name heads) (at_most_once name heads)"
  unfolding cmd_rollback_def
proof (rule triple_bind [of _ _ "\<lambda>policy s. at_most_once name heads s \<and> load_evidence_policy (v_policy env 0) = Inr policy"])
  show "triple (at_most_once name heads) (act_result (load_evidence_policy (v_policy env 0)))
      (\<lambda>policy s. at_most_once name heads s \<and> load_evidence_policy (v_policy env 0) = Inr policy) (at_most_once name heads)" by (rule triple_result) auto
next
  fix policy
  have "triple (\<lambda>u. u = s) (perform_rollback env args policy (checkpoint, current_commit, previous)) (\<lambda>_. at_most_once name heads) (at_most_once name heads)"
    if s: "at_most_once name heads s" "load_evidence_policy (v_policy env 0) = Inr policy" "rollback_target env args s = Inr (checkpoint, current_commit, previous)"
    for s checkpoint current_commit previous
  proof -
    note t = target_Inr [OF s(3) assms(2)]
    from s(1) consider "unreverted heads s" | c where "reverted name heads c s" by (auto simp: at_most_once_def)
    then show ?thesis
    proof cases
      case 1
      then show ?thesis using t(2) by (intro triple_weaken [OF perform_unreverted [OF assms(1) t(1)]]) auto
    next
      case (2 c)
      then obtain p where p: "previous = Some p" "vouches c p" "c \<noteq> []" "current_commit = c" using t(2,3) by (auto simp: reverted_def)
      have r: "dget p ''status'' \<noteq> PStr ''rollback_completed''" "truthy (dget args ''reconcile'')" using t(4) [OF p(1)] p(2) by (auto simp: vouches_def)
      have "require_policy_unchanged (v_policy env 2) policy = Inr ()" using assms(1) s(2) policy_stable by (simp add: steady_def)
      from perform_reverted [OF t(1) p(2) r p(3) this] 2 show ?thesis unfolding p(1,4) by (auto intro: triple_weaken)
    qed
  qed
  then show "triple (\<lambda>s. at_most_once name heads s \<and> load_evidence_policy (v_policy env 0) = Inr policy)
      (act_bind (\<lambda>s. act_result (rollback_target env args s) s) (perform_rollback env args policy)) (\<lambda>_. at_most_once name heads) (at_most_once name heads)"
    by (intro triple_read) auto
qed

text \<open>Without a stable policy the guarantee is lost: when the policy changes during a reconciliation, the ambiguous record no
  longer names the published rollback commit, and the next reconciliation finds the head it expects and reverts again.\<close>

lemma published_commit_lost:
  assumes "require_policy_unchanged (v_policy env 2) policy = Inl e" "dget checkpoint ''name'' = PStr name"
    and "product_effect env policy checkpoint current_commit started True s = (s', out)" "s' \<noteq> s"
  shows "\<exists>r. latest_for_checkpoint (journal_of s') name = Inr (Some r) \<and> dget r ''status'' = PStr ''ambiguous'' \<and> dget r ''rollback_commit'' = PStr [] \<and>
    dget r ''current_commit'' = PStr current_commit"
proof -
  obtain out' where "record_status env checkpoint current_commit ''ambiguous'' (py_str (dget started ''operation_id'')) [] (int_of (dget started ''revision'') + 1) s = (s', out')"
    using assms(1,3) by (auto simp: product_effect_def act_catch_def act_bind_def act_result_def act_outcome_def give_up_def split: prod.split_asm outcome.split_asm)
  from record_effect(3) [OF this assms(2)] assms(4) show ?thesis by blast
qed

section \<open>An example\<close>

text \<open>The revert makes a commit, and then the command fails.\<close>

definition example_checkpoint :: meta where
  "example_checkpoint = [(''schema_version'', PInt 1), (''name'', PStr ''AR-0001-r0002''), (''task'', PStr ''AR-0001''), (''task_revision'', PInt 2), (''recorded_at'', PStr ''t''),
     (''source_commit'', PStr (replicate 40 CHR ''a'')), (''state'', PDict [(''id'', PStr ''AR-0001''), (''task_revision'', PInt 2)]),
     (''body_digest'', PStr (sha256_hex (utf8 ''body''))), (''artifact_refs'', PList [])]"

definition example_uuid :: string where "example_uuid = ''11111111-1111-1111-1111-111111111111''"

definition example_rollback_env :: rb_env where
  "example_rollback_env = \<lparr>v_ready = Inr (), v_paths = [''checkpoints/AR-0001.jsonl''], v_product = (\<lambda>_ _. Inr ()), v_policy = (\<lambda>_. PolicyAbsent False), v_at = (\<lambda>_. ''t''),
     v_fresh = example_uuid, v_commit = (\<lambda>_. Returned True), v_push = (\<lambda>_. Returned ()), v_revert = (\<lambda>_ _. (replicate 40 CHR ''c'', Raised (RuntimeError ''git''))),
     v_git = promote_git, v_reconcile = Returned ()\<rparr>"

definition example_rollback_state :: rb_state where
  "example_rollback_state = \<lparr>rb_tree = \<lparr>t_texts = [], t_journals = Map.empty(''checkpoints/AR-0001.jsonl'' \<mapsto> [JsonLine (PDict example_checkpoint)]), t_commits = []\<rparr>,
     rb_head = replicate 40 CHR ''b'', rb_reverts = []\<rparr>"

definition example_record :: "string \<Rightarrow> int \<Rightarrow> meta" where
  "example_record status n =
     [(''schema_version'', PInt 1), (''operation_id'', PStr example_uuid), (''checkpoint'', PStr ''AR-0001-r0002''), (''task'', PStr ''AR-0001''), (''source_commit'', PStr (replicate 40 CHR ''a'')),
      (''current_commit'', PStr (replicate 40 CHR ''b'')), (''rollback_commit'', PStr []), (''recorded_at'', PStr ''t''), (''status'', PStr status), (''revision'', PInt n)]"

lemma example_commits: "COMMIT_RE (replicate 40 CHR ''a'')" "COMMIT_RE (replicate 40 CHR ''b'')" "CHECKPOINT_RE ''AR-0001-r0002''" "is_task_id ''AR-0001''"
proof -
  show "CHECKPOINT_RE ''AR-0001-r0002''" "is_task_id ''AR-0001''" by code_simp+
qed (simp_all add: COMMIT_RE_def all_hex_def list_all_iff is_lower_hex_def lower_hex_def)

lemma example_uuid_text: "uuid_text example_uuid = Inr example_uuid"
  by code_simp

lemma example_record_built:
  assumes "status \<in> set ROLLBACK_STATUS" "1 \<le> n" "operation_id \<in> {[], example_uuid}"
  shows "build_rollback example_uuid example_checkpoint (replicate 40 CHR ''b'') ''t'' status operation_id [] n = Inr (example_record status n)"
    "validate_rollback (example_record status n) = Inr ()"
proof -
  have "example_uuid \<noteq> []" by (simp add: example_uuid_def)
  then show "build_rollback example_uuid example_checkpoint (replicate 40 CHR ''b'') ''t'' status operation_id [] n = Inr (example_record status n)"
    using assms example_commits example_uuid_text by (auto simp: build_rollback_def example_checkpoint_def example_record_def raise_if_def value_to_def catchE_def)
  show "validate_rollback (example_record status n) = Inr ()"
    using assms(1,2) example_commits example_uuid_text
    by (simp add: validate_rollback_def rollback_identity_def rollback_content_def example_record_def raise_if_def value_to_def catchE_def
        keys_exact_def dkeys_def ROLLBACK_RECORD_FIELDS_def hash_not_in_def)
qed

lemma example_recorded:
  assumes "load_rollbacks (journal_of s) = Inr rs" "length rs < 64" "status \<in> set ROLLBACK_STATUS" "1 \<le> n" "operation_id \<in> {[], example_uuid}"
  shows "\<exists>s'. record_status example_rollback_env example_checkpoint (replicate 40 CHR ''b'') status operation_id [] n s = (s', Returned (example_record status n)) \<and>
    load_rollbacks (journal_of s') = Inr (rs @ [example_record status n]) \<and> rb_head s' = rb_head s \<and> rb_reverts s' = rb_reverts s"
proof -
  note b = example_record_built [OF assms(3-5)]
  let ?j = "write_jsonl MAX_ROLLBACK_RECORDS (rs @ [example_record status n])"
  have "load_rollbacks ?j = Inr (keep_last MAX_ROLLBACK_RECORDS (rs @ [example_record status n]))"
    using assms(1) b(2) unfolding load_rollbacks_def by (rule load_write_jsonl)
  moreover have "keep_last MAX_ROLLBACK_RECORDS (rs @ [example_record status n]) = rs @ [example_record status n]" using assms(2) by (simp add: keep_last_def MAX_ROLLBACK_RECORDS_def)
  moreover have "append_rollback (journal_of s) (example_record status n) = Inr ?j" using assms(1) b(2) by (simp add: append_rollback_def)
  ultimately show ?thesis
    using b(1) by (simp add: record_status_def rollback_commit_record_def act_bind_def act_result_def act_outcome_def example_rollback_env_def Let_def raise_if_def put_journal_def journal_of_def)
qed

lemma example_target: "rollback_target example_rollback_env [(''checkpoint'', PStr ''AR-0001-r0002'')] example_rollback_state = Inr (example_checkpoint, replicate 40 CHR ''b'', None)"
proof -
  have "build_checkpoint [(''id'', PStr ''AR-0001''), (''task_revision'', PInt 2)] ''body'' (replicate 40 CHR ''a'') ''t'' = Inr example_checkpoint"
  proof -
    have "checkpoint_name ''AR-0001'' 2 = ''AR-0001-r0002''" "checkpoint_artifact_refs [(''id'', PStr ''AR-0001''), (''task_revision'', PInt 2)] = []" by code_simp+
    then show ?thesis using example_commits by (simp add: build_checkpoint_def example_checkpoint_def Let_def COMMIT_RE_def raise_if_def)
  qed
  then have "validate_checkpoint example_checkpoint = Inr ()" by (rule build_checkpoint_valid [where n = 2]) simp_all
  then have "load_checkpoints (t_journals (rb_tree example_rollback_state)) [''checkpoints/AR-0001.jsonl''] None = Inr [example_checkpoint]"
    by (simp add: load_checkpoints_def example_rollback_state_def decode_checkpoints_def MAX_CHECKPOINTS_def)
  moreover have "journal_of example_rollback_state = None" by (simp add: journal_of_def example_rollback_state_def rollback_path_def)
  then have "latest_for_checkpoint (journal_of example_rollback_state) ''AR-0001-r0002'' = Inr None" by (simp add: latest_for_checkpoint_def load_rollbacks_def load_jsonl_def)
  moreover have "v_ready example_rollback_env = Inr ()" "v_paths example_rollback_env = [''checkpoints/AR-0001.jsonl'']" "v_product example_rollback_env x y = Inr ()"
    "rb_head example_rollback_state = replicate 40 CHR ''b''" "dget example_checkpoint ''name'' = PStr ''AR-0001-r0002''" for x y
    by (simp_all add: example_rollback_env_def example_rollback_state_def example_checkpoint_def)
  ultimately show ?thesis by (simp add: rollback_target_def arg_str_def raise_if_def Let_def)
qed

lemma example_rollback: "rb_reverts (fst (cmd_rollback example_rollback_env [(''checkpoint'', PStr ''AR-0001-r0002'')] example_rollback_state)) = [replicate 40 CHR ''c'']"
proof -
  let ?b = "replicate 40 CHR ''b''"
  have j: "load_rollbacks (journal_of example_rollback_state) = Inr []" by (simp add: load_rollbacks_def load_jsonl_def journal_of_def example_rollback_state_def rollback_path_def)
  have st: "status \<in> set ROLLBACK_STATUS" if "status \<in> {''planned'', ''restore_started'', ''ambiguous''}" for status using that by (auto simp: ROLLBACK_STATUS_def)
  obtain s1 where s1: "record_status example_rollback_env example_checkpoint ?b ''planned'' [] [] 1 example_rollback_state = (s1, Returned (example_record ''planned'' 1))"
    "load_rollbacks (journal_of s1) = Inr [example_record ''planned'' 1]" "rb_head s1 = ?b" "rb_reverts s1 = []"
    using example_recorded [OF j, of "''planned''" 1 "[]"] st by (auto simp: example_rollback_state_def)
  obtain s2 where s2: "record_status example_rollback_env example_checkpoint ?b ''restore_started'' example_uuid [] 2 s1 = (s2, Returned (example_record ''restore_started'' 2))"
    "load_rollbacks (journal_of s2) = Inr [example_record ''planned'' 1, example_record ''restore_started'' 2]" "rb_head s2 = ?b" "rb_reverts s2 = []"
    using example_recorded [OF s1(2), of "''restore_started''" 2 example_uuid] st s1(3,4) by auto
  let ?s3 = "s2\<lparr>rb_head := replicate 40 CHR ''c'', rb_reverts := [replicate 40 CHR ''c'']\<rparr>"
  have "journal_of ?s3 = journal_of s2" by (simp add: journal_of_def)
  then obtain s4 where s4: "record_status example_rollback_env example_checkpoint ?b ''ambiguous'' example_uuid [] 3 ?s3 = (s4, Returned (example_record ''ambiguous'' 3))"
    "rb_reverts s4 = [replicate 40 CHR ''c'']"
    using example_recorded [of ?s3, of _ "''ambiguous''" 3 example_uuid] s2(2) st by auto
  have c: "?b \<noteq> replicate 40 CHR ''c''" "?b \<noteq> replicate 40 CHR ''a''" by (simp_all add: replicate_eq_replicate)
  have p: "v_policy example_rollback_env n = PolicyAbsent False" "v_revert example_rollback_env x y = (replicate 40 CHR ''c'', Raised (RuntimeError ''git''))" for n x y by (simp_all add: example_rollback_env_def)
  have d: "load_evidence_policy (PolicyAbsent False) = Inr DEFAULT_EVIDENCE_POLICY" by (simp add: load_evidence_policy_def)
  have f: "py_str (dget (example_record st n) ''operation_id'') = example_uuid" "dget (example_record st n) ''revision'' = PInt n" "py_str (dget example_checkpoint ''source_commit'') = replicate 40 CHR ''a''" for st n
    by (simp_all add: example_record_def example_checkpoint_def)
  show ?thesis
    unfolding cmd_rollback_def perform_rollback_def start_rollback_def start_fresh_def product_effect_def give_up_def revert_product_def act_bind_def act_catch_def
    using s1 s2 s4 c by (simp add: act_result_def act_outcome_def p d example_target policy_stable [OF d] f)
qed

section \<open>Properties\<close>

text \<open>Commands for one checkpoint, one after the other.\<close>

inductive rollback_step :: "string \<Rightarrow> rb_state \<Rightarrow> rb_state \<Rightarrow> bool" for name where
  rollback: "cmd_rollback env args s = (s', out) \<Longrightarrow> dget args ''checkpoint'' = PStr name \<Longrightarrow> steady env \<Longrightarrow> rollback_step name s s'"

text \<open>
  Property C4. However often a checkpoint is rolled back or reconciled, and wherever a command raises or is killed, the
  product is reverted at most once, and once it is, its head stays the commit of the revert.
\<close>

theorem product_reverted_once:
  assumes "(rollback_step name)\<^sup>*\<^sup>* s s'"
  shows "rb_reverts s' = rb_reverts s \<or> (\<exists>c. rb_reverts s' = rb_reverts s @ [c] \<and> rb_head s' = c)"
proof -
  have "at_most_once name (rb_reverts s) s'" using assms
  proof (induction rule: rtranclp_induct)
    case base
    show ?case by (simp add: at_most_once_def unreverted_def)
  next
    case (step s1 s2)
    from step.hyps(2) obtain env args out where c: "cmd_rollback env args s1 = (s2, out)" "dget args ''checkpoint'' = PStr name" "steady env" by cases
    show ?case using tripleD [OF cmd_keeps_at_most_once [OF c(3,2)] step.IH c(1)] by (cases out) auto
  qed
  then show ?thesis by (auto simp: at_most_once_def unreverted_def reverted_def)
qed

theorem product_reverted_once_witness:
  "\<exists>s'. rollback_step ''AR-0001-r0002'' example_rollback_state s' \<and> rb_reverts s' = [replicate 40 CHR ''c''] \<and> rb_head s' = replicate 40 CHR ''c''"
proof -
  obtain s' out where c: "cmd_rollback example_rollback_env [(''checkpoint'', PStr ''AR-0001-r0002'')] example_rollback_state = (s', out)"
    by (cases "cmd_rollback example_rollback_env [(''checkpoint'', PStr ''AR-0001-r0002'')] example_rollback_state")
  have "steady example_rollback_env" by (auto simp: steady_def example_rollback_env_def)
  then have s: "rollback_step ''AR-0001-r0002'' example_rollback_state s'" using rollback_step.rollback [OF c] by simp
  have r: "rb_reverts s' = [replicate 40 CHR ''c'']" using example_rollback c by simp
  moreover have "rb_reverts example_rollback_state = []" by (simp add: example_rollback_state_def)
  ultimately have "rb_head s' = replicate 40 CHR ''c''" using product_reverted_once [OF r_into_rtranclp [of "rollback_step ''AR-0001-r0002''", OF s]] by simp
  then show ?thesis using s r by blast
qed

end
