(* ===== verification/Campaign.thy ===== *)
theory Campaign
  imports Task_Records Checkpoint_Records
begin

text \<open>
  The campaign view, from \<open>src/tools/campaign.py\<close> and \<open>campaign_runtime.py\<close>: one card for every task of the board, with
  its worker, dependencies, blockers, attempts, outcome and the recovery that the reader is advised to
  start. The board is validated before it is projected, and the projection is validated before it is
  printed.

  The instant \<open>observed_at\<close> is in microseconds UTC. The lemmas show that at that instant no recovery
  command (\<open>Execution_Fence\<close>, \<open>Lifecycle\<close>) is accepted on a task whose card does not advise it, that the fences on the state of
  a task let an advised one pass, and that the projection can only be refused for the timestamps of session records.
\<close>

section \<open>Timestamps\<close>

definition CAMPAIGN_TERMINAL :: "string list" where
  "CAMPAIGN_TERMINAL = [''done'', ''cancelled'', ''superseded'']"

definition MAX_PROJECTED_BYTES :: nat where "MAX_PROJECTED_BYTES = 200000"

definition two_digits :: "nat \<Rightarrow> nat \<Rightarrow> string \<Rightarrow> bool" where
  "two_digits lo hi s = (length s = 2 \<and> list_all is_digit s \<and> lo \<le> nat_of_digits s \<and> nat_of_digits s \<le> hi)"

definition iso_zone :: "string \<Rightarrow> bool" where
  "iso_zone z = (z = ''Z'' \<or>
     (length z = 6 \<and> (z ! 0 = CHR ''+'' \<or> z ! 0 = CHR ''-'') \<and> two_digits 0 14 (take 2 (drop 1 z)) \<and> z ! 3 = CHR '':'' \<and>
      two_digits 0 59 (drop 4 z)))"

definition ISO_8601_TIMESTAMP :: "string \<Rightarrow> bool" where
  "ISO_8601_TIMESTAMP s =
     (19 < length s \<and> list_all is_digit (take 4 s) \<and> s ! 4 = CHR ''-'' \<and> two_digits 1 12 (take 2 (drop 5 s)) \<and>
      s ! 7 = CHR ''-'' \<and> two_digits 1 31 (take 2 (drop 8 s)) \<and> s ! 10 = CHR ''T'' \<and> two_digits 0 23 (take 2 (drop 11 s)) \<and>
      s ! 13 = CHR '':'' \<and> two_digits 0 59 (take 2 (drop 14 s)) \<and> s ! 16 = CHR '':'' \<and> two_digits 0 59 (take 2 (drop 17 s)) \<and>
      (let r = drop 19 s; f = takeWhile is_digit (drop 1 r) in
       if head_is CHR ''.'' r then 1 \<le> length f \<and> length f \<le> 9 \<and> iso_zone (dropWhile is_digit (drop 1 r)) else iso_zone r))"

definition campaign_time :: "pyval \<Rightarrow> string \<Rightarrow> int result" where
  "campaign_time v field =
     (if \<not> is_str v \<or> \<not> ISO_8601_TIMESTAMP (str_of v) then Inl (ValueError (field @ '' is not a timestamp''))
      else case from_iso_z (str_of v) of
        Inl _ \<Rightarrow> Inl (ValueError (field @ '' is not a timestamp''))
      | Inr (Naive _) \<Rightarrow> Inl (ValueError (field @ '' lacks timezone''))
      | Inr (Aware l off) \<Rightarrow> astimezone_utc l off)"

text \<open>\<open>--observed-at\<close>; the \<open>ArgumentTypeError\<close> of the source, which the argument parser reports, is a \<open>TypeError\<close> here.\<close>

definition parse_observed_at :: "pyval \<Rightarrow> int result" where
  "parse_observed_at v =
     value_to (TypeError ''observed-at must be ISO-8601'') (bindE (campaign_time v ''observed-at'') (\<lambda>t. Inr (truncate_us t)))"

definition current_observed_at :: "runtime \<Rightarrow> int" where
  "current_observed_at rt = truncate_us (rt_now rt)"

section \<open>The contract of a projection\<close>

definition terminal_contract_errors :: "string \<Rightarrow> meta \<Rightarrow> string list result" where
  "terminal_contract_errors task_id entry =
     (let status = dget entry ''status''; outcome = dget entry ''outcome''; recovery = dget entry ''recovery'' in
      bindE (hash_in status CAMPAIGN_TERMINAL) (\<lambda>terminal.
      Inr (if terminal then
             (if \<not> is_dict outcome \<or> \<not> py_eq (dget (dict_of outcome) ''status'') status
              then [task_id @ '': terminal outcome does not match status''] else []) @
             (if \<not> py_eq recovery (PDict [(''kind'', PStr ''none'')]) then [task_id @ '': terminal task has recovery advice''] else [])
           else if outcome \<noteq> PNone then [task_id @ '': nonterminal task has outcome''] else [])))"

text \<open>\<open>except ValueError as error: errors.append(str(error))\<close>.\<close>

definition time_errors :: "pyval \<Rightarrow> string \<Rightarrow> string list result" where
  "time_errors v field =
     (case campaign_time v field of Inr _ \<Rightarrow> Inr [] | Inl e \<Rightarrow> if is_value_error e then Inr [exc_message e] else Inl e)"

definition value_timestamp_errors :: "string \<Rightarrow> string \<Rightarrow> meta \<Rightarrow> string list result" where
  "value_timestamp_errors task_id name value =
     bindE (map_result (\<lambda>field. if dhas value field then time_errors (dget value field) (task_id @ '' '' @ name @ '' '' @ field) else Inr [])
       [''claim_expires'', ''recorded_at'']) (\<lambda>errors. Inr (concat errors))"

definition card_timestamp_errors :: "string \<Rightarrow> meta \<Rightarrow> string list result" where
  "card_timestamp_errors task_id entry =
     bindE (py_iter (dget_or entry ''attempts'' (PList []))) (\<lambda>attempts.
     bindE (map_result (\<lambda>(v, name). if is_dict v then value_timestamp_errors task_id name (dict_of v) else Inr [])
       ((dget entry ''worker'', ''worker'') # map (\<lambda>a. (a, ''attempt'')) attempts)) (\<lambda>errors. Inr (concat errors)))"

definition card_contract_errors :: "pyval \<Rightarrow> string list result" where
  "card_contract_errors entry =
     (if \<not> is_dict entry then Inr [''campaign card is invalid'']
      else
        let task_id = py_str (dget_or (dict_of entry) ''id'' (PStr ''unknown'')) in
        bindE (terminal_contract_errors task_id (dict_of entry)) (\<lambda>errors.
        bindE (card_timestamp_errors task_id (dict_of entry)) (\<lambda>times. Inr (errors @ times))))"

definition projection_contract_errors :: "meta \<Rightarrow> string list result" where
  "projection_contract_errors campaign =
     bindE (time_errors (dget campaign ''observed_at'') ''observed_at'') (\<lambda>errors.
     bindE (py_iter (dget_or campaign ''tasks'' (PList []))) (\<lambda>cards.
     bindE (map_result card_contract_errors cards) (\<lambda>more. Inr (errors @ concat more))))"

section \<open>Validation of the board\<close>

text \<open>\<open>private path text\<close> is \<open>private_text_errors\<close>, a table of regular expressions of \<open>handoffctl.py\<close>.\<close>

definition path_stem :: "string \<Rightarrow> string" where
  "path_stem path =
     (let name = last (split_on CHR ''/'' path); suffix = takeWhile (\<lambda>c. c \<noteq> CHR ''.'') (rev name); i = length name - length suffix - 1 in
      if CHR ''.'' \<in> set name \<and> 0 < i \<and> suffix \<noteq> [] then take i name else name)"

definition task_projection_step ::
  "checker \<Rightarrow> (string \<Rightarrow> string \<Rightarrow> string list) \<Rightarrow> evidence_policy option \<Rightarrow> task \<Rightarrow> string list \<times> (string \<times> int) list \<Rightarrow>
    (string list \<times> (string \<times> int) list) result" where
  "task_projection_step ck private policy t = (\<lambda>(errors, revisions).
     let path = fst t; task = task_meta t; body = snd (snd t);
         task_id = py_str (dget_or task ''id'' (PStr (path_stem path)));
         text = canonical (PDict task) @ newline # body;
         revision = dget task ''task_revision'' in
     bindE (basic_task_errors ck path task policy True) (\<lambda>basic.
     let errors1 = errors @ basic @
           (if MAX_PROJECTED_BYTES < length (utf8 text) then [task_id @ '': projected authority exceeds 200 KiB''] else []) @ private path text in
     if exact_int revision
     then Inr (errors1 @ (if map_of revisions task_id \<noteq> None then [''duplicate task '' @ task_id] else []),
               AList.update task_id (int_of revision) revisions)
     else Inr (errors1, revisions)))"

definition task_projection_errors ::
  "checker \<Rightarrow> (string \<Rightarrow> string \<Rightarrow> string list) \<Rightarrow> evidence_policy option \<Rightarrow> task list \<Rightarrow> (string list \<times> (string \<times> int) list) result" where
  "task_projection_errors ck private policy tasks = fold_result (task_projection_step ck private policy) tasks ([], [])"

definition session_authority_errors :: "task list \<Rightarrow> (string \<times> int) list \<Rightarrow> meta \<Rightarrow> string \<Rightarrow> int \<Rightarrow> string list result" where
  "session_authority_errors tasks revisions session task_id revision =
     (case map_of revisions task_id of
        None \<Rightarrow> Inr [''session observation has unknown task '' @ task_id]
      | Some current \<Rightarrow>
          if current < revision then Inr [''session observation is ahead of '' @ task_id @ '' authority'']
          else if revision = current then
            (case find (\<lambda>t. py_str (dget (task_meta t) ''id'') = task_id) tasks of
               None \<Rightarrow> Inl (RuntimeError ''StopIteration'')
             | Some t \<Rightarrow> bindE (ditem session ''status'') (\<lambda>status.
                 Inr (if \<not> py_eq status (dget (task_meta t) ''status'')
                      then [''session observation status differs from '' @ task_id @ '' authority''] else [])))
          else Inr [])"

definition session_projection_step ::
  "task list \<Rightarrow> (string \<times> int) list \<Rightarrow> (string \<Rightarrow> string \<Rightarrow> string list) \<Rightarrow> meta \<Rightarrow> string list \<times> (string \<times> int) list \<Rightarrow>
    (string list \<times> (string \<times> int) list) result" where
  "session_projection_step tasks revisions private session = (\<lambda>(errors, seen).
     case validate_session_record session of
       Inl e \<Rightarrow> if is_value_error e then Inr (errors @ [''session: '' @ exc_message e], seen) else Inl e
     | Inr _ \<Rightarrow>
         bindE (ditem session ''task'') (\<lambda>task.
         bindE (bindE (ditem session ''task_revision'') py_int) (\<lambda>revision.
         let task_id = py_str task; text = canonical (PDict session); label = task_id @ ''@'' @ show_int revision in
         bindE (session_authority_errors tasks revisions session task_id revision) (\<lambda>authority.
         Inr (errors @ (if (task_id, revision) \<in> set seen then [''duplicate session observation '' @ label] else []) @ authority @
                (if MAX_PROJECTED_BYTES < length (utf8 text) then [''session observation '' @ label @ '' exceeds 200 KiB''] else []) @
                private (''sessions/'' @ task_id @ ''.jsonl'') text,
              seen @ [(task_id, revision)])))))"

definition session_projection_errors ::
  "task list \<Rightarrow> meta list \<Rightarrow> (string \<times> int) list \<Rightarrow> (string \<Rightarrow> string \<Rightarrow> string list) \<Rightarrow> string list result" where
  "session_projection_errors tasks sessions revisions private =
     bindE (fold_result (session_projection_step tasks revisions private) sessions ([], [])) (\<lambda>(errors, _). Inr errors)"

definition projection_errors ::
  "checker \<Rightarrow> (string \<Rightarrow> string \<Rightarrow> string list) \<Rightarrow> evidence_policy option \<Rightarrow> task list \<Rightarrow> meta list \<Rightarrow> string list result" where
  "projection_errors ck private policy tasks sessions =
     bindE (task_projection_errors ck private policy tasks) (\<lambda>(errors, revisions).
     bindE (session_projection_errors tasks sessions revisions private) (\<lambda>more.
     bindE (supersession_errors tasks) (\<lambda>supersession.
     Inr (sorted_set (errors @ more @ graph_errors tasks @ hierarchy_errors tasks @ supersession)))))"

section \<open>Cards\<close>

definition campaign_worker :: "meta \<Rightarrow> int \<Rightarrow> meta result" where
  "campaign_worker task observed_at =
     (let owner = dget task ''owner''; expiry = dget task ''claim_expires'' in
      if \<not> is_str owner \<or> str_of owner = [] then Inr [(''state'', PStr ''unassigned'')]
      else if \<not> is_str expiry \<or> str_of expiry = [] then Inr [(''owner'', owner), (''state'', PStr ''unfenced'')]
      else bindE (campaign_time expiry ''claim_expires'') (\<lambda>deadline.
        Inr [(''owner'', owner), (''claim_expires'', expiry), (''state'', PStr (if deadline \<le> observed_at then ''expired'' else ''active''))]))"

text \<open>\<open>sorted(values)\<close>: texts, or numbers; other values cannot be compared, or cannot be looked up afterwards.\<close>

definition sort_values :: "pyval list \<Rightarrow> pyval list result" where
  "sort_values vs =
     (if list_all is_str vs then Inr (sort_key str_of vs)
      else if list_all is_int vs then Inr (sort_key int_of vs)
      else if length vs \<le> 1 then Inr vs
      else Inl (TypeError ''values cannot be ordered''))"

definition card_dependencies :: "meta \<Rightarrow> (string \<times> meta) list \<Rightarrow> meta list result" where
  "card_dependencies task index =
     (let values = dget_or task ''depends_on'' (PList []) in
      bindE (raise_if (\<not> is_list values) (ValueError ''depends_on is invalid'')) (\<lambda>_.
      bindE (sort_values (list_of values)) (map_result (\<lambda>dependency.
        bindE (raise_if (\<not> hashable dependency) (TypeError ''unhashable type'')) (\<lambda>_.
        let found = (if is_str dependency then map_of index (str_of dependency) else None);
            status = (case found of None \<Rightarrow> PStr ''missing'' | Some m \<Rightarrow> dget_or m ''status'' (PStr ''missing'')) in
        Inr [(''task'', dependency), (''status'', PStr (py_str status))])))))"

definition reservation_state :: "meta \<Rightarrow> int \<Rightarrow> string result" where
  "reservation_state task observed_at =
     (let reservation = dget task ''execution_reservation'' in
      if reservation = PNone then Inr ''clear''
      else
        bindE (valid_reservation reservation) (\<lambda>ok.
        bindE (raise_if (\<not> ok) (ValueError ''execution reservation is invalid'')) (\<lambda>_.
        bindE (campaign_time (dget (dict_of reservation) ''expires_at'') ''execution reservation expiry'') (\<lambda>expiry.
        Inr (if expiry \<le> observed_at then ''expired'' else ''live'')))))"

definition retry_blockers :: "meta \<Rightarrow> meta list result" where
  "retry_blockers task =
     (let circuit = dget task ''retry_circuit'' in
      if circuit = PNone then Inr []
      else bindE (retry_validate circuit) (\<lambda>checked.
        Inr ((if dget checked ''hold'' \<noteq> PNone then [[(''kind'', PStr ''retry-circuit''), (''state'', PStr ''held'')]] else []) @
             (if truthy (dget checked ''reservations'') then [[(''kind'', PStr ''retry-claim''), (''state'', PStr ''live'')]] else []))))"

definition card_blockers :: "meta \<Rightarrow> meta list \<Rightarrow> int \<Rightarrow> meta list result" where
  "card_blockers task dependencies observed_at =
     bindE (reservation_state task observed_at) (\<lambda>state.
     bindE (retry_blockers task) (\<lambda>retry.
     Inr (map (\<lambda>item. [(''kind'', PStr ''dependency''), (''task'', dget item ''task''), (''status'', dget item ''status'')])
            (filter (\<lambda>item. str_of (dget item ''status'') \<notin> set CAMPAIGN_TERMINAL) dependencies) @
          (if dget task ''status'' = PStr ''blocked'' then [[(''kind'', PStr ''task-status'')]] else []) @
          (if state \<noteq> ''clear'' then [[(''kind'', PStr ''execution-claim''), (''state'', PStr state)]] else []) @ retry)))"

definition card_outcome :: "meta \<Rightarrow> pyval result" where
  "card_outcome task =
     bindE (ditem task ''status'') (\<lambda>v.
     let status = py_str v; acceptance = dget task ''spec_acceptance'' in
     Inr (if status \<notin> set CAMPAIGN_TERMINAL then PNone
          else PDict [(''status'', PStr status),
            (''acceptance'', PStr (if is_dict acceptance \<and> dget (dict_of acceptance) ''status'' = PStr ''pass'' then ''pass'' else ''absent''))]))"

definition card_attempt :: "int \<Rightarrow> int \<times> meta \<Rightarrow> meta result" where
  "card_attempt current = (\<lambda>(revision, session).
     bindE (ditem session ''recorded_at'') (\<lambda>recorded_at.
     bindE (ditem session ''status'') (\<lambda>status.
     bindE (ditem session ''trigger'') (\<lambda>trigger.
     Inr [(''revision'', PInt revision), (''recorded_at'', recorded_at), (''status'', status), (''trigger'', trigger),
          (''state'', PStr (if revision = current then ''current'' else ''stale''))]))))"

definition attempt_revision :: "meta \<Rightarrow> (int \<times> meta) result" where
  "attempt_revision session = bindE (bindE (ditem session ''task_revision'') py_int) (\<lambda>revision. Inr (revision, session))"

definition card_attempts :: "meta \<Rightarrow> meta list \<Rightarrow> (meta list \<times> meta) result" where
  "card_attempts task sessions =
     bindE (bindE (ditem task ''task_revision'') py_int) (\<lambda>current.
     bindE (map_result attempt_revision sessions) (\<lambda>keyed.
     bindE (map_result (card_attempt current) (sort_key fst keyed)) (\<lambda>attempts.
     Inr (attempts,
       [(''current_session'', PBool (attempts \<noteq> [] \<and> dget (last attempts) ''state'' = PStr ''current'')),
        (''stale_sessions'', PInt (int (length (filter (\<lambda>a. dget a ''state'' = PStr ''stale'') attempts))))]))))"

definition card_recovery :: "meta \<Rightarrow> meta \<Rightarrow> meta \<Rightarrow> int \<Rightarrow> string result" where
  "card_recovery task worker sessions observed_at =
     bindE (hash_in (dget task ''status'') CAMPAIGN_TERMINAL) (\<lambda>terminal.
     if terminal then Inr ''none''
     else
       bindE (reservation_state task observed_at) (\<lambda>state.
       Inr (if state = ''expired'' then ''recover-execution-claim''
            else if state = ''live'' then ''wait-for-execution-claim''
            else if dget worker ''state'' = PStr ''expired'' then ''recover-expired-claim''
            else if dget task ''status'' = PStr ''blocked'' then ''resume-or-unblock''
            else if truthy (dget sessions ''stale_sessions'') then ''record-current-session''
            else ''none'')))"

definition build_card :: "(string \<times> meta) list \<Rightarrow> (string \<times> meta) list \<Rightarrow> int \<Rightarrow> string \<times> meta \<Rightarrow> meta result" where
  "build_card index sessions observed_at = (\<lambda>(task_id, task).
     bindE (card_dependencies task index) (\<lambda>dependencies.
     bindE (campaign_worker task observed_at) (\<lambda>worker.
     bindE (card_attempts task (map snd (filter (\<lambda>s. fst s = task_id) sessions))) (\<lambda>(attempts, session_state).
     bindE (ditem task ''title'') (\<lambda>title.
     bindE (ditem task ''priority'') (\<lambda>priority.
     bindE (ditem task ''status'') (\<lambda>status.
     bindE (ditem task ''task_revision'') (\<lambda>revision.
     bindE (card_blockers task dependencies observed_at) (\<lambda>blockers.
     bindE (card_recovery task worker session_state observed_at) (\<lambda>recovery.
     bindE (card_outcome task) (\<lambda>outcome.
     Inr [(''id'', PStr task_id), (''title'', title), (''priority'', priority), (''status'', status), (''revision'', revision),
          (''worker'', PDict worker), (''dependencies'', PList (map PDict dependencies)), (''blockers'', PList (map PDict blockers)),
          (''attempts'', PList (map PDict attempts)), (''session'', PDict session_state),
          (''recovery'', PDict [(''kind'', PStr recovery)]), (''outcome'', outcome)])))))))))))"

section \<open>The campaign\<close>

definition board_index :: "task list \<Rightarrow> (string \<times> meta) list result" where
  "board_index tasks =
     fold_result (\<lambda>t index. bindE (ditem (task_meta t) ''id'') (\<lambda>v. Inr (AList.update (py_str v) (task_meta t) index))) tasks []"

definition sessions_by_task :: "meta list \<Rightarrow> (string \<times> meta) list result" where
  "sessions_by_task sessions = map_result (\<lambda>s. bindE (ditem s ''task'') (\<lambda>v. Inr (py_str v, s))) sessions"

definition card_status :: "meta \<Rightarrow> string" where
  "card_status entry = py_str (dget entry ''status'')"

definition card_advice :: "meta \<Rightarrow> string" where
  "card_advice entry = str_of (dget (dict_of (dget entry ''recovery'')) ''kind'')"

definition campaign_build :: "task list \<Rightarrow> meta list \<Rightarrow> int \<Rightarrow> meta result" where
  "campaign_build tasks sessions observed_at =
     bindE (board_index tasks) (\<lambda>index.
     bindE (sessions_by_task sessions) (\<lambda>grouped.
     bindE (map_result (build_card index grouped observed_at) (sort_key fst index)) (\<lambda>cards.
     let statuses = map card_status cards in
     Inr [(''schema_version'', PInt 1), (''observed_at'', PStr (isoformat_utc observed_at)), (''tasks'', PList (map PDict cards)),
       (''summary'', PDict [
          (''tasks'', PInt (int (length cards))), (''sessions'', PInt (int (length sessions))),
          (''by_status'', PDict (map (\<lambda>s. (s, PInt (int (count_list statuses s)))) (sorted_set statuses))),
          (''recovery_required'', PInt (int (length (filter (\<lambda>c. card_advice c \<noteq> ''none'') cards))))])])))"

definition render_text :: "meta \<Rightarrow> string" where
  "render_text campaign =
     join [newline] (''CAMPAIGN'' # map (\<lambda>(name, label). label @ ''='' @ canonical (dget campaign name))
       [(''schema_version'', ''SCHEMA_VERSION''), (''observed_at'', ''OBSERVED_AT''), (''tasks'', ''TASKS''), (''summary'', ''SUMMARY'')]) @ [newline]"

definition campaign_command :: "task list \<Rightarrow> meta list \<Rightarrow> bool \<Rightarrow> int \<Rightarrow> string result" where
  "campaign_command tasks sessions as_json observed_at =
     bindE (campaign_build tasks sessions observed_at) (\<lambda>campaign.
     bindE (projection_contract_errors campaign) (\<lambda>errors.
     bindE (raise_if (errors \<noteq> []) (ValueError (''campaign projection contract failed:'' @ [newline] @ join [newline] errors))) (\<lambda>_.
     Inr (if as_json then canonical (PDict campaign) @ [newline] else render_text campaign))))"

text \<open>\<open>dispatch\<close> under the read lock, which makes the board, the policy and the sessions one snapshot.\<close>

definition campaign_dispatch ::
  "checker \<Rightarrow> (string \<Rightarrow> string \<Rightarrow> string list) \<Rightarrow> runtime \<Rightarrow> evidence_policy option \<Rightarrow> task list \<Rightarrow> meta list \<Rightarrow> bool \<Rightarrow> int option \<Rightarrow> string result" where
  "campaign_dispatch ck private rt policy tasks sessions as_json observed_at =
     bindE (projection_errors ck private policy tasks sessions) (\<lambda>errors.
     bindE (raise_if (errors \<noteq> []) (RuntimeError (''campaign snapshot validation failed:'' @ [newline] @ join [newline] errors))) (\<lambda>_.
     campaign_command tasks sessions as_json (case observed_at of None \<Rightarrow> current_observed_at rt | Some t \<Rightarrow> t)))"

section \<open>Advice and fences\<close>

text \<open>
  What the advice of a card promises of the commands at the instant of the world \<open>w\<close>. A command that recovers an
  execution, recovers a claim or opens a blocked task is accepted only where its advice is given, whatever its arguments;
  and where it is given the state of the task is what the command asks for: a valid reservation that has expired, an
  active claim that has expired without a reservation, a blocked and unclaimed task.
\<close>

definition advice_fits :: "world \<Rightarrow> meta \<Rightarrow> string \<Rightarrow> bool" where
  "advice_fits w task advice \<longleftrightarrow>
     (\<forall>args. succeeds (execution_recover (w_rt w) args task) \<or> succeeds (execution_abandon (w_rt w) args task) \<longrightarrow> advice = ''recover-execution-claim'') \<and>
     (advice = ''recover-execution-claim'' \<longrightarrow>
        valid_reservation (dget task ''execution_reservation'') = Inr True \<and> require_expired (w_rt w) task = Inr ()) \<and>
     (advice = ''wait-for-execution-claim'' \<longrightarrow>
        valid_reservation (dget task ''execution_reservation'') = Inr True \<and> require_expired (w_rt w) task \<noteq> Inr ()) \<and>
     (\<forall>args. succeeds (apply_recover_expired_transition w args task) \<longrightarrow> advice = ''recover-expired-claim'') \<and>
     (advice = ''recover-expired-claim'' \<longrightarrow>
        require_no_execution_reservation task = Inr () \<and> dget task ''status'' = PStr ''in_progress'' \<and> truthy (dget task ''owner'') \<and>
        (\<exists>expiry. parse_claim_expiry (dget task ''claim_expires'') = Inr expiry \<and> expiry \<le> rt_now (w_rt w))) \<and>
     (\<forall>args. succeeds (apply_resume w args task) \<or> succeeds (apply_unblock w args task) \<longrightarrow> advice = ''resume-or-unblock'') \<and>
     (advice = ''resume-or-unblock'' \<longrightarrow> dget task ''status'' = PStr ''blocked'' \<and> (\<forall>text. require_unclaimed task text = Inr ()))"

definition stale_session :: "meta \<Rightarrow> meta \<Rightarrow> bool" where
  "stale_session task session =
     (bindE (ditem session ''task_revision'') py_int \<noteq> bindE (ditem task ''task_revision'') py_int)"

lemma campaign_time_Inr:
  "campaign_time v field = Inr t \<longleftrightarrow>
    (\<exists>l off. is_str v \<and> ISO_8601_TIMESTAMP (str_of v) \<and> from_iso_z (str_of v) = Inr (Aware l off) \<and> in_range (l - off) \<and> t = l - off)"
  by (auto simp: campaign_time_def astimezone_utc_def split: sum.splits datetime.splits if_splits)

lemma campaign_time_field: "succeeds (campaign_time v f) \<longleftrightarrow> succeeds (campaign_time v g)"
  by (simp add: succeeds_iff campaign_time_Inr)

lemma iso_not_Nil: "ISO_8601_TIMESTAMP s \<Longrightarrow> s \<noteq> []"
  by (auto simp: ISO_8601_TIMESTAMP_def)

lemma worker_expired:
  assumes "campaign_worker task t = Inr worker" and "is_str (dget task ''owner'')"
  shows "dget worker ''state'' = PStr ''expired'' \<longleftrightarrow>
    truthy (dget task ''owner'') \<and> (\<exists>expiry. parse_claim_expiry (dget task ''claim_expires'') = Inr expiry \<and> expiry \<le> t)"
proof (cases "str_of (dget task ''owner'') \<noteq> [] \<and> is_str (dget task ''claim_expires'') \<and> str_of (dget task ''claim_expires'') \<noteq> []")
  case True
  then obtain ow x where o: "dget task ''owner'' = PStr ow" "ow \<noteq> []" and x: "dget task ''claim_expires'' = PStr x" "x \<noteq> []"
    using assms(2) by (auto simp: is_str_iff)
  obtain d where d: "campaign_time (PStr x) ''claim_expires'' = Inr d" and w: "dget worker ''state'' = PStr (if d \<le> t then ''expired'' else ''active'')"
    using assms(1) o x by (auto simp: campaign_worker_def bindE_Inr Let_def)
  have "parse_claim_expiry (PStr x) = Inr d"
    using d x(2) by (auto simp: campaign_time_Inr parse_claim_expiry_def astimezone_utc_def)
  then show ?thesis using o x w by simp
next
  case False
  then have "dget worker ''state'' \<in> {PStr ''unassigned'', PStr ''unfenced''}"
    using assms by (auto simp: campaign_worker_def Let_def split: if_splits)
  then show ?thesis using False assms(2) by (auto simp: parse_claim_expiry_def is_str_iff split: if_splits)
qed

lemma reservation_state_cases:
  assumes "reservation_state task t = Inr st" and "rt_now rt = t"
  obtains "st = ''clear''" "dget task ''execution_reservation'' = PNone"
  | "st = ''expired''" "valid_reservation (dget task ''execution_reservation'') = Inr True" "require_expired rt task = Inr ()"
  | "st = ''live''" "valid_reservation (dget task ''execution_reservation'') = Inr True" "require_expired rt task \<noteq> Inr ()"
proof (cases "dget task ''execution_reservation'' = PNone")
  case True
  then have "st = ''clear''" using assms(1) by (simp add: reservation_state_def)
  then show ?thesis using True by (rule that(1))
next
  case False
  let ?v = "dget task ''execution_reservation''"
  obtain e where ok: "valid_reservation ?v = Inr True" and e: "campaign_time (dget (dict_of ?v) ''expires_at'') ''execution reservation expiry'' = Inr e"
    and st: "st = (if e \<le> t then ''expired'' else ''live'')"
    using assms(1) False by (auto simp: reservation_state_def Let_def result_simps)
  obtain l off where l: "from_iso_z (py_str (dget (dict_of ?v) ''expires_at'')) = Inr (Aware l off)" "e = l - off"
    using e by (auto simp: campaign_time_Inr is_str_iff)
  have "live_execution_reservation rt task = Inr (if e \<le> t then None else Some (dict_of ?v))"
    using ok l assms(2) by (simp add: live_execution_reservation_def dt_le_def)
  then have r: "require_expired rt task = Inr () \<longleftrightarrow> e \<le> t" by (simp add: require_expired_def)
  show ?thesis
  proof (cases "e \<le> t")
    case True then show ?thesis using st r ok by (intro that(2)) simp_all
  next
    case False then show ?thesis using st r ok by (intro that(3)) simp_all
  qed
qed

lemma hash_in_image: "hash_in v ws = Inr b \<Longrightarrow> b \<longleftrightarrow> v \<in> PStr ` set ws"
  by (cases v) (auto simp: hash_in_def)

text \<open>The commands, by the state that they ask for.\<close>

lemma recovery_accepted:
  "succeeds (execution_recover rt args task) \<or> succeeds (execution_abandon rt args task) \<Longrightarrow>
     dget task ''execution_reservation'' \<noteq> PNone \<and> require_expired rt task = Inr ()"
  "succeeds (apply_recover_expired_transition w args task) \<Longrightarrow>
     dget task ''execution_reservation'' = PNone \<and> dget task ''status'' = PStr ''in_progress'' \<and> truthy (dget task ''owner'') \<and>
     (\<exists>expiry. parse_claim_expiry (dget task ''claim_expires'') = Inr expiry \<and> expiry \<le> rt_now (w_rt w))"
  "succeeds (apply_resume w args task) \<or> succeeds (apply_unblock w args task) \<Longrightarrow> dget task ''status'' = PStr ''blocked''"
proof -
  show "succeeds (execution_recover rt args task) \<or> succeeds (execution_abandon rt args task) \<Longrightarrow>
     dget task ''execution_reservation'' \<noteq> PNone \<and> require_expired rt task = Inr ()"
    by (auto simp: succeeds_iff execution_recover_def execution_abandon_def bindE_Inr dest: valid_reservation_present)
  show "dget task ''execution_reservation'' = PNone \<and> dget task ''status'' = PStr ''in_progress'' \<and> truthy (dget task ''owner'') \<and>
     (\<exists>expiry. parse_claim_expiry (dget task ''claim_expires'') = Inr expiry \<and> expiry \<le> rt_now (w_rt w))"
    if s: "succeeds (apply_recover_expired_transition w args task)"
  proof -
    obtain y where y: "require_no_execution_reservation task = Inr ()" "apply_recover_expired w args task = Inr y"
      using s by (auto simp: succeeds_iff apply_recover_expired_transition_def bindE_Inr)
    obtain meta' msg where m: "require_no_execution_reservation task = Inr ()" "apply_recover_expired w args task = Inr (meta', msg)"
      using y by (cases y) simp
    from m(2) show ?thesis by (rule recover_expired_Inr) (use m(1) in \<open>simp add: require_no_execution_reservation_Inr\<close>)
  qed
  show "succeeds (apply_resume w args task) \<or> succeeds (apply_unblock w args task) \<Longrightarrow> dget task ''status'' = PStr ''blocked''"
    by (auto simp: succeeds_iff apply_resume_def apply_unblock_def require_status_def bindE_Inr raise_if_Inr)
qed

lemma recovery_refused:
  "dget task ''execution_reservation'' = PNone \<or> require_expired rt task \<noteq> Inr () \<Longrightarrow>
     \<not> succeeds (execution_recover rt args task) \<and> \<not> succeeds (execution_abandon rt args task)"
  "dget task ''execution_reservation'' \<noteq> PNone \<or> dget task ''status'' \<noteq> PStr ''in_progress'' \<or>
     (\<forall>expiry. parse_claim_expiry (dget task ''claim_expires'') = Inr expiry \<longrightarrow> \<not> expiry \<le> rt_now (w_rt w)) \<Longrightarrow>
     \<not> succeeds (apply_recover_expired_transition w args task)"
  "dget task ''status'' \<noteq> PStr ''blocked'' \<Longrightarrow> \<not> succeeds (apply_resume w args task) \<and> \<not> succeeds (apply_unblock w args task)"
  using recovery_accepted(1) [of rt args task] recovery_accepted(2,3) [of w args task] by blast+

lemma fits_execution:
  assumes "dget task ''status'' = PStr ''in_progress''" "dget task ''execution_reservation'' \<noteq> PNone"
    and "valid_reservation (dget task ''execution_reservation'') = Inr True"
  shows "require_expired (w_rt w) task = Inr () \<Longrightarrow> advice_fits w task ''recover-execution-claim''"
    "require_expired (w_rt w) task \<noteq> Inr () \<Longrightarrow> advice_fits w task ''wait-for-execution-claim''"
  using assms by (simp_all add: advice_fits_def recovery_refused)

lemma fits_claim:
  assumes "dget task ''execution_reservation'' = PNone" "dget task ''status'' = PStr ''in_progress''" "truthy (dget task ''owner'')"
    and "parse_claim_expiry (dget task ''claim_expires'') = Inr expiry" "expiry \<le> rt_now (w_rt w)"
  shows "advice_fits w task ''recover-expired-claim''"
  using assms by (simp add: advice_fits_def recovery_refused require_no_execution_reservation_Inr)

lemma fits_blocked:
  assumes "dget task ''execution_reservation'' = PNone" "dget task ''status'' = PStr ''blocked''"
    and "\<not> truthy (dget task ''owner'')" "\<not> truthy (dget task ''claim_expires'')"
  shows "advice_fits w task ''resume-or-unblock''"
  using assms by (simp add: advice_fits_def recovery_refused require_unclaimed_def raise_if_Inr)

lemma fits_nothing:
  assumes "dget task ''execution_reservation'' = PNone" "dget task ''status'' \<noteq> PStr ''blocked''" "advice \<in> {''none'', ''record-current-session''}"
    and "dget task ''status'' \<noteq> PStr ''in_progress'' \<or>
      (\<forall>expiry. parse_claim_expiry (dget task ''claim_expires'') = Inr expiry \<longrightarrow> \<not> expiry \<le> rt_now (w_rt w))"
  shows "advice_fits w task advice"
proof -
  have "\<not> succeeds (apply_recover_expired_transition w args task)" for args using assms(4) by (intro recovery_refused(2)) blast
  then show ?thesis using assms(1-3) by (auto simp: advice_fits_def recovery_refused(1,3))
qed

lemma card_recovery_clear:
  assumes "advice = (if dget worker ''state'' = PStr ''expired'' then ''recover-expired-claim''
        else if dget task ''status'' = PStr ''blocked'' then ''resume-or-unblock''
        else if truthy (dget sess ''stale_sessions'') then ''record-current-session'' else ''none'')"
    and "dget task ''execution_reservation'' = PNone"
    and "dget worker ''state'' = PStr ''expired'' \<longleftrightarrow>
      truthy (dget task ''owner'') \<and> (\<exists>expiry. parse_claim_expiry (dget task ''claim_expires'') = Inr expiry \<and> expiry \<le> t)"
    and "rt_now (w_rt w) = t" and "claim_wf task"
  shows "advice_fits w task advice \<and> (advice = ''record-current-session'' \<longrightarrow> truthy (dget sess ''stale_sessions''))"
proof -
  note wf = assms(5) [unfolded claim_wf_def]
  consider (claim) "dget worker ''state'' = PStr ''expired''"
    | (blocked) "dget worker ''state'' \<noteq> PStr ''expired''" "dget task ''status'' = PStr ''blocked''"
    | (quiet) "dget worker ''state'' \<noteq> PStr ''expired''" "dget task ''status'' \<noteq> PStr ''blocked''" by blast
  then show ?thesis
  proof cases
    case claim
    then obtain expiry where "truthy (dget task ''owner'')" "parse_claim_expiry (dget task ''claim_expires'') = Inr expiry" "expiry \<le> rt_now (w_rt w)"
      using assms(3,4) by blast
    moreover have "dget task ''status'' = PStr ''in_progress''" using calculation(1) wf by (auto split: if_split_asm)
    ultimately show ?thesis using assms(1,2) claim fits_claim by simp
  next
    case blocked
    then show ?thesis using assms(1,2) wf fits_blocked by simp
  next
    case quiet
    then have "dget task ''status'' \<noteq> PStr ''in_progress'' \<or>
        (\<forall>expiry. parse_claim_expiry (dget task ''claim_expires'') = Inr expiry \<longrightarrow> \<not> expiry \<le> rt_now (w_rt w))"
      using assms(3,4) wf by auto
    moreover have "advice = ''none'' \<or> advice = ''record-current-session'' \<and> truthy (dget sess ''stale_sessions'')"
      unfolding assms(1) if_not_P [OF quiet(1)] if_not_P [OF quiet(2)] by simp
    ultimately show ?thesis using assms(2) quiet(2) fits_nothing by auto
  qed
qed

lemma card_recovery_fits:
  assumes "card_recovery task worker sess t = Inr advice" and "campaign_worker task t = Inr worker" and "rt_now (w_rt w) = t"
    and "claim_wf task" and "is_str (dget task ''owner'')"
  shows "advice_fits w task advice \<and> (advice = ''record-current-session'' \<longrightarrow> truthy (dget sess ''stale_sessions''))"
proof -
  obtain terminal where h: "hash_in (dget task ''status'') CAMPAIGN_TERMINAL = Inr terminal" using assms(1) by (auto simp: card_recovery_def bindE_Inr)
  note wf = assms(4) [unfolded claim_wf_def]
  show ?thesis
  proof (cases terminal)
    case True
    then have "advice = ''none''" using assms(1) h by (simp add: card_recovery_def)
    moreover have "dget task ''status'' \<noteq> PStr ''in_progress''" "dget task ''status'' \<noteq> PStr ''blocked''"
      using True hash_in_image [OF h] by (auto simp: CAMPAIGN_TERMINAL_def)
    ultimately show ?thesis using wf by (simp add: fits_nothing)
  next
    case False
    then obtain st where st: "reservation_state task t = Inr st" using assms(1) h by (auto simp: card_recovery_def bindE_Inr)
    have advice: "advice = (if st = ''expired'' then ''recover-execution-claim'' else if st = ''live'' then ''wait-for-execution-claim''
        else if dget worker ''state'' = PStr ''expired'' then ''recover-expired-claim''
        else if dget task ''status'' = PStr ''blocked'' then ''resume-or-unblock''
        else if truthy (dget sess ''stale_sessions'') then ''record-current-session'' else ''none'')"
      using assms(1) h False st by (simp add: card_recovery_def)
    have reserved: "dget task ''execution_reservation'' \<noteq> PNone \<and> dget task ''status'' = PStr ''in_progress''"
      if "valid_reservation (dget task ''execution_reservation'') = Inr True"
      using that wf by (auto simp: valid_reservation_True split: if_split_asm)
    show ?thesis
    proof (rule reservation_state_cases [OF st assms(3)])
      assume clear: "st = ''clear''" "dget task ''execution_reservation'' = PNone"
      show ?thesis using card_recovery_clear [OF _ clear(2) worker_expired [OF assms(2,5)] assms(3,4), of advice sess] advice clear(1) by simp
    qed (use advice reserved fits_execution in auto)
  qed
qed

section \<open>Every task has its card\<close>

definition task_key :: "task \<Rightarrow> string" where
  "task_key t = py_str (dget (task_meta t) ''id'')"

definition index_of_board :: "task list \<Rightarrow> (string \<times> meta) list \<Rightarrow> bool" where
  "index_of_board tasks index \<longleftrightarrow> distinct (map fst index) \<and> fst ` set index = task_key ` set tasks \<and>
     (\<forall>km \<in> set index. \<exists>t \<in> set tasks. fst km = task_key t \<and> snd km = task_meta t)"

lemma index_of_board_update:
  assumes "index_of_board tasks index"
  shows "index_of_board (tasks @ [t]) (AList.update (task_key t) (task_meta t) index)"
proof -
  have k: "fst ` set (AList.update (task_key t) (task_meta t) index) = insert (task_key t) (fst ` set index)" by (simp add: dom_update)
  have d: "distinct (map fst (AList.update (task_key t) (task_meta t) index))" using assms by (simp add: index_of_board_def distinct_update)
  have "\<exists>u \<in> set (tasks @ [t]). fst km = task_key u \<and> snd km = task_meta u" if "km \<in> set (AList.update (task_key t) (task_meta t) index)" for km
  proof -
    have "map_of (AList.update (task_key t) (task_meta t) index) (fst km) = Some (snd km)" using that d by simp
    then have "fst km = task_key t \<and> snd km = task_meta t \<or> map_of index (fst km) = Some (snd km)"
      by (auto simp: update_conv split: if_splits)
    then show ?thesis
    proof
      assume "map_of index (fst km) = Some (snd km)"
      then have "(fst km, snd km) \<in> set index" by (rule map_of_SomeD)
      then have "km \<in> set index" by simp
      then show ?thesis using assms unfolding index_of_board_def by fastforce
    qed auto
  qed
  then show ?thesis using k d assms unfolding index_of_board_def by auto
qed

lemma board_index_exact:
  assumes "board_index tasks = Inr index"
  shows "index_of_board tasks index"
proof -
  let ?f = "\<lambda>t index. bindE (ditem (task_meta t) ''id'') (\<lambda>v. Inr (AList.update (py_str v) (task_meta t) index))"
  have "index_of_board (ts @ us) index" if "fold_result ?f us acc = Inr index" "index_of_board ts acc" for ts us acc
    using that
  proof (induction us arbitrary: ts acc)
    case (Cons t us)
    then obtain v where "ditem (task_meta t) ''id'' = Inr v" and r: "fold_result ?f us (AList.update (py_str v) (task_meta t) acc) = Inr index"
      by (auto simp: bindE_Inr)
    then have "py_str v = task_key t" by (simp add: task_key_def ditem_Inr_dget)
    with r Cons.IH [of _ "ts @ [t]"] index_of_board_update [OF Cons.prems(2), of t] show ?case by simp
  qed simp
  from this [of tasks "[]" "[]"] assms show ?thesis by (simp add: board_index_def index_of_board_def)
qed

lemma index_sorted_keys: "index_of_board tasks index \<Longrightarrow> map fst (sort_key fst index) = sorted_set (map task_key tasks)"
  unfolding index_of_board_def sorted_set_def
  by (intro sorted_distinct_set_unique) (auto simp: distinct_map)

lemma attempts_stale:
  assumes "card_attempts task sessions = Inr (attempts, sess)"
  shows "truthy (dget sess ''stale_sessions'') \<longleftrightarrow> (\<exists>s \<in> set sessions. stale_session task s)"
proof -
  obtain current keyed where c: "bindE (ditem task ''task_revision'') py_int = Inr current"
    and k: "map_result attempt_revision sessions = Inr keyed" and a: "map_result (card_attempt current) (sort_key fst keyed) = Inr attempts"
    and s: "truthy (dget sess ''stale_sessions'') \<longleftrightarrow> (\<exists>x \<in> set attempts. dget x ''state'' = PStr ''stale'')"
    using assms by (auto simp: card_attempts_def result_simps filter_empty_conv)
  have "(\<exists>x \<in> set attempts. dget x ''state'' = PStr ''stale'') \<longleftrightarrow> (\<exists>rs \<in> set (sort_key fst keyed). fst rs \<noteq> current)"
  proof -
    have "list_all2 (\<lambda>rs x. dget x ''state'' = PStr ''stale'' \<longleftrightarrow> fst rs \<noteq> current) (sort_key fst keyed) attempts"
      using a unfolding map_result_Inr_iff by (rule list.rel_mono_strong) (auto simp: card_attempt_def bindE_Inr split: prod.splits if_splits)
    then show ?thesis by (induction rule: list_all2_induct) auto
  qed
  also have "\<dots> \<longleftrightarrow> (\<exists>rs \<in> set keyed. fst rs \<noteq> current)" by simp
  also have "\<dots> \<longleftrightarrow> (\<exists>s \<in> set sessions. stale_session task s)"
  proof -
    have "list_all2 (\<lambda>s rs. stale_session task s \<longleftrightarrow> fst rs \<noteq> current) sessions keyed"
      using k unfolding map_result_Inr_iff by (rule list.rel_mono_strong) (auto simp: attempt_revision_def bindE_Inr stale_session_def c)
    then show ?thesis by (induction rule: list_all2_induct) auto
  qed
  finally show ?thesis using s by simp
qed

definition sessions_of :: "meta list \<Rightarrow> string \<Rightarrow> meta list" where
  "sessions_of sessions task_id = filter (\<lambda>s. py_str (dget s ''task'') = task_id) sessions"

lemma sessions_by_task_of:
  assumes "sessions_by_task sessions = Inr grouped"
  shows "map snd (filter (\<lambda>s. fst s = task_id) grouped) = sessions_of sessions task_id"
proof -
  have "list_all2 (\<lambda>s g. g = (py_str (dget s ''task''), s)) sessions grouped"
    using assms unfolding sessions_by_task_def map_result_Inr_iff
    by (rule list.rel_mono_strong) (auto simp: bindE_Inr ditem_Inr_dget)
  then have "grouped = map (\<lambda>s. (py_str (dget s ''task''), s)) sessions" by (induction rule: list_all2_induct) auto
  then show ?thesis by (simp add: sessions_of_def filter_map o_def)
qed

lemma build_card_Inr:
  assumes "build_card index grouped t km = Inr entry"
  obtains dependencies worker attempts sess blockers advice outcome where
    "campaign_worker (snd km) t = Inr worker"
    "card_attempts (snd km) (map snd (filter (\<lambda>s. fst s = fst km) grouped)) = Inr (attempts, sess)"
    "card_recovery (snd km) worker sess t = Inr advice" "card_outcome (snd km) = Inr outcome"
    "entry = [(''id'', PStr (fst km)), (''title'', dget (snd km) ''title''), (''priority'', dget (snd km) ''priority''),
       (''status'', dget (snd km) ''status''), (''revision'', dget (snd km) ''task_revision''),
       (''worker'', PDict worker), (''dependencies'', PList (map PDict dependencies)), (''blockers'', PList (map PDict blockers)),
       (''attempts'', PList (map PDict attempts)), (''session'', PDict sess),
       (''recovery'', PDict [(''kind'', PStr advice)]), (''outcome'', outcome)]"
  using assms by (auto simp: build_card_def bindE_Inr ditem_Inr_dget split: prod.splits)

lemma build_card_advice:
  assumes "build_card index grouped t km = Inr entry" and "sessions_by_task sessions = Inr grouped" and "rt_now (w_rt w) = t"
    and "claim_wf (snd km)" "is_str (dget (snd km) ''owner'')"
  shows "dget entry ''id'' = PStr (fst km) \<and> dget entry ''status'' = dget (snd km) ''status'' \<and>
    advice_fits w (snd km) (card_advice entry) \<and>
    (card_advice entry = ''record-current-session'' \<longrightarrow> (\<exists>s \<in> set (sessions_of sessions (fst km)). stale_session (snd km) s))"
proof -
  obtain dependencies worker attempts sess blockers advice outcome where b:
    "campaign_worker (snd km) t = Inr worker"
    "card_attempts (snd km) (map snd (filter (\<lambda>s. fst s = fst km) grouped)) = Inr (attempts, sess)"
    "card_recovery (snd km) worker sess t = Inr advice" "card_outcome (snd km) = Inr outcome"
    "entry = [(''id'', PStr (fst km)), (''title'', dget (snd km) ''title''), (''priority'', dget (snd km) ''priority''),
       (''status'', dget (snd km) ''status''), (''revision'', dget (snd km) ''task_revision''),
       (''worker'', PDict worker), (''dependencies'', PList (map PDict dependencies)), (''blockers'', PList (map PDict blockers)),
       (''attempts'', PList (map PDict attempts)), (''session'', PDict sess),
       (''recovery'', PDict [(''kind'', PStr advice)]), (''outcome'', outcome)]"
    using assms(1) by (rule build_card_Inr)
  have "truthy (dget sess ''stale_sessions'') \<longleftrightarrow> (\<exists>s \<in> set (sessions_of sessions (fst km)). stale_session (snd km) s)"
    using attempts_stale [OF b(2)] sessions_by_task_of [OF assms(2)] by simp
  moreover have "card_advice entry = advice" "dget entry ''id'' = PStr (fst km)" "dget entry ''status'' = dget (snd km) ''status''"
    unfolding b(5) by (simp_all add: card_advice_def)
  ultimately show ?thesis using card_recovery_fits [OF b(3,1) assms(3-5)] by simp
qed

lemma list_all2_partners:
  assumes "list_all2 P xs ys"
  shows "y \<in> set ys \<Longrightarrow> \<exists>x \<in> set xs. P x y" and "x \<in> set xs \<Longrightarrow> \<exists>y \<in> set ys. P x y"
  using assms by (induction rule: list_all2_induct) auto

lemma campaign_build_Inr:
  assumes "campaign_build tasks sessions t = Inr c"
  obtains index grouped cards where "index_of_board tasks index" "sessions_by_task sessions = Inr grouped"
    "list_all2 (\<lambda>km entry. build_card index grouped t km = Inr entry) (sort_key fst index) cards"
    "dget c ''observed_at'' = PStr (isoformat_utc t)" "dget c ''tasks'' = PList (map PDict cards)" "dget_or c ''tasks'' (PList []) = PList (map PDict cards)"
    "dget (dict_of (dget c ''summary'')) ''recovery_required'' = PInt (int (length (filter (\<lambda>c. card_advice c \<noteq> ''none'') cards)))"
  using assms by (auto simp: campaign_build_def bindE_Inr map_result_Inr_iff Let_def dest: board_index_exact)

text \<open>
  Property C39. On a board whose claims are coherent (\<open>claim_wf\<close>) and whose owners are texts, the campaign has one card for
  every task, in the order of the task ids, with the status of the task and an advice that fits the
  commands at the instant of the view (\<open>advice_fits\<close>): \<open>recover-execution\<close> and \<open>abandon-execution\<close> are accepted only on a task that is
  advised an execution recovery, which then has a valid and expired reservation; a task that is advised to wait has
  a reservation that these commands refuse as running; \<open>recover-expired\<close> is accepted only where a claim recovery is
  advised, and there the claim is active, has expired and is not held by a reservation; \<open>resume\<close> and \<open>unblock\<close>
  are accepted only where they are advised, on a blocked task without a claim. A card asks for a current session only when
  the task has a session of another revision. The summary counts the cards with advice.
\<close>

theorem campaign_advice_due:
  assumes "campaign_build tasks sessions t = Inr c" and "rt_now (w_rt w) = t"
    and "\<forall>u \<in> set tasks. claim_wf (task_meta u) \<and> is_str (dget (task_meta u) ''owner'')"
  shows "\<exists>cards. dget c ''tasks'' = PList (map PDict cards) \<and>
    map (\<lambda>entry. dget entry ''id'') cards = map PStr (sorted_set (map task_key tasks)) \<and>
    (\<forall>entry \<in> set cards. \<exists>u \<in> set tasks. dget entry ''id'' = PStr (task_key u) \<and> dget entry ''status'' = dget (task_meta u) ''status'' \<and>
       advice_fits w (task_meta u) (card_advice entry) \<and>
       (card_advice entry = ''record-current-session'' \<longrightarrow> (\<exists>s \<in> set (sessions_of sessions (task_key u)). stale_session (task_meta u) s))) \<and>
    dget (dict_of (dget c ''summary'')) ''recovery_required'' = PInt (int (length (filter (\<lambda>c. card_advice c \<noteq> ''none'') cards)))"
proof -
  obtain index grouped cards where b: "index_of_board tasks index" "sessions_by_task sessions = Inr grouped"
    "list_all2 (\<lambda>km entry. build_card index grouped t km = Inr entry) (sort_key fst index) cards"
    "dget c ''observed_at'' = PStr (isoformat_utc t)" "dget c ''tasks'' = PList (map PDict cards)" "dget_or c ''tasks'' (PList []) = PList (map PDict cards)"
    "dget (dict_of (dget c ''summary'')) ''recovery_required'' = PInt (int (length (filter (\<lambda>c. card_advice c \<noteq> ''none'') cards)))"
    using assms(1) by (rule campaign_build_Inr)
  have "list_all2 (\<lambda>km entry. dget entry ''id'' = PStr (fst km)) (sort_key fst index) cards"
    using b(3) by (rule list.rel_mono_strong) (auto elim!: build_card_Inr)
  then have "map (\<lambda>entry. dget entry ''id'') cards = map PStr (map fst (sort_key fst index))" by (induction rule: list_all2_induct) auto
  then have ids: "map (\<lambda>entry. dget entry ''id'') cards = map PStr (sorted_set (map task_key tasks))"
    by (simp only: index_sorted_keys [OF b(1)])
  have each: "\<exists>u \<in> set tasks. dget entry ''id'' = PStr (task_key u) \<and> dget entry ''status'' = dget (task_meta u) ''status'' \<and>
      advice_fits w (task_meta u) (card_advice entry) \<and>
      (card_advice entry = ''record-current-session'' \<longrightarrow> (\<exists>s \<in> set (sessions_of sessions (task_key u)). stale_session (task_meta u) s))"
    if mem: "entry \<in> set cards" for entry
  proof -
    obtain km where km: "km \<in> set (sort_key fst index)" "build_card index grouped t km = Inr entry"
      using list_all2_partners(1) [OF b(3) mem] by blast
    then obtain u where "u \<in> set tasks" "fst km = task_key u" "snd km = task_meta u" using b(1) by (auto simp: index_of_board_def)
    then show ?thesis using build_card_advice [OF km(2) b(2) assms(2)] assms(3) by auto
  qed
  show ?thesis by (intro exI [of _ cards] conjI ballI b(5,7) ids each)
qed

section \<open>When a view is refused\<close>

lemma time_errors_none: "time_errors v f = Inr [] \<longleftrightarrow> succeeds (campaign_time v g)"
  unfolding campaign_time_field [of v g f] by (auto simp: time_errors_def split: sum.splits)

lemma concat_results_none:
  "bindE (map_result f xs) (\<lambda>es. Inr (concat es)) = Inr [] \<longleftrightarrow> (\<forall>x \<in> set xs. f x = Inr [])"
proof (induction xs)
  case (Cons x xs)
  then show ?case by (auto simp: bindE_Inr)
qed simp

lemma value_timestamps_none:
  "value_timestamp_errors task_id name d = Inr [] \<longleftrightarrow>
    (\<forall>field \<in> {''claim_expires'', ''recorded_at''}. dhas d field \<longrightarrow> succeeds (campaign_time (dget d field) []))"
  unfolding value_timestamp_errors_def concat_results_none by (simp add: time_errors_none [where g = "[]"])

lemma card_timestamps_none:
  assumes "dget_or entry ''attempts'' (PList []) = PList (map PDict attempts)" and "dget entry ''worker'' = PDict worker"
  shows "card_timestamp_errors task_id entry = Inr [] \<longleftrightarrow>
    (\<forall>d \<in> insert worker (set attempts). \<forall>field \<in> {''claim_expires'', ''recorded_at''}. dhas d field \<longrightarrow> succeeds (campaign_time (dget d field) []))"
  unfolding card_timestamp_errors_def assms py_iter_PList bindE_simps concat_results_none
  by (simp add: value_timestamps_none)

lemma show_int_head: "show_int i = c # r \<Longrightarrow> is_digit c \<or> c = CHR ''-''"
  using show_nat_digits [of "nat i"] by (auto simp: show_int_def split: if_splits)

lemma terminal_text:
  assumes "hashable v" and "py_str v \<in> set CAMPAIGN_TERMINAL"
  shows "v = PStr (py_str v)"
proof (cases v)
  case (PInt i)
  then show ?thesis using assms(2) show_int_head [of i] by (auto simp: py_str_def CAMPAIGN_TERMINAL_def is_digit_def digits_def)
qed (use assms in \<open>auto simp: py_str_def CAMPAIGN_TERMINAL_def hashable_def split: if_splits\<close>)

lemma terminal_contract_kept:
  assumes "card_recovery task worker sess t = Inr advice" and "card_outcome task = Inr outcome"
    and "dget entry ''status'' = dget task ''status''" "dget entry ''outcome'' = outcome" "dget entry ''recovery'' = PDict [(''kind'', PStr advice)]"
  shows "terminal_contract_errors task_id entry = Inr []"
proof -
  let ?v = "dget task ''status''"
  obtain terminal where h: "hash_in ?v CAMPAIGN_TERMINAL = Inr terminal" and n: "terminal \<Longrightarrow> advice = ''none''"
    using assms(1) by (auto simp: card_recovery_def bindE_Inr split: if_splits)
  have "hashable ?v" using h by (auto simp: hash_in_def hashable_def split: if_splits)
  then have "py_str ?v \<in> set CAMPAIGN_TERMINAL \<longleftrightarrow> terminal"
    using hash_in_image [OF h] terminal_text [of ?v] by (auto simp: image_iff)
  moreover have "dhas task ''status''" using assms(2) by (auto simp: card_outcome_def ditem_eq bindE_Inr split: if_splits)
  moreover have "terminal \<Longrightarrow> ?v = PStr (py_str ?v)" "terminal \<Longrightarrow> py_eq ?v ?v" using hash_in_image [OF h] by auto
  ultimately show ?thesis
    using assms(2) h n unfolding terminal_contract_errors_def assms(3-5) by (auto simp: card_outcome_def ditem_eq Let_def)
qed

lemma worker_times:
  assumes "campaign_worker task t = Inr w"
  shows "\<not> dhas w ''recorded_at''" and "dhas w ''claim_expires'' \<Longrightarrow> succeeds (campaign_time (dget w ''claim_expires'') [])"
proof -
  have "\<not> dhas w ''recorded_at'' \<and> (dhas w ''claim_expires'' \<longrightarrow> succeeds (campaign_time (dget w ''claim_expires'') ''claim_expires''))"
    using assms by (auto simp: campaign_worker_def Let_def bindE_Inr split: if_splits)
  then show "\<not> dhas w ''recorded_at''" "dhas w ''claim_expires'' \<Longrightarrow> succeeds (campaign_time (dget w ''claim_expires'') [])"
    using campaign_time_field by blast+
qed

lemma attempts_of_sessions:
  assumes "card_attempts task sessions = Inr (attempts, sess)"
  shows "\<forall>a \<in> set attempts. dhas a ''recorded_at'' \<and> \<not> dhas a ''claim_expires''"
    and "(\<forall>a \<in> set attempts. P (dget a ''recorded_at'')) \<longleftrightarrow> (\<forall>s \<in> set sessions. P (dget s ''recorded_at''))"
proof -
  obtain current keyed where k: "map_result attempt_revision sessions = Inr keyed"
    and a: "map_result (card_attempt current) (sort_key fst keyed) = Inr attempts"
    using assms by (auto simp: card_attempts_def bindE_Inr)
  have aa: "list_all2 (\<lambda>rs x. dhas x ''recorded_at'' \<and> \<not> dhas x ''claim_expires'' \<and> dget x ''recorded_at'' = dget (snd rs) ''recorded_at'') (sort_key fst keyed) attempts"
    using a unfolding map_result_Inr_iff by (rule list.rel_mono_strong) (auto simp: card_attempt_def bindE_Inr ditem_Inr_dget split: prod.splits)
  then show "\<forall>a \<in> set attempts. dhas a ''recorded_at'' \<and> \<not> dhas a ''claim_expires''" by (induction rule: list_all2_induct) auto
  have "(\<forall>a \<in> set attempts. P (dget a ''recorded_at'')) \<longleftrightarrow> (\<forall>rs \<in> set (sort_key fst keyed). P (dget (snd rs) ''recorded_at''))"
    using aa by (induction rule: list_all2_induct) auto
  also have "\<dots> \<longleftrightarrow> (\<forall>rs \<in> set keyed. P (dget (snd rs) ''recorded_at''))" by simp
  also have "\<dots> \<longleftrightarrow> (\<forall>s \<in> set sessions. P (dget s ''recorded_at''))"
  proof -
    have "list_all2 (\<lambda>s rs. snd rs = s) sessions keyed"
      using k unfolding map_result_Inr_iff by (rule list.rel_mono_strong) (auto simp: attempt_revision_def bindE_Inr)
    then show ?thesis by (induction rule: list_all2_induct) auto
  qed
  finally show "(\<forall>a \<in> set attempts. P (dget a ''recorded_at'')) \<longleftrightarrow> (\<forall>s \<in> set sessions. P (dget s ''recorded_at''))" .
qed

lemma build_card_contract:
  assumes "build_card index grouped t km = Inr entry" and "sessions_by_task sessions = Inr grouped"
  shows "card_contract_errors (PDict entry) = Inr [] \<longleftrightarrow>
    (\<forall>s \<in> set (sessions_of sessions (fst km)). succeeds (campaign_time (dget s ''recorded_at'') []))"
proof -
  obtain dependencies worker attempts sess blockers advice outcome where b:
    "campaign_worker (snd km) t = Inr worker"
    "card_attempts (snd km) (map snd (filter (\<lambda>s. fst s = fst km) grouped)) = Inr (attempts, sess)"
    "card_recovery (snd km) worker sess t = Inr advice" "card_outcome (snd km) = Inr outcome"
    "entry = [(''id'', PStr (fst km)), (''title'', dget (snd km) ''title''), (''priority'', dget (snd km) ''priority''),
       (''status'', dget (snd km) ''status''), (''revision'', dget (snd km) ''task_revision''),
       (''worker'', PDict worker), (''dependencies'', PList (map PDict dependencies)), (''blockers'', PList (map PDict blockers)),
       (''attempts'', PList (map PDict attempts)), (''session'', PDict sess),
       (''recovery'', PDict [(''kind'', PStr advice)]), (''outcome'', outcome)]"
    using assms(1) by (rule build_card_Inr)
  have "terminal_contract_errors (fst km) entry = Inr []"
    by (rule terminal_contract_kept [OF b(3,4)]) (simp_all add: b(5))
  moreover have "py_str (dget_or entry ''id'' (PStr ''unknown'')) = fst km" by (simp add: b(5))
  ultimately have "card_contract_errors (PDict entry) = Inr [] \<longleftrightarrow> card_timestamp_errors (fst km) entry = Inr []"
    by (auto simp: card_contract_errors_def bindE_Inr)
  also have "\<dots> \<longleftrightarrow> (\<forall>d \<in> insert worker (set attempts). \<forall>field \<in> {''claim_expires'', ''recorded_at''}. dhas d field \<longrightarrow> succeeds (campaign_time (dget d field) []))"
    by (rule card_timestamps_none) (simp_all add: b(5))
  also have "\<dots> \<longleftrightarrow> (\<forall>a \<in> set attempts. succeeds (campaign_time (dget a ''recorded_at'') []))"
    using worker_times [OF b(1)] attempts_of_sessions(1) [OF b(2)] by auto
  also have "\<dots> \<longleftrightarrow> (\<forall>s \<in> set (sessions_of sessions (fst km)). succeeds (campaign_time (dget s ''recorded_at'') []))"
    unfolding attempts_of_sessions(2) [OF b(2), where P = "\<lambda>v. succeeds (campaign_time v [])"] sessions_by_task_of [OF assms(2)] ..
  finally show ?thesis .
qed

lemma days_in_month_bound: "valid_date y m d \<Longrightarrow> 1 \<le> m \<and> m \<le> 12 \<and> 1 \<le> d \<and> d \<le> 31"
proof -
  assume v: "valid_date y m d"
  then have "nat (m - 1) < length (month_lengths y)" by (auto simp: valid_date_def month_lengths_def)
  then have "days_in_month y m \<in> set (month_lengths y)" unfolding days_in_month_def by (rule nth_mem)
  then have "days_in_month y m \<le> 31" by (auto simp: month_lengths_def split: if_splits)
  then show ?thesis using v by (auto simp: valid_date_def)
qed

lemma isoformat_is_timestamp:
  assumes "in_range t"
  shows "ISO_8601_TIMESTAMP (isoformat_utc t)"
  using assms
proof (rule isoformat_chars)
  fix a b c d m1 m2 d1 d2 h1 h2 n1 n2 s1 s2 y m dd h mi s
  assume iso: "isoformat_utc t = [a, b, c, d, CHR ''-'', m1, m2, CHR ''-'', d1, d2, CHR ''T'', h1, h2, CHR '':'', n1, n2, CHR '':'', s1, s2] @ ''+00:00''"
    and y: "is_digit a" "is_digit b" "is_digit c" "is_digit d"
    and m: "is_digit m1" "is_digit m2" "int (nat_of_digits [m1, m2]) = m" and d: "is_digit d1" "is_digit d2" "int (nat_of_digits [d1, d2]) = dd"
    and v: "valid_date y m dd"
    and h: "is_digit h1" "is_digit h2" "int (nat_of_digits [h1, h2]) = h" and n: "is_digit n1" "is_digit n2" "int (nat_of_digits [n1, n2]) = mi"
    and s: "is_digit s1" "is_digit s2" "int (nat_of_digits [s1, s2]) = s" and b: "h < 24" "mi < 60" "s < 60"
  have two: "two_digits 1 12 [m1, m2]" "two_digits 1 31 [d1, d2]" "two_digits 0 23 [h1, h2]" "two_digits 0 59 [n1, n2]" "two_digits 0 59 [s1, s2]"
    using m d h n s b days_in_month_bound [OF v] by (auto simp: two_digits_def)
  have z: "iso_zone ''+00:00''" by code_simp
  show ?thesis unfolding iso ISO_8601_TIMESTAMP_def using two z y by (simp add: head_is_def eval_nat_numeral)
qed

lemma observed_at_printed: "in_range t \<Longrightarrow> succeeds (campaign_time (PStr (isoformat_utc t)) [])"
  using isoformat_is_timestamp [of t]
  by (simp add: succeeds_iff campaign_time_Inr from_iso_z_def replace_Z_isoformat fromisoformat_isoformat in_range_truncate)

lemma campaign_contract_exact:
  assumes "campaign_build tasks sessions t = Inr c" and "in_range t"
  shows "projection_contract_errors c = Inr [] \<longleftrightarrow>
    (\<forall>s \<in> set sessions. py_str (dget s ''task'') \<in> task_key ` set tasks \<longrightarrow> succeeds (campaign_time (dget s ''recorded_at'') []))"
proof -
  obtain index grouped cards where b: "index_of_board tasks index" "sessions_by_task sessions = Inr grouped"
    "list_all2 (\<lambda>km entry. build_card index grouped t km = Inr entry) (sort_key fst index) cards"
    "dget c ''observed_at'' = PStr (isoformat_utc t)" "dget c ''tasks'' = PList (map PDict cards)" "dget_or c ''tasks'' (PList []) = PList (map PDict cards)"
    "dget (dict_of (dget c ''summary'')) ''recovery_required'' = PInt (int (length (filter (\<lambda>c. card_advice c \<noteq> ''none'') cards)))"
    using assms(1) by (rule campaign_build_Inr)
  have "time_errors (PStr (isoformat_utc t)) ''observed_at'' = Inr []"
    unfolding time_errors_none [where g = "[]"] using assms(2) by (rule observed_at_printed)
  then have "projection_contract_errors c = bindE (map_result card_contract_errors (map PDict cards)) (\<lambda>more. Inr (concat more))"
    unfolding projection_contract_errors_def b(4,6) by simp
  then have "projection_contract_errors c = Inr [] \<longleftrightarrow> (\<forall>entry \<in> set cards. card_contract_errors (PDict entry) = Inr [])"
    by (simp add: concat_results_none)
  also have "\<dots> \<longleftrightarrow> (\<forall>km \<in> set (sort_key fst index). \<forall>s \<in> set (sessions_of sessions (fst km)). succeeds (campaign_time (dget s ''recorded_at'') []))"
    using b(3)
  proof (induction rule: list_all2_induct)
    case (Cons km kms entry entries)
    then show ?case using build_card_contract [OF Cons(1) b(2)] by simp
  qed simp
  also have "\<dots> \<longleftrightarrow> (\<forall>k \<in> fst ` set index. \<forall>s \<in> set sessions. py_str (dget s ''task'') = k \<longrightarrow> succeeds (campaign_time (dget s ''recorded_at'') []))"
    by (auto simp: sessions_of_def)
  also have "fst ` set index = task_key ` set tasks" using b(1) by (simp add: index_of_board_def)
  finally show ?thesis by blast
qed

text \<open>A campaign that can be built is printed, unless a session record of a task of the board carries a
  \<open>recorded_at\<close> that is no timestamp: the contract of the projection refuses nothing else.\<close>

theorem campaign_printed:
  assumes "campaign_build tasks sessions t = Inr c" and "in_range t"
  shows "succeeds (campaign_command tasks sessions as_json t) \<longleftrightarrow>
    (\<forall>s \<in> set sessions. py_str (dget s ''task'') \<in> task_key ` set tasks \<longrightarrow> succeeds (campaign_time (dget s ''recorded_at'') ''recorded_at''))"
proof -
  have "succeeds (campaign_command tasks sessions as_json t) \<longleftrightarrow> projection_contract_errors c = Inr []"
    using assms(1) by (auto simp: campaign_command_def succeeds_iff bindE_Inr raise_if_Inr)
  then show ?thesis unfolding campaign_contract_exact [OF assms] campaign_time_field [where f = "[]" and g = "''recorded_at''"] .
qed

text \<open>A task whose execution and claim have expired.\<close>

definition example_campaign_task :: meta where
  "example_campaign_task = [(''title'', PStr ''Build''), (''priority'', PStr ''P1'')] @ example_running_task"

lemma campaign_time_isoformat: "in_range t \<Longrightarrow> campaign_time (PStr (isoformat_utc t)) f = Inr (truncate_us t)"
  using isoformat_is_timestamp [of t]
  by (simp add: campaign_time_Inr from_iso_z_def replace_Z_isoformat fromisoformat_isoformat in_range_truncate)

lemma example_campaign_times: "campaign_time (PStr (isoformat_utc 0)) f = Inr 0"
  by (subst campaign_time_isoformat) (simp_all add: in_range_def max_us_def max_ordinal_def day_us_def second_us_def truncate_us_def)

lemma example_reservation_ok: "valid_reservation (PDict example_reservation) = Inr True"
  by (simp add: valid_reservation_def example_reservation_def text_matches_def aware_text_def from_iso_z_isoformat keys_exact_def dkeys_def
      RESERVATION_FIELDS_def ENVELOPE_CLASSES_def bad_positive_def)

lemma example_campaign: "\<exists>c. campaign_build [(''AR-0001.md'', example_campaign_task, [])] [] second_us = Inr c"
proof -
  let ?t = example_campaign_task
  have f: "dget ?t ''owner'' = PStr ''dev''" "dget ?t ''claim_expires'' = PStr (isoformat_utc 0)" "dget ?t ''status'' = PStr ''in_progress''"
    "dget ?t ''execution_reservation'' = PDict example_reservation" "dget ?t ''retry_circuit'' = PNone" "dget_or ?t ''depends_on'' (PList []) = PList []"
    "ditem ?t ''task_revision'' = Inr (PInt 4)" "ditem ?t ''title'' = Inr (PStr ''Build'')" "ditem ?t ''priority'' = Inr (PStr ''P1'')"
    "ditem ?t ''status'' = Inr (PStr ''in_progress'')" "ditem ?t ''id'' = Inr (PStr ''AR-0001'')"
    by (simp_all add: example_campaign_task_def example_running_task_def)
  have x: "dget example_reservation ''expires_at'' = PStr (isoformat_utc 0)" by (simp add: example_reservation_def)
  have r: "reservation_state ?t second_us = Inr ''expired''"
    using f(4) x by (simp add: reservation_state_def example_reservation_ok example_campaign_times second_us_def)
  have w: "\<exists>w. campaign_worker ?t second_us = Inr w" using f by (simp add: campaign_worker_def example_campaign_times)
  have a: "\<exists>st. card_attempts ?t [] = Inr ([], st)" using f by (simp add: card_attempts_def)
  have b: "\<exists>bs. card_blockers ?t [] second_us = Inr bs" using f r by (simp add: card_blockers_def retry_blockers_def)
  have v: "\<exists>x. card_recovery ?t u st second_us = Inr x" for u st using f r by (simp add: card_recovery_def)
  have o: "\<exists>x. card_outcome ?t = Inr x" using f by (simp add: card_outcome_def Let_def)
  have d: "card_dependencies ?t idx = Inr []" for idx using f by (simp add: card_dependencies_def sort_values_def)
  have "\<exists>entry. build_card [(''AR-0001'', ?t)] [] second_us (''AR-0001'', ?t) = Inr entry"
    using w a b v o f(7-10) by (auto simp: build_card_def d bindE_Inr)
  then show ?thesis
    using f(11) by (auto simp: campaign_build_def board_index_def sessions_by_task_def task_meta_def Let_def bindE_Inr)
qed

theorem campaign_advice_due_witness:
  "\<exists>c cards. campaign_build [(''AR-0001.md'', example_campaign_task, [])] [] second_us = Inr c \<and> dget c ''tasks'' = PList (map PDict cards) \<and>
    map (\<lambda>entry. dget entry ''id'') cards = [PStr ''AR-0001''] \<and>
    (\<forall>entry \<in> set cards. advice_fits (example_world\<lparr>w_rt := example_runtime\<lparr>rt_now := second_us\<rparr>\<rparr>) example_campaign_task (card_advice entry))"
proof -
  let ?ts = "[(''AR-0001.md'', example_campaign_task, [])]" and ?w = "example_world\<lparr>w_rt := example_runtime\<lparr>rt_now := second_us\<rparr>\<rparr>"
  obtain c where c: "campaign_build ?ts [] second_us = Inr c" using example_campaign by blast
  have at: "rt_now (w_rt ?w) = second_us" by simp
  have ok: "\<forall>u \<in> set ?ts. claim_wf (task_meta u) \<and> is_str (dget (task_meta u) ''owner'')"
    by (simp add: task_meta_def claim_wf_def example_campaign_task_def example_running_task_def)
  from campaign_advice_due [OF c at ok] obtain cards where k: "dget c ''tasks'' = PList (map PDict cards)"
    "map (\<lambda>entry. dget entry ''id'') cards = map PStr (sorted_set (map task_key ?ts))"
    "\<forall>entry \<in> set cards. \<exists>u \<in> set ?ts. advice_fits ?w (task_meta u) (card_advice entry)"
    by blast
  have "task_key (hd ?ts) = ''AR-0001''" by (simp add: task_key_def task_meta_def example_campaign_task_def example_running_task_def)
  then show ?thesis using c k by (intro exI [of _ c] exI [of _ cards]) (simp add: sorted_set_def task_meta_def)
qed

end
