(* ===== verification/Resume_Card.thy ===== *)
theory Resume_Card
  imports Campaign
begin

text \<open>
  Resume cards, from \<open>src/tools/resume_card.py\<close> and \<open>resume_card_runtime.py\<close>: what a worker reads before going on with a
  task. A card collects the scope drift, the assumptions, the evidence, the execution fence and the retry
  circuit of one task and derives the next action from them.

  The lemmas compare the next action with the admissions of the components: a card leaves the worker to
  the action noted in the task exactly when nothing stands in the way.
\<close>

section \<open>Validation of the board\<close>

text \<open>\<open>--observed-at\<close>; the \<open>ArgumentTypeError\<close> of the source is a \<open>TypeError\<close> here.\<close>

definition resume_observed_at :: "string \<Rightarrow> int result" where
  "resume_observed_at value =
     (case from_iso_z value of
        Inl _ \<Rightarrow> Inl (TypeError ''observed-at must be ISO-8601'')
      | Inr (Naive _) \<Rightarrow> Inl (TypeError ''observed-at must include a timezone'')
      | Inr (Aware l off) \<Rightarrow> bindE (astimezone_utc l off) (\<lambda>t. Inr (truncate_us t)))"

definition RESUME_LIMITS :: "(string \<times> nat) list" where
  "RESUME_LIMITS = [(''title'', 512), (''summary'', 4000), (''next_action'', 1024)]"

definition resume_projection_errors :: "(string \<Rightarrow> string \<Rightarrow> string list) \<Rightarrow> task \<Rightarrow> string list" where
  "resume_projection_errors private t =
     (let path = fst t; task = task_meta t; name = py_str (dget_or task ''id'' (PStr (path_stem path)));
          text = canonical (PDict task) @ newline # snd (snd t);
          aware = (case from_iso_z (py_str (dget_or task ''updated_at'' (PStr []))) of Inr (Aware _ _) \<Rightarrow> True | _ \<Rightarrow> False) in
      concat (map (\<lambda>(field, maximum). let v = dget task field in
        if is_str v \<and> maximum < length (utf8 (str_of v)) then [name @ '': '' @ field @ '' exceeds '' @ show_nat maximum @ '' bytes''] else [])
        RESUME_LIMITS) @
      (if 200000 < length (utf8 text) then [last (split_on CHR ''/'' path) @ '': projected authority exceeds 200 KiB''] else []) @
      private path text @
      (if aware then [] else [name @ '': updated_at is not timezone-aware'']))"

section \<open>Source, scope and assumptions\<close>

definition resume_source :: "meta \<Rightarrow> meta result" where
  "resume_source task =
     bindE (bindE (ditem task ''task_revision'') py_int) (\<lambda>revision.
     Inr [(''branch'', PStr (py_str (dget_or task ''observed_branch'' (PStr [])))),
          (''checkpoint_commit'', PStr (py_str (dget_or task ''checkpoint_commit'' (PStr [])))),
          (''head'', PStr (py_str (dget_or task ''observed_head'' (PStr [])))), (''revision'', PInt revision)])"

definition scope_drift :: "pyval \<Rightarrow> meta" where
  "scope_drift e = [(''field'', PStr (''scope.'' @ py_str (dget (dict_of e) ''path''))), (''kind'', PStr ''scope''), (''material'', PBool True),
     (''status'', PStr ''unacknowledged'')]"

definition resume_scope :: "meta \<Rightarrow> (meta \<times> meta list) result" where
  "resume_scope task =
     bindE (drift_records task) (\<lambda>history.
     let baseline = latest_of ''baseline'' history in
     Inr ([(''declared'', PList (case baseline of None \<Rightarrow> [] | Some b \<Rightarrow> map PStr (active_scope history b))),
           (''state'', PStr (if baseline = None then ''absent'' else ''observed''))],
          map scope_drift (unresolved history)))"

definition resume_acknowledgements :: "meta \<Rightarrow> meta list result" where
  "resume_acknowledgements task =
     bindE (drift_records task) (\<lambda>history.
     bindE (assumption_records task) (\<lambda>assumptions.
     let delta = latest_of ''delta'' history;
         material = (case delta of None \<Rightarrow> [] | Some d \<Rightarrow> map (\<lambda>e. dget (dict_of e) ''path'') (filter (\<lambda>e. truthy (dget (dict_of e) ''material'')) (entries_of d)));
         digest_value = (case delta of None \<Rightarrow> PNone | Some d \<Rightarrow> dget (dict_of d) ''digest'');
         scope = concat (map (\<lambda>r. map (\<lambda>path. [(''field'', PStr (''scope.'' @ py_str path)), (''kind'', PStr ''scope''), (''record'', PStr ''explain'')])
                     (filter (\<lambda>path. py_in path material) (list_of (dget (payload_of r) ''paths''))))
                   (filter (\<lambda>r. kind_of r = ''explain'' \<and> py_eq (dget (payload_of r) ''delta_digest'') digest_value) history));
         held = map (\<lambda>r. [(''field'', PStr (''assumptions.'' @ py_str (dget (dict_of r) ''id''))), (''kind'', dget (dict_of r) ''kind''), (''record'', dget (dict_of r) ''action'')])
                  (filter (\<lambda>r. truthy (dget (dict_of r) ''material'') \<and> dget (dict_of r) ''action'' \<in> {PStr ''revalidate'', PStr ''dispose''}) assumptions)
     in Inr (sort_key (\<lambda>item. (py_str (dget item ''field''), py_str (dget item ''record''))) (scope @ held))))"

text \<open>One assumption: its status, and the binding that is observed now when it can be.\<close>

definition assumption_status :: "observer \<Rightarrow> meta \<Rightarrow> meta list \<Rightarrow> pyval \<Rightarrow> (string \<times> meta option) result" where
  "assumption_status ob task tasks r =
     (if dget (dict_of r) ''action'' = PStr ''dispose'' then Inr (''disposed'', None)
      else case current_binding ob task tasks r of
        Inl e \<Rightarrow> if is_runtime_error e then Inr (''unavailable'', None) else Inl e
      | Inr b \<Rightarrow> Inr (if py_eq (PDict b) (dget (dict_of r) ''binding'') then ''fresh'' else ''stale'', Some b))"

definition assumption_card :: "string \<Rightarrow> pyval \<Rightarrow> string \<Rightarrow> meta option \<Rightarrow> meta" where
  "assumption_card k r status observed =
     [(''id'', PStr k), (''kind'', dget (dict_of r) ''kind''), (''material'', dget (dict_of r) ''material''),
      (''recorded_binding'', dget (dict_of r) ''binding''), (''status'', PStr status)] @
     (case observed of None \<Rightarrow> [] | Some b \<Rightarrow> [(''current_binding'', PDict b)])"

definition assumption_drift :: "string \<Rightarrow> pyval \<Rightarrow> string \<Rightarrow> meta list" where
  "assumption_drift k r status =
     (if status \<in> {''stale'', ''unavailable''}
      then [[(''field'', PStr (''assumptions.'' @ k)), (''kind'', PStr (py_str (dget (dict_of r) ''kind''))),
             (''material'', PBool (truthy (dget (dict_of r) ''material''))), (''status'', PStr status)]]
      else [])"

definition resume_assumptions :: "observer \<Rightarrow> meta \<Rightarrow> meta list \<Rightarrow> (meta list \<times> meta list) result" where
  "resume_assumptions ob task tasks =
     bindE (assumption_records task) (\<lambda>rs.
     bindE (map_result (\<lambda>(k, r). bindE (assumption_status ob task tasks r) (\<lambda>(status, observed).
         Inr (assumption_card k r status observed, assumption_drift k r status)))
       (sort_key fst (active_assumptions rs))) (\<lambda>items.
     Inr (map fst items, concat (map snd items))))"

section \<open>Evidence\<close>

definition resume_acceptance :: "meta \<Rightarrow> string list \<Rightarrow> pyval result" where
  "resume_acceptance task classes =
     (let v = dget task ''spec_acceptance''; a = dict_of v; has_spec = (dhas task ''spec_ref'' \<or> dhas task ''spec_revision'');
          required = acceptance_keys has_spec in
      if v = PNone then Inr PNone
      else
        bindE (raise_if (\<not> is_dict v \<or> \<not> keys_exact a required) (ValueError ''spec acceptance is incomplete or unknown'')) (\<lambda>_.
        bindE (if dget a ''status'' \<noteq> PStr ''pass'' then Inr True
               else bindE (hash_not_in (dget a ''evidence_class'') classes) (\<lambda>unknown.
                 Inr (unknown \<or> not_text is_evidence_ref (dget a ''evidence_ref'') \<or> not_text is_digest (dget a ''evidence_digest'')))) (\<lambda>bad.
        bindE (raise_if bad (ValueError ''spec acceptance is invalid'')) (\<lambda>_.
        bindE (raise_if (has_spec \<and> (\<not> py_eq (dget a ''spec_ref'') (dget task ''spec_ref'') \<or> \<not> py_eq (dget a ''spec_revision'') (dget task ''spec_revision'')))
                 (ValueError ''spec acceptance does not match task specification'')) (\<lambda>_.
        bindE (raise_if (\<not> has_spec \<and> dget a ''match'' \<noteq> PStr ''best_effort'') (ValueError ''spec acceptance match is invalid'')) (\<lambda>_.
        Inr (PDict (map (\<lambda>k. (k, dget a k)) (sort required)))))))))"

definition resume_step :: "string list \<Rightarrow> pyval \<Rightarrow> meta result" where
  "resume_step classes v =
     (let d = dict_of v; revision = dget d ''recorded_task_revision'' in
      bindE (raise_if (\<not> is_dict v \<or> \<not> keys_exact d LEDGER_STEP_FIELDS) (ValueError ''evidence ledger step is incomplete or unknown'')) (\<lambda>_.
      bindE (if not_text is_id_ref (dget d ''predicate_id'') then Inr True
             else bindE (hash_not_in (dget d ''status'') [''pass'', ''stale'']) (\<lambda>status.
               if status \<or> not_text is_evidence_ref (dget d ''candidate_ref'') \<or> not_text is_digest (dget d ''candidate_digest'') then Inr True
               else bindE (hash_not_in (dget d ''evidence_class'') classes) (\<lambda>unknown.
                 Inr (unknown \<or> not_text is_evidence_ref (dget d ''evidence_ref'') \<or> not_text is_digest (dget d ''evidence_digest'') \<or>
                      \<not> exact_int revision \<or> int_of revision < 1)))) (\<lambda>bad.
      bindE (raise_if bad (ValueError ''evidence ledger step is invalid'')) (\<lambda>_.
      Inr (map (\<lambda>k. (k, dget d k)) LEDGER_STEP_FIELDS)))))"

definition resume_predicates :: "meta \<Rightarrow> string list \<Rightarrow> meta list result" where
  "resume_predicates task classes =
     (let v = dget task ''evidence_ledger''; d = dict_of v in
      if v = PNone then Inr []
      else
        bindE (raise_if (\<not> is_dict v \<or> \<not> keys_exact d LEDGER_FIELDS) (ValueError ''evidence ledger is incomplete or unknown'')) (\<lambda>_.
        bindE (raise_if (not_text is_evidence_ref (dget d ''candidate_ref'') \<or> not_text is_digest (dget d ''candidate_digest'') \<or> \<not> is_list (dget d ''steps''))
                 (ValueError ''evidence ledger is invalid'')) (\<lambda>_.
        bindE (map_result (resume_step classes) (list_of (dget d ''steps''))) (\<lambda>predicates.
        Inr (sort_key (\<lambda>p. py_str (dget p ''predicate_id'')) predicates)))))"

definition resume_evidence :: "meta \<Rightarrow> string list \<Rightarrow> meta result" where
  "resume_evidence task classes =
     bindE (resume_acceptance task classes) (\<lambda>acceptance.
     bindE (resume_predicates task classes) (\<lambda>predicates.
     Inr [(''acceptance'', acceptance), (''predicates'', PList (map PDict predicates))]))"

section \<open>Recovery and the next action\<close>

definition action_item :: "string \<Rightarrow> string \<Rightarrow> meta" where
  "action_item kind instruction = [(''kind'', PStr kind), (''instruction'', PStr instruction)]"

definition execution_recovery :: "meta \<Rightarrow> int \<Rightarrow> (meta \<times> meta option) result" where
  "execution_recovery task observed_at =
     (let reservation = dget task ''execution_reservation''; d = dict_of reservation in
      if reservation = PNone then Inr ([(''state'', PStr ''clear'')], None)
      else
        bindE (valid_reservation reservation) (\<lambda>ok.
        bindE (raise_if (\<not> ok) (ValueError ''execution reservation is invalid'')) (\<lambda>_.
        bindE (from_iso_z (py_str (dget d ''expires_at''))) (\<lambda>expires_at.
        bindE (dt_le expires_at (Aware observed_at 0)) (\<lambda>expired.
        let details = [(''execution_id'', dget d ''execution_id''), (''expires_at'', dget d ''expires_at''),
              (''observed_at'', PStr (isoformat_utc (truncate_us observed_at)))] in
        Inr (if \<not> expired
             then ((''state'', PStr ''live'') # details,
                   Some (action_item ''wait-for-execution-reservation'' ''Wait for the live bound execution reservation to finish or expire.''))
             else ((''state'', PStr ''expired'') # details,
                   Some (action_item ''recover-execution-reservation'' ''Recover expired reservation with verified exit and result evidence.''))))))))"

definition retry_recovery :: "meta \<Rightarrow> (meta \<times> meta option) result" where
  "retry_recovery task =
     (let state = dget task ''retry_circuit'' in
      if state = PNone then Inr ([(''state'', PStr ''clear'')], None)
      else bindE (retry_validate state) (\<lambda>checked.
        let hold = dget checked ''hold''; reservations = list_of (dget checked ''reservations'') in
        Inr (if reservations \<noteq> []
             then ([(''state'', PStr ''recovery_required''), (''reservations'', PInt (int (length reservations)))],
                   Some (action_item ''recover-retry-reservation'' ''Recover the live retry reservation before resuming work.''))
             else if hold \<noteq> PNone
             then ([(''state'', PStr ''held''), (''attempts'', dget (dict_of hold) ''attempts'')],
                   Some (action_item ''recover-retry-circuit'' ''Record one retry-circuit recovery before repeating the held command.''))
             else ([(''state'', PStr ''clear''), (''attempts'', PInt (int (length (list_of (dget checked ''attempts''))))) ], None))))"

text \<open>\<open>text.split(".", 1)[1]\<close>.\<close>

definition after_dot :: "string \<Rightarrow> string" where
  "after_dot s = drop 1 (dropWhile (\<lambda>c. c \<noteq> CHR ''.'') s)"

definition card_next_action :: "meta \<Rightarrow> meta list \<Rightarrow> meta option \<Rightarrow> meta option \<Rightarrow> meta result" where
  "card_next_action task drift execution retry =
     (case execution of Some a \<Rightarrow> Inr a | None \<Rightarrow>
      case retry of Some a \<Rightarrow> Inr a | None \<Rightarrow>
      case find (\<lambda>item. truthy (dget item ''material'')) drift of
        Some material \<Rightarrow>
          Inr (if dget material ''kind'' = PStr ''scope'' then action_item ''explain-material-drift'' ''Explain the material scope drift.''
               else action_item ''revalidate-material-assumption''
                 (''Revalidate or explicitly dispose material assumption '' @ after_dot (py_str (dget material ''field'')) @ ''.''))
      | None \<Rightarrow> bindE (ditem task ''next_action'') (\<lambda>v. Inr (action_item ''task-next-action'' (py_str v))))"

definition resume_build :: "observer \<Rightarrow> meta \<Rightarrow> meta list \<Rightarrow> int \<Rightarrow> string list \<Rightarrow> meta result" where
  "resume_build ob task tasks observed_at classes =
     bindE (resume_scope task) (\<lambda>(scope, scope_drifts).
     bindE (resume_assumptions ob task tasks) (\<lambda>(assumptions, assumption_drifts).
     bindE (execution_recovery task observed_at) (\<lambda>(execution, execution_next).
     bindE (retry_recovery task) (\<lambda>(retry, retry_next).
     let drift = sort_key (\<lambda>item. py_str (dget item ''field'')) (scope_drifts @ assumption_drifts) in
     bindE (map_result (\<lambda>k. bindE (ditem task k) (\<lambda>v. Inr (k, v))) [''id'', ''priority'', ''status'', ''summary'', ''title'']) (\<lambda>header.
     bindE (resume_source task) (\<lambda>src.
     bindE (resume_evidence task classes) (\<lambda>evidence.
     bindE (resume_acknowledgements task) (\<lambda>acknowledgements.
     bindE (card_next_action task drift execution_next retry_next) (\<lambda>next_action.
     Inr [(''schema_version'', PInt 2), (''observed_at'', PStr (isoformat_utc (truncate_us observed_at))), (''task'', PDict header),
          (''source'', PDict src), (''scope'', PDict scope), (''evidence'', PDict evidence), (''retry'', PDict retry),
          (''recovery'', PDict [(''execution'', PDict execution), (''retry'', PDict retry)]),
          (''assumptions'', PList (map PDict assumptions)), (''drift'', PList (map PDict drift)),
          (''acknowledgements'', PList (map PDict acknowledgements)), (''next_action'', PDict next_action)])))))))))"

section \<open>The command\<close>

definition resume_text :: "meta \<Rightarrow> string" where
  "resume_text c =
     join [newline] ((''RESUME_CARD='' @ py_str (dget (dict_of (dget c ''task'')) ''id'')) #
       map (\<lambda>(name, label). label @ ''='' @ canonical (dget c name))
       [(''schema_version'', ''SCHEMA_VERSION''), (''observed_at'', ''OBSERVED_AT''), (''task'', ''TASK''), (''source'', ''SOURCE''),
        (''scope'', ''SCOPE''), (''assumptions'', ''ASSUMPTIONS''), (''evidence'', ''EVIDENCE''), (''retry'', ''RETRY''), (''recovery'', ''RECOVERY''),
        (''acknowledgements'', ''ACKNOWLEDGEMENTS''), (''drift'', ''DRIFT''), (''next_action'', ''NEXT_ACTION'')]) @ [newline]"

definition resume_command :: "observer \<Rightarrow> string \<Rightarrow> task list \<Rightarrow> bool \<Rightarrow> int \<Rightarrow> string list \<Rightarrow> string result" where
  "resume_command ob task_id tasks as_json observed_at classes =
     (case find (\<lambda>t. dget (task_meta t) ''id'' = PStr task_id) tasks of
        None \<Rightarrow> Inl (RuntimeError (''unknown task '' @ task_id))
      | Some t \<Rightarrow> bindE (resume_build ob (task_meta t) (map task_meta tasks) observed_at classes) (\<lambda>c.
          Inr (if as_json then canonical (PDict c) @ [newline] else resume_text c)))"

definition snapshot_step ::
  "checker \<Rightarrow> (string \<Rightarrow> string \<Rightarrow> string list) \<Rightarrow> evidence_policy \<Rightarrow> task \<Rightarrow> string list \<times> string list \<Rightarrow> (string list \<times> string list) result" where
  "snapshot_step ck private policy t = (\<lambda>(errors, ids).
     let meta = task_meta t; task_id = id_of meta in
     bindE (basic_task_errors ck (fst t) meta (Some policy) True) (\<lambda>basic.
     bindE (case resume_evidence meta (policy_classes policy) of
              Inl e \<Rightarrow> if is_value_error e then Inr [task_id @ '': '' @ exc_message e] else Inl e
            | Inr _ \<Rightarrow> Inr []) (\<lambda>evidence.
     Inr (errors @ (if task_id \<in> set ids then [''duplicate '' @ task_id] else []) @ basic @ resume_projection_errors private t @ evidence,
          ids @ [task_id]))))"

definition snapshot_errors :: "checker \<Rightarrow> (string \<Rightarrow> string \<Rightarrow> string list) \<Rightarrow> evidence_policy \<Rightarrow> task list \<Rightarrow> string list result" where
  "snapshot_errors ck private policy tasks =
     bindE (fold_result (snapshot_step ck private policy) tasks ([], [])) (\<lambda>(errors, _).
     bindE (supersession_errors tasks) (\<lambda>supersession.
     Inr (sorted_set (errors @ graph_errors tasks @ hierarchy_errors tasks @ supersession))))"

text \<open>\<open>dispatch\<close> on one snapshot, under the read lock.\<close>

definition resume_dispatch ::
  "checker \<Rightarrow> (string \<Rightarrow> string \<Rightarrow> string list) \<Rightarrow> observer \<Rightarrow> runtime \<Rightarrow> evidence_policy \<Rightarrow> string \<Rightarrow> task list \<Rightarrow> bool \<Rightarrow> int option \<Rightarrow> string result" where
  "resume_dispatch ck private ob rt policy task_id tasks as_json observed_at =
     bindE (snapshot_errors ck private policy tasks) (\<lambda>errors.
     bindE (raise_if (errors \<noteq> []) (RuntimeError (''resume-card snapshot validation failed:'' @ [newline] @ join [newline] errors))) (\<lambda>_.
     resume_command ob task_id tasks as_json (case observed_at of None \<Rightarrow> current_observed_at rt | Some t \<Rightarrow> t) (policy_classes policy)))"

section \<open>The next action and the admissions\<close>

definition immaterial :: "meta list \<Rightarrow> bool" where
  "immaterial items = list_all (\<lambda>item. \<not> truthy (dget item ''material'')) items"

lemma assumption_drift_immaterial:
  assumes "assumption_status ob task tasks r = Inr (status, observed)"
  shows "immaterial (assumption_drift k r status) \<longleftrightarrow>
    (needs_revalidation r \<longrightarrow> (\<exists>b. current_binding ob task tasks r = Inr b \<and> py_eq (PDict b) (dget (dict_of r) ''binding'')))"
  using assms
  by (auto simp: assumption_status_def assumption_drift_def immaterial_def needs_revalidation_def simp del: py_eq.simps split: if_splits sum.splits)

lemma resume_assumptions_immaterial:
  assumes "resume_assumptions ob task tasks = Inr (cards, drifts)"
  shows "immaterial drifts \<longleftrightarrow> assumption_admission_error ob task tasks = Inr None"
proof -
  obtain rs items where rs: "assumption_records task = Inr rs"
    and items: "map_result (\<lambda>(k, r). bindE (assumption_status ob task tasks r) (\<lambda>(status, observed).
         Inr (assumption_card k r status observed, assumption_drift k r status))) (sort_key fst (active_assumptions rs)) = Inr items"
    and drifts: "drifts = concat (map snd items)"
    using assms by (auto simp: resume_assumptions_def bindE_Inr)
  have "list_all2 (\<lambda>kr item. immaterial (snd item) \<longleftrightarrow> (needs_revalidation (snd kr) \<longrightarrow>
      (\<exists>b. current_binding ob task tasks (snd kr) = Inr b \<and> py_eq (PDict b) (dget (dict_of (snd kr)) ''binding''))))
      (sort_key fst (active_assumptions rs)) items"
    using items unfolding map_result_Inr_iff
    by (rule list.rel_mono_strong) (auto simp: bindE_Inr assumption_drift_immaterial simp del: py_eq.simps split: prod.splits)
  then have "(\<forall>item \<in> set items. immaterial (snd item)) \<longleftrightarrow> (\<forall>kr \<in> set (sort_key fst (active_assumptions rs)). needs_revalidation (snd kr) \<longrightarrow>
      (\<exists>b. current_binding ob task tasks (snd kr) = Inr b \<and> py_eq (PDict b) (dget (dict_of (snd kr)) ''binding'')))"
  proof (induction rule: list_all2_induct)
    case (Cons kr krs item items)
    then show ?case unfolding list.set ball_simps by blast
  qed simp
  moreover have "immaterial drifts \<longleftrightarrow> (\<forall>item \<in> set items. immaterial (snd item))" by (auto simp: drifts immaterial_def list_all_iff)
  ultimately show ?thesis by (simp add: admission_error_None rs stale_assumption_None case_prod_beta del: py_eq.simps)
qed

lemma find_immaterial: "find (\<lambda>item. truthy (dget item ''material'')) (sort_key f xs) = None \<longleftrightarrow> immaterial xs"
  by (auto simp: find_None_iff immaterial_def list_all_iff)

definition retry_clear :: "meta \<Rightarrow> bool" where
  "retry_clear task = (dget task ''retry_circuit'' = PNone \<or>
     (case retry_validate (dget task ''retry_circuit'') of Inl _ \<Rightarrow> False
      | Inr d \<Rightarrow> dget d ''hold'' = PNone \<and> list_of (dget d ''reservations'') = []))"

lemma retry_recovery_clear: "retry_recovery task = Inr (entry, nxt) \<Longrightarrow> nxt = None \<longleftrightarrow> retry_clear task"
  by (auto simp: retry_recovery_def retry_clear_def bindE_Inr Let_def split: if_splits sum.splits)

lemma execution_recovery_clear: "execution_recovery task t = Inr (entry, nxt) \<Longrightarrow> nxt = None \<longleftrightarrow> require_no_execution_reservation task = Inr ()"
  by (auto simp: execution_recovery_def require_no_execution_reservation_def bindE_Inr Let_def split: if_splits)

lemma recovery_kinds:
  "execution_recovery task t = Inr (entry, Some a) \<Longrightarrow> dget a ''kind'' \<noteq> PStr ''task-next-action''"
  "retry_recovery task = Inr (entry, Some a) \<Longrightarrow> dget a ''kind'' \<noteq> PStr ''task-next-action''"
  by (auto simp: execution_recovery_def retry_recovery_def action_item_def bindE_Inr Let_def split: if_splits)

text \<open>Property C40. A resume card hands the worker the action noted in the task exactly when nothing stands in
  the way of it: no execution reservation, no retry hold and no retry reservation, no material change
  without explanation, and every material assumption passes the freshness admission. Otherwise the card
  names a recovery first.\<close>

theorem resume_card_goes_on:
  assumes "resume_build ob task tasks t classes = Inr c"
  shows "dget (dict_of (dget c ''next_action'')) ''kind'' = PStr ''task-next-action'' \<longleftrightarrow>
      require_no_execution_reservation task = Inr () \<and> retry_clear task \<and>
      (\<exists>history. drift_records task = Inr history \<and> unresolved history = []) \<and> assumption_admission_error ob task tasks = Inr None"
proof -
  obtain history scope assumptions drifts execution execution_next retry retry_next next_action where
    h: "drift_records task = Inr history" and a: "resume_assumptions ob task tasks = Inr (assumptions, drifts)"
    and e: "execution_recovery task t = Inr (execution, execution_next)" and r: "retry_recovery task = Inr (retry, retry_next)"
    and n: "card_next_action task (sort_key (\<lambda>item. py_str (dget item ''field'')) (map scope_drift (unresolved history) @ drifts))
      execution_next retry_next = Inr next_action"
    and c: "dget c ''next_action'' = PDict next_action"
    using assms by (auto simp: resume_build_def resume_scope_def bindE_Inr Let_def split: prod.splits)
  let ?drift = "sort_key (\<lambda>item. py_str (dget item ''field'')) (map scope_drift (unresolved history) @ drifts)"
  have imm: "immaterial (map scope_drift (unresolved history) @ drifts) \<longleftrightarrow> unresolved history = [] \<and> assumption_admission_error ob task tasks = Inr None"
    unfolding resume_assumptions_immaterial [OF a, symmetric] by (cases "unresolved history") (simp_all add: immaterial_def scope_drift_def)
  have "dget next_action ''kind'' = PStr ''task-next-action'' \<longleftrightarrow>
      execution_next = None \<and> retry_next = None \<and> find (\<lambda>item. truthy (dget item ''material'')) ?drift = None"
    using n e r recovery_kinds [of task] unfolding card_next_action_def
    by (auto simp: bindE_Inr action_item_def split: option.splits if_splits)
  then show ?thesis
    unfolding c execution_recovery_clear [OF e] retry_recovery_clear [OF r] find_immaterial imm using h by auto
qed

text \<open>A task with a fresh material assumption.\<close>

definition example_resumed :: meta where
  "example_resumed = [(''title'', PStr ''Build''), (''priority'', PStr ''P1''), (''summary'', PStr ''Build it''), (''next_action'', PStr ''Run the tests'')] @ example_declared"

lemma example_resumed_facts:
  "assumption_records example_resumed = Inr [PDict example_assumption]" "drift_records example_resumed = Inr []"
  "dget example_resumed ''execution_reservation'' = PNone" "dget example_resumed ''retry_circuit'' = PNone"
  "dget example_resumed ''spec_acceptance'' = PNone" "dget example_resumed ''evidence_ledger'' = PNone"
  using example_history by (simp_all add: assumption_records_def drift_records_def example_resumed_def example_declared_def example_assuming_def MAX_DRIFT_def)

lemma example_resumed_admitted:
  "current_binding example_observer example_resumed [] (PDict example_assumption) = Inr example_binding"
  "active_assumptions [PDict example_assumption] = [(''api'', PDict example_assumption)]"
  "assumption_admission_error example_observer example_resumed [] = Inr None"
proof -
  note e = example_assumption_sound
  show b: "current_binding example_observer example_resumed [] (PDict example_assumption) = Inr example_binding"
    using e by (simp add: current_binding_def validate_assumption_Inr bindE_Inr example_observation)
  show a: "active_assumptions [PDict example_assumption] = [(''api'', PDict example_assumption)]"
    using e(9) by (simp add: active_assumptions_def dset_def)
  show "assumption_admission_error example_observer example_resumed [] = Inr None"
    unfolding admission_error_None example_resumed_facts(1) using a b e(2,5) by (simp add: stale_assumption_None del: py_eq.simps)
qed

lemma example_resume: "\<exists>c. resume_build example_observer example_resumed [] second_us EVIDENCE_CLASSES = Inr c"
proof -
  note f = example_resumed_facts
  have a: "\<exists>cs. resume_assumptions example_observer example_resumed [] = Inr (cs, [])"
    using example_resumed_admitted(1,2) example_assumption_sound(2,5,6)
    by (simp add: resume_assumptions_def f(1) assumption_status_def assumption_drift_def del: py_eq.simps)
  have s: "\<exists>sc. resume_scope example_resumed = Inr (sc, [])" by (simp add: resume_scope_def f(2) unresolved_def latest_of_def Let_def)
  have x: "\<exists>y. execution_recovery example_resumed second_us = Inr (y, None)" by (simp add: execution_recovery_def f(3))
  have r: "\<exists>y. retry_recovery example_resumed = Inr (y, None)" by (simp add: retry_recovery_def f(4))
  have k: "\<exists>y. resume_acknowledgements example_resumed = Inr y" by (simp add: resume_acknowledgements_def f(1,2) Let_def)
  have v: "\<exists>y. resume_evidence example_resumed cl = Inr y" for cl
    by (simp add: resume_evidence_def resume_acceptance_def resume_predicates_def f(5,6) Let_def)
  have src: "\<exists>y. resume_source example_resumed = Inr y" by (simp add: resume_source_def example_resumed_def example_declared_def example_assuming_def)
  have h: "\<exists>y. map_result (\<lambda>k. bindE (ditem example_resumed k) (\<lambda>v. Inr (k, v))) [''id'', ''priority'', ''status'', ''summary'', ''title''] = Inr y"
    by (simp add: example_resumed_def example_declared_def example_assuming_def)
  have n: "\<exists>y. card_next_action example_resumed [] None None = Inr y" by (simp add: card_next_action_def example_resumed_def)
  show ?thesis unfolding resume_build_def using a s x r k v [of EVIDENCE_CLASSES] src h n by (auto simp: bindE_Inr Let_def simp del: map_result.simps)
qed

theorem resume_card_goes_on_witness:
  "\<exists>c. resume_build example_observer example_resumed [] second_us EVIDENCE_CLASSES = Inr c \<and>
    dget (dict_of (dget c ''next_action'')) ''kind'' = PStr ''task-next-action'' \<and> active_assumptions [PDict example_assumption] \<noteq> []"
proof -
  obtain c where c: "resume_build example_observer example_resumed [] second_us EVIDENCE_CLASSES = Inr c" using example_resume by blast
  have "dget (dict_of (dget c ''next_action'')) ''kind'' = PStr ''task-next-action''"
    unfolding resume_card_goes_on [OF c] using example_resumed_facts example_resumed_admitted(3)
    by (simp add: require_no_execution_reservation_def retry_clear_def unresolved_def latest_of_def)
  then show ?thesis using c example_resumed_admitted(2) by simp
qed

end
