(* ===== verification/Spec2Isabelle.thy ===== *)
theory Spec2Isabelle
  imports Retry_Circuit Autonomy_Limits Execution_Fence Predicate_Ledger Assumptions Change_Drift Lifecycle Git_Mutation Hierarchy Oracle_Gates Checkpoint_Records Roles Directives Rollback Resume_Card
begin

text \<open>
  Verification of the agent workflow coordinator (\<open>src/tools\<close>): a command line tool, \<open>handoffctl\<close>, that keeps the
  shared board of an autonomous team. A task is a record with a revision; workers claim tasks for a
  lease, run commands inside an execution envelope, record evidence and release tasks. Records live in
  Git (one file per task) or in SQLite (one row per task).

  \<^bold>\<open>Parts of the program and the theories that model them.\<close>

  \<^item> Values. \<^verbatim>\<open>Py_Values\<close>: Python values, dictionaries as association lists, \<open>==\<close>, truth, \<open>str\<close> and \<open>int\<close>.
    \<^verbatim>\<open>Py_Time\<close>: ISO 8601 text and instants. \<^verbatim>\<open>Py_Digest\<close>: canonical JSON and SHA-256. \<^verbatim>\<open>Py_Json\<close>: indented JSON and its
    reader. \<^verbatim>\<open>Py_Textwrap\<close>: \<open>textwrap.fill\<close>. \<^verbatim>\<open>Coord_Prelude\<close>: exceptions as values (\<open>exc + 'a\<close>), the combinators
    \<open>bindE\<close>, \<open>catchE\<close>, \<open>raise_if\<close>, \<open>map_result\<close>, \<open>fold_result\<close> and the lemmas that the components share.
  \<^item> Histories inside records. \<^verbatim>\<open>Journal\<close> and \<^verbatim>\<open>Linked_Records\<close> hold the interfaces (locales) of bounded revision
    journals, history files and digest-linked histories, with what their clients rely on.
  \<^item> The board. \<^verbatim>\<open>Task_Graph\<close> (\<open>status_renderer.py\<close>: \<open>graph_errors\<close>; \<open>handoffctl.py\<close>: \<open>dependency_satisfied\<close>),
    \<^verbatim>\<open>Hierarchy\<close> (\<open>hierarchy.py\<close>), \<^verbatim>\<open>Task_Records\<close> (\<open>handoffctl.py\<close>: \<open>value_errors\<close>, \<open>reference_errors\<close>,
    \<open>claim_errors\<close>, \<open>mutation_global_errors\<close>).
  \<^item> Claims and executions. \<^verbatim>\<open>Claims\<close> (leases and worker identities), \<^verbatim>\<open>Execution_Envelope\<close>
    (\<open>execution_envelope.py\<close>), \<^verbatim>\<open>Execution_Fence\<close> (\<open>execution_lifecycle.py\<close>, \<open>execution_receipt.py\<close>,
    \<open>execution_abandonment.py\<close>), \<^verbatim>\<open>Retry_Circuit\<close> (\<open>retry_circuit.py\<close>), \<^verbatim>\<open>Autonomy_Limits\<close> (\<open>autonomy_limits.py\<close>).
  \<^item> Evidence. \<^verbatim>\<open>Task_Spec\<close> (\<open>task_spec.py\<close>, \<open>mutation_admission.py\<close>), \<^verbatim>\<open>Predicate_Ledger\<close> (\<open>predicate_ledger.py\<close>,
    \<open>predicate_ledger_repair.py\<close>), \<^verbatim>\<open>Assumptions\<close> (\<open>assumption_revalidation.py\<close>), \<^verbatim>\<open>Change_Drift\<close>
    (\<open>change_drift.py\<close>), \<^verbatim>\<open>Oracle_Gates\<close> (\<open>oracle_lifecycle.py\<close>).
  \<^item> Histories of tasks. \<^verbatim>\<open>Session_Records\<close> (\<open>session_records.py\<close>), \<^verbatim>\<open>Checkpoint_Records\<close> (\<open>checkpoint_records.py\<close>).
  \<^item> Transitions. \<^verbatim>\<open>Lifecycle\<close> (\<open>handoffctl.py\<close>: every \<open>apply_\<close> handler and \<open>apply_transition\<close>;
    \<open>legacy_binding_repair.py\<close>) calls all of the above.
  \<^item> Authority. \<^verbatim>\<open>Roles\<close> (\<open>role_registry.py\<close>, \<open>role_assignment.py\<close>, \<open>roles.py\<close>: who may own tasks; the handlers ask it
    through \<open>rt_role\<close> of the runtime), \<^verbatim>\<open>Directives\<close> (\<open>directive_records.py\<close>; \<open>handoffctl.py\<close>: \<open>cmd_directive\<close>).
  \<^item> Storage. \<^verbatim>\<open>Sqlite_Store\<close> (\<open>sqlite_storage.py\<close>: schema and transactions), \<^verbatim>\<open>Task_Mutation\<close> (\<open>handoffctl.py\<close>:
    \<open>mutate_sqlite\<close>), \<^verbatim>\<open>Task_Files\<close> (\<open>handoffctl.py\<close>: \<open>read_task\<close>, \<open>write_task\<close>), \<^verbatim>\<open>Git_Mutation\<close>
    (\<open>handoffctl.py\<close>: \<open>_mutate_fenced\<close>, \<open>persist_git_mutation\<close>, \<open>commit_persisted_mutation\<close>), \<^verbatim>\<open>Jsonl_Journal\<close> (the
    format of the directive and rollback journals).
  \<^item> Views. \<^verbatim>\<open>Campaign\<close> (\<open>campaign.py\<close>, \<open>campaign_runtime.py\<close>) and \<^verbatim>\<open>Resume_Card\<close> (\<open>resume_card.py\<close>, \<open>resume_card_runtime.py\<close>)
    read the whole board and tell a worker what to do next.
  \<^item> Rollback. \<^verbatim>\<open>Rollback\<close> (\<open>rollback_records.py\<close>; \<open>handoffctl.py\<close>: \<open>cmd_rollback\<close>): a checkpoint is restored by a
    revert of the product and a task mutation, each journalled before and after; a command may raise or be
    killed at every effect.

  \<^bold>\<open>How the models correspond to the code.\<close> A task record is its dictionary (\<open>meta\<close>); the parsed command line
  is a dictionary too (\<open>namespace\<close>). A function that may raise returns \<open>exc + 'a\<close>, with the exception class
  and the message of the source; a handler that updates its argument in place returns the new value.
  What a function reads besides its arguments is an explicit argument: the clock, the process table and
  the role admission (\<open>runtime\<close>), files, Git and the private configuration (\<open>world\<close>, \<open>project_root\<close>,
  \<open>policy_source\<close>, \<open>observer\<close>, \<open>git_worktree\<close>). Nothing is assumed of them except where a property says so.

  \<^bold>\<open>What the lemmas show.\<close>

  \<^item> Validators are exact or sound: \<open>graph_errors\<close>, \<open>dependency_satisfied\<close>, the envelope preflight, freshness
    admission, drift admission and the board check are compared with declarative conditions.
  \<^item> State machines: the execution fence refines a three-state machine (\<open>Execution_Fence\<close>), every task command
    refines the claim automaton \<open>life_step\<close> (\<open>Lifecycle\<close>, through the locale \<open>claim_neutral\<close> interpreted for each
    handler), apart from the moves with an empty owner argument that \<open>unowned_step\<close> lists; gate stages are completed in order,
    and only the admitted moves, the restoring of a checkpoint and such a release reach \<open>done\<close>.
  \<^item> Histories: appended records keep linked, bounded and valid histories, and are read back.
  \<^item> Bounds: retry windows, budgets, journal caps.
  \<^item> Concurrency: \<open>Sqlite_Store\<close> states the interface of a store with optimistic revisions (\<open>versioned_store\<close>) and
    interprets it on the transactions of the schema; no update is lost and every revision has its event.
    \<open>Task_Mutation\<close> composes it with the transition and the checks: whatever ran in between, a committed
    mutation leaves a checked board. \<open>Git_Mutation\<close> shows the same for the files: a mutation returns with a checked
    board or leaves the board and the journals of before. \<open>Roles\<close> interprets \<open>versioned_store\<close> a second time on the
    role store.
  \<^item> Authority: a task gets an owner only while the role store grants the role; active directives never
    contradict each other, and a directive whose lease has run out is frozen until the bounded journal drops it.
  \<^item> Recovery: however often a checkpoint is rolled back or reconciled, and wherever the commands raise or are
    killed, the product is reverted at most once, as long as the policy file does not change (\<open>Rollback\<close>, by
    Hoare triples over actions with three outcomes); \<open>published_commit_lost\<close> shows why that condition is needed.
  \<^item> Views: at the instant of a campaign no recovery command is accepted on a task whose card does not advise it, and
    a resume card lets a worker go on exactly when drift, assumptions, retries and reservations all admit it.
  \<^item> Formats: a task file is read back as it was written, up to the line ends of the body.

  \<^bold>\<open>Fuel and bounds.\<close> The depth-first search of \<open>graph_errors\<close> has the number of tasks plus one as fuel, and
  \<open>cycle_errors\<close> is proved to end within it. The JSON reader has the length of the text as fuel, and reading a
  printed value is proved to return. Supersession chains, hierarchy walks and line filling terminate by
  measures. Integers are unbounded as in Python; SQLite columns refuse values beyond 64 bits.

  \<^bold>\<open>Not modelled.\<close> Argument parsers and command entry points; process launching and file descriptor handling of
  the sandbox (\<open>execution_envelope.py\<close>); rendering of the Markdown views (\<open>status_renderer.py\<close>, \<open>board_metrics.py\<close>);
  Git subprocess plumbing and replica synchronisation; SQLite connections, file locks, capability bindings,
  migrations and issue-series tables (\<open>sqlite_storage.py\<close>, \<open>sqlite_authority_adapter.py\<close>); the upgrade engine and its
  rollback store (\<open>upgrade_engine.py\<close>, \<open>upgrade_authority.py\<close>, \<open>rollback_control_store.py\<close>); fast receipts
  (\<open>fast_receipts.py\<close>, \<open>fast_receipt_worker.py\<close>); discussion sessions and issue
  series; the polling of the shared read lock of the views. They are input and output, or separate programs around the
  task core. Floating point numbers and characters beyond Latin-1 are outside the value type. Failures of the file
  system are modelled where the code handles them, and not elsewhere: a view or task file that is to be written is
  written, and the test of the sidecar files after a SQLite commit, which can raise with the commit standing, is left
  out. Identifiers that cannot be hashed, which the validators refuse, are taken as absent by the dictionaries of the board.
\<close>

end
